(* ===== verification/Prelude.thy ===== *)
theory Prelude
  imports Complex_Main "HOL-Library.Sublist"
begin

text \<open>
  Shared vocabulary of the development: Python strings, decoded JSON values, exceptions and
  asyncio outcomes, association-list dictionaries, and the generic lemmas the component theories
  use. A \<open>string\<close> is a list of \<open>char\<close>, so a character stands for a code point below 256 and
  \<^theory_text>\<open>length\<close> counts code points, as Python's \<open>len\<close> does. Clock readings
  (\<open>time.monotonic()\<close>) are rationals. Log calls of the source are not modelled.
\<close>

named_theorems inv_simps "definitions of invariants, unfolded by invariant proofs"
named_theorems inv_intros "preservation lemmas of the operations of a component"

type_synonym time = rat

section \<open>Strings\<close>

definition py_isspace :: "char \<Rightarrow> bool" where
  "py_isspace c \<longleftrightarrow>
     (let n = (of_char c :: nat) in
      (9 \<le> n \<and> n \<le> 13) \<or> (28 \<le> n \<and> n \<le> 32) \<or> n = 133 \<or> n = 160)"

definition lstrip :: "string \<Rightarrow> string" where
  "lstrip s = dropWhile py_isspace s"

definition rstrip :: "string \<Rightarrow> string" where
  "rstrip s = rev (dropWhile py_isspace (rev s))"

definition strip :: "string \<Rightarrow> string" where
  "strip s = rstrip (lstrip s)"

definition startswith :: "string \<Rightarrow> string \<Rightarrow> bool" where
  "startswith s p = (take (length p) s = p)"

definition str_contains :: "string \<Rightarrow> string \<Rightarrow> bool" where
  "str_contains w s = (\<exists>i\<in>set [0..<Suc (length s)]. startswith (drop i s) w)"

definition py_alpha :: "char \<Rightarrow> bool" where
  "py_alpha c \<longleftrightarrow>
     (let n = (of_char c :: nat) in
      (65 \<le> n \<and> n \<le> 90) \<or> (97 \<le> n \<and> n \<le> 122) \<or> n = 95 \<or> n = 170 \<or> n = 181 \<or> n = 186
      \<or> (192 \<le> n \<and> n \<le> 214) \<or> (216 \<le> n \<and> n \<le> 246) \<or> 248 \<le> n)"

definition py_digit :: "char \<Rightarrow> bool" where
  "py_digit c \<longleftrightarrow> (let n = (of_char c :: nat) in 48 \<le> n \<and> n \<le> 57)"

definition py_isidentifier :: "string \<Rightarrow> bool" where
  "py_isidentifier s =
     (case s of [] \<Rightarrow> False
      | c # cs \<Rightarrow> py_alpha c \<and>
          list_all (\<lambda>d. py_alpha d \<or> py_digit d \<or> (of_char d :: nat) = 183) cs)"

definition ascii_lower :: "char \<Rightarrow> char" where
  "ascii_lower c = (let n = (of_char c :: nat) in
     if (65 \<le> n \<and> n \<le> 90) \<or> (192 \<le> n \<and> n \<le> 222 \<and> n \<noteq> 215) then char_of (n + 32) else c)"

definition lower :: "string \<Rightarrow> string" where
  "lower s = map ascii_lower s"

lemma startswith_prefix: "startswith s p \<longleftrightarrow> prefix p s"
  unfolding startswith_def by (metis append_take_drop_id prefix_def append_eq_conv_conj)

lemma startswith_append [simp]: "startswith (p @ s) p"
  by (simp add: startswith_def)

lemma startswith_drop: "startswith s p \<Longrightarrow> p @ drop (length p) s = s"
  unfolding startswith_def by (metis append_take_drop_id)

lemma startswith_refl [simp]: "startswith s s"
  by (simp add: startswith_def)

lemma startswith_Nil [simp]: "startswith s []"
  by (simp add: startswith_def)

lemma lstrip_Nil [simp]: "lstrip [] = []"
  by (simp add: lstrip_def)

lemma strip_Nil [simp]: "strip [] = []"
  by (simp add: strip_def lstrip_def rstrip_def)

lemma strip_Nil_iff: "strip s = [] \<longleftrightarrow> list_all py_isspace s"
proof -
  have "strip s = [] \<longleftrightarrow> list_all py_isspace (lstrip s)"
    by (simp add: strip_def rstrip_def list_all_iff)
  also have "\<dots> \<longleftrightarrow> list_all py_isspace s"
    by (induction s) (auto simp: lstrip_def)
  finally show ?thesis .
qed

lemma strip_lstrip_nonempty: "strip (lstrip s) \<noteq> [] \<longleftrightarrow> strip s \<noteq> []"
  unfolding strip_Nil_iff by (induction s) (auto simp: lstrip_def)

lemma strip_nonempty_imp_nonempty: "strip s \<noteq> [] \<Longrightarrow> s \<noteq> []"
  by auto

section \<open>Decoded JSON\<close>

text \<open>
  What \<open>json.loads\<close> returns. A dict is an association list. Python's \<open>d.get(k)\<close> gives \<open>None\<close>
  both for a missing key and for JSON null, so \<open>dget\<close> gives \<open>JNull\<close> for both.
\<close>

datatype json =
    JNull
  | JBool bool
  | JInt int
  | JFloat rat
  | JStr string
  | JArr "json list"
  | JObj "(string \<times> json) list"

type_synonym dict = "(string \<times> json) list"

definition dget :: "dict \<Rightarrow> string \<Rightarrow> json" where
  "dget d k = (case map_of d k of None \<Rightarrow> JNull | Some v \<Rightarrow> v)"

definition dget_or :: "dict \<Rightarrow> string \<Rightarrow> json \<Rightarrow> json" where
  "dget_or d k v0 = (case map_of d k of None \<Rightarrow> v0 | Some v \<Rightarrow> v)"

fun truthy :: "json \<Rightarrow> bool" where
  "truthy JNull = False"
| "truthy (JBool b) = b"
| "truthy (JInt i) = (i \<noteq> 0)"
| "truthy (JFloat r) = (r \<noteq> 0)"
| "truthy (JStr s) = (s \<noteq> [])"
| "truthy (JArr xs) = (xs \<noteq> [])"
| "truthy (JObj d) = (d \<noteq> [])"

fun is_dict :: "json \<Rightarrow> bool" where
  "is_dict (JObj _) = True"
| "is_dict _ = False"

section \<open>Exceptions\<close>

text \<open>
  The exceptions the source raises or distinguishes. \<open>CancelledError\<close> is the only one that is
  not an \<open>Exception\<close> (it is a \<open>BaseException\<close>), so \<open>except Exception\<close> lets it through.
\<close>

datatype exn =
    CancelledError
  | TimeoutError
  | ConnectionClosed "nat option"
  | OrchestratorHandshakeError
  | TranscriberHandshakeError string
  | OrchestratorError string
  | ClientGone
  | ClientSlow
  | TurnInProgress
  | ValueError
  | TypeError
  | KeyError
  | AttributeError
  | RuntimeError
  | ConnectionError
  | OtherError string

definition is_Exception :: "exn \<Rightarrow> bool" where
  "is_Exception e \<longleftrightarrow> e \<noteq> CancelledError"

definition is_ClientGone :: "exn \<Rightarrow> bool" where
  "is_ClientGone e \<longleftrightarrow> e = ClientGone \<or> e = ClientSlow"

definition is_RuntimeError :: "exn \<Rightarrow> bool" where
  "is_RuntimeError e \<longleftrightarrow>
     (case e of RuntimeError \<Rightarrow> True | OrchestratorError _ \<Rightarrow> True
      | OrchestratorHandshakeError \<Rightarrow> True | TranscriberHandshakeError _ \<Rightarrow> True | _ \<Rightarrow> False)"

fun type_name :: "exn \<Rightarrow> string" where
  "type_name CancelledError = ''CancelledError''"
| "type_name TimeoutError = ''TimeoutError''"
| "type_name (ConnectionClosed _) = ''ConnectionClosed''"
| "type_name OrchestratorHandshakeError = ''OrchestratorHandshakeError''"
| "type_name (TranscriberHandshakeError _) = ''TranscriberHandshakeError''"
| "type_name (OrchestratorError _) = ''OrchestratorError''"
| "type_name ClientGone = ''ClientGone''"
| "type_name ClientSlow = ''ClientSlow''"
| "type_name TurnInProgress = ''TurnInProgress''"
| "type_name ValueError = ''ValueError''"
| "type_name TypeError = ''TypeError''"
| "type_name KeyError = ''KeyError''"
| "type_name AttributeError = ''AttributeError''"
| "type_name RuntimeError = ''RuntimeError''"
| "type_name ConnectionError = ''ConnectionError''"
| "type_name (OtherError t) = t"

section \<open>Insertion-ordered dictionaries\<close>

text \<open>
  A Python dict whose iteration order matters: an association list with distinct keys.
  Assigning to an existing key keeps its position, a new key goes last.
\<close>

fun dput :: "'k \<Rightarrow> 'v \<Rightarrow> ('k \<times> 'v) list \<Rightarrow> ('k \<times> 'v) list" where
  "dput k v [] = [(k, v)]"
| "dput k v ((k', v') # xs) = (if k = k' then (k, v) # xs else (k', v') # dput k v xs)"

definition dpop :: "'k \<Rightarrow> ('k \<times> 'v) list \<Rightarrow> ('k \<times> 'v) list" where
  "dpop k xs = filter (\<lambda>(k', _). k' \<noteq> k) xs"

lemma map_of_dput [simp]: "map_of (dput k v xs) = (map_of xs)(k \<mapsto> v)"
  by (induction k v xs rule: dput.induct) auto

lemma map_of_dpop [simp]: "map_of (dpop k xs) = (map_of xs)(k := None)"
  by (induction xs) (auto simp: dpop_def)

lemma fst_dput: "fst ` set (dput k v xs) = insert k (fst ` set xs)"
  by (induction k v xs rule: dput.induct) auto

lemma in_set_dput [simp]: "(k, v) \<in> set (dput k v xs)"
  by (induction k v xs rule: dput.induct) auto

lemma distinct_dput [simp]: "distinct (map fst (dput k v xs)) \<longleftrightarrow> distinct (map fst xs)"
proof (induction k v xs rule: dput.induct)
  case (2 k v k' v' xs)
  then show ?case by (auto simp: fst_dput)
qed simp

lemma distinct_dpop [simp]: "distinct (map fst xs) \<Longrightarrow> distinct (map fst (dpop k xs))"
  by (induction xs) (auto simp: dpop_def)

lemma length_dput: "length (dput k v xs) = (if k \<in> fst ` set xs then length xs else Suc (length xs))"
  by (induction k v xs rule: dput.induct) auto

lemma length_dpop_le [simp]: "length (dpop k xs) \<le> length xs"
  by (simp add: dpop_def)

section \<open>Rounding\<close>

text \<open>Python's \<open>round\<close>: to the nearest, halves to the even neighbour; \<open>py_round_n n x\<close> is \<open>round(x, n)\<close>.\<close>

definition py_round :: "rat \<Rightarrow> int" where
  "py_round x =
     (let f = \<lfloor>x\<rfloor>; r = x - of_int f in
      if r < 1 / 2 then f else if 1 / 2 < r then f + 1 else if even f then f else f + 1)"

definition py_round_n :: "nat \<Rightarrow> rat \<Rightarrow> rat" where
  "py_round_n n x = of_int (py_round (x * 10 ^ n)) / 10 ^ n"

lemma py_round_of_int [simp]: "py_round (of_int i) = i"
  by (simp add: py_round_def)

section \<open>Generic lemmas\<close>

lemma min_max_clamp: "(lo::'a::linorder) \<le> hi \<Longrightarrow> lo \<le> max lo (min x hi) \<and> max lo (min x hi) \<le> hi"
  by auto

lemma foldl_invariant:
  assumes "P s" and "\<And>s x. P s \<Longrightarrow> x \<in> set xs \<Longrightarrow> P (f s x)"
  shows "P (foldl f s xs)"
  using assms by (induction xs arbitrary: s) auto

lemma map_filter_append [simp]: "List.map_filter f (xs @ ys) = List.map_filter f xs @ List.map_filter f ys"
  by (simp add: List.map_filter_def)

end
