(* ===== verification/Reconnection.thy ===== *)
theory Reconnection
  imports Prelude
begin

text \<open>
  \<open>services/reconnection.py\<close>: the connection state shared by the reconnecting wrappers
  (\<open>ServiceHealth\<close>), the retry loop with exponential backoff (\<open>reconnect_with_backoff\<close>), the
  lazy backoff window of the speech providers (\<open>LazyBackoffGate\<close>) and the content-free error
  descriptions. The locale \<open>backoff_gate\<close> is the contract the speech providers rely on.
\<close>

section \<open>Stable error descriptions\<close>

definition safe_code :: "json \<Rightarrow> string" where
  "safe_code code =
     (case code of
        JStr s \<Rightarrow> if py_isidentifier s \<and> length s \<le> 40 then s else ''unknown''
      | _ \<Rightarrow> ''unknown'')"

fun stable_code :: "exn \<Rightarrow> string option" where
  "stable_code OrchestratorHandshakeError = Some ''orchestrator_handshake_failed''"
| "stable_code (TranscriberHandshakeError code) =
     Some (''transcriber_handshake_failed['' @ safe_code (JStr code) @ '']'')"
| "stable_code _ = None"

definition describe_error :: "exn \<Rightarrow> string" where
  "describe_error exc = (case stable_code exc of Some code \<Rightarrow> code | None \<Rightarrow> type_name exc)"

lemma safe_code_shape: "safe_code c = ''unknown'' \<or> (\<exists>s. c = JStr s \<and> safe_code c = s \<and> length s \<le> 40)"
  by (auto simp: safe_code_def split: json.splits)

section \<open>ServiceHealth\<close>

datatype connection_state = CONNECTED | RECONNECTING | DEGRADED

definition to_wire_state :: "connection_state \<Rightarrow> string" where
  "to_wire_state s =
     (case s of CONNECTED \<Rightarrow> ''restored'' | RECONNECTING \<Rightarrow> ''reconnecting''
      | DEGRADED \<Rightarrow> ''unavailable'')"

text \<open>
  \<open>hook\<close> tells whether \<open>on_state_change\<close> is set, \<open>notified\<close> is the sequence of its calls. An
  exception of the hook is caught by \<open>set_state\<close> and changes nothing.
\<close>

record service_health =
  hname :: string
  hstate :: connection_state
  connected_at :: "time option"
  reconnect_attempts :: nat
  last_error :: "string option"
  hook :: bool
  notified :: "connection_state list"

definition new_health :: "string \<Rightarrow> connection_state \<Rightarrow> service_health" where
  "new_health name initial_state =
     \<lparr>hname = name, hstate = initial_state, connected_at = None, reconnect_attempts = 0,
      last_error = None, hook = False, notified = []\<rparr>"

definition set_state :: "connection_state \<Rightarrow> service_health \<Rightarrow> service_health" where
  "set_state s h =
     (if s = hstate h then h
      else let h1 = h\<lparr>hstate := s\<rparr> in
        if hook h then h1\<lparr>notified := notified h @ [s]\<rparr> else h1)"

definition mark_connected :: "time \<Rightarrow> service_health \<Rightarrow> service_health" where
  "mark_connected now h =
     set_state CONNECTED (h\<lparr>connected_at := Some now, reconnect_attempts := 0, last_error := None\<rparr>)"

definition mark_attempt_failed :: "string \<Rightarrow> service_health \<Rightarrow> service_health" where
  "mark_attempt_failed err h =
     h\<lparr>reconnect_attempts := Suc (reconnect_attempts h), last_error := Some err\<rparr>"

record service_status =
  st_name :: string
  st_state :: connection_state
  st_connected_at :: "time option"
  st_attempts :: nat
  st_last_error :: "string option"

definition status :: "service_health \<Rightarrow> service_status" where
  "status h = \<lparr>st_name = hname h, st_state = hstate h, st_connected_at = connected_at h,
     st_attempts = reconnect_attempts h, st_last_error = last_error h\<rparr>"

lemma hstate_simps [simp]:
  "hstate (set_state s h) = s"
  "hstate (mark_connected t h) = CONNECTED"
  "hstate (mark_attempt_failed e h) = hstate h"
  by (auto simp: set_state_def mark_connected_def mark_attempt_failed_def Let_def)

lemma attempts_simps [simp]:
  "reconnect_attempts (set_state s h) = reconnect_attempts h"
  "reconnect_attempts (mark_connected t h) = 0"
  "reconnect_attempts (mark_attempt_failed e h) = Suc (reconnect_attempts h)"
  "last_error (set_state s h) = last_error h"
  "last_error (mark_connected t h) = None"
  "last_error (mark_attempt_failed e h) = Some e"
  by (auto simp: set_state_def mark_connected_def mark_attempt_failed_def Let_def)

lemma notified_simps [simp]:
  "notified (mark_attempt_failed e h) = notified h"
  "hook (set_state s h) = hook h"
  "hook (mark_connected t h) = hook h"
  "hook (mark_attempt_failed e h) = hook h"
  by (auto simp: set_state_def mark_connected_def mark_attempt_failed_def Let_def)

text \<open>The hook sees the sequence of states without repetitions, and it starts after \<open>s0\<close>.\<close>

definition hook_ok :: "connection_state \<Rightarrow> service_health \<Rightarrow> bool" where
  "hook_ok s0 h \<longleftrightarrow>
     hook h \<and> distinct_adj (s0 # notified h) \<and> last (s0 # notified h) = hstate h"

datatype health_op = SetState connection_state | MarkConnected time | MarkFailed string

fun health_step :: "service_health \<Rightarrow> health_op \<Rightarrow> service_health" where
  "health_step h (SetState s) = set_state s h"
| "health_step h (MarkConnected t) = mark_connected t h"
| "health_step h (MarkFailed e) = mark_attempt_failed e h"

lemma distinct_adj_snoc:
  "distinct_adj (xs @ [x]) \<longleftrightarrow> distinct_adj xs \<and> (xs = [] \<or> last xs \<noteq> x)"
  by (induction xs rule: induct_list012) auto

lemma hook_ok_set_state: "hook_ok s0 h \<Longrightarrow> hook_ok s0 (set_state s h)"
  unfolding hook_ok_def set_state_def Let_def
  using distinct_adj_snoc[of "s0 # notified h" s] by auto

lemma hook_ok_step: "hook_ok s0 h \<Longrightarrow> hook_ok s0 (health_step h a)"
proof (cases a)
  case (MarkConnected t)
  assume "hook_ok s0 h"
  then have "hook_ok s0 (h\<lparr>connected_at := Some t, reconnect_attempts := 0, last_error := None\<rparr>)"
    by (simp add: hook_ok_def)
  then show ?thesis using MarkConnected by (simp add: mark_connected_def hook_ok_set_state)
qed (auto simp: hook_ok_set_state, simp add: hook_ok_def mark_attempt_failed_def)

section \<open>reconnect-with-backoff\<close>

text \<open>
  The awaited \<open>attempt\<close> is given by its outcome and its duration (\<open>att i\<close>, \<open>dur i\<close> for the
  attempt number \<open>i\<close>), and \<open>late i\<close> is how much longer than asked the sleep after it lasts. The
  loop runs on fuel (one unit per attempt) and also returns the sleeps it asked for, in order.
  The result is \<open>None\<close> when the fuel runs out, \<open>Inl CancelledError\<close> when an attempt was cancelled.
\<close>

record backoff_run =
  outcome :: "exn + bool"
  after :: service_health
  clock :: time
  sleeps :: "time list"

fun reconnect_loop ::
  "nat \<Rightarrow> (nat \<Rightarrow> exn option) \<Rightarrow> (nat \<Rightarrow> time) \<Rightarrow> (nat \<Rightarrow> time) \<Rightarrow> time \<Rightarrow> time \<Rightarrow> time \<Rightarrow>
   nat \<Rightarrow> time \<Rightarrow> time \<Rightarrow> time list \<Rightarrow> service_health \<Rightarrow> backoff_run option" where
  "reconnect_loop 0 att dur late max_backoff max_duration start i now backoff sl h = None"
| "reconnect_loop (Suc fuel) att dur late max_backoff max_duration start i now backoff sl h =
     (let t = now + dur i in
      case att i of
        None \<Rightarrow> Some \<lparr>outcome = Inr True, after = mark_connected t h, clock = t, sleeps = sl\<rparr>
      | Some CancelledError \<Rightarrow>
          Some \<lparr>outcome = Inl CancelledError, after = h, clock = t, sleeps = sl\<rparr>
      | Some e \<Rightarrow>
          let h1 = mark_attempt_failed (describe_error e) h in
          if t - start \<ge> max_duration
          then Some \<lparr>outcome = Inr False, after = set_state DEGRADED h1, clock = t, sleeps = sl\<rparr>
          else reconnect_loop fuel att dur late max_backoff max_duration start (Suc i)
                 (t + backoff + late i) (min (backoff * 2) max_backoff) (sl @ [backoff]) h1)"

definition reconnect_with_backoff ::
  "nat \<Rightarrow> (nat \<Rightarrow> exn option) \<Rightarrow> (nat \<Rightarrow> time) \<Rightarrow> (nat \<Rightarrow> time) \<Rightarrow> time \<Rightarrow>
   service_health \<Rightarrow> time \<Rightarrow> time \<Rightarrow> time \<Rightarrow> backoff_run option" where
  "reconnect_with_backoff fuel att dur late start health initial_backoff max_backoff max_duration =
     reconnect_loop fuel att dur late max_backoff max_duration start 0 start initial_backoff []
       health"

lemma reconnect_loop_result:
  "reconnect_loop fuel att dur late mb md start i now b sl h = Some r \<Longrightarrow>
   (outcome r = Inr True \<longrightarrow> hstate (after r) = CONNECTED \<and> reconnect_attempts (after r) = 0) \<and>
   (outcome r = Inr False \<longrightarrow> hstate (after r) = DEGRADED \<and> md \<le> clock r - start) \<and>
   (outcome r = Inl e \<longrightarrow> e = CancelledError \<and> hstate (after r) = hstate h)"
proof (induction fuel arbitrary: i now b sl h)
  case (Suc fuel)
  show ?case
  proof (cases "att i")
    case None
    then show ?thesis using Suc.prems by (auto simp: Let_def)
  next
    case (Some x)
    then show ?thesis
      using Suc.prems Suc.IH by (cases x) (fastforce simp: Let_def split: if_splits)+
  qed
qed simp

lemma reconnect_loop_enough_fuel:
  assumes "0 < bmin" "bmin \<le> b" "bmin \<le> mb" "\<And>j. 0 \<le> dur j" "\<And>j. 0 \<le> late j"
    and "md - (now - start) \<le> of_nat n * bmin"
  shows "reconnect_loop (Suc n + k) att dur late mb md start i now b sl h \<noteq> None"
  using assms(2,6)
proof (induction n arbitrary: i now b sl h)
  case 0
  have "0 \<le> dur i" by (rule assms(4))
  with 0 have "md \<le> now + dur i - start" by simp
  then show ?case
    by (cases "att i") (auto simp: Let_def split: exn.splits)
next
  case (Suc n)
  have step: "reconnect_loop (Suc n + k) att dur late mb md start (Suc i) (now + dur i + b + late i)
      (min (b * 2) mb) (sl @ [b]) h' \<noteq> None" for h'
  proof (rule Suc.IH)
    show "bmin \<le> min (b * 2) mb" using Suc.prems assms(1,3) by simp
    have "0 \<le> dur i" "0 \<le> late i" by (rule assms(4,5))+
    then show "md - (now + dur i + b + late i - start) \<le> of_nat n * bmin"
      using Suc.prems by (simp add: algebra_simps)
  qed
  show ?case
    using step by (cases "att i") (auto simp: Let_def split: exn.splits)
qed

text \<open>The sleeps asked for double from the initial backoff and are capped at the maximum.\<close>

definition backoff_at :: "time \<Rightarrow> time \<Rightarrow> nat \<Rightarrow> time" where
  "backoff_at initial maxb i = (if i = 0 then initial else min (initial * 2 ^ i) maxb)"

lemma backoff_at_step:
  "0 < initial \<Longrightarrow> 0 < maxb \<Longrightarrow>
   min (backoff_at initial maxb i * 2) maxb = backoff_at initial maxb (Suc i)"
  by (auto simp: backoff_at_def min_def mult.assoc)

lemma reconnect_loop_sleeps:
  assumes "0 < initial" "0 < maxb"
  shows "reconnect_loop fuel att dur late maxb md start i now (backoff_at initial maxb i)
           (map (backoff_at initial maxb) [0..<i]) h = Some r \<Longrightarrow>
         \<exists>n. sleeps r = map (backoff_at initial maxb) [0..<n]"
proof (induction fuel arbitrary: i now h)
  case (Suc fuel)
  show ?case
  proof (cases "att i")
    case None
    with Suc.prems show ?thesis by (auto simp: Let_def)
  next
    case (Some x)
    have snoc: "map (backoff_at initial maxb) [0..<i] @ [backoff_at initial maxb i]
        = map (backoff_at initial maxb) [0..<Suc i]" by simp
    show ?thesis
      using Suc.prems Some Suc.IH[of "Suc i"]
      unfolding reconnect_loop.simps snoc backoff_at_step[OF assms]
      by (cases x) (auto simp: Let_def simp del: upt_Suc split: if_splits)
  qed
qed simp

section \<open>Properties\<close>

text \<open>
  C24: With positive backoffs the retry loop always returns, whatever the attempts do: one attempt
  per \<open>min initial max\<close> seconds of \<open>max_duration\<close> plus one is enough. It reports success exactly
  with the service CONNECTED and no failed attempts left, exhaustion with it DEGRADED and the
  whole window spent, and between attempts it sleeps the initial backoff, then twice as long each
  time up to the maximum.
\<close>

theorem reconnect_terminates:
  assumes pos: "0 < initial_backoff" "0 < max_backoff"
    and t: "\<And>j. 0 \<le> dur j" "\<And>j. 0 \<le> late j"
    and fuel: "nat \<lceil>max_duration / min initial_backoff max_backoff\<rceil> < fuel"
  shows "\<exists>r n. reconnect_with_backoff fuel att dur late start h initial_backoff max_backoff max_duration
             = Some r \<and>
           (case outcome r of
              Inr True \<Rightarrow> hstate (after r) = CONNECTED \<and> reconnect_attempts (after r) = 0
            | Inr False \<Rightarrow> hstate (after r) = DEGRADED \<and> max_duration \<le> clock r - start
            | Inl e \<Rightarrow> e = CancelledError \<and> hstate (after r) = hstate h) \<and>
           sleeps r = map (backoff_at initial_backoff max_backoff) [0..<n]"
proof -
  let ?b = "min initial_backoff max_backoff"
  let ?n = "nat \<lceil>max_duration / ?b\<rceil>"
  have b: "0 < ?b" using pos by simp
  have "max_duration / ?b \<le> of_nat ?n" by (rule of_nat_ceiling)
  then have md: "max_duration - (start - start) \<le> of_nat ?n * ?b"
    using b by (simp add: pos_divide_le_eq)
  obtain k where k: "fuel = Suc ?n + k" using fuel less_iff_Suc_add by auto
  have "reconnect_loop fuel att dur late max_backoff max_duration start 0 start initial_backoff [] h
      \<noteq> None"
    unfolding k by (rule reconnect_loop_enough_fuel[OF b _ _ t md]) auto
  then obtain r where r: "reconnect_loop fuel att dur late max_backoff max_duration start 0 start
      initial_backoff [] h = Some r" by auto
  have "\<exists>n. sleeps r = map (backoff_at initial_backoff max_backoff) [0..<n]"
    using reconnect_loop_sleeps[OF pos, of fuel att dur late max_duration start 0 start h r] r
    by (simp add: backoff_at_def)
  moreover have "(outcome r = Inr True \<longrightarrow> hstate (after r) = CONNECTED \<and> reconnect_attempts (after r) = 0)
      \<and> (outcome r = Inr False \<longrightarrow> hstate (after r) = DEGRADED \<and> max_duration \<le> clock r - start)
      \<and> (\<forall>e. outcome r = Inl e \<longrightarrow> e = CancelledError \<and> hstate (after r) = hstate h)"
    using reconnect_loop_result[OF r] by blast
  ultimately show ?thesis
    using r by (auto simp: reconnect_with_backoff_def split: sum.splits bool.splits)
qed

theorem reconnect_terminates_witness:
  "\<exists>r n. reconnect_with_backoff 4 (\<lambda>_. Some RuntimeError) (\<lambda>_. 1) (\<lambda>_. 0) 0
        (new_health ''x'' RECONNECTING) 1 2 3 = Some r \<and>
      (case outcome r of
         Inr True \<Rightarrow> hstate (after r) = CONNECTED \<and> reconnect_attempts (after r) = 0
       | Inr False \<Rightarrow> hstate (after r) = DEGRADED \<and> 3 \<le> clock r - 0
       | Inl e \<Rightarrow> e = CancelledError \<and> hstate (after r) = hstate (new_health ''x'' RECONNECTING)) \<and>
      sleeps r = map (backoff_at 1 2) [0..<n]"
  using reconnect_terminates[of 1 2 "\<lambda>_. 1" "\<lambda>_. 0" 3 4] by simp

text \<open>
  Whatever sequence of connects, failures and state changes a service goes through, its
  \<open>on_state_change\<close> hook is called exactly on the transitions: never twice in a row with the same
  state, and the last call (or the initial state) is the current state.
\<close>

theorem hook_sees_transitions:
  assumes "hook h" "notified h = []"
  shows "hook_ok (hstate h) (foldl health_step h ops)"
proof (rule foldl_invariant)
  show "hook_ok (hstate h) h" using assms by (simp add: hook_ok_def)
qed (rule hook_ok_step)

theorem hook_sees_transitions_witness:
  "notified (foldl health_step (new_health ''x'' DEGRADED\<lparr>hook := True\<rparr>)
     [SetState RECONNECTING, MarkFailed ''e'', SetState RECONNECTING, MarkConnected 3])
   = [RECONNECTING, CONNECTED] \<and>
   hook_ok DEGRADED (foldl health_step (new_health ''x'' DEGRADED\<lparr>hook := True\<rparr>)
     [SetState RECONNECTING, MarkFailed ''e'', SetState RECONNECTING, MarkConnected 3])"
  using hook_sees_transitions[of "new_health ''x'' DEGRADED\<lparr>hook := True\<rparr>"
     "[SetState RECONNECTING, MarkFailed ''e'', SetState RECONNECTING, MarkConnected 3]"]
  by (simp add: new_health_def set_state_def mark_connected_def mark_attempt_failed_def)

end
