(* ===== verification/Backoff_Gate.thy ===== *)
theory Backoff_Gate
  imports Reconnection
begin

text \<open>
  \<open>LazyBackoffGate\<close> of \<open>services/reconnection.py\<close>: the backoff window of a service without a
  persistent connection. Attempts overlap, so outcomes are ordered by the token \<open>begin()\<close> hands
  out. The locale \<open>backoff_gate\<close> states what a provider relies on; it is interpreted on the gate.
\<close>

section \<open>The gate\<close>

record gate =
  g_initial :: time
  g_max :: time
  g_backoff :: time
  g_last_failure_at :: "time option"
  g_started :: nat
  g_marker :: nat

definition new_gate :: "time \<Rightarrow> time \<Rightarrow> gate" where
  "new_gate initial_backoff max_backoff =
     \<lparr>g_initial = initial_backoff, g_max = max_backoff, g_backoff = initial_backoff,
      g_last_failure_at = None, g_started = 0, g_marker = 0\<rparr>"

definition gate_begin :: "time \<Rightarrow> gate \<Rightarrow> nat option \<times> gate" where
  "gate_begin now g =
     (if (case g_last_failure_at g of None \<Rightarrow> False | Some t \<Rightarrow> now - t < g_backoff g)
      then (None, g)
      else (Some (Suc (g_started g)), g\<lparr>g_started := Suc (g_started g)\<rparr>))"

definition gate_record_failure :: "time \<Rightarrow> nat \<Rightarrow> gate \<Rightarrow> bool \<times> gate" where
  "gate_record_failure now token g =
     (if token \<le> g_marker g then (False, g)
      else (True, g\<lparr>g_marker := g_started g, g_last_failure_at := Some now,
                    g_backoff := min (g_backoff g * 2) (g_max g)\<rparr>))"

definition gate_record_success :: "gate \<Rightarrow> gate" where
  "gate_record_success g =
     g\<lparr>g_marker := max (g_marker g) (g_started g), g_last_failure_at := None,
       g_backoff := g_initial g\<rparr>"

datatype gate_op = Begin time | Failed time nat | Succeeded

fun gate_step :: "gate \<Rightarrow> gate_op \<Rightarrow> gate" where
  "gate_step g (Begin now) = snd (gate_begin now g)"
| "gate_step g (Failed now token) = snd (gate_record_failure now token g)"
| "gate_step g Succeeded = gate_record_success g"

definition gate_run :: "gate \<Rightarrow> gate_op list \<Rightarrow> gate" where
  "gate_run = foldl gate_step"

section \<open>Invariant\<close>

definition gate_inv :: "gate \<Rightarrow> bool" where
  "gate_inv g \<longleftrightarrow> g_marker g \<le> g_started g \<and> 0 < g_initial g \<and> g_initial g \<le> g_max g
     \<and> g_initial g \<le> g_backoff g \<and> g_backoff g \<le> g_max g"

lemma gate_inv_new: "0 < i \<Longrightarrow> i \<le> m \<Longrightarrow> gate_inv (new_gate i m)"
  by (simp add: gate_inv_def new_gate_def)

lemma gate_inv_step: "gate_inv g \<Longrightarrow> gate_inv (gate_step g a)"
  by (cases a)
    (auto simp: gate_inv_def gate_begin_def gate_record_failure_def gate_record_success_def
      split: option.splits)

lemma gate_inv_run: "gate_inv g \<Longrightarrow> gate_inv (gate_run g ops)"
  unfolding gate_run_def by (rule foldl_invariant) (auto intro: gate_inv_step)

text \<open>An attempt is stale once an outcome was recorded after it started; stale is for ever.\<close>

definition gate_stale :: "nat \<Rightarrow> gate \<Rightarrow> bool" where
  "gate_stale token g \<longleftrightarrow> token \<le> g_marker g"

lemma gate_marker_mono:
  "g_marker g \<le> g_started g \<Longrightarrow>
   g_marker g \<le> g_marker (gate_step g a) \<and> g_marker (gate_step g a) \<le> g_started (gate_step g a)
   \<and> g_started g \<le> g_started (gate_step g a)"
  by (cases a)
    (auto simp: gate_begin_def gate_record_failure_def gate_record_success_def
      split: option.splits)

lemma gate_run_mono:
  "g_marker g \<le> g_started g \<Longrightarrow>
   g_marker g \<le> g_marker (gate_run g ops) \<and>
   g_marker (gate_run g ops) \<le> g_started (gate_run g ops)"
proof (induction ops arbitrary: g)
  case (Cons a ops)
  then show ?case
    using gate_marker_mono[of g a] by (fastforce simp: gate_run_def)
qed (simp add: gate_run_def)

section \<open>The contract of a gate\<close>

locale backoff_gate =
  fixes begin_at :: "time \<Rightarrow> 'g \<Rightarrow> nat option \<times> 'g"
    and record_failure :: "time \<Rightarrow> nat \<Rightarrow> 'g \<Rightarrow> bool \<times> 'g"
    and record_success :: "'g \<Rightarrow> 'g"
    and stale :: "nat \<Rightarrow> 'g \<Rightarrow> bool"
    and issued :: "nat \<Rightarrow> 'g \<Rightarrow> bool"
    and ok :: "'g \<Rightarrow> bool"
  assumes begin_fresh: "ok g \<Longrightarrow> begin_at now g = (Some t, g') \<Longrightarrow> \<not> stale t g' \<and> issued t g' \<and> ok g'"
    and begin_refused: "begin_at now g = (None, g') \<Longrightarrow> g' = g"
    and begin_stale: "stale t g \<Longrightarrow> stale t (snd (begin_at now g))"
    and failure_stale: "stale t g \<Longrightarrow> record_failure now t g = (False, g)"
    and failure_applied: "\<not> stale t g \<Longrightarrow> fst (record_failure now t g)"
    and failure_covers: "ok g \<Longrightarrow> issued u g \<Longrightarrow> fst (record_failure now t g) \<Longrightarrow>
           stale u (snd (record_failure now t g)) \<and> ok (snd (record_failure now t g))"
    and success_covers: "ok g \<Longrightarrow> issued u g \<Longrightarrow> stale u (record_success g) \<and> ok (record_success g)"
begin

text \<open>Of two overlapping attempts of one outage only the first failure counts.\<close>

lemma one_failure_per_outage:
  assumes "ok g" "issued t g" "issued u g" "\<not> stale t g"
  shows "\<exists>g1. record_failure now t g = (True, g1) \<and> record_failure now' u g1 = (False, g1)"
proof -
  obtain b g1 where r: "record_failure now t g = (b, g1)" by fastforce
  with failure_applied[OF assms(4), of now] have b: "b" by simp
  with failure_covers[OF assms(1,3), of now t] r have "stale u g1" by simp
  then show ?thesis using r b failure_stale by simp
qed

text \<open>A success covers every attempt in flight: none of their failures is recorded after it.\<close>

lemma success_supersedes:
  assumes "ok g" "issued t g"
  shows "record_failure now t (record_success g) = (False, record_success g)"
  using success_covers[OF assms] by (simp add: failure_stale)

end

interpretation gate: backoff_gate gate_begin gate_record_failure gate_record_success gate_stale
  "\<lambda>t g. t \<le> g_started g" "\<lambda>g. g_marker g \<le> g_started g"
  by unfold_locales
    (auto simp: gate_begin_def gate_record_failure_def gate_record_success_def gate_stale_def
      split: if_splits option.splits)

lemma gate_stale_run:
  "g_marker g \<le> g_started g \<Longrightarrow> gate_stale t g \<Longrightarrow> gate_stale t (gate_run g ops)"
  using gate_run_mono[of g ops] by (auto simp: gate_stale_def)

text \<open>How many failures were applied since the last success (or since the start, \<open>n\<close> before).\<close>

fun applied_failures :: "gate \<Rightarrow> gate_op list \<Rightarrow> nat \<Rightarrow> nat" where
  "applied_failures g [] n = n"
| "applied_failures g (Begin now # ops) n = applied_failures (gate_step g (Begin now)) ops n"
| "applied_failures g (Failed now t # ops) n =
     applied_failures (gate_step g (Failed now t)) ops
       (if fst (gate_record_failure now t g) then Suc n else n)"
| "applied_failures g (Succeeded # ops) n = applied_failures (gate_step g Succeeded) ops 0"

lemma gate_run_backoff:
  "0 < g_initial g \<Longrightarrow> g_initial g \<le> g_max g \<Longrightarrow>
   g_backoff g = min (g_initial g * 2 ^ n) (g_max g) \<Longrightarrow>
   g_backoff (gate_run g ops) = min (g_initial g * 2 ^ applied_failures g ops n) (g_max g)"
proof (induction g ops n rule: applied_failures.induct)
  case (3 g now t ops n)
  have dbl: "min (min (g_initial g * 2 ^ n) (g_max g) * 2) (g_max g)
      = min (g_initial g * 2 ^ Suc n) (g_max g)"
    using "3.prems"(1,2) by (auto simp: min_def mult.assoc)
  show ?case
    using "3.prems" "3.IH" dbl
    by (cases "t \<le> g_marker g") (simp_all add: gate_run_def gate_record_failure_def)
next
  case (2 g now ops n)
  then show ?case
    by (auto simp: gate_run_def gate_begin_def split: option.splits)
next
  case (4 g ops n)
  then show ?case by (simp add: gate_run_def gate_record_success_def)
qed (simp add: gate_run_def)

section \<open>Properties\<close>

text \<open>
  When two attempts overlap and the first of their failures is recorded, the other one is
  ignored whatever happened to the gate in between: it neither doubles the backoff again nor moves
  the window (issue 152).
\<close>

theorem overlapping_failure_ignored:
  assumes "g_marker g \<le> g_started g" "t \<le> g_started g" "u \<le> g_started g" "g_marker g < t"
  shows "fst (gate_record_failure now t g) \<and>
         gate_record_failure later u (gate_run (snd (gate_record_failure now t g)) ops) =
           (False, gate_run (snd (gate_record_failure now t g)) ops)"
proof -
  let ?g1 = "snd (gate_record_failure now t g)"
  have fresh: "\<not> gate_stale t g" using assms(4) by (simp add: gate_stale_def)
  then have app: "fst (gate_record_failure now t g)" by (rule gate.failure_applied)
  have c: "gate_stale u ?g1" "g_marker ?g1 \<le> g_started ?g1"
    using gate.failure_covers[OF assms(1,3) app] by auto
  then have "gate_stale u (gate_run ?g1 ops)" by (simp add: gate_stale_run)
  then show ?thesis using app by (simp add: gate.failure_stale)
qed

theorem overlapping_failure_ignored_witness:
  "let g = gate_run (new_gate 1 60) [Begin 0, Begin 1] in
   fst (gate_record_failure 2 2 g) \<and>
   gate_record_failure 9 1 (gate_run (snd (gate_record_failure 2 2 g)) [Begin 8]) =
     (False, gate_run (snd (gate_record_failure 2 2 g)) [Begin 8])"
  using overlapping_failure_ignored[of "gate_run (new_gate 1 60) [Begin 0, Begin 1]" 2 1 2 9 "[Begin 8]"]
  by (simp add: gate_run_def gate_begin_def new_gate_def)

text \<open>
  After any sequence of begins, failures (stale ones included) and successes the window is the
  initial backoff doubled once per failure applied since the last success, capped at the maximum;
  so it always lies between the two.
\<close>

theorem gate_backoff_formula:
  assumes "0 < i" "i \<le> m"
  shows "g_backoff (gate_run (new_gate i m) ops)
           = min (i * 2 ^ applied_failures (new_gate i m) ops 0) m
         \<and> gate_inv (gate_run (new_gate i m) ops)"
proof -
  have "g_backoff (new_gate i m) = min (g_initial (new_gate i m) * 2 ^ 0) (g_max (new_gate i m))"
    using assms by (simp add: new_gate_def)
  from gate_run_backoff[OF _ _ this, of ops] assms
  have "g_backoff (gate_run (new_gate i m) ops)
      = min (i * 2 ^ applied_failures (new_gate i m) ops 0) m"
    by (simp add: new_gate_def)
  then show ?thesis using gate_inv_run[OF gate_inv_new[OF assms]] by simp
qed

theorem gate_backoff_formula_witness:
  "g_backoff (gate_run (new_gate 1 60) [Begin 0, Failed 1 1, Begin 9, Failed 9 2, Failed 9 1]) = 4"
  using gate_backoff_formula[of 1 60 "[Begin 0, Failed 1 1, Begin 9, Failed 9 2, Failed 9 1]"]
  by (simp add: gate_run_def gate_begin_def gate_record_failure_def new_gate_def)

end
