(* ===== verification/Turn_Registry.thy ===== *)
theory Turn_Registry
  imports Prelude
begin

text \<open>
  \<open>services/openclaw/registry.py\<close>: \<open>TurnRegistry\<close>, which routes the frames of the active OpenClaw
  turns to bounded queues, and \<open>ClientRegistry\<close>, which maps a client to its bridge. A queue is an
  object shared between the registry and the turn that consumes it, so the queues live in a store
  (\<open>heap\<close>) and the registry holds their addresses: after \<open>error_all\<close> forgets every session, the
  consumers still find the error in their queue. The locale \<open>turn_router\<close> is the contract the
  dispatcher and the orchestrator client rely on.
\<close>

section \<open>Session keys\<close>

definition client_id_from_session_key :: "string \<Rightarrow> string" where
  "client_id_from_session_key session_key =
     rev (takeWhile (\<lambda>c. c \<noteq> CHR '':'') (rev session_key))"

definition make_session_key :: "string \<Rightarrow> string \<Rightarrow> string" where
  "make_session_key agent client_id = ''agent:'' @ agent @ '':'' @ client_id"

section \<open>Bounded queues\<close>

datatype turn_item =
    ItChat dict
  | ItDone dict
  | ItTool dict
  | ItError string
  | ItOverflow

record queue =
  items :: "turn_item list"
  maxsize :: nat

definition queue_full :: "queue \<Rightarrow> bool" where
  "queue_full q \<longleftrightarrow> 0 < maxsize q \<and> maxsize q \<le> length (items q)"

definition put_nowait :: "turn_item \<Rightarrow> queue \<Rightarrow> queue option" where
  "put_nowait x q = (if queue_full q then None else Some (q\<lparr>items := items q @ [x]\<rparr>))"

text \<open>\<open>while True: put_nowait, on QueueFull drop the oldest\<close>.\<close>

function force_put :: "turn_item \<Rightarrow> queue \<Rightarrow> queue" where
  "force_put x q =
     (case put_nowait x q of
        Some q' \<Rightarrow> q'
      | None \<Rightarrow> (case items q of [] \<Rightarrow> q | _ # rest \<Rightarrow> force_put x (q\<lparr>items := rest\<rparr>)))"
  by pat_completeness auto
termination
  by (relation "measure (\<lambda>(x, q). length (items q))") auto

declare force_put.simps [simp del]

lemma force_put_last:
  "\<exists>ys. suffix ys (items q) \<and> items (force_put x q) = ys @ [x] \<and> maxsize (force_put x q) = maxsize q"
proof (induction x q rule: force_put.induct)
  case (1 x q)
  show ?case
  proof (cases "put_nowait x q")
    case (Some q')
    then show ?thesis
      by (auto simp: force_put.simps[of x q] put_nowait_def split: if_splits)
  next
    case None
    then obtain y rest where c: "items q = y # rest"
      by (cases "items q") (auto simp: put_nowait_def queue_full_def split: if_splits)
    from "1.IH"[OF None c] obtain ys where ys: "suffix ys rest"
      "items (force_put x (q\<lparr>items := rest\<rparr>)) = ys @ [x]"
      "maxsize (force_put x (q\<lparr>items := rest\<rparr>)) = maxsize q" by auto
    have "force_put x q = force_put x (q\<lparr>items := rest\<rparr>)"
      using None c by (simp add: force_put.simps[of x q])
    with ys c show ?thesis by (metis suffix_ConsI)
  qed
qed

lemma force_put_bounded:
  "0 < maxsize q \<Longrightarrow> length (items q) \<le> maxsize q \<Longrightarrow> length (items (force_put x q)) \<le> maxsize q"
proof (induction x q rule: force_put.induct)
  case (1 x q)
  show ?case
  proof (cases "put_nowait x q")
    case (Some q')
    then show ?thesis using "1.prems"
      by (auto simp: force_put.simps[of x q] put_nowait_def queue_full_def split: if_splits)
  next
    case None
    then obtain y rest where c: "items q = y # rest"
      by (cases "items q") (auto simp: put_nowait_def queue_full_def split: if_splits)
    then have "force_put x q = force_put x (q\<lparr>items := rest\<rparr>)"
      using None by (simp add: force_put.simps[of x q])
    then show ?thesis using "1.IH"[OF None c] "1.prems" c by simp
  qed
qed

section \<open>TurnRegistry\<close>

definition TURN_ABORT_TOMBSTONE_S :: time where
  "TURN_ABORT_TOMBSTONE_S = 5"

type_synonym qid = nat

record turn_registry =
  max_queue_size :: nat
  overflowed :: "string set"
  tombstones :: "(string \<times> time) list"
  sessions :: "(string \<times> qid) list"
  peak :: "string \<rightharpoonup> nat"
  req_to_session :: "string \<rightharpoonup> string"
  session_owner :: "string \<rightharpoonup> string"
  heap :: "qid \<Rightarrow> queue"
  next_qid :: qid

definition new_turn_registry :: "nat \<Rightarrow> turn_registry" where
  "new_turn_registry max_size =
     \<lparr>max_queue_size = max_size, overflowed = {}, tombstones = [], sessions = [],
      peak = Map.empty, req_to_session = Map.empty, session_owner = Map.empty,
      heap = (\<lambda>_. \<lparr>items = [], maxsize = max_size\<rparr>), next_qid = 0\<rparr>"

definition session_queue :: "string \<Rightarrow> turn_registry \<Rightarrow> qid option" where
  "session_queue sk r = map_of (sessions r) sk"

definition register :: "string \<Rightarrow> string \<Rightarrow> turn_registry \<Rightarrow> exn + (qid \<times> turn_registry)" where
  "register req_id session_key r =
     (if session_queue session_key r \<noteq> None then Inl TurnInProgress
      else
        let q = next_qid r in
        Inr (q, r\<lparr>heap := (heap r)(q := \<lparr>items = [], maxsize = max_queue_size r\<rparr>),
                  next_qid := Suc q,
                  sessions := dput session_key q (sessions r),
                  req_to_session := (req_to_session r)(req_id \<mapsto> session_key),
                  session_owner := (session_owner r)(session_key \<mapsto> req_id)\<rparr>))"

definition unregister :: "string \<Rightarrow> string \<Rightarrow> turn_registry \<Rightarrow> turn_registry" where
  "unregister session_key req_id r =
     (let r1 = (if session_owner r session_key = Some req_id
                then r\<lparr>sessions := dpop session_key (sessions r),
                       session_owner := (session_owner r)(session_key := None),
                       overflowed := overflowed r - {session_key}\<rparr>
                else r)
      in r1\<lparr>req_to_session := (req_to_session r1)(req_id := None)\<rparr>)"

definition depth :: "string \<Rightarrow> turn_registry \<Rightarrow> nat \<times> nat" where
  "depth sk r =
     ((case session_queue sk r of Some q \<Rightarrow> length (items (heap r q)) | None \<Rightarrow> 0),
      (case peak r sk of Some n \<Rightarrow> n | None \<Rightarrow> 0))"

definition pop_peak :: "string \<Rightarrow> turn_registry \<Rightarrow> nat \<times> turn_registry" where
  "pop_peak sk r = ((case peak r sk of Some n \<Rightarrow> n | None \<Rightarrow> 0), r\<lparr>peak := (peak r)(sk := None)\<rparr>)"

definition deliver :: "time \<Rightarrow> string \<Rightarrow> qid \<Rightarrow> turn_item \<Rightarrow> turn_registry \<Rightarrow> turn_registry" where
  "deliver now sk q item r =
     (if sk \<in> overflowed r then r
      else case put_nowait item (heap r q) of
        Some q' \<Rightarrow>
          r\<lparr>heap := (heap r)(q := q'),
            peak := (peak r)(sk \<mapsto> max (case peak r sk of Some n \<Rightarrow> n | None \<Rightarrow> 0)
                                       (length (items q')))\<rparr>
      | None \<Rightarrow>
          r\<lparr>overflowed := insert sk (overflowed r),
            tombstones := dput sk (now + TURN_ABORT_TOMBSTONE_S) (tombstones r),
            heap := (heap r)(q := (heap r q)\<lparr>items := [ItOverflow]\<rparr>)\<rparr>)"

definition deliver_by_session ::
  "time \<Rightarrow> string \<Rightarrow> turn_item \<Rightarrow> turn_registry \<Rightarrow> bool \<times> turn_registry" where
  "deliver_by_session now sk item r =
     (case session_queue sk r of
        None \<Rightarrow> (False, r)
      | Some q \<Rightarrow> (True, deliver now sk q item r))"

definition deliver_by_req ::
  "time \<Rightarrow> string \<Rightarrow> turn_item \<Rightarrow> turn_registry \<Rightarrow> bool \<times> turn_registry" where
  "deliver_by_req now req_id item r =
     (case req_to_session r req_id of
        None \<Rightarrow> (False, r)
      | Some sk \<Rightarrow> deliver_by_session now sk item r)"

definition is_aborted :: "time \<Rightarrow> string \<Rightarrow> turn_registry \<Rightarrow> bool \<times> turn_registry" where
  "is_aborted now sk r =
     (let live = filter (\<lambda>(_, deadline). \<not> deadline \<le> now) (tombstones r)
      in (sk \<in> fst ` set live, r\<lparr>tombstones := live\<rparr>))"

definition error_all :: "string \<Rightarrow> turn_registry \<Rightarrow> turn_registry" where
  "error_all message r =
     r\<lparr>heap := foldl (\<lambda>h q. h(q := force_put (ItError message) (h q))) (heap r)
                 (map snd (sessions r)),
       overflowed := {}, sessions := [], req_to_session := Map.empty,
       session_owner := Map.empty\<rparr>"

text \<open>\<open>await queue.get()\<close> of the consumer, once an item is there.\<close>

definition queue_get :: "qid \<Rightarrow> turn_registry \<Rightarrow> (turn_item \<times> turn_registry) option" where
  "queue_get q r =
     (case items (heap r q) of
        [] \<Rightarrow> None
      | x # rest \<Rightarrow> Some (x, r\<lparr>heap := (heap r)(q := (heap r q)\<lparr>items := rest\<rparr>)\<rparr>))"

section \<open>Invariant\<close>

text \<open>
  Every session has an owner and the owner's request leads back to it, queues are not shared
  between sessions, aborted sessions are live ones, and no queue exceeds its bound.
\<close>

definition leads_back :: "(string \<rightharpoonup> string) \<Rightarrow> (string \<rightharpoonup> string) \<Rightarrow> bool" where
  "leads_back owners reqs \<longleftrightarrow> (\<forall>sk req. owners sk = Some req \<longrightarrow> reqs req = Some sk)"

definition reg_inv :: "turn_registry \<Rightarrow> bool" where
  "reg_inv r \<longleftrightarrow>
     0 < max_queue_size r \<and>
     distinct (map fst (sessions r)) \<and>
     fst ` set (sessions r) = dom (session_owner r) \<and>
     leads_back (session_owner r) (req_to_session r) \<and>
     distinct (map snd (sessions r)) \<and>
     (\<forall>q\<in>snd ` set (sessions r). q < next_qid r) \<and>
     overflowed r \<subseteq> dom (session_owner r) \<and>
     (\<forall>q. maxsize (heap r q) = max_queue_size r \<and> length (items (heap r q)) \<le> max_queue_size r)"

lemma session_queue_dom: "reg_inv r \<Longrightarrow> session_queue sk r \<noteq> None \<longleftrightarrow> session_owner r sk \<noteq> None"
  unfolding reg_inv_def session_queue_def by (metis domIff map_of_eq_None_iff)

lemma snd_dput_new:
  "k \<notin> fst ` set xs \<Longrightarrow> dput k v xs = xs @ [(k, v)]"
  by (induction k v xs rule: dput.induct) auto

lemma snd_dpop_subset: "snd ` set (dpop k xs) \<subseteq> snd ` set xs"
  by (auto simp: dpop_def)

lemma fst_dpop: "fst ` set (dpop k xs) = fst ` set xs - {k}"
  by (auto simp: dpop_def image_iff)

lemma distinct_snd_dpop: "distinct (map snd xs) \<Longrightarrow> distinct (map snd (dpop k xs))"
  by (induction xs) (auto simp: dpop_def)

lemma reg_invD:
  assumes "reg_inv r"
  shows "0 < max_queue_size r" "distinct (map fst (sessions r))"
    "fst ` set (sessions r) = dom (session_owner r)" "distinct (map snd (sessions r))"
    "q \<in> snd ` set (sessions r) \<Longrightarrow> q < next_qid r"
    "overflowed r \<subseteq> dom (session_owner r)"
    "maxsize (heap r p) = max_queue_size r" "length (items (heap r p)) \<le> max_queue_size r"
  using assms unfolding reg_inv_def by blast+

lemma reg_inv_req: "reg_inv r \<Longrightarrow> session_owner r sk = Some req \<Longrightarrow> req_to_session r req = Some sk"
  unfolding reg_inv_def leads_back_def by blast

lemma leads_back_empty [simp]: "leads_back (\<lambda>_. None) reqs"
  by (simp add: leads_back_def)

lemma leads_back_new:
  "leads_back owners reqs \<Longrightarrow> reqs req = None \<Longrightarrow> leads_back (owners(sk \<mapsto> req)) (reqs(req \<mapsto> sk))"
  by (auto simp: leads_back_def)

lemma leads_back_drop:
  "leads_back owners reqs \<Longrightarrow> owners sk = Some req \<Longrightarrow>
   leads_back (owners(sk := None)) (reqs(req := None))"
  unfolding leads_back_def by (metis fun_upd_apply option.distinct(1) option.inject)

lemma leads_back_forget:
  "leads_back owners reqs \<Longrightarrow> reqs req = None \<or> (reqs req = Some sk \<and> owners sk \<noteq> Some req) \<Longrightarrow>
   leads_back owners (reqs(req := None))"
  unfolding leads_back_def by (metis fun_upd_apply option.distinct(1) option.inject)

lemma reg_inv_new: "0 < n \<Longrightarrow> reg_inv (new_turn_registry n)"
  by (simp add: reg_inv_def new_turn_registry_def)

lemma reg_inv_register:
  assumes "reg_inv r" "req_to_session r req = None" "register req sk r = Inr (q, r')"
  shows "reg_inv r'"
proof -
  have none: "session_queue sk r = None"
    and r': "q = next_qid r" "r' = r\<lparr>heap := (heap r)(q := \<lparr>items = [], maxsize = max_queue_size r\<rparr>),
      next_qid := Suc q, sessions := dput sk q (sessions r),
      req_to_session := (req_to_session r)(req \<mapsto> sk),
      session_owner := (session_owner r)(sk \<mapsto> req)\<rparr>"
    using assms(3) by (auto simp: register_def Let_def split: if_splits)
  have new: "sk \<notin> fst ` set (sessions r)"
    using none by (simp add: session_queue_def map_of_eq_None_iff)
  then have nown: "sk \<notin> dom (session_owner r)" using reg_invD(3)[OF assms(1)] by simp
  have fr: "next_qid r \<notin> snd ` set (sessions r)"
    using reg_invD(5)[OF assms(1)] by blast
  have o: "leads_back ((session_owner r)(sk \<mapsto> req)) ((req_to_session r)(req \<mapsto> sk))"
    using assms(1,2) by (intro leads_back_new) (simp_all add: reg_inv_def)
  have v: "overflowed r \<subseteq> insert sk (dom (session_owner r))"
    using reg_invD(6)[OF assms(1)] by auto
  have n: "\<forall>x\<in>set (sessions r). snd x < Suc (next_qid r)"
    using reg_invD(5)[OF assms(1)] by (simp add: less_Suc_eq)
  show ?thesis
    using assms(1) new nown fr o v n unfolding r' reg_inv_def
    by (simp add: snd_dput_new)
qed

lemma reg_inv_unregister:
  assumes "reg_inv r" "req_to_session r req = None \<or> req_to_session r req = Some sk"
  shows "reg_inv (unregister sk req r)"
proof (cases "session_owner r sk = Some req")
  case True
  have u: "unregister sk req r = r\<lparr>sessions := dpop sk (sessions r),
      session_owner := (session_owner r)(sk := None), overflowed := overflowed r - {sk},
      req_to_session := (req_to_session r)(req := None)\<rparr>"
    using True by (simp add: unregister_def Let_def)
  have o: "leads_back ((session_owner r)(sk := None)) ((req_to_session r)(req := None))"
    using assms(1) True by (intro leads_back_drop) (simp_all add: reg_inv_def)
  have n: "\<forall>q\<in>snd ` set (dpop sk (sessions r)). q < next_qid r"
    using reg_invD(5)[OF assms(1)] snd_dpop_subset[of sk "sessions r"] by blast
  have v: "overflowed r - {sk} \<subseteq> dom ((session_owner r)(sk := None))"
    using reg_invD(6)[OF assms(1)] by auto
  show ?thesis
    unfolding u using assms(1) o n v by (simp add: reg_inv_def fst_dpop distinct_snd_dpop)
next
  case False
  have "leads_back (session_owner r) ((req_to_session r)(req := None))"
    using assms False by (intro leads_back_forget[of _ _ _ sk]) (auto simp: reg_inv_def)
  then show ?thesis
    using assms(1) False by (simp add: reg_inv_def unregister_def Let_def)
qed

lemma reg_inv_deliver:
  assumes "reg_inv r" "session_owner r sk \<noteq> None"
  shows "reg_inv (deliver now sk q item r)"
proof -
  have m: "0 < max_queue_size r" "maxsize (heap r q) = max_queue_size r"
    "length (items (heap r q)) \<le> max_queue_size r"
    using reg_invD[OF assms(1)] by blast+
  consider (drop) "sk \<in> overflowed r" | (put) "sk \<notin> overflowed r" "\<not> queue_full (heap r q)"
    | (full) "sk \<notin> overflowed r" "queue_full (heap r q)" by blast
  then show ?thesis
  proof cases
    case drop
    then show ?thesis using assms(1) by (simp add: deliver_def)
  next
    case put
    have l: "length (items (heap r q)) < max_queue_size r"
      using put(2) m by (simp add: queue_full_def)
    have e: "\<exists>p. deliver now sk q item r =
        r\<lparr>heap := (heap r)(q := (heap r q)\<lparr>items := items (heap r q) @ [item]\<rparr>), peak := p\<rparr>"
      using put by (auto simp: deliver_def put_nowait_def)
    then obtain p where "deliver now sk q item r =
        r\<lparr>heap := (heap r)(q := (heap r q)\<lparr>items := items (heap r q) @ [item]\<rparr>), peak := p\<rparr>" ..
    then show ?thesis using assms(1) l by (simp add: reg_inv_def)
  next
    case full
    then show ?thesis using assms m
      by (simp add: reg_inv_def deliver_def put_nowait_def domIff)
  qed
qed

lemma reg_inv_deliver_by_session:
  "reg_inv r \<Longrightarrow> reg_inv (snd (deliver_by_session now sk item r))"
  using session_queue_dom[of r sk]
  by (auto simp: deliver_by_session_def intro!: reg_inv_deliver split: option.splits)

lemma reg_inv_deliver_by_req: "reg_inv r \<Longrightarrow> reg_inv (snd (deliver_by_req now req item r))"
  by (auto simp: deliver_by_req_def intro: reg_inv_deliver_by_session split: option.splits)

lemma reg_inv_error_all:
  assumes "reg_inv r"
  shows "reg_inv (error_all m r)"
proof -
  have "\<forall>q. maxsize (foldl (\<lambda>h q. h(q := force_put (ItError m) (h q))) h qs q) = n \<and>
          length (items (foldl (\<lambda>h q. h(q := force_put (ItError m) (h q))) h qs q)) \<le> n"
    if "0 < n" "\<forall>q. maxsize (h q) = n \<and> length (items (h q)) \<le> n" for h n and qs :: "qid list"
    using that(2)
  proof (induction qs arbitrary: h)
    case (Cons a qs)
    have "maxsize (force_put (ItError m) (h a)) = n" using Cons.prems force_put_last by metis
    moreover have "length (items (force_put (ItError m) (h a))) \<le> n"
      using Cons.prems that(1) force_put_bounded[of "h a" "ItError m"] by simp
    ultimately show ?case using Cons by simp
  qed simp
  then show ?thesis using assms by (simp add: reg_inv_def error_all_def)
qed

lemma reg_inv_other:
  "reg_inv r \<Longrightarrow> reg_inv (snd (is_aborted now sk r))"
  "reg_inv r \<Longrightarrow> reg_inv (snd (pop_peak sk r))"
  "reg_inv r \<Longrightarrow> queue_get q r = Some (x, r') \<Longrightarrow> reg_inv r'"
proof -
  show "reg_inv r \<Longrightarrow> queue_get q r = Some (x, r') \<Longrightarrow> reg_inv r'"
  proof -
    assume r: "reg_inv r" and g: "queue_get q r = Some (x, r')"
    then obtain rest where "items (heap r q) = x # rest"
      "r' = r\<lparr>heap := (heap r)(q := (heap r q)\<lparr>items := rest\<rparr>)\<rparr>"
      by (auto simp: queue_get_def split: list.splits)
    moreover from this r have "Suc (length rest) \<le> max_queue_size r"
      unfolding reg_inv_def by (metis length_Cons)
    ultimately show "reg_inv r'" using r by (simp add: reg_inv_def)
  qed
qed (auto simp: reg_inv_def is_aborted_def Let_def pop_peak_def)

section \<open>Frame facts\<close>

lemma deliver_session_queue [simp]:
  "session_queue k (deliver now sk q item r) = session_queue k r"
  by (auto simp: deliver_def session_queue_def split: option.splits)

lemma deliver_owner [simp]:
  "session_owner (deliver now sk q item r) = session_owner r"
  "req_to_session (deliver now sk q item r) = req_to_session r"
  "next_qid (deliver now sk q item r) = next_qid r"
  "sessions (deliver now sk q item r) = sessions r"
  by (auto simp: deliver_def split: option.splits)

lemma deliver_by_session_frame [simp]:
  "session_queue k (snd (deliver_by_session now sk item r)) = session_queue k r"
  "session_owner (snd (deliver_by_session now sk item r)) = session_owner r"
  "req_to_session (snd (deliver_by_session now sk item r)) = req_to_session r"
  "fst (deliver_by_session now sk item r) = (session_queue sk r \<noteq> None)"
  by (auto simp: deliver_by_session_def split: option.splits)

lemma is_aborted_frame [simp]:
  "session_queue k (snd (is_aborted now sk r)) = session_queue k r"
  "session_owner (snd (is_aborted now sk r)) = session_owner r"
  "heap (snd (is_aborted now sk r)) = heap r"
  by (auto simp: is_aborted_def Let_def session_queue_def)

lemma queues_distinct:
  assumes "reg_inv r" "session_queue a r = Some q" "session_queue b r = Some q"
  shows "a = b"
proof -
  have "(a, q) \<in> set (sessions r)" "(b, q) \<in> set (sessions r)" "distinct (map snd (sessions r))"
    using assms by (auto simp: session_queue_def reg_inv_def dest: map_of_SomeD)
  then show ?thesis by (metis distinct_map inj_onD prod.inject snd_conv)
qed

lemma register_frame:
  "register req sk r = Inr (q, r') \<Longrightarrow>
   session_queue k r' = (if k = sk then Some q else session_queue k r) \<and>
   heap r' q = \<lparr>items = [], maxsize = max_queue_size r\<rparr> \<and> session_owner r' sk = Some req \<and>
   req_to_session r' req = Some sk"
  by (auto simp: register_def Let_def session_queue_def split: if_splits)

lemma unregister_session_queue:
  "session_queue k (unregister sk req r) =
     (if k = sk \<and> session_owner r sk = Some req then None else session_queue k r)"
  by (auto simp: unregister_def Let_def session_queue_def)

section \<open>The contract of a turn router\<close>

locale turn_router =
  fixes reg :: "string \<Rightarrow> string \<Rightarrow> 'r \<Rightarrow> exn + (nat \<times> 'r)"
    and unreg :: "string \<Rightarrow> string \<Rightarrow> 'r \<Rightarrow> 'r"
    and put :: "time \<Rightarrow> string \<Rightarrow> turn_item \<Rightarrow> 'r \<Rightarrow> bool \<times> 'r"
    and owner :: "string \<Rightarrow> 'r \<Rightarrow> string option"
    and pending :: "string \<Rightarrow> 'r \<Rightarrow> string option"
    and inv :: "'r \<Rightarrow> bool"
  assumes reg_busy: "inv r \<Longrightarrow> owner sk r \<noteq> None \<Longrightarrow> reg req sk r = Inl TurnInProgress"
    and reg_free: "inv r \<Longrightarrow> owner sk r = None \<Longrightarrow>
           \<exists>q r'. reg req sk r = Inr (q, r') \<and> owner sk r' = Some req \<and>
             (\<forall>k. k \<noteq> sk \<longrightarrow> owner k r' = owner k r)"
    and unreg_owner: "inv r \<Longrightarrow> owner k (unreg sk req r) =
           (if k = sk \<and> owner sk r = Some req then None else owner k r)"
    and unreg_inv: "inv r \<Longrightarrow> pending req r = None \<or> pending req r = Some sk \<Longrightarrow>
           inv (unreg sk req r)"
    and put_owner: "owner k (snd (put now sk x r)) = owner k r"
    and put_claims: "inv r \<Longrightarrow> fst (put now sk x r) = (owner sk r \<noteq> None)"
    and put_inv: "inv r \<Longrightarrow> inv (snd (put now sk x r))"
begin

primrec puts :: "(time \<times> string \<times> turn_item) list \<Rightarrow> 'r \<Rightarrow> 'r" where
  "puts [] r = r"
| "puts (d # ds) r = puts ds (snd (put (fst d) (fst (snd d)) (snd (snd d)) r))"

lemma puts_owner: "owner k (puts ds r) = owner k r"
  by (induction ds arbitrary: r) (auto simp: put_owner)

lemma puts_inv: "inv r \<Longrightarrow> inv (puts ds r)"
  by (induction ds arbitrary: r) (auto simp: put_inv)

text \<open>A late unregister of a superseded turn leaves the turn that owns the key alone.\<close>

lemma stale_unregister:
  assumes "inv r" "owner sk r = Some req" "old \<noteq> req" "pending old r = None \<or> pending old r = Some sk"
  shows "owner sk (unreg sk old r) = Some req \<and> fst (put now sk x (unreg sk old r))"
  using assms unreg_owner[of r sk sk old] put_claims[of "unreg sk old r" now sk x] unreg_inv
  by auto

text \<open>While a turn owns its key no second turn starts on it, whatever frames arrive meanwhile.\<close>

lemma owned_excludes:
  assumes "inv r" "owner sk r = Some req"
  shows "reg other sk (puts ds r) = Inl TurnInProgress"
  using assms by (simp add: reg_busy puts_inv puts_owner)

lemma released_is_free:
  assumes "inv r" "owner sk r = Some req"
  shows "owner sk (unreg sk req (puts ds r)) = None"
  using assms by (simp add: unreg_owner puts_inv puts_owner)

end

interpretation turns: turn_router register unregister deliver_by_session
  "\<lambda>sk r. session_owner r sk" "\<lambda>req r. req_to_session r req" reg_inv
proof unfold_locales
  fix r :: turn_registry and sk req
  assume r: "reg_inv r"
  show "session_owner r sk \<noteq> None \<Longrightarrow> register req sk r = Inl TurnInProgress"
    using session_queue_dom[OF r, of sk] by (simp add: register_def)
  show "session_owner r sk = None \<Longrightarrow> \<exists>q r'. register req sk r = Inr (q, r') \<and>
      session_owner r' sk = Some req \<and> (\<forall>k. k \<noteq> sk \<longrightarrow> session_owner r' k = session_owner r k)"
    using session_queue_dom[OF r, of sk] by (auto simp: register_def Let_def)
  show "fst (deliver_by_session now sk x r) = (session_owner r sk \<noteq> None)" for now x
    using session_queue_dom[OF r, of sk] by simp
  show "reg_inv (snd (deliver_by_session now sk x r))" for now x
    by (rule reg_inv_deliver_by_session[OF r])
  show "session_owner (unregister sk req r) k =
      (if k = sk \<and> session_owner r sk = Some req then None else session_owner r k)" for k
    by (simp add: unregister_def Let_def)
  show "req_to_session r req = None \<or> req_to_session r req = Some sk \<Longrightarrow> reg_inv (unregister sk req r)"
    by (rule reg_inv_unregister[OF r])
qed simp

section \<open>Runs\<close>

text \<open>
  Any interleaving of the registry's operations. A request id is a fresh UUID and a turn only
  unregisters its own pair, which is what \<open>reg_op_ok\<close> says; every other operation is free.
\<close>

datatype reg_op =
    OpRegister string string
  | OpUnregister string string
  | OpDeliver time string turn_item
  | OpDeliverReq time string turn_item
  | OpGet qid
  | OpErrorAll string
  | OpIsAborted time string
  | OpPopPeak string

fun reg_op_ok :: "turn_registry \<Rightarrow> reg_op \<Rightarrow> bool" where
  "reg_op_ok r (OpRegister req sk) = (req_to_session r req = None)"
| "reg_op_ok r (OpUnregister sk req) = (req_to_session r req = None \<or> req_to_session r req = Some sk)"
| "reg_op_ok r _ = True"

fun reg_step :: "turn_registry \<Rightarrow> reg_op \<Rightarrow> turn_registry" where
  "reg_step r (OpRegister req sk) = (case register req sk r of Inl _ \<Rightarrow> r | Inr (_, r') \<Rightarrow> r')"
| "reg_step r (OpUnregister sk req) = unregister sk req r"
| "reg_step r (OpDeliver now sk x) = snd (deliver_by_session now sk x r)"
| "reg_step r (OpDeliverReq now req x) = snd (deliver_by_req now req x r)"
| "reg_step r (OpGet q) = (case queue_get q r of None \<Rightarrow> r | Some (_, r') \<Rightarrow> r')"
| "reg_step r (OpErrorAll m) = error_all m r"
| "reg_step r (OpIsAborted now sk) = snd (is_aborted now sk r)"
| "reg_step r (OpPopPeak sk) = snd (pop_peak sk r)"

fun reg_run_ok :: "turn_registry \<Rightarrow> reg_op list \<Rightarrow> bool" where
  "reg_run_ok r [] = True"
| "reg_run_ok r (a # ops) = (reg_op_ok r a \<and> reg_run_ok (reg_step r a) ops)"

lemma reg_inv_step: "reg_inv r \<Longrightarrow> reg_op_ok r a \<Longrightarrow> reg_inv (reg_step r a)"
  by (cases a)
    (auto intro: reg_inv_unregister reg_inv_deliver_by_session reg_inv_deliver_by_req
       reg_inv_error_all reg_inv_other reg_inv_register split: sum.splits option.splits)

lemma reg_inv_run: "reg_inv r \<Longrightarrow> reg_run_ok r ops \<Longrightarrow> reg_inv (foldl reg_step r ops)"
  by (induction ops arbitrary: r) (auto intro: reg_inv_step)

lemma overflowed_deliver:
  "sk \<in> overflowed r \<Longrightarrow> deliver_by_session now sk x r = (session_queue sk r \<noteq> None, r)"
  by (auto simp: deliver_by_session_def deliver_def split: option.splits)

section \<open>Properties\<close>

text \<open>
  C21: No queue of the registry ever holds more than \<open>TURN_QUEUE_MAX\<close> items and the bookkeeping
  stays consistent (every registered session has exactly one owner, whose request leads back to
  it, and a queue of its own), after any interleaving of registrations, deliveries, consumption,
  aborts and disconnections.
\<close>

theorem registry_run_bounded:
  assumes "0 < n" "reg_run_ok (new_turn_registry n) ops"
  shows "reg_inv (foldl reg_step (new_turn_registry n) ops) \<and>
         length (items (heap (foldl reg_step (new_turn_registry n) ops) q))
           \<le> max_queue_size (foldl reg_step (new_turn_registry n) ops)"
  using reg_inv_run[OF reg_inv_new[OF assms(1)] assms(2)] reg_invD(8) by blast

theorem registry_run_bounded_witness:
  "items (heap (foldl reg_step (new_turn_registry 1)
      [OpRegister ''r'' ''k'', OpDeliver 0 ''k'' (ItError ''a''), OpDeliver 1 ''k'' (ItError ''b'')]) 0)
     = [ItOverflow] \<and>
   reg_inv (foldl reg_step (new_turn_registry 1)
      [OpRegister ''r'' ''k'', OpDeliver 0 ''k'' (ItError ''a''), OpDeliver 1 ''k'' (ItError ''b'')])"
  using registry_run_bounded[of 1 "[OpRegister ''r'' ''k'', OpDeliver 0 ''k'' (ItError ''a''),
      OpDeliver 1 ''k'' (ItError ''b'')]" 0]
  by (simp add: register_def session_queue_def new_turn_registry_def Let_def deliver_by_session_def
      deliver_def put_nowait_def queue_full_def)

text \<open>
  A frame delivered to a session never touches the queue of another one. The session's own
  queue gets the frame at its end; only when it is full the turn is flagged: its pending frames
  are replaced by the single overflow marker, late frames are recognised as aborted for 5 seconds,
  and every further frame of that turn is dropped.
\<close>

theorem delivery_isolated:
  assumes "reg_inv r" "session_queue sk r = Some q" "sk \<notin> overflowed r"
    and "r' = snd (deliver_by_session now sk x r)"
  shows "(\<forall>k p. k \<noteq> sk \<longrightarrow> session_queue k r = Some p \<longrightarrow> heap r' p = heap r p) \<and>
    (if length (items (heap r q)) < max_queue_size r
     then items (heap r' q) = items (heap r q) @ [x] \<and> sk \<notin> overflowed r'
     else items (heap r' q) = [ItOverflow] \<and> sk \<in> overflowed r' \<and>
          (\<forall>t y. snd (deliver_by_session t sk y r') = r') \<and>
          (\<forall>t<now + TURN_ABORT_TOMBSTONE_S. fst (is_aborted t sk r')))"
proof -
  have r': "r' = deliver now sk q x r"
    using assms(2,4) by (simp add: deliver_by_session_def)
  have m: "maxsize (heap r q) = max_queue_size r" "0 < max_queue_size r"
    using reg_invD[OF assms(1)] by blast+
  have other: "heap r' p = heap r p" if "k \<noteq> sk" "session_queue k r = Some p" for k p
  proof -
    have "p \<noteq> q" using that queues_distinct[OF assms(1) that(2)] assms(2) by blast
    then show ?thesis unfolding r' by (simp add: deliver_def split: option.split)
  qed
  have tomb: "k \<in> fst ` set (filter (\<lambda>(_, d). \<not> d \<le> t) (dput k e xs))" if "t < e"
    for t e :: time and k :: string and xs
  proof -
    have "(k, e) \<in> set (filter (\<lambda>(_, d). \<not> d \<le> t) (dput k e xs))" using that by simp
    then show ?thesis by (metis fst_conv image_eqI)
  qed
  show ?thesis
  proof (cases "length (items (heap r q)) < max_queue_size r")
    case True
    then show ?thesis using assms(3) m other unfolding r'
      by (simp add: deliver_def put_nowait_def queue_full_def)
  next
    case False
    then have full: "put_nowait x (heap r q) = None"
      using m by (simp add: put_nowait_def queue_full_def)
    have ov: "sk \<in> overflowed r'" "items (heap r' q) = [ItOverflow]"
      "tombstones r' = dput sk (now + TURN_ABORT_TOMBSTONE_S) (tombstones r)"
      using assms(3) full unfolding r' by (simp_all add: deliver_def)
    have late: "\<forall>t<now + TURN_ABORT_TOMBSTONE_S. fst (is_aborted t sk r')"
      using tomb by (simp add: is_aborted_def Let_def ov(3))
    show ?thesis
      using False other ov(1,2) late overflowed_deliver[OF ov(1)] by simp
  qed
qed

theorem delivery_isolated_witness:
  "let r = foldl reg_step (new_turn_registry 1) [OpRegister ''r'' ''k'', OpDeliver 0 ''k'' (ItError ''a'')];
       r' = snd (deliver_by_session 1 ''k'' (ItError ''b'') r)
   in items (heap r' 0) = [ItOverflow] \<and> (\<forall>t<1 + TURN_ABORT_TOMBSTONE_S. fst (is_aborted t ''k'' r'))"
  using delivery_isolated[of "foldl reg_step (new_turn_registry 1)
      [OpRegister ''r'' ''k'', OpDeliver 0 ''k'' (ItError ''a'')]" "''k''" 0 _ 1 "ItError ''b''"]
    reg_inv_run[OF reg_inv_new[of 1], of "[OpRegister ''r'' ''k'', OpDeliver 0 ''k'' (ItError ''a'')]"]
  by (simp add: register_def session_queue_def new_turn_registry_def Let_def deliver_by_session_def
      deliver_def put_nowait_def queue_full_def)

text \<open>
  The late cleanup of a turn that has been superseded never evicts the turn that owns the
  session key now: the key keeps its owner, still accepts its frames and still refuses a second
  turn (issue 99).
\<close>

theorem stale_unregister_harmless:
  assumes "reg_inv r" "session_owner r sk = Some req" "old \<noteq> req"
    and "req_to_session r old = None \<or> req_to_session r old = Some sk"
  shows "session_owner (unregister sk old r) sk = Some req \<and>
         fst (deliver_by_session now sk x (unregister sk old r)) \<and>
         register other sk (unregister sk old r) = Inl TurnInProgress"
  using turns.stale_unregister[OF assms] turns.owned_excludes[of "unregister sk old r" sk req other "[]"]
    reg_inv_unregister[OF assms(1,4)] by simp

theorem stale_unregister_harmless_witness:
  "let r = foldl reg_step (new_turn_registry 2)
       [OpRegister ''a'' ''k'', OpUnregister ''k'' ''a'', OpRegister ''b'' ''k'']
   in session_owner (unregister ''k'' ''a'' r) ''k'' = Some ''b'' \<and>
      fst (deliver_by_session 0 ''k'' ItOverflow (unregister ''k'' ''a'' r)) \<and>
      register ''c'' ''k'' (unregister ''k'' ''a'' r) = Inl TurnInProgress"
  unfolding Let_def
  by (rule stale_unregister_harmless, rule reg_inv_run[OF reg_inv_new])
    (simp_all add: register_def session_queue_def new_turn_registry_def Let_def unregister_def dpop_def)

text \<open>Every turn in flight finds the error as the last item of its queue, even of a full one.\<close>

lemma error_all_reaches_everyone:
  assumes "reg_inv r" "session_queue sk r = Some q"
  shows "\<exists>ys. items (heap (error_all m r) q) = ys @ [ItError m] \<and> suffix ys (items (heap r q)) \<and>
    (\<forall>req k. session_owner (error_all m r) k = None \<and> (\<exists>p r'. register req k (error_all m r) = Inr (p, r')))"
proof -
  let ?f = "\<lambda>h q. h(q := force_put (ItError m) (h q))"
  have keep: "q \<notin> set qs \<Longrightarrow> foldl ?f h qs q = h q" for h and qs :: "qid list"
    by (induction qs arbitrary: h) auto
  have once: "q \<in> set qs \<Longrightarrow> distinct qs \<Longrightarrow> foldl ?f h qs q = force_put (ItError m) (h q)"
    for h and qs :: "qid list"
    by (induction qs arbitrary: h) (auto simp: keep)
  have "q \<in> set (map snd (sessions r))" "distinct (map snd (sessions r))"
    using assms(2) reg_invD(4)[OF assms(1)]
    by (auto simp: session_queue_def image_iff dest!: map_of_SomeD intro: bexI[rotated])
  then have "heap (error_all m r) q = force_put (ItError m) (heap r q)"
    by (simp add: error_all_def once)
  then show ?thesis
    using force_put_last[of "heap r q" "ItError m"]
    by (auto simp: error_all_def register_def session_queue_def Let_def)
qed

end
