(* ===== verification/Dispatcher.thy ===== *)
theory Dispatcher
  imports Turn_Registry
begin

text \<open>
  \<open>ClientRegistry\<close> (\<open>services/openclaw/registry.py\<close>) and \<open>FrameDispatcher\<close>
  (\<open>services/openclaw/dispatcher.py\<close>): where every incoming OpenClaw frame goes. A bridge is
  known by its identity (a number), and \<open>pushes\<close> is the sequence of \<open>enqueue_push\<close> calls made. A
  handler returns the exception it raises, if any, with the state it leaves.
\<close>

section \<open>ClientRegistry\<close>

type_synonym bridge_id = nat
type_synonym client_registry = "(string \<times> bridge_id) list"

definition client_register :: "string \<Rightarrow> bridge_id \<Rightarrow> client_registry \<Rightarrow> client_registry" where
  "client_register client_id bridge c = dput client_id bridge c"

definition client_unregister :: "string \<Rightarrow> bridge_id \<Rightarrow> client_registry \<Rightarrow> client_registry" where
  "client_unregister client_id expected_bridge c =
     (if map_of c client_id = Some expected_bridge then dpop client_id c else c)"

definition client_get :: "string \<Rightarrow> client_registry \<Rightarrow> bridge_id option" where
  "client_get client_id c = map_of c client_id"

definition bridges :: "client_registry \<Rightarrow> bridge_id list" where
  "bridges c = map snd c"

text \<open>\<open>notify\<close> is a bridge's \<open>notify_service_status\<close>; its failure does not stop the others.\<close>

definition broadcast_status ::
  "(bridge_id \<Rightarrow> 's \<Rightarrow> exn + 's) \<Rightarrow> client_registry \<Rightarrow> 's \<Rightarrow> 's" where
  "broadcast_status notify c s =
     foldl (\<lambda>s b. case notify b s of Inl _ \<Rightarrow> s | Inr s' \<Rightarrow> s') s (bridges c)"

section \<open>FrameDispatcher\<close>

datatype push_event =
    PushTurnStart string
  | PushChat dict
  | PushTool dict
  | PushTurnEnd string

datatype unhandled = UnhandledFrame json | UnhandledEvent json

record dispatcher =
  turn_reg :: turn_registry
  client_reg :: client_registry
  unknown_seen :: "unhandled set"
  pushes :: "(bridge_id \<times> push_event) list"

definition as_dict :: "json \<Rightarrow> dict" where
  "as_dict value = (case value of JObj d \<Rightarrow> d | _ \<Rightarrow> [])"

definition hashable :: "json \<Rightarrow> bool" where
  "hashable v = (case v of JArr _ \<Rightarrow> False | JObj _ \<Rightarrow> False | _ \<Rightarrow> True)"

definition enqueue_push_call :: "bridge_id \<Rightarrow> push_event \<Rightarrow> dispatcher \<Rightarrow> dispatcher" where
  "enqueue_push_call b e d = d\<lparr>pushes := pushes d @ [(b, e)]\<rparr>"

definition note_unhandled :: "unhandled \<Rightarrow> dispatcher \<Rightarrow> dispatcher" where
  "note_unhandled what d = d\<lparr>unknown_seen := insert what (unknown_seen d)\<rparr>"

definition handle_res :: "time \<Rightarrow> dict \<Rightarrow> dispatcher \<Rightarrow> exn option \<times> dispatcher" where
  "handle_res now frame d =
     (if dget frame ''ok'' = JBool False then
        (let fid = dget_or frame ''id'' (JStr []) in
         if \<not> hashable fid then (Some TypeError, d)
         else case fid of
           JStr i \<Rightarrow> (None, d\<lparr>turn_reg := snd (deliver_by_req now i (ItDone frame) (turn_reg d))\<rparr>)
         | _ \<Rightarrow> (None, d))
      else (None, d))"

text \<open>
  A session key that is not a string: an unhashable one raises in the first lookup; any other one
  owns no turn and fails in \<open>rsplit\<close>, after the lookup of the tombstones has purged the old ones.
\<close>

definition route_payload ::
  "time \<Rightarrow> json \<Rightarrow> turn_item \<Rightarrow> push_event \<Rightarrow> dispatcher \<Rightarrow> exn option \<times> dispatcher" where
  "route_payload now sk item push d =
     (if \<not> hashable sk then (Some TypeError, d)
      else case sk of
        JStr s \<Rightarrow>
          (let (owned, r1) = deliver_by_session now s item (turn_reg d); d1 = d\<lparr>turn_reg := r1\<rparr> in
           if owned then (None, d1)
           else let (aborted, r2) = is_aborted now s r1; d2 = d1\<lparr>turn_reg := r2\<rparr> in
             if aborted then (None, d2)
             else case client_get (client_id_from_session_key s) (client_reg d2) of
               None \<Rightarrow> (None, d2)
             | Some b \<Rightarrow> (None, enqueue_push_call b push d2))
      | _ \<Rightarrow> (Some AttributeError, d\<lparr>turn_reg := snd (is_aborted now [] (turn_reg d))\<rparr>))"

definition handle_chat :: "time \<Rightarrow> dict \<Rightarrow> dispatcher \<Rightarrow> exn option \<times> dispatcher" where
  "handle_chat now payload d =
     (let sk = dget payload ''sessionKey'' in
      if sk = JNull then (None, d)
      else route_payload now sk (ItChat payload) (PushChat payload) d)"

definition handle_agent_lifecycle :: "time \<Rightarrow> dict \<Rightarrow> dispatcher \<Rightarrow> exn option \<times> dispatcher" where
  "handle_agent_lifecycle now payload d =
     (let sk = dget payload ''sessionKey''; phase = dget (as_dict (dget payload ''data'')) ''phase'' in
      case sk of
        JNull \<Rightarrow> (None, d)
      | JStr s \<Rightarrow>
          (case client_get (client_id_from_session_key s) (client_reg d) of
             None \<Rightarrow> (None, d)
           | Some b \<Rightarrow>
               if phase = JStr ''start'' then
                 (if session_queue s (turn_reg d) \<noteq> None then (None, d)
                  else let (aborted, r1) = is_aborted now s (turn_reg d); d1 = d\<lparr>turn_reg := r1\<rparr> in
                    if aborted then (None, d1)
                    else (None, enqueue_push_call b (PushTurnStart s) d1))
               else if phase \<in> {JStr ''end'', JStr ''error''}
               then (None, enqueue_push_call b (PushTurnEnd s) d)
               else (None, d))
      | _ \<Rightarrow> (Some AttributeError, d))"

definition handle_session_tool :: "time \<Rightarrow> dict \<Rightarrow> dispatcher \<Rightarrow> exn option \<times> dispatcher" where
  "handle_session_tool now payload d =
     (let sk = dget payload ''sessionKey''; data = as_dict (dget payload ''data'') in
      if sk = JNull then (None, d)
      else if dget data ''phase'' \<notin> {JStr ''start'', JStr ''result''} then (None, d)
      else route_payload now sk (ItTool data) (PushTool data) d)"

definition handle_event :: "time \<Rightarrow> dict \<Rightarrow> dispatcher \<Rightarrow> exn option \<times> dispatcher" where
  "handle_event now frame d =
     (let event = dget_or frame ''event'' (JStr []); payload = as_dict (dget frame ''payload'') in
      if event = JStr ''chat'' then handle_chat now payload d
      else if event = JStr ''agent'' then handle_agent_lifecycle now payload d
      else if event = JStr ''session.tool'' then handle_session_tool now payload d
      else (None, note_unhandled (UnhandledEvent event) d))"

definition dispatch :: "time \<Rightarrow> dict \<Rightarrow> dispatcher \<Rightarrow> exn option \<times> dispatcher" where
  "dispatch now frame d =
     (let ftype = dget frame ''type'' in
      if ftype = JStr ''res'' then handle_res now frame d
      else if ftype = JStr ''event'' then handle_event now frame d
      else (None, note_unhandled (UnhandledFrame ftype) d))"

section \<open>Lemmas\<close>

lemmas handler_defs = handle_res_def handle_chat_def handle_agent_lifecycle_def
  handle_session_tool_def handle_event_def note_unhandled_def enqueue_push_call_def

definition dispatch_run :: "(time \<times> dict) list \<Rightarrow> dispatcher \<Rightarrow> dispatcher" where
  "dispatch_run fs d = foldl (\<lambda>d (now, frame). snd (dispatch now frame d)) d fs"

text \<open>What no frame changes: who owns a session, which bridges are registered.\<close>

definition same_owners :: "dispatcher \<Rightarrow> dispatcher \<Rightarrow> bool" where
  "same_owners d d' \<longleftrightarrow>
     (\<forall>k. session_queue k (turn_reg d') = session_queue k (turn_reg d)) \<and>
     session_owner (turn_reg d') = session_owner (turn_reg d) \<and>
     client_reg d' = client_reg d \<and> unknown_seen d \<subseteq> unknown_seen d' \<and>
     (\<exists>new. pushes d' = pushes d @ new \<and> (\<forall>(b, e)\<in>set new. b \<in> set (bridges (client_reg d))))"

lemma client_get_bridges: "client_get c r = Some b \<Longrightarrow> b \<in> set (bridges r)"
  by (force simp: client_get_def bridges_def dest: map_of_SomeD)

lemma same_owners_refl: "same_owners d d"
  by (simp add: same_owners_def)

lemma same_owners_trans: "same_owners a b \<Longrightarrow> same_owners b c \<Longrightarrow> same_owners a c"
  unfolding same_owners_def by (auto simp: ball_Un)

lemma same_owners_turn_reg:
  "(\<forall>k. session_queue k r = session_queue k (turn_reg d)) \<Longrightarrow>
   session_owner r = session_owner (turn_reg d) \<Longrightarrow> same_owners d (d\<lparr>turn_reg := r\<rparr>)"
  by (simp add: same_owners_def)

lemma same_owners_push:
  "same_owners d d' \<Longrightarrow> client_get c (client_reg d') = Some b \<Longrightarrow>
   same_owners d (enqueue_push_call b e d')"
  unfolding same_owners_def enqueue_push_call_def by (auto dest: client_get_bridges)

lemma deliver_by_req_frame [simp]:
  "session_queue k (snd (deliver_by_req now i x r)) = session_queue k r"
  "session_owner (snd (deliver_by_req now i x r)) = session_owner r"
  by (auto simp: deliver_by_req_def split: option.splits)

lemma route_payload_safe:
  assumes "reg_inv (turn_reg d)" "route_payload now sk x p d = (e, d')"
  shows "same_owners d d' \<and> reg_inv (turn_reg d') \<and> e \<in> {None, Some TypeError, Some AttributeError}"
proof (cases sk)
  case (JStr s)
  define r1 where "r1 = snd (deliver_by_session now s x (turn_reg d))"
  define r2 where "r2 = snd (is_aborted now s r1)"
  have i: "reg_inv r1" "reg_inv r2"
    using assms(1) by (auto simp: r1_def r2_def intro: reg_inv_deliver_by_session reg_inv_other(1))
  have f: "same_owners d (d\<lparr>turn_reg := r1\<rparr>)" "same_owners d (d\<lparr>turn_reg := r2\<rparr>)"
    by (auto intro!: same_owners_turn_reg simp: r1_def r2_def)
  have p: "same_owners d (enqueue_push_call b p (d\<lparr>turn_reg := r2\<rparr>))"
    if "client_get (client_id_from_session_key s) (client_reg d) = Some b" for b
    using f(2) that by (intro same_owners_push[of _ _ "client_id_from_session_key s"]) simp_all
  show ?thesis
    using assms(2) i f p unfolding JStr route_payload_def
    by (auto simp: hashable_def r1_def[symmetric] r2_def[symmetric] Let_def split_beta
        enqueue_push_call_def split: if_splits option.splits)
qed (use assms in \<open>auto simp: route_payload_def hashable_def intro!: same_owners_turn_reg
       same_owners_refl reg_inv_other(1)\<close>)

lemma agent_lifecycle_safe:
  assumes "reg_inv (turn_reg d)" "handle_agent_lifecycle now pl d = (e, d')"
  shows "same_owners d d' \<and> reg_inv (turn_reg d') \<and> e \<in> {None, Some TypeError, Some AttributeError}"
proof -
  have i: "reg_inv (snd (is_aborted now s (turn_reg d)))" for s
    using assms(1) by (rule reg_inv_other(1))
  have f: "same_owners d (d\<lparr>turn_reg := snd (is_aborted now s (turn_reg d))\<rparr>)" for s
    by (auto intro!: same_owners_turn_reg)
  show ?thesis
    using assms i f unfolding handle_agent_lifecycle_def
    by (auto simp: Let_def split_beta same_owners_refl intro!: same_owners_push
        split: json.splits option.splits if_splits) (simp_all add: enqueue_push_call_def)
qed

lemma dispatch_safe:
  assumes "reg_inv (turn_reg d)" "dispatch now frame d = (e, d')"
  shows "same_owners d d' \<and> reg_inv (turn_reg d') \<and> e \<in> {None, Some TypeError, Some AttributeError}"
proof -
  have res: "same_owners d d' \<and> reg_inv (turn_reg d') \<and> e \<in> {None, Some TypeError, Some AttributeError}"
    if "handle_res now frame d = (e, d')"
    using that assms(1) unfolding handle_res_def
    by (auto simp: Let_def same_owners_refl intro!: same_owners_turn_reg reg_inv_deliver_by_req
        split: if_splits json.splits)
  have unk: "same_owners d (note_unhandled w d) \<and> reg_inv (turn_reg (note_unhandled w d))" for w
    using assms(1) by (auto simp: same_owners_def note_unhandled_def)
  show ?thesis
    using assms res unk route_payload_safe[OF assms(1)] agent_lifecycle_safe[OF assms(1)]
    unfolding dispatch_def handle_event_def handle_chat_def handle_session_tool_def
    by (auto simp: Let_def same_owners_refl split: if_splits)
qed

lemma dispatch_run_safe_lemma:
  "reg_inv (turn_reg d) \<Longrightarrow> same_owners d (dispatch_run fs d) \<and> reg_inv (turn_reg (dispatch_run fs d))"
proof (induction fs arbitrary: d)
  case (Cons f fs)
  obtain now frame where f: "f = (now, frame)" by fastforce
  obtain e d1 where d1: "dispatch now frame d = (e, d1)" by fastforce
  have s: "same_owners d d1" "reg_inv (turn_reg d1)" using dispatch_safe[OF Cons.prems d1] by auto
  then show ?case
    using Cons.IH[OF s(2)] f d1 by (auto simp: dispatch_run_def intro: same_owners_trans)
qed (simp add: dispatch_run_def same_owners_refl)

text \<open>The session a frame belongs to.\<close>

definition frame_key :: "dict \<Rightarrow> json" where
  "frame_key frame = dget (as_dict (dget frame ''payload'')) ''sessionKey''"

lemma dispatch_owned:
  assumes "session_queue sk (turn_reg d) \<noteq> None" "frame_key frame = JStr sk"
  shows "pushes (snd (dispatch now frame d)) = pushes d \<or>
         (\<exists>b. client_get (client_id_from_session_key sk) (client_reg d) = Some b \<and>
              pushes (snd (dispatch now frame d)) = pushes d @ [(b, PushTurnEnd sk)])"
  using assms unfolding frame_key_def dispatch_def handle_event_def handle_chat_def
    handle_session_tool_def route_payload_def handle_agent_lifecycle_def handle_res_def
  by (auto simp: Let_def split_beta note_unhandled_def enqueue_push_call_def hashable_def
      split: if_splits json.splits option.splits)

section \<open>Properties\<close>

text \<open>
  No sequence of OpenClaw frames, however malformed, corrupts the gateway: the turn registry
  stays consistent and bounded, no frame changes who owns a session or which bridges are
  registered, and push events are only queued on registered bridges.
\<close>

theorem dispatch_run_safe:
  assumes "reg_inv (turn_reg d)"
  shows "reg_inv (turn_reg (dispatch_run fs d)) \<and> same_owners d (dispatch_run fs d)"
  using dispatch_run_safe_lemma[OF assms] by blast

theorem dispatch_run_safe_witness:
  "let d = \<lparr>turn_reg = new_turn_registry 4, client_reg = [(''c'', 7)], unknown_seen = {}, pushes = []\<rparr>;
       fs = [(0, [(''type'', JStr ''event''), (''event'', JStr ''chat''),
                  (''payload'', JObj [(''sessionKey'', JStr ''agent:main:c'')])]),
             (1, [(''type'', JInt 3)])]
   in reg_inv (turn_reg (dispatch_run fs d)) \<and> same_owners d (dispatch_run fs d) \<and>
      map fst (pushes (dispatch_run fs d)) = [7]"
  unfolding Let_def
  using dispatch_run_safe[of "\<lparr>turn_reg = new_turn_registry 4, client_reg = [(''c'', 7)],
      unknown_seen = {}, pushes = []\<rparr>"]
  by (simp add: reg_inv_new)
    (simp add: dispatch_run_def dispatch_def handler_defs dget_def dget_or_def as_dict_def
      route_payload_def hashable_def deliver_by_session_def session_queue_def new_turn_registry_def
      is_aborted_def client_get_def client_id_from_session_key_def)

text \<open>
  While a normal turn owns a session key, the frames of that session open no push turn and put
  no push text or tool call on the client's bridge: the only push event they can queue is the end
  of a turn, which is always forwarded so that a push left open earlier is still closed (112).
\<close>

theorem normal_turn_excludes_push:
  assumes "reg_inv (turn_reg d)" "session_queue sk (turn_reg d) \<noteq> None"
    and "\<forall>(now, frame)\<in>set fs. frame_key frame = JStr sk"
  shows "\<exists>n b. pushes (dispatch_run fs d) = pushes d @ replicate n (b, PushTurnEnd sk)"
proof -
  have "\<exists>n. pushes (dispatch_run fs d) = pushes d @ replicate n
      (case client_get (client_id_from_session_key sk) (client_reg d) of Some b \<Rightarrow> b | None \<Rightarrow> 0, PushTurnEnd sk)"
    using assms
  proof (induction fs arbitrary: d)
    case Nil
    show ?case by (auto simp: dispatch_run_def intro: exI[of _ 0])
  next
    case (Cons f fs)
    obtain now frame where f: "f = (now, frame)" by fastforce
    define d1 where "d1 = snd (dispatch now frame d)"
    have s: "same_owners d d1" "reg_inv (turn_reg d1)"
      using dispatch_safe[OF Cons.prems(1), of now frame] unfolding d1_def by (metis prod.collapse)+
    have c: "client_reg d1 = client_reg d" "session_queue sk (turn_reg d1) \<noteq> None"
      using s(1) Cons.prems(2) by (simp_all add: same_owners_def)
    have run: "dispatch_run (f # fs) d = dispatch_run fs d1"
      by (simp add: dispatch_run_def d1_def f)
    have k: "frame_key frame = JStr sk" using Cons.prems(3) f by simp
    from Cons.IH[OF s(2) c(2)] Cons.prems(3) obtain n where
      n: "pushes (dispatch_run fs d1) = pushes d1 @ replicate n
        (case client_get (client_id_from_session_key sk) (client_reg d1) of Some b \<Rightarrow> b | None \<Rightarrow> 0,
         PushTurnEnd sk)" by auto
    from dispatch_owned[OF Cons.prems(2) k, of now] show ?case
      unfolding run n c(1) d1_def[symmetric]
      by (auto intro: exI[of _ n] exI[of _ "Suc n"])
  qed
  then show ?thesis by blast
qed

theorem normal_turn_excludes_push_witness:
  "let r = foldl reg_step (new_turn_registry 4) [OpRegister ''q'' ''agent:main:c''];
       d = \<lparr>turn_reg = r, client_reg = [(''c'', 7)], unknown_seen = {}, pushes = []\<rparr>;
       pl = (\<lambda>ph. (''payload'', JObj [(''sessionKey'', JStr ''agent:main:c''), (''data'', JObj [(''phase'', JStr ph)])]));
       fs = [(0, [(''type'', JStr ''event''), (''event'', JStr ''agent''), pl ''start'']),
             (1, [(''type'', JStr ''event''), (''event'', JStr ''agent''), pl ''end''])]
   in \<exists>n b. pushes (dispatch_run fs d) = pushes d @ replicate n (b, PushTurnEnd ''agent:main:c'')"
  unfolding Let_def
  by (rule normal_turn_excludes_push, simp only: dispatcher.simps, rule reg_inv_run[OF reg_inv_new])
    (simp_all add: register_def session_queue_def new_turn_registry_def Let_def frame_key_def
      dget_def as_dict_def)

text \<open>
  When a client reconnects while the previous session of the same client is still closing, the
  late teardown of the old bridge leaves the new bridge registered, and its own teardown removes
  it (issue 113).
\<close>

theorem reconnect_race_keeps_new_bridge:
  assumes "old \<noteq> new"
  shows "client_get c (client_unregister c old (client_register c new (client_register c old r))) = Some new \<and>
         client_get c (client_unregister c new (client_unregister c old
            (client_register c new (client_register c old r)))) = None \<and>
         (c' \<noteq> c \<longrightarrow> client_get c' (client_unregister c old (client_register c new (client_register c old r)))
            = client_get c' r)"
  using assms by (simp add: client_get_def client_unregister_def client_register_def)

theorem reconnect_race_keeps_new_bridge_witness:
  "client_get ''c'' (client_unregister ''c'' 1 (client_register ''c'' 2 (client_register ''c'' 1 []))) = Some 2"
  using reconnect_race_keeps_new_bridge[of 1 2 "''c''" "[]" "''d''"] by simp

end
