(* ===== verification/Chat_Text.thy ===== *)
theory Chat_Text
  imports Prelude
begin

text \<open>
  \<open>services/openclaw/chat_text.py\<close>: reconstruction of a reply from \<open>chat\<close> events. Tokens already
  delivered cannot be retracted, so every event delivers only the part that is still missing.
\<close>

section \<open>Message text\<close>

fun text_part :: "json \<Rightarrow> string" where
  "text_part (JObj part) =
     (if dget part ''type'' = JStr ''text''
      then (case dget part ''text'' of JStr t \<Rightarrow> t | _ \<Rightarrow> []) else [])"
| "text_part _ = []"

definition extract_message_text :: "json \<Rightarrow> string" where
  "extract_message_text message =
     (case message of
        JObj m \<Rightarrow>
          (case dget m ''content'' of
             JStr content \<Rightarrow> content
           | JArr content \<Rightarrow> concat (map text_part content)
           | _ \<Rightarrow> [])
      | _ \<Rightarrow> [])"

section \<open>Missing tail\<close>

datatype tail_kind = TailOk | TailRetract

definition is_retraction :: "string \<Rightarrow> string \<Rightarrow> bool" where
  "is_retraction emitted text \<longleftrightarrow>
     text \<noteq> [] \<and> length text < length emitted \<and> startswith emitted text"

definition tail :: "string \<Rightarrow> string \<Rightarrow> (tail_kind \<times> string) option" where
  "tail emitted text =
     (if startswith text emitted then Some (TailOk, drop (length emitted) text)
      else let e = lstrip emitted; f = lstrip text in
        if strip e \<noteq> [] \<and> startswith f e then Some (TailOk, drop (length e) f)
        else if is_retraction emitted text then Some (TailRetract, [])
        else None)"

definition missing_tail :: "string \<Rightarrow> string \<Rightarrow> string" where
  "missing_tail emitted final_text =
     (case tail emitted final_text of Some (_, out) \<Rightarrow> out | None \<Rightarrow> final_text)"

section \<open>The tracker\<close>

record tracker =
  emitted :: string
  current :: string
  all_out :: string

definition new_tracker :: tracker where
  "new_tracker = \<lparr>emitted = [], current = [], all_out = []\<rparr>"

definition reset :: "tracker \<Rightarrow> tracker" where
  "reset t = t\<lparr>emitted := [], current := [], all_out := []\<rparr>"

definition emit_missing :: "tracker \<Rightarrow> string \<times> tracker" where
  "emit_missing t =
     (if current t = [] then ([], t)
      else
        let hit = (case tail (emitted t) (current t) of
                     Some h \<Rightarrow> Some h | None \<Rightarrow> tail (all_out t) (current t)) in
        case hit of
          Some (TailRetract, _) \<Rightarrow> ([], t)
        | Some (TailOk, out) \<Rightarrow> (out, t\<lparr>emitted := current t, all_out := all_out t @ out\<rparr>)
        | None \<Rightarrow> (current t, t\<lparr>emitted := current t, all_out := all_out t @ current t\<rparr>))"

definition feed :: "dict \<Rightarrow> tracker \<Rightarrow> string \<times> tracker" where
  "feed payload t =
     (let state = dget payload ''state'';
          delta = (case dget payload ''deltaText'' of JStr d \<Rightarrow> Some d | _ \<Rightarrow> None);
          message = dget payload ''message'';
          has_snapshot = is_dict message;
          snapshot = (if has_snapshot then extract_message_text message else [])
      in
      if state = JStr ''final'' then
        let t1 = (if has_snapshot \<and> (snapshot \<noteq> [] \<or> delta = None) then t\<lparr>current := snapshot\<rparr>
                  else case delta of
                         Some d \<Rightarrow> t\<lparr>current := current t @ d\<rparr>
                       | None \<Rightarrow> t);
            (out, t2) = emit_missing t1
        in (out, reset t2)
      else if state \<noteq> JNull \<and> state \<noteq> JStr ''delta'' then
        (case delta of
           None \<Rightarrow> ([], t)
         | Some d \<Rightarrow> if d = [] then ([], t) else emit_missing (t\<lparr>current := current t @ d\<rparr>))
      else if has_snapshot then emit_missing (t\<lparr>current := snapshot\<rparr>)
      else
        (case delta of
           None \<Rightarrow> ([], t)
         | Some d \<Rightarrow>
             if dget payload ''replace'' = JBool True then emit_missing (t\<lparr>current := d\<rparr>)
             else if d \<noteq> [] then emit_missing (t\<lparr>current := current t @ d\<rparr>)
             else ([], t)))"

fun feed_all :: "dict list \<Rightarrow> tracker \<Rightarrow> string \<times> tracker" where
  "feed_all [] t = ([], t)"
| "feed_all (p # ps) t =
     (let (out, t1) = feed p t; (rest, t2) = feed_all ps t1 in (out @ rest, t2))"

section \<open>Lemmas\<close>

lemma tail_extension [simp]: "tail e (e @ x) = Some (TailOk, x)"
  by (simp add: tail_def)

lemma tail_self [simp]: "tail e e = Some (TailOk, [])"
  by (simp add: tail_def)

lemma reset_eq [simp]: "reset t = new_tracker"
  by (simp add: reset_def new_tracker_def)

text \<open>What a hit means: the text is what was sent followed by the tail, up to leading spaces.\<close>

lemma tail_sound:
  "tail e f = Some (k, out) \<Longrightarrow>
   (k = TailOk \<and> (e @ out = f \<or> lstrip e @ out = lstrip f)) \<or>
   (k = TailRetract \<and> out = [] \<and> f \<noteq> [] \<and> strict_prefix f e)"
  by (auto simp: tail_def is_retraction_def Let_def startswith_prefix strict_prefix_def
      split: if_splits dest: prefix_length_le elim!: prefixE)

text \<open>Everything delivered so far is the current text.\<close>

definition aligned :: "tracker \<Rightarrow> bool" where
  "aligned t \<longleftrightarrow> emitted t = current t \<and> all_out t = current t"

lemma new_tracker_sel [simp]:
  "emitted new_tracker = []" "current new_tracker = []" "all_out new_tracker = []"
  by (simp_all add: new_tracker_def)

lemma aligned_new [simp]: "aligned new_tracker"
  by (simp add: aligned_def)

lemma emit_missing_aligned:
  "aligned t \<Longrightarrow>
   emit_missing (t\<lparr>current := current t @ x\<rparr>) =
     (x, t\<lparr>current := current t @ x, emitted := current t @ x, all_out := current t @ x\<rparr>)"
  by (cases t) (auto simp: emit_missing_def aligned_def Let_def)

text \<open>A growing event: an appended \<open>deltaText\<close> or a snapshot that extends the current text.\<close>

definition payload_event :: "dict \<Rightarrow> bool" where
  "payload_event p \<longleftrightarrow> dget p ''state'' = JNull \<or> dget p ''state'' = JStr ''delta''"

definition grows_to :: "dict \<Rightarrow> string \<Rightarrow> string \<Rightarrow> bool" where
  "grows_to p c c' \<longleftrightarrow>
     (if is_dict (dget p ''message'')
      then extract_message_text (dget p ''message'') = c' \<and> prefix c c'
      else dget p ''replace'' \<noteq> JBool True \<and>
           (\<exists>d. dget p ''deltaText'' = JStr d \<and> c' = c @ d))"

fun growing :: "dict list \<Rightarrow> string \<Rightarrow> string \<Rightarrow> bool" where
  "growing [] c c' = (c = c')"
| "growing (p # ps) c c' = (payload_event p \<and> (\<exists>c1. grows_to p c c1 \<and> growing ps c1 c'))"

lemma feed_grows:
  assumes "aligned t" "payload_event p" "grows_to p (current t) c'"
  shows "\<exists>t'. feed p t = (drop (length (current t)) c', t') \<and> aligned t' \<and> current t' = c'
           \<and> prefix (current t) c'"
proof -
  from assms(3) have "prefix (current t) c'"
    by (auto simp: grows_to_def split: if_splits)
  then obtain x where x: "c' = current t @ x" by (auto elim: prefixE)
  have ev: "dget p ''state'' \<noteq> JStr ''final''"
    "\<not> (dget p ''state'' \<noteq> JNull \<and> dget p ''state'' \<noteq> JStr ''delta'')"
    using assms(2) by (auto simp: payload_event_def)
  have nil: "t = t\<lparr>current := current t @ [], emitted := current t @ [], all_out := current t @ []\<rparr>"
    using assms(1) by (cases t) (simp add: aligned_def)
  have e: "feed p t = emit_missing (t\<lparr>current := current t @ x\<rparr>)"
  proof (cases "is_dict (dget p ''message'')")
    case True
    with assms(3) x ev show ?thesis by (auto simp: feed_def grows_to_def Let_def)
  next
    case False
    with assms(3) x ev nil emit_missing_aligned[OF assms(1), of "[]"] show ?thesis
      by (auto simp: feed_def grows_to_def Let_def)
  qed
  show ?thesis
    unfolding e emit_missing_aligned[OF assms(1)] using x by (simp add: aligned_def)
qed

lemma feed_all_growing:
  "aligned t \<Longrightarrow> growing ps (current t) c' \<Longrightarrow>
   \<exists>out t'. feed_all ps t = (out, t') \<and> current t @ out = c' \<and> aligned t' \<and> current t' = c'"
proof (induction ps arbitrary: t)
  case (Cons p ps)
  then obtain c1 where p: "payload_event p" "grows_to p (current t) c1" "growing ps c1 c'" by auto
  from feed_grows[OF Cons.prems(1) p(1,2)] obtain t1 where
    t1: "feed p t = (drop (length (current t)) c1, t1)" "aligned t1" "current t1 = c1"
    "prefix (current t) c1" by blast
  with Cons.IH[of t1] p(3) obtain out t2 where
    "feed_all ps t1 = (out, t2)" "c1 @ out = c'" "aligned t2" "current t2 = c'" by auto
  with t1 show ?case by (auto elim!: prefixE)
qed simp

lemma emit_missing_again:
  "emit_missing t = (out, t') \<Longrightarrow> current t' = current t \<and> fst (emit_missing t') = []"
  by (auto simp: emit_missing_def Let_def split: if_splits option.splits tail_kind.splits prod.splits)

section \<open>Properties\<close>

text \<open>
  C37: A reply that only grows, whatever the mix of deltas and snapshots, followed by a \<open>final\<close>
  whose message extends it, is delivered exactly: the tokens concatenate to the final text, with
  nothing lost or repeated, and the tracker is ready for the next reply.
\<close>

theorem stream_text_exact:
  assumes "growing ps [] c" "dget p ''state'' = JStr ''final''"
    and "is_dict (dget p ''message'')" "extract_message_text (dget p ''message'') = c @ rest"
    and "c @ rest \<noteq> [] \<or> (\<forall>d. dget p ''deltaText'' \<noteq> JStr d)"
  shows "feed_all (ps @ [p]) new_tracker = (c @ rest, new_tracker)"
proof -
  have app: "feed_all (xs @ ys) t = (fst (feed_all xs t) @ fst (feed_all ys (snd (feed_all xs t))),
      snd (feed_all ys (snd (feed_all xs t))))" for xs ys t
    by (induction xs arbitrary: t) (auto simp: Let_def split: prod.splits)
  obtain t1 where t1: "feed_all ps new_tracker = (c, t1)" "aligned t1" "current t1 = c"
    using feed_all_growing[of new_tracker ps c] assms(1) by auto
  have "feed p t1 = (rest, new_tracker)"
    using assms(2-5) emit_missing_aligned[OF t1(2), of rest] t1(3)
    by (auto simp: feed_def Let_def split: json.splits)
  with t1(1) show ?thesis by (simp add: app)
qed

theorem stream_text_exact_witness:
  "feed_all ([[(''deltaText'', JStr ''Ho'')], [(''message'', JObj [(''content'', JStr ''Hola'')])]]
     @ [[(''state'', JStr ''final''), (''message'', JObj [(''content'', JStr ''Hola!'')])]]) new_tracker
   = (''Hola!'', new_tracker)"
  using stream_text_exact[of "[[(''deltaText'', JStr ''Ho'')],
      [(''message'', JObj [(''content'', JStr ''Hola'')])]]" "''Hola''"
      "[(''state'', JStr ''final''), (''message'', JObj [(''content'', JStr ''Hola!'')])]" "''!''"]
  by (simp add: payload_event_def grows_to_def dget_def extract_message_text_def)

text \<open>
  A repeated snapshot delivers nothing the second time, from any state of the tracker (also
  after a retraction or a divergence): a client never sees the same snapshot twice.
\<close>

theorem snapshot_not_repeated:
  assumes "payload_event p" "is_dict (dget p ''message'')"
  shows "fst (feed p (snd (feed p t))) = []"
proof -
  let ?s = "extract_message_text (dget p ''message'')"
  have f: "feed p u = emit_missing (u\<lparr>current := ?s\<rparr>)" for u
    using assms by (auto simp: feed_def Let_def payload_event_def)
  obtain out t1 where e: "emit_missing (t\<lparr>current := ?s\<rparr>) = (out, t1)" by fastforce
  from emit_missing_again[OF e] have "t1\<lparr>current := ?s\<rparr> = t1" "fst (emit_missing t1) = []"
    by (cases t1; simp)+
  then show ?thesis by (simp add: f e)
qed

theorem snapshot_not_repeated_witness:
  "let p = [(''message'', JObj [(''content'', JStr ''b'')])] in
   fst (feed p (snd (feed p \<lparr>emitted = ''ax'', current = ''ax'', all_out = ''ax''\<rparr>))) = []"
  using snapshot_not_repeated[of "[(''message'', JObj [(''content'', JStr ''b'')])]"
      "\<lparr>emitted = ''ax'', current = ''ax'', all_out = ''ax''\<rparr>"]
  by (simp add: payload_event_def dget_def)

text \<open>
  A \<open>final\<close> never loses the reply: from any state of the tracker what it delivers completes the
  final text from something already delivered (up to leading spaces), or delivers the whole of it;
  only a text that is a prefix of what the client already has delivers nothing.
\<close>

theorem final_text_delivered:
  assumes "dget p ''state'' = JStr ''final''" "is_dict (dget p ''message'')"
    and "extract_message_text (dget p ''message'') = f" "f \<noteq> []"
  shows "fst (feed p t) = f \<or>
    (\<exists>sent\<in>{emitted t, all_out t}.
       sent @ fst (feed p t) = f \<or> lstrip sent @ fst (feed p t) = lstrip f \<or>
       (fst (feed p t) = [] \<and> strict_prefix f sent))"
proof -
  have "fst (feed p t) = fst (emit_missing (t\<lparr>current := f\<rparr>))"
    using assms by (simp add: feed_def Let_def split: prod.split)
  then show ?thesis
    using assms(4) tail_sound[of "emitted t" f] tail_sound[of "all_out t" f]
    by (auto simp: emit_missing_def Let_def split: option.splits tail_kind.splits prod.splits)
qed

theorem final_text_delivered_witness:
  "fst (feed [(''state'', JStr ''final''), (''message'', JObj [(''content'', JStr ''xy'')])]
       \<lparr>emitted = ''x'', current = ''x'', all_out = ''x''\<rparr>) = ''xy'' \<or>
   (\<exists>sent\<in>{emitted \<lparr>emitted = ''x'', current = ''x'', all_out = ''x''\<rparr>,
            all_out \<lparr>emitted = ''x'', current = ''x'', all_out = ''x''\<rparr>}.
      sent @ fst (feed [(''state'', JStr ''final''), (''message'', JObj [(''content'', JStr ''xy'')])]
        \<lparr>emitted = ''x'', current = ''x'', all_out = ''x''\<rparr>) = ''xy'' \<or>
      lstrip sent @ fst (feed [(''state'', JStr ''final''), (''message'', JObj [(''content'', JStr ''xy'')])]
        \<lparr>emitted = ''x'', current = ''x'', all_out = ''x''\<rparr>) = lstrip ''xy'' \<or>
      (fst (feed [(''state'', JStr ''final''), (''message'', JObj [(''content'', JStr ''xy'')])]
        \<lparr>emitted = ''x'', current = ''x'', all_out = ''x''\<rparr>) = [] \<and> strict_prefix ''xy'' sent))"
  by (rule final_text_delivered) (simp_all add: dget_def extract_message_text_def)

end
