(* ===== verification/OpenClaw_Models.thy ===== *)
theory OpenClaw_Models
  imports Prelude
begin

text \<open>
  \<open>services/openclaw/models.py\<close> and \<open>frames.py\<close>: what the gateway decodes from OpenClaw (the
  announced gateway information and the tool-call events) and the request frames it sends.
  Decoded values keep their JSON type, as the code keeps them unchecked; a wrong shape raises
  where Python raises.
\<close>

section \<open>GatewayInfo\<close>

record gateway_info =
  default_agent_id :: json
  tick_interval_ms :: json
  max_payload :: json
  agents :: "json list"

definition has_agent :: "string \<Rightarrow> gateway_info \<Rightarrow> bool" where
  "has_agent agent_id g = (JStr agent_id \<in> set (agents g))"

text \<open>\<open>v.get(k, d)\<close> on a decoded value: only a dict has \<open>get\<close>.\<close>

definition jget_or :: "json \<Rightarrow> string \<Rightarrow> json \<Rightarrow> exn + json" where
  "jget_or v k d = (case v of JObj m \<Rightarrow> Inr (dget_or m k d) | _ \<Rightarrow> Inl AttributeError)"

fun agent_ids :: "json list \<Rightarrow> exn + json list" where
  "agent_ids [] = Inr []"
| "agent_ids (a # as) =
     (case a of
        JObj m \<Rightarrow>
          (case map_of m ''id'' of
             None \<Rightarrow> Inl KeyError
           | Some i \<Rightarrow> (case agent_ids as of Inl e \<Rightarrow> Inl e | Inr is \<Rightarrow> Inr (i # is)))
      | _ \<Rightarrow> Inl TypeError)"

definition update_agents_from_list :: "json \<Rightarrow> gateway_info \<Rightarrow> exn + gateway_info" where
  "update_agents_from_list payload g =
     (case jget_or payload ''agents'' (JArr []) of
        Inl e \<Rightarrow> Inl e
      | Inr v \<Rightarrow>
          let elems = (case v of
                         JArr xs \<Rightarrow> Inr xs
                       | JObj m \<Rightarrow> Inr (map (JStr \<circ> fst) m)
                       | JStr s \<Rightarrow> Inr (map (\<lambda>c. JStr [c]) s)
                       | _ \<Rightarrow> Inl TypeError)
          in case elems of
               Inl e \<Rightarrow> Inl e
             | Inr xs \<Rightarrow>
                 (case agent_ids xs of
                    Inl e \<Rightarrow> Inl e
                  | Inr ids \<Rightarrow>
                      (case jget_or payload ''defaultId'' (default_agent_id g) of
                         Inl e \<Rightarrow> Inl e
                       | Inr d \<Rightarrow> Inr (g\<lparr>agents := ids, default_agent_id := d\<rparr>))))"

definition from_hello_ok :: "dict \<Rightarrow> exn + gateway_info" where
  "from_hello_ok payload =
     (let policy = dget_or payload ''policy'' (JObj []);
          snapshot = dget_or payload ''snapshot'' (JObj [])
      in case jget_or snapshot ''sessionDefaults'' (JObj []) of
           Inl e \<Rightarrow> Inl e
         | Inr defaults \<Rightarrow>
             (case jget_or defaults ''defaultAgentId'' JNull of
                Inl e \<Rightarrow> Inl e
              | Inr agent \<Rightarrow>
                  (case jget_or policy ''tickIntervalMs'' (JInt 15000) of
                     Inl e \<Rightarrow> Inl e
                   | Inr tick \<Rightarrow>
                       (case jget_or policy ''maxPayload'' (JInt 26214400) of
                          Inl e \<Rightarrow> Inl e
                        | Inr mp \<Rightarrow>
                            Inr \<lparr>default_agent_id = (if truthy agent then agent else JStr ''main''),
                                 tick_interval_ms = tick, max_payload = mp, agents = []\<rparr>))))"

section \<open>Tool calls\<close>

record tool_call =
  tc_phase :: string
  tc_name :: json
  tc_id :: json
  tc_args :: json
  tc_result :: "string option"
  tc_is_error :: json

text \<open>The \<open>text\<close> of every content block of type \<open>text\<close>; other entries are skipped.\<close>

fun text_blocks :: "json list \<Rightarrow> json list" where
  "text_blocks [] = []"
| "text_blocks (b # bs) =
     (case b of
        JObj m \<Rightarrow> if dget m ''type'' = JStr ''text'' then dget_or m ''text'' (JStr []) # text_blocks bs
                  else text_blocks bs
      | _ \<Rightarrow> text_blocks bs)"

fun join_truthy :: "json list \<Rightarrow> exn + string list" where
  "join_truthy [] = Inr []"
| "join_truthy (t # ts) =
     (if \<not> truthy t then join_truthy ts
      else case t of
        JStr s \<Rightarrow> (case join_truthy ts of Inl e \<Rightarrow> Inl e | Inr ss \<Rightarrow> Inr (s # ss))
      | _ \<Rightarrow> Inl TypeError)"

fun join_lines :: "string list \<Rightarrow> string" where
  "join_lines [] = []"
| "join_lines [s] = s"
| "join_lines (s # ss) = s @ [CHR 0x0A] @ join_lines ss"

definition flatten_tool_result_content :: "json \<Rightarrow> exn + string option" where
  "flatten_tool_result_content content =
     (if \<not> truthy content then Inr None
      else
        let blocks = (case content of
                        JArr xs \<Rightarrow> Inr xs
                      | JObj m \<Rightarrow> Inr (map (JStr \<circ> fst) m)
                      | JStr s \<Rightarrow> Inr (map (\<lambda>c. JStr [c]) s)
                      | _ \<Rightarrow> Inl TypeError)
        in case blocks of
             Inl e \<Rightarrow> Inl e
           | Inr xs \<Rightarrow>
               (case join_truthy (text_blocks xs) of
                  Inl e \<Rightarrow> Inl e
                | Inr ss \<Rightarrow> let joined = join_lines ss in
                    Inr (if joined = [] then None else Some joined)))"

definition from_session_tool_payload :: "dict \<Rightarrow> exn + tool_call option" where
  "from_session_tool_payload data =
     (let phase = dget data ''phase''; name = dget data ''name''; tid = dget data ''toolCallId'' in
      if phase \<notin> {JStr ''start'', JStr ''result''} \<or> \<not> truthy name \<or> \<not> truthy tid then Inr None
      else if phase = JStr ''result'' then
        (let result_payload = (if truthy (dget data ''result'') then dget data ''result'' else JObj []) in
         case jget_or result_payload ''content'' JNull of
           Inl e \<Rightarrow> Inl e
         | Inr content \<Rightarrow>
             (case flatten_tool_result_content content of
                Inl e \<Rightarrow> Inl e
              | Inr res \<Rightarrow> Inr (Some \<lparr>tc_phase = ''result'', tc_name = name, tc_id = tid, tc_args = JNull,
                    tc_result = res, tc_is_error = dget data ''isError''\<rparr>)))
      else Inr (Some \<lparr>tc_phase = ''start'', tc_name = name, tc_id = tid, tc_args = dget data ''args'',
                 tc_result = None, tc_is_error = JNull\<rparr>))"

section \<open>Request frames\<close>

definition req :: "string \<Rightarrow> string \<Rightarrow> dict \<Rightarrow> json" where
  "req mthd req_id params =
     JObj [(''type'', JStr ''req''), (''id'', JStr req_id), (''method'', JStr mthd),
           (''params'', JObj params)]"

definition connect_backend :: "string \<Rightarrow> string \<Rightarrow> json" where
  "connect_backend req_id token =
     req ''connect'' req_id
       [(''minProtocol'', JInt 3), (''maxProtocol'', JInt 4),
        (''client'', JObj [(''id'', JStr ''gateway-client''), (''version'', JStr ''1.0.0''),
                           (''platform'', JStr ''linux''), (''mode'', JStr ''backend'')]),
        (''role'', JStr ''operator''),
        (''scopes'', JArr [JStr ''operator.read'', JStr ''operator.write'']),
        (''auth'', JObj [(''token'', JStr token)])]"

definition sessions_subscribe :: "string \<Rightarrow> json" where
  "sessions_subscribe req_id = req ''sessions.subscribe'' req_id []"

definition health_frame :: "string \<Rightarrow> json" where
  "health_frame req_id = req ''health'' req_id []"

definition chat_send :: "string \<Rightarrow> string \<Rightarrow> string \<Rightarrow> string \<Rightarrow> json" where
  "chat_send req_id session_key message idempotency_key =
     req ''chat.send'' req_id
       [(''sessionKey'', JStr session_key), (''message'', JStr message),
        (''idempotencyKey'', JStr idempotency_key)]"

definition chat_abort :: "string \<Rightarrow> string \<Rightarrow> json" where
  "chat_abort req_id session_key = req ''chat.abort'' req_id [(''sessionKey'', JStr session_key)]"

definition agents_list :: "string \<Rightarrow> json" where
  "agents_list req_id = req ''agents.list'' req_id []"

section \<open>Lemmas\<close>

lemma agent_ids_length: "agent_ids xs = Inr ids \<Longrightarrow> length ids = length xs"
  by (induction xs arbitrary: ids) (auto split: json.splits option.splits sum.splits)

lemma agent_ids_ok: "agent_ids (map (\<lambda>i. JObj [(''id'', i)]) is) = Inr is"
  by (induction "is") auto

lemma tool_payload_shape:
  "from_session_tool_payload d = Inr (Some t) \<Longrightarrow>
   dget d ''phase'' = JStr (tc_phase t) \<and> tc_phase t \<in> {''start'', ''result''} \<and>
   tc_name t = dget d ''name'' \<and> truthy (tc_name t) \<and> tc_id t = dget d ''toolCallId'' \<and>
   truthy (tc_id t) \<and> (tc_phase t = ''start'' \<longrightarrow> tc_result t = None)"
  by (auto simp: from_session_tool_payload_def Let_def split: if_splits sum.splits)

end
