(* ===== verification/Session_Registry.thy ===== *)
theory Session_Registry
  imports Prelude
begin

text \<open>
  \<open>services/session_registry.py\<close>: the in-memory registry of sessions, an insertion-ordered dict. A
  record shares its tracker and the tracker's event list; it holds the tracker's address.
\<close>

datatype session_status = Active | Completed | Errored | Revoked

record session_record =
  sr_session_id :: string
  sr_client_id :: string
  sr_input_mode :: string
  sr_output_mode :: "string list"
  sr_started_at :: time
  sr_ended_at :: "time option"
  sr_status :: session_status
  sr_tracker :: nat

record session_registry =
  sr_sessions :: "(string \<times> session_record) list"
  sr_maxsize :: nat

definition new_session_registry :: "nat \<Rightarrow> session_registry" where
  "new_session_registry maxsize = \<lparr>sr_sessions = [], sr_maxsize = maxsize\<rparr>"

text \<open>The first record that is not active, in insertion order, is dropped.\<close>

fun drop_first_inactive :: "(string \<times> session_record) list \<Rightarrow> (string \<times> session_record) list" where
  "drop_first_inactive [] = []"
| "drop_first_inactive ((sid, r) # xs) =
     (if sr_status r \<noteq> Active then xs else (sid, r) # drop_first_inactive xs)"

definition evict_if_needed :: "session_registry \<Rightarrow> session_registry" where
  "evict_if_needed reg =
     (if length (sr_sessions reg) \<le> sr_maxsize reg then reg
      else reg\<lparr>sr_sessions := drop_first_inactive (sr_sessions reg)\<rparr>)"

definition reg_register ::
  "time \<Rightarrow> string \<Rightarrow> string \<Rightarrow> string \<Rightarrow> string list \<Rightarrow> nat \<Rightarrow> session_registry \<Rightarrow>
   session_record \<times> session_registry" where
  "reg_register now sid cid imode omode tracker reg =
     (let r = \<lparr>sr_session_id = sid, sr_client_id = cid, sr_input_mode = imode, sr_output_mode = omode,
               sr_started_at = now, sr_ended_at = None, sr_status = Active, sr_tracker = tracker\<rparr> in
      (r, evict_if_needed (reg\<lparr>sr_sessions := dpop sid (sr_sessions reg) @ [(sid, r)]\<rparr>)))"

definition reg_close :: "time \<Rightarrow> string \<Rightarrow> session_status \<Rightarrow> session_registry \<Rightarrow> session_registry" where
  "reg_close now sid st reg =
     (case map_of (sr_sessions reg) sid of
        None \<Rightarrow> reg
      | Some r \<Rightarrow> reg\<lparr>sr_sessions := dput sid (r\<lparr>sr_status := st, sr_ended_at := Some now\<rparr>) (sr_sessions reg)\<rparr>)"

definition reg_get_all :: "session_registry \<Rightarrow> session_record list" where
  "reg_get_all reg = rev (map snd (sr_sessions reg))"

definition reg_get :: "string \<Rightarrow> session_registry \<Rightarrow> session_record option" where
  "reg_get sid reg = map_of (sr_sessions reg) sid"

section \<open>Invariant\<close>

definition sreg_inv :: "session_registry \<Rightarrow> bool" where
  "sreg_inv reg \<longleftrightarrow> distinct (map fst (sr_sessions reg)) \<and>
     (\<forall>x\<in>set (sr_sessions reg). sr_session_id (snd x) = fst x)"

lemma drop_first_inactive_subset: "set (drop_first_inactive xs) \<subseteq> set xs"
  by (induction xs rule: drop_first_inactive.induct) auto

lemma drop_first_inactive_distinct:
  "distinct (map fst xs) \<Longrightarrow> distinct (map fst (drop_first_inactive xs))"
proof (induction xs rule: drop_first_inactive.induct)
  case (2 sid r xs)
  have "fst ` set (drop_first_inactive xs) \<subseteq> fst ` set xs"
    by (rule image_mono) (rule drop_first_inactive_subset)
  then show ?case using 2 by auto
qed simp

lemma drop_first_inactive_keeps_active:
  "x \<in> set xs \<Longrightarrow> sr_status (snd x) = Active \<Longrightarrow> x \<in> set (drop_first_inactive xs)"
  by (induction xs rule: drop_first_inactive.induct) auto

lemma drop_first_inactive_length:
  "length (drop_first_inactive xs) =
     (if \<forall>x\<in>set xs. sr_status (snd x) = Active then length xs else length xs - 1)"
proof (induction xs rule: drop_first_inactive.induct)
  case (2 sid r xs)
  then show ?case by (cases xs) auto
qed simp

lemma evict_inv: "sreg_inv reg \<Longrightarrow> sreg_inv (evict_if_needed reg)"
  using drop_first_inactive_subset[of "sr_sessions reg"]
  by (auto simp: sreg_inv_def evict_if_needed_def drop_first_inactive_distinct)

lemma evict_keeps_active:
  "x \<in> set (sr_sessions reg) \<Longrightarrow> sr_status (snd x) = Active \<Longrightarrow> x \<in> set (sr_sessions (evict_if_needed reg))"
  by (simp add: evict_if_needed_def drop_first_inactive_keeps_active)

lemma dpop_keys: "fst ` set (dpop k xs) = fst ` set xs - {k}"
  by (force simp: dpop_def)

lemma register_inv: "sreg_inv reg \<Longrightarrow> sreg_inv (snd (reg_register now sid cid im om tr reg))"
proof -
  assume i: "sreg_inv reg"
  have "distinct (map fst (dpop sid (sr_sessions reg)))" "sid \<notin> fst ` set (dpop sid (sr_sessions reg))"
    using i by (simp_all add: sreg_inv_def dpop_keys)
  then show ?thesis
    using i unfolding reg_register_def Let_def snd_conv
    by (intro evict_inv) (auto simp: sreg_inv_def dpop_def)
qed

lemma set_dput:
  "distinct (map fst xs) \<Longrightarrow> set (dput k v xs) = insert (k, v) {x\<in>set xs. fst x \<noteq> k}"
proof (induction k v xs rule: dput.induct)
  case (2 k v k' v' xs)
  then show ?case by (auto simp: image_iff)
qed simp

lemma close_inv: "sreg_inv reg \<Longrightarrow> sreg_inv (reg_close now sid st reg)"
  by (auto simp: sreg_inv_def reg_close_def set_dput split: option.splits dest: map_of_SomeD)

section \<open>Runs\<close>

datatype sreg_op =
    RegRegister time string string string "string list" nat
  | RegClose time string session_status

fun sreg_step :: "session_registry \<Rightarrow> sreg_op \<Rightarrow> session_registry" where
  "sreg_step reg (RegRegister now sid cid im om tr) = snd (reg_register now sid cid im om tr reg)"
| "sreg_step reg (RegClose now sid st) = reg_close now sid st reg"

lemma sreg_inv_step: "sreg_inv reg \<Longrightarrow> sreg_inv (sreg_step reg a)"
  by (cases a) (simp_all add: register_inv close_inv)

lemma sreg_inv_run: "sreg_inv reg \<Longrightarrow> sreg_inv (foldl sreg_step reg ops)"
  by (rule foldl_invariant) (auto intro: sreg_inv_step)

lemma drop_first_inactive_last:
  "sr_status (snd x) = Active \<Longrightarrow> last (drop_first_inactive (xs @ [x])) = x \<and> drop_first_inactive (xs @ [x]) \<noteq> []"
  by (induction xs rule: drop_first_inactive.induct) (cases x, auto)

lemma evict_last:
  "sr_status r = Active \<Longrightarrow>
   last (sr_sessions (evict_if_needed (reg\<lparr>sr_sessions := xs @ [(k, r)]\<rparr>))) = (k, r) \<and>
   sr_sessions (evict_if_needed (reg\<lparr>sr_sessions := xs @ [(k, r)]\<rparr>)) \<noteq> []"
  using drop_first_inactive_last[of "(k, r)" xs] by (simp add: evict_if_needed_def)

lemma evict_length:
  "length (sr_sessions (evict_if_needed reg)) \<le> max (sr_maxsize reg) (length (sr_sessions reg) - 1) \<or>
   (\<forall>x\<in>set (sr_sessions (evict_if_needed reg)). sr_status (snd x) = Active)"
  using drop_first_inactive_length[of "sr_sessions reg"] drop_first_inactive_subset[of "sr_sessions reg"]
  unfolding evict_if_needed_def by auto

text \<open>
  Whatever was registered and closed before, registering a session makes it retrievable as
  active and newest, and evicts no session that is still active; the registry exceeds the larger of
  \<open>maxsize\<close> and its previous size only when every record in it is an active session.
\<close>

theorem register_evicts_only_finished:
  fixes ops :: "sreg_op list" and n tr :: nat and now :: time and sid cid im :: string
    and om :: "string list"
  defines "reg \<equiv> foldl sreg_step (new_session_registry n) ops"
  defines "r \<equiv> fst (reg_register now sid cid im om tr reg)"
  defines "reg' \<equiv> snd (reg_register now sid cid im om tr reg)"
  shows "reg_get sid reg' = Some r \<and> sr_status r = Active \<and> hd (reg_get_all reg') = r \<and>
         (\<forall>s r0. s \<noteq> sid \<and> reg_get s reg = Some r0 \<and> sr_status r0 = Active \<longrightarrow> reg_get s reg' = Some r0) \<and>
         (length (sr_sessions reg') \<le> max (sr_maxsize reg) (length (sr_sessions reg)) \<or>
          (\<forall>x\<in>set (sr_sessions reg'). sr_status (snd x) = Active))"
proof -
  have "sreg_inv (new_session_registry n)"
    by (simp add: sreg_inv_def new_session_registry_def)
  then have i: "sreg_inv reg" unfolding reg_def by (rule sreg_inv_run)
  have i': "sreg_inv reg'" unfolding reg'_def by (rule register_inv[OF i])
  have get: "reg_get s reg' = Some q \<longleftrightarrow> (s, q) \<in> set (sr_sessions reg')" for s q
    using i' by (simp add: reg_get_def sreg_inv_def map_of_eq_Some_iff)
  have a: "sr_status r = Active"
    by (simp add: r_def reg_register_def Let_def)
  let ?xs = "dpop sid (sr_sessions reg)"
  have e: "reg' = evict_if_needed (reg\<lparr>sr_sessions := ?xs @ [(sid, r)]\<rparr>)"
    by (simp add: reg'_def r_def reg_register_def Let_def)
  have l: "last (sr_sessions reg') = (sid, r)" "sr_sessions reg' \<noteq> []"
    using evict_last[OF a, of ?xs sid reg] by (simp_all add: e)
  have 1: "reg_get sid reg' = Some r" "hd (reg_get_all reg') = r"
    using l last_in_set[OF l(2)] by (simp_all add: get reg_get_all_def hd_rev last_map)
  have 2: "reg_get s reg' = Some r0" if "s \<noteq> sid" "reg_get s reg = Some r0" "sr_status r0 = Active" for s r0
  proof -
    have "(s, r0) \<in> set (?xs @ [(sid, r)])"
      using that by (auto simp: reg_get_def dpop_def dest!: map_of_SomeD)
    then have "(s, r0) \<in> set (sr_sessions reg')"
      unfolding e by (intro evict_keeps_active) (simp_all add: that)
    then show ?thesis by (simp add: get)
  qed
  have "length ?xs \<le> length (sr_sessions reg)" by simp
  then have 3: "length (sr_sessions reg') \<le> max (sr_maxsize reg) (length (sr_sessions reg)) \<or>
      (\<forall>x\<in>set (sr_sessions reg'). sr_status (snd x) = Active)"
    using evict_length[of "reg\<lparr>sr_sessions := ?xs @ [(sid, r)]\<rparr>"] by (auto simp: e simp del: length_dpop_le)
  show ?thesis using 1 2 3 a by blast
qed

theorem register_evicts_only_finished_witness:
  "let reg = foldl sreg_step (new_session_registry 1)
               [RegRegister 0 ''a'' ''c'' ''text'' [] 0, RegRegister 1 ''b'' ''c'' ''text'' [] 1,
                RegClose 2 ''b'' Completed];
       reg' = snd (reg_register 3 ''d'' ''c'' ''text'' [] 2 reg) in
   map fst (sr_sessions reg') = [''a'', ''d''] \<and> reg_get ''a'' reg' = reg_get ''a'' reg"
  using register_evicts_only_finished[where now = 3 and sid = "''d''" and cid = "''c''" and im = "''text''" and om = "[]" and tr = 2
      and n = 1 and ops = "[RegRegister 0 ''a'' ''c'' ''text'' [] 0, RegRegister 1 ''b'' ''c'' ''text'' [] 1,
        RegClose 2 ''b'' Completed]"]
  by (simp add: reg_register_def new_session_registry_def evict_if_needed_def reg_close_def dpop_def
      reg_get_def Let_def)

end
