(* ===== verification/Pipeline_Tracker.thy ===== *)
theory Pipeline_Tracker
  imports Session_Registry
begin

text \<open>
  \<open>services/pipeline_tracker.py\<close>: the event log of one session. Clock readings (\<open>time.monotonic()\<close>)
  are arguments. The sender is a parameter \<open>put\<close> on a state of its own, so that every \<open>exn\<close> of
  an \<open>OutboundSender\<close> is covered; an operation returns the exception that leaves it, if any, and the state.
\<close>

record pipeline_event =
  ev_stage :: string
  ev_ts_ms :: time
  ev_elapsed_ms :: time
  ev_turn :: nat
  ev_meta :: dict

record ptracker =
  pt_session_id :: string
  pt_client_id :: string
  pt_output_mode :: "string list"
  pt_events :: "pipeline_event list"
  pt_has_sender :: bool
  pt_started_at :: time
  pt_last_event_at :: time
  pt_session_end_recorded :: bool
  pt_registry_closed :: bool
  pt_turn :: nat

definition new_ptracker :: "time \<Rightarrow> string \<Rightarrow> string \<Rightarrow> string list \<Rightarrow> bool \<Rightarrow> ptracker" where
  "new_ptracker now sid cid omode has_sender =
     \<lparr>pt_session_id = sid, pt_client_id = cid, pt_output_mode = omode, pt_events = [],
      pt_has_sender = has_sender, pt_started_at = now, pt_last_event_at = now,
      pt_session_end_recorded = False, pt_registry_closed = False, pt_turn = 0\<rparr>"

definition pt_start_turn :: "ptracker \<Rightarrow> nat \<times> ptracker" where
  "pt_start_turn t = (Suc (pt_turn t), t\<lparr>pt_turn := Suc (pt_turn t)\<rparr>)"

definition pt_append :: "time \<Rightarrow> string \<Rightarrow> dict \<Rightarrow> ptracker \<Rightarrow> ptracker" where
  "pt_append now stage meta t =
     t\<lparr>pt_last_event_at := now,
       pt_events := pt_events t @
         [\<lparr>ev_stage = stage, ev_ts_ms = (now - pt_started_at t) * 1000,
           ev_elapsed_ms = (now - pt_last_event_at t) * 1000, ev_turn = pt_turn t, ev_meta = meta\<rparr>]\<rparr>"

definition pipeline_event_msg :: "pipeline_event \<Rightarrow> json" where
  "pipeline_event_msg e =
     JObj [(''type'', JStr ''pipeline_event''), (''stage'', JStr (ev_stage e)),
           (''elapsed_ms'', JInt (py_round (ev_elapsed_ms e))), (''turn'', JInt (int (ev_turn e)))]"

definition pt_record ::
  "(json \<Rightarrow> 's \<Rightarrow> exn + 's) \<Rightarrow> time \<Rightarrow> string \<Rightarrow> dict \<Rightarrow> ptracker \<times> 's \<Rightarrow> exn option \<times> ptracker \<times> 's" where
  "pt_record put now stage meta ts =
     (let t = pt_append now stage meta (fst ts) in
      if pt_has_sender t \<and> ''status'' \<in> set (pt_output_mode t) then
        (case put (pipeline_event_msg (last (pt_events t))) (snd ts) of
           Inr s' \<Rightarrow> (None, t, s')
         | Inl e \<Rightarrow> if is_Exception e then (None, t, snd ts) else (Some e, t, snd ts))
      else (None, t, snd ts))"

text \<open>
  \<open>close(status, **end_meta)\<close>; \<open>now1\<close>, \<open>now2\<close>, \<open>now3\<close> are the clock readings of the duration, of
  \<open>record\<close> and of the registry.
\<close>

definition pt_close ::
  "(json \<Rightarrow> 's \<Rightarrow> exn + 's) \<Rightarrow> time \<times> time \<times> time \<Rightarrow> session_status \<Rightarrow> dict \<Rightarrow>
   ptracker \<times> 's \<times> session_registry \<Rightarrow> exn option \<times> ptracker \<times> 's \<times> session_registry" where
  "pt_close put nows st end_meta tsr =
     (let (now1, now2, now3) = nows; (t, s, reg) = tsr;
          (e, t1, s1) =
            (if pt_session_end_recorded t then (None, t, s)
             else pt_record put now2 ''session_end''
                    ([(''turn_count'', JInt (int (pt_turn t))),
                      (''duration_s'', JFloat (py_round_n 2 (now1 - pt_started_at t)))] @ end_meta)
                    (t\<lparr>pt_session_end_recorded := True\<rparr>, s)) in
      case e of
        Some x \<Rightarrow> (Some x, t1, s1, reg)
      | None \<Rightarrow>
          if pt_registry_closed t1 then (None, t1, s1, reg)
          else (None, t1\<lparr>pt_registry_closed := True\<rparr>, s1, reg_close now3 (pt_session_id t1) st reg))"

definition find_last :: "string \<Rightarrow> nat option \<Rightarrow> pipeline_event list \<Rightarrow> pipeline_event option" where
  "find_last stage turn evs =
     find (\<lambda>e. ev_stage e = stage \<and> (turn = None \<or> turn = Some (ev_turn e))) (rev evs)"

definition stage_latency :: "string \<Rightarrow> string \<Rightarrow> pipeline_event list \<Rightarrow> rat option" where
  "stage_latency first start evs =
     (case find_last first None evs of
        None \<Rightarrow> None
      | Some f \<Rightarrow>
          (case find_last start (Some (ev_turn f)) evs of
             None \<Rightarrow> None
           | Some st \<Rightarrow> Some (py_round_n 1 (ev_ts_ms f - ev_ts_ms st))))"

definition llm_first_token_ms :: "ptracker \<Rightarrow> rat option" where
  "llm_first_token_ms t = stage_latency ''llm_first_token'' ''llm_start'' (pt_events t)"

definition tts_first_chunk_ms :: "ptracker \<Rightarrow> rat option" where
  "tts_first_chunk_ms t = stage_latency ''tts_first_chunk'' ''tts_start'' (pt_events t)"

fun e2e_scan ::
  "pipeline_event list \<Rightarrow> (nat \<times> pipeline_event) list \<Rightarrow> (nat \<times> pipeline_event) list \<Rightarrow>
   (nat \<times> pipeline_event) list \<times> (nat \<times> pipeline_event) list" where
  "e2e_scan [] finals dones = (finals, dones)"
| "e2e_scan (e # es) finals dones =
     (if ev_stage e = ''transcription_final'' then e2e_scan es (dput (ev_turn e + 1) e finals) dones
      else if ev_stage e = ''tts_done'' then e2e_scan es finals (dput (ev_turn e) e dones)
      else e2e_scan es finals dones)"

definition turn_e2e_latencies :: "ptracker \<Rightarrow> (nat \<times> rat) list" where
  "turn_e2e_latencies t =
     (let (finals, dones) = e2e_scan (pt_events t) [] [] in
      List.map_filter (\<lambda>(turn, done).
        map_option (\<lambda>f. (turn, py_round_n 1 (ev_ts_ms done - ev_ts_ms f))) (map_of finals turn)) dones)"

definition turn_e2e_ms :: "ptracker \<Rightarrow> rat option" where
  "turn_e2e_ms t =
     (case find_last ''tts_done'' None (pt_events t) of
        None \<Rightarrow> None | Some d \<Rightarrow> map_of (turn_e2e_latencies t) (ev_turn d))"

section \<open>The event log\<close>

text \<open>
  Times along the log: each event's \<open>ts_ms\<close> is the sum of the \<open>elapsed_ms\<close> up to it, and the turn
  numbers never go down.
\<close>

definition timeline_inv :: "ptracker \<Rightarrow> bool" where
  "timeline_inv t \<longleftrightarrow>
     (\<forall>n < length (pt_events t).
        ev_ts_ms (pt_events t ! n) = (\<Sum>e\<leftarrow>take (Suc n) (pt_events t). ev_elapsed_ms e)) \<and>
     (\<Sum>e\<leftarrow>pt_events t. ev_elapsed_ms e) = (pt_last_event_at t - pt_started_at t) * 1000 \<and>
     sorted (map ev_turn (pt_events t)) \<and> (\<forall>e\<in>set (pt_events t). ev_turn e \<le> pt_turn t)"

lemma timeline_new: "timeline_inv (new_ptracker now sid cid om hs)"
  by (simp add: timeline_inv_def new_ptracker_def)

lemma timeline_append: "timeline_inv t \<Longrightarrow> timeline_inv (pt_append now stage meta t)"
  unfolding timeline_inv_def pt_append_def
  by (auto simp: nth_append less_Suc_eq sorted_append algebra_simps)

lemma timeline_start_turn: "timeline_inv t \<Longrightarrow> timeline_inv (snd (pt_start_turn t))"
  by (auto simp: timeline_inv_def pt_start_turn_def)

lemma pt_record_append: "fst (snd (pt_record put now stage meta ts)) = pt_append now stage meta (fst ts)"
  by (simp add: pt_record_def Let_def split: sum.splits)

lemma timeline_record: "timeline_inv (fst ts) \<Longrightarrow> timeline_inv (fst (snd (pt_record put now stage meta ts)))"
  by (simp add: pt_record_append timeline_append)

datatype pt_op = PtTurn | PtRecord time string dict

fun pt_step :: "(json \<Rightarrow> 's \<Rightarrow> exn + 's) \<Rightarrow> ptracker \<times> 's \<Rightarrow> pt_op \<Rightarrow> ptracker \<times> 's" where
  "pt_step put (t, s) PtTurn = (snd (pt_start_turn t), s)"
| "pt_step put (t, s) (PtRecord now stage meta) = snd (pt_record put now stage meta (t, s))"

lemma timeline_step: "timeline_inv (fst ts) \<Longrightarrow> timeline_inv (fst (pt_step put ts a))"
  by (cases ts; cases a) (use timeline_record[of ts] in \<open>auto simp: timeline_start_turn\<close>)

lemma timeline_run: "timeline_inv (fst ts) \<Longrightarrow> timeline_inv (fst (foldl (pt_step put) ts ops))"
  by (rule foldl_invariant[where P = "\<lambda>ts. timeline_inv (fst ts)"]) (simp_all add: timeline_step)

section \<open>Closing\<close>

definition ends :: "ptracker \<Rightarrow> nat" where
  "ends t = length (filter (\<lambda>e. ev_stage e = ''session_end'') (pt_events t))"

lemma ends_append: "ends (pt_append now stage meta t) = ends t + (if stage = ''session_end'' then 1 else 0)"
  by (simp add: ends_def pt_append_def)

lemma append_flags [simp]:
  "pt_session_end_recorded (pt_append now stage meta t) = pt_session_end_recorded t"
  "pt_registry_closed (pt_append now stage meta t) = pt_registry_closed t"
  "pt_session_id (pt_append now stage meta t) = pt_session_id t"
  by (simp_all add: pt_append_def)

lemma pt_close_first:
  assumes "\<not> pt_session_end_recorded t" "pt_close put nows st m (t, s, reg) = (e, t', s', reg')"
  shows "pt_session_end_recorded t' \<and> ends t' = Suc (ends t) \<and>
         (e = None \<longrightarrow> pt_registry_closed t')"
  using assms
  by (auto simp: pt_close_def pt_record_def ends_append ends_def[of "pt_session_end_recorded_update _ _"]
      Let_def ends_def pt_append_def split: prod.splits sum.splits if_splits option.splits)

lemma pt_close_again:
  assumes "pt_session_end_recorded t"
  shows "pt_close put nows st m (t, s, reg) =
     (if pt_registry_closed t then (None, t, s, reg)
      else (None, t\<lparr>pt_registry_closed := True\<rparr>, s, reg_close (snd (snd nows)) (pt_session_id t) st reg))"
  using assms by (simp add: pt_close_def Let_def split: prod.splits)

text \<open>Repeated \<open>close()\<close> calls, each with its own clock, status and sender.\<close>

record 's close_call =
  cc_put :: "json \<Rightarrow> 's \<Rightarrow> exn + 's"
  cc_nows :: "time \<times> time \<times> time"
  cc_status :: session_status
  cc_meta :: dict

fun pt_closes ::
  "'s close_call list \<Rightarrow> ptracker \<times> 's \<times> session_registry \<Rightarrow> ptracker \<times> 's \<times> session_registry" where
  "pt_closes [] x = x"
| "pt_closes (c # cs) x = pt_closes cs (snd (pt_close (cc_put c) (cc_nows c) (cc_status c) (cc_meta c) x))"

lemma pt_closes_done:
  "pt_session_end_recorded t \<Longrightarrow> pt_registry_closed t \<Longrightarrow> pt_closes cs (t, s, reg) = (t, s, reg)"
  by (induction cs) (simp_all add: pt_close_again)


section \<open>Latencies\<close>

lemma find_last_snoc:
  "find_last stage turn (es @ [e]) =
     (if ev_stage e = stage \<and> (turn = None \<or> turn = Some (ev_turn e)) then Some e
      else find_last stage turn es)"
  by (auto simp: find_last_def)

lemma e2e_scan_snoc:
  "e2e_scan (es @ [e]) f d =
     (let (f', d') = e2e_scan es f d in
      if ev_stage e = ''transcription_final'' then (dput (ev_turn e + 1) e f', d')
      else if ev_stage e = ''tts_done'' then (f', dput (ev_turn e) e d') else (f', d'))"
  by (induction es f d rule: e2e_scan.induct) (auto simp: Let_def)

lemma e2e_scan_finals:
  "map_of (fst (e2e_scan es [] [])) n =
     (if n = 0 then None else find_last ''transcription_final'' (Some (n - 1)) es)"
proof (induction es rule: rev_induct)
  case (snoc e es)
  then show ?case
    by (cases "e2e_scan es [] []") (auto simp: e2e_scan_snoc find_last_snoc)
qed (simp add: find_last_def)

lemma e2e_scan_dones:
  "map_of (snd (e2e_scan es [] [])) n = find_last ''tts_done'' (Some n) es"
proof (induction es rule: rev_induct)
  case (snoc e es)
  then show ?case
    by (cases "e2e_scan es [] []") (auto simp: e2e_scan_snoc find_last_snoc)
qed (simp add: find_last_def)

lemma e2e_scan_distinct: "distinct (map fst (snd (e2e_scan es [] [])))"
proof (induction es rule: rev_induct)
  case (snoc e es)
  then show ?case
    by (cases "e2e_scan es [] []") (auto simp: e2e_scan_snoc)
qed simp

lemma map_of_map_filter_key:
  "distinct (map fst xs) \<Longrightarrow>
   map_of (List.map_filter (\<lambda>(k, v). map_option (\<lambda>y. (k, h v y)) (g k)) xs) n =
     (case map_of xs n of None \<Rightarrow> None | Some v \<Rightarrow> map_option (h v) (g n))"
proof (induction xs)
  case (Cons x xs)
  obtain k v where x: "x = (k, v)" by fastforce
  have "map_of xs k = None"
    using Cons.prems x by (simp add: map_of_eq_None_iff)
  then show ?case using Cons x
    by (cases "g k") (auto simp: List.map_filter_simps split: option.splits)
qed (simp add: List.map_filter_simps)

section \<open>Properties\<close>

text \<open>
  The event log of a session is a consistent timeline for every clock and every sender: the
  timestamp of each event is the sum of the elapsed times of the events up to it, and turn numbers
  never decrease along the log, whether or not the sends to the client fail.
\<close>

theorem tracker_timeline:
  fixes ops :: "pt_op list" and put :: "json \<Rightarrow> 's \<Rightarrow> exn + 's" and s :: 's and hs :: bool
    and om :: "string list" and cid sid :: string and now :: time
  defines "t \<equiv> fst (foldl (pt_step put) (new_ptracker now sid cid om hs, s) ops)"
  shows "sorted (map ev_turn (pt_events t)) \<and>
     (n < length (pt_events t) \<longrightarrow>
        ev_ts_ms (pt_events t ! n) = (\<Sum>e\<leftarrow>take (Suc n) (pt_events t). ev_elapsed_ms e))"
proof -
  have "timeline_inv t"
    unfolding t_def by (rule timeline_run) (simp add: timeline_new)
  then show ?thesis by (simp add: timeline_inv_def)
qed

theorem tracker_timeline_witness:
  "let t = fst (foldl (pt_step (\<lambda>_ s. Inr s)) (new_ptracker 1 ''s'' ''c'' [''status''] True, ())
                 [PtRecord 2 ''a'' [], PtTurn, PtRecord 5 ''b'' []]) in
   ev_ts_ms (pt_events t ! 1) = 4000 \<and> map ev_turn (pt_events t) = [0, 1]"
  using tracker_timeline[where put = "\<lambda>_ s. Inr s" and now = 1 and sid = "''s''" and cid = "''c''"
      and om = "[''status'']" and hs = True and s = "()"
      and ops = "[PtRecord 2 ''a'' [], PtTurn, PtRecord 5 ''b'' []]" and n = 1]
  by (simp add: new_ptracker_def pt_record_def pt_append_def pt_start_turn_def Let_def)

text \<open>
  However often a tracker is closed, and whatever its sends do, one \<open>session_end\<close> event is
  recorded; if the first call was cancelled inside its send, a second call still closes the registry
  entry, so after two calls both are done and no later call changes anything.
\<close>

theorem tracker_close_exactly_once:
  assumes "\<not> pt_session_end_recorded t" "\<not> pt_registry_closed t"
    and "pt_closes (c1 # c2 # cs) (t, s, reg) = (t', s', reg')"
  shows "ends t' = Suc (ends t) \<and> pt_session_end_recorded t' \<and> pt_registry_closed t' \<and>
         pt_closes (c1 # c2 # cs) (t, s, reg) = pt_closes [c1, c2] (t, s, reg)"
proof -
  obtain e t1 s1 reg1 where 1:
    "pt_close (cc_put c1) (cc_nows c1) (cc_status c1) (cc_meta c1) (t, s, reg) = (e, t1, s1, reg1)"
    by (metis surj_pair)
  note f = pt_close_first[OF assms(1) 1]
  obtain t2 s2 reg2 where 2: "pt_closes [c1, c2] (t, s, reg) = (t2, s2, reg2)"
    and t2: "pt_session_end_recorded t2" "pt_registry_closed t2" "ends t2 = ends t1"
    using f by (cases "pt_registry_closed t1") (auto simp: 1 pt_close_again ends_def)
  have "pt_closes (c1 # c2 # cs) (t, s, reg) = pt_closes cs (t2, s2, reg2)"
    using 2 by simp
  then show ?thesis using f t2 2 assms(3) by (auto simp: pt_closes_done)
qed

theorem tracker_close_exactly_once_witness:
  "let t = new_ptracker 0 ''s'' ''c'' [''status''] True;
       c1 = \<lparr>cc_put = (\<lambda>_ _. Inl CancelledError), cc_nows = (1, 1, 1), cc_status = Completed, cc_meta = []\<rparr>;
       c2 = \<lparr>cc_put = (\<lambda>_ u. Inr u), cc_nows = (2, 2, 2), cc_status = Errored, cc_meta = []\<rparr>;
       t' = fst (pt_closes [c1, c2] (t, (), new_session_registry 1)) in
   ends t' = Suc (ends t) \<and> pt_registry_closed t'"
  using tracker_close_exactly_once[of "new_ptracker 0 ''s'' ''c'' [''status''] True"
      "\<lparr>cc_put = (\<lambda>_ _. Inl CancelledError), cc_nows = (1, 1, 1), cc_status = Completed, cc_meta = []\<rparr>"
      "\<lparr>cc_put = (\<lambda>_ u. Inr u), cc_nows = (2, 2, 2), cc_status = Errored, cc_meta = []\<rparr>" "[]" "()"
      "new_session_registry 1"]
  by (cases "pt_closes [\<lparr>cc_put = (\<lambda>_ _. Inl CancelledError), cc_nows = (1, 1, 1), cc_status = Completed, cc_meta = []\<rparr>,
      \<lparr>cc_put = (\<lambda>_ u. Inr u), cc_nows = (2, 2, 2), cc_status = Errored, cc_meta = []\<rparr>]
      (new_ptracker 0 ''s'' ''c'' [''status''] True, (), new_session_registry 1)")
     (simp add: Let_def new_ptracker_def del: pt_closes.simps)

text \<open>
  The end-to-end latency of turn \<open>n\<close> is reported exactly when the turn's \<open>tts_done\<close> and the
  final transcription recorded during turn \<open>n - 1\<close> exist, and it is the difference of the last of
  each: no latency ever pairs a reply with the utterance of another turn.
\<close>

theorem e2e_latency_pairs_turns:
  "map_of (turn_e2e_latencies t) n =
     (case (find_last ''tts_done'' (Some n) (pt_events t),
            if n = 0 then None else find_last ''transcription_final'' (Some (n - 1)) (pt_events t)) of
        (Some d, Some f) \<Rightarrow> Some (py_round_n 1 (ev_ts_ms d - ev_ts_ms f))
      | _ \<Rightarrow> None)"
proof -
  obtain fs ds where s: "e2e_scan (pt_events t) [] [] = (fs, ds)" by fastforce
  have "distinct (map fst ds)"
    using e2e_scan_distinct[of "pt_events t"] by (simp add: s)
  from map_of_map_filter_key[OF this, of "\<lambda>d f. py_round_n 1 (ev_ts_ms d - ev_ts_ms f)" "map_of fs" n]
  show ?thesis
    using e2e_scan_finals[of "pt_events t" n] e2e_scan_dones[of "pt_events t" n]
    by (cases "n = 0") (simp_all add: turn_e2e_latencies_def s split: option.splits)
qed

end
