(* ===== verification/Stream_Response.thy ===== *)
theory Stream_Response
  imports Turn_Registry Chat_Text OpenClaw_Models Pipeline_Tracker
begin

text \<open>
  \<open>OpenClawClient.stream_response\<close> (\<open>services/openclaw/client.py\<close>) and its only consumer,
  \<open>call_orchestrator\<close> (\<open>services/orchestration.py\<close>). An async generator is modelled by what it
  yields against a list of outcomes of its \<open>queue.get()\<close>; a \<open>budget\<close> of \<open>Some n\<close> says that the
  consumer closes the generator at its yield number \<open>n\<close> (from 0), as \<open>aclosing\<close> does. A list of
  outcomes that ends before the loop does leaves it waiting for the next item (\<open>se_waiting\<close>).
\<close>

datatype orch_event = EvToken string | EvTool tool_call | EvStatusDone | EvError string

definition ORCHESTRATOR_SEND_FAILED_ERROR :: string where
  "ORCHESTRATOR_SEND_FAILED_ERROR = ''orchestrator_send_failed''"
definition ORCHESTRATOR_UNAVAILABLE_ERROR :: string where
  "ORCHESTRATOR_UNAVAILABLE_ERROR = ''orchestrator_unavailable''"
definition ORCHESTRATOR_DISCONNECTED_ERROR :: string where
  "ORCHESTRATOR_DISCONNECTED_ERROR = ''orchestrator_disconnected''"
definition ORCHESTRATOR_ERROR :: string where
  "ORCHESTRATOR_ERROR = ''orchestrator_error''"
definition TURN_IN_PROGRESS_ERROR :: string where
  "TURN_IN_PROGRESS_ERROR = ''turn_in_progress''"
definition TURN_OVERFLOW_ERROR :: string where
  "TURN_OVERFLOW_ERROR = ''turn_overflow''"
definition TURN_TIMEOUT_ERROR :: string where
  "TURN_TIMEOUT_ERROR = ''turn_timeout''"

section \<open>One item of the queue\<close>

text \<open>
  What the loop body does with an item: the events it yields, each with the value of \<open>_finished\<close>
  at that yield, whether it leaves the loop and the new text tracker; or the exception it raises.
\<close>

definition item_step ::
  "turn_item \<Rightarrow> tracker \<Rightarrow> (exn + ((orch_event \<times> bool) list \<times> bool)) \<times> tracker" where
  "item_step it tr =
     (case it of
        ItChat data \<Rightarrow>
          (let (delta, tr1) = feed data tr;
               toks = (if delta = [] then [] else [(EvToken delta, False)]) in
           if dget data ''state'' = JStr ''final'' then (Inr (toks @ [(EvStatusDone, True)], True), tr1)
           else if dget data ''state'' = JStr ''error''
             then (Inr (toks @ [(EvError ORCHESTRATOR_ERROR, True)], True), tr1)
           else (Inr (toks, False), tr1))
      | ItTool data \<Rightarrow>
          (case from_session_tool_payload data of
             Inl e \<Rightarrow> (Inl e, tr)
           | Inr None \<Rightarrow> (Inr ([], False), tr)
           | Inr (Some tc) \<Rightarrow> (Inr ([(EvTool tc, False)], False), tr))
      | ItDone frame \<Rightarrow> (Inr ([(EvError ORCHESTRATOR_ERROR, True)], True), tr)
      | ItOverflow \<Rightarrow> (Inr ([(EvError TURN_OVERFLOW_ERROR, False)], True), tr)
      | ItError msg \<Rightarrow> (Inr ([(EvError msg, True)], True), tr))"

section \<open>The loop\<close>

datatype stream_in = GotItem turn_item | GetTimeout | GetCancelled

record stream_end =
  se_events :: "orch_event list"
  se_finished :: bool
  se_exn :: "exn option"
  se_waiting :: bool

text \<open>The yields of one item: the events that get out, and whether and how the consumer closed.\<close>

fun take_yields :: "nat option \<Rightarrow> (orch_event \<times> bool) list \<Rightarrow> orch_event list \<times> bool option \<times> nat option" where
  "take_yields b [] = ([], None, b)"
| "take_yields (Some 0) ((ev, fin) # ys) = ([ev], Some fin, Some 0)"
| "take_yields b ((ev, fin) # ys) =
     (let (evs, c, b') = take_yields (map_option (\<lambda>n. n - 1) b) ys in (ev # evs, c, b'))"

definition stream_stop :: "orch_event list \<Rightarrow> bool \<Rightarrow> exn option \<Rightarrow> stream_end" where
  "stream_stop evs fin ex = \<lparr>se_events = evs, se_finished = fin, se_exn = ex, se_waiting = False\<rparr>"

fun stream_loop :: "stream_in list \<Rightarrow> nat option \<Rightarrow> tracker \<Rightarrow> stream_end" where
  "stream_loop [] b tr = \<lparr>se_events = [], se_finished = False, se_exn = None, se_waiting = True\<rparr>"
| "stream_loop (GetTimeout # ins) b tr = stream_stop [EvError TURN_TIMEOUT_ERROR] False None"
| "stream_loop (GetCancelled # ins) b tr = stream_stop [] False (Some CancelledError)"
| "stream_loop (GotItem it # ins) b tr =
     (case item_step it tr of
        (Inl e, tr1) \<Rightarrow> stream_stop [] False (Some e)
      | (Inr (ys, brk), tr1) \<Rightarrow>
          (case take_yields b ys of
             (evs, Some fin, b1) \<Rightarrow> stream_stop evs fin None
           | (evs, None, b1) \<Rightarrow>
               if brk then stream_stop evs (snd (last ys)) None
               else let r = stream_loop ins b1 tr1 in r\<lparr>se_events := evs @ se_events r\<rparr>))"

section \<open>The turn\<close>

text \<open>
  The surroundings of a turn: the request ids, the outcome of the two writes, the queue outcomes,
  what the rest of the gateway does to the registry meanwhile and whether the socket is still there.
\<close>

record turn_env =
  te_req_id :: string
  te_idempotency :: string
  te_abort_id :: string
  te_send :: "exn option"
  te_ins :: "stream_in list"
  te_env :: "turn_registry \<Rightarrow> turn_registry"
  te_ws_after :: bool
  te_abort_send :: "exn option"

record turn_result =
  tr_events :: "orch_event list"
  tr_exn :: "exn option"
  tr_registry :: turn_registry
  tr_written :: "json list"
  tr_waiting :: bool

definition no_turn :: "string \<Rightarrow> turn_registry \<Rightarrow> turn_result" where
  "no_turn code r =
     \<lparr>tr_events = [EvError code], tr_exn = None, tr_registry = r, tr_written = [], tr_waiting = False\<rparr>"

text \<open>
  The \<open>finally\<close>: unregister, and \<open>chat.abort\<close> for a turn that was sent and did not finish. A
  failure of that write is swallowed, a cancellation during it (\<open>shield\<close>: the write goes on) is not.
\<close>

definition turn_finally ::
  "turn_env \<Rightarrow> string \<Rightarrow> bool \<Rightarrow> bool \<Rightarrow> orch_event list \<Rightarrow> exn option \<Rightarrow> json list \<Rightarrow> turn_registry \<Rightarrow> turn_result" where
  "turn_finally w sk sent finished evs ex written r =
     (let r' = unregister sk (te_req_id w) r; base = \<lparr>tr_events = evs, tr_exn = ex, tr_registry = r', tr_written = written, tr_waiting = False\<rparr>;
          abort = chat_abort (te_abort_id w) sk in
      if sent \<and> \<not> finished \<and> te_ws_after w then
        (case te_abort_send w of
           None \<Rightarrow> base\<lparr>tr_written := written @ [abort]\<rparr>
         | Some e \<Rightarrow> if is_Exception e then base
                     else base\<lparr>tr_written := written @ [abort], tr_exn := Some e\<rparr>)
      else base)"

definition stream_response ::
  "turn_env \<Rightarrow> bool \<Rightarrow> string \<Rightarrow> string \<Rightarrow> nat option \<Rightarrow> turn_registry \<Rightarrow> turn_result" where
  "stream_response w ws text sk budget r =
     (if \<not> ws then no_turn ORCHESTRATOR_UNAVAILABLE_ERROR r
      else case register (te_req_id w) sk r of
        Inl _ \<Rightarrow> no_turn TURN_IN_PROGRESS_ERROR r
      | Inr (q, r1) \<Rightarrow>
          (case te_send w of
             Some e \<Rightarrow>
               if is_Exception e
               then turn_finally w sk False (budget \<noteq> Some 0) [EvError ORCHESTRATOR_SEND_FAILED_ERROR]
                      None [] (te_env w r1)
               else turn_finally w sk False False [] (Some e) [] (te_env w r1)
           | None \<Rightarrow>
               let e = stream_loop (te_ins w) budget new_tracker;
                   sent = [chat_send (te_req_id w) sk text (te_idempotency w)] in
               if se_waiting e
               then \<lparr>tr_events = se_events e, tr_exn = None, tr_registry = te_env w r1, tr_written = sent,
                     tr_waiting = True\<rparr>
               else turn_finally w sk True (se_finished e) (se_events e) (se_exn e) sent (te_env w r1)))"

section \<open>The consumer\<close>

text \<open>
  \<open>call_orchestrator\<close> on the events of a stream. \<open>rec_ev\<close> is \<open>tracker.record\<close> (missing when there is
  no tracker), \<open>on_token\<close> and \<open>on_tool_call\<close> the callbacks; they may raise. The result counts the
  events taken from the stream.
\<close>

record 's co_env =
  co_record :: "(string \<Rightarrow> dict \<Rightarrow> 's \<Rightarrow> exn option \<times> 's) option"
  co_on_token :: "(string \<Rightarrow> 's \<Rightarrow> exn option \<times> 's) option"
  co_on_tool :: "(tool_call \<Rightarrow> 's \<Rightarrow> exn option \<times> 's) option"

definition opt_call :: "('s \<Rightarrow> exn option \<times> 's) option \<Rightarrow> 's \<Rightarrow> exn option \<times> 's" where
  "opt_call f s = (case f of None \<Rightarrow> (None, s) | Some g \<Rightarrow> g s)"

record 's co_state =
  co_first :: bool
  co_count :: nat
  co_client :: 's

definition co_event :: "'s co_env \<Rightarrow> orch_event \<Rightarrow> 's co_state \<Rightarrow> exn option \<times> 's co_state" where
  "co_event w ev c =
     (case ev of
        EvToken txt \<Rightarrow>
          (let (e, s1) = (if co_first c then opt_call (map_option (\<lambda>f. f ''llm_first_token'' []) (co_record w)) (co_client c)
                          else (None, co_client c)) in
           case e of
             Some x \<Rightarrow> (Some x, c\<lparr>co_client := s1\<rparr>)
           | None \<Rightarrow>
               (let (e2, s2) = opt_call (map_option (\<lambda>f. f txt) (co_on_token w)) s1 in
                (e2, c\<lparr>co_first := False, co_count := Suc (co_count c), co_client := s2\<rparr>)))
      | EvTool tc \<Rightarrow>
          (let (e, s1) = opt_call (map_option (\<lambda>f. f tc) (co_on_tool w)) (co_client c) in
           (e, c\<lparr>co_client := s1\<rparr>))
      | EvStatusDone \<Rightarrow> (None, c)
      | EvError content \<Rightarrow> (Some (OrchestratorError content), c))"

fun co_consume :: "'s co_env \<Rightarrow> orch_event list \<Rightarrow> 's co_state \<Rightarrow> nat \<times> exn option \<times> 's co_state" where
  "co_consume w [] c = (0, None, c)"
| "co_consume w (ev # evs) c =
     (case co_event w ev c of
        (Some x, c1) \<Rightarrow> (1, Some x, c1)
      | (None, c1) \<Rightarrow> (let (n, e, c2) = co_consume w evs c1 in (Suc n, e, c2)))"

text \<open>
  The consumer pulls from the stream lazily: it closes the generator at the yield whose event made
  it raise. An exception of the stream itself surfaces in the \<open>async for\<close>.
\<close>

definition call_orchestrator ::
  "'s co_env \<Rightarrow> (nat option \<Rightarrow> turn_result) \<Rightarrow> 's \<Rightarrow> (exn option \<times> 's \<times> turn_result option) option" where
  "call_orchestrator w stream s =
     (let (e0, s0) = opt_call (map_option (\<lambda>f. f ''llm_start'' []) (co_record w)) s in
      case e0 of
        Some x \<Rightarrow> Some (Some x, s0, None)
      | None \<Rightarrow>
          let full = stream None in
          (case co_consume w (tr_events full) \<lparr>co_first = True, co_count = 0, co_client = s0\<rparr> of
             (n, Some x, c) \<Rightarrow>
               let r = stream (Some (n - 1)) in
               Some (Some (case tr_exn r of Some y \<Rightarrow> y | None \<Rightarrow> x), co_client c, Some r)
           | (n, None, c) \<Rightarrow>
               if tr_waiting full then None
               else case tr_exn full of
                 Some y \<Rightarrow> Some (Some y, co_client c, Some full)
               | None \<Rightarrow>
                   let (e2, s2) = opt_call (map_option (\<lambda>f. f ''llm_done'' [(''token_count'', JInt (int (co_count c)))])
                                    (co_record w)) (co_client c) in
                   Some (e2, s2, Some full)))"

section \<open>Lemmas\<close>

fun terminal :: "orch_event \<Rightarrow> bool" where
  "terminal EvStatusDone = True"
| "terminal (EvError _) = True"
| "terminal _ = False"

fun token_text :: "orch_event list \<Rightarrow> string" where
  "token_text [] = []"
| "token_text (EvToken s # evs) = s @ token_text evs"
| "token_text (_ # evs) = token_text evs"

lemma token_text_append [simp]: "token_text (xs @ ys) = token_text xs @ token_text ys"
  by (induction xs rule: token_text.induct) auto

lemma take_yields_None [simp]: "take_yields None ys = (map fst ys, None, None)"
  by (induction ys) auto

lemma take_yields_Some:
  "take_yields (Some n) ys =
     (if n < length ys then (map fst (take (Suc n) ys), Some (snd (ys ! n)), Some 0)
      else (map fst ys, None, Some (n - length ys)))"
proof (induction ys arbitrary: n)
  case (Cons y ys)
  then show ?case by (cases y; cases n) auto
qed simp

lemma take_yields_props:
  assumes "take_yields b ys = (evs, c, b1)"
  shows "set evs \<subseteq> fst ` set ys" "set (butlast evs) \<subseteq> fst ` set (butlast ys)"
    "c = None \<Longrightarrow> evs = map fst ys" "b = None \<Longrightarrow> c = None \<and> b1 = None"
    "c = Some f \<Longrightarrow> evs \<noteq> [] \<and> (\<exists>y\<in>set ys. last evs = fst y \<and> f = snd y)"
proof -
  have "set evs \<subseteq> fst ` set ys \<and> set (butlast evs) \<subseteq> fst ` set (butlast ys) \<and>
    (c = None \<longrightarrow> evs = map fst ys) \<and> (b = None \<longrightarrow> c = None \<and> b1 = None) \<and>
    (\<forall>f. c = Some f \<longrightarrow> evs \<noteq> [] \<and> (\<exists>y\<in>set ys. last evs = fst y \<and> f = snd y))"
  proof (cases b)
    case None
    then show ?thesis using assms by (auto simp: map_butlast[symmetric])
  next
    case (Some n)
    show ?thesis
    proof (cases "n < length ys")
      case True
      then have e: "evs = map fst (take n ys) @ [fst (ys ! n)]" "c = Some (snd (ys ! n))"
        using assms Some by (auto simp: take_yields_Some take_Suc_conv_app_nth)
      have "take n ys = take n (butlast ys)"
        using True by (simp add: take_butlast)
      then have "set (take n ys) \<subseteq> set (butlast ys)"
        by (metis set_take_subset)
      then show ?thesis using e True Some nth_mem[OF True] set_take_subset[of n ys]
        by (auto simp: butlast_append)
    next
      case False
      then show ?thesis using assms Some by (auto simp: take_yields_Some map_butlast[symmetric])
    qed
  qed
  then show "set evs \<subseteq> fst ` set ys" "set (butlast evs) \<subseteq> fst ` set (butlast ys)"
    "c = None \<Longrightarrow> evs = map fst ys" "b = None \<Longrightarrow> c = None \<and> b1 = None"
    "c = Some f \<Longrightarrow> evs \<noteq> [] \<and> (\<exists>y\<in>set ys. last evs = fst y \<and> f = snd y)"
    by blast+
qed

text \<open>The shape of what one item yields: tokens or tools, and a terminal event only when it breaks.\<close>

lemma item_step_shape:
  assumes "item_step it tr = (Inr (ys, brk), tr')"
  shows "(\<forall>y\<in>set (butlast ys). \<not> terminal (fst y) \<and> \<not> snd y) \<and>
         (brk \<longrightarrow> ys \<noteq> [] \<and> terminal (fst (last ys))) \<and>
         (\<not> brk \<longrightarrow> (\<forall>y\<in>set ys. \<not> terminal (fst y) \<and> \<not> snd y))"
  using assms by (cases it)
    (auto simp: item_step_def Let_def split: prod.splits if_splits sum.splits option.splits)

lemma loop_budget:
  "n < length (se_events (stream_loop ins None tr)) \<Longrightarrow>
   se_events (stream_loop ins (Some n) tr) = take (Suc n) (se_events (stream_loop ins None tr)) \<and>
   \<not> se_waiting (stream_loop ins (Some n) tr) \<and>
   se_exn (stream_loop ins (Some n) tr) = None"
proof (induction ins "None :: nat option" tr arbitrary: n rule: stream_loop.induct)
  case (4 it ins tr)
  show ?case
  proof (cases "item_step it tr")
    case (Pair x tr1)
    show ?thesis
    proof (cases x)
      case (Inl e)
      then show ?thesis using 4 Pair by (simp add: stream_stop_def)
    next
      case (Inr p)
      obtain ys brk where p: "p = (ys, brk)" by fastforce
      note step = Pair[unfolded Inr p]
      show ?thesis
      proof (cases "brk \<or> n < length ys")
        case True
        then show ?thesis using 4(2) step
          by (auto simp: take_yields_Some stream_stop_def take_map Let_def)
      next
        case False
        then have "n - length ys < length (se_events (stream_loop ins None tr1))"
          using 4(2) step by (auto simp: Let_def)
        from 4(1)[OF step[symmetric] refl refl _ refl refl _ this] False show ?thesis
          using step by (simp add: take_yields_Some Let_def take_map Suc_diff_le)
      qed
    qed
  qed
qed (auto simp: stream_stop_def)


lemma loop_shape:
  "(\<forall>ev\<in>set (butlast (se_events (stream_loop ins b tr))). \<not> terminal ev) \<and>
   (b = None \<and> \<not> se_waiting (stream_loop ins b tr) \<and> se_exn (stream_loop ins b tr) = None \<longrightarrow>
      se_events (stream_loop ins b tr) \<noteq> [] \<and> terminal (last (se_events (stream_loop ins b tr)))) \<and>
   (se_waiting (stream_loop ins b tr) \<longrightarrow>
      (\<forall>ev\<in>set (se_events (stream_loop ins b tr)). \<not> terminal ev))"
proof (induction ins b tr rule: stream_loop.induct)
  case (4 it ins b tr)
  obtain x tr1 where it: "item_step it tr = (x, tr1)" by fastforce
  show ?case
  proof (cases x)
    case (Inl e)
    then show ?thesis using it by (simp add: stream_stop_def)
  next
    case (Inr p)
    obtain ys brk where p: "p = (ys, brk)" by fastforce
    note step = it[unfolded Inr p]
    note shape = item_step_shape[OF step]
    obtain evs c b1 where ty: "take_yields b ys = (evs, c, b1)" by (metis surj_pair)
    note tp = take_yields_props[OF ty]
    have sub: "\<forall>ev\<in>set (butlast evs). \<not> terminal ev" "c = None \<Longrightarrow> evs = map fst ys"
      "b = None \<Longrightarrow> c = None \<and> b1 = None"
      using tp(2,3,4) shape by blast+
    show ?thesis
    proof (cases "c = None \<and> \<not> brk")
      case False
      then show ?thesis using step ty sub shape
        by (cases c) (auto simp: stream_stop_def last_map)
    next
      case True
      let ?r = "stream_loop ins b1 tr1"
      have IH: "(\<forall>ev\<in>set (butlast (se_events ?r)). \<not> terminal ev) \<and>
        (b1 = None \<and> \<not> se_waiting ?r \<and> se_exn ?r = None \<longrightarrow> se_events ?r \<noteq> [] \<and> terminal (last (se_events ?r))) \<and>
        (se_waiting ?r \<longrightarrow> (\<forall>ev\<in>set (se_events ?r). \<not> terminal ev))"
        using 4[OF step[symmetric] refl refl ty[symmetric] refl] True by blast
      have "\<forall>ev\<in>set evs. \<not> terminal ev"
        using True sub(2) shape by auto
      then show ?thesis
        using IH True sub step ty by (auto simp: Let_def butlast_append)
    qed
  qed
qed (auto simp: stream_stop_def)

definition orch_ended :: "orch_event \<Rightarrow> bool" where
  "orch_ended ev \<longleftrightarrow> terminal ev \<and> ev \<noteq> EvError TURN_TIMEOUT_ERROR \<and> ev \<noteq> EvError TURN_OVERFLOW_ERROR"

text \<open>The only text of an \<open>error\<close> item is the one of \<open>error_all\<close>.\<close>

definition stable_errors :: "stream_in list \<Rightarrow> bool" where
  "stable_errors ins \<longleftrightarrow>
     (\<forall>msg. GotItem (ItError msg) \<in> set ins \<longrightarrow> msg = ORCHESTRATOR_DISCONNECTED_ERROR)"

definition stable_codes :: "string set" where
  "stable_codes =
     {ORCHESTRATOR_SEND_FAILED_ERROR, ORCHESTRATOR_UNAVAILABLE_ERROR, ORCHESTRATOR_DISCONNECTED_ERROR,
      ORCHESTRATOR_ERROR, TURN_IN_PROGRESS_ERROR, TURN_OVERFLOW_ERROR, TURN_TIMEOUT_ERROR}"

lemmas error_code_defs =
  ORCHESTRATOR_SEND_FAILED_ERROR_def ORCHESTRATOR_UNAVAILABLE_ERROR_def
  ORCHESTRATOR_DISCONNECTED_ERROR_def ORCHESTRATOR_ERROR_def TURN_IN_PROGRESS_ERROR_def
  TURN_OVERFLOW_ERROR_def TURN_TIMEOUT_ERROR_def

lemma item_step_finished:
  assumes "item_step it tr = (Inr (ys, brk), tr')" "\<forall>msg. it = ItError msg \<longrightarrow> msg = ORCHESTRATOR_DISCONNECTED_ERROR"
  shows "\<forall>y\<in>set ys. snd y = orch_ended (fst y) \<and> (\<forall>c. fst y = EvError c \<longrightarrow> c \<in> stable_codes)"
  using assms by (cases it)
    (auto simp: item_step_def Let_def orch_ended_def error_code_defs stable_codes_def
      split: prod.splits if_splits sum.splits option.splits)

lemma loop_finished:
  "stable_errors ins \<Longrightarrow>
   (\<not> se_waiting (stream_loop ins b tr) \<longrightarrow>
     (se_finished (stream_loop ins b tr) \<longleftrightarrow>
        se_events (stream_loop ins b tr) \<noteq> [] \<and> orch_ended (last (se_events (stream_loop ins b tr))))) \<and>
   (\<forall>c. EvError c \<in> set (se_events (stream_loop ins b tr)) \<longrightarrow> c \<in> stable_codes)"
proof (induction ins b tr rule: stream_loop.induct)
  case (4 it ins b tr)
  obtain x tr1 where it: "item_step it tr = (x, tr1)" by fastforce
  show ?case
  proof (cases x)
    case (Inl e)
    then show ?thesis using it by (simp add: stream_stop_def)
  next
    case (Inr p)
    obtain ys brk where p: "p = (ys, brk)" by fastforce
    note step = it[unfolded Inr p]
    have st: "\<forall>msg. it = ItError msg \<longrightarrow> msg = ORCHESTRATOR_DISCONNECTED_ERROR" and st': "stable_errors ins"
      using 4(2) by (auto simp: stable_errors_def)
    note fin = item_step_finished[OF step st] and shape = item_step_shape[OF step]
    obtain evs c b1 where ty: "take_yields b ys = (evs, c, b1)" by (metis surj_pair)
    note tp = take_yields_props[OF ty]
    have cl: "evs \<noteq> [] \<and> f = orch_ended (last evs)" if "c = Some f" for f
      using tp(5)[OF that] fin by auto
    note sub = tp(1,3)
    have codes: "\<forall>c. EvError c \<in> set evs \<longrightarrow> c \<in> stable_codes"
      using sub(1) fin by fastforce
    show ?thesis
    proof (cases "c = None \<and> \<not> brk")
      case False
      have "c = None \<Longrightarrow> ys \<noteq> [] \<and> snd (last ys) = orch_ended (fst (last ys))"
        using False shape fin by simp
      then show ?thesis using step ty sub(2) cl codes False
        by (cases c) (auto simp: stream_stop_def last_map)
    next
      case True
      let ?r = "stream_loop ins b1 tr1"
      have IH: "(\<not> se_waiting ?r \<longrightarrow> (se_finished ?r \<longleftrightarrow> se_events ?r \<noteq> [] \<and> orch_ended (last (se_events ?r)))) \<and>
        (\<forall>c. EvError c \<in> set (se_events ?r) \<longrightarrow> c \<in> stable_codes)"
        using 4(1)[OF step[symmetric] refl refl ty[symmetric] refl _ _ st'] True by blast
      have "\<forall>ev\<in>set evs. \<not> orch_ended ev"
        using True sub(2) shape by (auto simp: orch_ended_def)
      then show ?thesis
        using IH True step ty codes by (auto simp: Let_def last_append)
    qed
  qed
qed (auto simp: stream_stop_def orch_ended_def stable_codes_def)


text \<open>The tokens of a turn are what the text tracker delivers for its \<open>chat\<close> events.\<close>

definition open_chat :: "dict \<Rightarrow> bool" where
  "open_chat p \<longleftrightarrow> dget p ''state'' \<noteq> JStr ''final'' \<and> dget p ''state'' \<noteq> JStr ''error''"

lemma loop_tokens:
  "\<forall>p\<in>set ps. open_chat p \<Longrightarrow> dget p ''state'' = JStr ''final'' \<Longrightarrow>
   token_text (se_events (stream_loop (map (\<lambda>p. GotItem (ItChat p)) (ps @ [p]) @ rest) None tr)) =
     fst (feed_all (ps @ [p]) tr) \<and>
   se_exn (stream_loop (map (\<lambda>p. GotItem (ItChat p)) (ps @ [p]) @ rest) None tr) = None \<and>
   \<not> se_waiting (stream_loop (map (\<lambda>p. GotItem (ItChat p)) (ps @ [p]) @ rest) None tr)"
proof (induction ps arbitrary: tr)
  case Nil
  then show ?case by (auto simp: item_step_def stream_stop_def Let_def split: prod.splits)
next
  case (Cons a ps)
  obtain d tr1 where f: "feed a tr = (d, tr1)" by fastforce
  obtain out tr2 where fa: "feed_all (ps @ [p]) tr1 = (out, tr2)" by fastforce
  have "open_chat a" using Cons.prems by simp
  then show ?case
    using Cons.IH[of tr1] Cons.prems f fa by (simp add: item_step_def open_chat_def Let_def)
qed

lemma finally_events [simp]:
  "tr_events (turn_finally w sk sent fin evs ex wr r) = evs"
  "tr_registry (turn_finally w sk sent fin evs ex wr r) = unregister sk (te_req_id w) r"
  "\<not> tr_waiting (turn_finally w sk sent fin evs ex wr r)"
  by (simp_all add: turn_finally_def Let_def split: option.splits)

lemma finally_exn: "tr_exn (turn_finally w sk sent fin evs ex wr r) = None \<Longrightarrow> ex = None"
  by (auto simp: turn_finally_def Let_def split: option.splits if_splits)

lemma join_truthy_exn: "join_truthy ts = Inl e \<Longrightarrow> e = TypeError"
  by (induction ts) (auto split: if_splits json.splits sum.splits)

lemma tool_payload_exn: "from_session_tool_payload d = Inl e \<Longrightarrow> e = TypeError \<or> e = AttributeError"
  by (auto simp: from_session_tool_payload_def flatten_tool_result_content_def jget_or_def Let_def
      dest: join_truthy_exn split: if_splits sum.splits json.splits)

definition not_code :: "exn option \<Rightarrow> bool" where
  "not_code e \<longleftrightarrow> (\<forall>c. e \<noteq> Some (OrchestratorError c))"

lemma loop_exn: "not_code (se_exn (stream_loop ins b tr))"
proof (induction ins b tr rule: stream_loop.induct)
  case (4 it ins b tr)
  have "item_step it tr = (Inl e, tr1) \<Longrightarrow> not_code (Some e)" for e tr1
    by (cases it) (auto simp: item_step_def not_code_def Let_def dest!: tool_payload_exn
        split: prod.splits if_splits sum.splits option.splits)
  with 4 show ?case
    by (auto simp: stream_stop_def not_code_def Let_def split: prod.splits sum.splits option.splits)
qed (simp_all add: stream_stop_def not_code_def)

lemma stream_exn: "not_code (tr_exn (stream_response w ws txt sk b r))"
  using loop_exn[of "te_ins w" b new_tracker]
  by (auto simp: stream_response_def no_turn_def turn_finally_def not_code_def is_Exception_def Let_def
      split: sum.splits option.splits)

text \<open>A consumer that only appends the tokens.\<close>

definition token_sink :: "string co_env" where
  "token_sink = \<lparr>co_record = None, co_on_token = Some (\<lambda>txt s. (None, s @ txt)), co_on_tool = None\<rparr>"

lemma sink_record: "co_record token_sink = None"
  by (simp add: token_sink_def)

lemma sink_event:
  "co_event token_sink ev c =
     (case ev of EvToken txt \<Rightarrow> (None, c\<lparr>co_first := False, co_count := Suc (co_count c), co_client := co_client c @ txt\<rparr>)
      | EvError code \<Rightarrow> (Some (OrchestratorError code), c) | _ \<Rightarrow> (None, c))"
  by (simp add: co_event_def token_sink_def opt_call_def split: orch_event.splits)

definition fail_code :: "orch_event list \<Rightarrow> exn option" where
  "fail_code evs =
     (if evs = [] then None
      else case last evs of EvError code \<Rightarrow> Some (OrchestratorError code) | _ \<Rightarrow> None)"

lemma sink_consume:
  "\<forall>ev\<in>set (butlast evs). \<not> terminal ev \<Longrightarrow>
   \<exists>c'. co_consume token_sink evs c = (length evs, fail_code evs, c') \<and>
        co_client c' = co_client c @ token_text evs"
proof (induction evs arbitrary: c)
  case (Cons ev evs)
  show ?case
  proof (cases "evs = []")
    case True
    then show ?thesis by (cases ev) (auto simp: sink_event fail_code_def)
  next
    case False
    then have nt: "\<not> terminal ev" "\<forall>ev\<in>set (butlast evs). \<not> terminal ev"
      using Cons.prems by auto
    define c1 where "c1 = snd (co_event token_sink ev c)"
    have e: "co_event token_sink ev c = (None, c1)" "co_client c1 = co_client c @ token_text [ev]"
      using nt(1) unfolding c1_def by (cases ev; simp add: sink_event)+
    obtain c' where "co_consume token_sink evs c1 = (length evs, fail_code evs, c')"
      "co_client c' = co_client c1 @ token_text evs"
      using Cons.IH[OF nt(2)] by blast
    moreover have "token_text (ev # evs) = token_text [ev] @ token_text evs"
      using token_text_append[of "[ev]" evs] by simp
    ultimately show ?thesis
      using e False by (simp add: fail_code_def)
  qed
qed (simp add: fail_code_def)

lemma turn_shape:
  assumes "stable_errors (te_ins w)"
  shows "(\<forall>ev\<in>set (butlast (tr_events (stream_response w ws txt sk b r))). \<not> terminal ev) \<and>
         (b = None \<and> \<not> tr_waiting (stream_response w ws txt sk b r) \<and> tr_exn (stream_response w ws txt sk b r) = None
            \<longrightarrow> tr_events (stream_response w ws txt sk b r) \<noteq> [] \<and>
                terminal (last (tr_events (stream_response w ws txt sk b r)))) \<and>
         (\<forall>c. EvError c \<in> set (tr_events (stream_response w ws txt sk b r)) \<longrightarrow> c \<in> stable_codes)"
  using loop_shape[of "te_ins w" b new_tracker] loop_finished[OF assms, of b new_tracker]
  by (auto simp: stream_response_def no_turn_def Let_def stable_codes_def dest!: finally_exn
      split: sum.splits option.splits)

lemma stream_budget:
  "n < length (tr_events (stream_response w ws txt sk None r)) \<Longrightarrow>
   \<not> tr_waiting (stream_response w ws txt sk (Some n) r)"
  using loop_budget[of n "te_ins w" new_tracker]
  by (auto simp: stream_response_def no_turn_def Let_def split: sum.splits option.splits if_splits)

section \<open>Properties\<close>

text \<open>
  Whatever OpenClaw, the timers and the consumer do, a turn yields at most one terminal event
  and nothing after it; a turn that ran to its end yields exactly one; and every error it yields is
  one of the fixed codes, never a text of OpenClaw or of an exception.
\<close>

theorem turn_one_terminal_event:
  assumes "stable_errors (te_ins w)"
  shows "(\<forall>ev\<in>set (butlast (tr_events (stream_response w ws txt sk b r))). \<not> terminal ev) \<and>
         (b = None \<and> \<not> tr_waiting (stream_response w ws txt sk b r) \<and> tr_exn (stream_response w ws txt sk b r) = None
            \<longrightarrow> tr_events (stream_response w ws txt sk b r) \<noteq> [] \<and>
                terminal (last (tr_events (stream_response w ws txt sk b r)))) \<and>
         (\<forall>c. EvError c \<in> set (tr_events (stream_response w ws txt sk b r)) \<longrightarrow> c \<in> stable_codes)"
  by (rule turn_shape[OF assms])

theorem turn_one_terminal_event_witness:
  "let w = \<lparr>te_req_id = ''r1'', te_idempotency = ''i'', te_abort_id = ''a'', te_send = None,
            te_ins = [GotItem (ItChat [(''deltaText'', JStr ''Hi'')]), GotItem (ItChat [(''state'', JStr ''final'')])],
            te_env = (\<lambda>r. r), te_ws_after = True, te_abort_send = None\<rparr>;
       res = stream_response w True ''q'' ''k'' None (new_turn_registry 4) in
   tr_events res = [EvToken ''Hi'', EvStatusDone] \<and> terminal (last (tr_events res)) \<and>
   (\<forall>c. EvError c \<in> set (tr_events res) \<longrightarrow> c \<in> stable_codes)"
  using turn_one_terminal_event[of "\<lparr>te_req_id = ''r1'', te_idempotency = ''i'', te_abort_id = ''a'', te_send = None,
            te_ins = [GotItem (ItChat [(''deltaText'', JStr ''Hi'')]), GotItem (ItChat [(''state'', JStr ''final'')])],
            te_env = (\<lambda>r. r), te_ws_after = True, te_abort_send = None\<rparr>" True "''q''" "''k''" None "new_turn_registry 4"]
  by (simp add: stable_errors_def stream_response_def register_def session_queue_def new_turn_registry_def
      item_step_def feed_def emit_missing_def new_tracker_def dget_def tail_def startswith_def is_retraction_def
      stream_stop_def Let_def)



text \<open>
  C8: A turn always gives its session key back: once its generator is over, in any way, the key it
  held is free again (unless a newer turn owns it, which keeps it), and no other key is touched.
\<close>

theorem turn_always_released:
  assumes "register (te_req_id w) sk r = Inr (q, r1)"
    and "\<not> tr_waiting (stream_response w True txt sk b r)"
  shows "session_queue k (tr_registry (stream_response w True txt sk b r)) =
           (if k = sk \<and> session_owner (te_env w r1) sk = Some (te_req_id w) then None
            else session_queue k (te_env w r1))"
  using assms by (auto simp: stream_response_def Let_def unregister_session_queue split: option.splits)

theorem turn_always_released_witness:
  "let w = \<lparr>te_req_id = ''r1'', te_idempotency = ''i'', te_abort_id = ''a'', te_send = Some (OtherError ''x''),
            te_ins = [], te_env = (\<lambda>r. r), te_ws_after = True, te_abort_send = None\<rparr> in
   session_queue ''k'' (tr_registry (stream_response w True ''q'' ''k'' None (new_turn_registry 4))) = None"
  using turn_always_released[of "\<lparr>te_req_id = ''r1'', te_idempotency = ''i'', te_abort_id = ''a'', te_send = Some (OtherError ''x''),
            te_ins = [], te_env = (\<lambda>r. r), te_ws_after = True, te_abort_send = None\<rparr>" "''k''" "new_turn_registry 4" 0
      "snd (projr (register ''r1'' ''k'' (new_turn_registry 4)))" "''q''" None "''k''"]
  by (simp add: stream_response_def register_def session_queue_def new_turn_registry_def is_Exception_def Let_def)

text \<open>
  The tokens a turn yields are exactly the text the text tracker reconstructs from its \<open>chat\<close>
  events, in order and once.
\<close>

theorem turn_tokens_exact:
  assumes "session_queue sk r = None" "te_send w = None"
    and "te_ins w = map (\<lambda>p. GotItem (ItChat p)) (ps @ [p]) @ rest"
    and "\<forall>p\<in>set ps. open_chat p" "dget p ''state'' = JStr ''final''"
  shows "token_text (tr_events (stream_response w True txt sk None r)) = fst (feed_all (ps @ [p]) new_tracker)"
  using loop_tokens[OF assms(4,5), of rest new_tracker] assms(1-3)
  by (simp add: stream_response_def register_def Let_def)

theorem turn_tokens_exact_witness:
  "let w = \<lparr>te_req_id = ''r1'', te_idempotency = ''i'', te_abort_id = ''a'', te_send = None,
            te_ins = [GotItem (ItChat [(''deltaText'', JStr ''Hi'')]), GotItem (ItChat [(''state'', JStr ''final'')])],
            te_env = (\<lambda>r. r), te_ws_after = True, te_abort_send = None\<rparr> in
   token_text (tr_events (stream_response w True ''q'' ''k'' None (new_turn_registry 4))) =
     fst (feed_all [[(''deltaText'', JStr ''Hi'')], [(''state'', JStr ''final'')]] new_tracker)"
  using turn_tokens_exact[of "''k''" "new_turn_registry 4" "\<lparr>te_req_id = ''r1'', te_idempotency = ''i'', te_abort_id = ''a'', te_send = None,
            te_ins = [GotItem (ItChat [(''deltaText'', JStr ''Hi'')]), GotItem (ItChat [(''state'', JStr ''final'')])],
            te_env = (\<lambda>r. r), te_ws_after = True, te_abort_send = None\<rparr>"
      "[[(''deltaText'', JStr ''Hi'')]]" "[(''state'', JStr ''final'')]" "[]" "''q''"]
  by (simp add: session_queue_def new_turn_registry_def open_chat_def dget_def Let_def)




end
