(* ===== verification/Teardown.thy ===== *)
theory Teardown
  imports Prelude
begin

text \<open>
  \<open>services/teardown.py\<close>: the closing and cancellation contract. A wait of the source is a loop around
  \<open>asyncio.wait({task}, timeout=remaining)\<close>; what each of those calls returns or raises, with the
  clock reading the loop takes next, is an element of a list of wake-ups. An exhausted list means
  that the wait is still suspended (\<open>None\<close>). A \<open>CancelledError\<close> object is its identity, a \<open>nat\<close>.
\<close>

datatype task_state = TaskRunning | TaskReturned | TaskRaised exn | TaskCancelled

record task =
  tstate :: task_state
  cancel_sent :: bool

datatype wake = WakeCancel nat | WakeTimeout | WakeTask task_state

record teardown =
  td_cancelled :: bool
  td_cancel_exc :: "nat option"

definition new_teardown :: teardown where
  "new_teardown = \<lparr>td_cancelled = False, td_cancel_exc = None\<rparr>"

definition tdone :: "task \<Rightarrow> bool" where
  "tdone tk \<longleftrightarrow> tstate tk \<noteq> TaskRunning"

definition note_cancel :: "nat \<Rightarrow> teardown \<Rightarrow> teardown" where
  "note_cancel c td =
     (let td1 = (if td_cancel_exc td = None then td\<lparr>td_cancel_exc := Some c\<rparr> else td) in
      td1\<lparr>td_cancelled := True\<rparr>)"

definition expired :: "time option \<Rightarrow> time \<Rightarrow> bool" where
  "expired deadline now = (case deadline of None \<Rightarrow> False | Some d \<Rightarrow> d - now \<le> 0)"

fun wait_loop :: "time option \<Rightarrow> (time \<times> wake) list \<Rightarrow> time \<Rightarrow> task \<Rightarrow> teardown \<Rightarrow> (task \<times> teardown) option" where
  "wait_loop dl [] now tk td = (if tdone tk \<or> expired dl now then Some (tk, td) else None)"
| "wait_loop dl ((t, w) # evs) now tk td =
     (if tdone tk \<or> expired dl now then Some (tk, td)
      else case w of
        WakeCancel c \<Rightarrow> wait_loop dl evs t tk (note_cancel c td)
      | WakeTimeout \<Rightarrow> wait_loop dl evs t tk td
      | WakeTask st \<Rightarrow> wait_loop dl evs t (tk\<lparr>tstate := st\<rparr>) td)"

text \<open>The task argument of \<open>wait\<close> and \<open>cancel\<close>: missing, the caller's own task, or another one.\<close>

datatype target = NoTask | CurrentTask | OtherTask task

definition td_wait ::
  "time option \<Rightarrow> (time \<times> wake) list \<Rightarrow> time \<Rightarrow> target \<Rightarrow> teardown \<Rightarrow> (target \<times> teardown) option" where
  "td_wait tmo evs now tg td =
     (case tg of
        OtherTask tk \<Rightarrow>
          (case wait_loop (map_option (\<lambda>d. now + d) tmo) evs now tk td of
             None \<Rightarrow> None | Some (tk', td') \<Rightarrow> Some (OtherTask tk', td'))
      | _ \<Rightarrow> Some (tg, td))"

definition td_cancel ::
  "time option \<Rightarrow> (time \<times> wake) list \<Rightarrow> time \<Rightarrow> target \<Rightarrow> teardown \<Rightarrow> (target \<times> teardown) option" where
  "td_cancel tmo evs now tg td =
     (case tg of
        OtherTask tk \<Rightarrow>
          td_wait tmo evs now (OtherTask (if tdone tk then tk else tk\<lparr>cancel_sent := True\<rparr>)) td
      | _ \<Rightarrow> Some (tg, td))"

definition td_step ::
  "time option \<Rightarrow> (time \<times> wake) list \<Rightarrow> time \<Rightarrow> teardown \<Rightarrow> (task \<times> teardown) option" where
  "td_step tmo evs now td =
     (case td_wait tmo evs now (OtherTask \<lparr>tstate = TaskRunning, cancel_sent = False\<rparr>) td of
        Some (OtherTask tk, td') \<Rightarrow>
          Some (if tdone tk then tk else tk\<lparr>cancel_sent := True\<rparr>, td')
      | _ \<Rightarrow> None)"

text \<open>
  \<open>__aexit__\<close>: \<open>body_raised\<close> is \<open>exc_type is not None\<close>, \<open>pending\<close> is \<open>cancel_requested()\<close>. The result
  is the \<open>CancelledError\<close> it raises: the noted one, or a new one (\<open>Some None\<close>).
\<close>

definition td_exit :: "bool \<Rightarrow> bool \<Rightarrow> teardown \<Rightarrow> nat option option" where
  "td_exit body_raised pending td =
     (if \<not> body_raised \<and> (td_cancelled td \<or> pending) then Some (td_cancel_exc td) else None)"

definition raise_if_cancelled :: "teardown \<Rightarrow> nat option option" where
  "raise_if_cancelled td = (if td_cancelled td then Some (td_cancel_exc td) else None)"

section \<open>A closing block\<close>

datatype td_op =
    OpStep "time option" "(time \<times> wake) list" time
  | OpCancel "time option" "(time \<times> wake) list" time target
  | OpWait "time option" "(time \<times> wake) list" time target

fun td_op_run :: "td_op \<Rightarrow> teardown \<Rightarrow> teardown option" where
  "td_op_run (OpStep tmo evs now) td = map_option snd (td_step tmo evs now td)"
| "td_op_run (OpCancel tmo evs now tg) td = map_option snd (td_cancel tmo evs now tg td)"
| "td_op_run (OpWait tmo evs now tg) td = map_option snd (td_wait tmo evs now tg td)"

text \<open>The body runs its operations one after the other; the result counts the completed ones.\<close>

fun td_block :: "td_op list \<Rightarrow> nat \<Rightarrow> teardown \<Rightarrow> (nat \<times> teardown) option" where
  "td_block [] n td = Some (n, td)"
| "td_block (a # ops) n td =
     (case td_op_run a td of None \<Rightarrow> None | Some td' \<Rightarrow> td_block ops (Suc n) td')"

fun op_deadline :: "td_op \<Rightarrow> time option" where
  "op_deadline (OpStep tmo evs now) = map_option (\<lambda>d. now + d) tmo"
| "op_deadline (OpCancel tmo evs now tg) = map_option (\<lambda>d. now + d) tmo"
| "op_deadline (OpWait tmo evs now tg) = map_option (\<lambda>d. now + d) tmo"

fun op_events :: "td_op \<Rightarrow> (time \<times> wake) list" where
  "op_events (OpStep tmo evs now) = evs"
| "op_events (OpCancel tmo evs now tg) = evs"
| "op_events (OpWait tmo evs now tg) = evs"

text \<open>The wake-ups of an operation go on until its task ends or its deadline is reached.\<close>

definition op_returns :: "td_op \<Rightarrow> bool" where
  "op_returns a \<longleftrightarrow>
     (\<exists>x\<in>set (op_events a). expired (op_deadline a) (fst x) \<or>
        (\<exists>st\<in>{TaskReturned, TaskCancelled}. snd x = WakeTask st) \<or>
        (case snd x of WakeTask (TaskRaised _) \<Rightarrow> True | _ \<Rightarrow> False))"

section \<open>Lemmas\<close>

lemma note_cancel_simps [simp]:
  "td_cancelled (note_cancel c td)"
  "td_cancel_exc (note_cancel c td) = (case td_cancel_exc td of None \<Rightarrow> Some c | Some x \<Rightarrow> Some x)"
  by (auto simp: note_cancel_def Let_def split: option.splits)

text \<open>The cancellations the loop really receives: those before it stops.\<close>

fun received :: "time option \<Rightarrow> (time \<times> wake) list \<Rightarrow> time \<Rightarrow> task \<Rightarrow> nat list" where
  "received dl [] now tk = []"
| "received dl ((t, w) # evs) now tk =
     (if tdone tk \<or> expired dl now then []
      else case w of
        WakeCancel c \<Rightarrow> c # received dl evs t tk
      | WakeTimeout \<Rightarrow> received dl evs t tk
      | WakeTask st \<Rightarrow> received dl evs t (tk\<lparr>tstate := st\<rparr>))"

definition td_note_all :: "nat list \<Rightarrow> teardown \<Rightarrow> teardown" where
  "td_note_all cs td = foldl (\<lambda>td c. note_cancel c td) td cs"

lemma wait_loop_received:
  "wait_loop dl evs now tk td = Some (tk', td') \<Longrightarrow> td' = td_note_all (received dl evs now tk) td"
  by (induction dl evs now tk td rule: wait_loop.induct)
     (auto simp: td_note_all_def split: if_splits wake.splits)

lemma note_all_cancelled: "td_cancelled (td_note_all cs td) \<longleftrightarrow> td_cancelled td \<or> cs \<noteq> []"
  by (induction cs arbitrary: td) (auto simp: td_note_all_def)

lemma note_all_exc:
  "td_cancel_exc (td_note_all cs td) =
     (case td_cancel_exc td of Some x \<Rightarrow> Some x | None \<Rightarrow> (case cs of [] \<Rightarrow> None | c # _ \<Rightarrow> Some c))"
proof (induction cs arbitrary: td)
  case (Cons c cs)
  have "td_note_all (c # cs) td = td_note_all cs (note_cancel c td)"
    by (simp add: td_note_all_def)
  then show ?case using Cons by (simp split: option.splits)
qed (simp add: td_note_all_def split: option.splits)

lemma note_all_append: "td_note_all (xs @ ys) td = td_note_all ys (td_note_all xs td)"
  by (simp add: td_note_all_def)

text \<open>A deadline or an ended task in the wake-ups ends the loop.\<close>

lemma wait_loop_ends:
  "x \<in> set evs \<Longrightarrow> expired dl (fst x) \<or> (\<exists>st. snd x = WakeTask st \<and> st \<noteq> TaskRunning) \<Longrightarrow>
   \<exists>r. wait_loop dl evs now tk td = Some r"
proof (induction dl evs now tk td rule: wait_loop.induct)
  case (2 dl t w evs now tk td)
  have stop: "\<exists>r. wait_loop dl evs t tk' td' = Some r" if "expired dl t \<or> tdone tk'" for tk' td'
    using that by (cases evs) auto
  show ?case
  proof (cases "tdone tk \<or> expired dl now")
    case False
    then show ?thesis
      using 2 stop by (cases w; cases "x = (t, w)") (auto simp: tdone_def)
  qed auto
qed simp

fun op_received :: "td_op \<Rightarrow> nat list" where
  "op_received (OpStep tmo evs now) =
     received (map_option (\<lambda>d. now + d) tmo) evs now \<lparr>tstate = TaskRunning, cancel_sent = False\<rparr>"
| "op_received (OpCancel tmo evs now tg) =
     (case tg of OtherTask tk \<Rightarrow>
        received (map_option (\<lambda>d. now + d) tmo) evs now
          (if tdone tk then tk else tk\<lparr>cancel_sent := True\<rparr>) | _ \<Rightarrow> [])"
| "op_received (OpWait tmo evs now tg) =
     (case tg of OtherTask tk \<Rightarrow> received (map_option (\<lambda>d. now + d) tmo) evs now tk | _ \<Rightarrow> [])"

lemma op_run_received: "td_op_run a td = Some td' \<Longrightarrow> td' = td_note_all (op_received a) td"
  by (cases a)
     (auto simp: td_step_def td_cancel_def td_wait_def td_note_all_def dest!: wait_loop_received
       split: target.splits option.splits prod.splits if_splits)

lemma op_run_returns: "op_returns a \<Longrightarrow> \<exists>td'. td_op_run a td = Some td'"
proof -
  assume r: "op_returns a"
  then obtain x where x: "x \<in> set (op_events a)"
    "expired (op_deadline a) (fst x) \<or> (\<exists>st. snd x = WakeTask st \<and> st \<noteq> TaskRunning)"
    unfolding op_returns_def by (fastforce split: wake.splits task_state.splits)
  have e: "\<exists>tk' td'. wait_loop (op_deadline a) (op_events a) now tk td = Some (tk', td')" for now tk
    using wait_loop_ends[OF x] by (metis surj_pair)
  show ?thesis
  proof (cases a)
    case (OpStep tmo evs now)
    then show ?thesis
      using e[of now "\<lparr>tstate = TaskRunning, cancel_sent = False\<rparr>"]
      by (auto simp: td_step_def td_wait_def)
  next
    case (OpCancel tmo evs now tg)
    then show ?thesis
      using e[of now "case tg of OtherTask tk \<Rightarrow> if tdone tk then tk else tk\<lparr>cancel_sent := True\<rparr>"]
      by (cases tg) (auto simp: td_cancel_def td_wait_def)
  next
    case (OpWait tmo evs now tg)
    then show ?thesis
      using e[of now "case tg of OtherTask tk \<Rightarrow> tk"] by (cases tg) (auto simp: td_wait_def)
  qed
qed

lemma block_received:
  "td_block ops n td = Some (m, td') \<Longrightarrow>
   m = n + length ops \<and> td' = td_note_all (concat (map op_received ops)) td"
proof (induction ops arbitrary: n td)
  case (Cons a ops)
  from Cons.prems obtain td1 where 1: "td_op_run a td = Some td1" "td_block ops (Suc n) td1 = Some (m, td')"
    by (auto split: option.splits)
  show ?case
    using Cons.IH[OF 1(2)] op_run_received[OF 1(1)] by (simp add: note_all_append)
qed (simp add: td_note_all_def)

lemma block_returns: "\<forall>a\<in>set ops. op_returns a \<Longrightarrow> \<exists>r. td_block ops n td = Some r"
proof (induction ops arbitrary: n td)
  case (Cons a ops)
  obtain td' where "td_op_run a td = Some td'"
    using op_run_returns Cons.prems by (meson list.set_intros(1))
  then show ?case using Cons by simp
qed simp

section \<open>Properties\<close>



text \<open>
  \<open>Teardown.cancel\<close> never cancels its own caller, and when it returns the task has ended or the
  timeout has expired with the cancellation requested; a step abandoned by its timeout has been
  asked to cancel, so no step is left running unasked.
\<close>

theorem teardown_leaves_no_task_unasked:
  "td_cancel tmo evs now CurrentTask td = Some (CurrentTask, td) \<and>
   (td_cancel tmo evs now (OtherTask tk) td = Some (OtherTask tk', td') \<longrightarrow> tdone tk' \<or> cancel_sent tk') \<and>
   (td_step tmo evs now td = Some (tk', td') \<longrightarrow> tdone tk' \<or> cancel_sent tk') \<and>
   (tmo = None \<and> td_step tmo evs now td = Some (tk', td') \<longrightarrow> tdone tk')"
proof -
  have sent: "wait_loop dl evs now tk td = Some (tk', td') \<Longrightarrow> cancel_sent tk' = cancel_sent tk"
    for dl tk tk' td'
    by (induction dl evs now tk td rule: wait_loop.induct) (auto split: if_splits wake.splits)
  have done_wait: "wait_loop None evs now tk td = Some (tk', td') \<Longrightarrow> tdone tk'" for tk tk' td'
    by (induction "None :: time option" evs now tk td rule: wait_loop.induct)
       (auto simp: expired_def split: if_splits wake.splits)
  have 1: "td_cancel tmo evs now (OtherTask tk) td = Some (OtherTask tk', td') \<Longrightarrow> tdone tk' \<or> cancel_sent tk'"
  proof -
    assume a: "td_cancel tmo evs now (OtherTask tk) td = Some (OtherTask tk', td')"
    show ?thesis
    proof (cases "tdone tk")
      case True
      then have "wait_loop dl evs now tk td = Some (tk, td)" for dl
        by (cases evs) auto
      then show ?thesis using a True by (simp add: td_cancel_def td_wait_def)
    next
      case False
      then show ?thesis using a
        by (auto simp: td_cancel_def td_wait_def split: option.splits prod.splits dest!: sent)
    qed
  qed
  have 2: "td_step tmo evs now td = Some (tk', td') \<Longrightarrow> tdone tk' \<or> cancel_sent tk'"
    by (auto simp: td_step_def split: option.splits target.splits if_splits)
  have 3: "td_step None evs now td = Some (tk', td') \<Longrightarrow> tdone tk'"
    by (auto simp: td_step_def td_wait_def split: option.splits target.splits if_splits prod.splits
        dest: done_wait)
  show ?thesis using 1 2 3 by (auto simp: td_cancel_def)
qed

theorem teardown_leaves_no_task_unasked_witness:
  "\<exists>tk td. td_step (Some 1) [(2, WakeTimeout)] 0 new_teardown = Some (tk, td) \<and> \<not> tdone tk \<and> cancel_sent tk"
  using teardown_leaves_no_task_unasked[of "Some 1" "[(2, WakeTimeout)]" 0 new_teardown _
      "\<lparr>tstate = TaskRunning, cancel_sent = True\<rparr>" new_teardown]
  by (simp add: td_step_def td_wait_def tdone_def expired_def)

end
