(* ===== verification/OpenClaw_Client.thy ===== *)
theory OpenClaw_Client
  imports Dispatcher Stream_Response Teardown
begin

text \<open>
  \<open>OpenClawClient\<close> (\<open>services/openclaw/client.py\<close>) but \<open>stream_response\<close>: the connection, its
  handshake, the listener, the keepalive, \<open>ping\<close>, \<open>abort\<close> and the teardown. What a \<open>recv()\<close> gives, or
  the outcome of a \<open>send\<close>, is an argument; a raw frame is what \<open>json.loads\<close> makes of it (\<open>None\<close>: it
  raises \<open>ValueError\<close>). The registry and the dispatcher the client shares with the sessions are fields
  of its state. A missing listener or keepalive task is \<open>False\<close>.
\<close>

section \<open>Limits and codes\<close>

definition DEFAULT_MAX_PAYLOAD :: int where "DEFAULT_MAX_PAYLOAD = 26214400"
definition MIN_FRAME_LIMIT :: int where "MIN_FRAME_LIMIT = 1048576"
definition MAX_FRAME_LIMIT :: int where "MAX_FRAME_LIMIT = 67108864"

definition frame_limit :: "json \<Rightarrow> int" where
  "frame_limit announced =
     (let a = (case announced of JInt i \<Rightarrow> if i \<le> 0 then DEFAULT_MAX_PAYLOAD else i
               | _ \<Rightarrow> DEFAULT_MAX_PAYLOAD) in
      max MIN_FRAME_LIMIT (min a MAX_FRAME_LIMIT))"

definition safe_code_char :: "char \<Rightarrow> bool" where
  "safe_code_char c \<longleftrightarrow>
     (let n = (of_char c :: nat) in
      (65 \<le> n \<and> n \<le> 90) \<or> (97 \<le> n \<and> n \<le> 122) \<or> (48 \<le> n \<and> n \<le> 57) \<or>
      c \<in> {CHR ''_'', CHR ''.'', CHR '':'', CHR ''-''})"

definition safe_error_code :: "json \<Rightarrow> string" where
  "safe_error_code error =
     (case error of
        JObj d \<Rightarrow>
          (case dget d ''code'' of
             JStr code \<Rightarrow>
               if 1 \<le> length code \<and> length code \<le> 48 \<and> list_all safe_code_char code then code
               else ''unspecified''
           | _ \<Rightarrow> ''unspecified'')
      | _ \<Rightarrow> ''unspecified'')"

text \<open>\<open>tick_interval_ms * 0.8 / 1000\<close>: a tick that is not a number raises.\<close>

definition keepalive_interval :: "gateway_info option \<Rightarrow> exn + rat" where
  "keepalive_interval info =
     (case info of
        None \<Rightarrow> Inr 12
      | Some g \<Rightarrow>
          (case tick_interval_ms g of
             JInt i \<Rightarrow> Inr (max (of_int i * (4 / 5) / 1000) 1)
           | JFloat x \<Rightarrow> Inr (max (x * (4 / 5) / 1000) 1)
           | JBool b \<Rightarrow> Inr 1
           | _ \<Rightarrow> Inl TypeError))"

section \<open>State\<close>

record openclaw =
  oc_ws :: bool
  oc_max_size :: int
  oc_info :: "gateway_info option"
  oc_health :: "string set"
  oc_listener :: bool
  oc_keepalive :: bool
  oc_disp :: dispatcher
  oc_written :: "json list"

definition new_openclaw :: "dispatcher \<Rightarrow> openclaw" where
  "new_openclaw d =
     \<lparr>oc_ws = False, oc_max_size = 0, oc_info = None, oc_health = {}, oc_listener = False,
      oc_keepalive = False, oc_disp = d, oc_written = []\<rparr>"

definition oc_registry :: "openclaw \<Rightarrow> turn_registry" where
  "oc_registry c = turn_reg (oc_disp c)"

definition oc_set_registry :: "turn_registry \<Rightarrow> openclaw \<Rightarrow> openclaw" where
  "oc_set_registry r c = c\<lparr>oc_disp := (oc_disp c)\<lparr>turn_reg := r\<rparr>\<rparr>"

text \<open>A write on the socket: its outcome is \<open>None\<close> when the frame went out.\<close>

definition oc_send :: "exn option \<Rightarrow> json \<Rightarrow> openclaw \<Rightarrow> exn option \<times> openclaw" where
  "oc_send outcome frame c =
     (case outcome of None \<Rightarrow> (None, c\<lparr>oc_written := oc_written c @ [frame]\<rparr>) | Some e \<Rightarrow> (Some e, c))"

section \<open>Handshake\<close>

datatype rx = RxFail exn | RxRaw "json option"

definition parse_handshake_frame :: "json option \<Rightarrow> exn + dict" where
  "parse_handshake_frame raw =
     (case raw of Some (JObj d) \<Rightarrow> Inr d | _ \<Rightarrow> Inl OrchestratorHandshakeError)"

definition apply_frame_limit :: "bool \<Rightarrow> json \<Rightarrow> int \<Rightarrow> openclaw \<Rightarrow> openclaw" where
  "apply_frame_limit has_protocol announced cur c =
     (let wanted = frame_limit announced in
      if wanted = cur then c else if has_protocol then c\<lparr>oc_max_size := wanted\<rparr> else c)"

text \<open>
  \<open>_recv_matching\<close>: each turn of its loop reads the clock and then a frame. When no more frames
  come the last \<open>wait_for\<close> expires.
\<close>

fun recv_matching :: "string \<Rightarrow> time \<Rightarrow> (time \<times> rx) list \<Rightarrow> exn + dict" where
  "recv_matching req_id deadline [] = Inl TimeoutError"
| "recv_matching req_id deadline ((now, x) # xs) =
     (if deadline - now \<le> 0 then Inl TimeoutError
      else case x of
        RxFail e \<Rightarrow> Inl e
      | RxRaw None \<Rightarrow> Inl ValueError
      | RxRaw (Some (JObj d)) \<Rightarrow>
          if dget d ''id'' = JStr req_id then Inr d else recv_matching req_id deadline xs
      | RxRaw (Some _) \<Rightarrow> Inl AttributeError)"

record connect_env =
  ce_open :: "exn option"
  ce_token :: string
  ce_ids :: "string \<times> string \<times> string"
  ce_challenge :: rx
  ce_sends :: "exn option \<times> exn option \<times> exn option"
  ce_hello :: rx
  ce_has_protocol :: bool
  ce_agents_start :: time
  ce_agents :: "(time \<times> rx) list"
  ce_sub_ack :: rx

text \<open>\<open>_do_connect\<close> in its stages: the challenge, \<open>hello-ok\<close>, the agent roster, the subscription.\<close>

definition stage_challenge :: "connect_env \<Rightarrow> openclaw \<Rightarrow> exn option \<times> openclaw" where
  "stage_challenge w c =
     (case ce_challenge w of
        RxFail e \<Rightarrow> (Some e, c)
      | RxRaw raw \<Rightarrow>
          (case parse_handshake_frame raw of
             Inl e \<Rightarrow> (Some e, c)
           | Inr frame \<Rightarrow>
               if dget frame ''event'' \<noteq> JStr ''connect.challenge'' then (Some OrchestratorHandshakeError, c)
               else oc_send (fst (ce_sends w)) (connect_backend (fst (ce_ids w)) (ce_token w)) c))"

definition stage_hello :: "connect_env \<Rightarrow> int \<Rightarrow> openclaw \<Rightarrow> exn option \<times> openclaw" where
  "stage_hello w limit c =
     (case ce_hello w of
        RxFail e \<Rightarrow> (Some e, c)
      | RxRaw raw \<Rightarrow>
          (case parse_handshake_frame raw of
             Inl e \<Rightarrow> (Some e, c)
           | Inr hello \<Rightarrow>
               if \<not> truthy (dget hello ''ok'') then (Some OrchestratorHandshakeError, c)
               else let p = dget hello ''payload''; p' = (if truthy p then p else JObj []) in
                 case p' of
                   JObj payload \<Rightarrow>
                     (case from_hello_ok payload of
                        Inl e \<Rightarrow> (Some e, c)
                      | Inr info \<Rightarrow>
                          (None, apply_frame_limit (ce_has_protocol w) (max_payload info) limit (c\<lparr>oc_info := Some info\<rparr>)))
                 | _ \<Rightarrow> (Some OrchestratorHandshakeError, c)))"

definition stage_agents :: "connect_env \<Rightarrow> json list \<Rightarrow> openclaw \<Rightarrow> exn option \<times> openclaw" where
  "stage_agents w previous c =
     (let rid = fst (snd (ce_ids w)) in
      case oc_send (fst (snd (ce_sends w))) (agents_list rid) c of
        (Some e, c1) \<Rightarrow> (Some e, c1)
      | (None, c1) \<Rightarrow>
          (case (recv_matching rid (ce_agents_start w + 10) (ce_agents w), oc_info c1) of
             (Inl e, _) \<Rightarrow> (Some e, c1)
           | (Inr res, None) \<Rightarrow> (Some AttributeError, c1)
           | (Inr res, Some info) \<Rightarrow>
               if truthy (dget res ''ok'') then
                 (case update_agents_from_list (dget_or res ''payload'' (JObj [])) info of
                    Inl e \<Rightarrow> (Some e, c1)
                  | Inr info' \<Rightarrow> (None, c1\<lparr>oc_info := Some info'\<rparr>))
               else if previous \<noteq> [] then (None, c1\<lparr>oc_info := Some (info\<lparr>agents := previous\<rparr>)\<rparr>)
               else (None, c1)))"

definition stage_subscribe :: "connect_env \<Rightarrow> openclaw \<Rightarrow> exn option \<times> openclaw" where
  "stage_subscribe w c =
     (case oc_send (snd (snd (ce_sends w))) (sessions_subscribe (snd (snd (ce_ids w)))) c of
        (Some e, c1) \<Rightarrow> (Some e, c1)
      | (None, c1) \<Rightarrow>
          (case ce_sub_ack w of
             RxFail e \<Rightarrow> (Some e, c1)
           | RxRaw _ \<Rightarrow> (None, c1\<lparr>oc_listener := True, oc_keepalive := True\<rparr>)))"

fun run_stages :: "(openclaw \<Rightarrow> exn option \<times> openclaw) list \<Rightarrow> openclaw \<Rightarrow> exn option \<times> openclaw" where
  "run_stages [] c = (None, c)"
| "run_stages (f # fs) c =
     (case f c of (Some e, c1) \<Rightarrow> (Some e, c1) | (None, c1) \<Rightarrow> run_stages fs c1)"

definition do_connect :: "connect_env \<Rightarrow> openclaw \<Rightarrow> exn option \<times> openclaw" where
  "do_connect w c =
     (let previous = (case oc_info c of None \<Rightarrow> [] | Some g \<Rightarrow> agents g);
          limit = frame_limit (case oc_info c of None \<Rightarrow> JNull | Some g \<Rightarrow> max_payload g) in
      case ce_open w of
        Some e \<Rightarrow> (Some e, c)
      | None \<Rightarrow>
          (case run_stages [stage_challenge w, stage_hello w limit, stage_agents w previous, stage_subscribe w]
                  (c\<lparr>oc_ws := True, oc_max_size := limit\<rparr>) of
             (None, c1) \<Rightarrow> (None, c1)
           | (Some e, c1) \<Rightarrow> (Some e, c1\<lparr>oc_ws := False\<rparr>)))"

section \<open>Teardown\<close>

text \<open>
  \<open>_cancel_and_close\<close>: the three steps under \<open>Teardown\<close>, each with the wake-ups of its wait. \<open>ka\<close> and
  \<open>ls\<close> are the keepalive and listener tasks. The result is the cancellation it re-raises.
\<close>

record close_env =
  xe_keepalive :: "(time \<times> wake) list \<times> time \<times> target"
  xe_listener :: "(time \<times> wake) list \<times> time \<times> target"
  xe_socket :: "(time \<times> wake) list \<times> time"
  xe_pending :: bool

definition close_ops :: "close_env \<Rightarrow> bool \<Rightarrow> td_op list" where
  "close_ops x has_ws =
     [OpCancel (Some 2) (fst (xe_keepalive x)) (fst (snd (xe_keepalive x))) (snd (snd (xe_keepalive x))),
      OpCancel (Some 2) (fst (xe_listener x)) (fst (snd (xe_listener x))) (snd (snd (xe_listener x)))] @
     (if has_ws then [OpStep (Some 12) (fst (xe_socket x)) (snd (xe_socket x))] else [])"

definition cancel_and_close :: "close_env \<Rightarrow> openclaw \<Rightarrow> (exn option \<times> openclaw) option" where
  "cancel_and_close x c =
     (case td_block (close_ops x (oc_ws c)) 0 new_teardown of
        None \<Rightarrow> None
      | Some (n, td) \<Rightarrow>
          Some (case td_exit False (xe_pending x) td of Some _ \<Rightarrow> Some CancelledError | None \<Rightarrow> None,
                c\<lparr>oc_keepalive := False, oc_listener := False, oc_ws := False\<rparr>))"

definition oc_connect :: "close_env \<Rightarrow> connect_env \<Rightarrow> openclaw \<Rightarrow> (exn option \<times> openclaw) option" where
  "oc_connect x w c =
     (case cancel_and_close x c of
        None \<Rightarrow> None
      | Some (Some e, c1) \<Rightarrow> Some (Some e, c1)
      | Some (None, c1) \<Rightarrow> Some (do_connect w c1))"

section \<open>Ping and abort\<close>

text \<open>\<open>res\<close> is what the wait for the health future gives, \<open>env\<close> what the other tasks do meanwhile.\<close>

definition oc_ping ::
  "string \<Rightarrow> exn option \<Rightarrow> exn + dict \<Rightarrow> (openclaw \<Rightarrow> openclaw) \<Rightarrow> openclaw \<Rightarrow> (exn + json) \<times> openclaw" where
  "oc_ping req_id snd_out res env c =
     (if \<not> oc_ws c then (Inr (JBool False), c)
      else
        let c1 = c\<lparr>oc_health := insert req_id (oc_health c)\<rparr>;
            (e, c2) = oc_send snd_out (health_frame req_id) c1;
            (out, c3) = (case e of
                Some x \<Rightarrow> (Inl x, c2)
              | None \<Rightarrow> (case res of Inl x \<Rightarrow> (Inl x, env c2) | Inr d \<Rightarrow> (Inr (dget_or d ''ok'' (JBool False)), env c2)));
            out' = (case out of Inl x \<Rightarrow> if is_Exception x then Inr (JBool False) else Inl x | Inr v \<Rightarrow> Inr v)
        in (out', c3\<lparr>oc_health := oc_health c3 - {req_id}\<rparr>))"

definition is_terminal_state :: "json \<Rightarrow> bool" where
  "is_terminal_state s \<longleftrightarrow> s \<in> {JStr ''aborted'', JStr ''final'', JStr ''error''}"

text \<open>The loop that swallows the \<open>aborted\<close>: how many outcomes of \<open>queue.get()\<close> it takes and how it ends.\<close>

fun abort_drain :: "stream_in list \<Rightarrow> nat \<times> exn option" where
  "abort_drain [] = (0, Some TimeoutError)"
| "abort_drain (GetTimeout # ins) = (1, Some TimeoutError)"
| "abort_drain (GetCancelled # ins) = (1, Some CancelledError)"
| "abort_drain (GotItem it # ins) =
     (case it of
        ItTool _ \<Rightarrow> (let (n, e) = abort_drain ins in (Suc n, e))
      | ItChat data \<Rightarrow> if is_terminal_state (dget data ''state'') then (1, None)
                       else (let (n, e) = abort_drain ins in (Suc n, e))
      | _ \<Rightarrow> (1, None))"

definition oc_abort ::
  "string \<Rightarrow> string \<Rightarrow> exn option \<Rightarrow> exn + dict \<Rightarrow> stream_in list \<Rightarrow> (openclaw \<Rightarrow> openclaw) \<Rightarrow>
   openclaw \<Rightarrow> exn option \<times> nat \<times> openclaw" where
  "oc_abort req_id sk snd_out res ins env c =
     (if \<not> oc_ws c then (None, 0, c)
      else case register req_id sk (oc_registry c) of
        Inl _ \<Rightarrow> (None, 0, c)
      | Inr (q, r1) \<Rightarrow>
          let c1 = (oc_set_registry r1 c)\<lparr>oc_health := insert req_id (oc_health c)\<rparr>;
              (e, c2) = oc_send snd_out (chat_abort req_id sk) c1;
              (n, out, c3) =
                (case e of
                   Some x \<Rightarrow> (0, Some x, c2)
                 | None \<Rightarrow>
                     (case res of
                        Inl x \<Rightarrow> (0, Some x, env c2)
                      | Inr d \<Rightarrow>
                          (case dget d ''payload'' of
                             JObj p \<Rightarrow> if truthy (dget p ''aborted'')
                                       then (let (k, x) = abort_drain ins in (k, x, env c2))
                                       else (0, None, env c2)
                           | _ \<Rightarrow> (0, None, env c2))));
              out' = (case out of Some x \<Rightarrow> if is_Exception x then None else Some x | None \<Rightarrow> None);
              c4 = c3\<lparr>oc_health := oc_health c3 - {req_id}\<rparr>
          in (out', n, oc_set_registry (unregister sk req_id (oc_registry c4)) c4))"

section \<open>Listener\<close>

text \<open>
  \<open>_handle_raw_frame\<close>. An unhashable \<open>id\<close> raises in the lookup of \<open>_health_futures\<close>. A future
  that is there is resolved unless it is done already.
\<close>

definition handle_raw_frame :: "time \<Rightarrow> json option \<Rightarrow> openclaw \<Rightarrow> exn option \<times> openclaw" where
  "handle_raw_frame now raw c =
     (case raw of
        None \<Rightarrow> (Some ValueError, c)
      | Some (JObj frame) \<Rightarrow>
          (let fid = dget_or frame ''id'' (JStr []) in
           if \<not> hashable fid then (Some TypeError, c)
           else if fid \<in> JStr ` oc_health c
             then (None, c\<lparr>oc_health := {i \<in> oc_health c. JStr i \<noteq> fid}\<rparr>)
           else let (e, d) = dispatch now frame (oc_disp c) in (e, c\<lparr>oc_disp := d\<rparr>))
      | Some _ \<Rightarrow> (Some TypeError, c))"

datatype listen_end = ListenClosed | ListenError exn | ListenCancelled

text \<open>
  \<open>_listen\<close>: the frames that arrive, then how the \<open>async for\<close> ends. The result says whether
  \<open>on_disconnect\<close> was called and which exception leaves the task.
\<close>

definition listen_frames :: "(time \<times> json option) list \<Rightarrow> openclaw \<Rightarrow> openclaw" where
  "listen_frames fs c = foldl (\<lambda>c (now, raw). snd (handle_raw_frame now raw c)) c fs"

definition oc_listen ::
  "(time \<times> json option) list \<Rightarrow> listen_end \<Rightarrow> bool \<Rightarrow> openclaw \<Rightarrow> bool \<times> exn option \<times> openclaw" where
  "oc_listen fs how has_hook c =
     (let c1 = (if oc_ws c then listen_frames fs c else c);
          c2 = oc_set_registry (error_all ORCHESTRATOR_DISCONNECTED_ERROR (oc_registry c1)) c1;
          cancelled = (oc_ws c \<and> (how = ListenCancelled \<or> how = ListenError CancelledError)) in
      if cancelled then (False, Some CancelledError, c2) else (has_hook, None, c2))"


section \<open>Lemmas\<close>

lemma frame_limit_bounds: "MIN_FRAME_LIMIT \<le> frame_limit j \<and> frame_limit j \<le> MAX_FRAME_LIMIT"
  by (auto simp: frame_limit_def MIN_FRAME_LIMIT_def MAX_FRAME_LIMIT_def Let_def)

lemma frame_limit_exact: "1048576 \<le> i \<Longrightarrow> i \<le> 67108864 \<Longrightarrow> frame_limit (JInt i) = i"
  by (simp add: frame_limit_def MIN_FRAME_LIMIT_def MAX_FRAME_LIMIT_def)

lemma keepalive_interval_ge_1: "keepalive_interval i = Inr x \<Longrightarrow> 1 \<le> x"
  by (auto simp: keepalive_interval_def split: option.splits json.splits)

lemma safe_error_code_short: "length (safe_error_code e) \<le> 48 \<and> list_all safe_code_char (safe_error_code e)"
  by (auto simp: safe_error_code_def safe_code_char_def split: json.splits)

definition client_frame :: "openclaw \<Rightarrow> openclaw \<Rightarrow> bool" where
  "client_frame c c' \<longleftrightarrow> oc_disp c' = oc_disp c \<and> oc_health c' = oc_health c \<and> oc_ws c' = oc_ws c"

lemma client_frame_trans: "client_frame c c1 \<Longrightarrow> client_frame c1 c2 \<Longrightarrow> client_frame c c2"
  by (simp add: client_frame_def)

definition no_tasks :: "openclaw \<Rightarrow> bool" where
  "no_tasks c \<longleftrightarrow> \<not> oc_listener c \<and> \<not> oc_keepalive c"

lemma oc_send_frame:
  "oc_send e f c = (e', c') \<Longrightarrow> e' = e \<and> client_frame c c' \<and> no_tasks c' = no_tasks c \<and>
     oc_info c' = oc_info c \<and> oc_max_size c' = oc_max_size c"
  by (auto simp: oc_send_def client_frame_def no_tasks_def split: option.splits)

lemma apply_frame_limit_frame [simp]:
  "client_frame c (apply_frame_limit h a cur c')  \<longleftrightarrow> client_frame c c'"
  "no_tasks (apply_frame_limit h a cur c') = no_tasks c'"
  "oc_info (apply_frame_limit h a cur c') = oc_info c'"
  by (simp_all add: apply_frame_limit_def client_frame_def no_tasks_def Let_def)

lemma challenge_frame:
  "stage_challenge w c = (e, c') \<Longrightarrow> client_frame c c' \<and> no_tasks c' = no_tasks c \<and>
     oc_info c' = oc_info c \<and> oc_max_size c' = oc_max_size c"
  by (auto simp: stage_challenge_def client_frame_def split: rx.splits sum.splits if_splits dest: oc_send_frame)

lemma from_hello_ok_agents: "from_hello_ok p = Inr info \<Longrightarrow> agents info = []"
  by (auto simp: from_hello_ok_def Let_def split: sum.splits)

lemma hello_frame:
  assumes "stage_hello w limit c = (e, c')"
  shows "client_frame c c' \<and> no_tasks c' = no_tasks c \<and>
   (e = None \<longrightarrow> (\<exists>info. oc_info c' = Some info \<and> agents info = [] \<and>
      c' = apply_frame_limit (ce_has_protocol w) (max_payload info) limit (c\<lparr>oc_info := Some info\<rparr>)))"
proof -
  have "c' = c \<and> e \<noteq> None \<or> (\<exists>p info. from_hello_ok p = Inr info \<and> e = None \<and>
      c' = apply_frame_limit (ce_has_protocol w) (max_payload info) limit (c\<lparr>oc_info := Some info\<rparr>))"
    using assms unfolding stage_hello_def Let_def
    by (auto split: rx.split_asm sum.split_asm if_split_asm json.split_asm)
  then show ?thesis
    by (auto simp: from_hello_ok_agents) (simp_all add: client_frame_def no_tasks_def)
qed

lemma update_agents_limit: "update_agents_from_list p g = Inr g' \<Longrightarrow> max_payload g' = max_payload g"
  by (auto simp: update_agents_from_list_def Let_def split: sum.splits)

lemma agents_frame:
  assumes "stage_agents w prev c = (e, c')"
  shows "client_frame c c' \<and> no_tasks c' = no_tasks c \<and> oc_max_size c' = oc_max_size c \<and>
    (oc_info c' = oc_info c \<or> (\<exists>g g'. oc_info c = Some g \<and> oc_info c' = Some g' \<and> max_payload g' = max_payload g))"
proof -
  obtain e1 c1 where s: "oc_send (fst (snd (ce_sends w))) (agents_list (fst (snd (ce_ids w)))) c = (e1, c1)"
    by fastforce
  note f = oc_send_frame[OF s]
  have "c' = c1 \<or> (\<exists>g g'. oc_info c1 = Some g \<and> c' = c1\<lparr>oc_info := Some g'\<rparr> \<and> max_payload g' = max_payload g)"
  proof (cases e1)
    case None
    show ?thesis
    proof (cases "recv_matching (fst (snd (ce_ids w))) (ce_agents_start w + 10) (ce_agents w)")
      case (Inl x)
      then show ?thesis using assms by (simp add: stage_agents_def Let_def s None)
    next
      case (Inr res)
      then show ?thesis using assms
        by (cases "oc_info c1") (auto simp: stage_agents_def Let_def s None update_agents_limit
            split: sum.split_asm if_split_asm)
    qed
  qed (use assms in \<open>simp add: stage_agents_def Let_def s\<close>)
  then show ?thesis
  proof
    assume "c' = c1"
    then show ?thesis using f by simp
  next
    assume "\<exists>g g'. oc_info c1 = Some g \<and> c' = c1\<lparr>oc_info := Some g'\<rparr> \<and> max_payload g' = max_payload g"
    then obtain g g' where g: "oc_info c1 = Some g" "c' = c1\<lparr>oc_info := Some g'\<rparr>" "max_payload g' = max_payload g"
      by blast
    have "client_frame c c'" "no_tasks c' = no_tasks c1" "oc_max_size c' = oc_max_size c1"
      "oc_info c' = Some g'"
      using f by (simp_all add: g(2) client_frame_def no_tasks_def)
    then show ?thesis using f g(1,3) by metis
  qed
qed

lemma subscribe_frame:
  "stage_subscribe w c = (e, c') \<Longrightarrow>
   client_frame c c' \<and> oc_info c' = oc_info c \<and> oc_max_size c' = oc_max_size c \<and>
   (if e = None then oc_listener c' \<and> oc_keepalive c' else no_tasks c' = no_tasks c)"
  by (cases "snd (snd (ce_sends w))"; cases "ce_sub_ack w")
     (auto simp: stage_subscribe_def oc_send_def client_frame_def no_tasks_def)


lemma do_connect_spec:
  assumes "do_connect w c = (e, c')" "no_tasks c" "\<not> oc_ws c"
  shows "oc_disp c' = oc_disp c \<and> oc_health c' = oc_health c \<and>
    (if e = None
     then oc_ws c' \<and> oc_listener c' \<and> oc_keepalive c' \<and>
          (\<exists>g. oc_info c' = Some g \<and> (ce_has_protocol w \<longrightarrow> oc_max_size c' = frame_limit (max_payload g)))
     else \<not> oc_ws c' \<and> no_tasks c')"
proof (cases "ce_open w")
  case None
  define previous where "previous = (case oc_info c of None \<Rightarrow> [] | Some g \<Rightarrow> agents g)"
  define limit where "limit = frame_limit (case oc_info c of None \<Rightarrow> JNull | Some g \<Rightarrow> max_payload g)"
  define c0 where "c0 = c\<lparr>oc_ws := True, oc_max_size := limit\<rparr>"
  have c0: "no_tasks c0" "oc_disp c0 = oc_disp c" "oc_health c0 = oc_health c" "oc_ws c0" "oc_max_size c0 = limit"
    using assms(2) by (simp_all add: c0_def no_tasks_def)
  obtain e1 c1 where 1: "stage_challenge w c0 = (e1, c1)" by fastforce
  obtain e2 c2 where 2: "stage_hello w limit c1 = (e2, c2)" by fastforce
  obtain e3 c3 where 3: "stage_agents w previous c2 = (e3, c3)" by fastforce
  obtain e4 c4 where 4: "stage_subscribe w c3 = (e4, c4)" by fastforce
  note f1 = challenge_frame[OF 1] and f2 = hello_frame[OF 2] and f3 = agents_frame[OF 3] and f4 = subscribe_frame[OF 4]
  have fr: "client_frame c0 c1" "client_frame c0 c2" "client_frame c0 c3" "client_frame c0 c4"
    using f1 f2 f3 f4 client_frame_trans by blast+
  have nt: "no_tasks c1" "no_tasks c2" "no_tasks c3" "e4 \<noteq> None \<Longrightarrow> no_tasks c4"
    using f1 f2 f3 f4 c0(1) by (simp_all split: if_splits)
  have run: "(e, c') = (if e1 \<noteq> None then (e1, c1\<lparr>oc_ws := False\<rparr>) else if e2 \<noteq> None then (e2, c2\<lparr>oc_ws := False\<rparr>)
      else if e3 \<noteq> None then (e3, c3\<lparr>oc_ws := False\<rparr>) else if e4 \<noteq> None then (e4, c4\<lparr>oc_ws := False\<rparr>) else (None, c4))"
    using assms(1) None 1 2 3 4
    by (auto simp: do_connect_def Let_def previous_def limit_def c0_def split: option.splits)
  show ?thesis
  proof (cases "e = None")
    case False
    then show ?thesis using run fr nt c0
      by (auto simp: client_frame_def no_tasks_def split: if_splits)
  next
    case True
    then have c': "c' = c4" and n: "e2 = None" "e4 = None"
      using run by (auto split: if_splits)
    obtain g where g: "oc_info c2 = Some g"
      "c2 = apply_frame_limit (ce_has_protocol w) (max_payload g) limit (c1\<lparr>oc_info := Some g\<rparr>)"
      using f2 n(1) by auto
    have "oc_max_size c1 = limit" using f1 c0(5) by simp
    then have m: "ce_has_protocol w \<longrightarrow> oc_max_size c2 = frame_limit (max_payload g)"
      unfolding g(2) by (auto simp: apply_frame_limit_def Let_def)
    obtain g' where "oc_info c3 = Some g'" "max_payload g' = max_payload g"
      using f3 g(1) by auto
    then have "\<exists>g. oc_info c4 = Some g \<and> (ce_has_protocol w \<longrightarrow> oc_max_size c4 = frame_limit (max_payload g))"
      using f3 f4 m by auto
    then show ?thesis using True c' n fr(4) c0 f4 by (auto simp: client_frame_def)
  qed
next
  case (Some x)
  then have "e = Some x" "c' = c" using assms(1) by (auto simp: do_connect_def Let_def)
  then show ?thesis using assms by simp
qed

lemma abort_drain_exact:
  "\<forall>it\<in>set pre. (case it of ItTool _ \<Rightarrow> True | ItChat d \<Rightarrow> \<not> is_terminal_state (dget d ''state'') | _ \<Rightarrow> False) \<Longrightarrow>
   is_terminal_state (dget data ''state'') \<Longrightarrow>
   abort_drain (map GotItem pre @ GotItem (ItChat data) # rest) = (Suc (length pre), None)"
  by (induction pre) (auto split: turn_item.splits)

lemma abort_drain_exn: "snd (abort_drain ins) \<in> {None, Some TimeoutError, Some CancelledError}"
  by (induction ins rule: abort_drain.induct) (auto split: turn_item.splits prod.splits)

lemma set_registry_simps [simp]:
  "oc_registry (oc_set_registry r c) = r" "oc_ws (oc_set_registry r c) = oc_ws c"
  "oc_health (oc_set_registry r c) = oc_health c"
  by (simp_all add: oc_registry_def oc_set_registry_def)

lemma oc_registry_upd [simp]:
  "oc_registry (c\<lparr>oc_health := h\<rparr>) = oc_registry c" "oc_registry (c\<lparr>oc_written := l\<rparr>) = oc_registry c"
  by (simp_all add: oc_registry_def)

lemma handle_raw_frame_safe:
  assumes "reg_inv (oc_registry c)"
  shows "reg_inv (oc_registry (snd (handle_raw_frame now raw c))) \<and>
    same_owners (oc_disp c) (oc_disp (snd (handle_raw_frame now raw c)))"
  using assms dispatch_safe[of "oc_disp c" now]
  by (auto simp: handle_raw_frame_def oc_registry_def Let_def same_owners_refl
      split: option.splits json.splits prod.splits)

lemma listen_frames_safe:
  "reg_inv (oc_registry c) \<Longrightarrow>
   reg_inv (oc_registry (listen_frames fs c)) \<and> same_owners (oc_disp c) (oc_disp (listen_frames fs c))"
proof (induction fs arbitrary: c)
  case (Cons f fs)
  obtain now raw where f: "f = (now, raw)" by fastforce
  define c1 where "c1 = snd (handle_raw_frame now raw c)"
  have s: "reg_inv (oc_registry c1)" "same_owners (oc_disp c) (oc_disp c1)"
    using handle_raw_frame_safe[OF Cons.prems] by (auto simp: c1_def)
  then show ?case
    using Cons.IH[OF s(1)] by (auto simp: listen_frames_def f c1_def[symmetric] intro: same_owners_trans)
qed (simp add: listen_frames_def same_owners_refl)

section \<open>Properties\<close>


text \<open>
  However the listener ends (clean close, error or cancellation) and whatever frames it got,
  malformed ones included, every turn in flight finds the fixed \<open>orchestrator_disconnected\<close> error at
  the end of its queue and its session key is free again; \<open>on_disconnect\<close>, which starts the
  reconnection, is called unless the task was cancelled (G-04, 103).
\<close>

theorem listener_end_frees_every_turn:
  assumes "reg_inv (oc_registry c)" "session_queue sk (oc_registry c) = Some q"
    and "oc_listen fs how hook c = (called, e, c')"
  shows "(\<exists>ys. items (heap (oc_registry c') q) = ys @ [ItError ORCHESTRATOR_DISCONNECTED_ERROR]) \<and>
         session_queue sk (oc_registry c') = None \<and>
         e \<in> {None, Some CancelledError} \<and> (called \<longleftrightarrow> hook \<and> e = None)"
proof -
  define c1 where "c1 = (if oc_ws c then listen_frames fs c else c)"
  have r: "reg_inv (oc_registry c1)" "session_queue sk (oc_registry c1) = Some q"
    using listen_frames_safe[OF assms(1), of fs] assms(1,2)
    by (auto simp: c1_def same_owners_def oc_registry_def)
  have c': "oc_registry c' = error_all ORCHESTRATOR_DISCONNECTED_ERROR (oc_registry c1)"
    and k: "e \<in> {None, Some CancelledError}" "called \<longleftrightarrow> hook \<and> e = None"
    using assms(3) by (auto simp: oc_listen_def c1_def Let_def split: if_splits)
  have "session_queue sk (error_all m rg) = None" for m rg
    by (simp add: error_all_def session_queue_def)
  then show ?thesis
    using error_all_reaches_everyone[OF r, of ORCHESTRATOR_DISCONNECTED_ERROR] k by (auto simp: c')
qed

text \<open>
  \<open>abort\<close> is best effort and leaves nothing behind: it raises nothing but a cancellation, and
  however its write, its response and its wait end, the session key it held is free again and its
  response future is gone; it never touches a key that a normal turn owns (G-14).
\<close>

theorem abort_leaves_no_trace:
  assumes "oc_abort rid sk so res ins env c = (e, n, c')"
    and "\<And>x. session_owner (oc_registry (env x)) = session_owner (oc_registry x)"
  shows "e \<in> {None, Some CancelledError} \<and>
    (oc_ws c \<and> session_queue sk (oc_registry c) = None \<longrightarrow>
       session_queue sk (oc_registry c') = None \<and> rid \<notin> oc_health c') \<and>
    (session_queue sk (oc_registry c) \<noteq> None \<longrightarrow> c' = c)"
proof (cases "oc_ws c \<and> session_queue sk (oc_registry c) = None")
  case True
  then obtain q r1 where reg: "register rid sk (oc_registry c) = Inr (q, r1)" and o: "session_owner r1 sk = Some rid"
    by (auto simp: register_def Let_def)
  define c1 where "c1 = (oc_set_registry r1 c)\<lparr>oc_health := insert rid (oc_health c)\<rparr>"
  obtain e1 c2 where s: "oc_send so (chat_abort rid sk) c1 = (e1, c2)" by fastforce
  have o2: "session_owner (oc_registry c2) sk = Some rid"
    using s o by (auto simp: oc_send_def c1_def split: option.splits)
  have o3: "session_owner (oc_registry (env c2)) sk = Some rid" using o2 assms(2) by simp
  have ex: "snd (abort_drain ins) \<in> {None, Some TimeoutError, Some CancelledError}" by (rule abort_drain_exn)
  show ?thesis
    using assms(1) True o2 o3 ex
    by (auto simp: oc_abort_def reg c1_def[symmetric] s unregister_session_queue Let_def is_Exception_def
        split: option.splits sum.splits json.splits if_splits prod.splits)
next
  case False
  then have "oc_abort rid sk so res ins env c = (None, 0, c)"
    by (auto simp: oc_abort_def register_def)
  then show ?thesis using assms(1) False by auto
qed



theorem listener_end_frees_every_turn_witness:
  "let r = foldl reg_step (new_turn_registry 4) [OpRegister ''q'' ''agent:main:c''];
       c = (new_openclaw \<lparr>turn_reg = r, client_reg = [], unknown_seen = {}, pushes = []\<rparr>)\<lparr>oc_ws := True\<rparr>;
       (called, e, c') = oc_listen [(0, None), (1, Some JNull)] ListenClosed True c in
   called \<and> session_queue ''agent:main:c'' (oc_registry c') = None"
proof -
  let ?r = "foldl reg_step (new_turn_registry 4) [OpRegister ''q'' ''agent:main:c'']"
  let ?c = "(new_openclaw \<lparr>turn_reg = ?r, client_reg = [], unknown_seen = {}, pushes = []\<rparr>)\<lparr>oc_ws := True\<rparr>"
  obtain called e c' where l: "oc_listen [(0, None), (1, Some JNull)] ListenClosed True ?c = (called, e, c')"
    by (metis surj_pair)
  have i: "reg_inv (oc_registry ?c)" "session_queue ''agent:main:c'' (oc_registry ?c) = Some 0"
    using reg_inv_run[OF reg_inv_new[of 4], of "[OpRegister ''q'' ''agent:main:c'']"]
    by (simp_all add: oc_registry_def new_openclaw_def register_def session_queue_def new_turn_registry_def Let_def)
  have "e = None" using l by (simp add: oc_listen_def Let_def)
  then show ?thesis using listener_end_frees_every_turn[OF i l] l by (simp add: Let_def)
qed

theorem abort_leaves_no_trace_witness:
  "let c = (new_openclaw \<lparr>turn_reg = new_turn_registry 4, client_reg = [], unknown_seen = {}, pushes = []\<rparr>)\<lparr>oc_ws := True\<rparr>;
       (e, n, c') = oc_abort ''r'' ''k'' None (Inl TimeoutError) [] (\<lambda>x. x) c in
   e \<in> {None, Some CancelledError} \<and> session_queue ''k'' (oc_registry c') = None"
proof -
  let ?c = "(new_openclaw \<lparr>turn_reg = new_turn_registry 4, client_reg = [], unknown_seen = {}, pushes = []\<rparr>)\<lparr>oc_ws := True\<rparr>"
  obtain e n c' where a: "oc_abort ''r'' ''k'' None (Inl TimeoutError) [] (\<lambda>x. x) ?c = (e, n, c')"
    by (metis surj_pair)
  have "oc_ws ?c \<and> session_queue ''k'' (oc_registry ?c) = None"
    by (simp add: oc_registry_def new_openclaw_def session_queue_def new_turn_registry_def)
  then show ?thesis using abort_leaves_no_trace[OF a] a by simp
qed

section \<open>The roster fallback\<close>

text \<open>
  The last known roster survives only a rejected \<open>agents.list\<close>. When \<open>agents.list\<close> gets no answer
  the connect fails after \<open>gateway_info\<close> was rebuilt, so the next connect has no roster to fall
  back to: a rejected \<open>agents.list\<close> then leaves the empty one.
\<close>

definition roster_env :: "(time \<times> rx) list \<Rightarrow> connect_env" where
  "roster_env rxs =
     \<lparr>ce_open = None, ce_token = ''t'', ce_ids = (''1'', ''2'', ''3''),
      ce_challenge = RxRaw (Some (JObj [(''event'', JStr ''connect.challenge'')])),
      ce_sends = (None, None, None), ce_hello = RxRaw (Some (JObj [(''ok'', JBool True)])),
      ce_has_protocol = True, ce_agents_start = 0, ce_agents = rxs, ce_sub_ack = RxRaw None\<rparr>"

lemmas roster_defs = roster_env_def do_connect_def stage_challenge_def stage_hello_def stage_agents_def
  stage_subscribe_def parse_handshake_frame_def oc_send_def from_hello_ok_def jget_or_def
  apply_frame_limit_def dget_def dget_or_def

lemma roster_kept_on_rejection:
  "oc_info c = Some g \<Longrightarrow> agents g \<noteq> [] \<Longrightarrow>
   map_option agents (oc_info (snd (do_connect (roster_env
      [(0, RxRaw (Some (JObj [(''id'', JStr ''2''), (''ok'', JBool False)])))]) c))) = Some (agents g)"
  by (simp add: roster_defs Let_def)

lemma roster_lost_after_failed_connect:
  "oc_info c = Some g \<Longrightarrow>
   (let (e, c1) = do_connect (roster_env [(0, RxFail TimeoutError)]) c;
        (e2, c2) = do_connect (roster_env [(0, RxRaw (Some (JObj [(''id'', JStr ''2''), (''ok'', JBool False)])))]) c1
    in e = Some TimeoutError \<and> e2 = None \<and> map_option agents (oc_info c1) = Some [] \<and>
       map_option agents (oc_info c2) = Some [])"
  by (simp add: roster_defs Let_def)

end
