(* ===== verification/Reconnecting_Orchestrator.thy ===== *)
theory Reconnecting_Orchestrator
  imports Reconnection OpenClaw_Client
begin

text \<open>
  \<open>ReconnectingOpenClawClient\<close> (\<open>services/openclaw/reconnecting.py\<close>): a state machine whose steps are
  the calls of the gateway and the points at which its two background tasks (the fast reconnect
  loop, the slow retry loop) resume. The fast loop is \<open>reconnect_with_backoff\<close> (theory
  Reconnection); its attempts and its end appear here as the events by which it changes the health.
  Job ids are numbers, 0 is the empty string. A task that is cancelled is over.
\<close>

datatype slow_task = SlowNone | SlowSleeping | SlowConnecting | SlowDone

record orch =
  ro_health :: service_health
  ro_exhausted :: bool
  ro_closed :: bool
  ro_loop :: bool
  ro_job :: nat
  ro_next_job :: nat
  ro_slow :: slow_task
  ro_has_info :: bool

definition new_orch :: "string \<Rightarrow> orch" where
  "new_orch name =
     \<lparr>ro_health = new_health name DEGRADED, ro_exhausted = False, ro_closed = False, ro_loop = False,
      ro_job = 0, ro_next_job = 1, ro_slow = SlowNone, ro_has_info = False\<rparr>"

definition ro_state :: "orch \<Rightarrow> connection_state" where
  "ro_state s = hstate (ro_health s)"

definition ensure_reconnecting :: "orch \<Rightarrow> nat \<times> orch" where
  "ensure_reconnecting s =
     (if ro_exhausted s \<or> ro_closed s then (ro_job s, s)
      else if ro_loop s then (ro_job s, s)
      else (ro_next_job s,
            s\<lparr>ro_job := ro_next_job s, ro_next_job := Suc (ro_next_job s),
              ro_health := set_state RECONNECTING (ro_health s), ro_loop := True\<rparr>))"

definition start_slow_retry :: "orch \<Rightarrow> orch" where
  "start_slow_retry s =
     (if ro_closed s then s
      else if ro_slow s \<in> {SlowNone, SlowDone} then s\<lparr>ro_slow := SlowSleeping\<rparr> else s)"

definition cancel_slow_retry :: "orch \<Rightarrow> orch" where
  "cancel_slow_retry s = s\<lparr>ro_slow := SlowNone\<rparr>"

definition trigger_reconnect :: "orch \<Rightarrow> nat \<times> orch" where
  "trigger_reconnect s = ensure_reconnecting (cancel_slow_retry (s\<lparr>ro_exhausted := False\<rparr>))"

text \<open>\<open>connect()\<close>: the outcome of the inner connect (a \<open>CancelledError\<close> leaves it) and the time.\<close>

definition orch_connect :: "exn option \<Rightarrow> time \<Rightarrow> orch \<Rightarrow> exn option \<times> orch" where
  "orch_connect r now s =
     (case r of
        None \<Rightarrow> (None, s\<lparr>ro_has_info := True, ro_health := mark_connected now (ro_health s), ro_exhausted := False\<rparr>)
      | Some e \<Rightarrow>
          if is_Exception e
          then (None, snd (ensure_reconnecting (s\<lparr>ro_health := (ro_health s)\<lparr>last_error := Some (describe_error e)\<rparr>\<rparr>)))
          else (Some e, s))"

text \<open>The guard of \<open>ping()\<close> and of \<open>stream_response()\<close>: whether the call may go to the inner client.\<close>

definition orch_gate :: "orch \<Rightarrow> bool \<times> orch" where
  "orch_gate s =
     (if ro_state s \<noteq> CONNECTED
      then (False, if ro_state s = DEGRADED then snd (ensure_reconnecting s) else s)
      else (True, s))"

text \<open>
  \<open>stream_response()\<close> given what the inner generator does: an \<open>Exception\<close> of it becomes one more
  error event, a cancellation leaves.
\<close>

definition orch_stream ::
  "(turn_registry \<Rightarrow> turn_result) \<Rightarrow> turn_registry \<Rightarrow> orch \<Rightarrow> (orch_event list \<times> exn option \<times> turn_registry) \<times> orch" where
  "orch_stream inner r s =
     (let (go, s1) = orch_gate s in
      if \<not> go then (([EvError ORCHESTRATOR_UNAVAILABLE_ERROR], None, r), s1)
      else let res = inner r in
        case tr_exn res of
          None \<Rightarrow> ((tr_events res, None, tr_registry res), s1)
        | Some e \<Rightarrow>
            if is_Exception e
            then ((tr_events res @ [EvError ORCHESTRATOR_ERROR], None, tr_registry res), s1)
            else ((tr_events res, Some e, tr_registry res), s1))"

text \<open>
  \<open>close()\<close> cancels the slow retry first; the fast loop goes on until that one is over and only then
  is cancelled. The inner client is closed last (\<open>cancel_and_close\<close>).
\<close>

definition orch_close_begin :: "orch \<Rightarrow> orch" where
  "orch_close_begin s = s\<lparr>ro_closed := True, ro_slow := SlowNone\<rparr>"

definition orch_close_loop :: "orch \<Rightarrow> orch" where
  "orch_close_loop s = s\<lparr>ro_loop := False\<rparr>"

section \<open>The background tasks\<close>

definition loop_failed :: "exn \<Rightarrow> orch \<Rightarrow> orch" where
  "loop_failed e s = s\<lparr>ro_health := mark_attempt_failed (describe_error e) (ro_health s)\<rparr>"

definition loop_recovered :: "time \<Rightarrow> orch \<Rightarrow> orch" where
  "loop_recovered now s =
     s\<lparr>ro_has_info := True, ro_health := mark_connected now (ro_health s), ro_loop := False\<rparr>"

definition loop_exhausted :: "exn \<Rightarrow> orch \<Rightarrow> orch" where
  "loop_exhausted e s =
     start_slow_retry
       (s\<lparr>ro_health := set_state DEGRADED (mark_attempt_failed (describe_error e) (ro_health s)),
          ro_loop := False, ro_exhausted := True\<rparr>)"

text \<open>The slow loop after its sleep, and after its attempt; \<open>continue\<close> re-checks the loop condition.\<close>

definition slow_wake :: "orch \<Rightarrow> orch" where
  "slow_wake s = (if ro_exhausted s then s\<lparr>ro_slow := SlowConnecting\<rparr> else s\<lparr>ro_slow := SlowDone\<rparr>)"

definition slow_result :: "exn option \<Rightarrow> time \<Rightarrow> orch \<Rightarrow> orch" where
  "slow_result r now s =
     (case r of
        None \<Rightarrow> s\<lparr>ro_has_info := True, ro_health := mark_connected now (ro_health s), ro_exhausted := False,
                  ro_slow := SlowDone\<rparr>
      | Some e \<Rightarrow>
          if is_Exception e
          then s\<lparr>ro_health := mark_attempt_failed (describe_error e) (ro_health s),
                 ro_slow := (if ro_exhausted s then SlowSleeping else SlowDone)\<rparr>
          else s\<lparr>ro_slow := SlowDone\<rparr>)"

inductive orch_step :: "orch \<Rightarrow> orch \<Rightarrow> bool" where
  connect: "orch_step s (snd (orch_connect r now s))"
| gate: "orch_step s (snd (orch_gate s))"
| disconnect: "orch_step s (snd (ensure_reconnecting s))"
| trigger: "orch_step s (snd (trigger_reconnect s))"
| close: "orch_step s (orch_close_begin s)"
| close_loop: "ro_closed s \<Longrightarrow> orch_step s (orch_close_loop s)"
| attempt_failed: "ro_loop s \<Longrightarrow> e \<noteq> CancelledError \<Longrightarrow> orch_step s (loop_failed e s)"
| recovered: "ro_loop s \<Longrightarrow> orch_step s (loop_recovered now s)"
| exhausted: "ro_loop s \<Longrightarrow> e \<noteq> CancelledError \<Longrightarrow> orch_step s (loop_exhausted e s)"
| wake: "ro_slow s = SlowSleeping \<Longrightarrow> orch_step s (slow_wake s)"
| slow: "ro_slow s = SlowConnecting \<Longrightarrow> r \<noteq> Some CancelledError \<Longrightarrow> orch_step s (slow_result r now s)"

inductive_cases orch_stepE: "orch_step s s'"

inductive orch_reachable :: "string \<Rightarrow> orch \<Rightarrow> bool" for name where
  init: "orch_reachable name (new_orch name)"
| step: "orch_reachable name s \<Longrightarrow> orch_step s s' \<Longrightarrow> orch_reachable name s'"

section \<open>Invariant\<close>

definition slow_alive :: "orch \<Rightarrow> bool" where
  "slow_alive s \<longleftrightarrow> ro_slow s \<in> {SlowSleeping, SlowConnecting}"

definition orch_inv :: "orch \<Rightarrow> bool" where
  "orch_inv s \<longleftrightarrow>
     (ro_exhausted s \<longrightarrow> ro_state s = DEGRADED \<and> \<not> ro_loop s \<and> (slow_alive s \<or> ro_closed s)) \<and>
     (ro_state s = RECONNECTING \<longrightarrow> ro_loop s \<or> ro_closed s) \<and>
     (ro_state s = CONNECTED \<longrightarrow> ro_has_info s) \<and>
     (ro_exhausted s \<longrightarrow> ro_job s \<noteq> 0) \<and> (ro_loop s \<longrightarrow> ro_job s \<noteq> 0) \<and>
     ro_job s < ro_next_job s \<and>
     (ro_closed s \<longrightarrow> \<not> slow_alive s)"

lemma orch_inv_new: "orch_inv (new_orch name)"
  by (simp add: orch_inv_def new_orch_def ro_state_def new_health_def)

lemma ensure_inv: "orch_inv s \<Longrightarrow> orch_inv (snd (ensure_reconnecting s))"
  by (auto simp: orch_inv_def ensure_reconnecting_def ro_state_def slow_alive_def)

lemma orch_inv_step: "orch_step s s' \<Longrightarrow> orch_inv s \<Longrightarrow> orch_inv s'"
proof (induction rule: orch_step.induct)
  case (connect s r now)
  have "orch_inv (s\<lparr>ro_health := (ro_health s)\<lparr>last_error := x\<rparr>\<rparr>)" for x
    using connect by (simp add: orch_inv_def ro_state_def slow_alive_def)
  from ensure_inv[OF this] show ?case
    using connect by (auto simp: orch_connect_def split: option.splits)
      (auto simp: orch_inv_def ro_state_def slow_alive_def)
next
  case (gate s)
  then show ?case by (auto simp: orch_gate_def ensure_inv)
next
  case (trigger s)
  have "orch_inv (cancel_slow_retry (s\<lparr>ro_exhausted := False\<rparr>))"
    using trigger by (auto simp: orch_inv_def cancel_slow_retry_def ro_state_def slow_alive_def)
  then show ?case by (simp add: trigger_reconnect_def ensure_inv)
next
  case (disconnect s)
  then show ?case by (rule ensure_inv)
next
  case (exhausted s e)
  then show ?case
    by (cases "ro_slow s"; cases "ro_closed s")
       (simp_all add: orch_inv_def ro_state_def slow_alive_def loop_exhausted_def start_slow_retry_def)
next
  case (slow s r now)
  then show ?case
    by (cases r) (auto simp: orch_inv_def ro_state_def slow_alive_def slow_result_def is_Exception_def)
next
  case (recovered s now)
  then show ?case by (simp add: orch_inv_def ro_state_def slow_alive_def loop_recovered_def)
next
  case (attempt_failed s e)
  then show ?case by (simp add: orch_inv_def ro_state_def slow_alive_def loop_failed_def)
next
  case (wake s)
  then show ?case by (auto simp: orch_inv_def ro_state_def slow_alive_def slow_wake_def)
next
  case (close s)
  then show ?case by (simp add: orch_inv_def ro_state_def slow_alive_def orch_close_begin_def)
next
  case (close_loop s)
  then show ?case by (simp add: orch_inv_def ro_state_def slow_alive_def orch_close_loop_def)
qed

lemma orch_inv_reachable: "orch_reachable name s \<Longrightarrow> orch_inv s"
  by (induction rule: orch_reachable.induct) (auto intro: orch_inv_new orch_inv_step)

lemma closed_forever: "orch_step s s' \<Longrightarrow> ro_closed s \<Longrightarrow> ro_closed s'"
  by (induction rule: orch_step.induct)
     (auto simp: orch_connect_def orch_gate_def ensure_reconnecting_def trigger_reconnect_def
       cancel_slow_retry_def orch_close_begin_def orch_close_loop_def loop_failed_def loop_recovered_def
       loop_exhausted_def start_slow_retry_def slow_wake_def slow_result_def split: option.splits)


lemma orch_closed_step: "orch_step s s' \<Longrightarrow> ro_closed s \<Longrightarrow> ro_closed s' \<and> ro_job s' = ro_job s \<and> (ro_loop s' \<longrightarrow> ro_loop s)"
  by (induction rule: orch_step.induct)
     (auto simp: orch_connect_def orch_gate_def ensure_reconnecting_def trigger_reconnect_def
       cancel_slow_retry_def orch_close_begin_def orch_close_loop_def loop_failed_def loop_recovered_def
       loop_exhausted_def start_slow_retry_def slow_wake_def slow_result_def split: option.splits)

lemma loop_exn_open:
  "se_exn (stream_loop ins b tr) \<noteq> None \<Longrightarrow> \<forall>ev\<in>set (se_events (stream_loop ins b tr)). \<not> terminal ev"
proof (induction ins b tr rule: stream_loop.induct)
  case (4 it ins b tr)
  obtain x tr1 where it: "item_step it tr = (x, tr1)" by fastforce
  show ?case
  proof (cases x)
    case (Inl e)
    then show ?thesis using it by (simp add: stream_stop_def)
  next
    case (Inr p)
    obtain ys brk where p: "p = (ys, brk)" by fastforce
    note step = it[unfolded Inr p]
    obtain evs c b1 where ty: "take_yields b ys = (evs, c, b1)" by (metis surj_pair)
    have go: "c = None" "\<not> brk" "se_exn (stream_loop ins b1 tr1) \<noteq> None"
      using 4(2) step ty by (auto simp: stream_stop_def Let_def split: option.splits if_splits)
    have "\<forall>ev\<in>set (se_events (stream_loop ins b1 tr1)). \<not> terminal ev"
      using 4(1)[OF step[symmetric] refl refl ty[symmetric] refl go] .
    moreover have "\<forall>ev\<in>set evs. \<not> terminal ev"
      using take_yields_props(3)[OF ty go(1)] item_step_shape[OF step] go(2) by auto
    ultimately show ?thesis using step ty go by (auto simp: Let_def)
  qed
qed (auto simp: stream_stop_def)

lemma turn_exn_open:
  assumes "tr_exn (stream_response w ws txt sk b r) = Some e" "is_Exception e"
  shows "\<forall>ev\<in>set (tr_events (stream_response w ws txt sk b r)). \<not> terminal ev"
  using assms loop_exn_open[of "te_ins w" b new_tracker]
  by (auto simp: stream_response_def no_turn_def turn_finally_def Let_def
      split: sum.splits option.splits if_splits)

section \<open>Properties\<close>



text \<open>
  After \<open>close()\<close> nothing starts a reconnection again, whatever is called or happens later: no
  new job id is issued and the fast loop never runs again once it is cancelled (G-52).
\<close>

theorem close_is_final:
  assumes "orch_step\<^sup>*\<^sup>* s s'" "ro_closed s"
  shows "ro_closed s' \<and> ro_job s' = ro_job s \<and> (ro_loop s' \<longrightarrow> ro_loop s)"
  using assms by (induction rule: rtranclp_induct) (use orch_closed_step in auto)

theorem close_is_final_witness:
  "let s = orch_close_begin (new_orch ''o''); s' = snd (trigger_reconnect s) in
   ro_closed s' \<and> ro_job s' = 0 \<and> \<not> ro_loop s'"
  using close_is_final[of "orch_close_begin (new_orch ''o'')" "snd (trigger_reconnect (orch_close_begin (new_orch ''o'')))"]
    orch_step.trigger[of "orch_close_begin (new_orch ''o'')"]
  by (simp add: orch_close_begin_def new_orch_def Let_def r_into_rtranclp)

text \<open>
  Through the reconnecting client every turn ends visibly: unless the turn is cancelled, what
  the consumer sees is a sequence of tokens and tool calls followed by exactly one terminal event,
  whatever the state of the connection and whatever the inner generator raises.
\<close>

theorem wrapped_turn_ends_once:
  assumes "stable_errors (te_ins w)" "\<not> tr_waiting (stream_response w ws txt sk None r)"
    and "orch_stream (stream_response w ws txt sk None) r s = ((evs, e, r'), s')" "e = None"
  shows "evs \<noteq> [] \<and> terminal (last evs) \<and> (\<forall>ev\<in>set (butlast evs). \<not> terminal ev)"
proof -
  note sh = turn_shape[OF assms(1), of ws "txt" sk None r]
  show ?thesis
    using assms(2-4) sh turn_exn_open[of w ws "txt" sk None r]
    by (auto simp: orch_stream_def Let_def split: prod.splits if_splits option.splits)
qed

theorem wrapped_turn_ends_once_witness:
  "let w = \<lparr>te_req_id = ''r1'', te_idempotency = ''i'', te_abort_id = ''a'', te_send = None,
            te_ins = [GetTimeout], te_env = (\<lambda>r. r), te_ws_after = True, te_abort_send = None\<rparr>;
       ((evs, e, r'), s') = orch_stream (stream_response w True ''q'' ''k'' None) (new_turn_registry 4) (new_orch ''o'')
   in evs = [EvError ORCHESTRATOR_UNAVAILABLE_ERROR] \<and> terminal (last evs)"
proof -
  let ?w = "\<lparr>te_req_id = ''r1'', te_idempotency = ''i'', te_abort_id = ''a'', te_send = None,
            te_ins = [GetTimeout], te_env = (\<lambda>r. r), te_ws_after = True, te_abort_send = None\<rparr>"
  have w: "\<not> tr_waiting (stream_response ?w True ''q'' ''k'' None (new_turn_registry 4))"
    by (simp add: stream_response_def register_def session_queue_def new_turn_registry_def stream_stop_def Let_def)
  have s: "stable_errors (te_ins ?w)" by (simp add: stable_errors_def)
  obtain r' s' where o: "orch_stream (stream_response ?w True ''q'' ''k'' None) (new_turn_registry 4) (new_orch ''o'') =
      (([EvError ORCHESTRATOR_UNAVAILABLE_ERROR], None, r'), s')"
    by (simp add: orch_stream_def orch_gate_def new_orch_def ro_state_def new_health_def)
  show ?thesis using wrapped_turn_ends_once[OF s w o refl] o by simp
qed

end
