(* ===== verification/Outbound.thy ===== *)
theory Outbound
  imports Prelude "HOL-Library.Word"
begin

text \<open>
  \<open>services/outbound.py\<close>: the single outbound path to a client WebSocket. The writer task is
  interleaved with the producers, so its write is split at the await: \<open>writer_begin\<close> takes the
  next item off the queue, \<open>writer_finish\<close> is the completion of the socket write, with its
  outcome as an argument. \<open>written\<close> is what reached the socket, \<open>futures\<close> the state of the futures
  of the pending \<open>flush()\<close> calls. The locale \<open>message_sink\<close> is the contract of the producers.
\<close>

type_synonym bytes = "8 word list"

datatype out_msg = MJson json | MBytes bytes

datatype out_item = OutMsg out_msg | OutFlush nat | OutStop

datatype future = FutPending | FutDone | FutFailed exn

datatype writer_phase = WriterIdle | WriterSending out_msg | WriterInSlow | WriterDone

datatype write_outcome = WriteOk | WriteTimeout | WriteError exn

record sender =
  out_queue :: "out_item list"
  failure :: "exn option"
  closing :: bool
  writer :: writer_phase
  has_on_slow :: bool
  pending_msgs :: int
  pending_bytes :: int
  peak_msgs :: int
  peak_bytes :: int
  written :: "out_msg list"
  futures :: "nat \<Rightarrow> future option"
  next_future :: nat
  slow_calls :: nat

definition new_sender :: "bool \<Rightarrow> sender" where
  "new_sender on_slow =
     \<lparr>out_queue = [], failure = None, closing = False, writer = WriterIdle, has_on_slow = on_slow,
      pending_msgs = 0, pending_bytes = 0, peak_msgs = 0, peak_bytes = 0, written = [],
      futures = (\<lambda>_. None), next_future = 0, slow_calls = 0\<rparr>"

definition msg_bytes :: "out_msg \<Rightarrow> int" where
  "msg_bytes m = (case m of MJson _ \<Rightarrow> 0 | MBytes b \<Rightarrow> int (length b))"

definition sender_open :: "sender \<Rightarrow> bool" where
  "sender_open s \<longleftrightarrow> \<not> (failure s \<noteq> None \<or> closing s \<or> writer s = WriterDone)"

definition count_in :: "int \<Rightarrow> sender \<Rightarrow> sender" where
  "count_in nbytes s =
     (let s1 = s\<lparr>pending_msgs := pending_msgs s + 1, pending_bytes := pending_bytes s + nbytes\<rparr> in
      s1\<lparr>peak_msgs := max (peak_msgs s) (pending_msgs s1),
         peak_bytes := max (peak_bytes s) (pending_bytes s1)\<rparr>)"

definition count_out :: "out_msg \<Rightarrow> sender \<Rightarrow> sender" where
  "count_out m s = s\<lparr>pending_msgs := pending_msgs s - 1, pending_bytes := pending_bytes s - msg_bytes m\<rparr>"

text \<open>\<open>send_json\<close> and \<open>send_bytes\<close>; neither suspends.\<close>

definition send_msg :: "out_msg \<Rightarrow> sender \<Rightarrow> exn + sender" where
  "send_msg m s =
     (if \<not> sender_open s then Inl ClientGone
      else Inr (count_in (msg_bytes m) (s\<lparr>out_queue := out_queue s @ [OutMsg m]\<rparr>)))"

definition send_json :: "json \<Rightarrow> sender \<Rightarrow> exn + sender" where
  "send_json payload s = send_msg (MJson payload) s"

definition send_bytes :: "bytes \<Rightarrow> sender \<Rightarrow> exn + sender" where
  "send_bytes data s = send_msg (MBytes data) s"

definition queue_stats :: "sender \<Rightarrow> int \<times> int \<times> int \<times> int" where
  "queue_stats s = (pending_msgs s, pending_bytes s, peak_msgs s, peak_bytes s)"

text \<open>\<open>flush()\<close> up to its await; the result is the future it waits for.\<close>

definition flush_begin :: "sender \<Rightarrow> exn + (nat \<times> sender)" where
  "flush_begin s =
     (if \<not> sender_open s then Inl ClientGone
      else let f = next_future s in
        Inr (f, s\<lparr>next_future := Suc f, futures := (futures s)(f \<mapsto> FutPending),
                  out_queue := out_queue s @ [OutFlush f]\<rparr>))"

fun discard_items :: "out_item list \<Rightarrow> sender \<Rightarrow> sender" where
  "discard_items [] s = s"
| "discard_items (OutMsg m # xs) s = discard_items xs (count_out m s)"
| "discard_items (OutFlush f # xs) s =
     discard_items xs (if futures s f = Some FutPending
                       then s\<lparr>futures := (futures s)(f \<mapsto> FutFailed ClientGone)\<rparr> else s)"
| "discard_items (OutStop # xs) s = discard_items xs s"

definition discard_pending :: "sender \<Rightarrow> sender" where
  "discard_pending s = (discard_items (out_queue s) s)\<lparr>out_queue := []\<rparr>"

definition writer_begin :: "sender \<Rightarrow> sender" where
  "writer_begin s =
     (case (writer s, out_queue s) of
        (WriterIdle, OutStop # rest) \<Rightarrow> s\<lparr>out_queue := rest, writer := WriterDone\<rparr>
      | (WriterIdle, OutFlush f # rest) \<Rightarrow>
          (let s1 = s\<lparr>out_queue := rest\<rparr> in
           if futures s f = Some FutPending then s1\<lparr>futures := (futures s)(f \<mapsto> FutDone)\<rparr> else s1)
      | (WriterIdle, OutMsg m # rest) \<Rightarrow>
          count_out m (s\<lparr>out_queue := rest, writer := WriterSending m\<rparr>)
      | _ \<Rightarrow> s)"

definition fail_slow :: "sender \<Rightarrow> sender" where
  "fail_slow s =
     (let s1 = discard_pending (s\<lparr>failure := Some ClientSlow\<rparr>) in
      if has_on_slow s then s1\<lparr>slow_calls := Suc (slow_calls s), writer := WriterInSlow\<rparr>
      else s1\<lparr>writer := WriterDone\<rparr>)"

definition writer_finish :: "write_outcome \<Rightarrow> sender \<Rightarrow> sender" where
  "writer_finish r s =
     (case writer s of
        WriterSending m \<Rightarrow>
          (case r of
             WriteOk \<Rightarrow> s\<lparr>written := written s @ [m], writer := WriterIdle\<rparr>
           | WriteTimeout \<Rightarrow> fail_slow s
           | WriteError e \<Rightarrow> discard_pending (s\<lparr>failure := Some e, writer := WriterDone\<rparr>))
      | _ \<Rightarrow> s)"

text \<open>\<open>on_slow()\<close> returned (or raised, which is only logged).\<close>

definition slow_finish :: "sender \<Rightarrow> sender" where
  "slow_finish s = (if writer s = WriterInSlow then s\<lparr>writer := WriterDone\<rparr> else s)"

definition aclose_begin :: "sender \<Rightarrow> sender" where
  "aclose_begin s =
     (let s1 = s\<lparr>closing := True\<rparr> in
      if writer s = WriterDone then s1 else s1\<lparr>out_queue := out_queue s @ [OutStop]\<rparr>)"

text \<open>
  The end of \<open>aclose\<close>'s wait: the writer finished, or the timeout (or a cancellation of the
  caller) cancelled it and \<open>wait_for\<close> waited for its end; the \<open>finally\<close> always discards.
\<close>

definition aclose_end :: "sender \<Rightarrow> sender" where
  "aclose_end s = discard_pending (s\<lparr>writer := WriterDone\<rparr>)"

text \<open>A caller of \<open>flush()\<close> that is cancelled cancels its future.\<close>

definition flush_cancel :: "nat \<Rightarrow> sender \<Rightarrow> sender" where
  "flush_cancel f s =
     (if futures s f = Some FutPending then s\<lparr>futures := (futures s)(f \<mapsto> FutFailed CancelledError)\<rparr>
      else s)"

section \<open>Runs\<close>

datatype sender_op =
    DoSend out_msg
  | DoFlush
  | WBegin
  | WFinish write_outcome
  | SlowFinish
  | CloseBegin
  | CloseEnd
  | CancelFlush nat

fun sender_step :: "sender \<Rightarrow> sender_op \<Rightarrow> sender" where
  "sender_step s (DoSend m) = (case send_msg m s of Inl _ \<Rightarrow> s | Inr s' \<Rightarrow> s')"
| "sender_step s DoFlush = (case flush_begin s of Inl _ \<Rightarrow> s | Inr (_, s') \<Rightarrow> s')"
| "sender_step s WBegin = writer_begin s"
| "sender_step s (WFinish r) = writer_finish r s"
| "sender_step s SlowFinish = slow_finish s"
| "sender_step s CloseBegin = aclose_begin s"
| "sender_step s CloseEnd = (if closing s then aclose_end s else s)"
| "sender_step s (CancelFlush f) = flush_cancel f s"

definition sender_run :: "sender \<Rightarrow> sender_op list \<Rightarrow> sender" where
  "sender_run = foldl sender_step"

text \<open>The messages whose \<open>send\<close> returned normally along a run, in order.\<close>

fun accepted :: "sender \<Rightarrow> sender_op list \<Rightarrow> out_msg list" where
  "accepted s [] = []"
| "accepted s (DoSend m # ops) =
     (if sender_open s then m # accepted (sender_step s (DoSend m)) ops
      else accepted (sender_step s (DoSend m)) ops)"
| "accepted s (a # ops) = accepted (sender_step s a) ops"

section \<open>Invariants\<close>

fun queued_msgs :: "out_item list \<Rightarrow> out_msg list" where
  "queued_msgs [] = []"
| "queued_msgs (OutMsg m # xs) = m # queued_msgs xs"
| "queued_msgs (_ # xs) = queued_msgs xs"

definition in_flight :: "sender \<Rightarrow> out_msg list" where
  "in_flight s = (case writer s of WriterSending m \<Rightarrow> [m] | _ \<Rightarrow> [])"

text \<open>What has been accepted and not discarded, in the order it reaches the socket.\<close>

definition out_log :: "sender \<Rightarrow> out_msg list" where
  "out_log s = written s @ in_flight s @ queued_msgs (out_queue s)"

lemma queued_msgs_append [simp]: "queued_msgs (xs @ ys) = queued_msgs xs @ queued_msgs ys"
  by (induction xs rule: queued_msgs.induct) auto

definition counters_ok :: "sender \<Rightarrow> bool" where
  "counters_ok s \<longleftrightarrow>
     pending_msgs s = int (length (queued_msgs (out_queue s))) \<and>
     pending_bytes s = sum_list (map msg_bytes (queued_msgs (out_queue s))) \<and>
     pending_msgs s \<le> peak_msgs s \<and> pending_bytes s \<le> peak_bytes s"

lemma msg_bytes_nonneg [simp]: "0 \<le> msg_bytes m"
  by (simp add: msg_bytes_def split: out_msg.splits)

lemma discard_items_frame [simp]:
  "written (discard_items xs s) = written s" "writer (discard_items xs s) = writer s"
  "failure (discard_items xs s) = failure s" "closing (discard_items xs s) = closing s"
  "slow_calls (discard_items xs s) = slow_calls s" "has_on_slow (discard_items xs s) = has_on_slow s"
  "peak_msgs (discard_items xs s) = peak_msgs s" "peak_bytes (discard_items xs s) = peak_bytes s"
  "next_future (discard_items xs s) = next_future s"
  by (induction xs s rule: discard_items.induct) (auto simp: count_out_def)

lemma discard_items_counters:
  "pending_msgs (discard_items xs s) = pending_msgs s - int (length (queued_msgs xs))"
  "pending_bytes (discard_items xs s) = pending_bytes s - sum_list (map msg_bytes (queued_msgs xs))"
  by (induction xs s rule: discard_items.induct) (auto simp: count_out_def)

lemma discard_pending_frame [simp]:
  "written (discard_pending s) = written s" "writer (discard_pending s) = writer s"
  "failure (discard_pending s) = failure s" "closing (discard_pending s) = closing s"
  "slow_calls (discard_pending s) = slow_calls s" "has_on_slow (discard_pending s) = has_on_slow s"
  "out_queue (discard_pending s) = []"
  by (simp_all add: discard_pending_def)

lemma sum_msg_bytes_nonneg [simp]: "0 \<le> sum_list (map msg_bytes ms)"
  by (induction ms) auto

lemma counters_discard:
  assumes c: "counters_ok s"
  shows "counters_ok (discard_pending s)"
proof -
  have "0 \<le> sum_list (map msg_bytes (queued_msgs (out_queue s)))"
    by (rule sum_msg_bytes_nonneg)
  then have "0 \<le> peak_bytes s" "0 \<le> peak_msgs s"
    using c unfolding counters_ok_def by linarith+
  then show ?thesis
    using c by (simp add: counters_ok_def discard_pending_def discard_items_counters)
qed

lemma counters_upd:
  "counters_ok (s\<lparr>writer := w\<rparr>) = counters_ok s" "counters_ok (s\<lparr>failure := f\<rparr>) = counters_ok s"
  "counters_ok (s\<lparr>closing := c\<rparr>) = counters_ok s" "counters_ok (s\<lparr>written := ws\<rparr>) = counters_ok s"
  "counters_ok (s\<lparr>slow_calls := n\<rparr>) = counters_ok s" "counters_ok (s\<lparr>futures := fs\<rparr>) = counters_ok s"
  by (simp_all add: counters_ok_def)

lemma counters_step: "counters_ok s \<Longrightarrow> counters_ok (sender_step s a)"
proof (cases a)
  case WBegin
  assume c: "counters_ok s"
  show ?thesis
  proof (cases "writer s = WriterIdle \<and> out_queue s \<noteq> []")
    case True
    then obtain x rest where q: "writer s = WriterIdle" "out_queue s = x # rest"
      by (cases "out_queue s") auto
    then show ?thesis using c WBegin
      by (cases x) (auto simp: writer_begin_def counters_ok_def count_out_def msg_bytes_def
          Let_def split: out_msg.splits)
  next
    case False
    then have "writer_begin s = s"
      by (auto simp: writer_begin_def split: writer_phase.splits list.splits)
    then show ?thesis using c WBegin by simp
  qed
next
  case (WFinish r)
  assume c: "counters_ok s"
  then show ?thesis using WFinish
    by (auto simp: writer_finish_def fail_slow_def Let_def counters_upd intro!: counters_discard
        split: writer_phase.splits write_outcome.splits)
next
  case CloseEnd
  assume "counters_ok s"
  then show ?thesis using CloseEnd
    by (auto simp: aclose_end_def counters_upd intro!: counters_discard)
qed (auto simp: send_msg_def flush_begin_def slow_finish_def aclose_begin_def counters_ok_def
      flush_cancel_def count_in_def Let_def msg_bytes_def split: sum.splits if_splits out_msg.splits)

lemma counters_run: "counters_ok s \<Longrightarrow> counters_ok (sender_run s ops)"
  unfolding sender_run_def by (rule foldl_invariant) (auto intro: counters_step)

text \<open>
  \<open>L\<close> is what has been accepted so far: the log is \<open>L\<close>, or it is a prefix of it after a discard,
  and then nothing is queued or accepted any more.
\<close>

definition step_accepts :: "sender \<Rightarrow> sender_op \<Rightarrow> out_msg list" where
  "step_accepts s a = (case a of DoSend m \<Rightarrow> if sender_open s then [m] else [] | _ \<Rightarrow> [])"

definition log_inv :: "bool \<Rightarrow> out_msg list \<Rightarrow> sender \<Rightarrow> bool" where
  "log_inv ended L s \<longleftrightarrow>
     prefix (out_log s) L \<and>
     (out_log s = L \<or>
      (queued_msgs (out_queue s) = [] \<and> \<not> sender_open s \<and> (failure s \<noteq> None \<or> ended)))"

lemma accepted_Cons: "accepted s (a # ops) = step_accepts s a @ accepted (sender_step s a) ops"
  by (cases a) (simp_all add: step_accepts_def)

lemma out_log_upd [simp]:
  "out_log (s\<lparr>failure := x\<rparr>) = out_log s" "out_log (s\<lparr>closing := c\<rparr>) = out_log s"
  "out_log (s\<lparr>futures := fs\<rparr>) = out_log s" "out_log (s\<lparr>slow_calls := n\<rparr>) = out_log s"
  "out_log (count_in n s) = out_log s" "out_log (count_out m s) = out_log s"
  by (simp_all add: out_log_def in_flight_def count_in_def count_out_def Let_def)

lemma log_inv_same:
  "log_inv e L s \<Longrightarrow> out_log s' = out_log s \<Longrightarrow> queued_msgs (out_queue s') = queued_msgs (out_queue s) \<Longrightarrow>
   (sender_open s' \<longrightarrow> sender_open s) \<Longrightarrow> (failure s \<noteq> None \<longrightarrow> failure s' \<noteq> None) \<Longrightarrow> (e \<longrightarrow> e') \<Longrightarrow>
   log_inv e' L s'"
  unfolding log_inv_def by metis

lemma log_inv_WBegin: "log_inv e L s \<Longrightarrow> log_inv e L (writer_begin s)"
proof (cases "writer s = WriterIdle \<and> out_queue s \<noteq> []")
  case True
  assume i: "log_inv e L s"
  from True obtain x rest where q: "writer s = WriterIdle" "out_queue s = x # rest"
    by (cases "out_queue s") auto
  then show ?thesis using i
    by (cases x) (auto simp: log_inv_def writer_begin_def out_log_def in_flight_def count_out_def
        sender_open_def Let_def)
next
  case False
  then have "writer_begin s = s"
    by (auto simp: writer_begin_def split: writer_phase.splits list.splits)
  then show "log_inv e L s \<Longrightarrow> ?thesis" by simp
qed

lemma log_inv_cut:
  assumes "log_inv e L s" "prefix (out_log s') (written s @ in_flight s)"
    and "out_queue s' = []" "\<not> sender_open s'" "failure s' \<noteq> None \<or> e'"
  shows "log_inv e' L s'"
proof -
  have "prefix (written s @ in_flight s) (out_log s)"
    by (simp add: out_log_def)
  then have "prefix (out_log s') L"
    using assms(1,2) unfolding log_inv_def by (meson prefix_order.trans)
  then show ?thesis using assms(3-5) by (simp add: log_inv_def)
qed

lemma log_inv_WFinish: "log_inv e L s \<Longrightarrow> log_inv e L (writer_finish r s)"
proof (cases "writer s")
  case (WriterSending m)
  assume i: "log_inv e L s"
  show ?thesis
  proof (cases r)
    case WriteOk
    then show ?thesis using i WriterSending
      by (simp add: log_inv_def writer_finish_def out_log_def in_flight_def sender_open_def)
  next
    case WriteTimeout
    then show ?thesis using WriterSending
      by (intro log_inv_cut[OF i])
         (auto simp: writer_finish_def fail_slow_def out_log_def in_flight_def sender_open_def Let_def)
  next
    case (WriteError x)
    then show ?thesis using WriterSending
      by (intro log_inv_cut[OF i])
         (auto simp: writer_finish_def out_log_def in_flight_def sender_open_def)
  qed
qed (simp_all add: writer_finish_def)

lemma log_inv_step:
  assumes i: "log_inv e L s"
  shows "log_inv (e \<or> a = CloseEnd) (L @ step_accepts s a) (sender_step s a)"
proof (cases a)
  case (DoSend m)
  then show ?thesis using i
    by (cases "sender_open s")
       (auto simp: log_inv_def send_msg_def step_accepts_def out_log_def in_flight_def sender_open_def
          count_in_def Let_def)
next
  case WBegin
  then show ?thesis using log_inv_WBegin[OF i] by (simp add: step_accepts_def)
next
  case (WFinish r)
  then show ?thesis using log_inv_WFinish[OF i] by (simp add: step_accepts_def)
next
  case CloseEnd
  show ?thesis
  proof (cases "closing s")
    case True
    let ?s' = "aclose_end s"
    have 1: "out_queue ?s' = []" "\<not> sender_open ?s'" "prefix (out_log ?s') (written s @ in_flight s)"
      by (simp_all add: aclose_end_def sender_open_def out_log_def in_flight_def)
    have "log_inv True L ?s'"
      by (rule log_inv_cut[OF i 1(3,1,2)]) simp
    then show ?thesis using CloseEnd True by (simp add: step_accepts_def)
  next
    case False
    then show ?thesis using CloseEnd log_inv_same[OF i, of s True]
      by (simp add: step_accepts_def)
  qed
next
  case DoFlush
  then show ?thesis
    by (auto simp: step_accepts_def flush_begin_def out_log_def in_flight_def sender_open_def Let_def
        intro!: log_inv_same[OF i])
next
  case SlowFinish
  then show ?thesis
    by (auto simp: step_accepts_def slow_finish_def out_log_def in_flight_def sender_open_def
        intro!: log_inv_same[OF i])
next
  case CloseBegin
  then show ?thesis
    by (auto simp: step_accepts_def aclose_begin_def out_log_def in_flight_def sender_open_def Let_def
        intro!: log_inv_same[OF i])
next
  case (CancelFlush f)
  then show ?thesis
    by (auto simp: step_accepts_def flush_cancel_def out_log_def in_flight_def sender_open_def
        intro!: log_inv_same[OF i])
qed

lemma log_inv_run:
  "log_inv e L s \<Longrightarrow> log_inv (e \<or> CloseEnd \<in> set ops) (L @ accepted s ops) (sender_run s ops)"
proof (induction ops arbitrary: e L s)
  case (Cons a ops)
  then show ?case
    using Cons.IH[OF log_inv_step[OF Cons.prems, of a]]
    by (simp add: sender_run_def accepted_Cons disj_assoc eq_commute[of CloseEnd] del: accepted.simps)
qed (simp add: sender_run_def)

lemma log_inv_new: "log_inv False [] (new_sender b)"
  by (simp add: log_inv_def new_sender_def out_log_def in_flight_def)

section \<open>Flush\<close>

text \<open>
  \<open>L\<close> is what had been accepted when \<open>flush()\<close> queued its marker \<open>f\<close>. Until the writer takes the
  marker, \<open>L\<close> is what is written, being written, or queued before the marker.
\<close>

definition flush_inv :: "nat \<Rightarrow> out_msg list \<Rightarrow> sender \<Rightarrow> bool" where
  "flush_inv f L s \<longleftrightarrow>
     f < next_future s \<and>
     ((OutFlush f \<in> set (out_queue s) \<and> futures s f = Some FutPending \<and>
       L = written s @ in_flight s @ queued_msgs (takeWhile (\<lambda>x. x \<noteq> OutFlush f) (out_queue s))) \<or>
      (futures s f = Some FutDone \<and> prefix L (written s)) \<or>
      (\<exists>e. futures s f = Some (FutFailed e)))"

lemma flush_inv_WBegin: "flush_inv f L s \<Longrightarrow> flush_inv f L (writer_begin s)"
proof (cases "writer s = WriterIdle \<and> out_queue s \<noteq> []")
  case True
  assume i: "flush_inv f L s"
  from True obtain x rest where q: "writer s = WriterIdle" "out_queue s = x # rest"
    by (cases "out_queue s") auto
  then show ?thesis using i
    by (cases x) (auto simp: flush_inv_def writer_begin_def in_flight_def count_out_def Let_def
        Cons_eq_append_conv)
next
  case False
  then have "writer_begin s = s"
    by (auto simp: writer_begin_def split: writer_phase.splits list.splits)
  then show "flush_inv f L s \<Longrightarrow> ?thesis" by simp
qed

lemma discard_items_futures:
  "futures (discard_items xs s) f =
     (if futures s f = Some FutPending \<and> OutFlush f \<in> set xs then Some (FutFailed ClientGone)
      else futures s f)"
proof (induction xs arbitrary: s)
  case (Cons x xs)
  then show ?case by (cases x) (auto simp: count_out_def)
qed simp

lemma flush_inv_cut:
  assumes "flush_inv f L s" "out_queue s' = []" "written s' = written s" "next_future s' = next_future s"
    and "\<And>g. futures s' g = futures (discard_items (out_queue s) s) g"
  shows "flush_inv f L s'"
  using assms unfolding flush_inv_def by (auto simp: discard_items_futures)

lemma flush_inv_upd [simp]:
  "flush_inv f L (s\<lparr>failure := x\<rparr>) = flush_inv f L s"
  "flush_inv f L (s\<lparr>closing := c\<rparr>) = flush_inv f L s"
  "flush_inv f L (s\<lparr>slow_calls := n\<rparr>) = flush_inv f L s"
  "flush_inv f L (count_in k s) = flush_inv f L s"
  by (simp_all add: flush_inv_def in_flight_def count_in_def Let_def)

lemma flush_inv_WFinish: "flush_inv f L s \<Longrightarrow> flush_inv f L (writer_finish r s)"
proof (cases "writer s")
  case (WriterSending m)
  assume i: "flush_inv f L s"
  show ?thesis
  proof (cases r)
    case WriteOk
    then show ?thesis using i WriterSending
      by (auto simp: flush_inv_def writer_finish_def in_flight_def)
  next
    case WriteTimeout
    then show ?thesis using WriterSending
      by (intro flush_inv_cut[OF i])
         (simp_all add: writer_finish_def fail_slow_def discard_pending_def discard_items_futures Let_def)
  next
    case (WriteError x)
    then show ?thesis using WriterSending
      by (intro flush_inv_cut[OF i])
         (simp_all add: writer_finish_def discard_pending_def discard_items_futures)
  qed
qed (simp_all add: writer_finish_def)

lemma flush_inv_step: "flush_inv f L s \<Longrightarrow> flush_inv f L (sender_step s a)"
proof (cases a)
  case (DoSend m)
  then show "flush_inv f L s \<Longrightarrow> ?thesis"
    by (auto simp: send_msg_def) (auto simp: flush_inv_def in_flight_def)
next
  case WBegin
  then show "flush_inv f L s \<Longrightarrow> ?thesis" by (simp add: flush_inv_WBegin)
next
  case (WFinish r)
  then show "flush_inv f L s \<Longrightarrow> ?thesis" by (simp add: flush_inv_WFinish)
next
  case CloseEnd
  then show "flush_inv f L s \<Longrightarrow> ?thesis"
    by (auto simp: aclose_end_def discard_pending_def discard_items_futures intro: flush_inv_cut)
next
  case (CancelFlush g)
  then show "flush_inv f L s \<Longrightarrow> ?thesis"
    by (auto simp: flush_cancel_def flush_inv_def in_flight_def)
qed (auto simp: flush_begin_def slow_finish_def aclose_begin_def flush_inv_def in_flight_def Let_def)

lemma flush_inv_run: "flush_inv f L s \<Longrightarrow> flush_inv f L (sender_run s ops)"
  unfolding sender_run_def by (rule foldl_invariant) (auto intro: flush_inv_step)

lemma takeWhile_fresh: "x \<notin> set xs \<Longrightarrow> takeWhile (\<lambda>y. y \<noteq> x) (xs @ [x]) = xs"
  by (induction xs) auto

lemma flush_inv_begin:
  "flush_begin s = Inr (f, s') \<Longrightarrow> OutFlush f \<notin> set (out_queue s) \<Longrightarrow> flush_inv f (out_log s) s'"
  by (auto simp: takeWhile_fresh flush_begin_def flush_inv_def out_log_def in_flight_def Let_def split: if_splits)

definition markers_ok :: "sender \<Rightarrow> bool" where
  "markers_ok s \<longleftrightarrow> (\<forall>f. OutFlush f \<in> set (out_queue s) \<longrightarrow> f < next_future s)"

lemma markers_empty: "out_queue s = [] \<Longrightarrow> markers_ok s"
  by (simp add: markers_ok_def)

lemma markers_step: "markers_ok s \<Longrightarrow> markers_ok (sender_step s a)"
proof (cases a)
  case WBegin
  then show "markers_ok s \<Longrightarrow> ?thesis"
    by (auto simp: markers_ok_def writer_begin_def count_out_def Let_def
        split: writer_phase.splits list.splits out_item.splits)
next
  case (WFinish r)
  then show "markers_ok s \<Longrightarrow> ?thesis"
    by (cases "writer s"; cases r)
       (simp_all add: writer_finish_def fail_slow_def Let_def markers_empty, simp add: markers_ok_def)
next
  case CloseEnd
  then show "markers_ok s \<Longrightarrow> ?thesis" by (simp add: aclose_end_def markers_empty)
qed (auto simp: markers_ok_def send_msg_def flush_begin_def slow_finish_def aclose_begin_def
       flush_cancel_def count_in_def Let_def less_Suc_eq)

lemma markers_run: "markers_ok s \<Longrightarrow> markers_ok (sender_run s ops)"
  unfolding sender_run_def by (rule foldl_invariant) (auto intro: markers_step)


section \<open>The sink contract\<close>

text \<open>
  What the producers of audio and events rely on: a send on an open sink is recorded at the end of
  its log and leaves it open; on a closed one it raises and changes nothing. \<open>send_all\<close> sends a
  list and stops at the first error, keeping what was sent.
\<close>

fun send_all :: "('m \<Rightarrow> 's \<Rightarrow> exn + 's) \<Rightarrow> 'm list \<Rightarrow> 's \<Rightarrow> exn option \<times> 's" where
  "send_all put [] s = (None, s)"
| "send_all put (m # ms) s =
     (case put m s of Inl e \<Rightarrow> (Some e, s) | Inr s' \<Rightarrow> send_all put ms s')"

locale message_sink =
  fixes send :: "'m \<Rightarrow> 's \<Rightarrow> exn + 's"
    and is_open :: "'s \<Rightarrow> bool"
    and log :: "'s \<Rightarrow> 'm list"
  assumes send_open: "is_open s \<Longrightarrow> \<exists>s'. send m s = Inr s' \<and> is_open s' \<and> log s' = log s @ [m]"
    and send_closed: "\<not> is_open s \<Longrightarrow> send m s = Inl ClientGone"
begin

lemma send_all_open: "is_open s \<Longrightarrow> \<exists>s'. send_all send ms s = (None, s') \<and> is_open s' \<and> log s' = log s @ ms"
proof (induction ms arbitrary: s)
  case (Cons m ms)
  obtain s1 where s1: "send m s = Inr s1" "is_open s1" "log s1 = log s @ [m]"
    using send_open[OF Cons.prems] by blast
  from Cons.IH[OF s1(2)] show ?case by (auto simp: s1)
qed simp

lemma send_all_closed: "\<not> is_open s \<Longrightarrow> send_all send (m # ms) s = (Some ClientGone, s)"
  by (simp add: send_closed)

end

interpretation out: message_sink send_msg sender_open out_log
  by unfold_locales
     (auto simp: send_msg_def sender_open_def out_log_def in_flight_def count_in_def Let_def)

section \<open>Properties\<close>

lemma markers_new: "markers_ok (new_sender b)"
  by (simp add: markers_ok_def new_sender_def)

lemma sender_run_append: "sender_run s (ops1 @ ops2) = sender_run (sender_run s ops1) ops2"
  by (simp add: sender_run_def)

text \<open>
  C9: under every interleaving of the producers, the writer task, its timeouts and failures, flush
  callers and \<open>aclose\<close>, what reaches the socket is a prefix of the accepted messages in their send
  order, and as long as the socket has not failed and \<open>aclose\<close> has not ended its wait, every accepted
  message is written, being written or queued, in that order.
\<close>

theorem sender_fifo:
  fixes ops :: "sender_op list" and on_slow :: bool
  defines "s \<equiv> sender_run (new_sender on_slow) ops"
  defines "acc \<equiv> accepted (new_sender on_slow) ops"
  shows "prefix (written s) acc \<and>
         (failure s = None \<and> CloseEnd \<notin> set ops \<longrightarrow>
            acc = written s @ in_flight s @ queued_msgs (out_queue s))"
proof -
  have i: "log_inv (CloseEnd \<in> set ops) acc s"
    using log_inv_run[OF log_inv_new, of ops on_slow] by (simp add: s_def acc_def)
  have "prefix (written s) (out_log s)"
    by (simp add: out_log_def)
  then show ?thesis
    using i unfolding log_inv_def by (auto simp: out_log_def dest: append_prefixD)
qed

theorem sender_fifo_witness:
  "let ops = [DoSend (MJson JNull), WBegin, DoSend (MBytes [1, 2]), WFinish WriteOk, WBegin];
       s = sender_run (new_sender True) ops in
   failure s = None \<and> written s = [MJson JNull] \<and>
   accepted (new_sender True) ops = [MJson JNull, MBytes [1, 2]] \<and>
   written s @ in_flight s @ queued_msgs (out_queue s) = accepted (new_sender True) ops"
  using sender_fifo[of True "[DoSend (MJson JNull), WBegin, DoSend (MBytes [1, 2]), WFinish WriteOk, WBegin]"]
  by (simp add: sender_run_def new_sender_def send_msg_def sender_open_def count_in_def count_out_def
      writer_begin_def writer_finish_def Let_def in_flight_def)

text \<open>
  The O(1) counters of \<open>queue_stats()\<close> are exact under every interleaving: the pending counts
  are the number of queued messages and the bytes of the queued binary payloads (never the message
  being written), and the peaks bound them.
\<close>

theorem queue_stats_exact:
  fixes ops :: "sender_op list" and on_slow :: bool
  defines "s \<equiv> sender_run (new_sender on_slow) ops"
  shows "\<exists>pm pb. queue_stats s = (int (length (queued_msgs (out_queue s))),
            sum_list (map msg_bytes (queued_msgs (out_queue s))), pm, pb) \<and>
          int (length (queued_msgs (out_queue s))) \<le> pm \<and>
          sum_list (map msg_bytes (queued_msgs (out_queue s))) \<le> pb"
proof -
  have "counters_ok (new_sender on_slow)"
    by (simp add: counters_ok_def new_sender_def)
  from counters_run[OF this, of ops] show ?thesis
    by (simp add: queue_stats_def counters_ok_def s_def)
qed

text \<open>
  When \<open>flush()\<close> returns normally, every message accepted before it was called has been written
  to the socket, whatever was interleaved since.
\<close>

theorem flush_done_means_written:
  assumes b: "flush_begin (sender_run (new_sender on_slow) ops1) = Inr (f, s1)"
    and d: "futures (sender_run s1 ops2) f = Some FutDone"
  shows "prefix (accepted (new_sender on_slow) ops1) (written (sender_run s1 ops2))"
proof -
  let ?s = "sender_run (new_sender on_slow) ops1"
  have op: "sender_open ?s" and f: "f = next_future ?s"
    using b by (auto simp: flush_begin_def Let_def split: if_splits)
  have "out_log ?s = accepted (new_sender on_slow) ops1"
    using log_inv_run[OF log_inv_new, of ops1 on_slow] op by (auto simp: log_inv_def)
  moreover have "OutFlush f \<notin> set (out_queue ?s)"
    using markers_run[OF markers_new, of on_slow ops1] f by (auto simp: markers_ok_def)
  ultimately have "flush_inv f (accepted (new_sender on_slow) ops1) (sender_run s1 ops2)"
    using flush_inv_run[OF flush_inv_begin[OF b]] by metis
  then show ?thesis using d by (auto simp: flush_inv_def)
qed

theorem flush_done_means_written_witness:
  "\<exists>s1. flush_begin (sender_run (new_sender False) [DoSend (MBytes [7])]) = Inr (0, s1) \<and>
        futures (sender_run s1 [WBegin, WFinish WriteOk, WBegin]) 0 = Some FutDone \<and>
        prefix [MBytes [7]] (written (sender_run s1 [WBegin, WFinish WriteOk, WBegin]))"
proof -
  obtain s1 where b: "flush_begin (sender_run (new_sender False) [DoSend (MBytes [7])]) = Inr (0, s1)"
    and q: "out_queue s1 = [OutMsg (MBytes [7]), OutFlush 0]" "writer s1 = WriterIdle"
      "futures s1 0 = Some FutPending"
    by (simp add: sender_run_def new_sender_def send_msg_def sender_open_def count_in_def flush_begin_def
        Let_def)
  have d: "futures (sender_run s1 [WBegin, WFinish WriteOk, WBegin]) 0 = Some FutDone"
    using q by (simp add: sender_run_def writer_begin_def writer_finish_def count_out_def Let_def)
  have "accepted (new_sender False) [DoSend (MBytes [7])] = [MBytes [7]]"
    by (simp add: new_sender_def sender_open_def)
  then show ?thesis using flush_done_means_written[OF b d] b d by auto
qed

definition slow_inv :: "sender \<Rightarrow> bool" where
  "slow_inv s \<longleftrightarrow>
     (slow_calls s = 0 \<and> writer s \<noteq> WriterInSlow) \<or>
     (slow_calls s = 1 \<and> failure s = Some ClientSlow \<and> (writer s = WriterInSlow \<or> writer s = WriterDone))"

lemma slow_step: "slow_inv s \<Longrightarrow> slow_inv (sender_step s a)"
proof (cases a)
  case WBegin
  then show "slow_inv s \<Longrightarrow> ?thesis"
    by (auto simp: slow_inv_def writer_begin_def count_out_def Let_def
        split: writer_phase.splits list.splits out_item.splits)
next
  case (WFinish r)
  then show "slow_inv s \<Longrightarrow> ?thesis"
    by (auto simp: slow_inv_def writer_finish_def fail_slow_def discard_pending_def Let_def
        split: writer_phase.splits write_outcome.splits)
qed (auto simp: slow_inv_def send_msg_def flush_begin_def slow_finish_def aclose_begin_def aclose_end_def
       flush_cancel_def count_in_def Let_def)

lemma closed_step: "\<not> sender_open s \<Longrightarrow> \<not> sender_open (sender_step s a)"
proof (cases a)
  case WBegin
  then show "\<not> sender_open s \<Longrightarrow> ?thesis"
    by (auto simp: sender_open_def writer_begin_def count_out_def Let_def
        split: writer_phase.splits list.splits out_item.splits)
next
  case (WFinish r)
  then show "\<not> sender_open s \<Longrightarrow> ?thesis"
    by (auto simp: sender_open_def writer_finish_def fail_slow_def Let_def
        split: writer_phase.splits write_outcome.splits)
qed (auto simp: sender_open_def send_msg_def flush_begin_def slow_finish_def aclose_begin_def aclose_end_def
       flush_cancel_def Let_def)

lemma closed_accepts_nothing: "\<not> sender_open s \<Longrightarrow> accepted s ops = []"
proof (induction ops arbitrary: s)
  case (Cons a ops)
  then show ?case
    using Cons.IH[OF closed_step[OF Cons.prems, of a]]
    by (simp add: accepted_Cons step_accepts_def del: accepted.simps split: sender_op.splits)
qed simp

text \<open>
  Once the client is lost (a failed or timed-out write, or \<open>aclose\<close> started) nothing more is
  ever accepted, and \<open>on_slow\<close> is called at most once in the life of a sender, only after a write
  that timed out (its failure is \<open>ClientSlow\<close>).
\<close>

theorem lost_client_is_final:
  fixes ops1 ops2 :: "sender_op list" and on_slow :: bool
  defines "s \<equiv> sender_run (new_sender on_slow) ops1"
  shows "(\<not> sender_open s \<longrightarrow> accepted s ops2 = []) \<and> slow_calls s \<le> 1 \<and>
         (slow_calls s = 1 \<longrightarrow> failure s = Some ClientSlow)"
proof -
  have "slow_inv (new_sender on_slow)"
    by (simp add: slow_inv_def new_sender_def)
  then have "slow_inv s"
    unfolding s_def sender_run_def by (rule foldl_invariant) (rule slow_step)
  then show ?thesis by (auto simp: slow_inv_def closed_accepts_nothing)
qed

theorem lost_client_is_final_witness:
  "let s = sender_run (new_sender True) [DoSend (MJson JNull), WBegin, WFinish WriteTimeout] in
   \<not> sender_open s \<and> slow_calls s = 1 \<and> accepted s [DoSend (MJson JNull)] = []"
  using lost_client_is_final[of True "[DoSend (MJson JNull), WBegin, WFinish WriteTimeout]"
      "[DoSend (MJson JNull)]"]
  by (simp add: sender_run_def new_sender_def send_msg_def sender_open_def count_in_def count_out_def
      writer_begin_def writer_finish_def fail_slow_def discard_pending_def Let_def)

text \<open>The writer alone, with a client that reads, writes everything that is queued.\<close>

lemma drain_step:
  assumes "writer s = WriterIdle" "OutStop \<notin> set (out_queue s)" "out_queue s = x # rest"
  shows "let s' = sender_step (sender_step s WBegin) (WFinish WriteOk) in
         writer s' = WriterIdle \<and> out_queue s' = rest \<and> out_log s' = out_log s \<and> failure s' = failure s"
  using assms by (cases x) (auto simp: writer_begin_def writer_finish_def count_out_def out_log_def
      in_flight_def Let_def)

text \<open>
  With a client that keeps reading, as many rounds of the writer as there are queued items write
  every accepted message, and the queue ends empty: nothing is stuck behind a flush marker.
\<close>

theorem writer_drains:
  assumes "writer s = WriterIdle" "OutStop \<notin> set (out_queue s)"
  shows "written (sender_run s (concat (replicate (length (out_queue s)) [WBegin, WFinish WriteOk]))) =
           written s @ queued_msgs (out_queue s)"
proof -
  have "out_queue s = q \<Longrightarrow>
        let s' = sender_run s (concat (replicate (length q) [WBegin, WFinish WriteOk])) in
        writer s' = WriterIdle \<and> out_queue s' = [] \<and> out_log s' = out_log s" for q
    using assms
  proof (induction q arbitrary: s)
    case (Cons x rest)
    let ?s1 = "sender_step (sender_step s WBegin) (WFinish WriteOk)"
    have 1: "writer ?s1 = WriterIdle" "out_queue ?s1 = rest" "out_log ?s1 = out_log s"
      using drain_step[OF Cons.prems(2,3,1)] by (simp_all add: Let_def)
    moreover have "OutStop \<notin> set (out_queue ?s1)"
      using Cons.prems(1,3) 1(2) by simp
    ultimately show ?case
      using Cons.IH[of ?s1] by (simp add: sender_run_def Let_def del: sender_step.simps)
  qed (simp add: sender_run_def)
  from this[OF refl] assms(1) show ?thesis
    by (auto simp: Let_def out_log_def in_flight_def)
qed

theorem writer_drains_witness:
  "let s = sender_run (new_sender True) [DoSend (MJson JNull), DoFlush, DoSend (MBytes [1])] in
   written (sender_run s (concat (replicate 3 [WBegin, WFinish WriteOk]))) = [MJson JNull, MBytes [1]]"
  using writer_drains[of "sender_run (new_sender True) [DoSend (MJson JNull), DoFlush, DoSend (MBytes [1])]"]
  by (simp add: sender_run_def new_sender_def send_msg_def sender_open_def count_in_def flush_begin_def
      Let_def numeral_3_eq_3)

end
