(* ===== verification/Pacing.thy ===== *)
theory Pacing
  imports Outbound
begin

text \<open>
  \<open>services/pacing.py\<close>: one \<open>AudioPacer\<close> per turn. A step of the \<open>frames\<close> generator reads the
  clock once and may sleep before it yields; the reading is an argument, the requested sleep a
  result. \<open>clk k\<close> is the reading taken for the \<open>k\<close>-th frame of the turn.
\<close>

definition BYTES_PER_S :: nat where "BYTES_PER_S = 48000"
definition FRAME_BYTES :: nat where "FRAME_BYTES = 9600"

record pacer =
  lead_s :: time
  pacing_enabled :: bool
  play_end :: time

record paced =
  read_at :: time
  slept :: time
  pframe :: bytes
  end_after :: time

definition new_pacer :: "time \<Rightarrow> bool \<Rightarrow> pacer" where
  "new_pacer lead on = \<lparr>lead_s = lead, pacing_enabled = on, play_end = 0\<rparr>"

text \<open>The slices \<open>chunk[i : i + FRAME_BYTES]\<close> for \<open>i\<close> in \<open>range(0, len(chunk), FRAME_BYTES)\<close>.\<close>

definition chunk_slices :: "bytes \<Rightarrow> bytes list" where
  "chunk_slices chunk =
     map (\<lambda>k. take FRAME_BYTES (drop (k * FRAME_BYTES) chunk))
       [0..<(length chunk + FRAME_BYTES - 1) div FRAME_BYTES]"

definition audio_len :: "bytes \<Rightarrow> time" where
  "audio_len b = of_nat (length b) / of_nat BYTES_PER_S"

definition pace_frame :: "time \<Rightarrow> bytes \<Rightarrow> pacer \<Rightarrow> paced \<times> pacer" where
  "pace_frame now frame p =
     (let start = max (play_end p) now;
          d = (if start - now > lead_s p then start - now - lead_s p else 0);
          pe = start + audio_len frame in
      (\<lparr>read_at = now, slept = d, pframe = frame, end_after = pe\<rparr>, p\<lparr>play_end := pe\<rparr>))"

fun pace_list :: "(nat \<Rightarrow> time) \<Rightarrow> nat \<Rightarrow> bytes list \<Rightarrow> pacer \<Rightarrow> paced list \<times> pacer" where
  "pace_list clk k [] p = ([], p)"
| "pace_list clk k (f # fs) p =
     (let (x, p1) = pace_frame (clk k) f p; (xs, p2) = pace_list clk (Suc k) fs p1 in (x # xs, p2))"

definition frames :: "(nat \<Rightarrow> time) \<Rightarrow> nat \<Rightarrow> bytes \<Rightarrow> pacer \<Rightarrow> paced list \<times> pacer" where
  "frames clk k chunk p =
     (if \<not> pacing_enabled p
      then ([\<lparr>read_at = clk k, slept = 0, pframe = chunk, end_after = play_end p\<rparr>], p)
      else pace_list clk k (chunk_slices chunk) p)"

text \<open>All the chunks of a turn through one pacer.\<close>

fun pace_turn :: "(nat \<Rightarrow> time) \<Rightarrow> nat \<Rightarrow> bytes list \<Rightarrow> pacer \<Rightarrow> paced list \<times> pacer" where
  "pace_turn clk k [] p = ([], p)"
| "pace_turn clk k (c # cs) p =
     (let (xs, p1) = frames clk k c p; (ys, p2) = pace_turn clk (k + length xs) cs p1 in (xs @ ys, p2))"

section \<open>Lemmas\<close>

lemma concat_slices:
  "0 < n \<Longrightarrow> concat (map (\<lambda>k. take n (drop (k * n) xs)) [0..<m]) = take (m * n) xs"
proof (induction m)
  case (Suc m)
  then show ?case by (simp add: take_add add.commute[of n])
qed simp

lemma slices_concat [simp]: "concat (chunk_slices chunk) = chunk"
proof -
  have "length chunk \<le> (length chunk + FRAME_BYTES - 1) div FRAME_BYTES * FRAME_BYTES"
    by (simp add: FRAME_BYTES_def)
  then show ?thesis
    unfolding chunk_slices_def by (subst concat_slices) (simp_all add: FRAME_BYTES_def)
qed

lemma slices_size: "f \<in> set (chunk_slices chunk) \<Longrightarrow> f \<noteq> [] \<and> length f \<le> FRAME_BYTES"
  by (auto simp: chunk_slices_def FRAME_BYTES_def)

lemma pace_list_frames [simp]: "map pframe (fst (pace_list clk k fs p)) = fs"
  by (induction clk k fs p rule: pace_list.induct) (auto simp: pace_frame_def Let_def split: prod.splits)

lemma pace_list_on [simp]: "pacing_enabled (snd (pace_list clk k fs p)) = pacing_enabled p"
  by (induction clk k fs p rule: pace_list.induct) (auto simp: pace_frame_def Let_def split: prod.splits)

lemma pace_list_lead [simp]: "lead_s (snd (pace_list clk k fs p)) = lead_s p"
  by (induction clk k fs p rule: pace_list.induct) (auto simp: pace_frame_def Let_def split: prod.splits)

lemma frames_frame [simp]:
  "pacing_enabled (snd (frames clk k c p)) = pacing_enabled p" "lead_s (snd (frames clk k c p)) = lead_s p"
  by (simp_all add: frames_def)

lemma frames_bytes [simp]: "concat (map pframe (fst (frames clk k c p))) = c"
  by (simp add: frames_def)

definition lead_ok :: "time \<Rightarrow> paced \<Rightarrow> bool" where
  "lead_ok lead x \<longleftrightarrow>
     0 \<le> slept x \<and> end_after x \<le> read_at x + slept x + lead + audio_len (pframe x) \<and>
     read_at x \<le> end_after x"

lemma audio_len_nonneg [simp]: "0 \<le> audio_len b"
  by (simp add: audio_len_def)

lemma pace_list_lead_ok:
  "0 \<le> lead_s p \<Longrightarrow> x \<in> set (fst (pace_list clk k fs p)) \<Longrightarrow> lead_ok (lead_s p) x"
proof (induction clk k fs p rule: pace_list.induct)
  case (2 clk k f fs p)
  have 1: "lead_ok (lead_s p) (fst (pace_frame (clk k) f p))"
    using 2(2) audio_len_nonneg[of f]
    unfolding lead_ok_def pace_frame_def Let_def max_def by (auto intro: order.trans add_increasing2)
  have "lead_s (snd (pace_frame (clk k) f p)) = lead_s p"
    by (simp add: pace_frame_def Let_def)
  with 2 1 show ?case by (auto split: prod.splits)
qed simp

section \<open>Properties\<close>

text \<open>
  Pacing changes when audio is sent, never what is sent: the frames of a turn concatenate to its
  chunks byte for byte, and an enabled pacer never yields an empty frame or one of more than
  200 ms (9600 bytes).
\<close>

theorem pacing_exact:
  fixes p :: pacer and clk :: "nat \<Rightarrow> time" and k :: nat and chunks :: "bytes list"
  defines "xs \<equiv> fst (pace_turn clk k chunks p)"
  shows "concat (map pframe xs) = concat chunks \<and>
         (pacing_enabled p \<longrightarrow> (\<forall>x\<in>set xs. 0 < length (pframe x) \<and> length (pframe x) \<le> 9600))"
  unfolding xs_def
proof (induction clk k chunks p rule: pace_turn.induct)
  case (2 clk k c cs p)
  obtain xs p1 where x: "frames clk k c p = (xs, p1)" by fastforce
  obtain ys p2 where y: "pace_turn clk (k + length xs) cs p1 = (ys, p2)" by fastforce
  have e: "pacing_enabled p1 = pacing_enabled p" and b: "concat (map pframe xs) = c"
    using frames_frame(1)[of clk k c p] frames_bytes[of clk k c p] by (simp_all add: x)
  have s: "pframe z \<in> set (chunk_slices c)" if "pacing_enabled p" "z \<in> set xs" for z
  proof -
    have "map pframe xs = chunk_slices c"
      using that(1) x pace_list_frames[of clk k "chunk_slices c" p] by (simp add: frames_def)
    then show ?thesis using that(2) by (metis imageI list.set_map)
  qed
  show ?case
    using 2[OF x[symmetric] refl] y e b slices_size[OF s] by (auto simp: x FRAME_BYTES_def)
qed simp

theorem pacing_exact_witness:
  "let xs = fst (pace_turn (\<lambda>_. 0) 0 [[1, 2], [3]] (new_pacer 1 True)) in
   pacing_enabled (new_pacer 1 True) \<and> concat (map pframe xs) = [1, 2, 3] \<and>
   (\<forall>x\<in>set xs. 0 < length (pframe x) \<and> length (pframe x) \<le> 9600)"
  using pacing_exact[of "\<lambda>_. 0" 0 "[[1, 2], [3]]" "new_pacer 1 True"]
  by (simp add: new_pacer_def Let_def)

lemma pace_turn_lead_ok:
  "0 \<le> lead_s p \<Longrightarrow> pacing_enabled p \<Longrightarrow> x \<in> set (fst (pace_turn clk k chunks p)) \<Longrightarrow>
   lead_ok (lead_s p) x \<and> length (pframe x) \<le> FRAME_BYTES"
proof (induction clk k chunks p rule: pace_turn.induct)
  case (2 clk k c cs p)
  obtain xs p1 where f: "frames clk k c p = (xs, p1)" by fastforce
  obtain ys p2 where y: "pace_turn clk (k + length xs) cs p1 = (ys, p2)" by fastforce
  have l: "lead_s p1 = lead_s p" "pacing_enabled p1"
    using frames_frame[of clk k c p] 2(3) by (simp_all add: f)
  have xs: "xs = fst (pace_list clk k (chunk_slices c) p)"
    using f 2(3) by (metis frames_def fst_conv)
  have "pframe x \<in> set (chunk_slices c)" if "x \<in> set xs"
    using that unfolding xs by (metis imageI list.set_map pace_list_frames)
  then show ?case
    using 2(1)[OF f[symmetric] refl] 2(2,4) l y pace_list_lead_ok[of p x clk k "chunk_slices c"] xs slices_size
    by (auto simp: f)
qed simp

text \<open>
  An enabled pacer never runs ahead of playback by more than the lead plus the frame being sent:
  when a frame is yielded (after its sleep) at clock \<open>t\<close>, the audio sent so far ends playing at most
  \<open>lead_s + 0.2\<close> seconds after \<open>t\<close>, for every clock, and sleeps are never negative.
\<close>

theorem pacing_lead_bound:
  assumes "0 \<le> lead_s p" "pacing_enabled p" "x \<in> set (fst (pace_turn clk k chunks p))"
    and "read_at x + slept x \<le> t"
  shows "0 \<le> slept x \<and> end_after x - t \<le> lead_s p + 1 / 5"
proof -
  have l: "lead_ok (lead_s p) x" and s: "length (pframe x) \<le> FRAME_BYTES"
    using pace_turn_lead_ok[OF assms(1-3)] by auto
  from s have "(of_nat (length (pframe x)) :: rat) \<le> 9600"
    unfolding FRAME_BYTES_def by (metis of_nat_le_iff of_nat_numeral)
  then have "audio_len (pframe x) \<le> 1 / 5"
    unfolding audio_len_def BYTES_PER_S_def by simp
  then show ?thesis using l assms(4) unfolding lead_ok_def by linarith
qed

theorem pacing_lead_bound_witness:
  "let x = hd (fst (pace_turn (\<lambda>_. 0) 0 [[1, 2]] (new_pacer 1 True\<lparr>play_end := 5\<rparr>))) in
   slept x = 4 \<and> end_after x - 4 \<le> 1 + 1 / 5"
  using pacing_lead_bound[of "new_pacer 1 True\<lparr>play_end := 5\<rparr>"
      "hd (fst (pace_turn (\<lambda>_. 0) 0 [[1, 2]] (new_pacer 1 True\<lparr>play_end := 5\<rparr>)))" "\<lambda>_. 0" 0 "[[1, 2]]" 4]
  by (simp add: new_pacer_def frames_def chunk_slices_def FRAME_BYTES_def pace_frame_def Let_def)

end
