(* ===== verification/Stats.thy ===== *)
theory Stats
  imports Prelude
begin

text \<open>
  \<open>services/stats.py\<close>: the process-wide counters. A \<open>collections.Counter\<close> is an insertion-ordered
  dict that reads 0 for a missing key.
\<close>

type_synonym counter = "(string \<times> int) list"

definition counter_get :: "counter \<Rightarrow> string \<Rightarrow> int" where
  "counter_get c k = (case map_of c k of None \<Rightarrow> 0 | Some n \<Rightarrow> n)"

definition counter_inc :: "string \<Rightarrow> counter \<Rightarrow> counter" where
  "counter_inc k c = dput k (counter_get c k + 1) c"

record gateway_stats =
  st_sessions_opened :: int
  st_sessions_closed :: counter
  st_handshake_rejected :: counter
  st_turns :: counter
  st_turn_errors :: counter

definition stats_reset :: gateway_stats where
  "stats_reset =
     \<lparr>st_sessions_opened = 0, st_sessions_closed = [], st_handshake_rejected = [], st_turns = [],
      st_turn_errors = []\<rparr>"

definition stats_session_opened :: "gateway_stats \<Rightarrow> gateway_stats" where
  "stats_session_opened g = g\<lparr>st_sessions_opened := st_sessions_opened g + 1\<rparr>"

definition stats_session_closed :: "string \<Rightarrow> gateway_stats \<Rightarrow> gateway_stats" where
  "stats_session_closed reason g = g\<lparr>st_sessions_closed := counter_inc reason (st_sessions_closed g)\<rparr>"

definition stats_handshake_rejected :: "string \<Rightarrow> gateway_stats \<Rightarrow> gateway_stats" where
  "stats_handshake_rejected reason g =
     g\<lparr>st_handshake_rejected := counter_inc reason (st_handshake_rejected g)\<rparr>"

definition stats_turn_started :: "string \<Rightarrow> gateway_stats \<Rightarrow> gateway_stats" where
  "stats_turn_started kind g = g\<lparr>st_turns := counter_inc kind (st_turns g)\<rparr>"

definition stats_turn_error :: "string \<Rightarrow> gateway_stats \<Rightarrow> gateway_stats" where
  "stats_turn_error code g = g\<lparr>st_turn_errors := counter_inc code (st_turn_errors g)\<rparr>"

definition counter_json :: "counter \<Rightarrow> json" where
  "counter_json c = JObj (map (\<lambda>(k, n). (k, JInt n)) c)"

definition stats_snapshot :: "gateway_stats \<Rightarrow> json" where
  "stats_snapshot g =
     JObj [(''sessions_opened'', JInt (st_sessions_opened g)),
           (''sessions_closed'', counter_json (st_sessions_closed g)),
           (''handshake_rejected'', counter_json (st_handshake_rejected g)),
           (''turns'', JObj [(''normal'', JInt (counter_get (st_turns g) ''normal'')),
                             (''push'', JInt (counter_get (st_turns g) ''push''))]),
           (''turn_errors'', counter_json (st_turn_errors g))]"

datatype stat_event =
    SessionOpened | SessionClosed string | HandshakeRejected string | TurnStarted string | TurnError string

fun stats_step :: "gateway_stats \<Rightarrow> stat_event \<Rightarrow> gateway_stats" where
  "stats_step g SessionOpened = stats_session_opened g"
| "stats_step g (SessionClosed r) = stats_session_closed r g"
| "stats_step g (HandshakeRejected r) = stats_handshake_rejected r g"
| "stats_step g (TurnStarted k) = stats_turn_started k g"
| "stats_step g (TurnError c) = stats_turn_error c g"

lemma counter_get_inc: "counter_get (counter_inc k c) j = counter_get c j + (if j = k then 1 else 0)"
  by (simp add: counter_get_def counter_inc_def)

definition occurrences :: "stat_event \<Rightarrow> stat_event list \<Rightarrow> int" where
  "occurrences e evs = int (count_list evs e)"

lemma occurrences_snoc: "occurrences e (evs @ [x]) = occurrences e evs + (if x = e then 1 else 0)"
  by (simp add: occurrences_def)

text \<open>
  After any sequence of events the statistics are exact: each counter of the snapshot is the
  number of events of its kind (per reason, turn kind or error code) and nothing else moves it.
\<close>

theorem stats_count_events:
  fixes evs :: "stat_event list"
  defines "g \<equiv> foldl stats_step stats_reset evs"
  shows "st_sessions_opened g = occurrences SessionOpened evs \<and>
         counter_get (st_sessions_closed g) k = occurrences (SessionClosed k) evs \<and>
         counter_get (st_handshake_rejected g) k = occurrences (HandshakeRejected k) evs \<and>
         counter_get (st_turns g) k = occurrences (TurnStarted k) evs \<and>
         counter_get (st_turn_errors g) k = occurrences (TurnError k) evs"
  unfolding g_def
proof (induction evs rule: rev_induct)
  case Nil
  show ?case by (simp add: stats_reset_def occurrences_def counter_get_def)
next
  case (snoc e evs)
  then show ?case
    by (cases e) (simp_all add: occurrences_snoc counter_get_inc stats_session_opened_def
        stats_session_closed_def stats_handshake_rejected_def stats_turn_started_def stats_turn_error_def)
qed

end
