(* ===== verification/Transcriber.thy ===== *)
theory Transcriber
  imports Reconnection Outbound
begin

text \<open>
  \<open>TranscriberClient\<close> (\<open>services/transcriber_client.py\<close>) and \<open>ReconnectingTranscriberClient\<close>
  (\<open>services/transcriber_reconnecting.py\<close>): one speech-to-text session. What JSON decoding and the
  pydantic model make of a frame is an argument (\<open>raw_frame\<close>); the outcomes of the socket are too.
  The callbacks of the session are one function on the state of the bridge.
\<close>

record transcriber_message =
  tm_type :: string
  tm_text :: "string option"
  tm_is_final :: "bool option"
  tm_message :: "string option"
  tm_code :: "string option"
  tm_session_id :: "string option"
  tm_state :: "string option"
  tm_reason :: "string option"
  tm_complete :: "bool option"

datatype raw_frame = FrameNonJson | FrameInvalid exn | FrameMsg transcriber_message

datatype stt_out = SttConfig string string rat | SttAudio bytes | SttEnd

record stt_client =
  sc_ws :: bool
  sc_ready :: bool
  sc_session_id :: "string option"
  sc_dropped :: bool
  sc_last_at :: "time option"
  sc_sent :: "stt_out list"

definition new_stt_client :: stt_client where
  "new_stt_client =
     \<lparr>sc_ws = False, sc_ready = False, sc_session_id = None, sc_dropped = False, sc_last_at = None,
      sc_sent = []\<rparr>"

definition opt_json :: "string option \<Rightarrow> json" where
  "opt_json x = (case x of None \<Rightarrow> JNull | Some s \<Rightarrow> JStr s)"

definition truthy_str :: "string option \<Rightarrow> bool" where
  "truthy_str x = (case x of None \<Rightarrow> False | Some s \<Rightarrow> s \<noteq> [])"

section \<open>TranscriberClient\<close>

record stt_connect_env =
  sce_open :: "exn option"
  sce_send :: "exn option"
  sce_response :: "exn + raw_frame"

definition stt_handshake :: "stt_connect_env \<Rightarrow> stt_out \<Rightarrow> stt_client \<Rightarrow> exn option \<times> stt_client" where
  "stt_handshake w cfg c =
     (case sce_send w of
        Some e \<Rightarrow> (Some e, c)
      | None \<Rightarrow>
          let c1 = c\<lparr>sc_sent := sc_sent c @ [cfg]\<rparr> in
          (case sce_response w of
             Inl e \<Rightarrow> (Some e, c1)
           | Inr FrameNonJson \<Rightarrow> (Some ValueError, c1)
           | Inr (FrameInvalid e) \<Rightarrow> (Some e, c1)
           | Inr (FrameMsg m) \<Rightarrow>
               if tm_type m = ''ready'' then (None, c1\<lparr>sc_ready := True, sc_session_id := tm_session_id m\<rparr>)
               else if tm_type m = ''error''
                 then (Some (TranscriberHandshakeError (case tm_code m of None \<Rightarrow> [] | Some s \<Rightarrow> s)), c1)
               else (Some (TranscriberHandshakeError ''unexpected_frame''), c1)))"

definition stt_connect ::
  "stt_connect_env \<Rightarrow> string \<Rightarrow> string \<Rightarrow> rat \<Rightarrow> stt_client \<Rightarrow> exn option \<times> stt_client" where
  "stt_connect w language token vad_thold c =
     (let (e, c1) = (case sce_open w of
                       Some e \<Rightarrow> (Some e, c)
                     | None \<Rightarrow> stt_handshake w (SttConfig language token vad_thold) (c\<lparr>sc_ws := True\<rparr>)) in
      (e, if e = None then c1 else c1\<lparr>sc_ws := False\<rparr>))"

text \<open>A write on the socket that meets a closed connection only clears \<open>_is_ready\<close>.\<close>

definition stt_send :: "exn option \<Rightarrow> stt_out \<Rightarrow> stt_client \<Rightarrow> exn option \<times> stt_client" where
  "stt_send r x c =
     (if \<not> sc_ready c \<or> \<not> sc_ws c then (None, c)
      else case r of
        None \<Rightarrow> (None, c\<lparr>sc_sent := sc_sent c @ [x]\<rparr>)
      | Some (ConnectionClosed _) \<Rightarrow> (None, c\<lparr>sc_ready := False\<rparr>)
      | Some e \<Rightarrow> (Some e, c))"

definition send_audio :: "exn option \<Rightarrow> bytes \<Rightarrow> stt_client \<Rightarrow> exn option \<times> stt_client" where
  "send_audio r b c = stt_send r (SttAudio b) c"

definition send_end :: "exn option \<Rightarrow> stt_client \<Rightarrow> exn option \<times> stt_client" where
  "send_end r c = stt_send r SttEnd c"

definition stt_close :: "stt_client \<Rightarrow> stt_client" where
  "stt_close c = c\<lparr>sc_ready := False\<rparr>"

subsection \<open>Listening\<close>

datatype stt_call =
    CbTranscription string bool
  | CbIncomplete "string option"
  | CbStatus string "string option"
  | CbWarning string "string option"

text \<open>The callbacks one frame leads to, in order.\<close>

definition frame_calls :: "raw_frame \<Rightarrow> stt_call list" where
  "frame_calls f =
     (case f of
        FrameMsg m \<Rightarrow>
          (let reason = map_option (\<lambda>r. safe_code (JStr r)) (tm_reason m) in
           if tm_type m = ''transcription'' \<and> truthy_str (tm_text m) then
             (if tm_is_final m = Some True \<and> tm_complete m = Some False then [CbIncomplete reason] else []) @
             [CbTranscription (the (tm_text m)) (tm_is_final m = Some True)]
           else if tm_type m = ''status'' then
             (if truthy_str (tm_state m) then [CbStatus (safe_code (opt_json (tm_state m))) reason] else [])
           else if tm_type m = ''warning'' then [CbWarning (safe_code (opt_json (tm_code m))) (tm_message m)]
           else [])
      | _ \<Rightarrow> [])"

fun run_calls :: "(stt_call \<Rightarrow> 's \<Rightarrow> exn option \<times> 's) \<Rightarrow> stt_call list \<Rightarrow> 's \<Rightarrow> exn option \<times> 's" where
  "run_calls cb [] s = (None, s)"
| "run_calls cb (x # xs) s =
     (case cb x s of (Some e, s1) \<Rightarrow> (Some e, s1) | (None, s1) \<Rightarrow> run_calls cb xs s1)"

definition note_transcription :: "time \<Rightarrow> raw_frame \<Rightarrow> stt_client \<Rightarrow> stt_client" where
  "note_transcription now f c =
     (case f of
        FrameMsg m \<Rightarrow> if tm_type m = ''transcription'' \<and> truthy_str (tm_text m) then c\<lparr>sc_last_at := Some now\<rparr> else c
      | _ \<Rightarrow> c)"

datatype listen_stop = StopEof | StopClosed "nat option" | StopCancelled

text \<open>
  The \<open>except ConnectionClosed\<close> of the loop: \<open>rcvd\<close> is the close code received. It also catches one
  that a callback raises.
\<close>

definition listen_closed :: "nat option \<Rightarrow> stt_client \<Rightarrow> stt_client" where
  "listen_closed rcvd c =
     (let c1 = (if sc_ready c \<and> rcvd \<noteq> Some 1000 then c\<lparr>sc_dropped := True\<rparr> else c) in
      c1\<lparr>sc_ready := False\<rparr>)"

fun listen_loop ::
  "(stt_call \<Rightarrow> 's \<Rightarrow> exn option \<times> 's) \<Rightarrow> (time \<times> raw_frame) list \<Rightarrow> listen_stop \<Rightarrow>
   stt_client \<times> 's \<Rightarrow> exn option \<times> stt_client \<times> 's" where
  "listen_loop cb [] stop (c, s) =
     (case stop of
        StopEof \<Rightarrow> (None, c, s)
      | StopClosed rcvd \<Rightarrow> (None, listen_closed rcvd c, s)
      | StopCancelled \<Rightarrow> (Some CancelledError, c, s))"
| "listen_loop cb ((now, f) # fs) stop (c, s) =
     (case run_calls cb (frame_calls f) s of
        (Some (ConnectionClosed rcvd), s1) \<Rightarrow> (None, listen_closed rcvd (note_transcription now f c), s1)
      | (Some e, s1) \<Rightarrow> (Some e, note_transcription now f c, s1)
      | (None, s1) \<Rightarrow> listen_loop cb fs stop (note_transcription now f c, s1))"

definition stt_listen ::
  "(stt_call \<Rightarrow> 's \<Rightarrow> exn option \<times> 's) \<Rightarrow> (time \<times> raw_frame) list \<Rightarrow> listen_stop \<Rightarrow>
   stt_client \<times> 's \<Rightarrow> exn option \<times> stt_client \<times> 's" where
  "stt_listen cb fs stop cs = (if \<not> sc_ws (fst cs) then (None, cs) else listen_loop cb fs stop cs)"

section \<open>ReconnectingTranscriberClient\<close>

record stt_session =
  ss_client :: stt_client
  ss_health :: service_health
  ss_closed :: bool

definition new_stt_session :: stt_session where
  "new_stt_session =
     \<lparr>ss_client = new_stt_client, ss_health = new_health ''transcriber'' DEGRADED, ss_closed = False\<rparr>"

text \<open>\<open>start()\<close>; \<open>closed_meanwhile\<close> says that \<open>close()\<close> ran while the connect was in flight.\<close>

definition stt_start :: "(stt_client \<Rightarrow> exn option \<times> stt_client) \<Rightarrow> time \<Rightarrow> bool \<Rightarrow> stt_session \<Rightarrow> exn option \<times> stt_session" where
  "stt_start conn now closed_meanwhile x =
     (if ss_closed x then (None, x)
      else
        let (e, c) = conn (ss_client x); x1 = x\<lparr>ss_client := c, ss_closed := closed_meanwhile\<rparr>;
            leave = (case e of Some err \<Rightarrow> \<not> is_Exception err | None \<Rightarrow> False);
            x2 = (case e of
                    None \<Rightarrow> x1\<lparr>ss_health := mark_connected now (ss_health x)\<rparr>
                  | Some err \<Rightarrow> if \<not> is_Exception err then x1
                      else x1\<lparr>ss_health := set_state RECONNECTING ((ss_health x)\<lparr>last_error := Some (describe_error err)\<rparr>)\<rparr>)
        in if leave then (e, x2)
           else (None, if ss_closed x2 then x2\<lparr>ss_client := stt_close (ss_client x2)\<rparr> else x2))"

definition stt_session_close :: "stt_session \<Rightarrow> stt_session" where
  "stt_session_close x = x\<lparr>ss_closed := True, ss_client := stt_close (ss_client x)\<rparr>"

text \<open>
  One pass of the loop of \<open>run()\<close>: the arguments of the backoff when it has to reconnect, the client
  the successful attempt leaves, what the socket then brings, and whether \<open>close()\<close> was called.
\<close>

record stt_episode =
  ep_fuel :: nat
  ep_att :: "nat \<Rightarrow> exn option"
  ep_dur :: "nat \<Rightarrow> time"
  ep_late :: "nat \<Rightarrow> time"
  ep_start :: time
  ep_client :: "stt_client \<Rightarrow> stt_client"
  ep_frames :: "(time \<times> raw_frame) list"
  ep_stop :: listen_stop
  ep_closed :: bool

record stt_limits =
  sl_initial :: time
  sl_max :: time
  sl_duration :: time

definition ep_reconnect :: "stt_limits \<Rightarrow> stt_episode \<Rightarrow> stt_session \<Rightarrow> (exn + bool) option \<times> stt_session" where
  "ep_reconnect lm p x =
     (if hstate (ss_health x) = CONNECTED then (Some (Inr True), x)
      else case reconnect_with_backoff (ep_fuel p) (ep_att p) (ep_dur p) (ep_late p) (ep_start p) (ss_health x)
                  (sl_initial lm) (sl_max lm) (sl_duration lm) of
        None \<Rightarrow> (None, x)
      | Some r \<Rightarrow> (Some (outcome r), x\<lparr>ss_health := after r,
                     ss_client := (if outcome r = Inr True then ep_client p (ss_client x) else ss_client x)\<rparr>))"

fun stt_run ::
  "stt_limits \<Rightarrow> (stt_call \<Rightarrow> 's \<Rightarrow> exn option \<times> 's) \<Rightarrow> stt_episode list \<Rightarrow> stt_session \<times> 's \<Rightarrow>
   (exn option \<times> stt_session \<times> 's) option" where
  "stt_run lm cb [] (x, s) = (if ss_closed x then Some (None, x, s) else None)"
| "stt_run lm cb (p # ps) (x, s) =
     (if ss_closed x then Some (None, x, s)
      else case ep_reconnect lm p x of
        (None, x1) \<Rightarrow> None
      | (Some (Inl e), x1) \<Rightarrow> Some (Some e, x1, s)
      | (Some (Inr False), x1) \<Rightarrow> Some (None, x1, s)
      | (Some (Inr True), x1) \<Rightarrow>
          (case stt_listen cb (ep_frames p) (ep_stop p) ((ss_client x1)\<lparr>sc_dropped := False\<rparr>, s) of
             (e, c, s1) \<Rightarrow>
               let x2 = x1\<lparr>ss_client := c, ss_closed := ep_closed p\<rparr> in
               (case e of
                  Some err \<Rightarrow>
                    if \<not> is_Exception err then Some (Some err, x2, s1)
                    else Some (None, x2\<lparr>ss_health := set_state DEGRADED
                                  ((ss_health x2)\<lparr>last_error := Some (describe_error err)\<rparr>)\<rparr>, s1)
                | None \<Rightarrow>
                    if ss_closed x2 then Some (None, x2, s1)
                    else if \<not> sc_dropped c then Some (None, x2, s1)
                    else stt_run lm cb ps (x2\<lparr>ss_health := set_state RECONNECTING (ss_health x2)\<rparr>, s1))))"

section \<open>Lemmas\<close>

lemma stt_connect_all_or_nothing:
  "stt_connect w l t v c = (e, c') \<Longrightarrow> (e = None \<longrightarrow> sc_ws c' \<and> sc_ready c') \<and> (e \<noteq> None \<longrightarrow> \<not> sc_ws c')"
  by (auto simp: stt_connect_def stt_handshake_def Let_def
      split: option.splits sum.splits raw_frame.splits if_splits prod.splits)

lemma run_calls_log: "run_calls (\<lambda>x s. (None, s @ [x])) xs s = (None, s @ xs)"
  by (induction xs arbitrary: s) auto

lemma listen_loop_log:
  "\<exists>c'. listen_loop (\<lambda>x s. (None, s @ [x])) fs stop (c, s) =
     (if stop = StopCancelled then Some CancelledError else None, c', s @ concat (map (frame_calls \<circ> snd) fs)) \<and>
     sc_ws c' = sc_ws c \<and> sc_sent c' = sc_sent c"
proof (induction fs arbitrary: c s)
  case Nil
  then show ?case by (cases stop) (auto simp: listen_closed_def Let_def)
next
  case (Cons f fs)
  obtain now fr where f: "f = (now, fr)" by fastforce
  have "sc_ws (note_transcription now fr c) = sc_ws c \<and> sc_sent (note_transcription now fr c) = sc_sent c"
    by (simp add: note_transcription_def split: raw_frame.splits)
  then show ?case
    using Cons.IH[of "note_transcription now fr c" "s @ frame_calls fr"] by (auto simp: f run_calls_log)
qed

text \<open>A call that leaks nothing: codes are short, and a text comes from a transcription frame of \<open>F\<close>.\<close>

definition short_opt :: "string option \<Rightarrow> bool" where
  "short_opt r \<longleftrightarrow> (case r of None \<Rightarrow> True | Some y \<Rightarrow> length y \<le> 40)"

fun call_clean :: "raw_frame set \<Rightarrow> stt_call \<Rightarrow> bool" where
  "call_clean F (CbStatus st r) = (length st \<le> 40 \<and> short_opt r)"
| "call_clean F (CbWarning code m) = (length code \<le> 40)"
| "call_clean F (CbIncomplete r) = short_opt r"
| "call_clean F (CbTranscription s fin) =
     (\<exists>m. FrameMsg m \<in> F \<and> tm_type m = ''transcription'' \<and> tm_text m = Some s)"

lemma safe_code_length: "length (safe_code j) \<le> 40"
  by (auto simp: safe_code_def split: json.splits)

lemma frame_calls_clean:
  assumes "x \<in> set (frame_calls f)" "f \<in> F"
  shows "call_clean F x"
proof (cases f)
  case (FrameMsg m)
  have so: "short_opt (map_option (\<lambda>r. safe_code (JStr r)) z)" for z
    by (cases z) (simp_all add: short_opt_def safe_code_length)
  have tx: "truthy_str (tm_text m) \<Longrightarrow> tm_text m = Some (the (tm_text m))"
    by (simp add: truthy_str_def split: option.splits)
  show ?thesis
    using assms so tx unfolding FrameMsg
    by (auto simp: frame_calls_def safe_code_length Let_def split: if_splits)
qed (use assms in \<open>simp_all add: frame_calls_def\<close>)

lemma ep_reconnect_state:
  "ep_reconnect lm p x = (Some (Inr b), x1) \<Longrightarrow>
   hstate (ss_health x1) = (if b then CONNECTED else DEGRADED) \<and> ss_closed x1 = ss_closed x"
  using reconnect_loop_result unfolding ep_reconnect_def reconnect_with_backoff_def
  by (cases b) (fastforce split: if_splits option.splits)+

section \<open>Properties\<close>

text \<open>
  While the connection lasts, every transcription is delivered once, in order and unchanged, a
  truncated final is announced just before it, and a frame that is not JSON, that has the wrong
  shape or an unknown type is skipped without stopping the loop; the codes, states and reasons
  that are passed on are short identifiers or \<open>unknown\<close>.
\<close>

theorem listen_delivers_in_order:
  assumes "sc_ws c"
  shows "\<exists>c'. stt_listen (\<lambda>x s. (None, s @ [x])) fs stop (c, []) =
           (if stop = StopCancelled then Some CancelledError else None, c', concat (map (frame_calls \<circ> snd) fs)) \<and>
         list_all (call_clean (snd ` set fs)) (concat (map (frame_calls \<circ> snd) fs))"
  using listen_loop_log[of fs stop c "[]"] assms
  by (auto simp: stt_listen_def list_all_iff intro: frame_calls_clean)

theorem listen_delivers_in_order_witness:
  "let m = \<lparr>tm_type = ''transcription'', tm_text = Some ''hola'', tm_is_final = Some True, tm_message = None,
            tm_code = None, tm_session_id = None, tm_state = None, tm_reason = None, tm_complete = Some False\<rparr>;
       c = new_stt_client\<lparr>sc_ws := True\<rparr> in
   \<exists>c'. stt_listen (\<lambda>x s. (None, s @ [x])) [(0, FrameNonJson), (1, FrameMsg m)] StopEof (c, []) =
     (None, c', [CbIncomplete None, CbTranscription ''hola'' True])"
  using listen_delivers_in_order[of "new_stt_client\<lparr>sc_ws := True\<rparr>" "[(0, FrameNonJson), (1, FrameMsg
     \<lparr>tm_type = ''transcription'', tm_text = Some ''hola'', tm_is_final = Some True, tm_message = None,
      tm_code = None, tm_session_id = None, tm_state = None, tm_reason = None, tm_complete = Some False\<rparr>)]" StopEof]
  by (simp add: frame_calls_def truthy_str_def)

text \<open>
  The supervised session is never left in RECONNECTING with nobody reconnecting: when \<open>run()\<close>
  returns, the session was closed, or the transcriber ended it cleanly (CONNECTED), or it is
  DEGRADED, which the client is told; a dropped connection is the only thing that reconnects.
\<close>

theorem stt_run_settles:
  assumes "stt_run lm cb ps (x, s) = Some (None, x', s')"
  shows "ss_closed x' \<or> hstate (ss_health x') = CONNECTED \<or> hstate (ss_health x') = DEGRADED"
  using assms
proof (induction lm cb ps "(x, s)" arbitrary: x s rule: stt_run.induct)
  case (2 lm cb p ps x s)
  show ?case
  proof (cases "ss_closed x")
    case False
    obtain o1 x1 where r: "ep_reconnect lm p x = (o1, x1)" by fastforce
    show ?thesis
    proof (cases "o1 = Some (Inr True)")
      case True
      obtain e c s1 where l: "stt_listen cb (ep_frames p) (ep_stop p) ((ss_client x1)\<lparr>sc_dropped := False\<rparr>, s) = (e, c, s1)"
        by (metis surj_pair)
      show ?thesis
        using 2 False r True l ep_reconnect_state[of lm p x True x1]
        by (auto simp: Let_def split: if_splits option.splits)
    next
      case False
      then show ?thesis
        using 2(2) \<open>\<not> ss_closed x\<close> r ep_reconnect_state[of lm p x False x1]
        by (auto split: option.splits sum.splits bool.splits)
    qed
  qed (use 2 in auto)
qed (auto split: if_splits)

theorem stt_run_settles_witness:
  "let x = new_stt_session\<lparr>ss_health := new_health ''transcriber'' RECONNECTING\<rparr>;
       p = \<lparr>ep_fuel = 2, ep_att = (\<lambda>_. None), ep_dur = (\<lambda>_. 1), ep_late = (\<lambda>_. 0), ep_start = 0,
            ep_client = (\<lambda>c. c\<lparr>sc_ws := True\<rparr>), ep_frames = [], ep_stop = StopEof, ep_closed = False\<rparr> in
   \<exists>x'. stt_run \<lparr>sl_initial = 1, sl_max = 2, sl_duration = 3\<rparr> (\<lambda>c s. (None, s)) [p] (x, ()) = Some (None, x', ()) \<and>
     (ss_closed x' \<or> hstate (ss_health x') = CONNECTED \<or> hstate (ss_health x') = DEGRADED)"
proof -
  let ?x = "new_stt_session\<lparr>ss_health := new_health ''transcriber'' RECONNECTING\<rparr>"
  let ?p = "\<lparr>ep_fuel = 2, ep_att = (\<lambda>_. None), ep_dur = (\<lambda>_. 1), ep_late = (\<lambda>_. 0), ep_start = 0,
            ep_client = (\<lambda>c. c\<lparr>sc_ws := True\<rparr>), ep_frames = [], ep_stop = StopEof, ep_closed = False\<rparr>"
  obtain x' where e: "stt_run \<lparr>sl_initial = 1, sl_max = 2, sl_duration = 3\<rparr> (\<lambda>c s. (None, s)) [?p] (?x, ()) = Some (None, x', ())"
    by (simp add: ep_reconnect_def reconnect_with_backoff_def numeral_2_eq_2 new_health_def stt_listen_def
        new_stt_session_def new_stt_client_def Let_def)
  show ?thesis using stt_run_settles[OF e] e unfolding Let_def by blast
qed

end
