(* ===== verification/TTS.thy ===== *)
theory TTS
  imports Backoff_Gate Outbound
begin

text \<open>
  \<open>TTSClient\<close> (\<open>services/tts_client.py\<close>), one synthesis per turn, and \<open>ReconnectingTTSClient\<close>
  (\<open>services/tts_reconnecting.py\<close>), which gates the attempts behind the lazy backoff (theory
  Backoff\_Gate). The reader task fills a queue the audio generator empties: the steps of both are
  interleaved. A text frame is what \<open>json.loads\<close> makes of it.
\<close>

definition MAX_BUFFER_BYTES :: int where "MAX_BUFFER_BYTES = 10 * 1024 * 1024"

datatype reader = ReaderNone | ReaderRunning | ReaderOver

datatype tts_out = TtsAuth json | TtsToken string | TtsEnd

record tts_client =
  tc_ws :: bool
  tc_out :: "bytes option list"
  tc_buffered :: int
  tc_reader :: reader
  tc_sent :: "tts_out list"

definition new_tts_client :: tts_client where
  "new_tts_client = \<lparr>tc_ws = False, tc_out = [], tc_buffered = 0, tc_reader = ReaderNone, tc_sent = []\<rparr>"

section \<open>Authentication\<close>

record tts_env =
  tte_open :: "exn option"
  tte_send :: "exn option"
  tte_auth :: "exn + json option"

definition auth_msg :: "string \<Rightarrow> string option \<Rightarrow> rat option \<Rightarrow> json" where
  "auth_msg token voice speed =
     JObj ([(''type'', JStr ''auth''), (''token'', JStr token)] @
           (case voice of None \<Rightarrow> [] | Some v \<Rightarrow> [(''voice'', JStr v)]) @
           (case speed of None \<Rightarrow> [] | Some v \<Rightarrow> [(''speed'', JFloat v)]))"

text \<open>\<open>connect()\<close>: every rejection is a \<open>RuntimeError\<close>; a timeout or a cancellation leaves as it is.\<close>

definition tts_connect ::
  "tts_env \<Rightarrow> string \<Rightarrow> string option \<Rightarrow> rat option \<Rightarrow> tts_client \<Rightarrow> exn option \<times> tts_client" where
  "tts_connect w token voice speed c =
     (case tte_open w of
        Some e \<Rightarrow> (Some e, c\<lparr>tc_ws := False\<rparr>)
      | None \<Rightarrow>
          let c1 = c\<lparr>tc_ws := True\<rparr>;
              r = (case tte_send w of
                     Some e \<Rightarrow> (Some e, c1)
                   | None \<Rightarrow>
                       let c2 = c1\<lparr>tc_sent := tc_sent c @ [TtsAuth (auth_msg token voice speed)]\<rparr> in
                       (case tte_auth w of
                          Inl (ConnectionClosed _) \<Rightarrow> (Some RuntimeError, c2)
                        | Inl e \<Rightarrow> (Some e, c2)
                        | Inr None \<Rightarrow> (Some RuntimeError, c2)
                        | Inr (Some (JObj msg)) \<Rightarrow>
                            if dget msg ''type'' \<noteq> JStr ''auth_ok'' then (Some RuntimeError, c2) else (None, c2)
                        | Inr (Some _) \<Rightarrow> (Some RuntimeError, c2)))
          in if fst r = None then r else (fst r, (snd r)\<lparr>tc_ws := False\<rparr>))"

definition tts_send :: "exn option \<Rightarrow> tts_out \<Rightarrow> tts_client \<Rightarrow> exn option \<times> tts_client" where
  "tts_send r x c =
     (if \<not> tc_ws c then (None, c)
      else case r of
        None \<Rightarrow> (None, c\<lparr>tc_sent := tc_sent c @ [x]\<rparr>)
      | Some (ConnectionClosed _) \<Rightarrow> (None, c)
      | Some e \<Rightarrow> (Some e, c))"

definition send_text_chunk :: "exn option \<Rightarrow> string \<Rightarrow> tts_client \<Rightarrow> exn option \<times> tts_client" where
  "send_text_chunk r s c = tts_send r (TtsToken s) c"

definition tts_end :: "exn option \<Rightarrow> tts_client \<Rightarrow> exn option \<times> tts_client" where
  "tts_end r c = tts_send r TtsEnd c"

section \<open>Audio\<close>

text \<open>\<open>ws_msg\<close>: a binary message or a text one; \<open>reader_over\<close> is the \<open>finally\<close> of \<open>_read\<close>.\<close>

datatype ws_msg = WsBytes bytes | WsText "json option"

definition reader_over :: "tts_client \<Rightarrow> tts_client" where
  "reader_over c = c\<lparr>tc_out := tc_out c @ [None], tc_reader := ReaderOver\<rparr>"

definition read_msg :: "ws_msg \<Rightarrow> tts_client \<Rightarrow> tts_client" where
  "read_msg m c =
     (if tc_reader c \<noteq> ReaderRunning then c
      else case m of
        WsBytes b \<Rightarrow>
          if tc_buffered c + int (length b) > MAX_BUFFER_BYTES then reader_over c
          else c\<lparr>tc_buffered := tc_buffered c + int (length b), tc_out := tc_out c @ [Some b]\<rparr>
      | WsText (Some (JObj d)) \<Rightarrow>
          if dget d ''type'' = JStr ''done'' \<or> dget d ''type'' = JStr ''error'' then reader_over c else c
      | WsText _ \<Rightarrow> c)"

text \<open>The end of the socket for the reader: it closed, failed, or the task was cancelled.\<close>

definition read_end :: "tts_client \<Rightarrow> tts_client" where
  "read_end c = (if tc_reader c = ReaderRunning then reader_over c else c)"

text \<open>\<open>get_audio_stream()\<close>: its start, and one resumption; \<open>None\<close>: it waits for an item.\<close>

datatype audio_item = AudioFrame bytes | AudioStop

definition stream_start :: "tts_client \<Rightarrow> bool \<times> tts_client" where
  "stream_start c =
     (if \<not> tc_ws c then (False, c)
      else (True, if tc_reader c = ReaderNone then c\<lparr>tc_reader := ReaderRunning\<rparr> else c))"

definition stream_next :: "tts_client \<Rightarrow> (audio_item \<times> tts_client) option" where
  "stream_next c =
     (case tc_out c of
        [] \<Rightarrow> None
      | None # rest \<Rightarrow> Some (AudioStop, c\<lparr>tc_out := rest @ [None]\<rparr>)
      | Some b # rest \<Rightarrow> Some (AudioFrame b, c\<lparr>tc_out := rest, tc_buffered := tc_buffered c - int (length b)\<rparr>))"

definition tts_close :: "tts_client \<Rightarrow> tts_client" where
  "tts_close c = (if \<not> tc_ws c then c else read_end c)"

section \<open>ReconnectingTTSClient\<close>

record tts_provider =
  tp_gate :: gate
  tp_health :: service_health

definition new_tts_provider :: "time \<Rightarrow> time \<Rightarrow> tts_provider" where
  "new_tts_provider initial maxb = \<lparr>tp_gate = new_gate initial maxb, tp_health = new_health ''tts'' CONNECTED\<rparr>"

definition tp_record_failure :: "time \<Rightarrow> nat \<Rightarrow> exn \<Rightarrow> tts_provider \<Rightarrow> tts_provider" where
  "tp_record_failure now tk e p =
     (case gate_record_failure now tk (tp_gate p) of
        (False, g) \<Rightarrow> p\<lparr>tp_gate := g\<rparr>
      | (True, g) \<Rightarrow> p\<lparr>tp_gate := g,
            tp_health := set_state RECONNECTING (mark_attempt_failed (describe_error e) (tp_health p))\<rparr>)"

definition tp_record_success :: "time \<Rightarrow> tts_provider \<Rightarrow> tts_provider" where
  "tp_record_success now p =
     p\<lparr>tp_gate := gate_record_success (tp_gate p), tp_health := mark_connected now (tp_health p)\<rparr>"

text \<open>
  \<open>connect()\<close> of the provider is interleaved with the ones of other turns: its start, which hands
  out the token (no attempt inside the backoff window), and its end with the outcome.
\<close>

definition tp_connect_begin :: "time \<Rightarrow> tts_provider \<Rightarrow> nat option \<times> tts_provider" where
  "tp_connect_begin now p = (let (tk, g) = gate_begin now (tp_gate p) in (tk, p\<lparr>tp_gate := g\<rparr>))"

definition tp_connect_end ::
  "time \<Rightarrow> nat \<Rightarrow> exn option \<times> tts_client \<Rightarrow> tts_provider \<Rightarrow> (exn + tts_client option) \<times> tts_provider" where
  "tp_connect_end now tk r p =
     (case r of
        (None, c) \<Rightarrow> (Inr (Some c), tp_record_success now p)
      | (Some e, c) \<Rightarrow> if is_Exception e then (Inr None, tp_record_failure now tk e p) else (Inl e, p))"

section \<open>Invariant of the audio path\<close>

definition queued_audio :: "tts_client \<Rightarrow> bytes list" where
  "queued_audio c = List.map_filter id (tc_out c)"

definition tts_inv :: "tts_client \<Rightarrow> bool" where
  "tts_inv c \<longleftrightarrow>
     tc_buffered c = (\<Sum>b\<leftarrow>queued_audio c. int (length b)) \<and> tc_buffered c \<le> MAX_BUFFER_BYTES \<and>
     (if tc_reader c = ReaderOver
      then (\<exists>bs. tc_out c = map Some bs @ [None]) else None \<notin> set (tc_out c))"

lemma map_filter_Some [simp]: "List.map_filter id (map Some bs) = bs"
  by (induction bs) (simp_all add: List.map_filter_simps)

lemma no_None_conv: "None \<notin> set xs \<longleftrightarrow> (\<exists>bs. xs = map Some bs)"
proof (induction xs)
  case (Cons x xs)
  then show ?case
  proof (cases x)
    case (Some b)
    then show ?thesis using Cons by (auto intro: exI[of _ "b # _"] simp: Cons_eq_map_conv)
  qed auto
qed simp

datatype tts_step = RdMsg ws_msg | RdEnd | Take

text \<open>What the consumer has received so far is part of the run.\<close>

fun tts_apply :: "tts_client \<times> bytes list \<Rightarrow> tts_step \<Rightarrow> tts_client \<times> bytes list" where
  "tts_apply (c, got) (RdMsg m) = (read_msg m c, got)"
| "tts_apply (c, got) RdEnd = (read_end c, got)"
| "tts_apply (c, got) Take =
     (case stream_next c of
        Some (AudioFrame b, c') \<Rightarrow> (c', got @ [b]) | Some (AudioStop, c') \<Rightarrow> (c', got) | None \<Rightarrow> (c, got))"

text \<open>The audio the reader accepts along a run.\<close>

fun tts_accepted :: "tts_client \<times> bytes list \<Rightarrow> tts_step list \<Rightarrow> bytes list" where
  "tts_accepted x [] = []"
| "tts_accepted (c, got) (RdMsg (WsBytes b) # ops) =
     (if tc_reader c = ReaderRunning \<and> tc_buffered c + int (length b) \<le> MAX_BUFFER_BYTES
      then b # tts_accepted (tts_apply (c, got) (RdMsg (WsBytes b))) ops
      else tts_accepted (tts_apply (c, got) (RdMsg (WsBytes b))) ops)"
| "tts_accepted x (a # ops) = tts_accepted (tts_apply x a) ops"

lemma queued_simps [simp]:
  "queued_audio (c\<lparr>tc_reader := r\<rparr>) = queued_audio c" "queued_audio (c\<lparr>tc_buffered := n\<rparr>) = queued_audio c"
  by (simp_all add: queued_audio_def)

lemma reader_over_inv: "tts_inv c \<Longrightarrow> tc_reader c = ReaderRunning \<Longrightarrow>
    tts_inv (reader_over c) \<and> queued_audio (reader_over c) = queued_audio c"
  by (auto simp: tts_inv_def reader_over_def queued_audio_def map_filter_append List.map_filter_simps no_None_conv)

lemma read_msg_inv:
  "tts_inv c \<Longrightarrow> tts_inv (read_msg m c) \<and>
   queued_audio (read_msg m c) = queued_audio c @
     (case m of WsBytes b \<Rightarrow> if tc_reader c = ReaderRunning \<and> tc_buffered c + int (length b) \<le> MAX_BUFFER_BYTES
                             then [b] else [] | _ \<Rightarrow> [])"
proof (cases "tc_reader c = ReaderRunning")
  case True
  assume i: "tts_inv c"
  show ?thesis
  proof (cases m)
    case (WsBytes b)
    then show ?thesis using i True reader_over_inv[OF i True]
      by (auto simp: read_msg_def tts_inv_def queued_audio_def map_filter_append List.map_filter_simps)
  next
    case (WsText x)
    then show ?thesis using i True reader_over_inv[OF i True]
      by (auto simp: read_msg_def split: option.splits json.splits)
  qed
next
  case False
  assume i: "tts_inv c"
  then show ?thesis using False by (auto simp: read_msg_def split: ws_msg.splits)
qed

lemma stream_next_inv:
  assumes "tts_inv c" "stream_next c = Some (x, c')"
  shows "tts_inv c' \<and> (case x of AudioFrame b \<Rightarrow> queued_audio c = b # queued_audio c'
                        | AudioStop \<Rightarrow> queued_audio c = [] \<and> c' = c)"
proof (cases "tc_out c")
  case (Cons y rest)
  show ?thesis
  proof (cases y)
    case None
    then have r: "tc_reader c = ReaderOver" "rest = []"
      using assms(1) Cons by (auto simp: tts_inv_def Cons_eq_append_conv split: if_splits)
    then have "c' = c\<lparr>tc_out := tc_out c\<rparr>" using assms(2) Cons None by (auto simp: stream_next_def)
    then have "c' = c" by simp
    then show ?thesis using assms Cons None r by (auto simp: stream_next_def queued_audio_def List.map_filter_simps)
  next
    case (Some b)
    then show ?thesis using assms Cons
      by (auto simp: stream_next_def tts_inv_def queued_audio_def List.map_filter_simps Cons_eq_append_conv
          Cons_eq_map_conv split: if_splits)
  qed
qed (use assms in \<open>simp add: stream_next_def\<close>)

lemma tts_apply_inv:
  assumes "tts_inv c" "tts_apply (c, got) a = (c', got')"
  shows "tts_inv c' \<and> got' @ queued_audio c' = got @ queued_audio c @ tts_accepted (c, got) [a]"
proof (cases a)
  case (RdMsg m)
  then show ?thesis using assms read_msg_inv[OF assms(1), of m] by (cases m) auto
next
  case RdEnd
  then show ?thesis using assms reader_over_inv[OF assms(1)] by (auto simp: read_end_def)
next
  case Take
  then show ?thesis using assms stream_next_inv[OF assms(1)]
    by (cases "stream_next c") (auto split: audio_item.splits)
qed

lemma tts_accepted_Cons:
  "tts_accepted (c, got) (a # ops) = tts_accepted (c, got) [a] @ tts_accepted (tts_apply (c, got) a) ops"
proof (cases a)
  case (RdMsg m)
  then show ?thesis by (cases m) auto
qed auto

lemma tts_run_inv:
  "tts_inv c \<Longrightarrow> foldl tts_apply (c, got) ops = (c', got') \<Longrightarrow>
   tts_inv c' \<and> got' @ queued_audio c' = got @ queued_audio c @ tts_accepted (c, got) ops"
proof (induction ops arbitrary: c got)
  case (Cons a ops)
  obtain c1 got1 where a: "tts_apply (c, got) a = (c1, got1)" by fastforce
  note s = tts_apply_inv[OF Cons.prems(1) a]
  show ?case
    using Cons.IH[of c1 got1] Cons.prems(2) a s tts_accepted_Cons[of c got a ops] by auto
qed simp

section \<open>Properties\<close>

text \<open>
  Whatever the interleaving of the reader and the player, the audio of a turn reaches the player
  in order, without loss or repetition, of what the reader accepted; the buffer never exceeds
  10 MiB and its byte count is exact; and once the reader is over, in any way, the stream always ends:
  a player never waits for ever on a finished synthesis.
\<close>

theorem tts_audio_exact:
  fixes ops :: "tts_step list"
  defines "r \<equiv> foldl tts_apply (new_tts_client\<lparr>tc_ws := True, tc_reader := ReaderRunning\<rparr>, []) ops"
  shows "snd r @ queued_audio (fst r) =
           tts_accepted (new_tts_client\<lparr>tc_ws := True, tc_reader := ReaderRunning\<rparr>, []) ops \<and>
         tc_buffered (fst r) = (\<Sum>b\<leftarrow>queued_audio (fst r). int (length b)) \<and>
         tc_buffered (fst r) \<le> 10485760 \<and>
         (tc_reader (fst r) = ReaderOver \<longrightarrow> stream_next (fst r) \<noteq> None)"
proof -
  let ?c = "new_tts_client\<lparr>tc_ws := True, tc_reader := ReaderRunning\<rparr>"
  have "tts_inv ?c"
    by (simp add: tts_inv_def new_tts_client_def queued_audio_def List.map_filter_simps MAX_BUFFER_BYTES_def)
  from tts_run_inv[OF this, of "[]" ops "fst r" "snd r"]
  have i: "tts_inv (fst r)" and e: "snd r @ queued_audio (fst r) = queued_audio ?c @ tts_accepted (?c, []) ops"
    by (simp_all add: r_def)
  have "queued_audio ?c = []"
    by (simp add: new_tts_client_def queued_audio_def List.map_filter_simps)
  then show ?thesis using i e
    by (auto simp: tts_inv_def MAX_BUFFER_BYTES_def stream_next_def split: list.splits option.splits)
qed

theorem tts_audio_exact_witness:
  "let r = foldl tts_apply (new_tts_client\<lparr>tc_ws := True, tc_reader := ReaderRunning\<rparr>, [])
             [RdMsg (WsBytes [1]), RdMsg (WsText None), RdMsg (WsBytes [2, 3]), Take, RdEnd] in
   tc_reader (fst r) = ReaderOver \<and> stream_next (fst r) \<noteq> None \<and> snd r @ queued_audio (fst r) = [[1], [2, 3]]"
  using tts_audio_exact[of "[RdMsg (WsBytes [1]), RdMsg (WsText None), RdMsg (WsBytes [2, 3]), Take, RdEnd]"]
  by (simp add: new_tts_client_def read_msg_def MAX_BUFFER_BYTES_def stream_next_def read_end_def reader_over_def)

end
