(* ===== verification/Network.thy ===== *)
theory Network
  imports Prelude "HOL-Library.Word"
begin

unbundle bit_operations_syntax

text \<open>
  \<open>core/network.py\<close>: which origin a connection is judged by. What the source uses of Python's
  \<open>ipaddress\<close> is modelled first: parsing of IPv4 and IPv6 addresses and networks, membership and
  loopback. An address is a 32-bit or a 128-bit word.
\<close>

section \<open>Addresses\<close>

datatype ip_addr = IPv4 "32 word" | IPv6 "128 word"

fun split_on :: "char \<Rightarrow> string \<Rightarrow> string list" where
  "split_on c [] = [[]]"
| "split_on c (x # xs) =
     (if x = c then [] # split_on c xs
      else case split_on c xs of [] \<Rightarrow> [[x]] | p # ps \<Rightarrow> (x # p) # ps)"

definition hex_value :: "char \<Rightarrow> nat option" where
  "hex_value c =
     (let n = (of_char c :: nat) in
      if 48 \<le> n \<and> n \<le> 57 then Some (n - 48)
      else if 97 \<le> n \<and> n \<le> 102 then Some (n - 87)
      else if 65 \<le> n \<and> n \<le> 70 then Some (n - 55) else None)"

definition dec_value :: "string \<Rightarrow> nat option" where
  "dec_value s =
     (if s \<noteq> [] \<and> list_all py_digit s then Some (foldl (\<lambda>a c. a * 10 + (of_char c - 48)) 0 s) else None)"

definition parse_octet :: "string \<Rightarrow> nat option" where
  "parse_octet s =
     (if length s > 3 \<or> (s \<noteq> ''0'' \<and> take 1 s = ''0'') then None
      else case dec_value s of None \<Rightarrow> None | Some n \<Rightarrow> if n > 255 then None else Some n)"

definition ipv4_of_string :: "string \<Rightarrow> 32 word option" where
  "ipv4_of_string s =
     (case map parse_octet (split_on CHR ''.'' s) of
        [Some a, Some b, Some c, Some d] \<Rightarrow> Some (of_nat (((a * 256 + b) * 256 + c) * 256 + d))
      | _ \<Rightarrow> None)"

text \<open>A part of an IPv6 address: text between colons, or a half of an IPv4-style suffix.\<close>

datatype ip_part = PText string | PVal nat

definition part_empty :: "ip_part \<Rightarrow> bool" where
  "part_empty p \<longleftrightarrow> p = PText []"

definition parse_hextet :: "ip_part \<Rightarrow> nat option" where
  "parse_hextet p =
     (case p of
        PVal n \<Rightarrow> Some n
      | PText s \<Rightarrow>
          if s = [] \<or> length s > 4 \<or> \<not> list_all (\<lambda>c. hex_value c \<noteq> None) s then None
          else Some (foldl (\<lambda>a c. a * 16 + the (hex_value c)) 0 s))"

definition ipv6_parts :: "string \<Rightarrow> ip_part list option" where
  "ipv6_parts s =
     (let ps = split_on CHR '':'' s in
      if length ps < 3 then None
      else if CHR ''.'' \<in> set (last ps) then
        (case ipv4_of_string (last ps) of
           None \<Rightarrow> None
         | Some w \<Rightarrow> Some (map PText (butlast ps) @ [PVal (unat w div 65536), PVal (unat w mod 65536)]))
      else Some (map PText ps))"

definition hextets :: "ip_part list \<Rightarrow> nat list option" where
  "hextets ps =
     (let hs = map parse_hextet ps in if None \<in> set hs then None else Some (map the hs))"

definition ipv6_of_parts :: "ip_part list \<Rightarrow> 128 word option" where
  "ipv6_of_parts ps =
     (let n = length ps; skips = filter (\<lambda>i. part_empty (ps ! i)) [1..<n - 1];
          value = (\<lambda>hs. Some (of_nat (foldl (\<lambda>a h. a * 65536 + h) 0 hs))) in
      if n > 9 then None
      else case skips of
        [] \<Rightarrow>
          if n \<noteq> 8 \<or> part_empty (hd ps) \<or> part_empty (last ps) then None
          else (case hextets ps of None \<Rightarrow> None | Some hs \<Rightarrow> value hs)
      | [i] \<Rightarrow>
          (let hi = (if part_empty (hd ps) then i - 1 else i);
               lo = (if part_empty (last ps) then n - i - 2 else n - i - 1) in
           if (part_empty (hd ps) \<and> hi \<noteq> 0) \<or> (part_empty (last ps) \<and> lo \<noteq> 0) \<or> hi + lo > 7 then None
           else case (hextets (take hi ps), hextets (drop (n - lo) ps)) of
             (Some hs, Some ls) \<Rightarrow> value (hs @ replicate (8 - (hi + lo)) 0 @ ls)
           | _ \<Rightarrow> None)
      | _ \<Rightarrow> None)"

definition ipv6_of_string :: "string \<Rightarrow> 128 word option" where
  "ipv6_of_string s =
     (case split_on CHR ''%'' s of
        [addr] \<Rightarrow> Option.bind (ipv6_parts addr) ipv6_of_parts
      | [addr, scope] \<Rightarrow> if scope = [] then None else Option.bind (ipv6_parts addr) ipv6_of_parts
      | _ \<Rightarrow> None)"

text \<open>\<open>ipaddress.ip_address\<close>; \<open>None\<close> is \<open>ValueError\<close>.\<close>

definition ip_address :: "string \<Rightarrow> ip_addr option" where
  "ip_address s =
     (case ipv4_of_string s of
        Some w \<Rightarrow> Some (IPv4 w)
      | None \<Rightarrow> if CHR ''/'' \<in> set s then None else map_option IPv6 (ipv6_of_string s))"

definition is_loopback :: "ip_addr \<Rightarrow> bool" where
  "is_loopback a =
     (case a of
        IPv4 w \<Rightarrow> drop_bit 24 w = 127
      | IPv6 w \<Rightarrow> if drop_bit 32 w = 65535 then (drop_bit 24 w AND 255) = 127 else w = 1)"

section \<open>Networks\<close>

datatype ip_net = Net4 "32 word" nat | Net6 "128 word" nat

definition netmask_prefix :: "32 word \<Rightarrow> nat option" where
  "netmask_prefix w = find (\<lambda>p. w = push_bit (32 - p) (mask p)) [0..<33]"

definition prefix_of_string :: "nat \<Rightarrow> string \<Rightarrow> nat option" where
  "prefix_of_string limit s =
     (case dec_value s of Some p \<Rightarrow> if p \<le> limit then Some p else None | None \<Rightarrow> None)"

definition prefix4 :: "string \<Rightarrow> nat option" where
  "prefix4 s =
     (case prefix_of_string 32 s of
        Some p \<Rightarrow> Some p
      | None \<Rightarrow>
          (case ipv4_of_string s of
             None \<Rightarrow> None
           | Some w \<Rightarrow> (case netmask_prefix w of Some p \<Rightarrow> Some p | None \<Rightarrow> netmask_prefix (NOT w))))"

text \<open>\<open>ipaddress.ip_network(s, strict=False)\<close>.\<close>

definition ip_network :: "string \<Rightarrow> ip_net option" where
  "ip_network s =
     (case split_on CHR ''/'' s of
        [addr] \<Rightarrow>
          (case ipv4_of_string addr of
             Some w \<Rightarrow> Some (Net4 w 32)
           | None \<Rightarrow> map_option (\<lambda>w. Net6 w 128) (ipv6_of_string addr))
      | [addr, pre] \<Rightarrow>
          (case (ipv4_of_string addr, prefix4 pre) of
             (Some w, Some p) \<Rightarrow> Some (Net4 w p)
           | _ \<Rightarrow>
               (case (ipv6_of_string addr, prefix_of_string 128 pre) of
                  (Some w, Some p) \<Rightarrow> Some (Net6 w p)
                | _ \<Rightarrow> None))
      | _ \<Rightarrow> None)"

definition in_net :: "ip_addr \<Rightarrow> ip_net \<Rightarrow> bool" where
  "in_net a n =
     (case (a, n) of
        (IPv4 w, Net4 v p) \<Rightarrow> drop_bit (32 - p) w = drop_bit (32 - p) v
      | (IPv6 w, Net6 v p) \<Rightarrow> drop_bit (128 - p) w = drop_bit (128 - p) v
      | _ \<Rightarrow> False)"

section \<open>Trust\<close>

record net_settings =
  TRUSTED_PROXIES :: string
  TRUSTED_NETWORKS :: string
  TRUST_LOOPBACK :: bool

definition NO_REAL_IP :: string where "NO_REAL_IP = ''proxy-without-real-ip''"

definition parse_networks :: "string \<Rightarrow> ip_net list" where
  "parse_networks csv = List.map_filter (\<lambda>raw. if strip raw = [] then None else ip_network (strip raw)) (split_on CHR '','' csv)"

definition ip_in_networks :: "string \<Rightarrow> ip_net list \<Rightarrow> bool" where
  "ip_in_networks ip_str nets =
     (case ip_address ip_str of None \<Rightarrow> False | Some ip \<Rightarrow> list_ex (in_net ip) nets)"

definition is_trusted_proxy :: "net_settings \<Rightarrow> string \<Rightarrow> bool" where
  "is_trusted_proxy s ip_str = ip_in_networks ip_str (parse_networks (TRUSTED_PROXIES s))"

definition is_trusted_origin :: "net_settings \<Rightarrow> string \<Rightarrow> bool" where
  "is_trusted_origin s ip_str =
     (case ip_address ip_str of
        None \<Rightarrow> False
      | Some ip \<Rightarrow> if TRUST_LOOPBACK s \<and> is_loopback ip then True
                   else ip_in_networks ip_str (parse_networks (TRUSTED_NETWORKS s)))"

definition warn_if_open_proxy_config :: "net_settings \<Rightarrow> bool" where
  "warn_if_open_proxy_config s \<longleftrightarrow> TRUST_LOOPBACK s \<and> parse_networks (TRUSTED_PROXIES s) = []"

text \<open>\<open>peer\<close> is the host of the TCP peer (none without a client), \<open>real_ip\<close> the \<open>X-Real-IP\<close> header.\<close>

definition resolve_client_ip :: "net_settings \<Rightarrow> string option \<Rightarrow> string option \<Rightarrow> string" where
  "resolve_client_ip s client real_ip =
     (let peer = (case client of None \<Rightarrow> [] | Some h \<Rightarrow> h) in
      if is_trusted_proxy s peer then
        (let r = strip (case real_ip of None \<Rightarrow> [] | Some h \<Rightarrow> h) in
         if ip_address r = None then NO_REAL_IP else r)
      else peer)"

section \<open>Lemmas\<close>

lemma ip_address_loopback: "ip_address ''127.0.0.1'' = Some (IPv4 2130706433)"
  by (simp add: ip_address_def ipv4_of_string_def parse_octet_def dec_value_def py_digit_def)

lemma ip_address_no_real_ip: "ip_address NO_REAL_IP = None"
  by (simp add: NO_REAL_IP_def ip_address_def ipv4_of_string_def parse_octet_def ipv6_of_string_def
      ipv6_parts_def)

lemma ip_address_empty: "ip_address [] = None"
  by (simp add: ip_address_def ipv4_of_string_def parse_octet_def dec_value_def ipv6_of_string_def ipv6_parts_def)

lemma replicate_7: "replicate 7 x = [x, x, x, x, x, x, x]"
  by (simp add: numeral_eq_Suc)

lemmas ip_defs = ip_address_def ip_network_def ipv4_of_string_def parse_octet_def dec_value_def py_digit_def
  ipv6_of_string_def ipv6_parts_def ipv6_of_parts_def part_empty_def hextets_def parse_hextet_def
  hex_value_def prefix4_def prefix_of_string_def replicate_7

lemma ip_address_v6_loopback: "ip_address ''::1'' = Some (IPv6 1)"
  by (simp add: ip_defs Let_def)

lemma ip_network_examples:
  "ip_network ''10.0.0.7/8'' = Some (Net4 167772167 8)"
  "ip_network ''fe80::/10'' = Some (Net6 338288524927261089654018896841347694592 10)" "ip_network ''10.0.0.0/33'' = None"
  "ip_address ''1.2.3'' = None" "ip_address ''01.2.3.4'' = None" "ip_address ''1::2::3'' = None"
  by (simp_all add: ip_defs Let_def)

section \<open>Properties\<close>

text \<open>
  C38: The origin check fails closed. Behind a trusted proxy a connection is trusted only through a
  well-formed \<open>X-Real-IP\<close> that is itself a trusted address, never through the address of the proxy
  (G-31); and a peer that is not a trusted proxy cannot claim another address: its header changes
  nothing.
\<close>

theorem client_ip_fails_closed:
  assumes "is_trusted_origin s (resolve_client_ip s (Some peer) hdr)"
  shows "if is_trusted_proxy s peer
         then \<exists>h. hdr = Some h \<and> resolve_client_ip s (Some peer) hdr = strip h \<and>
                  ip_address (strip h) \<noteq> None \<and> is_trusted_origin s (strip h)
         else resolve_client_ip s (Some peer) hdr = peer \<and> is_trusted_origin s peer"
proof (cases "is_trusted_proxy s peer")
  case True
  then show ?thesis using assms ip_address_no_real_ip ip_address_empty
    by (cases hdr) (auto simp: resolve_client_ip_def is_trusted_origin_def Let_def split: if_splits)
next
  case False
  then show ?thesis using assms by (simp add: resolve_client_ip_def)
qed

theorem client_ip_fails_closed_witness:
  "let s = \<lparr>TRUSTED_PROXIES = ''127.0.0.1, 10.0.0.0/8'', TRUSTED_NETWORKS = ''192.168.0.0/16'', TRUST_LOOPBACK = True\<rparr> in
   is_trusted_proxy s ''10.1.2.3'' \<and> \<not> is_trusted_origin s (resolve_client_ip s (Some ''127.0.0.1'') None) \<and>
   is_trusted_origin s (resolve_client_ip s (Some ''127.0.0.1'') (Some ''192.168.4.5 '')) \<and>
   is_trusted_origin s ''192.168.4.5''"
proof -
  let ?s = "\<lparr>TRUSTED_PROXIES = ''127.0.0.1, 10.0.0.0/8'', TRUSTED_NETWORKS = ''192.168.0.0/16'', TRUST_LOOPBACK = True\<rparr>"
  have nets: "parse_networks ''127.0.0.1, 10.0.0.0/8'' = [Net4 2130706433 32, Net4 167772160 8]"
    "parse_networks ''192.168.0.0/16'' = [Net4 3232235520 16]"
    by (simp_all add: parse_networks_def List.map_filter_simps strip_def lstrip_def rstrip_def py_isspace_def ip_defs Let_def)
  have ips: "ip_address ''10.1.2.3'' = Some (IPv4 167838211)" "ip_address ''192.168.4.5'' = Some (IPv4 3232236549)"
    by (simp_all add: ip_defs Let_def)
  have p: "is_trusted_proxy ?s ''10.1.2.3''" "is_trusted_proxy ?s ''127.0.0.1''"
    by (simp_all add: is_trusted_proxy_def ip_in_networks_def nets ips ip_address_loopback in_net_def)
  have st: "strip ''192.168.4.5 '' = ''192.168.4.5''"
    by (simp add: strip_def lstrip_def rstrip_def py_isspace_def)
  have n: "\<not> is_trusted_origin ?s (resolve_client_ip ?s (Some ''127.0.0.1'') None)"
    using client_ip_fails_closed[of ?s "''127.0.0.1''" None] p(2) by auto
  have t: "is_trusted_origin ?s (resolve_client_ip ?s (Some ''127.0.0.1'') (Some ''192.168.4.5 ''))"
    using p(2) by (simp add: resolve_client_ip_def st ips is_trusted_origin_def ip_in_networks_def nets in_net_def)
  show ?thesis using client_ip_fails_closed[OF t] p n t st by simp
qed

end
