(* ===== verification/Agent_Policy.thy ===== *)
theory Agent_Policy
  imports OpenClaw_Models
begin

text \<open>
  \<open>core/agent_policy.py\<close> and \<open>core/session_key.py\<close>'s callers: which agent a request gets and whether
  it may have it; and \<open>_parse_allowed_agents\<close> of \<open>services/db_client.py\<close>, which reads the allowlist.
  An agent is a JSON value because the gateway default comes unchecked from OpenClaw.
\<close>

definition MODEL_ALIAS :: string where "MODEL_ALIAS = ''jota-gateway''"

definition or_empty :: "string option \<Rightarrow> string" where
  "or_empty x = (case x of None \<Rightarrow> [] | Some s \<Rightarrow> s)"

definition agent_from_model :: "string option \<Rightarrow> string option" where
  "agent_from_model model =
     (let name = strip (or_empty model) in if name = [] \<or> name = MODEL_ALIAS then None else Some name)"

datatype policy_error = NotPermitted json | NotAvailable json

record agent_config =
  default_agent :: "string option"
  allowed_agents :: "string list option"

definition effective_agent :: "string option \<Rightarrow> agent_config option \<Rightarrow> gateway_info option \<Rightarrow> json" where
  "effective_agent requested cfg info =
     (case requested of
        Some r \<Rightarrow> JStr r
      | None \<Rightarrow>
          if (case cfg of Some c \<Rightarrow> or_empty (default_agent c) \<noteq> [] | None \<Rightarrow> False)
          then JStr (or_empty (default_agent (the cfg)))
          else if (case info of Some g \<Rightarrow> truthy (default_agent_id g) | None \<Rightarrow> False)
          then default_agent_id (the info)
          else JStr ''main'')"

definition resolve_agent ::
  "string option \<Rightarrow> agent_config option \<Rightarrow> gateway_info option \<Rightarrow> policy_error + json" where
  "resolve_agent requested0 cfg info =
     (let r = strip (or_empty requested0); requested = (if r = [] then None else Some r);
          effective = effective_agent requested cfg info in
      if (case cfg of
            Some c \<Rightarrow> (case allowed_agents c of Some xs \<Rightarrow> effective \<notin> JStr ` set xs | None \<Rightarrow> False)
          | None \<Rightarrow> False)
      then Inl (NotPermitted effective)
      else if requested \<noteq> None \<and> (case info of Some g \<Rightarrow> effective \<notin> set (agents g) | None \<Rightarrow> False)
      then Inl (NotAvailable effective)
      else Inr effective)"

section \<open>The stored allowlist\<close>

text \<open>
  \<open>decode\<close> is \<open>json.loads\<close> of the stored text (\<open>None\<close>: it raises \<open>ValueError\<close>), \<open>py_str\<close> is \<open>str\<close> of a
  decoded value.
\<close>

definition parse_allowed_agents ::
  "(string \<Rightarrow> json option) \<Rightarrow> (json \<Rightarrow> string) \<Rightarrow> string option \<Rightarrow> exn + string list option" where
  "parse_allowed_agents decode py_str raw =
     (if or_empty raw = [] \<or> raw = Some ''null'' then Inr None
      else case decode (or_empty raw) of
        Some (JArr xs) \<Rightarrow> Inr (Some (map py_str xs))
      | _ \<Rightarrow> Inl ValueError)"

section \<open>Properties\<close>

text \<open>
  The agent policy holds for every way an agent is chosen: the agent of a request is on the
  client's allowlist whenever there is one (an empty one denies all, defaults included), an agent the
  client asked for exists in the announced roster, and without a request the client's default wins
  over the gateway's, which wins over \<open>main\<close>.
\<close>

theorem resolve_agent_policy:
  assumes "resolve_agent rq (Some c) info = Inr a"
  shows "(\<forall>xs. allowed_agents c = Some xs \<longrightarrow> a \<in> JStr ` set xs) \<and>
         (strip (or_empty rq) \<noteq> [] \<longrightarrow> a = JStr (strip (or_empty rq)) \<and>
            (\<forall>g. info = Some g \<longrightarrow> has_agent (strip (or_empty rq)) g)) \<and>
         (strip (or_empty rq) = [] \<longrightarrow>
            a = (if or_empty (default_agent c) \<noteq> [] then JStr (or_empty (default_agent c))
                 else case info of Some g \<Rightarrow> if truthy (default_agent_id g) then default_agent_id g else JStr ''main''
                      | None \<Rightarrow> JStr ''main''))"
  using assms by (auto simp: resolve_agent_def effective_agent_def has_agent_def Let_def split: if_splits option.splits)

theorem resolve_agent_policy_witness:
  "let c = \<lparr>default_agent = Some ''home'', allowed_agents = Some [''home'', ''work'']\<rparr>;
       g = \<lparr>default_agent_id = JStr ''main'', tick_interval_ms = JInt 1, max_payload = JInt 1,
            agents = [JStr ''main'', JStr ''work'']\<rparr> in
   resolve_agent (Some ''work'') (Some c) (Some g) = Inr (JStr ''work'') \<and> has_agent ''work'' g \<and>
   resolve_agent (Some ''main'') (Some c) (Some g) = Inl (NotPermitted (JStr ''main''))"
proof -
  let ?c = "\<lparr>default_agent = Some ''home'', allowed_agents = Some [''home'', ''work'']\<rparr>"
  let ?g = "\<lparr>default_agent_id = JStr ''main'', tick_interval_ms = JInt 1, max_payload = JInt 1,
            agents = [JStr ''main'', JStr ''work'']\<rparr>"
  have s: "strip ''work'' = ''work''" "strip ''main'' = ''main''"
    by (simp_all add: strip_def lstrip_def rstrip_def py_isspace_def)
  have r: "resolve_agent (Some ''work'') (Some ?c) (Some ?g) = Inr (JStr ''work'')"
    and n: "resolve_agent (Some ''main'') (Some ?c) (Some ?g) = Inl (NotPermitted (JStr ''main''))"
    by (simp_all add: resolve_agent_def effective_agent_def or_empty_def s Let_def)
  show ?thesis using resolve_agent_policy[OF r] r n by (simp add: or_empty_def s Let_def)
qed

text \<open>
  C39: The stored allowlist is never silently bypassed: the client is unrestricted only for a
  missing, empty or \<open>null\<close> value; every other text is a list or an error, and with a list (the empty
  one included) no request gets an agent outside it.
\<close>

theorem allowlist_never_bypassed:
  assumes "parse_allowed_agents decode py_str raw = Inr al" "raw \<noteq> None" "raw \<noteq> Some []" "raw \<noteq> Some ''null''"
    and "resolve_agent rq (Some \<lparr>default_agent = d, allowed_agents = al\<rparr>) info = Inr a"
  shows "\<exists>xs. decode (or_empty raw) = Some (JArr xs) \<and> a \<in> JStr ` py_str ` set xs"
proof -
  obtain s where s: "raw = Some s" using assms(2) by auto
  obtain xs where xs: "decode s = Some (JArr xs)" "al = Some (map py_str xs)"
    using assms(1,3,4) s by (auto simp: parse_allowed_agents_def or_empty_def split: option.splits json.splits)
  then show ?thesis
    using assms(5) s
    by (auto simp: resolve_agent_def or_empty_def Let_def split: if_splits)
qed

theorem allowlist_never_bypassed_witness:
  "let decode = (\<lambda>s. if s = ''[x]'' then Some (JArr [JStr ''x'']) else None); py_str = (\<lambda>j. case j of JStr s \<Rightarrow> s | _ \<Rightarrow> []) in
   parse_allowed_agents decode py_str (Some ''[x]'') = Inr (Some [''x'']) \<and>
   (\<exists>xs. decode ''[x]'' = Some (JArr xs) \<and> JStr ''x'' \<in> JStr ` py_str ` set xs)"
proof -
  let ?dec = "\<lambda>s. if s = ''[x]'' then Some (JArr [JStr ''x'']) else None"
  let ?str = "\<lambda>j. case j of JStr s \<Rightarrow> s | _ \<Rightarrow> []"
  have p: "parse_allowed_agents ?dec ?str (Some ''[x]'') = Inr (Some [''x''])"
    by (simp add: parse_allowed_agents_def or_empty_def)
  have r: "resolve_agent None (Some \<lparr>default_agent = Some ''x'', allowed_agents = Some [''x'']\<rparr>) None = Inr (JStr ''x'')"
    by (simp add: resolve_agent_def effective_agent_def or_empty_def)
  show ?thesis using allowlist_never_bypassed[OF p _ _ _ r] p by (simp add: or_empty_def)
qed

end
