(* ===== verification/Audio.thy ===== *)
theory Audio
  imports Outbound "HOL-Library.Word"
begin

text \<open>
  \<open>services/speech/audio.py\<close>: the conversion of Float32 samples to PCM16 and the energy gate, and
  \<open>resolve_voice\<close> of \<open>services/speech/voices.py\<close>. A float32 is decoded to its exact value; the
  products of \<open>f32le_to_s16le\<close> are exact in a double (at most 39 significant bits), so the rational
  computation is the code's. The gate's power and durations are exact here, and \<open>math.log10\<close>
  is the parameter \<open>log10\<close>, used only on positive finite values.
\<close>

section \<open>Float32 to PCM16\<close>

datatype f32 = FNaN | FInf bool | FFin rat

definition f32_of_nat :: "nat \<Rightarrow> f32" where
  "f32_of_nat n =
     (let neg = (n div 2 ^ 31 = 1); e = n div 2 ^ 23 mod 256; m = n mod 2 ^ 23;
          v = (if e = 0 then of_nat m / 2 ^ 149
               else if e \<le> 150 then of_nat (2 ^ 23 + m) / 2 ^ (150 - e)
               else of_nat (2 ^ 23 + m) * 2 ^ (e - 150))
      in if e = 255 then (if m = 0 then FInf neg else FNaN)
         else FFin (if neg then - v else v))"

fun floats :: "8 word list \<Rightarrow> f32 list" where
  "floats (a # b # c # d # rest) =
     f32_of_nat (unat a + 256 * unat b + 65536 * unat c + 16777216 * unat d) # floats rest"
| "floats _ = []"

definition py_int :: "rat \<Rightarrow> int" where
  "py_int x = (if x < 0 then - \<lfloor>- x\<rfloor> else \<lfloor>x\<rfloor>)"

fun clamp1 :: "f32 \<Rightarrow> rat" where
  "clamp1 FNaN = 0"
| "clamp1 (FInf neg) = (if neg then - 1 else 1)"
| "clamp1 (FFin x) = max (- 1) (min 1 x)"

definition s16_sample :: "f32 \<Rightarrow> int" where
  "s16_sample f =
     (if f = FNaN then 0
      else let x = clamp1 f in
        if 1 \<le> x then 32767 else if x < 0 then py_int (x * 32768) else py_int (x * 32767))"

text \<open>\<open>array("h").append\<close> raises outside 16 bits: \<open>None\<close>.\<close>

definition s16_bytes :: "int \<Rightarrow> 8 word list option" where
  "s16_bytes i =
     (if - 32768 \<le> i \<and> i \<le> 32767 then Some [word_of_int i, word_of_int (i div 256)] else None)"

fun append_samples :: "f32 list \<Rightarrow> 8 word list option" where
  "append_samples [] = Some []"
| "append_samples (f # fs) =
     (case s16_bytes (s16_sample f) of
        None \<Rightarrow> None
      | Some b \<Rightarrow> map_option (\<lambda>r. b @ r) (append_samples fs))"

definition f32le_to_s16le :: "8 word list \<Rightarrow> 8 word list option" where
  "f32le_to_s16le frame = append_samples (floats frame)"

text \<open>How a receiver reads PCM16 little endian.\<close>

fun s16_samples :: "8 word list \<Rightarrow> int list" where
  "s16_samples (a # b # rest) = (uint a + 256 * sint b) # s16_samples rest"
| "s16_samples _ = []"

lemma py_int_bounds:
  "- 32768 \<le> x \<Longrightarrow> x \<le> 32767 \<Longrightarrow> - 32768 \<le> py_int x \<and> py_int x \<le> 32767"
  by (auto simp: py_int_def floor_le_iff le_floor_iff) linarith

lemma clamp1_range: "- 1 \<le> clamp1 f \<and> clamp1 f \<le> 1"
  by (cases f) auto

lemma s16_sample_range: "- 32768 \<le> s16_sample f \<and> s16_sample f \<le> 32767"
proof -
  have c: "- 1 \<le> clamp1 f" "clamp1 f \<le> 1" using clamp1_range by auto
  have 1: "clamp1 f < 0 \<Longrightarrow> - 32768 \<le> clamp1 f * 32768 \<and> clamp1 f * 32768 \<le> 32767"
    using c by linarith
  have 2: "\<not> clamp1 f < 0 \<Longrightarrow> - 32768 \<le> clamp1 f * 32767 \<and> clamp1 f * 32767 \<le> 32767"
    using c by linarith
  show ?thesis using py_int_bounds 1 2 by (auto simp: s16_sample_def Let_def)
qed

lemma py_int_mono: "x \<le> y \<Longrightarrow> py_int x \<le> py_int y"
proof -
  assume xy: "x \<le> y"
  consider "y < 0" | "x < 0" "0 \<le> y" | "0 \<le> x" by linarith
  then show ?thesis
  proof cases
    case 1
    have "\<lfloor>- y\<rfloor> \<le> \<lfloor>- x\<rfloor>" using xy by (intro floor_mono) simp
    then show ?thesis using xy 1 by (simp add: py_int_def)
  next
    case 2
    have "0 \<le> \<lfloor>- x\<rfloor>" "0 \<le> \<lfloor>y\<rfloor>" using 2 by auto
    then have "- \<lfloor>- x\<rfloor> \<le> \<lfloor>y\<rfloor>" by linarith
    then show ?thesis using 2 unfolding py_int_def by simp
  next
    case 3
    have "\<lfloor>x\<rfloor> \<le> \<lfloor>y\<rfloor>" using xy by (rule floor_mono)
    then show ?thesis using xy 3 by (simp add: py_int_def)
  qed
qed

lemma py_int_sign: "x < 0 \<Longrightarrow> py_int x \<le> 0" "0 \<le> x \<Longrightarrow> 0 \<le> py_int x"
  by (auto simp: py_int_def)

lemma s16_sample_mono: "x \<le> y \<Longrightarrow> s16_sample (FFin x) \<le> s16_sample (FFin y)"
proof -
  assume xy: "x \<le> y"
  have le: "clamp1 (FFin x) \<le> clamp1 (FFin y)" using xy by auto
  define a where "a = clamp1 (FFin x)"
  define b where "b = clamp1 (FFin y)"
  have ab: "a \<le> b" using le by (simp add: a_def b_def)
  have v: "s16_sample (FFin x) = (if 1 \<le> a then 32767 else if a < 0 then py_int (a * 32768) else py_int (a * 32767))"
    "s16_sample (FFin y) = (if 1 \<le> b then 32767 else if b < 0 then py_int (b * 32768) else py_int (b * 32767))"
    by (simp_all add: s16_sample_def Let_def a_def b_def)
  have "s16_sample (FFin x) \<le> 32767" using s16_sample_range by blast
  moreover have "\<not> 1 \<le> b \<Longrightarrow> ?thesis"
    using ab py_int_sign[of "a * 32768"] py_int_sign[of "b * 32767"] v
    by (auto intro!: py_int_mono) (meson dual_order.trans)?
  ultimately show ?thesis using v by (cases "1 \<le> b") auto
qed

lemma sint8: "- 128 \<le> i \<Longrightarrow> i < 128 \<Longrightarrow> sint (word_of_int i :: 8 word) = i"
  by (simp add: sint_sbintrunc' signed_take_bit_int_eq_self)

lemma s16_bytes_read:
  assumes "- 32768 \<le> i" "i \<le> 32767"
  shows "\<exists>a b. s16_bytes i = Some [a, b] \<and> uint a + 256 * sint b = i"
proof -
  have "uint (word_of_int i :: 8 word) = i mod 256"
    by (simp add: uint_word_of_int take_bit_eq_mod)
  moreover have "sint (word_of_int (i div 256) :: 8 word) = i div 256"
    using assms by (intro sint8) auto
  ultimately show ?thesis using assms by (simp add: s16_bytes_def)
qed

lemma append_samples_read:
  "\<exists>out. append_samples fs = Some out \<and> length out = 2 * length fs
         \<and> s16_samples out = map s16_sample fs"
proof (induction fs)
  case (Cons f fs)
  obtain a b where "s16_bytes (s16_sample f) = Some [a, b]" "uint a + 256 * sint b = s16_sample f"
    using s16_bytes_read s16_sample_range by blast
  with Cons show ?case by auto
qed simp

lemma length_floats: "length (floats frame) = length frame div 4"
  by (induction frame rule: floats.induct) auto

text \<open>
  The conversion never raises: each whole float gives one 16-bit sample and left-over bytes
  none; a receiver reads back the saturated conversion of every input sample, zero for NaN and full
  scale for the infinities, and the conversion keeps the order of the samples.
\<close>

theorem f32_conversion_exact:
  "(\<exists>out. f32le_to_s16le frame = Some out
          \<and> length out = 2 * (length frame div 4)
          \<and> s16_samples out = map s16_sample (floats frame))
   \<and> mono (\<lambda>x. s16_sample (FFin x))
   \<and> s16_sample FNaN = 0 \<and> s16_sample (FInf True) = - 32768 \<and> s16_sample (FInf False) = 32767"
proof (intro conjI)
  show "\<exists>out. f32le_to_s16le frame = Some out \<and> length out = 2 * (length frame div 4)
              \<and> s16_samples out = map s16_sample (floats frame)"
    using append_samples_read[of "floats frame"] by (auto simp: f32le_to_s16le_def length_floats)
  show "mono (\<lambda>x. s16_sample (FFin x))" by (intro monoI s16_sample_mono)
qed (simp_all add: s16_sample_def py_int_def)

section \<open>Energy gate\<close>

datatype dbfs = NegInf | Fin rat | PosInf

text \<open>
  \<open>_rms_dbfs\<close>: \<open>power\<close> is the mean of the squares of the samples that are not NaN, over all of
  them; an infinite sample makes it infinite.
\<close>

definition power :: "f32 list \<Rightarrow> rat option" where
  "power fs =
     (if list_ex (\<lambda>f. case f of FInf _ \<Rightarrow> True | _ \<Rightarrow> False) fs then None
      else Some (sum_list (map (\<lambda>f. case f of FFin x \<Rightarrow> x * x | _ \<Rightarrow> 0) fs) / of_nat (length fs)))"

definition rms_dbfs :: "(rat \<Rightarrow> rat) \<Rightarrow> 8 word list \<Rightarrow> dbfs" where
  "rms_dbfs log10 frame =
     (let samples = floats frame in
      if samples = [] then NegInf
      else case power samples of
             None \<Rightarrow> PosInf
           | Some p \<Rightarrow> if 0 < p then Fin (10 * log10 p) else NegInf)"

record gate_cfg =
  threshold :: rat
  preroll_s :: rat
  hangover_s :: rat
  gate_rate :: rat
  gate_log10 :: "rat \<Rightarrow> rat"

record egate =
  ring :: "(8 word list \<times> rat) list"
  ring_s :: rat
  in_segment :: bool
  quiet_s :: rat

definition egate_reset :: egate where
  "egate_reset = \<lparr>ring = [], ring_s = 0, in_segment = False, quiet_s = 0\<rparr>"

definition frame_loud :: "gate_cfg \<Rightarrow> 8 word list \<Rightarrow> bool" where
  "frame_loud c frame =
     (case rms_dbfs (gate_log10 c) frame of NegInf \<Rightarrow> False | PosInf \<Rightarrow> True | Fin d \<Rightarrow> threshold c \<le> d)"

definition frame_dur :: "gate_cfg \<Rightarrow> 8 word list \<Rightarrow> rat" where
  "frame_dur c frame = of_nat (length frame div 4) / gate_rate c"

fun trim_ring :: "rat \<Rightarrow> (8 word list \<times> rat) list \<Rightarrow> rat \<Rightarrow> (8 word list \<times> rat) list \<times> rat" where
  "trim_ring pre [] s = ([], s)"
| "trim_ring pre ((f, d) # r) s =
     (if pre - 1 / 1000000000 \<le> s - d then trim_ring pre r (s - d) else ((f, d) # r, s))"

definition egate_feed :: "gate_cfg \<Rightarrow> 8 word list \<Rightarrow> egate \<Rightarrow> (8 word list list \<times> bool) \<times> egate" where
  "egate_feed c frame g =
     (if length frame < 4 then (([], False), g)
      else
        let dur = frame_dur c frame; loud = frame_loud c frame in
        if \<not> in_segment g then
          if \<not> loud then
            (let (r, s) = trim_ring (preroll_s c) (ring g @ [(frame, dur)]) (ring_s g + dur)
             in (([], False), g\<lparr>ring := r, ring_s := s\<rparr>))
          else ((map fst (ring g) @ [frame], False),
                g\<lparr>ring := [], ring_s := 0, in_segment := True, quiet_s := 0\<rparr>)
        else if loud then (([frame], False), g\<lparr>quiet_s := 0\<rparr>)
        else
          let q = quiet_s g + dur in
          if hangover_s c - 1 / 1000000000 \<le> q
          then (([frame], True), g\<lparr>in_segment := False, quiet_s := 0\<rparr>)
          else (([frame], False), g\<lparr>quiet_s := q\<rparr>))"

fun egate_run :: "gate_cfg \<Rightarrow> 8 word list list \<Rightarrow> egate \<Rightarrow> 8 word list list \<times> egate" where
  "egate_run c [] g = ([], g)"
| "egate_run c (f # fs) g =
     (let ((out, e), g1) = egate_feed c f g; (rest, g2) = egate_run c fs g1 in (out @ rest, g2))"

definition egate_inv :: "gate_cfg \<Rightarrow> egate \<Rightarrow> bool" where
  "egate_inv c g \<longleftrightarrow>
     ring_s g = sum_list (map snd (ring g))
     \<and> (\<forall>(f, d)\<in>set (ring g). \<not> frame_loud c f \<and> d = frame_dur c f)
     \<and> (in_segment g \<longrightarrow> ring g = [])
     \<and> (case ring g of [] \<Rightarrow> True | (f, d) # r \<Rightarrow> r \<noteq> [] \<longrightarrow> sum_list (map snd r) < preroll_s c)"

declare egate_inv_def [inv_simps]

lemma trim_ring_spec:
  assumes "s = sum_list (map snd r)" "trim_ring pre r s = (r', s')"
  shows "suffix r' r \<and> s' = sum_list (map snd r')
         \<and> (case r' of [] \<Rightarrow> True | (f, d) # q \<Rightarrow> sum_list (map snd q) < pre)"
  using assms
  by (induction pre r s arbitrary: rule: trim_ring.induct)
     (auto split: if_splits simp: suffix_ConsI)

lemma egate_init_inv: "egate_inv c egate_reset"
  by (simp add: inv_simps egate_reset_def)

lemma egate_feed_inv [inv_intros]:
  assumes "egate_inv c g"
  shows "egate_inv c (snd (egate_feed c frame g))"
proof -
  obtain r s where t: "trim_ring (preroll_s c) (ring g @ [(frame, frame_dur c frame)])
       (ring_s g + frame_dur c frame) = (r, s)" by fastforce
  have "suffix r (ring g @ [(frame, frame_dur c frame)]) \<and> s = sum_list (map snd r)
        \<and> (case r of [] \<Rightarrow> True | (f, d) # q \<Rightarrow> sum_list (map snd q) < preroll_s c)"
    using assms by (intro trim_ring_spec[OF _ t]) (simp add: inv_simps)
  then have sr: "suffix r (ring g @ [(frame, frame_dur c frame)])"
      and r: "s = sum_list (map snd r)"
      "case r of [] \<Rightarrow> True | (f, d) # q \<Rightarrow> sum_list (map snd q) < preroll_s c"
    by blast+
  have r2: "set r \<subseteq> insert (frame, frame_dur c frame) (set (ring g))"
    using set_mono_suffix[OF sr] by simp
  show ?thesis
  proof (cases "length frame < 4 \<or> in_segment g \<or> frame_loud c frame")
    case True
    then show ?thesis using assms by (auto simp: inv_simps egate_feed_def Let_def)
  next
    case False
    have "\<forall>(f, d)\<in>set r. \<not> frame_loud c f \<and> d = frame_dur c f"
      using assms r2 False by (fastforce simp: inv_simps)
    with False r t show ?thesis
      by (auto simp: inv_simps egate_feed_def Let_def split: list.splits)
  qed
qed

definition valid_frames :: "8 word list list \<Rightarrow> 8 word list list" where
  "valid_frames fs = filter (\<lambda>f. 4 \<le> length f) fs"

lemma suffix_subseq: "suffix xs ys \<Longrightarrow> subseq xs ys"
  by (auto simp: suffix_def)

text \<open>What one frame adds: the forwarded frames and the new preroll, against the old preroll.\<close>

lemma egate_feed_step:
  assumes "egate_inv c g" "egate_feed c f g = ((out, e), g')"
  shows "subseq (out @ map fst (ring g')) (map fst (ring g) @ valid_frames [f])"
    "filter (frame_loud c) out = filter (frame_loud c) (valid_frames [f])"
    "e = (in_segment g \<and> \<not> in_segment g')"
    "in_segment g \<Longrightarrow> out = valid_frames [f]"
proof -
  obtain r s where t: "trim_ring (preroll_s c) (ring g @ [(f, frame_dur c f)])
       (ring_s g + frame_dur c f) = (r, s)" by fastforce
  have "suffix r (ring g @ [(f, frame_dur c f)])"
    using trim_ring_spec[OF _ t] assms by (simp add: inv_simps)
  then have sub: "subseq (map fst r) (map fst (ring g) @ [f])"
    using subseq_map[OF suffix_subseq, of r "ring g @ [(f, frame_dur c f)]" fst] by simp
  have quiet: "filter (frame_loud c) (map fst (ring g)) = []"
    using assms by (auto simp: inv_simps filter_empty_conv)
  have rg: "in_segment g \<Longrightarrow> ring g = []" using assms by (simp add: inv_simps)
  show "subseq (out @ map fst (ring g')) (map fst (ring g) @ valid_frames [f])"
    using assms(2) sub rg t by (auto simp: egate_feed_def Let_def valid_frames_def split: if_splits)
  show "filter (frame_loud c) out = filter (frame_loud c) (valid_frames [f])"
    using assms(2) quiet t by (auto simp: egate_feed_def Let_def valid_frames_def split: if_splits)
  show "e = (in_segment g \<and> \<not> in_segment g')" "in_segment g \<Longrightarrow> out = valid_frames [f]"
    using assms(2) t by (auto simp: egate_feed_def Let_def valid_frames_def split: if_splits)
qed

lemma egate_run_spec:
  "egate_inv c g \<Longrightarrow> egate_run c fs g = (out, g') \<Longrightarrow>
   egate_inv c g' \<and> subseq (out @ map fst (ring g')) (map fst (ring g) @ valid_frames fs)
   \<and> filter (frame_loud c) out = filter (frame_loud c) (valid_frames fs)"
proof (induction fs arbitrary: g out)
  case (Cons f fs)
  obtain o1 e g1 where f: "egate_feed c f g = ((o1, e), g1)" by (metis prod.exhaust)
  obtain o2 where r: "egate_run c fs g1 = (o2, g')" and o: "out = o1 @ o2"
    using Cons.prems(2) f by (auto simp: Let_def split: prod.splits)
  have inv: "egate_inv c g1" using egate_feed_inv[OF Cons.prems(1), of f] f by simp
  note IH = Cons.IH[OF inv r]
  note S = egate_feed_step[OF Cons.prems(1) f]
  have A: "subseq (o1 @ o2 @ map fst (ring g')) (o1 @ map fst (ring g1) @ valid_frames fs)"
    using IH list_emb_append_mono[OF subseq_order.order_refl[of o1]] by blast
  have B: "subseq (o1 @ map fst (ring g1) @ valid_frames fs)
                        (map fst (ring g) @ valid_frames [f] @ valid_frames fs)"
    using list_emb_append_mono[OF S(1), of "valid_frames fs" "valid_frames fs"] by simp
  have V: "valid_frames (f # fs) = valid_frames [f] @ valid_frames fs"
    by (simp add: valid_frames_def)
  show ?case using IH S(2) o subseq_order.order_trans[OF A B] unfolding V by simp
qed (simp add: valid_frames_def)

text \<open>
  Over any sequence of frames the gate forwards a subsequence of the input in input order,
  each frame at most once, and every frame at or above the threshold is forwarded; what it still
  holds as preroll is quiet, comes after everything forwarded, and without its oldest frame is
  shorter than the configured preroll.
\<close>

theorem energy_gate_keeps_speech:
  assumes "egate_run c fs egate_reset = (out, g)"
  shows "subseq (out @ map fst (ring g)) (valid_frames fs)
     \<and> filter (frame_loud c) out = filter (frame_loud c) (valid_frames fs)
     \<and> (\<forall>f\<in>set (map fst (ring g)). \<not> frame_loud c f)
     \<and> (ring g \<noteq> [] \<longrightarrow> sum_list (map snd (tl (ring g))) < max (preroll_s c) (1 / 1000000000))"
proof -
  note R = egate_run_spec[OF egate_init_inv assms]
  have "subseq (out @ map fst (ring g)) (valid_frames fs)" using R by (simp add: egate_reset_def)
  moreover have "filter (frame_loud c) out = filter (frame_loud c) (valid_frames fs)" using R by simp
  moreover have "\<forall>f\<in>set (map fst (ring g)). \<not> frame_loud c f" using R by (auto simp: inv_simps)
  moreover have "ring g \<noteq> [] \<longrightarrow> sum_list (map snd (tl (ring g))) < max (preroll_s c) (1 / 1000000000)"
    using R by (cases "ring g"; cases "tl (ring g) = []") (auto simp: inv_simps)
  ultimately show ?thesis by blast
qed

definition gate_example :: gate_cfg where
  "gate_example = \<lparr>threshold = - 45, preroll_s = 3 / 10, hangover_s = 3 / 2, gate_rate = 10,
                   gate_log10 = (\<lambda>_. 0)\<rparr>"

text \<open>A quiet frame, a loud one (1.0 is 0x3F800000), a partial sample.\<close>

theorem energy_gate_keeps_speech_witness:
  "filter (frame_loud gate_example) [[0, 0, 0, 0], [0, 0, 128, 63]] =
   filter (frame_loud gate_example) (valid_frames [[0, 0, 0, 0], [0, 0, 128, 63], [1]])"
proof -
  have q: "frame_loud gate_example [0, 0, 0, 0] = False"
    by (simp add: frame_loud_def rms_dbfs_def f32_of_nat_def power_def)
  have l: "frame_loud gate_example [0, 0, 128, 63] = True"
    by (simp add: frame_loud_def rms_dbfs_def f32_of_nat_def power_def gate_example_def Let_def)
  have "egate_run gate_example [[0, 0, 0, 0], [0, 0, 128, 63], [1]] egate_reset =
     ([[0, 0, 0, 0], [0, 0, 128, 63]],
      \<lparr>ring = [], ring_s = 0, in_segment = True, quiet_s = 0\<rparr>)"
    by (simp add: egate_feed_def q l egate_reset_def frame_dur_def Let_def)
       (simp add: gate_example_def)
  from energy_gate_keeps_speech[OF this] show ?thesis by blast
qed

section \<open>Voices\<close>

text \<open>
  \<open>resolve_voice\<close>: \<open>accepts_native\<close> is the provider's test. The result is the voice, the values
  already warned about, and whether this call warned.
\<close>

definition resolve_voice ::
  "string option \<Rightarrow> (string \<rightharpoonup> string) \<Rightarrow> (string \<Rightarrow> bool) \<Rightarrow> string option \<Rightarrow> string list
   \<Rightarrow> string option \<times> string list \<times> bool" where
  "resolve_voice configured voice_map accepts_native voice_default warned =
     (case configured of
        Some v \<Rightarrow>
          if v \<noteq> [] \<and> v \<in> dom voice_map then (voice_map v, warned, False)
          else if v \<noteq> [] \<and> accepts_native v then (Some v, warned, False)
          else if v \<noteq> [] \<and> v \<notin> set warned then (voice_default, v # warned, True)
          else (voice_default, warned, False)
      | None \<Rightarrow> (voice_default, warned, False))"

end
