(* ===== verification/Eleven_Common.thy ===== *)
theory Eleven_Common
  imports Reconnection
begin

text \<open>
  \<open>services/speech/elevenlabs/common.py\<close>: the class of a close or of an exception of the provider, the
  frames a reader sees, and the cached health probe. A provider that rejected the credentials or ran
  out of quota is terminal: it stays degraded, so what counts as \<open>KAuth\<close> or \<open>KQuota\<close> matters.
\<close>

datatype err_kind = KAuth | KQuota | KCapacity | KOther

definition any_word :: "string list \<Rightarrow> string \<Rightarrow> bool" where
  "any_word ws s = list_ex (\<lambda>w. str_contains w s) ws"

definition QUOTA_WORDS :: "string list" where
  "QUOTA_WORDS = [''quota'', ''credits'', ''insufficient'']"

definition TIME_LIMIT_WORDS :: "string list" where
  "TIME_LIMIT_WORDS = [''session_time_limit'', ''time limit'']"

definition CAPACITY_WORDS :: "string list" where
  "CAPACITY_WORDS = [''limit'', ''busy'']"

definition AUTH_WORDS :: "string list" where
  "AUTH_WORDS = [''api key'', ''unauthorized'', ''forbidden'', ''authentication'', ''invalid key'', ''permission'']"

text \<open>The close code takes no part.\<close>

definition classify_close :: "nat option \<Rightarrow> string option \<Rightarrow> err_kind" where
  "classify_close code reason =
     (let s = lower (case reason of None \<Rightarrow> [] | Some r \<Rightarrow> r) in
      if any_word QUOTA_WORDS s then KQuota
      else if any_word TIME_LIMIT_WORDS s then KOther
      else if any_word CAPACITY_WORDS s then KCapacity
      else if any_word AUTH_WORDS s then KAuth
      else KOther)"

text \<open>What a connect raises: a rejected upgrade, a closed connection with the frame received, or another error.\<close>

datatype ws_error = InvalidStatus nat | WsClosed "(nat \<times> string) option" | WsFails exn

definition classify_exception :: "ws_error \<Rightarrow> err_kind" where
  "classify_exception e =
     (case e of
        InvalidStatus n \<Rightarrow>
          if n = 401 \<or> n = 403 then KAuth else if n = 429 then KCapacity else KOther
      | WsClosed None \<Rightarrow> classify_close None None
      | WsClosed (Some (code, reason)) \<Rightarrow> classify_close (Some code) (Some reason)
      | WsFails x \<Rightarrow> KOther)"

definition kind_name :: "err_kind \<Rightarrow> string" where
  "kind_name k = (case k of KAuth \<Rightarrow> ''auth'' | KQuota \<Rightarrow> ''quota'' | KCapacity \<Rightarrow> ''capacity'' | KOther \<Rightarrow> ''other'')"

definition ws_error_name :: "ws_error \<Rightarrow> string" where
  "ws_error_name e =
     (case e of InvalidStatus _ \<Rightarrow> ''InvalidStatus'' | WsClosed _ \<Rightarrow> ''ConnectionClosed'' | WsFails x \<Rightarrow> describe_error x)"

section \<open>Frames\<close>

text \<open>A frame of the socket: binary, or text with what \<open>json.loads\<close> makes of it.\<close>

datatype raw_ws = RawBytes | RawText "json option"

definition json_messages :: "raw_ws list \<Rightarrow> dict list" where
  "json_messages fs = List.map_filter (\<lambda>f. case f of RawText (Some (JObj d)) \<Rightarrow> Some d | _ \<Rightarrow> None) fs"

section \<open>The probe\<close>

definition HEALTH_TTL_S :: rat where "HEALTH_TTL_S = 60"

record probed =
  pb_closed :: bool
  pb_at :: "time option"
  pb_ok :: bool

definition new_probed :: probed where
  "new_probed = \<lparr>pb_closed = False, pb_at = None, pb_ok = False\<rparr>"

text \<open>
  \<open>probe()\<close> up to its network access: \<open>Some\<close> the answer, or \<open>None\<close>: \<open>_probe_once\<close> runs, whose result
  \<open>probe_end\<close> takes. \<open>terminal\<close> is the flag of the provider.
\<close>

definition probe_begin :: "time \<Rightarrow> bool \<Rightarrow> probed \<Rightarrow> bool option" where
  "probe_begin now terminal p =
     (if pb_closed p \<or> terminal then Some False
      else case pb_at p of
        Some t \<Rightarrow> if now - t < HEALTH_TTL_S then Some (pb_ok p) else None
      | None \<Rightarrow> None)"

definition probe_end :: "time \<Rightarrow> bool option \<Rightarrow> probed \<Rightarrow> bool \<times> probed" where
  "probe_end now ok p =
     (case ok of None \<Rightarrow> (False, p) | Some b \<Rightarrow> (b, p\<lparr>pb_ok := b, pb_at := Some now\<rparr>))"

definition probe_aclose :: "probed \<Rightarrow> probed" where
  "probe_aclose p = p\<lparr>pb_closed := True\<rparr>"

section \<open>Lemmas\<close>

lemma str_contains_iff: "str_contains w s \<longleftrightarrow> (\<exists>xs ys. s = xs @ w @ ys)"
proof
  assume "str_contains w s"
  then obtain i where i: "take (length w) (drop i s) = w" by (auto simp: str_contains_def startswith_def)
  have "s = take i s @ take (length w) (drop i s) @ drop (length w) (drop i s)"
    by (metis append_take_drop_id)
  then have "s = take i s @ w @ drop (length w) (drop i s)" by (simp only: i)
  then show "\<exists>xs ys. s = xs @ w @ ys" by blast
next
  assume "\<exists>xs ys. s = xs @ w @ ys"
  then obtain xs ys where s: "s = xs @ w @ ys" by blast
  then have "length xs \<in> set [0..<Suc (length s)]" "startswith (drop (length xs) s) w" by (simp_all add: startswith_def)
  then show "str_contains w s" unfolding str_contains_def by blast
qed

section \<open>Properties\<close>

text \<open>
  A close of the provider is terminal only by its words: quota words always make it so, and the words
  of credentials only if none of quota, time limit or capacity is there; the close code never
  decides. A rejected upgrade is terminal only as 401 or 403.
\<close>

theorem terminal_only_by_words:
  "(classify_close code reason = KQuota \<longleftrightarrow>
      (\<exists>w\<in>set QUOTA_WORDS. \<exists>xs ys. lower (case reason of None \<Rightarrow> [] | Some r \<Rightarrow> r) = xs @ w @ ys))
   \<and> (classify_close code reason = KAuth \<longleftrightarrow>
      (\<exists>w\<in>set AUTH_WORDS. \<exists>xs ys. lower (case reason of None \<Rightarrow> [] | Some r \<Rightarrow> r) = xs @ w @ ys)
      \<and> (\<forall>w\<in>set (QUOTA_WORDS @ TIME_LIMIT_WORDS @ CAPACITY_WORDS).
           \<not> (\<exists>xs ys. lower (case reason of None \<Rightarrow> [] | Some r \<Rightarrow> r) = xs @ w @ ys)))
   \<and> (classify_exception (InvalidStatus st) \<in> {KAuth, KQuota} \<longleftrightarrow> st = 401 \<or> st = 403)"
  by (auto simp: classify_close_def classify_exception_def any_word_def list_ex_iff str_contains_iff[symmetric] Let_def)

theorem terminal_only_by_words_witness:
  "classify_close (Some 1008) (Some ''Unauthorized'') = KAuth"
proof -
  have l: "lower ''Unauthorized'' = ''unauthorized''" by code_simp
  have "\<exists>xs ys. ''unauthorized'' = xs @ ''unauthorized'' @ ys" by (rule exI[of _ "[]"]) simp
  moreover have "\<not> (\<exists>xs ys. ''unauthorized'' = xs @ w @ ys)"
    if "w \<in> set (QUOTA_WORDS @ TIME_LIMIT_WORDS @ CAPACITY_WORDS)" for w
    unfolding str_contains_iff[symmetric]
    using that by (auto simp: QUOTA_WORDS_def TIME_LIMIT_WORDS_def CAPACITY_WORDS_def str_contains_def startswith_def)
  ultimately show ?thesis
    using terminal_only_by_words[of "Some 1008" "Some ''Unauthorized''"] by (simp add: l AUTH_WORDS_def)
qed

end
