(* ===== verification/Eleven_TTS.thy ===== *)
theory Eleven_TTS
  imports Eleven_Common Backoff_Gate Outbound
begin

text \<open>
  \<open>services/speech/elevenlabs/tts.py\<close>: \<open>ElevenLabsTtsProvider\<close>, shared by the process, and its
  \<open>ElevenLabsTtsStream\<close>s, one per turn. A stream is a task (\<open>_runner\<close>) that opens the socket, writes what
  waits and reopens it once, with a reader task; the task goes from one suspension point to the next.
  The end of a sentence is an argument (\<open>_ends_sentence\<close>, a regular expression), a frame carries what
  \<open>base64.b64decode\<close> makes of its audio. \<open>et_sent\<close>, \<open>et_given\<close>, \<open>et_in\<close> and \<open>et_got\<close> are histories: what was written to
  the sockets, what the turn gave, the audio accepted, the audio the player took.
\<close>

definition KEEPALIVE_S :: rat where "KEEPALIVE_S = 15"
definition MIN_SPEED :: rat where "MIN_SPEED = 7 / 10"
definition MAX_SPEED :: rat where "MAX_SPEED = 12 / 10"
definition MAX_STREAMS :: nat where "MAX_STREAMS = 10"
definition MAX_BUFFER :: int where "MAX_BUFFER = 10 * 1024 * 1024"

datatype el_msg = ElInit rat | ElText string bool | ElFlush | ElEof | ElKeep

datatype el_outcome = OFinal | OOverflow | OError | OClosed err_kind

datatype el_pc =
    RNew
  | RConnect
  | RInit
  | RSend el_msg
  | RWait
  | RKeep
  | RReader
  | RCloseReopen
  | RCloseFinal
  | RDone

datatype el_reader = NoReader | Reading | ReaderDone el_outcome

record el_tts =
  et_speed :: rat
  et_token :: nat
  et_pending :: "el_msg list"
  et_wakeup :: bool
  et_out :: "bytes option list"
  et_buffered :: int
  et_carry :: bytes
  et_ws :: bool
  et_closed :: bool
  et_end_requested :: bool
  et_end_sent :: bool
  et_final :: bool
  et_got_audio :: bool
  et_reopened :: bool
  et_chars :: nat
  et_pc :: el_pc
  et_cancel :: bool
  et_reader :: el_reader
  et_last_text :: time
  et_last_sent :: "time option"
  et_deadline :: time
  et_sent :: "el_msg list"
  et_given :: "el_msg list"
  et_in :: bytes
  et_got :: "bytes list"

definition new_el_tts :: "rat \<Rightarrow> nat \<Rightarrow> el_tts" where
  "new_el_tts speed tk =
     \<lparr>et_speed = speed, et_token = tk, et_pending = [], et_wakeup = False, et_out = [], et_buffered = 0,
      et_carry = [], et_ws = False, et_closed = False, et_end_requested = False, et_end_sent = False,
      et_final = False, et_got_audio = False, et_reopened = False, et_chars = 0, et_pc = RNew,
      et_cancel = False, et_reader = NoReader, et_last_text = 0, et_last_sent = None, et_deadline = 0,
      et_sent = [], et_given = [], et_in = [], et_got = []\<rparr>"

section \<open>The provider\<close>

record el_provider =
  lp_probe :: probed
  lp_terminal :: bool
  lp_sem :: nat
  lp_gate :: gate
  lp_health :: service_health
  lp_refusals :: nat
  lp_429 :: nat
  lp_auth_errors :: nat
  lp_clamped :: "string list"

definition new_el_provider :: "time \<Rightarrow> time \<Rightarrow> el_provider" where
  "new_el_provider initial maxb =
     \<lparr>lp_probe = new_probed, lp_terminal = False, lp_sem = MAX_STREAMS, lp_gate = new_gate initial maxb,
      lp_health = new_health ''tts'' CONNECTED, lp_refusals = 0, lp_429 = 0, lp_auth_errors = 0, lp_clamped = []\<rparr>"

definition clamp_speed :: "rat option \<Rightarrow> string \<Rightarrow> el_provider \<Rightarrow> rat \<times> el_provider" where
  "clamp_speed speed client_id p =
     (case speed of
        None \<Rightarrow> (1, p)
      | Some v \<Rightarrow>
          let clamped = min MAX_SPEED (max MIN_SPEED v) in
          (clamped, if clamped \<noteq> v \<and> client_id \<notin> set (lp_clamped p)
                    then p\<lparr>lp_clamped := client_id # lp_clamped p\<rparr> else p))"

definition el_mark_auth_failed :: "string \<Rightarrow> el_provider \<Rightarrow> el_provider" where
  "el_mark_auth_failed why p =
     p\<lparr>lp_auth_errors := Suc (lp_auth_errors p), lp_terminal := True,
       lp_health := set_state DEGRADED (mark_attempt_failed why (lp_health p))\<rparr>"

definition el_record_failure :: "time \<Rightarrow> nat \<Rightarrow> string \<Rightarrow> el_provider \<Rightarrow> el_provider" where
  "el_record_failure now tk err p =
     (case gate_record_failure now tk (lp_gate p) of
        (False, g) \<Rightarrow> p\<lparr>lp_gate := g\<rparr>
      | (True, g) \<Rightarrow> p\<lparr>lp_gate := g, lp_health := set_state RECONNECTING (mark_attempt_failed err (lp_health p))\<rparr>)"

definition el_connect_failed :: "time \<Rightarrow> nat \<Rightarrow> ws_error \<Rightarrow> el_provider \<Rightarrow> el_provider" where
  "el_connect_failed now tk e p =
     (let k = classify_exception e in
      if k = KAuth \<or> k = KQuota then el_mark_auth_failed (kind_name k) p
      else if k = KCapacity then el_record_failure now tk ''capacity'' (p\<lparr>lp_429 := Suc (lp_429 p)\<rparr>)
      else el_record_failure now tk (ws_error_name e) p)"

definition el_capacity_close :: "time \<Rightarrow> nat \<Rightarrow> el_provider \<Rightarrow> el_provider" where
  "el_capacity_close now tk p =
     p\<lparr>lp_429 := Suc (lp_429 p), lp_gate := snd (gate_record_failure now tk (lp_gate p))\<rparr>"

definition el_record_success :: "time \<Rightarrow> el_provider \<Rightarrow> el_provider" where
  "el_record_success now p =
     (if lp_terminal p then p
      else p\<lparr>lp_gate := gate_record_success (lp_gate p), lp_health := mark_connected now (lp_health p)\<rparr>)"

definition el_connect :: "time \<Rightarrow> rat option \<Rightarrow> string \<Rightarrow> el_provider \<Rightarrow> el_tts option \<times> el_provider" where
  "el_connect now speed client_id p =
     (if pb_closed (lp_probe p) \<or> lp_terminal p then (None, p)
      else case gate_begin now (lp_gate p) of
        (None, g) \<Rightarrow> (None, p\<lparr>lp_gate := g\<rparr>)
      | (Some tk, g) \<Rightarrow>
          if lp_sem p = 0 then (None, p\<lparr>lp_gate := g, lp_refusals := Suc (lp_refusals p)\<rparr>)
          else
            let (v, p1) = clamp_speed speed client_id (p\<lparr>lp_gate := g, lp_sem := lp_sem p - 1\<rparr>) in
            (Some (new_el_tts v tk), p1))"

section \<open>What the turn does with a stream\<close>

definition el_enqueue :: "el_msg \<Rightarrow> el_tts \<Rightarrow> el_tts" where
  "el_enqueue m s = s\<lparr>et_pending := et_pending s @ [m], et_wakeup := True, et_given := et_given s @ [m]\<rparr>"

definition el_send_text_chunk :: "(string \<Rightarrow> bool) \<Rightarrow> string \<Rightarrow> el_tts \<Rightarrow> el_tts" where
  "el_send_text_chunk ends_sentence x s =
     (if et_closed s \<or> et_end_requested s \<or> x = [] then s
      else el_enqueue (ElText x (ends_sentence x)) (s\<lparr>et_chars := et_chars s + length x\<rparr>))"

definition el_end :: "el_tts \<Rightarrow> el_tts" where
  "el_end s =
     (if et_closed s \<or> et_end_requested s then s
      else el_enqueue ElEof (el_enqueue ElFlush (s\<lparr>et_end_requested := True\<rparr>)))"

text \<open>One resumption of \<open>get_audio_stream\<close>: \<open>None\<close>, it waits; \<open>Some None\<close>, it returns.\<close>

definition el_next :: "el_tts \<Rightarrow> (bytes option \<times> el_tts) option" where
  "el_next s =
     (case et_out s of
        [] \<Rightarrow> None
      | None # rest \<Rightarrow> Some (None, s\<lparr>et_out := rest @ [None]\<rparr>)
      | Some x # rest \<Rightarrow>
          Some (Some x, s\<lparr>et_out := rest, et_buffered := et_buffered s - int (length x), et_got := et_got s @ [x]\<rparr>))"

definition el_close :: "el_tts \<Rightarrow> el_tts" where
  "el_close s =
     (if et_closed s then s
      else s\<lparr>et_closed := True, et_pending := [], et_cancel := (et_pc s \<noteq> RDone)\<rparr>)"

section \<open>The runner\<close>

datatype run_in = InOk | InTimeout | InRefused ws_error | InClosed | InFail exn | InCancel

definition reader_done :: "el_tts \<Rightarrow> bool" where
  "reader_done s = (case et_reader s of ReaderDone _ \<Rightarrow> True | _ \<Rightarrow> False)"

text \<open>\<open>_finished\<close>, the callback of the end of the task: the permit goes back and the iterator ends.\<close>

definition el_finished :: "el_provider \<times> el_tts \<Rightarrow> el_provider \<times> el_tts" where
  "el_finished ps =
     (let (p, s) = ps in
      (p\<lparr>lp_sem := Suc (lp_sem p)\<rparr>,
       s\<lparr>et_pc := RDone, et_out := et_out s @ [None], et_reader := NoReader, et_cancel := False\<rparr>))"

text \<open>Leaving \<open>_serve\<close> and the runner: the reader is cancelled and the socket closed.\<close>

definition el_unwind :: "el_provider \<times> el_tts \<Rightarrow> el_provider \<times> el_tts" where
  "el_unwind ps =
     (let (p, s) = ps in
      if et_ws s then (p, s\<lparr>et_ws := False, et_reader := NoReader, et_pc := RCloseFinal, et_cancel := False\<rparr>)
      else el_finished ps)"

definition wait_s :: "rat \<Rightarrow> time \<Rightarrow> el_tts \<Rightarrow> rat" where
  "wait_s turn_timeout now s =
     (let k = max 0 (KEEPALIVE_S - (now - (case et_last_sent s of None \<Rightarrow> 0 | Some t \<Rightarrow> t))) in
      if et_end_requested s then k else min k (max 0 (turn_timeout - (now - et_last_text s))))"

text \<open>The head of the loop of \<open>_serve\<close>.\<close>

definition serve_next :: "rat \<Rightarrow> time \<Rightarrow> el_tts \<Rightarrow> el_tts" where
  "serve_next tt now s =
     (if et_last_sent s = None \<or> et_end_sent s \<or> reader_done s then s\<lparr>et_pc := RReader\<rparr>
      else case et_pending s of
        m # ms \<Rightarrow> s\<lparr>et_pending := ms, et_pc := RSend m\<rparr>
      | [] \<Rightarrow> s\<lparr>et_wakeup := False, et_pc := RWait, et_deadline := now + wait_s tt now s\<rparr>)"

text \<open>After the loop, with the outcome of the reader.\<close>

definition serve_end :: "time \<Rightarrow> el_outcome \<Rightarrow> el_provider \<times> el_tts \<Rightarrow> el_provider \<times> el_tts" where
  "serve_end now out ps =
     (let (p, s) = ps in
      if et_closed s then el_unwind ps
      else case out of
        OClosed k \<Rightarrow>
          if k = KAuth \<or> k = KQuota then el_unwind (el_mark_auth_failed (kind_name k) p, s)
          else if k = KCapacity then el_unwind (el_capacity_close now (et_token s) p, s)
          else if et_end_sent s \<or> et_reopened s then el_unwind ps
          else (p, s\<lparr>et_reopened := True, et_ws := False, et_reader := NoReader, et_pc := RCloseReopen\<rparr>)
      | _ \<Rightarrow> el_unwind ps)"

definition serve_woken :: "rat \<Rightarrow> time \<Rightarrow> bool \<Rightarrow> el_provider \<times> el_tts \<Rightarrow> el_provider \<times> el_tts" where
  "serve_woken tt now timed_out ps =
     (let (p, s) = ps in
      if timed_out \<and> \<not> et_end_requested s \<and> tt \<le> now - et_last_text s
      then el_unwind (p, s\<lparr>et_closed := True, et_pending := []\<rparr>)
      else if timed_out then (p, s\<lparr>et_pc := RKeep\<rparr>)
      else (p, serve_next tt now s))"

definition el_written :: "el_msg \<Rightarrow> el_tts \<Rightarrow> el_tts" where
  "el_written m s = s\<lparr>et_sent := et_sent s @ [m]\<rparr>"

definition runner_step :: "rat \<Rightarrow> time \<Rightarrow> run_in \<Rightarrow> el_provider \<times> el_tts \<Rightarrow> el_provider \<times> el_tts" where
  "runner_step tt now r ps =
     (let (p, s) = ps in
      case et_pc s of
        RNew \<Rightarrow> if r = InCancel then el_finished ps else (p, s\<lparr>et_pc := RConnect\<rparr>)
      | RConnect \<Rightarrow>
          (case r of
             InOk \<Rightarrow> (p, s\<lparr>et_ws := True, et_reader := Reading, et_last_text := now, et_last_sent := Some now,
                           et_pc := RInit\<rparr>)
           | InRefused e \<Rightarrow> el_unwind (el_connect_failed now (et_token s) e p, s)
           | InCancel \<Rightarrow> el_unwind ps
           | _ \<Rightarrow> ps)
      | RInit \<Rightarrow>
          (case r of
             InOk \<Rightarrow> (p, serve_next tt now (el_written (ElInit (et_speed s)) s))
           | InClosed \<Rightarrow> (p, serve_next tt now (s\<lparr>et_last_sent := None\<rparr>))
           | InCancel \<Rightarrow> el_unwind ps
           | InFail e \<Rightarrow> el_unwind ps
           | _ \<Rightarrow> ps)
      | RSend m \<Rightarrow>
          (case r of
             InOk \<Rightarrow>
               let s1 = (el_written m s)\<lparr>et_last_text := now, et_last_sent := Some now\<rparr> in
               (p, serve_next tt now (if m = ElEof then s1\<lparr>et_end_sent := True\<rparr> else s1))
           | InClosed \<Rightarrow> (p, s\<lparr>et_pending := m # et_pending s, et_pc := RReader\<rparr>)
           | InCancel \<Rightarrow> el_unwind ps
           | InFail e \<Rightarrow> el_unwind ps
           | _ \<Rightarrow> ps)
      | RWait \<Rightarrow>
          (case r of
             InOk \<Rightarrow> serve_woken tt now False ps
           | InTimeout \<Rightarrow> serve_woken tt now True ps
           | InCancel \<Rightarrow> el_unwind ps
           | _ \<Rightarrow> ps)
      | RKeep \<Rightarrow>
          (case r of
             InOk \<Rightarrow> (p, serve_next tt now ((el_written ElKeep s)\<lparr>et_last_sent := Some now\<rparr>))
           | InClosed \<Rightarrow> (p, s\<lparr>et_pc := RReader\<rparr>)
           | InCancel \<Rightarrow> el_unwind ps
           | InFail e \<Rightarrow> el_unwind ps
           | _ \<Rightarrow> ps)
      | RReader \<Rightarrow>
          (case r of
             InOk \<Rightarrow> (case et_reader s of ReaderDone out \<Rightarrow> serve_end now out ps | _ \<Rightarrow> ps)
           | InCancel \<Rightarrow> el_unwind ps
           | _ \<Rightarrow> ps)
      | RCloseReopen \<Rightarrow> if r = InCancel then el_unwind ps else (p, s\<lparr>et_pc := RConnect\<rparr>)
      | RCloseFinal \<Rightarrow> el_finished ps
      | RDone \<Rightarrow> ps)"

section \<open>The reader\<close>

text \<open>\<open>ef_audio\<close>: no audio string, one that does not decode, or the bytes.\<close>

record el_frame =
  ef_audio :: "bytes option option"
  ef_final :: bool

definition read_stop :: "el_outcome \<Rightarrow> el_tts \<Rightarrow> el_tts" where
  "read_stop out s = s\<lparr>et_reader := ReaderDone out\<rparr>"

definition frame_end :: "el_frame \<Rightarrow> el_tts \<Rightarrow> el_tts" where
  "frame_end f s = (if ef_final f then read_stop OFinal (s\<lparr>et_final := True\<rparr>) else s)"

definition odd_tail :: "bytes \<Rightarrow> bytes" where
  "odd_tail xs = (if odd (length xs) then [last xs] else [])"

definition even_part :: "bytes \<Rightarrow> bytes" where
  "even_part xs = take (length xs - length (odd_tail xs)) xs"

definition read_frame :: "time \<Rightarrow> el_frame \<Rightarrow> el_provider \<times> el_tts \<Rightarrow> el_provider \<times> el_tts" where
  "read_frame now f ps =
     (let (p, s) = ps in
      case ef_audio f of
        None \<Rightarrow> (p, frame_end f s)
      | Some None \<Rightarrow> ps
      | Some (Some a) \<Rightarrow>
          let pcm = even_part (et_carry s @ a);
              s1 = s\<lparr>et_carry := odd_tail (et_carry s @ a)\<rparr> in
          if pcm = [] then (p, s1\<lparr>et_in := et_in s @ a\<rparr>)
          else if et_buffered s + int (length pcm) > MAX_BUFFER then (p, read_stop OOverflow s1)
          else
            (if et_got_audio s then p else el_record_success now p,
             frame_end f (s1\<lparr>et_got_audio := True, et_buffered := et_buffered s + int (length pcm),
                             et_out := et_out s @ [Some pcm], et_in := et_in s @ a\<rparr>)))"

definition read_closed :: "nat option \<Rightarrow> string option \<Rightarrow> el_tts \<Rightarrow> el_tts" where
  "read_closed code reason s = read_stop (OClosed (classify_close code reason)) s"

definition read_fails :: "el_tts \<Rightarrow> el_tts" where
  "read_fails s = read_stop OError s"

section \<open>The provider's probe\<close>

text \<open>
  \<open>_probe_once\<close> with the token of the gate: how the attempt ended. \<open>conn\<close> says the handshake was
  over when the time limit passed.
\<close>

datatype probe_result = ProbeTimeout bool | ProbeError ws_error | ProbeClosed "nat option" "string option"

definition el_probe_once :: "time \<Rightarrow> nat \<Rightarrow> probe_result \<Rightarrow> el_provider \<Rightarrow> bool \<times> el_provider" where
  "el_probe_once now tk r p =
     (case r of
        ProbeTimeout conn \<Rightarrow>
          if conn then (True, el_record_success now p)
          else (False, el_connect_failed now tk (WsFails TimeoutError) p)
      | ProbeError e \<Rightarrow> (False, el_connect_failed now tk e p)
      | ProbeClosed code reason \<Rightarrow>
          if code = None \<or> code = Some 1000 \<or> code = Some 1001 \<or> code = Some 1005
          then (True, el_record_success now p)
          else
            let k = classify_close code reason in
            (False,
             if k = KAuth \<or> k = KQuota then el_mark_auth_failed (kind_name k) p
             else if k = KCapacity then el_record_failure now tk ''capacity'' (p\<lparr>lp_429 := Suc (lp_429 p)\<rparr>)
             else el_record_failure now tk ''connect_failed'' p))"

section \<open>The shared provider and its streams\<close>

type_synonym el_world = "el_provider \<times> el_tts list"

datatype el_act =
    AText string
  | AEnd
  | ANext
  | AClose
  | ARun time run_in
  | AFrame time el_frame
  | AClosed "nat option" "string option"
  | AFails

datatype el_world_act =
    LConnect time "rat option" string
  | LStream nat el_act
  | LProbe time nat probe_result
  | LClose

text \<open>
  When an event can occur: a cancelled task resumes with the cancellation, the wait ends on the event, on
  the reader or on its time limit, the reader receives while it reads.
\<close>

definition run_enabled :: "time \<Rightarrow> run_in \<Rightarrow> el_tts \<Rightarrow> bool" where
  "run_enabled now r s =
     (et_pc s \<noteq> RDone \<and> (et_cancel s \<longleftrightarrow> r = InCancel)
      \<and> (et_pc s = RWait \<and> r = InOk \<longrightarrow> et_wakeup s \<or> reader_done s)
      \<and> (et_pc s = RWait \<and> r = InTimeout \<longrightarrow> et_deadline s \<le> now)
      \<and> (et_pc s = RReader \<and> r = InOk \<longrightarrow> reader_done s))"

definition el_act_step ::
    "(string \<Rightarrow> bool) \<Rightarrow> rat \<Rightarrow> el_act \<Rightarrow> el_provider \<times> el_tts \<Rightarrow> el_provider \<times> el_tts" where
  "el_act_step es tt a ps =
     (let (p, s) = ps in
      case a of
        AText x \<Rightarrow> (p, el_send_text_chunk es x s)
      | AEnd \<Rightarrow> (p, el_end s)
      | ANext \<Rightarrow> (p, case el_next s of None \<Rightarrow> s | Some (_, s1) \<Rightarrow> s1)
      | AClose \<Rightarrow> (p, el_close s)
      | ARun now r \<Rightarrow> if run_enabled now r s then runner_step tt now r ps else ps
      | AFrame now f \<Rightarrow> if et_reader s = Reading then read_frame now f ps else ps
      | AClosed code reason \<Rightarrow> if et_reader s = Reading then (p, read_closed code reason s) else ps
      | AFails \<Rightarrow> if et_reader s = Reading then (p, read_fails s) else ps)"

definition el_world_step :: "(string \<Rightarrow> bool) \<Rightarrow> rat \<Rightarrow> el_world_act \<Rightarrow> el_world \<Rightarrow> el_world" where
  "el_world_step es tt a w =
     (let (p, ss) = w in
      case a of
        LConnect now speed cid \<Rightarrow>
          (case el_connect now speed cid p of (None, p1) \<Rightarrow> (p1, ss) | (Some s, p1) \<Rightarrow> (p1, ss @ [s]))
      | LStream i b \<Rightarrow>
          if i < length ss then (let (p1, s1) = el_act_step es tt b (p, ss ! i) in (p1, ss[i := s1])) else w
      | LProbe now tk r \<Rightarrow> (snd (el_probe_once now tk r p), ss)
      | LClose \<Rightarrow> (p\<lparr>lp_probe := probe_aclose (lp_probe p)\<rparr>, ss))"

definition el_run :: "(string \<Rightarrow> bool) \<Rightarrow> rat \<Rightarrow> time \<Rightarrow> time \<Rightarrow> el_world_act list \<Rightarrow> el_world" where
  "el_run es tt i m acts = fold (el_world_step es tt) acts (new_el_provider i m, [])"

section \<open>The invariant of a stream\<close>

definition is_text :: "el_msg \<Rightarrow> bool" where
  "is_text m = (case m of ElInit _ \<Rightarrow> False | ElKeep \<Rightarrow> False | _ \<Rightarrow> True)"

definition sending :: "el_tts \<Rightarrow> el_msg list" where
  "sending s = (case et_pc s of RSend m \<Rightarrow> [m] | _ \<Rightarrow> [])"

definition is_init :: "el_msg \<Rightarrow> bool" where
  "is_init m = (case m of ElInit _ \<Rightarrow> True | _ \<Rightarrow> False)"

text \<open>What was written of the turn, without the opening messages and the keepalives.\<close>

definition texts :: "el_msg list \<Rightarrow> el_msg list" where
  "texts ms = filter is_text ms"

definition inits :: "el_msg list \<Rightarrow> nat" where
  "inits ms = length (filter is_init ms)"

abbreviation unwinding :: "el_tts \<Rightarrow> bool" where
  "unwinding s \<equiv> et_pc s = RCloseFinal \<or> et_pc s = RDone"

abbreviation before_open :: "el_tts \<Rightarrow> bool" where
  "before_open s \<equiv> et_pc s = RNew \<or> et_pc s = RConnect \<or> et_pc s = RCloseReopen"

definition shape_ok :: "el_tts \<Rightarrow> bool" where
  "shape_ok s \<longleftrightarrow>
     (et_reader s = NoReader \<longleftrightarrow> before_open s \<or> unwinding s) \<and> (et_ws s \<longleftrightarrow> \<not> (before_open s \<or> unwinding s))
     \<and> (et_closed s \<and> \<not> unwinding s \<longrightarrow> et_cancel s) \<and> (et_cancel s \<longrightarrow> et_closed s)
     \<and> inits (et_sent s) + (if before_open s \<or> et_pc s = RInit then 1 else 0)
         \<le> (if et_reopened s then 2 else 1)"

definition queued :: "el_tts \<Rightarrow> bytes list" where
  "queued s = List.map_filter id (et_out s)"

definition audio_ok :: "el_tts \<Rightarrow> bool" where
  "audio_ok s \<longleftrightarrow>
     et_out s = map Some (queued s) @ (if et_pc s = RDone then [None] else [])
     \<and> (\<exists>c. concat (et_got s) @ concat (queued s) @ c = et_in s \<and> length c \<le> 1
           \<and> (et_reader s = ReaderDone OOverflow \<or> unwinding s \<or> c = et_carry s))
     \<and> (\<forall>x\<in>set (queued s) \<union> set (et_got s). x \<noteq> [] \<and> even (length x))
     \<and> et_buffered s = int (length (concat (queued s))) \<and> et_buffered s \<le> MAX_BUFFER"

definition text_ok :: "el_tts \<Rightarrow> bool" where
  "text_ok s \<longleftrightarrow>
     (\<exists>rest. et_given s = texts (et_sent s) @ sending s @ rest
        \<and> (et_closed s \<or> unwinding s \<or> rest = et_pending s))
     \<and> (\<forall>m\<in>set (et_given s). is_text m)"

definition el_ok :: "el_tts \<Rightarrow> bool" where
  "el_ok s \<longleftrightarrow> shape_ok s \<and> audio_ok s \<and> text_ok s"

section \<open>Preservation\<close>

lemma map_filter_id_Some [simp]: "List.map_filter id (map Some xs) = xs"
  by (simp add: List.map_filter_def)

lemma audio_ok_frame:
  assumes "audio_ok s" "et_out s' = et_out s" "et_got s' = et_got s" "et_in s' = et_in s"
    "et_carry s' = et_carry s" "et_buffered s' = et_buffered s" "et_pc s' = RDone \<longleftrightarrow> et_pc s = RDone"
    "unwinding s' \<or> \<not> unwinding s \<and> (et_reader s = ReaderDone OOverflow \<longrightarrow> et_reader s' = ReaderDone OOverflow)"
  shows "audio_ok s'"
proof -
  have q: "queued s' = queued s" using assms(2) by (simp add: queued_def)
  obtain c where c: "concat (et_got s) @ concat (queued s) @ c = et_in s" "length c \<le> 1"
    "et_reader s = ReaderDone OOverflow \<or> unwinding s \<or> c = et_carry s"
    using assms(1) unfolding audio_ok_def by blast
  have "et_reader s' = ReaderDone OOverflow \<or> unwinding s' \<or> c = et_carry s" using c(3) assms(8) by blast
  then show ?thesis using assms(1) c(1,2) unfolding audio_ok_def q assms(2-7) by blast
qed

lemma text_ok_frame:
  assumes "text_ok s" "et_given s' = et_given s" "texts (et_sent s') = texts (et_sent s)"
    "sending s' = sending s" "et_closed s \<longrightarrow> et_closed s'" "unwinding s \<longrightarrow> unwinding s'"
    "et_pending s' = et_pending s \<or> et_closed s' \<or> unwinding s'"
  shows "text_ok s'"
proof -
  obtain rest where r: "et_given s = texts (et_sent s) @ sending s @ rest"
    "et_closed s \<or> unwinding s \<or> rest = et_pending s"
    using assms(1) unfolding text_ok_def by blast
  have "et_closed s' \<or> unwinding s' \<or> rest = et_pending s'" using r(2) assms(5-7) by metis
  then show ?thesis using assms(1) r(1) unfolding text_ok_def assms(2-4) by blast
qed

definition text_prefix :: "el_tts \<Rightarrow> bool" where
  "text_prefix s \<longleftrightarrow> (\<exists>rest. et_given s = texts (et_sent s) @ rest) \<and> (\<forall>m\<in>set (et_given s). is_text m)"

lemma text_ok_prefix: "text_ok s \<Longrightarrow> text_prefix s"
  unfolding text_ok_def text_prefix_def by blast

lemma text_ok_unwind:
  assumes "text_prefix s" "et_given s' = et_given s" "et_sent s' = et_sent s" "unwinding s'"
  shows "text_ok s'"
proof -
  have i: "sending s' = []" using assms(4) by (auto simp: sending_def)
  show ?thesis using assms unfolding text_ok_def text_prefix_def i by (metis append_Nil)
qed

lemma ok_finished:
  assumes "el_ok s" "et_pc s \<noteq> RDone" "\<not> et_ws s"
  shows "el_ok (snd (el_finished (p, s)))"
proof -
  let ?s = "snd (el_finished (p, s))"
  have a: "audio_ok s" "text_ok s" "shape_ok s" using assms by (auto simp: el_ok_def)
  have q: "queued ?s = queued s" by (simp add: queued_def el_finished_def map_filter_simps)
  have "audio_ok ?s" using a(1) assms(2) unfolding audio_ok_def q by (auto simp: el_finished_def)
  moreover have "text_ok ?s" by (rule text_ok_unwind[OF text_ok_prefix[OF a(2)]]) (simp_all add: el_finished_def)
  moreover have "shape_ok ?s" using a(3) assms(3) by (auto simp: shape_ok_def el_finished_def split: if_splits)
  ultimately show ?thesis by (simp add: el_ok_def)
qed

lemma ok_unwind:
  assumes "audio_ok s" "text_prefix s" "\<not> unwinding s"
    "inits (et_sent s) \<le> (if et_reopened s then 2 else 1)"
  shows "el_ok (snd (el_unwind (p, s)))"
proof -
  let ?s = "snd (el_unwind (p, s))"
  have q: "queued ?s = queued s" by (simp add: queued_def el_finished_def el_unwind_def map_filter_simps)
  have "audio_ok ?s" using assms(1,3) unfolding audio_ok_def q by (auto simp: el_finished_def el_unwind_def)
  moreover have "text_ok ?s" by (rule text_ok_unwind[OF assms(2)]) (simp_all add: el_finished_def el_unwind_def)
  moreover have "shape_ok ?s" using assms(4) by (auto simp: shape_ok_def el_finished_def el_unwind_def split: if_splits)
  ultimately show ?thesis by (simp add: el_ok_def)
qed

text \<open>Between two suspension points, nobody having closed the stream.\<close>

definition mid_ok :: "el_tts \<Rightarrow> bool" where
  "mid_ok s \<longleftrightarrow>
     \<not> et_closed s \<and> \<not> et_cancel s \<and> et_ws s \<and> et_reader s \<noteq> NoReader \<and> \<not> unwinding s \<and> audio_ok s
     \<and> et_given s = texts (et_sent s) @ et_pending s \<and> (\<forall>m\<in>set (et_given s). is_text m)
     \<and> inits (et_sent s) \<le> (if et_reopened s then 2 else 1)"

lemma serve_next_keeps [simp]:
  "et_out (serve_next tt now s) = et_out s" "et_got (serve_next tt now s) = et_got s"
  "et_in (serve_next tt now s) = et_in s" "et_carry (serve_next tt now s) = et_carry s"
  "et_buffered (serve_next tt now s) = et_buffered s" "et_reader (serve_next tt now s) = et_reader s"
  "et_given (serve_next tt now s) = et_given s" "et_sent (serve_next tt now s) = et_sent s"
  "et_closed (serve_next tt now s) = et_closed s" "et_cancel (serve_next tt now s) = et_cancel s"
  "et_ws (serve_next tt now s) = et_ws s" "et_reopened (serve_next tt now s) = et_reopened s"
  by (simp_all add: serve_next_def split: list.splits)

lemma serve_next_pc:
  "et_pc (serve_next tt now s) = RReader \<or> et_pc (serve_next tt now s) = RWait
   \<or> (\<exists>m. et_pc (serve_next tt now s) = RSend m)"
  by (simp add: serve_next_def split: list.splits)

lemma serve_next_pending: "sending (serve_next tt now s) @ et_pending (serve_next tt now s) = et_pending s"
  by (simp add: serve_next_def sending_def split: list.splits)

lemma mid_ok_next:
  assumes "mid_ok s"
  shows "el_ok (serve_next tt now s)"
proof -
  let ?s = "serve_next tt now s"
  have pc: "\<not> unwinding ?s" "\<not> before_open ?s" "et_pc ?s \<noteq> RInit" using serve_next_pc[of tt now s] by auto
  have a: "audio_ok s" "\<not> unwinding s" using assms by (simp_all add: mid_ok_def)
  have "audio_ok ?s" by (rule audio_ok_frame[OF a(1)]) (use pc(1) a(2) in auto)
  moreover have "text_ok ?s"
  proof -
    have "et_given ?s = texts (et_sent ?s) @ sending ?s @ et_pending ?s"
      using assms by (simp add: mid_ok_def serve_next_pending)
    moreover have "\<forall>m\<in>set (et_given ?s). is_text m" using assms by (simp add: mid_ok_def)
    ultimately show ?thesis unfolding text_ok_def by blast
  qed
  moreover have "shape_ok ?s" using assms pc unfolding shape_ok_def mid_ok_def by simp
  ultimately show ?thesis by (simp add: el_ok_def)
qed

lemma mid_ok_pc:
  assumes "mid_ok s" "\<not> before_open (s\<lparr>et_pc := pc\<rparr>)" "\<not> unwinding (s\<lparr>et_pc := pc\<rparr>)"
    "sending (s\<lparr>et_pc := pc\<rparr>) = []" "pc \<noteq> RInit"
  shows "el_ok (s\<lparr>et_pc := pc\<rparr>)"
proof -
  let ?s = "s\<lparr>et_pc := pc\<rparr>"
  have a: "audio_ok s" "\<not> unwinding s" using assms by (simp_all add: mid_ok_def)
  have "audio_ok ?s" by (rule audio_ok_frame[OF a(1)]) (use assms(3) a(2) in auto)
  moreover have "text_ok ?s" using assms(1) unfolding text_ok_def assms(4) by (simp add: mid_ok_def)
  moreover have "shape_ok ?s" using assms unfolding shape_ok_def mid_ok_def by simp
  ultimately show ?thesis by (simp add: el_ok_def)
qed

lemma ok_mid:
  assumes "el_ok s" "\<not> et_cancel s" "\<not> before_open s" "\<not> unwinding s" "sending s = []" "et_pc s \<noteq> RInit"
  shows "mid_ok s"
proof -
  have "\<not> et_closed s" using assms by (auto simp: el_ok_def shape_ok_def)
  then show ?thesis using assms unfolding mid_ok_def el_ok_def text_ok_def shape_ok_def by auto
qed

lemma mid_ok_unwind: "mid_ok s \<Longrightarrow> el_ok (snd (el_unwind (p, s)))"
  by (rule ok_unwind) (simp_all add: mid_ok_def text_prefix_def)

lemma mid_ok_written:
  assumes "mid_ok s" "\<not> is_text m" "\<not> is_init m"
  shows "mid_ok (el_written m s)" "mid_ok ((el_written m s)\<lparr>et_last_sent := x\<rparr>)"
proof -
  have e: "texts (et_sent s @ [m]) = texts (et_sent s)" "inits (et_sent s @ [m]) = inits (et_sent s)"
    using assms(2,3) by (simp_all add: texts_def inits_def)
  have a: "audio_ok s" "\<not> unwinding s" using assms(1) by (simp_all add: mid_ok_def)
  have "audio_ok (el_written m s)" "audio_ok ((el_written m s)\<lparr>et_last_sent := x\<rparr>)"
    by (rule audio_ok_frame[OF a(1)]; use a(2) in \<open>auto simp: el_written_def\<close>)+
  then show "mid_ok (el_written m s)" "mid_ok ((el_written m s)\<lparr>et_last_sent := x\<rparr>)"
    using assms(1) unfolding mid_ok_def by (simp_all add: el_written_def e)
qed

lemma mid_ok_init:
  assumes "el_ok s" "\<not> et_cancel s" "et_pc s = RInit"
  shows "mid_ok (el_written (ElInit v) s)" "mid_ok (s\<lparr>et_last_sent := x\<rparr>)"
proof -
  have e: "texts (et_sent s @ [ElInit v]) = texts (et_sent s)" "inits (et_sent s @ [ElInit v]) = Suc (inits (et_sent s))"
    by (simp_all add: texts_def inits_def is_text_def is_init_def)
  have a: "audio_ok s" "text_ok s" "shape_ok s" using assms(1) by (auto simp: el_ok_def)
  have nc: "\<not> et_closed s" using a(3) assms(2,3) by (simp add: shape_ok_def)
  have "audio_ok (el_written (ElInit v) s)" "audio_ok (s\<lparr>et_last_sent := x\<rparr>)"
    by (rule audio_ok_frame[OF a(1)]; use assms(3) in \<open>auto simp: el_written_def\<close>)+
  moreover have "et_given s = texts (et_sent s) @ et_pending s" "\<forall>m\<in>set (et_given s). is_text m"
    using a(2) assms(3) nc unfolding text_ok_def sending_def by auto
  ultimately show "mid_ok (el_written (ElInit v) s)" "mid_ok (s\<lparr>et_last_sent := x\<rparr>)"
    using a(3) assms(2,3) nc unfolding mid_ok_def shape_ok_def by (auto simp: el_written_def e split: if_splits)
qed

lemma mid_ok_sent:
  assumes "el_ok s" "\<not> et_cancel s" "et_pc s = RSend m"
  shows "mid_ok (et_end_sent_update f ((el_written m s)\<lparr>et_last_text := x, et_last_sent := y\<rparr>))"
    "mid_ok (s\<lparr>et_pending := m # et_pending s, et_pc := RReader\<rparr>)"
    "mid_ok ((el_written m s)\<lparr>et_last_text := x, et_last_sent := y\<rparr>)"
proof -
  have a: "audio_ok s" "text_ok s" "shape_ok s" using assms(1) by (auto simp: el_ok_def)
  have nc: "\<not> et_closed s" using a(3) assms(2,3) by (simp add: shape_ok_def)
  have g: "et_given s = texts (et_sent s) @ m # et_pending s" "\<forall>m\<in>set (et_given s). is_text m"
    using a(2) assms(3) nc unfolding text_ok_def sending_def by auto
  have m: "is_text m" using g by simp
  then have e: "texts (et_sent s @ [m]) = texts (et_sent s) @ [m]" "inits (et_sent s @ [m]) = inits (et_sent s)"
    by (auto simp: texts_def inits_def is_text_def is_init_def split: el_msg.splits)
  have au: "audio_ok (et_end_sent_update f ((el_written m s)\<lparr>et_last_text := x, et_last_sent := y\<rparr>))"
    "audio_ok ((el_written m s)\<lparr>et_last_text := x, et_last_sent := y\<rparr>)"
    "audio_ok (s\<lparr>et_pending := m # et_pending s, et_pc := RReader\<rparr>)"
    by (rule audio_ok_frame[OF a(1)]; use assms(3) in \<open>auto simp: el_written_def\<close>)+
  show "mid_ok (et_end_sent_update f ((el_written m s)\<lparr>et_last_text := x, et_last_sent := y\<rparr>))"
    "mid_ok (s\<lparr>et_pending := m # et_pending s, et_pc := RReader\<rparr>)"
    "mid_ok ((el_written m s)\<lparr>et_last_text := x, et_last_sent := y\<rparr>)"
    using a(3) assms(2,3) nc au g(2) unfolding mid_ok_def shape_ok_def
    by (simp_all add: el_written_def e g(1))
qed

lemma ok_closes:
  assumes "mid_ok s"
  shows "el_ok (snd (el_unwind (p, s\<lparr>et_closed := True, et_pending := []\<rparr>)))"
proof -
  have a: "audio_ok s" "\<not> unwinding s" using assms by (simp_all add: mid_ok_def)
  show ?thesis
  proof (rule ok_unwind)
    show "audio_ok (s\<lparr>et_closed := True, et_pending := []\<rparr>)" by (rule audio_ok_frame[OF a(1)]) (use a(2) in auto)
  qed (use assms in \<open>simp_all add: mid_ok_def text_prefix_def\<close>)
qed

lemma ok_reopens:
  assumes "mid_ok s" "\<not> et_reopened s" "et_reader s = ReaderDone (OClosed k)"
  shows "el_ok (s\<lparr>et_reopened := True, et_ws := False, et_reader := NoReader, et_pc := RCloseReopen\<rparr>)"
proof -
  let ?s = "s\<lparr>et_reopened := True, et_ws := False, et_reader := NoReader, et_pc := RCloseReopen\<rparr>"
  have a: "audio_ok s" "\<not> unwinding s" using assms(1) by (simp_all add: mid_ok_def)
  have i: "sending ?s = []" by (simp add: sending_def)
  have "audio_ok ?s" by (rule audio_ok_frame[OF a(1)]) (use a(2) assms(3) in auto)
  moreover have "text_ok ?s" using assms(1) unfolding text_ok_def i by (simp add: mid_ok_def)
  moreover have "shape_ok ?s" using assms(1,2) unfolding shape_ok_def mid_ok_def by simp
  ultimately show ?thesis by (simp add: el_ok_def)
qed

lemma ok_serve_end:
  assumes "mid_ok s" "et_reader s = ReaderDone out"
  shows "el_ok (snd (serve_end now out (p, s)))"
  using assms mid_ok_unwind[OF assms(1)] ok_reopens[OF assms(1)]
  by (auto simp: serve_end_def mid_ok_def split: el_outcome.splits)

lemma ok_serve_woken:
  assumes "mid_ok s"
  shows "el_ok (snd (serve_woken tt now b (p, s)))"
  using mid_ok_pc[OF assms, of RKeep] mid_ok_next[OF assms] ok_closes[OF assms]
  by (simp add: serve_woken_def sending_def)

lemma ok_cancelled:
  assumes "el_ok s" "\<not> unwinding s"
  shows "el_ok (snd (el_unwind (p, s)))"
  by (rule ok_unwind)
    (use assms in \<open>auto simp: el_ok_def shape_ok_def intro: text_ok_prefix\<close>)

lemma ok_before_open:
  assumes "el_ok s" "et_pc s = RNew \<or> et_pc s = RCloseReopen"
  shows "el_ok (s\<lparr>et_pc := RConnect\<rparr>)"
proof -
  have "audio_ok s" "text_ok s" "shape_ok s" using assms(1) by (auto simp: el_ok_def)
  have "audio_ok (s\<lparr>et_pc := RConnect\<rparr>)"
    by (rule audio_ok_frame[OF \<open>audio_ok s\<close>]) (use assms(2) in auto)
  moreover have "text_ok (s\<lparr>et_pc := RConnect\<rparr>)"
    by (rule text_ok_frame[OF \<open>text_ok s\<close>]) (use assms(2) in \<open>auto simp: sending_def\<close>)
  moreover have "shape_ok (s\<lparr>et_pc := RConnect\<rparr>)"
    using \<open>shape_ok s\<close> assms(2) unfolding shape_ok_def by (elim disjE) simp_all
  ultimately show ?thesis by (simp add: el_ok_def)
qed

lemma ok_opened:
  assumes "el_ok s" "et_pc s = RConnect"
  shows "el_ok (s\<lparr>et_ws := True, et_reader := Reading, et_last_text := x, et_last_sent := y, et_pc := RInit\<rparr>)"
proof -
  let ?s = "s\<lparr>et_ws := True, et_reader := Reading, et_last_text := x, et_last_sent := y, et_pc := RInit\<rparr>"
  have a: "audio_ok s" "text_ok s" "shape_ok s" using assms(1) by (auto simp: el_ok_def)
  have "audio_ok ?s" by (rule audio_ok_frame[OF a(1)]) (use assms(2) a(3) in \<open>auto simp: shape_ok_def\<close>)
  moreover have "text_ok ?s" by (rule text_ok_frame[OF a(2)]) (use assms(2) in \<open>auto simp: sending_def\<close>)
  ultimately show ?thesis using a(3) assms(2) unfolding el_ok_def shape_ok_def by auto
qed

lemma ok_runner_step:
  assumes ok: "el_ok s" and en: "run_enabled now r s"
  shows "el_ok (snd (runner_step tt now r (p, s)))"
proof (cases "r = InCancel \<or> unwinding s \<or> before_open s")
  case True
  have fin: "el_ok (snd (el_finished (p', s)))" if "\<not> et_ws s" for p'
    using ok_finished[OF ok _ that] en by (simp add: run_enabled_def)
  have ws: "\<not> et_ws s" if "unwinding s \<or> before_open s"
    using ok that by (auto simp: el_ok_def shape_ok_def)
  consider "unwinding s" | "et_pc s = RNew" | "et_pc s = RConnect" | "et_pc s = RCloseReopen"
    | "r = InCancel" "\<not> unwinding s" "\<not> before_open s" using True by blast
  then show ?thesis
  proof cases
    case 1 then show ?thesis using fin ws en by (auto simp: runner_step_def run_enabled_def)
  next
    case 2 then show ?thesis using fin ws ok_before_open[OF ok] by (auto simp: runner_step_def)
  next
    case 3
    then have "\<not> unwinding s" by simp
    with 3 show ?thesis using ok_cancelled[OF ok] ok_opened[OF ok] ok
      by (auto simp: runner_step_def split: run_in.splits)
  next
    case 4 then show ?thesis using fin ws ok_before_open[OF ok] by (auto simp: runner_step_def el_unwind_def)
  next
    case 5 then show ?thesis using ok_cancelled[OF ok] by (auto simp: runner_step_def split: el_pc.splits)
  qed
next
  case False
  then have live: "\<not> unwinding s" "\<not> before_open s" and nc: "\<not> et_cancel s"
    using en by (auto simp: run_enabled_def)
  note unw = ok_cancelled[OF ok live(1)]
  have mid: "mid_ok s" if "sending s = []" "et_pc s \<noteq> RInit" using ok_mid[OF ok nc live(2,1) that] .
  show ?thesis
  proof (cases "et_pc s")
    case RInit
    then show ?thesis using unw ok mid_ok_init[OF ok nc RInit, THEN mid_ok_next]
      by (auto simp: runner_step_def split: run_in.splits)
  next
    case (RSend m)
    have "el_ok (s\<lparr>et_pending := m # et_pending s, et_pc := RReader\<rparr>)"
      using mid_ok_pc[OF mid_ok_sent(2)[OF ok nc RSend], of RReader] by (simp add: sending_def)
    then show ?thesis using RSend unw ok mid_ok_sent(1,3)[OF ok nc RSend, THEN mid_ok_next]
      by (auto simp: runner_step_def Let_def split: run_in.splits)
  next
    case RWait
    then show ?thesis using unw ok ok_serve_woken[OF mid] by (auto simp: runner_step_def sending_def split: run_in.splits)
  next
    case RKeep
    have m: "mid_ok s" using mid RKeep by (simp add: sending_def)
    have "el_ok (s\<lparr>et_pc := RReader\<rparr>)" using mid_ok_pc[OF m, of RReader] by (simp add: sending_def)
    then show ?thesis using RKeep unw ok mid_ok_written(2)[OF m, of ElKeep, THEN mid_ok_next]
      by (auto simp: runner_step_def is_text_def is_init_def split: run_in.splits)
  next
    case RReader
    then show ?thesis using unw ok ok_serve_end[OF mid]
      by (auto simp: runner_step_def sending_def split: run_in.splits el_reader.splits)
  qed (use live in auto)
qed

text \<open>The reader, the turn and the player touch their own part of the stream.\<close>

lemma reading_live: "el_ok s \<Longrightarrow> et_reader s = Reading \<Longrightarrow> \<not> unwinding s \<and> \<not> before_open s \<and> et_ws s"
  by (auto simp: el_ok_def shape_ok_def)

lemma ok_reader_frame:
  assumes "el_ok s" "et_reader s = Reading" "et_reader s' \<noteq> NoReader" "audio_ok s'"
    "et_ws s' = et_ws s" "et_pc s' = et_pc s" "et_closed s' = et_closed s" "et_cancel s' = et_cancel s"
    "et_sent s' = et_sent s" "et_reopened s' = et_reopened s" "et_given s' = et_given s" "et_pending s' = et_pending s"
  shows "el_ok s'"
proof -
  have l: "\<not> unwinding s" "\<not> before_open s" "et_ws s" using reading_live[OF assms(1,2)] by simp_all
  have "text_ok s'" using assms(1,6,7,9,11,12) unfolding el_ok_def text_ok_def sending_def by simp
  moreover have "shape_ok s'" using assms(1-3,5-10) l unfolding el_ok_def shape_ok_def by simp
  ultimately show ?thesis using assms(4) by (simp add: el_ok_def)
qed

lemma ok_read_stop:
  assumes "el_ok s" "et_reader s = Reading"
  shows "el_ok (read_stop out s)" "el_ok (read_stop out (s\<lparr>et_final := b\<rparr>))"
proof -
  have a: "audio_ok s" using assms(1) by (simp add: el_ok_def)
  have l: "\<not> unwinding s" using reading_live[OF assms] by simp
  show "el_ok (read_stop out s)"
    by (rule ok_reader_frame[OF assms]; (rule audio_ok_frame[OF a])?; use assms(2) l in \<open>simp add: read_stop_def\<close>)
  show "el_ok (read_stop out (s\<lparr>et_final := b\<rparr>))"
    by (rule ok_reader_frame[OF assms]; (rule audio_ok_frame[OF a])?; use assms(2) l in \<open>simp add: read_stop_def\<close>)
qed

lemma ok_frame_end: "el_ok s \<Longrightarrow> et_reader s = Reading \<Longrightarrow> el_ok (frame_end f s)"
  by (simp add: frame_end_def ok_read_stop)

lemma even_split: "even_part xs @ odd_tail xs = xs" "even (length (even_part xs))" "length (odd_tail xs) \<le> 1"
proof -
  have "butlast xs @ [last xs] = xs" if "odd (length xs)" using that by (cases xs rule: rev_cases) auto
  then show "even_part xs @ odd_tail xs = xs" by (auto simp: even_part_def odd_tail_def butlast_conv_take)
  show "length (odd_tail xs) \<le> 1" by (simp add: odd_tail_def)
  have "length (even_part xs) = length xs - length (odd_tail xs)" by (simp add: even_part_def)
  then show "even (length (even_part xs))"
    by (cases "odd (length xs)") (simp_all only: odd_tail_def if_True if_False list.size even_diff_nat not_not, simp_all)
qed

lemma audio_ok_reading:
  assumes "el_ok s" "et_reader s = Reading"
  shows "et_out s = map Some (queued s)" "concat (et_got s) @ concat (queued s) @ et_carry s = et_in s"
    "length (et_carry s) \<le> 1" "\<forall>x\<in>set (queued s) \<union> set (et_got s). x \<noteq> [] \<and> even (length x)"
    "et_buffered s = int (length (concat (queued s)))" "et_buffered s \<le> MAX_BUFFER"
proof -
  have a: "audio_ok s" and l: "\<not> unwinding s" using assms reading_live[OF assms] by (simp_all add: el_ok_def)
  obtain c where c: "concat (et_got s) @ concat (queued s) @ c = et_in s" "length c \<le> 1"
    "et_reader s = ReaderDone OOverflow \<or> unwinding s \<or> c = et_carry s"
    using a unfolding audio_ok_def by blast
  have "c = et_carry s" using c(3) l assms(2) by simp
  then show "concat (et_got s) @ concat (queued s) @ et_carry s = et_in s" "length (et_carry s) \<le> 1"
    using c(1,2) by simp_all
  have "et_out s = map Some (queued s) @ (if et_pc s = RDone then [None] else [])"
    using a unfolding audio_ok_def by blast
  then show "et_out s = map Some (queued s)" using l by simp
  show "\<forall>x\<in>set (queued s) \<union> set (et_got s). x \<noteq> [] \<and> even (length x)"
    "et_buffered s = int (length (concat (queued s)))" "et_buffered s \<le> MAX_BUFFER"
    using a unfolding audio_ok_def by blast+
qed

lemma ok_read_frame:
  assumes ok: "el_ok s" and rd: "et_reader s = Reading"
  shows "el_ok (snd (read_frame now f (p, s)))"
proof (cases "ef_audio f")
  case None
  then show ?thesis using ok_frame_end[OF ok rd] by (simp add: read_frame_def)
next
  case (Some b)
  note au = audio_ok_reading[OF ok rd] and l = reading_live[OF ok rd]
  show ?thesis
  proof (cases b)
    case None
    then show ?thesis using Some ok by (simp add: read_frame_def)
  next
    case (Some a)
    define c where "c = odd_tail (et_carry s @ a)"
    define ys where "ys = even_part (et_carry s @ a)"
    have e: "ys @ c = et_carry s @ a" "even (length ys)" "length c \<le> 1"
      unfolding c_def ys_def by (rule even_split)+
    let ?s0 = "s\<lparr>et_carry := c, et_in := et_in s @ a\<rparr>"
    let ?s1 = "s\<lparr>et_carry := c, et_got_audio := True, et_buffered := et_buffered s + int (length ys),
                et_out := et_out s @ [Some ys], et_in := et_in s @ a\<rparr>"
    let ?so = "read_stop OOverflow (s\<lparr>et_carry := c\<rparr>)"
    have i: "et_in s @ a = concat (et_got s) @ concat (queued s) @ ys @ c"
      unfolding au(2)[symmetric] using e(1) by simp
    have q1: "queued ?s1 = queued s @ [ys]" by (simp add: queued_def map_filter_simps)
    have q0: "queued ?s0 = queued s" "queued ?so = queued s" by (simp_all add: queued_def read_stop_def)
    have "audio_ok ?s0" if "ys = []"
    proof -
      have "concat (et_got s) @ concat (queued s) @ c = et_in s @ a" using i that by simp
      then show ?thesis using au(1,4-6) l e(3) unfolding audio_ok_def q0
        by (intro conjI exI[of _ c]) simp_all
    qed
    then have k0: "el_ok ?s0" if "ys = []" using ok_reader_frame[OF ok rd, of ?s0] rd that by simp
    have "audio_ok ?so" using au l unfolding audio_ok_def q0 by (auto simp: read_stop_def)
    then have ko: "el_ok ?so" using ok_reader_frame[OF ok rd, of ?so] by (simp add: read_stop_def)
    have "audio_ok ?s1" if "ys \<noteq> []" "et_buffered s + int (length ys) \<le> MAX_BUFFER"
      unfolding audio_ok_def q1 using au(1,4-6) l i e(2,3) that by (intro conjI exI[of _ c]) auto
    then have k1: "el_ok ?s1" if "ys \<noteq> []" "et_buffered s + int (length ys) \<le> MAX_BUFFER"
      using ok_reader_frame[OF ok rd, of ?s1] rd that by simp
    have "snd (read_frame now f (p, s)) =
      (if ys = [] then ?s0 else if et_buffered s + int (length ys) > MAX_BUFFER then ?so else frame_end f ?s1)"
      by (simp add: read_frame_def \<open>ef_audio f = Some b\<close> Some Let_def c_def[symmetric]
          ys_def[symmetric])
    then show ?thesis using k0 ko ok_frame_end[OF k1] rd by simp
  qed
qed

lemma ok_enqueue:
  assumes "el_ok s" "\<not> et_closed s" "is_text m"
  shows "el_ok (el_enqueue m s)"
proof -
  have a: "audio_ok s" "text_ok s" "shape_ok s" using assms(1) by (auto simp: el_ok_def)
  obtain rest where r: "et_given s = texts (et_sent s) @ sending s @ rest"
    "et_closed s \<or> unwinding s \<or> rest = et_pending s" "\<forall>m\<in>set (et_given s). is_text m"
    using a(2) unfolding text_ok_def by blast
  have i: "sending (el_enqueue m s) = sending s" by (simp add: sending_def el_enqueue_def)
  have "et_given (el_enqueue m s) = texts (et_sent (el_enqueue m s)) @ sending s @ (rest @ [m])"
    "\<forall>x\<in>set (et_given (el_enqueue m s)). is_text x" "unwinding s \<or> rest @ [m] = et_pending (el_enqueue m s)"
    using r assms(2,3) by (auto simp: el_enqueue_def)
  then have "text_ok (el_enqueue m s)" unfolding text_ok_def i by (auto simp: el_enqueue_def)
  moreover have "audio_ok (el_enqueue m s)"
    by (rule audio_ok_frame[OF a(1)]) (auto simp: el_enqueue_def)
  moreover have "shape_ok (el_enqueue m s)" using a(3) unfolding shape_ok_def by (simp add: el_enqueue_def)
  ultimately show ?thesis by (simp add: el_ok_def)
qed

lemma ok_extra [simp]:
  "el_ok (s\<lparr>et_chars := n\<rparr>) = el_ok s" "el_ok (s\<lparr>et_end_requested := b\<rparr>) = el_ok s"
  by (simp_all add: el_ok_def shape_ok_def audio_ok_def text_ok_def sending_def queued_def)

lemma ok_send_text: "el_ok s \<Longrightarrow> el_ok (el_send_text_chunk es x s)"
  by (simp add: el_send_text_chunk_def ok_enqueue is_text_def)

lemma enqueue_closed [simp]: "et_closed (el_enqueue m s) = et_closed s"
  by (simp add: el_enqueue_def)

lemma ok_end: "el_ok s \<Longrightarrow> el_ok (el_end s)"
  by (simp add: el_end_def ok_enqueue is_text_def)

lemma ok_close:
  assumes "el_ok s"
  shows "el_ok (el_close s)"
proof -
  have a: "audio_ok s" "text_ok s" "shape_ok s" using assms(1) by (auto simp: el_ok_def)
  have "text_ok (el_close s)" by (rule text_ok_frame[OF a(2)]) (auto simp: sending_def el_close_def)
  moreover have "audio_ok (el_close s)" by (rule audio_ok_frame[OF a(1)]) (auto simp: el_close_def)
  moreover have "shape_ok (el_close s)" using a(3) unfolding shape_ok_def by (simp add: el_close_def)
  ultimately show ?thesis by (simp add: el_ok_def)
qed

lemma ok_next:
  assumes ok: "el_ok s" and n: "el_next s = Some (x, s')"
  shows "el_ok s'"
proof -
  have a: "audio_ok s" "text_ok s" "shape_ok s" using ok by (auto simp: el_ok_def)
  have same: "et_pc s' = et_pc s" "et_reader s' = et_reader s" "et_sent s' = et_sent s" "et_given s' = et_given s"
    "et_pending s' = et_pending s" "et_closed s' = et_closed s" "et_cancel s' = et_cancel s" "et_ws s' = et_ws s"
    "et_reopened s' = et_reopened s" "et_in s' = et_in s" "et_carry s' = et_carry s"
    using n by (auto simp: el_next_def split: list.splits option.splits)
  have o: "et_out s = map Some (queued s) @ (if et_pc s = RDone then [None] else [])"
    "\<forall>x\<in>set (queued s) \<union> set (et_got s). x \<noteq> [] \<and> even (length x)"
    "et_buffered s = int (length (concat (queued s)))" "et_buffered s \<le> MAX_BUFFER"
    using a(1) unfolding audio_ok_def by blast+
  obtain c where c: "concat (et_got s) @ concat (queued s) @ c = et_in s" "length c \<le> 1"
    "et_reader s = ReaderDone OOverflow \<or> unwinding s \<or> c = et_carry s"
    using a(1) unfolding audio_ok_def by blast
  have "audio_ok s'"
  proof (cases "queued s")
    case Nil
    then have "et_out s = [None]" using o(1) n by (auto simp: el_next_def split: if_splits)
    then have "s' = s" using n by (cases s) (auto simp: el_next_def)
    then show ?thesis using a(1) by simp
  next
    case (Cons y ys)
    have out: "et_out s = Some y # map Some ys @ (if et_pc s = RDone then [None] else [])" using o(1) Cons by simp
    then have s': "et_out s' = map Some ys @ (if et_pc s = RDone then [None] else [])"
      "et_buffered s' = et_buffered s - int (length y)" "et_got s' = et_got s @ [y]"
      using n by (auto simp: el_next_def)
    then have q: "queued s' = ys" by (auto simp: queued_def map_filter_simps)
    have "concat (et_got s') @ concat (queued s') @ c = et_in s'"
      unfolding same(10) c(1)[symmetric] s'(3) q Cons by simp
    then show ?thesis using c(2,3) o(2-4) s'(1,2) Cons unfolding audio_ok_def q same(1,2,10,11) s'(3)
      by (intro conjI exI[of _ c]) auto
  qed
  moreover have "text_ok s'" using a(2) unfolding text_ok_def sending_def same .
  moreover have "shape_ok s'" using a(3) unfolding shape_ok_def same .
  ultimately show ?thesis by (simp add: el_ok_def)
qed

lemma ok_act_step:
  assumes "el_ok s"
  shows "el_ok (snd (el_act_step es tt a (p, s)))"
  using ok_runner_step[OF assms] ok_read_frame[OF assms] ok_read_stop(1)[OF assms] ok_send_text[OF assms]
    ok_end[OF assms] ok_close[OF assms] ok_next[OF assms] assms
  by (cases a) (simp_all add: el_act_step_def read_closed_def read_fails_def split: option.splits prod.splits)

lemma ok_new: "el_ok (new_el_tts v tk)"
  by (simp add: el_ok_def shape_ok_def audio_ok_def text_ok_def sending_def queued_def new_el_tts_def
      inits_def texts_def map_filter_simps MAX_BUFFER_def)

section \<open>The permits\<close>

definition live :: "el_tts \<Rightarrow> nat" where
  "live s = (if et_pc s = RDone then 0 else 1)"

lemma sem_provider [simp]:
  "lp_sem (el_mark_auth_failed why p) = lp_sem p" "lp_sem (el_record_failure now tk err p) = lp_sem p"
  "lp_sem (el_connect_failed now tk e p) = lp_sem p" "lp_sem (el_capacity_close now tk p) = lp_sem p"
  "lp_sem (el_record_success now p) = lp_sem p" "lp_sem (snd (el_probe_once now tk r p)) = lp_sem p"
proof -
  show f: "lp_sem (el_record_failure now tk err p) = lp_sem p" for now tk err p
    by (simp add: el_record_failure_def split: prod.splits bool.splits)
  show a: "lp_sem (el_mark_auth_failed why p) = lp_sem p" for why p by (simp add: el_mark_auth_failed_def)
  show c: "lp_sem (el_connect_failed now tk e p) = lp_sem p" for now tk e p
    by (simp add: el_connect_failed_def f a Let_def)
  show "lp_sem (el_capacity_close now tk p) = lp_sem p" by (simp add: el_capacity_close_def)
  show s: "lp_sem (el_record_success now p) = lp_sem p" for now p by (simp add: el_record_success_def)
  show "lp_sem (snd (el_probe_once now tk r p)) = lp_sem p"
    by (simp add: el_probe_once_def f a c s Let_def split: probe_result.splits)
qed

lemma live_unwind:
  assumes "et_pc s \<noteq> RDone" "el_unwind (p, s) = (p', s')"
  shows "lp_sem p' + live s' = Suc (lp_sem p)"
  using assms by (auto simp: el_unwind_def el_finished_def live_def split: if_splits)

lemma live_serve_next [simp]: "live (serve_next tt now s) = 1"
  by (simp add: live_def serve_next_def split: list.splits)

lemma serve_next_not_done [simp]: "et_pc (serve_next tt now s) \<noteq> RDone"
  by (simp add: serve_next_def split: list.splits)

lemma live_serve_end:
  assumes "et_pc s \<noteq> RDone" "serve_end now out (p, s) = (p', s')"
  shows "lp_sem p' + live s' = Suc (lp_sem p)"
proof -
  have u: "lp_sem p2 + live s2 = Suc (lp_sem p1)" if "el_unwind (p1, s) = (p2, s2)" for p1 p2 s2
    using live_unwind[OF assms(1) that] .
  show ?thesis using assms u
    by (auto simp: serve_end_def split: if_splits el_outcome.splits dest!: u) (auto simp: live_def)
qed

lemma live_runner_step:
  assumes "et_pc s \<noteq> RDone" "runner_step tt now r (p, s) = (p', s')"
  shows "lp_sem p' + live s' = Suc (lp_sem p)"
proof -
  have u: "lp_sem p2 + live s2 = Suc (lp_sem p1)" if "el_unwind (p1, t) = (p2, s2)" "et_pc t \<noteq> RDone" for p1 p2 t s2
    using live_unwind[OF that(2,1)] .
  have w: "lp_sem p2 + live s2 = Suc (lp_sem p)" if "serve_woken tt now b (p, s) = (p2, s2)" for b p2 s2
    using that assms(1) by (auto simp: serve_woken_def split: if_splits dest!: u) (auto simp: live_def)
  have f: "lp_sem p2 + live s2 = Suc (lp_sem p1)" if "el_finished (p1, s) = (p2, s2)" for p1 p2 s2
    using that by (auto simp: el_finished_def live_def)
  note e = live_serve_end[OF assms(1)]
  show ?thesis
    using assms
    by (cases "et_pc s"; cases r)
      (auto simp: runner_step_def Let_def live_def split: el_reader.splits if_splits dest!: u w f e)
qed

section \<open>Every reachable state\<close>

definition world_ok :: "el_world \<Rightarrow> bool" where
  "world_ok w \<longleftrightarrow> (\<forall>s\<in>set (snd w). el_ok s) \<and> lp_sem (fst w) + sum_list (map live (snd w)) = MAX_STREAMS"

lemma sum_live_update:
  "i < length ss \<Longrightarrow> sum_list (map live (ss[i := s])) + live (ss ! i) = sum_list (map live ss) + live s"
proof (induction ss arbitrary: i)
  case (Cons x xs)
  then show ?case by (cases i) auto
qed simp

lemma connect_permit:
  assumes "el_connect now speed cid p = (r, p1)"
  shows "case r of None \<Rightarrow> lp_sem p1 = lp_sem p
    | Some s \<Rightarrow> Suc (lp_sem p1) = lp_sem p \<and> (\<exists>v tk. s = new_el_tts v tk)"
  using assms
  by (auto simp: el_connect_def clamp_speed_def Let_def split: if_splits prod.splits option.splits)

lemma act_permit:
  assumes "el_act_step es tt a (p, s) = (p', s')"
  shows "lp_sem p' + live s' = lp_sem p + live s"
proof (cases a)
  case (ARun now r)
  show ?thesis
  proof (cases "run_enabled now r s")
    case True
    then have "et_pc s \<noteq> RDone" "runner_step tt now r (p, s) = (p', s')"
      using assms ARun by (simp_all add: el_act_step_def run_enabled_def)
    then show ?thesis using live_runner_step by (simp add: live_def[of s])
  qed (use assms ARun in \<open>simp add: el_act_step_def\<close>)
next
  case (AFrame now f)
  have [simp]: "live (frame_end f t) = live t" "live (read_stop out t) = live t" for t out
    by (simp_all add: live_def frame_end_def read_stop_def)
  show ?thesis using assms AFrame
    by (auto simp: el_act_step_def read_frame_def live_def[of "s\<lparr>et_carry := _, et_in := _\<rparr>"] Let_def
        split: if_splits option.splits) (auto simp: live_def)
next
  case ANext
  then show ?thesis using assms
    by (auto simp: el_act_step_def el_next_def live_def split: option.splits list.splits)
qed (use assms in \<open>auto simp: el_act_step_def el_send_text_chunk_def el_end_def el_enqueue_def el_close_def
       read_closed_def read_fails_def read_stop_def live_def split: if_splits\<close>)

lemma world_ok_step:
  assumes "world_ok w"
  shows "world_ok (el_world_step es tt a w)"
proof -
  obtain p ss where w: "w = (p, ss)" by (cases w)
  show ?thesis
  proof (cases a)
    case (LConnect now speed cid)
    obtain r p1 where c: "el_connect now speed cid p = (r, p1)" by (cases "el_connect now speed cid p")
    show ?thesis
    proof (cases r)
      case None
      then show ?thesis using assms connect_permit[OF c] by (simp add: w LConnect el_world_step_def c world_ok_def)
    next
      case (Some s)
      then obtain v tk where "Suc (lp_sem p1) = lp_sem p" and s: "s = new_el_tts v tk"
        using connect_permit[OF c] by auto
      moreover have "el_ok s" "live s = 1" unfolding s by (rule ok_new) (simp add: live_def new_el_tts_def)
      ultimately show ?thesis using assms Some by (simp add: w LConnect el_world_step_def c world_ok_def)
    qed
  next
    case (LStream i b)
    show ?thesis
    proof (cases "i < length ss")
      case True
      obtain p1 s1 where s: "el_act_step es tt b (p, ss ! i) = (p1, s1)" by (cases "el_act_step es tt b (p, ss ! i)")
      have "el_ok (ss ! i)" using assms True by (simp add: w world_ok_def)
      then have "el_ok s1" using ok_act_step[of "ss ! i" es tt b p] s by simp
      moreover have "lp_sem p1 + sum_list (map live (ss[i := s1])) = lp_sem p + sum_list (map live ss)"
        using act_permit[OF s] sum_live_update[OF True, of s1] by simp
      ultimately show ?thesis using assms True
        by (auto simp: w LStream el_world_step_def s world_ok_def dest: set_update_subset_insert[THEN subsetD])
    qed (use assms in \<open>simp add: w LStream el_world_step_def\<close>)
  next
    case (LProbe now tk r)
    then show ?thesis using assms by (simp add: w el_world_step_def world_ok_def)
  next
    case LClose
    then show ?thesis using assms by (simp add: w el_world_step_def world_ok_def)
  qed
qed

lemma world_ok_run: "world_ok (el_run es tt i m acts)"
proof -
  have "world_ok w \<Longrightarrow> world_ok (fold (el_world_step es tt) acts w)" for w
    by (induction acts arbitrary: w) (auto simp: world_ok_step)
  moreover have "world_ok (new_el_provider i m, [])" by (simp add: world_ok_def new_el_provider_def)
  ultimately show ?thesis by (simp add: el_run_def)
qed

lemma stream_ok_run: "s \<in> set (snd (el_run es tt i m acts)) \<Longrightarrow> el_ok s"
  using world_ok_run by (simp add: world_ok_def)

section \<open>A run with a reopening\<close>

text \<open>The first socket ends after three bytes of audio, the second one sends two whole samples.\<close>

definition reopen_acts :: "el_world_act list" where
  "reopen_acts =
     [LConnect 0 None ''c'', LStream 0 (AText ''a''), LStream 0 (ARun 0 InOk), LStream 0 (ARun 0 InOk),
      LStream 0 (ARun 0 InOk), LStream 0 (ARun 0 InOk),
      LStream 0 (AFrame 0 \<lparr>ef_audio = Some (Some [1, 2, 3]), ef_final = False\<rparr>),
      LStream 0 (AClosed None None), LStream 0 (ARun 0 InOk), LStream 0 (ARun 0 InOk), LStream 0 (ARun 0 InOk),
      LStream 0 (ARun 0 InOk),
      LStream 0 (AFrame 0 \<lparr>ef_audio = Some (Some [10, 0, 20, 0]), ef_final = False\<rparr>)]"

definition reopen_run :: el_world where
  "reopen_run = el_run (\<lambda>x. True) 60 1 2 reopen_acts"

lemmas reopen_defs =
  reopen_run_def reopen_acts_def el_run_def el_world_step_def el_connect_def new_el_provider_def new_probed_def
  new_gate_def gate_begin_def MAX_STREAMS_def clamp_speed_def new_el_tts_def el_act_step_def el_send_text_chunk_def
  el_enqueue_def runner_step_def run_enabled_def serve_next_def el_written_def reader_done_def read_frame_def
  even_part_def odd_tail_def MAX_BUFFER_def frame_end_def read_closed_def read_stop_def serve_woken_def
  serve_end_def el_record_success_def gate_record_success_def

lemma classify_bare_close: "classify_close None None = KOther"
  by code_simp

lemma reopen_streams:
  "\<exists>s. snd reopen_run = [s] \<and> queued s = [[1, 2], [3, 10, 0, 20]] \<and> et_carry s = [0] \<and> et_got s = []
     \<and> et_in s = [1, 2, 3, 10, 0, 20, 0] \<and> et_sent s = [ElInit 1, ElText ''a'' True] \<and> et_pc s = RInit
     \<and> \<not> et_closed s \<and> et_pending s = [] \<and> et_given s = [ElText ''a'' True]"
  by (simp add: reopen_defs classify_bare_close Let_def queued_def map_filter_simps)

section \<open>Properties\<close>

text \<open>
  C19: The permits of the provider are conserved: after any interleaving of connections, frames, closes and
  resumptions of the streams, the free ones and the streams whose task has not ended are together
  \<open>MAX_STREAMS\<close>, so the provider never has more syntheses and never loses a permit.
\<close>

theorem tts_permits_conserved:
  "case el_run es tt i m acts of
     (p, ss) \<Rightarrow> lp_sem p + length (filter (\<lambda>s. et_pc s \<noteq> RDone) ss) = MAX_STREAMS"
proof -
  have "length (filter (\<lambda>s. et_pc s \<noteq> RDone) ss) = sum_list (map live ss)" for ss
    by (induction ss) (simp_all add: live_def)
  then show ?thesis using world_ok_run[of es tt i m acts]
    by (cases "el_run es tt i m acts") (simp add: world_ok_def)
qed



text \<open>
  What is written to the sockets of a synthesis, besides the opening messages and the keepalives, is a prefix of
  what the turn gave, in its order and without repetition over a reopening; while nobody closed it and it runs,
  the rest is the message being written and what waits. A socket is opened at most twice.
\<close>

theorem tts_text_is_prefix:
  assumes "s \<in> set (snd (el_run es tt i m acts))"
  shows "(\<exists>rest. et_given s = texts (et_sent s) @ rest) \<and> inits (et_sent s) \<le> 2
    \<and> (\<not> et_closed s \<and> et_pc s \<noteq> RCloseFinal \<and> et_pc s \<noteq> RDone
        \<longrightarrow> et_given s = texts (et_sent s) @ sending s @ et_pending s)"
proof -
  have a: "text_ok s" "shape_ok s" using stream_ok_run[OF assms] by (simp_all add: el_ok_def)
  have "inits (et_sent s) \<le> 2" using a(2) unfolding shape_ok_def by (simp split: if_splits)
  then show ?thesis using a(1) unfolding text_ok_def by blast
qed

theorem tts_text_is_prefix_witness:
  "et_given (hd (snd reopen_run)) = texts (et_sent (hd (snd reopen_run)))"
proof -
  obtain s where s: "snd reopen_run = [s]" "et_pc s = RInit" "\<not> et_closed s" "et_pending s = []"
    using reopen_streams by blast
  then have "s \<in> set (snd (el_run (\<lambda>x. True) 60 1 2 reopen_acts))" by (simp add: reopen_run_def)
  from tts_text_is_prefix[OF this] show ?thesis by (simp add: s sending_def)
qed

text \<open>
  Closing a stream whose task runs ends it, wherever it is: the cancelled task ends in at most two resumptions, which
  give its permit back once and end the iterator of the player.
\<close>

theorem tts_close_ends:
  assumes "et_pc s \<noteq> RDone" "\<not> et_closed s"
  shows "let ps1 = runner_step tt now InCancel (p, el_close s); (p2, s2) = runner_step tt now2 r ps1 in
           run_enabled now InCancel (el_close s) \<and> et_pc s2 = RDone \<and> lp_sem p2 = Suc (lp_sem p)
           \<and> None \<in> set (et_out s2) \<and> et_pending s2 = []"
  using assms
  by (cases "et_pc s")
    (auto simp: runner_step_def el_unwind_def el_finished_def el_close_def run_enabled_def Let_def)

theorem tts_close_ends_witness:
  "et_pc (snd (runner_step 60 2 InOk (runner_step 60 1 InCancel (new_el_provider 1 2, el_close (new_el_tts 1 1))))) = RDone"
  using tts_close_ends[of "new_el_tts 1 1" 60 1 "new_el_provider 1 2" 2 InOk]
  by (simp add: new_el_tts_def Let_def split: prod.splits)

text \<open>
  The odd byte the first socket of a synthesis left is put before the audio of the second one: in this run the
  samples \<open>10, 0\<close> and \<open>20, 0\<close> reach the player as \<open>3, 10\<close> and \<open>0, 20\<close>, since a reopening keeps \<open>_carry\<close>.
\<close>

theorem tts_reopen_shifts_samples:
  "map queued (snd reopen_run) = [[[1, 2], [3, 10, 0, 20]]]"
  using reopen_streams by auto

end
