(* ===== verification/Eleven_STT.thy ===== *)
theory Eleven_STT
  imports Eleven_Common Audio
begin

text \<open>
  \<open>services/speech/elevenlabs/stt.py\<close>: \<open>ElevenLabsSttProvider\<close>, shared by the process, and its
  \<open>ElevenLabsSttSession\<close>s, one per audio session. A session opens its upstream socket with the first audio and closes
  it when it is idle. Its coroutines (the callers of \<open>send_audio\<close>, \<open>send_end\<close> and \<open>close\<close>, the task of the connection, the
  commit timer, the drains) are the entries of one list of tasks, each at a suspension point (\<open>stt_pc\<close>); the reader of a
  socket and the idle loop are parts of the state of the connection and of the session. The lock of the sends is
  held by the task that is within one of them; a waiting task may take it whenever it is free.
  \<open>ek_fwd\<close>, \<open>ek_sent\<close> and \<open>ek_calls\<close> are histories: the audio kept to be forwarded, what was written to the sockets, the calls
  of the session's callbacks.
\<close>

section \<open>Constants and data\<close>

definition PCM_BYTES_PER_S :: nat where "PCM_BYTES_PER_S = 16000 * 2"
definition MIN_CHUNK_BYTES :: nat where "MIN_CHUNK_BYTES = PCM_BYTES_PER_S div 10"
definition MAX_CHUNK_BYTES :: nat where "MAX_CHUNK_BYTES = PCM_BYTES_PER_S"
definition MIN_COMMIT_GAP_S :: rat where "MIN_COMMIT_GAP_S = 1"
definition SESSION_STARTED_TIMEOUT_S :: rat where "SESSION_STARTED_TIMEOUT_S = 10"
definition IDLE_CLOSE_S :: rat where "IDLE_CLOSE_S = 5"
definition DRAIN_S :: rat where "DRAIN_S = 3 / 2"
definition MAX_SESSIONS :: nat where "MAX_SESSIONS = 15"

text \<open>\<open>int(CONNECT_BUFFER_S * PCM_BYTES_PER_S) // 2 * 2\<close>, with a buffer of two seconds.\<close>

definition BUF_CAP :: nat where "BUF_CAP = 2 * PCM_BYTES_PER_S div 2 * 2"

definition AUTH_ERRORS :: "string list" where "AUTH_ERRORS = [''auth_error'', ''unaccepted_terms'']"
definition TERMINAL_QUOTA :: "string list" where "TERMINAL_QUOTA = [''quota_exceeded'']"
definition CAPACITY_ERRORS :: "string list" where
  "CAPACITY_ERRORS = [''rate_limited'', ''queue_overflow'', ''resource_exhausted'']"
definition IGNORED_ERRORS :: "string list" where "IGNORED_ERRORS = [''commit_throttled'', ''insufficient_audio_activity'']"
definition OTHER_ERRORS :: "string list" where
  "OTHER_ERRORS = [''error'', ''session_time_limit_exceeded'', ''input_error'', ''invalid_request'', ''chunk_size_exceeded'',
     ''transcriber_error'']"

text \<open>
  The reader of a socket: it awaits the callback of a transcription (whose \<open>True\<close> sets the event \<open>final\<close> after it) or
  of the capacity status, it is over, or it was cancelled.
\<close>

datatype up_reader = UpNoReader | UpReading | UpCallback bool | UpCapacity | UpOver | UpGone

datatype up_outcome = UpKind err_kind | UpError

text \<open>\<open>_Upstream\<close>. \<open>up_epoch\<close> counts the events: a new attempt to connect replaces \<open>ready\<close> and \<open>final\<close> by new ones.\<close>

record el_up =
  up_ws :: bool
  up_epoch :: nat
  up_ready :: bool
  up_final :: bool
  up_closing :: bool
  up_draining :: bool
  up_reader :: up_reader
  up_commit_sent :: bool
  up_outcome :: up_outcome
  up_permit :: bool

definition new_up :: el_up where
  "new_up = \<lparr>up_ws = False, up_epoch = 0, up_ready = False, up_final = False, up_closing = False, up_draining = False,
     up_reader = UpNoReader, up_commit_sent = False, up_outcome = UpKind KOther, up_permit = True\<rparr>"

text \<open>Who runs a send (with \<open>ended\<close> for \<open>send_audio\<close>), and who drains: the idle loop or \<open>close\<close>.\<close>

datatype stt_who = WAudio bool | WEnd | WTimer | WLife nat | WRespawn

datatype drain_who = DIdle | DClose

text \<open>
  Suspension points. A reconnection carries its start and its next backoff; a wait for an event carries its limit,
  the event and whether it was set since.
\<close>

datatype stt_pc =
    QDone
  | QRun
  | QEnsure
  | QSetBusy stt_who
  | QClearBusy stt_who
  | QPump stt_who
  | QChunk stt_who nat bytes
  | QCommit stt_who nat bytes
  | QTimer time
  | QNew nat
  | QConnect nat "(time \<times> rat) option"
  | QStarted nat "(time \<times> rat) option" time
  | QNotReady nat "(time \<times> rat) option"
  | QConnBusy nat "(time \<times> rat) option"
  | QReader nat
  | QClosing nat
  | QBackoff nat time rat time
  | QFinal nat bool
  | QDrainNew nat
  | QDrainReady nat drain_who time nat bool
  | QDrainLock nat drain_who
  | QDrainChunk nat drain_who bytes
  | QDrainCommit nat drain_who bytes
  | QDrainFinal nat drain_who time nat bool
  | QDrainWs nat drain_who
  | QCloseWait time
  | QCloseCancel time

record stt_task =
  tk_pc :: stt_pc
  tk_cancel :: bool
  tk_spawned :: bool

datatype busy_cause = NoCause | SemCause | ErrorCause

datatype idle_pc = IdleOff | IdleSleep | IdleClear | IdleOver

datatype el_call = OnTranscription string bool | OnStatus string "string option"

record el_stt =
  ek_health :: service_health
  ek_gate :: "egate option"
  ek_buf :: bytes
  ek_ups :: "el_up list"
  ek_conn :: "nat option"
  ek_life :: "nat option"
  ek_tasks :: "stt_task list"
  ek_closed :: bool
  ek_closed_evt :: bool
  ek_registered :: bool
  ek_uncommitted :: bool
  ek_since :: bool
  ek_want :: bool
  ek_timer :: "nat option"
  ek_last_commit :: "time option"
  ek_last_fwd :: "time option"
  ek_busy :: bool
  ek_cause :: busy_cause
  ek_cooldown :: time
  ek_last_transcript :: "time option"
  ek_idle :: idle_pc
  ek_calls :: "el_call list"
  ek_fwd :: bytes
  ek_sent :: "(nat \<times> bytes \<times> bool) list"

text \<open>The settings: the energy gate if it is on, and the backoff of the transcriber.\<close>

record stt_cfg =
  kc_gate :: "gate_cfg option"
  kc_initial :: rat
  kc_max_backoff :: rat
  kc_max_duration :: rat

section \<open>The provider\<close>

record stt_provider =
  sp_probe :: probed
  sp_terminal :: bool
  sp_sem :: nat
  sp_health :: service_health
  sp_refusals :: nat
  sp_429 :: nat
  sp_auth_errors :: nat
  sp_opens :: nat
  sp_seconds :: rat

definition new_stt_provider :: stt_provider where
  "new_stt_provider = \<lparr>sp_probe = new_probed, sp_terminal = False, sp_sem = MAX_SESSIONS,
     sp_health = new_health ''transcriber'' CONNECTED, sp_refusals = 0, sp_429 = 0, sp_auth_errors = 0, sp_opens = 0,
     sp_seconds = 0\<rparr>"

text \<open>\<open>_mark_terminal\<close> up to its call of the sessions, which follows at the end of the step (\<open>settle\<close> below).\<close>

definition stt_mark_terminal :: "err_kind \<Rightarrow> stt_provider \<Rightarrow> stt_provider" where
  "stt_mark_terminal why p =
     p\<lparr>sp_auth_errors := Suc (sp_auth_errors p), sp_terminal := True,
       sp_health := set_state DEGRADED (mark_attempt_failed (kind_name why) (sp_health p))\<rparr>"

definition stt_connect_error :: "err_kind \<Rightarrow> stt_provider \<Rightarrow> stt_provider" where
  "stt_connect_error k p =
     (if k = KAuth \<or> k = KQuota then stt_mark_terminal k p
      else if k = KCapacity then p\<lparr>sp_429 := Suc (sp_429 p)\<rparr> else p)"

definition stt_record_success :: "time \<Rightarrow> stt_provider \<Rightarrow> stt_provider" where
  "stt_record_success now p = (if sp_terminal p then p else p\<lparr>sp_health := mark_connected now (sp_health p)\<rparr>)"

definition stt_probe_failed :: "err_kind \<Rightarrow> string option \<Rightarrow> stt_provider \<Rightarrow> bool \<times> stt_provider" where
  "stt_probe_failed k err p =
     (False,
      if k = KAuth \<or> k = KQuota then stt_mark_terminal k p
      else
        let p1 = (if k = KCapacity then p\<lparr>sp_429 := Suc (sp_429 p)\<rparr> else p);
            why = (if k = KCapacity then ''capacity'' else case err of Some e \<Rightarrow> e | None \<Rightarrow> ''connect_failed'') in
        p1\<lparr>sp_health := set_state RECONNECTING (mark_attempt_failed why (sp_health p1))\<rparr>)"

text \<open>How a probe ended: the first frame (with what \<open>json.loads\<close> makes of it), a close, an error or the time limit.\<close>

datatype stt_probe = SpFrame "json option" | SpClosed "nat option" "string option" | SpError ws_error | SpTimeout bool

definition msg_in :: "string list \<Rightarrow> json \<Rightarrow> bool" where
  "msg_in ws j = (case j of JStr s \<Rightarrow> s \<in> set ws | _ \<Rightarrow> False)"

definition unhashable :: "json \<Rightarrow> bool" where
  "unhashable j = (case j of JArr _ \<Rightarrow> True | JObj _ \<Rightarrow> True | _ \<Rightarrow> False)"

definition message_type :: "json option \<Rightarrow> json" where
  "message_type j = (case j of Some (JObj d) \<Rightarrow> dget d ''message_type'' | _ \<Rightarrow> JNull)"

definition stt_probe_once :: "time \<Rightarrow> stt_probe \<Rightarrow> stt_provider \<Rightarrow> bool \<times> stt_provider" where
  "stt_probe_once now r p =
     (case r of
        SpClosed code reason \<Rightarrow> stt_probe_failed (classify_close code reason) None p
      | SpError e \<Rightarrow> stt_probe_failed (classify_exception e) (Some (ws_error_name e)) p
      | SpTimeout conn \<Rightarrow>
          if conn then (True, stt_record_success now p)
          else stt_probe_failed KOther (Some (describe_error TimeoutError)) p
      | SpFrame j \<Rightarrow>
          let mt = message_type j in
          if unhashable mt then stt_probe_failed KOther (Some (describe_error TypeError)) p
          else if msg_in AUTH_ERRORS mt then (False, stt_mark_terminal KAuth p)
          else if msg_in TERMINAL_QUOTA mt then (False, stt_mark_terminal KQuota p)
          else if mt = JStr ''session_started'' then (True, stt_record_success now p)
          else stt_probe_failed KOther None p)"

definition new_el_stt :: "stt_cfg \<Rightarrow> stt_provider \<Rightarrow> el_stt" where
  "new_el_stt c p =
     \<lparr>ek_health = new_health ''transcriber'' (if sp_terminal p then DEGRADED else CONNECTED),
      ek_gate = map_option (\<lambda>_. egate_reset) (kc_gate c), ek_buf = [], ek_ups = [], ek_conn = None, ek_life = None,
      ek_tasks = [], ek_closed = False, ek_closed_evt = False, ek_registered = True, ek_uncommitted = False, ek_since = False,
      ek_want = False, ek_timer = None, ek_last_commit = None, ek_last_fwd = None, ek_busy = False, ek_cause = NoCause,
      ek_cooldown = 0, ek_last_transcript = None, ek_idle = IdleOff, ek_calls = [], ek_fwd = [], ek_sent = []\<rparr>"

section \<open>Tasks, connections, callbacks\<close>

definition upd_up :: "nat \<Rightarrow> (el_up \<Rightarrow> el_up) \<Rightarrow> el_stt \<Rightarrow> el_stt" where
  "upd_up u f s = s\<lparr>ek_ups := (ek_ups s)[u := f (ek_ups s ! u)]\<rparr>"

abbreviation upstream :: "el_stt \<Rightarrow> nat \<Rightarrow> el_up" where
  "upstream s u \<equiv> ek_ups s ! u"

definition upd_task :: "nat \<Rightarrow> (stt_task \<Rightarrow> stt_task) \<Rightarrow> el_stt \<Rightarrow> el_stt" where
  "upd_task i f s = s\<lparr>ek_tasks := (ek_tasks s)[i := f (ek_tasks s ! i)]\<rparr>"

definition suspend :: "nat \<Rightarrow> stt_pc \<Rightarrow> el_stt \<Rightarrow> el_stt" where
  "suspend i pc s = upd_task i (\<lambda>t. t\<lparr>tk_pc := pc\<rparr>) s"

definition spawn :: "stt_pc \<Rightarrow> bool \<Rightarrow> el_stt \<Rightarrow> el_stt" where
  "spawn pc spawned s = s\<lparr>ek_tasks := ek_tasks s @ [\<lparr>tk_pc = pc, tk_cancel = False, tk_spawned = spawned\<rparr>]\<rparr>"

definition task_done :: "nat option \<Rightarrow> el_stt \<Rightarrow> bool" where
  "task_done j s = (case j of None \<Rightarrow> True | Some i \<Rightarrow> tk_pc (ek_tasks s ! i) = QDone)"

definition holding :: "stt_pc \<Rightarrow> bool" where
  "holding pc = (case pc of QChunk _ _ _ \<Rightarrow> True | QCommit _ _ _ \<Rightarrow> True | QDrainChunk _ _ _ \<Rightarrow> True
     | QDrainCommit _ _ _ \<Rightarrow> True | _ \<Rightarrow> False)"

definition locked :: "el_stt \<Rightarrow> bool" where
  "locked s = list_ex (\<lambda>t. holding (tk_pc t)) (ek_tasks s)"

definition reader_active :: "el_up \<Rightarrow> bool" where
  "reader_active x = (case up_reader x of UpReading \<Rightarrow> True | UpCallback _ \<Rightarrow> True | UpCapacity \<Rightarrow> True | _ \<Rightarrow> False)"

definition cancel_reader :: "el_up \<Rightarrow> el_up" where
  "cancel_reader x = (if reader_active x then x\<lparr>up_reader := UpGone\<rparr> else x)"

text \<open>\<open>task.cancel()\<close>: a task that awaits the reader cancels it.\<close>

definition cancel_task :: "nat \<Rightarrow> el_stt \<Rightarrow> el_stt" where
  "cancel_task i s =
     (let pc = tk_pc (ek_tasks s ! i);
          s1 = (case pc of QReader u \<Rightarrow> upd_up u cancel_reader s | _ \<Rightarrow> s) in
      if pc = QDone then s else upd_task i (\<lambda>t. t\<lparr>tk_cancel := True\<rparr>) s1)"

definition stt_call :: "el_call \<Rightarrow> el_stt \<Rightarrow> el_stt" where
  "stt_call c s = s\<lparr>ek_calls := ek_calls s @ [c]\<rparr>"

definition stt_set_busy :: "busy_cause \<Rightarrow> el_stt \<Rightarrow> el_stt" where
  "stt_set_busy c s =
     (if ek_busy s then s
      else stt_call (OnStatus ''busy'' (Some ''provider_capacity'')) (s\<lparr>ek_busy := True, ek_cause := c\<rparr>))"

definition clear_busy :: "el_stt \<Rightarrow> el_stt" where
  "clear_busy s =
     (if ek_busy s then stt_call (OnStatus ''ok'' None) (s\<lparr>ek_busy := False, ek_cause := NoCause\<rparr>) else s)"

text \<open>An event is set: the waits for this event of the connection are woken.\<close>

definition wake_ready :: "nat \<Rightarrow> nat \<Rightarrow> stt_task \<Rightarrow> stt_task" where
  "wake_ready u ep t =
     (case tk_pc t of
        QDrainReady v w d e b \<Rightarrow> t\<lparr>tk_pc := QDrainReady v w d e (b \<or> v = u \<and> e = ep)\<rparr>
      | _ \<Rightarrow> t)"

definition wake_final :: "nat \<Rightarrow> nat \<Rightarrow> stt_task \<Rightarrow> stt_task" where
  "wake_final u ep t =
     (case tk_pc t of
        QDrainFinal v w d e b \<Rightarrow> t\<lparr>tk_pc := QDrainFinal v w d e (b \<or> v = u \<and> e = ep)\<rparr>
      | _ \<Rightarrow> t)"

definition ready_set :: "nat \<Rightarrow> el_stt \<Rightarrow> el_stt" where
  "ready_set u s =
     upd_up u (\<lambda>x. x\<lparr>up_ready := True\<rparr>) (s\<lparr>ek_tasks := map (wake_ready u (up_epoch (upstream s u))) (ek_tasks s)\<rparr>)"

definition final_set :: "nat \<Rightarrow> el_stt \<Rightarrow> el_stt" where
  "final_set u s =
     upd_up u (\<lambda>x. x\<lparr>up_final := True\<rparr>) (s\<lparr>ek_tasks := map (wake_final u (up_epoch (upstream s u))) (ek_tasks s)\<rparr>)"

section \<open>Sending\<close>

definition trim_buffer :: "el_stt \<Rightarrow> el_stt" where
  "trim_buffer s =
     (let excess = length (ek_buf s) - BUF_CAP in
      if 0 < excess then s\<lparr>ek_buf := drop (excess + excess mod 2) (ek_buf s)\<rparr> else s)"

definition commit_wait :: "time \<Rightarrow> el_stt \<Rightarrow> rat" where
  "commit_wait now s =
     (case ek_last_commit s of None \<Rightarrow> 0 | Some t \<Rightarrow> max 0 (MIN_COMMIT_GAP_S - (now - t)))"

definition schedule_commit :: "time \<Rightarrow> el_stt \<Rightarrow> el_stt" where
  "schedule_commit til s =
     (if task_done (ek_timer s) s
      then (spawn (QTimer til) True s)\<lparr>ek_timer := Some (length (ek_tasks s))\<rparr>
      else s)"

text \<open>\<open>_send_commit\<close> up to the send; the rest it sends is the buffer before.\<close>

definition begin_commit :: "nat \<Rightarrow> el_stt \<Rightarrow> el_stt" where
  "begin_commit u s =
     upd_up u (\<lambda>x. x\<lparr>up_final := False, up_commit_sent := True\<rparr>)
       (s\<lparr>ek_buf := [], ek_since := False, ek_want := False, ek_uncommitted := False\<rparr>)"

definition chunk_of :: "el_stt \<Rightarrow> bytes" where
  "chunk_of s = take (min (length (ek_buf s)) MAX_CHUNK_BYTES) (ek_buf s)"

text \<open>
  \<open>_pump\<close> with what follows it (\<open>ex\<close>): the loop of \<open>_send_buffer\<close> from one send to the next, then the commit.
\<close>

definition pump_loop :: "(el_stt \<Rightarrow> el_stt) \<Rightarrow> time \<Rightarrow> stt_who \<Rightarrow> nat \<Rightarrow> nat \<Rightarrow> el_stt \<Rightarrow> el_stt" where
  "pump_loop ex now who u i s =
     (if MIN_CHUNK_BYTES \<le> length (ek_buf s) then suspend i (QChunk who u (chunk_of s)) s
      else if ek_want s then
        let wait = commit_wait now s in
        if 0 < wait then ex (schedule_commit (now + wait) s)
        else suspend i (QCommit who u (ek_buf s)) (begin_commit u s)
      else ex s)"

definition pump_enter :: "(el_stt \<Rightarrow> el_stt) \<Rightarrow> time \<Rightarrow> stt_who \<Rightarrow> nat \<Rightarrow> el_stt \<Rightarrow> el_stt" where
  "pump_enter ex now who i s =
     (case ek_conn s of
        None \<Rightarrow> ex s
      | Some u \<Rightarrow>
          let x = upstream s u in
          if up_closing x \<or> up_draining x \<or> \<not> up_ready x \<or> \<not> up_ws x then ex s
          else pump_loop ex now who u i s)"

definition pump_start :: "(el_stt \<Rightarrow> el_stt) \<Rightarrow> time \<Rightarrow> stt_who \<Rightarrow> nat \<Rightarrow> el_stt \<Rightarrow> el_stt" where
  "pump_start ex now who i s = (if locked s then suspend i (QPump who) s else pump_enter ex now who i s)"

definition plain_exit :: "stt_who \<Rightarrow> nat \<Rightarrow> el_stt \<Rightarrow> el_stt" where
  "plain_exit who i s = (case who of WLife u \<Rightarrow> suspend i (QReader u) s | _ \<Rightarrow> s)"

definition stt_send_end :: "bool \<Rightarrow> time \<Rightarrow> nat \<Rightarrow> el_stt \<Rightarrow> el_stt" where
  "stt_send_end terminal now i s =
     (if ek_closed s \<or> terminal \<or> \<not> ek_uncommitted s then s
      else pump_start (plain_exit WEnd i) now WEnd i (s\<lparr>ek_want := True\<rparr>))"

text \<open>What follows a pump, by its caller.\<close>

definition pump_exit :: "bool \<Rightarrow> time \<Rightarrow> stt_who \<Rightarrow> nat \<Rightarrow> el_stt \<Rightarrow> el_stt" where
  "pump_exit terminal now who i s =
     (case who of
        WAudio ended \<Rightarrow> if ended then stt_send_end terminal now i s else s
      | _ \<Rightarrow> plain_exit who i s)"

definition pump :: "bool \<Rightarrow> time \<Rightarrow> stt_who \<Rightarrow> nat \<Rightarrow> el_stt \<Rightarrow> el_stt" where
  "pump terminal now who i s = pump_start (pump_exit terminal now who i) now who i s"

text \<open>A send that succeeded: the counter of seconds, and the chunk leaves the buffer.\<close>

definition sent_bytes :: "bytes \<Rightarrow> stt_provider \<Rightarrow> stt_provider" where
  "sent_bytes c p = p\<lparr>sp_seconds := sp_seconds p + of_nat (length c) / of_nat PCM_BYTES_PER_S\<rparr>"

definition chunk_sent :: "nat \<Rightarrow> bytes \<Rightarrow> el_stt \<Rightarrow> el_stt" where
  "chunk_sent u c s = s\<lparr>ek_sent := ek_sent s @ [(u, c, False)], ek_buf := drop (length c) (ek_buf s)\<rparr>"

definition commit_done :: "time \<Rightarrow> nat \<Rightarrow> bytes \<Rightarrow> el_stt \<Rightarrow> el_stt" where
  "commit_done now u c s = s\<lparr>ek_sent := ek_sent s @ [(u, c, True)], ek_last_commit := Some now\<rparr>"

section \<open>Opening the connection\<close>

text \<open>What follows \<open>_ensure_upstream\<close>: the rest of \<open>send_audio\<close>, or the end of the task that reopens.\<close>

definition after_ensure :: "bool \<Rightarrow> time \<Rightarrow> stt_who \<Rightarrow> nat \<Rightarrow> el_stt \<Rightarrow> el_stt" where
  "after_ensure terminal now who i s =
     (case who of
        WAudio ended \<Rightarrow>
          (case ek_conn s of
             Some u \<Rightarrow>
               if up_ready (upstream s u) \<and> \<not> up_draining (upstream s u) then pump terminal now who i s
               else pump_exit terminal now who i (trim_buffer s)
           | None \<Rightarrow> pump_exit terminal now who i (trim_buffer s))
      | _ \<Rightarrow> s)"

definition ensure_refused :: "el_stt \<Rightarrow> el_stt" where
  "ensure_refused s = s\<lparr>ek_buf := [], ek_uncommitted := False\<rparr>"

definition open_upstream :: "el_stt \<Rightarrow> el_stt" where
  "open_upstream s =
     (let u = length (ek_ups s); s1 = s\<lparr>ek_ups := ek_ups s @ [new_up], ek_conn := Some u\<rparr> in
      (spawn (QNew u) False s1)\<lparr>ek_life := Some (length (ek_tasks s))\<rparr>)"

definition ensure_upstream :: "time \<Rightarrow> stt_who \<Rightarrow> nat \<Rightarrow> stt_provider \<times> el_stt \<Rightarrow> stt_provider \<times> el_stt" where
  "ensure_upstream now who i ps =
     (let (p, s) = ps; tm = sp_terminal p in
      if ek_conn s \<noteq> None \<or> ek_closed s \<or> tm then (p, after_ensure tm now who i s)
      else if now < ek_cooldown s then (p, after_ensure tm now who i (s\<lparr>ek_buf := []\<rparr>))
      else if sp_sem p = 0 then
        (if ek_busy s then (p, after_ensure tm now who i (ensure_refused s))
         else (p\<lparr>sp_refusals := Suc (sp_refusals p)\<rparr>, suspend i (QSetBusy who) (stt_set_busy SemCause s)))
      else
        let p1 = p\<lparr>sp_sem := sp_sem p - 1\<rparr>; s1 = open_upstream s in
        if ek_cause s = SemCause \<and> ek_busy s then (p1, suspend i (QClearBusy who) (clear_busy s1))
        else (p1, after_ensure tm now who i s1))"

text \<open>PCM of the frames the gate lets through; \<open>f32le_to_s16le\<close> never fails (\<open>f32_conversion_exact\<close> in theory Audio).\<close>

definition pcm_of :: "bytes list \<Rightarrow> bytes" where
  "pcm_of chunks = concat (map (\<lambda>c. case f32le_to_s16le c of Some b \<Rightarrow> b | None \<Rightarrow> []) chunks)"

definition stt_feed :: "stt_cfg \<Rightarrow> bytes \<Rightarrow> el_stt \<Rightarrow> bytes list \<times> bool \<times> el_stt" where
  "stt_feed c frame s =
     (case (kc_gate c, ek_gate s) of
        (Some g, Some e) \<Rightarrow> (case egate_feed g frame e of ((chunks, ended), e1) \<Rightarrow> (chunks, ended, s\<lparr>ek_gate := Some e1\<rparr>))
      | _ \<Rightarrow> ([frame], False, s))"

definition stt_send_audio :: "stt_cfg \<Rightarrow> time \<Rightarrow> bytes \<Rightarrow> nat \<Rightarrow> stt_provider \<times> el_stt \<Rightarrow> stt_provider \<times> el_stt" where
  "stt_send_audio c now frame i ps =
     (let (p, s) = ps in
      if ek_closed s \<or> sp_terminal p then ps
      else
        let (chunks, ended, s1) = stt_feed c frame s; pcm = pcm_of chunks in
        if pcm = [] then (p, pump_exit (sp_terminal p) now (WAudio ended) i s1)
        else
          ensure_upstream now (WAudio ended) i
            (p, s1\<lparr>ek_buf := ek_buf s @ pcm, ek_fwd := ek_fwd s @ pcm, ek_uncommitted := True, ek_since := True,
                   ek_last_fwd := Some now\<rparr>))"

section \<open>The task of the connection\<close>

datatype stt_in = GoOk | GoTimeout | GoRefused ws_error | GoClosed | GoFail exn | GoCancel

definition release_permit :: "nat \<Rightarrow> stt_provider \<times> el_stt \<Rightarrow> stt_provider \<times> el_stt" where
  "release_permit u ps =
     (let (p, s) = ps in
      if u < length (ek_ups s) \<and> up_permit (upstream s u)
      then (p\<lparr>sp_sem := Suc (sp_sem p)\<rparr>, upd_up u (\<lambda>x. x\<lparr>up_permit := False\<rparr>) s)
      else ps)"

text \<open>The \<open>finally\<close> of \<open>_life_main\<close>: it closes the socket, then gives everything back.\<close>

definition life_end :: "nat \<Rightarrow> bool \<Rightarrow> stt_provider \<times> el_stt \<Rightarrow> stt_provider \<times> el_stt" where
  "life_end u respawn ps =
     (let (p, s) = ps;
          (p1, s1) = release_permit u (p, if ek_conn s = Some u then s\<lparr>ek_conn := None\<rparr> else s) in
      if respawn \<and> ek_buf s1 \<noteq> [] \<and> \<not> ek_closed s1 \<and> \<not> sp_terminal p1 then (p1, spawn QEnsure True s1) else (p1, s1))"

definition life_finally :: "nat \<Rightarrow> bool \<Rightarrow> nat \<Rightarrow> stt_provider \<times> el_stt \<Rightarrow> stt_provider \<times> el_stt" where
  "life_finally u respawn i ps =
     (let (p, s) = ps in
      if up_ws (upstream s u) then (p, suspend i (QFinal u respawn) s) else life_end u respawn ps)"

text \<open>A failed \<open>_connect_once\<close>, the first one or one of \<open>reconnect_with_backoff\<close>; \<open>tf\<close>: it raised \<open>_Terminal\<close>.\<close>

definition connect_failed ::
  "stt_cfg \<Rightarrow> time \<Rightarrow> nat \<Rightarrow> (time \<times> rat) option \<Rightarrow> bool \<Rightarrow> string \<Rightarrow> nat \<Rightarrow> stt_provider \<times> el_stt \<Rightarrow> stt_provider \<times> el_stt" where
  "connect_failed c now u re tf err i ps =
     (let (p, s) = ps in
      case re of
        None \<Rightarrow>
          if tf then life_finally u False i ps
          else life_finally u False i
                 (p, s\<lparr>ek_buf := [], ek_uncommitted := False, ek_cooldown := now + kc_initial c\<rparr>)
      | Some (start, b) \<Rightarrow>
          let h = mark_attempt_failed (if tf then ''_Terminal'' else err) (ek_health s) in
          if kc_max_duration c \<le> now - start
          then life_finally u False i (p, s\<lparr>ek_health := set_state DEGRADED h\<rparr>)
          else (p, suspend i (QBackoff u start b (now + b)) (s\<lparr>ek_health := h\<rparr>)))"

definition connected_up :: "time \<Rightarrow> nat \<Rightarrow> (time \<times> rat) option \<Rightarrow> nat \<Rightarrow> stt_provider \<times> el_stt \<Rightarrow> stt_provider \<times> el_stt" where
  "connected_up now u re i ps =
     (let (p, s) = ps in
      (p, pump (sp_terminal p) now (WLife u) i
            (if re = None then s else s\<lparr>ek_health := mark_connected now (ek_health s)\<rparr>)))"

definition socket_open :: "el_up \<Rightarrow> el_up" where
  "socket_open x = x\<lparr>up_ws := True, up_epoch := Suc (up_epoch x), up_ready := False, up_final := False, up_closing := False,
     up_reader := UpReading\<rparr>"

definition started_up :: "time \<Rightarrow> nat \<Rightarrow> (time \<times> rat) option \<Rightarrow> nat \<Rightarrow> stt_provider \<times> el_stt \<Rightarrow> stt_provider \<times> el_stt" where
  "started_up now u re i ps =
     (let (p, s) = ps in
      if \<not> up_ready (upstream s u) then (p, suspend i (QNotReady u re) (upd_up u cancel_reader s))
      else
        let p1 = stt_record_success now (p\<lparr>sp_opens := Suc (sp_opens p)\<rparr>);
            s1 = (if sp_terminal p then s else s\<lparr>ek_health := mark_connected now (ek_health s)\<rparr>) in
        if ek_cause s1 = ErrorCause \<and> ek_busy s1 then (p1, suspend i (QConnBusy u re) (clear_busy s1))
        else connected_up now u re i (p1, s1))"

text \<open>The loop of \<open>_life_main\<close> once the reader has ended and the socket is closed.\<close>

definition reader_ended :: "stt_cfg \<Rightarrow> time \<Rightarrow> nat \<Rightarrow> nat \<Rightarrow> stt_provider \<times> el_stt \<Rightarrow> stt_provider \<times> el_stt" where
  "reader_ended c now u i ps =
     (let (p, s) = ps; x = upstream s u in
      if ek_closed s \<or> sp_terminal p then life_finally u False i ps
      else if up_closing x then life_finally u (up_outcome x = UpKind KOther) i ps
      else if up_outcome x \<noteq> UpKind KOther then life_finally u False i ps
      else if \<not> (ek_uncommitted s \<or> ek_buf s \<noteq> []) then life_finally u False i ps
      else (p, suspend i (QConnect u (Some (now, kc_initial c))) (s\<lparr>ek_health := set_state RECONNECTING (ek_health s)\<rparr>)))"

text \<open>A send raised something else than a closed connection, or its task was cancelled.\<close>

definition send_fails :: "stt_who \<Rightarrow> nat \<Rightarrow> stt_provider \<times> el_stt \<Rightarrow> stt_provider \<times> el_stt" where
  "send_fails who i ps = (case who of WLife u \<Rightarrow> life_finally u False i ps | _ \<Rightarrow> ps)"

section \<open>Closing\<close>

definition close_final :: "el_stt \<Rightarrow> el_stt" where
  "close_final s =
     (let js = filter (\<lambda>j. tk_spawned (ek_tasks s ! j)) [0..<length (ek_tasks s)]
                 @ (case ek_life s of None \<Rightarrow> [] | Some j \<Rightarrow> [j]) in
      fold cancel_task js (s\<lparr>ek_closed_evt := True, ek_registered := False\<rparr>))"

definition close_wait :: "time \<Rightarrow> nat \<Rightarrow> el_stt \<Rightarrow> el_stt" where
  "close_wait now i s =
     (if task_done (ek_life s) s then close_final s else suspend i (QCloseWait (now + 3 / 2)) s)"

definition drain_ret :: "drain_who \<Rightarrow> time \<Rightarrow> nat \<Rightarrow> el_stt \<Rightarrow> el_stt" where
  "drain_ret who now i s = (case who of DIdle \<Rightarrow> s | DClose \<Rightarrow> close_wait now i s)"

definition drain_abort :: "drain_who \<Rightarrow> el_stt \<Rightarrow> el_stt" where
  "drain_abort who s = (case who of DIdle \<Rightarrow> s | DClose \<Rightarrow> close_final s)"

definition drain_close :: "nat \<Rightarrow> drain_who \<Rightarrow> time \<Rightarrow> nat \<Rightarrow> el_stt \<Rightarrow> el_stt" where
  "drain_close u who now i s =
     (let s1 = upd_up u (\<lambda>x. x\<lparr>up_closing := True\<rparr>) s in
      if up_ws (upstream s u) then suspend i (QDrainWs u who) s1 else drain_ret who now i s1)"

text \<open>\<open>_drain\<close>: within the lock, the buffer, then the commit, then the wait for its transcript.\<close>

definition drain_loop :: "nat \<Rightarrow> drain_who \<Rightarrow> time \<Rightarrow> nat \<Rightarrow> el_stt \<Rightarrow> el_stt" where
  "drain_loop u who now i s =
     (if MIN_CHUNK_BYTES \<le> length (ek_buf s) then suspend i (QDrainChunk u who (chunk_of s)) s
      else if ek_uncommitted s \<or> ek_buf s \<noteq> [] then suspend i (QDrainCommit u who (ek_buf s)) (begin_commit u s)
      else drain_close u who now i s)"

definition drain_locked :: "nat \<Rightarrow> drain_who \<Rightarrow> time \<Rightarrow> nat \<Rightarrow> el_stt \<Rightarrow> el_stt" where
  "drain_locked u who now i s =
     (if up_closing (upstream s u) \<or> \<not> up_ws (upstream s u) then drain_close u who now i s
      else drain_loop u who now i s)"

definition drain_ready :: "nat \<Rightarrow> drain_who \<Rightarrow> time \<Rightarrow> nat \<Rightarrow> el_stt \<Rightarrow> el_stt" where
  "drain_ready u who now i s =
     (if up_closing (upstream s u) then drain_close u who now i s
      else if locked s then suspend i (QDrainLock u who) s
      else drain_locked u who now i s)"

definition drain_begin :: "nat \<Rightarrow> drain_who \<Rightarrow> time \<Rightarrow> nat \<Rightarrow> el_stt \<Rightarrow> el_stt" where
  "drain_begin u who now i s =
     (let x = upstream s u in
      if ek_conn s \<noteq> Some u then drain_ret who now i s
      else if (ek_uncommitted s \<or> ek_buf s \<noteq> []) \<and> \<not> up_closing x then
        (if up_ready x then drain_ready u who now i s
         else suspend i (QDrainReady u who (now + DRAIN_S) (up_epoch x) False) s)
      else drain_close u who now i s)"

definition drain_final :: "nat \<Rightarrow> drain_who \<Rightarrow> time \<Rightarrow> nat \<Rightarrow> el_stt \<Rightarrow> el_stt" where
  "drain_final u who now i s =
     (if up_final (upstream s u) then drain_close u who now i s
      else suspend i (QDrainFinal u who (now + DRAIN_S) (up_epoch (upstream s u)) False) s)"

definition el_stt_close :: "time \<Rightarrow> nat \<Rightarrow> el_stt \<Rightarrow> el_stt" where
  "el_stt_close now i s =
     (if ek_closed s then s
      else
        let s1 = s\<lparr>ek_closed := True\<rparr> in
        case ek_conn s of
          Some u \<Rightarrow>
            if task_done (ek_life s) s then close_final s1
            else drain_begin u DClose now i (upd_up u (\<lambda>x. x\<lparr>up_draining := True\<rparr>) s1)
        | None \<Rightarrow> close_final s1)"

section \<open>One resumption of a task\<close>

definition task_over :: "nat \<Rightarrow> el_stt \<Rightarrow> el_stt" where
  "task_over i s = (if tk_pc (ek_tasks s ! i) = QRun then suspend i QDone s else s)"

definition task_body ::
  "stt_cfg \<Rightarrow> time \<Rightarrow> stt_in \<Rightarrow> nat \<Rightarrow> stt_pc \<Rightarrow> stt_provider \<times> el_stt \<Rightarrow> stt_provider \<times> el_stt" where
  "task_body c now r i pc ps =
     (let (p, s) = ps; tm = sp_terminal p in
      case pc of
        QEnsure \<Rightarrow> if r = GoCancel then ps else ensure_upstream now WRespawn i ps
      | QSetBusy who \<Rightarrow> if r = GoCancel then ps else (p, after_ensure tm now who i (ensure_refused s))
      | QClearBusy who \<Rightarrow> if r = GoCancel then ps else (p, after_ensure tm now who i s)
      | QPump who \<Rightarrow> if r = GoCancel then send_fails who i ps else (p, pump_enter (pump_exit tm now who i) now who i s)
      | QChunk who u x \<Rightarrow>
          (case r of
             GoOk \<Rightarrow> (sent_bytes x p, pump_loop (pump_exit tm now who i) now who u i (chunk_sent u x s))
           | GoClosed \<Rightarrow> (p, pump_exit tm now who i s)
           | _ \<Rightarrow> send_fails who i ps)
      | QCommit who u x \<Rightarrow>
          (case r of
             GoOk \<Rightarrow> (sent_bytes x p, pump_exit tm now who i (commit_done now u x s))
           | GoClosed \<Rightarrow> (p, pump_exit tm now who i s)
           | _ \<Rightarrow> send_fails who i ps)
      | QTimer t \<Rightarrow> if r = GoCancel then ps else (p, pump tm now WTimer i s)
      | QNew u \<Rightarrow> if r = GoCancel then release_permit u ps else (p, suspend i (QConnect u None) s)
      | QConnect u re \<Rightarrow>
          (case r of
             GoOk \<Rightarrow> (p, suspend i (QStarted u re (now + SESSION_STARTED_TIMEOUT_S)) (upd_up u socket_open s))
           | GoRefused e \<Rightarrow>
               let k = classify_exception e in
               connect_failed c now u re (k = KAuth \<or> k = KQuota) (ws_error_name e) i (stt_connect_error k p, s)
           | _ \<Rightarrow> life_finally u False i ps)
      | QStarted u re t \<Rightarrow> if r = GoCancel then life_finally u False i ps else started_up now u re i ps
      | QNotReady u re \<Rightarrow>
          if r = GoCancel then life_finally u False i ps
          else connect_failed c now u re tm ''ConnectionError'' i ps
      | QConnBusy u re \<Rightarrow> if r = GoCancel then life_finally u False i ps else connected_up now u re i ps
      | QReader u \<Rightarrow>
          if r = GoCancel then life_finally u False i ps
          else (p, suspend i (QClosing u) (upd_up u (\<lambda>x. x\<lparr>up_ready := False\<rparr>) s))
      | QClosing u \<Rightarrow> if r = GoCancel then life_finally u False i ps else reader_ended c now u i ps
      | QBackoff u start b t \<Rightarrow>
          if r = GoCancel then life_finally u False i ps
          else (p, suspend i (QConnect u (Some (start, min (b * 2) (kc_max_backoff c)))) s)
      | QFinal u respawn \<Rightarrow> if r = GoCancel then release_permit u ps else life_end u respawn ps
      | QDrainNew u \<Rightarrow> if r = GoCancel then ps else (p, drain_begin u DIdle now i s)
      | QDrainReady u who t e b \<Rightarrow>
          (case r of
             GoOk \<Rightarrow> (p, drain_ready u who now i s)
           | GoCancel \<Rightarrow> (p, drain_abort who s)
           | _ \<Rightarrow> (p, drain_close u who now i s))
      | QDrainLock u who \<Rightarrow> (p, if r = GoCancel then drain_abort who s else drain_locked u who now i s)
      | QDrainChunk u who x \<Rightarrow>
          (case r of
             GoOk \<Rightarrow> (sent_bytes x p, drain_loop u who now i (chunk_sent u x s))
           | GoCancel \<Rightarrow> (p, drain_abort who s)
           | _ \<Rightarrow> (p, drain_close u who now i s))
      | QDrainCommit u who x \<Rightarrow>
          (case r of
             GoOk \<Rightarrow> (sent_bytes x p, drain_final u who now i (commit_done now u x s))
           | GoCancel \<Rightarrow> (p, drain_abort who s)
           | _ \<Rightarrow> (p, drain_close u who now i s))
      | QDrainFinal u who t e b \<Rightarrow> (p, if r = GoCancel then drain_abort who s else drain_close u who now i s)
      | QDrainWs u who \<Rightarrow> (p, if r = GoCancel then drain_abort who s else drain_ret who now i s)
      | QCloseWait t \<Rightarrow>
          (case r of
             GoOk \<Rightarrow> (p, close_final s)
           | GoCancel \<Rightarrow> (p, suspend i pc s)
           | _ \<Rightarrow> (p, suspend i (QCloseCancel (now + 1 / 2)) (case ek_life s of None \<Rightarrow> s | Some j \<Rightarrow> cancel_task j s)))
      | QCloseCancel t \<Rightarrow> if r = GoCancel then (p, suspend i pc s) else (p, close_final s)
      | _ \<Rightarrow> ps)"

definition task_step :: "stt_cfg \<Rightarrow> time \<Rightarrow> stt_in \<Rightarrow> nat \<Rightarrow> stt_provider \<times> el_stt \<Rightarrow> stt_provider \<times> el_stt" where
  "task_step c now r i ps =
     (let (p, s) = ps;
          (p1, s1) = task_body c now r i (tk_pc (ek_tasks s ! i))
                       (p, upd_task i (\<lambda>t. t\<lparr>tk_pc := QRun, tk_cancel := False\<rparr>) s) in
      (p1, task_over i s1))"

text \<open>A new caller of an operation.\<close>

definition call_step ::
  "(nat \<Rightarrow> stt_provider \<times> el_stt \<Rightarrow> stt_provider \<times> el_stt) \<Rightarrow> stt_provider \<times> el_stt \<Rightarrow> stt_provider \<times> el_stt" where
  "call_step f ps =
     (let (p, s) = ps; i = length (ek_tasks s); (p1, s1) = f i (p, spawn QRun False s) in (p1, task_over i s1))"

text \<open>
  When a task can resume, and with what: a cancelled one with the cancellation, a waiting one when the lock is free, the
  event was set, the time is over or the task it waits for has ended.
\<close>

definition send_in :: "stt_in \<Rightarrow> bool" where
  "send_in r = (case r of GoOk \<Rightarrow> True | GoClosed \<Rightarrow> True | GoFail e \<Rightarrow> True | _ \<Rightarrow> False)"

definition connect_in :: "stt_in \<Rightarrow> bool" where
  "connect_in r = (case r of GoOk \<Rightarrow> True | GoRefused e \<Rightarrow> True | _ \<Rightarrow> False)"

definition resumes :: "time \<Rightarrow> stt_in \<Rightarrow> el_stt \<Rightarrow> stt_pc \<Rightarrow> bool" where
  "resumes now r s pc =
     (case pc of
        QDone \<Rightarrow> False
      | QRun \<Rightarrow> False
      | QPump who \<Rightarrow> r = GoOk \<and> \<not> locked s
      | QDrainLock u who \<Rightarrow> r = GoOk \<and> \<not> locked s
      | QChunk who u x \<Rightarrow> send_in r
      | QCommit who u x \<Rightarrow> send_in r
      | QDrainChunk u who x \<Rightarrow> send_in r
      | QDrainCommit u who x \<Rightarrow> send_in r
      | QTimer t \<Rightarrow> r = GoOk \<and> t \<le> now
      | QConnect u re \<Rightarrow> connect_in r
      | QStarted u re t \<Rightarrow>
          r = GoOk \<and> (up_ready (upstream s u) \<or> \<not> reader_active (upstream s u)) \<or> r = GoTimeout \<and> t \<le> now
      | QReader u \<Rightarrow> r = GoOk \<and> \<not> reader_active (upstream s u)
      | QBackoff u start b t \<Rightarrow> r = GoOk \<and> t \<le> now
      | QDrainReady u who t e b \<Rightarrow> r = GoOk \<and> b \<or> r = GoTimeout \<and> t \<le> now
      | QDrainFinal u who t e b \<Rightarrow> r = GoOk \<and> b \<or> r = GoTimeout \<and> t \<le> now
      | QCloseWait t \<Rightarrow> r = GoOk \<and> task_done (ek_life s) s \<or> r = GoTimeout \<and> t \<le> now
      | QCloseCancel t \<Rightarrow> r = GoOk \<and> task_done (ek_life s) s \<or> r = GoTimeout \<and> t \<le> now
      | _ \<Rightarrow> r = GoOk)"

definition task_enabled :: "time \<Rightarrow> stt_in \<Rightarrow> nat \<Rightarrow> el_stt \<Rightarrow> bool" where
  "task_enabled now r i s =
     (i < length (ek_tasks s)
      \<and> (let t = ek_tasks s ! i in
         if tk_cancel t then r = GoCancel \<and> tk_pc t \<noteq> QDone else r \<noteq> GoCancel \<and> resumes now r s (tk_pc t)))"

section \<open>The reader\<close>

definition set_reader :: "nat \<Rightarrow> up_reader \<Rightarrow> el_stt \<Rightarrow> el_stt" where
  "set_reader u r s = upd_up u (\<lambda>x. x\<lparr>up_reader := r\<rparr>) s"

definition reader_fails :: "nat \<Rightarrow> el_stt \<Rightarrow> el_stt" where
  "reader_fails u s = upd_up u (\<lambda>x. x\<lparr>up_outcome := UpKind KOther, up_reader := UpOver\<rparr>) s"

definition on_capacity :: "stt_cfg \<Rightarrow> time \<Rightarrow> nat \<Rightarrow> stt_provider \<times> el_stt \<Rightarrow> stt_provider \<times> el_stt" where
  "on_capacity c now u ps =
     (let (p, s) = ps; s1 = s\<lparr>ek_cooldown := now + kc_initial c\<rparr> in
      (p\<lparr>sp_429 := Suc (sp_429 p)\<rparr>,
       set_reader u (if ek_busy s then UpOver else UpCapacity) (stt_set_busy ErrorCause s1)))"

definition reader_stops :: "nat \<Rightarrow> up_outcome \<Rightarrow> el_stt \<Rightarrow> el_stt" where
  "reader_stops u out s = upd_up u (\<lambda>x. x\<lparr>up_outcome := out, up_closing := True, up_reader := UpOver\<rparr>) s"

text \<open>What a committed transcript says of the audio before it.\<close>

definition note_committed :: "time \<Rightarrow> nat \<Rightarrow> el_stt \<Rightarrow> el_stt" where
  "note_committed now u s =
     (if up_commit_sent (upstream s u) then
        (let s1 = upd_up u (\<lambda>x. x\<lparr>up_commit_sent := False\<rparr>) s in
         if ek_since s then s1 else s1\<lparr>ek_uncommitted := False\<rparr>)
      else if 3 / 10 < now - (case ek_last_fwd s of None \<Rightarrow> 0 | Some t \<Rightarrow> t) then s\<lparr>ek_uncommitted := False\<rparr>
      else s)"

definition transcribed :: "time \<Rightarrow> nat \<Rightarrow> string \<Rightarrow> bool \<Rightarrow> el_stt \<Rightarrow> el_stt" where
  "transcribed now u x final s =
     set_reader u (UpCallback final) (stt_call (OnTranscription x final) (s\<lparr>ek_last_transcript := Some now\<rparr>))"

definition on_message :: "stt_cfg \<Rightarrow> time \<Rightarrow> nat \<Rightarrow> dict \<Rightarrow> stt_provider \<times> el_stt \<Rightarrow> stt_provider \<times> el_stt" where
  "on_message c now u d ps =
     (let (p, s) = ps; mt = dget d ''message_type''; x = (case dget d ''text'' of JStr y \<Rightarrow> y | _ \<Rightarrow> []) in
      if mt = JStr ''session_started'' then (p, ready_set u s)
      else if mt = JStr ''partial_transcript'' then (p, if x = [] then s else transcribed now u x False s)
      else if mt = JStr ''committed_transcript'' then
        (p, let s1 = note_committed now u s in if x = [] then final_set u s1 else transcribed now u x True s1)
      else if mt = JStr ''warning'' then ps
      else if unhashable mt then (p, reader_fails u s)
      else if msg_in IGNORED_ERRORS mt then ps
      else if msg_in AUTH_ERRORS mt then (stt_mark_terminal KAuth p, reader_stops u (UpKind KAuth) s)
      else if msg_in TERMINAL_QUOTA mt then (stt_mark_terminal KQuota p, reader_stops u (UpKind KQuota) s)
      else if msg_in CAPACITY_ERRORS mt then on_capacity c now u (p, reader_stops u (UpKind KCapacity) s)
      else if msg_in OTHER_ERRORS mt then (p, reader_stops u UpError s)
      else ps)"

text \<open>The socket is closed.\<close>

definition read_ends :: "stt_cfg \<Rightarrow> time \<Rightarrow> nat \<Rightarrow> nat option \<Rightarrow> string option \<Rightarrow> stt_provider \<times> el_stt \<Rightarrow> stt_provider \<times> el_stt" where
  "read_ends c now u code reason ps =
     (let (p, s) = ps; k = classify_close code reason;
          s1 = upd_up u (\<lambda>x. x\<lparr>up_outcome := UpKind k, up_reader := UpOver\<rparr>) s in
      if up_closing (upstream s u) then (p, set_reader u UpOver s)
      else if k = KAuth \<or> k = KQuota then (stt_mark_terminal k p, s1)
      else if k = KCapacity then on_capacity c now u (p, s1)
      else (p, s1))"

text \<open>The callback the reader awaits returned, or raised.\<close>

definition callback_ends :: "nat \<Rightarrow> exn option \<Rightarrow> el_stt \<Rightarrow> el_stt" where
  "callback_ends u e s =
     (case up_reader (upstream s u) of
        UpCallback final \<Rightarrow>
          if e = None then (let s1 = set_reader u UpReading s in if final then final_set u s1 else s1)
          else reader_fails u s
      | UpCapacity \<Rightarrow> set_reader u UpOver s
      | _ \<Rightarrow> s)"

section \<open>The idle loop\<close>

definition idle_next :: "el_stt \<Rightarrow> el_stt" where
  "idle_next s = s\<lparr>ek_idle := (if ek_closed s then IdleOver else IdleSleep)\<rparr>"

definition idle_drain :: "el_stt \<Rightarrow> el_stt" where
  "idle_drain s =
     (case ek_conn s of
        None \<Rightarrow> s
      | Some u \<Rightarrow>
          let x = upstream s u in
          if up_closing x \<or> up_draining x \<or> \<not> up_ready x then s
          else spawn (QDrainNew u) True (upd_up u (\<lambda>x. x\<lparr>up_draining := True\<rparr>) s))"

definition idle_step :: "time \<Rightarrow> el_stt \<Rightarrow> el_stt" where
  "idle_step now s =
     (case ek_idle s of
        IdleSleep \<Rightarrow>
          (case ek_last_fwd s of
             None \<Rightarrow> idle_next s
           | Some t \<Rightarrow>
               if now - t < IDLE_CLOSE_S then idle_next s
               else if ek_busy s then (clear_busy s)\<lparr>ek_idle := IdleClear\<rparr>
               else idle_next (idle_drain s))
      | IdleClear \<Rightarrow> idle_next (idle_drain s)
      | _ \<Rightarrow> s)"

section \<open>The provider and its sessions\<close>

definition provider_degraded :: "el_stt \<Rightarrow> el_stt" where
  "provider_degraded s =
     (let s1 = s\<lparr>ek_buf := [], ek_uncommitted := False, ek_want := False, ek_health := set_state DEGRADED (ek_health s)\<rparr> in
      case ek_life s of None \<Rightarrow> s1 | Some j \<Rightarrow> cancel_task j s1)"

text \<open>The end of a step in which \<open>_mark_terminal\<close> ran, known by its counter: every registered session is told.\<close>

definition settle :: "stt_provider \<Rightarrow> stt_provider \<Rightarrow> el_stt list \<Rightarrow> stt_provider \<times> el_stt list" where
  "settle p p1 ss =
     (p1, if sp_auth_errors p1 = sp_auth_errors p then ss
          else map (\<lambda>s. if ek_registered s then provider_degraded s else s) ss)"

datatype stt_act =
    SAudio time bytes
  | SEnd time
  | SClose time
  | STask time nat stt_in
  | SCancel nat
  | SMessage time nat dict
  | SReadEnds time nat "nat option" "string option"
  | SReadFails nat
  | SCallback nat "exn option"
  | SIdleStart
  | SIdle time
  | SIdleStop

text \<open>\<open>SCancel\<close>: the bridge cancels a caller. The idle loop starts with \<open>run\<close>, which cancels it once \<open>close\<close> is over.\<close>

definition stt_act_step :: "stt_cfg \<Rightarrow> stt_act \<Rightarrow> stt_provider \<times> el_stt \<Rightarrow> stt_provider \<times> el_stt" where
  "stt_act_step c a ps =
     (let (p, s) = ps in
      case a of
        SAudio now frame \<Rightarrow> call_step (\<lambda>i. stt_send_audio c now frame i) ps
      | SEnd now \<Rightarrow> call_step (\<lambda>i (p, s). (p, stt_send_end (sp_terminal p) now i s)) ps
      | SClose now \<Rightarrow> call_step (\<lambda>i (p, s). (p, el_stt_close now i s)) ps
      | STask now i r \<Rightarrow> if task_enabled now r i s then task_step c now r i ps else ps
      | SCancel i \<Rightarrow>
          if i < length (ek_tasks s) \<and> ek_life s \<noteq> Some i \<and> \<not> tk_spawned (ek_tasks s ! i) then (p, cancel_task i s) else ps
      | SMessage now u d \<Rightarrow>
          if u < length (ek_ups s) \<and> up_reader (upstream s u) = UpReading then on_message c now u d ps else ps
      | SReadEnds now u code reason \<Rightarrow>
          if u < length (ek_ups s) \<and> up_reader (upstream s u) = UpReading then read_ends c now u code reason ps else ps
      | SReadFails u \<Rightarrow>
          if u < length (ek_ups s) \<and> up_reader (upstream s u) = UpReading then (p, reader_fails u s) else ps
      | SCallback u e \<Rightarrow> if u < length (ek_ups s) then (p, callback_ends u e s) else ps
      | SIdleStart \<Rightarrow> if ek_idle s = IdleOff then (p, idle_next s) else ps
      | SIdle now \<Rightarrow> (p, idle_step now s)
      | SIdleStop \<Rightarrow> if ek_closed_evt s then (p, s\<lparr>ek_idle := IdleOver\<rparr>) else ps)"

datatype stt_world_act =
    POpen
  | PSession nat stt_act
  | PProbe time stt_probe
  | PClose

type_synonym stt_world = "stt_provider \<times> el_stt list"

definition stt_world_step :: "stt_cfg \<Rightarrow> stt_world_act \<Rightarrow> stt_world \<Rightarrow> stt_world" where
  "stt_world_step c a w =
     (let (p, ss) = w in
      case a of
        POpen \<Rightarrow> (p, ss @ [new_el_stt c p])
      | PSession i b \<Rightarrow>
          if i < length ss then (let (p1, s1) = stt_act_step c b (p, ss ! i) in settle p p1 (ss[i := s1])) else w
      | PProbe now r \<Rightarrow> settle p (snd (stt_probe_once now r p)) ss
      | PClose \<Rightarrow> (p\<lparr>sp_probe := probe_aclose (sp_probe p)\<rparr>, ss))"

definition el_stt_run :: "stt_cfg \<Rightarrow> stt_world_act list \<Rightarrow> stt_world" where
  "el_stt_run c acts = fold (stt_world_step c) acts (new_stt_provider, [])"

end
