(* ===== verification/Eleven_STT_Permits.thy ===== *)
theory Eleven_STT_Permits
  imports Eleven_STT
begin

text \<open>
  The permits of the ElevenLabs speech-to-text provider (theory Eleven\_STT): every step keeps the sum of the free ones
  and those the connections of the sessions hold (\<open>permit_step\<close>), so every run does (\<open>world_permits_run\<close>).
\<close>

section \<open>Permits\<close>

text \<open>The permits of a session and its connection, all that the accounting depends on.\<close>

definition permits :: "el_stt \<Rightarrow> bool list \<times> nat option" where
  "permits s = (map up_permit (ek_ups s), ek_conn s)"

definition held :: "el_stt \<Rightarrow> nat" where
  "held s = length (filter id (map up_permit (ek_ups s)))"

definition permit_ok :: "el_stt \<Rightarrow> bool" where
  "permit_ok s \<longleftrightarrow> (\<forall>u<length (ek_ups s). up_permit (upstream s u) \<longrightarrow> ek_conn s = Some u)"

lemma held_permits: "permits s = permits s' \<Longrightarrow> held s = held s'"
  by (simp add: permits_def held_def)

lemma permit_ok_permits: "permits s = permits s' \<Longrightarrow> permit_ok s' \<Longrightarrow> permit_ok s"
  unfolding permits_def permit_ok_def by (metis length_map nth_map prod.inject)

lemma map_upd_same: "(\<And>x. h (f x) = h x) \<Longrightarrow> map h (xs[i := f (xs ! i)]) = map h xs"
proof (rule nth_equalityI)
  fix j assume h: "\<And>x. h (f x) = h x" and j: "j < length (map h (xs[i := f (xs ! i)]))"
  show "map h (xs[i := f (xs ! i)]) ! j = map h xs ! j" using j by (cases "i = j") (simp_all add: h)
qed simp

lemma permits_upd_up [simp]: "(\<And>x. up_permit (f x) = up_permit x) \<Longrightarrow> permits (upd_up u f s) = permits s"
  by (simp add: permits_def upd_up_def map_upd_same del: map_update)

lemma permits_basic [simp]:
  "permits (upd_task i g s) = permits s" "permits (suspend i pc s) = permits s" "permits (spawn pc b s) = permits s"
  "permits (stt_call c s) = permits s" "permits (stt_set_busy k s) = permits s" "permits (clear_busy s) = permits s"
  "permits (ready_set u s) = permits s" "permits (final_set u s) = permits s" "permits (trim_buffer s) = permits s"
  by (simp_all add: upd_task_def suspend_def spawn_def stt_call_def stt_set_busy_def clear_busy_def ready_set_def final_set_def
      trim_buffer_def Let_def) (simp_all add: permits_def upd_task_def stt_call_def)

lemma permits_fields [simp]:
  "permits (s\<lparr>ek_buf := b\<rparr>) = permits s" "permits (s\<lparr>ek_uncommitted := c\<rparr>) = permits s"
  "permits (s\<lparr>ek_want := c\<rparr>) = permits s" "permits (s\<lparr>ek_since := c\<rparr>) = permits s" "permits (s\<lparr>ek_timer := t\<rparr>) = permits s"
  "permits (s\<lparr>ek_health := h\<rparr>) = permits s" "permits (s\<lparr>ek_sent := l\<rparr>) = permits s" "permits (s\<lparr>ek_fwd := b\<rparr>) = permits s"
  "permits (s\<lparr>ek_last_commit := t1\<rparr>) = permits s" "permits (s\<lparr>ek_cooldown := n\<rparr>) = permits s"
  "permits (s\<lparr>ek_closed := c\<rparr>) = permits s" "permits (s\<lparr>ek_closed_evt := c\<rparr>) = permits s"
  "permits (s\<lparr>ek_registered := c\<rparr>) = permits s" "permits (s\<lparr>ek_last_fwd := t1\<rparr>) = permits s"
  "permits (s\<lparr>ek_last_transcript := t1\<rparr>) = permits s" "permits (s\<lparr>ek_idle := i\<rparr>) = permits s"
  "permits (s\<lparr>ek_gate := g\<rparr>) = permits s"
  by (simp_all add: permits_def)

lemma cancel_reader_permit [simp]: "up_permit (cancel_reader x) = up_permit x"
  by (simp add: cancel_reader_def)

lemma permits_cancel_task [simp]: "permits (cancel_task i s) = permits s"
  by (simp add: cancel_task_def Let_def split: stt_pc.splits)

lemma permits_send [simp]:
  "permits (schedule_commit t s) = permits s" "permits (begin_commit u s) = permits s"
  "permits (chunk_sent u c s) = permits s" "permits (commit_done now u c s) = permits s"
  "permits (plain_exit who i s) = permits s" "permits (ensure_refused s) = permits s"
  by (simp_all add: schedule_commit_def begin_commit_def chunk_sent_def commit_done_def plain_exit_def ensure_refused_def
      split: stt_who.splits)

lemma permits_pump_loop:
  "(\<And>s. permits (ex s) = permits s) \<Longrightarrow> permits (pump_loop ex now who u i s) = permits s"
  by (simp add: pump_loop_def Let_def)

lemma permits_pump_enter:
  "(\<And>s. permits (ex s) = permits s) \<Longrightarrow> permits (pump_enter ex now who i s) = permits s"
  by (simp add: pump_enter_def Let_def permits_pump_loop split: option.splits)

lemma permits_pump_start:
  "(\<And>s. permits (ex s) = permits s) \<Longrightarrow> permits (pump_start ex now who i s) = permits s"
  by (simp add: pump_start_def permits_pump_enter)

lemma permits_send_end [simp]: "permits (stt_send_end tm now i s) = permits s"
  by (simp add: stt_send_end_def permits_pump_start)

lemma permits_pump_exit [simp]: "permits (pump_exit tm now who i s) = permits s"
  by (simp add: pump_exit_def split: stt_who.splits)

lemma permits_pumps [simp]:
  "permits (pump tm now who i s) = permits s"
  "permits (pump_loop (pump_exit tm now who i) now who u i s) = permits s"
  "permits (pump_enter (pump_exit tm now who i) now who i s) = permits s"
  "permits (after_ensure tm now who i s) = permits s"
  by (simp_all add: pump_def permits_pump_start permits_pump_loop permits_pump_enter after_ensure_def
      split: stt_who.splits option.splits)

lemma permits_fold_cancel [simp]: "permits (fold cancel_task js s) = permits s"
  by (induction js arbitrary: s) simp_all

lemma permits_close [simp]:
  "permits (close_final s) = permits s" "permits (close_wait now i s) = permits s"
  by (simp_all add: close_final_def close_wait_def Let_def)

lemma permits_drain [simp]:
  "permits (drain_ret w now i s) = permits s" "permits (drain_abort w s) = permits s"
  "permits (drain_close u w now i s) = permits s"
  by (simp_all add: drain_ret_def drain_abort_def drain_close_def Let_def split: drain_who.splits)

lemma permits_drain2 [simp]:
  "permits (drain_loop u w now i s) = permits s" "permits (drain_final u w now i s) = permits s"
  by (simp_all add: drain_loop_def drain_final_def)

lemma permits_drain3 [simp]: "permits (drain_locked u w now i s) = permits s"
  by (simp add: drain_locked_def)

lemma permits_drain4 [simp]: "permits (drain_ready u w now i s) = permits s"
  by (simp add: drain_ready_def)

lemma permits_drain5 [simp]: "permits (drain_begin u w now i s) = permits s" "permits (el_stt_close now i s) = permits s"
  by (simp_all add: drain_begin_def el_stt_close_def Let_def split: option.splits)

lemma permits_reader [simp]:
  "permits (set_reader u r s) = permits s" "permits (reader_fails u s) = permits s"
  "permits (reader_stops u out s) = permits s" "permits (note_committed now u s) = permits s"
  "permits (transcribed now u x b s) = permits s" "permits (callback_ends u e s) = permits s"
  by (simp_all add: set_reader_def reader_fails_def reader_stops_def note_committed_def transcribed_def callback_ends_def
      Let_def split: up_reader.splits)

lemma permits_idle [simp]:
  "permits (idle_next s) = permits s" "permits (idle_drain s) = permits s" "permits (idle_step now s) = permits s"
  "permits (task_over i s) = permits s" "permits (provider_degraded s) = permits s"
  by (simp_all add: idle_next_def idle_drain_def idle_step_def task_over_def provider_degraded_def Let_def
      split: option.splits idle_pc.splits)

text \<open>A step keeps the sum of the free permits and the held ones, and a held one belongs to the connection.\<close>

definition permit_step :: "stt_provider \<times> el_stt \<Rightarrow> stt_provider \<times> el_stt \<Rightarrow> bool" where
  "permit_step ps ps' \<longleftrightarrow>
     (permit_ok (snd ps) \<longrightarrow>
        sp_sem (fst ps') + held (snd ps') = sp_sem (fst ps) + held (snd ps) \<and> permit_ok (snd ps'))"

lemma permit_stepI: "permits s' = permits s \<Longrightarrow> sp_sem p' = sp_sem p \<Longrightarrow> permit_step (p, s) (p', s')"
  unfolding permit_step_def fst_conv snd_conv by (metis held_permits permit_ok_permits)

lemma permit_step_trans: "permit_step a b \<Longrightarrow> permit_step b c \<Longrightarrow> permit_step a c"
  by (auto simp: permit_step_def)

lemma sp_sem_simps [simp]:
  "sp_sem (stt_mark_terminal k p) = sp_sem p" "sp_sem (stt_connect_error k p) = sp_sem p"
  "sp_sem (stt_record_success now p) = sp_sem p" "sp_sem (sent_bytes c p) = sp_sem p"
  "sp_sem (snd (stt_probe_failed k err p)) = sp_sem p" "sp_sem (snd (stt_probe_once now r p)) = sp_sem p"
  by (auto simp: stt_mark_terminal_def stt_connect_error_def stt_record_success_def sent_bytes_def stt_probe_failed_def
      stt_probe_once_def Let_def split: stt_probe.splits)

lemma held_release:
  assumes "u < length (ek_ups s)" "up_permit (upstream s u)"
  shows "Suc (held (upd_up u (\<lambda>x. x\<lparr>up_permit := False\<rparr>) s)) = held s"
proof -
  let ?bs = "map up_permit (ek_ups s)"
  have l: "u < length ?bs" "?bs ! u" using assms by simp_all
  have "map up_permit (ek_ups (upd_up u (\<lambda>x. x\<lparr>up_permit := False\<rparr>) s)) = ?bs[u := False]"
    by (simp add: upd_up_def map_update)
  then have h: "held (upd_up u (\<lambda>x. x\<lparr>up_permit := False\<rparr>) s) = length (filter id (?bs[u := False]))"
    by (simp add: held_def)
  have "?bs = take u ?bs @ True # drop (Suc u) ?bs" using l id_take_nth_drop[of u ?bs] by simp
  moreover have "?bs[u := False] = take u ?bs @ False # drop (Suc u) ?bs" using l(1) by (rule upd_conv_take_nth_drop)
  moreover have "length (filter id (xs @ True # ys)) = Suc (length (filter id (xs @ False # ys)))" for xs ys :: "bool list"
    by simp
  ultimately have "length (filter id ?bs) = Suc (length (filter id (?bs[u := False])))" by metis
  then show ?thesis using h by (simp add: held_def)
qed

lemma upstream_upd:
  "upstream (upd_up u f s) v = (if u = v \<and> u < length (ek_ups s) then f (upstream s v) else upstream s v)"
  by (cases "u < length (ek_ups s)") (auto simp: upd_up_def list_update_beyond)

lemma upd_up_simps [simp]: "length (ek_ups (upd_up u f s)) = length (ek_ups s)" "ek_conn (upd_up u f s) = ek_conn s"
  by (simp_all add: upd_up_def)

lemma permit_ok_upd: "permit_ok s \<Longrightarrow> permit_ok (upd_up u (\<lambda>x. x\<lparr>up_permit := False\<rparr>) s)"
  by (auto simp: permit_ok_def upstream_upd split: if_splits)

lemma release_step: "permit_step ps (release_permit u ps)"
proof (cases ps)
  case (Pair p s)
  then show ?thesis
    using held_release[of u s] permit_ok_upd[of s u] by (auto simp: permit_step_def release_permit_def)
qed

lemma life_end_step: "permit_step ps (life_end u b ps)"
proof (cases ps)
  case (Pair p s)
  define s0 where "s0 = (if ek_conn s = Some u then s\<lparr>ek_conn := None\<rparr> else s)"
  obtain p1 s1 where r: "release_permit u (p, s0) = (p1, s1)" by fastforce
  have h0: "held s0 = held s" "ek_ups s0 = ek_ups s" by (simp_all add: s0_def held_def)
  have sum: "sp_sem p1 + held s1 = sp_sem p + held s"
    using r held_release[of u s0] h0 by (auto simp: release_permit_def split: if_splits)
  have ok: "permit_ok s1" if ok: "permit_ok s"
  proof -
    have "ek_conn s1 = Some v" if v: "v < length (ek_ups s1)" "up_permit (upstream s1 v)" for v
    proof -
      have "v < length (ek_ups s)" "up_permit (upstream s v)" "v \<noteq> u" and c: "ek_conn s1 = ek_conn s0"
        using v r h0 by (auto simp: release_permit_def upstream_upd split: if_splits)
      then have "ek_conn s = Some v" "v \<noteq> u" using ok by (auto simp: permit_ok_def)
      then show ?thesis using c by (simp add: s0_def)
    qed
    then show ?thesis by (simp add: permit_ok_def)
  qed
  have "\<exists>s2. life_end u b ps = (p1, s2) \<and> permits s2 = permits s1"
    using r by (simp add: Pair life_end_def s0_def[symmetric])
  then obtain s2 where "life_end u b ps = (p1, s2)" "permits s2 = permits s1" by blast
  moreover from this(2) have "held s2 = held s1" "permit_ok s1 \<Longrightarrow> permit_ok s2"
    by (rule held_permits, blast intro: permit_ok_permits)
  ultimately show ?thesis using sum ok by (simp add: permit_step_def Pair)
qed

lemma life_finally_step: "permit_step ps (life_finally u b i ps)"
proof (cases ps)
  case (Pair p s)
  then show ?thesis using life_end_step[of ps u b] by (auto simp: life_finally_def intro: permit_stepI)
qed

lemma send_fails_step: "permit_step ps (send_fails who i ps)"
  using permit_stepI[of "snd ps" "snd ps" "fst ps" "fst ps"]
  by (auto simp: send_fails_def life_finally_step split: stt_who.splits)

lemma open_step:
  assumes "ek_conn s = None" "sp_sem p \<noteq> 0" "permits s' = permits (open_upstream s)"
  shows "permit_step (p, s) (p\<lparr>sp_sem := sp_sem p - Suc 0\<rparr>, s')"
proof -
  have h: "held (open_upstream s) = Suc (held s)" by (simp add: held_def open_upstream_def spawn_def new_up_def Let_def)
  have "permit_ok (open_upstream s)" if "permit_ok s"
    using that assms(1) by (auto simp: permit_ok_def open_upstream_def spawn_def nth_append less_Suc_eq Let_def)
  moreover have "held s' = held (open_upstream s)" "permit_ok (open_upstream s) \<Longrightarrow> permit_ok s'"
    using assms(3) by (rule held_permits, blast intro: permit_ok_permits[OF assms(3)])
  ultimately show ?thesis using h assms(2) by (simp add: permit_step_def)
qed

lemma ensure_step: "permit_step ps (ensure_upstream now who i ps)"
proof (cases ps)
  case (Pair p s)
  then show ?thesis
    by (auto simp: ensure_upstream_def Let_def intro!: open_step) (auto intro!: permit_stepI)
qed

lemma send_audio_step: "permit_step ps (stt_send_audio c now frame i ps)"
proof (cases ps)
  case (Pair p s)
  obtain chunks ended s1 where f: "stt_feed c frame s = (chunks, ended, s1)" by (cases "stt_feed c frame s") auto
  then have k: "permits s1 = permits s" by (auto simp: stt_feed_def split: option.splits prod.splits)
  show ?thesis using k f
    by (auto simp: Pair stt_send_audio_def Let_def intro!: permit_step_trans[OF permit_stepI ensure_step] permit_stepI)
qed

lemma connect_failed_step: "permit_step ps (connect_failed c now u re tf err i ps)"
proof (cases ps)
  case (Pair p s)
  then show ?thesis
    by (auto simp: connect_failed_def Let_def split: option.splits
        intro!: permit_step_trans[OF permit_stepI life_finally_step] permit_stepI)
qed

lemma connected_step: "permit_step ps (connected_up now u re i ps)"
  by (cases ps) (auto simp: connected_up_def intro!: permit_stepI)

lemma started_step: "permit_step ps (started_up now u re i ps)"
proof (cases ps)
  case (Pair p s)
  then show ?thesis
    by (auto simp: started_up_def Let_def intro!: permit_stepI permit_step_trans[OF permit_stepI connected_step])
qed

lemma reader_ended_step: "permit_step ps (reader_ended c now u i ps)"
  by (cases ps) (auto simp: reader_ended_def Let_def intro!: life_finally_step permit_stepI)

lemma task_body_step: "permit_step ps (task_body c now r i pc ps)"
proof (cases ps)
  case (Pair p s)
  show ?thesis
    by (cases pc; cases r)
      (auto simp: Pair task_body_def Let_def socket_open_def
        intro!: permit_stepI ensure_step send_fails_step release_step life_end_step life_finally_step started_step
          connect_failed_step connected_step reader_ended_step permit_step_trans[OF permit_stepI connect_failed_step]
        split: option.splits)
qed

lemma task_step_permits: "permit_step ps (task_step c now r i ps)"
proof (cases ps)
  case (Pair p s)
  let ?s0 = "upd_task i (\<lambda>t. t\<lparr>tk_pc := QRun, tk_cancel := False\<rparr>) s"
  obtain p1 s1 where b: "task_body c now r i (tk_pc (ek_tasks s ! i)) (p, ?s0) = (p1, s1)" by fastforce
  have "permit_step (p, s) (p, ?s0)" by (rule permit_stepI) simp_all
  moreover have "permit_step (p, ?s0) (p1, s1)" using task_body_step[of "(p, ?s0)"] b by metis
  moreover have "permit_step (p1, s1) (p1, task_over i s1)" by (rule permit_stepI) simp_all
  moreover have "task_step c now r i ps = (p1, task_over i s1)" by (simp add: task_step_def Pair b)
  ultimately show ?thesis unfolding Pair using permit_step_trans by metis
qed

lemma call_step_permits:
  assumes "\<And>i p s. permit_step (p, s) (f i (p, s))"
  shows "permit_step ps (call_step f ps)"
proof (cases ps)
  case (Pair p s)
  let ?i = "length (ek_tasks s)"
  obtain p1 s1 where b: "f ?i (p, spawn QRun False s) = (p1, s1)" by fastforce
  have "permit_step (p, s) (p, spawn QRun False s)" by (rule permit_stepI) simp_all
  moreover have "permit_step (p, spawn QRun False s) (p1, s1)" using assms b by metis
  moreover have "permit_step (p1, s1) (p1, task_over ?i s1)" by (rule permit_stepI) simp_all
  moreover have "call_step f ps = (p1, task_over ?i s1)" by (simp add: call_step_def Pair b Let_def)
  ultimately show ?thesis unfolding Pair using permit_step_trans by metis
qed

lemma capacity_step: "permit_step ps (on_capacity c now u ps)"
  by (cases ps) (auto simp: on_capacity_def Let_def intro!: permit_stepI)

lemma permit_step_if:
  "permit_step a x \<Longrightarrow> permit_step a y \<Longrightarrow> permit_step a (if b then x else y)"
  by simp

lemma on_message_step: "permit_step ps (on_message c now u d ps)"
proof (cases ps)
  case (Pair p s)
  show ?thesis unfolding Pair on_message_def Let_def prod.case
    by (intro permit_step_if permit_stepI permit_step_trans[OF permit_stepI capacity_step]) simp_all
qed

lemma read_ends_step: "permit_step ps (read_ends c now u code reason ps)"
proof (cases ps)
  case (Pair p s)
  then show ?thesis
    by (auto simp: read_ends_def Let_def intro!: permit_stepI permit_step_trans[OF permit_stepI capacity_step])
qed

lemma act_step_permits: "permit_step ps (stt_act_step c a ps)"
proof (cases ps)
  case (Pair p s)
  show ?thesis unfolding Pair
    by (cases a)
      (auto simp: stt_act_step_def task_step_permits on_message_step read_ends_step
        intro!: call_step_permits send_audio_step permit_stepI)
qed

definition world_permits :: "stt_world \<Rightarrow> bool" where
  "world_permits w \<longleftrightarrow> sp_sem (fst w) + sum_list (map held (snd w)) = MAX_SESSIONS \<and> (\<forall>s\<in>set (snd w). permit_ok s)"

lemma degraded_held [simp]: "held (provider_degraded s) = held s" "permit_ok (provider_degraded s) = permit_ok s"
  by (rule held_permits, simp) (metis permit_ok_permits permits_idle(5))

lemma settle_permits: "world_permits (p1, ss) \<Longrightarrow> world_permits (settle p p1 ss)"
proof -
  have "map held (map (\<lambda>s. if ek_registered s then provider_degraded s else s) ss) = map held ss" by simp
  then show "world_permits (p1, ss) \<Longrightarrow> world_permits (settle p p1 ss)"
    by (auto simp: world_permits_def settle_def simp del: map_map)
qed

lemma world_step_permits: "world_permits w \<Longrightarrow> world_permits (stt_world_step c a w)"
proof -
  assume w: "world_permits w"
  obtain p ss where ps: "w = (p, ss)" by fastforce
  show ?thesis
  proof (cases a)
    case POpen
    have "held (new_el_stt c p) = 0" "permit_ok (new_el_stt c p)" by (simp_all add: new_el_stt_def held_def permit_ok_def)
    then show ?thesis using w by (auto simp: POpen ps stt_world_step_def world_permits_def)
  next
    case (PSession i b)
    show ?thesis
    proof (cases "i < length ss")
      case True
      obtain p1 s1 where st: "stt_act_step c b (p, ss ! i) = (p1, s1)" by fastforce
      have "permit_step (p, ss ! i) (p1, s1)" using act_step_permits[of "(p, ss ! i)" c b] st by simp
      moreover have "permit_ok (ss ! i)" using w True by (simp add: ps world_permits_def)
      ultimately have k: "sp_sem p1 + held s1 = sp_sem p + held (ss ! i)" "permit_ok s1" by (simp_all add: permit_step_def)
      have "sum_list (map held (ss[i := s1])) + held (ss ! i) = sum_list (map held ss) + held s1"
        using True by (simp add: map_update sum_list_update) (metis add.commute elem_le_sum_list le_add_diff_inverse2 length_map nth_map trans_le_add1)
      then have "world_permits (p1, ss[i := s1])"
        using w k set_update_subset_insert[of ss i s1] by (auto simp: ps world_permits_def)
      then show ?thesis using True by (simp add: PSession ps stt_world_step_def st settle_permits)
    qed (use w in \<open>simp add: PSession ps stt_world_step_def\<close>)
  next
    case (PProbe now r)
    have "world_permits (snd (stt_probe_once now r p), ss)" using w by (simp add: ps world_permits_def)
    then show ?thesis by (simp add: PProbe ps stt_world_step_def settle_permits)
  qed (use w in \<open>simp add: ps stt_world_step_def world_permits_def\<close>)
qed

lemma world_permits_run: "world_permits (el_stt_run c acts)"
proof -
  have "world_permits w \<Longrightarrow> world_permits (fold (stt_world_step c) acts w)" for w
    by (induction acts arbitrary: w) (simp_all add: world_step_permits)
  moreover have "world_permits (new_stt_provider, [])" by (simp add: world_permits_def new_stt_provider_def)
  ultimately show ?thesis unfolding el_stt_run_def by blast
qed

end
