(* ===== verification/Eleven_STT_Audio.thy ===== *)
theory Eleven_STT_Audio
  imports Eleven_STT_Permits "HOL-Library.Sublist"
begin

text \<open>
  The audio of a session of theory Eleven\_STT: one task sends at a time, the buffer is the end of what was forwarded and
  what was sent lies before it, in order (\<open>audio_ok\<close>). Every operation keeps this (\<open>good\<close>: it holds while a task runs).
\<close>

section \<open>Audio\<close>

definition pcs :: "el_stt \<Rightarrow> stt_pc list" where
  "pcs s = map tk_pc (ek_tasks s)"

definition holders :: "el_stt \<Rightarrow> stt_pc list" where
  "holders s = filter holding (pcs s)"

definition sent_all :: "el_stt \<Rightarrow> bytes" where
  "sent_all s = concat (map (\<lambda>(u, c, b). c) (ek_sent s))"

text \<open>The chunk in flight of a sending task, and whether it left the buffer already.\<close>

definition flight :: "stt_pc \<Rightarrow> bytes \<times> bool" where
  "flight pc = (case pc of QChunk _ _ x \<Rightarrow> (x, False) | QCommit _ _ x \<Rightarrow> (x, True)
     | QDrainChunk _ _ x \<Rightarrow> (x, False) | QDrainCommit _ _ x \<Rightarrow> (x, True) | _ \<Rightarrow> ([], True))"

definition chunk_ok :: "bytes \<Rightarrow> bool \<Rightarrow> bool" where
  "chunk_ok x commit \<longleftrightarrow>
     even (length x) \<and> (if commit then length x < MIN_CHUNK_BYTES
                         else MIN_CHUNK_BYTES \<le> length x \<and> length x \<le> MAX_CHUNK_BYTES)"

text \<open>
  \<open>pos\<close>: how much of the forwarded audio has left the front of the buffer. What was sent lies within it, in order.
\<close>

definition flight_ok :: "bytes \<Rightarrow> bytes \<Rightarrow> nat \<Rightarrow> stt_pc list \<Rightarrow> bool" where
  "flight_ok fwd sent pos hs =
     (case hs of
        [] \<Rightarrow> True
      | [pc] \<Rightarrow>
          (let (x, commit) = flight pc in
           chunk_ok x commit \<and> subseq (sent @ x) (take (if commit then pos else pos + length x) fwd))
      | _ \<Rightarrow> False)"

definition core_ok :: "bytes \<Rightarrow> bytes \<Rightarrow> (nat \<times> bytes \<times> bool) list \<Rightarrow> stt_pc list \<Rightarrow> bool" where
  "core_ok buf fwd sent hs \<longleftrightarrow>
     (\<exists>pos\<le>length fwd. buf = drop pos fwd \<and> even pos \<and> subseq (concat (map (\<lambda>(u, c, b). c) sent)) (take pos fwd)
        \<and> flight_ok fwd (concat (map (\<lambda>(u, c, b). c) sent)) pos hs)
     \<and> even (length fwd) \<and> list_all (\<lambda>(u, c, b). chunk_ok c b) sent"

definition audio_ok :: "el_stt \<Rightarrow> bool" where
  "audio_ok s = core_ok (ek_buf s) (ek_fwd s) (ek_sent s) (holders s)"

text \<open>The task that runs.\<close>

definition running :: "nat \<Rightarrow> el_stt \<Rightarrow> bool" where
  "running i s \<longleftrightarrow> i < length (pcs s) \<and> pcs s ! i = QRun"

lemma subseq_take_le: "subseq xs (take m ys) \<Longrightarrow> m \<le> n \<Longrightarrow> subseq xs (take n ys)"
  by (metis min.absorb1 subseq_order.trans take_is_prefix prefix_imp_subseq take_take)

lemma subseq_take_app: "subseq xs (take m ys) \<Longrightarrow> subseq xs (take m (ys @ zs))"
  by (metis append_Nil2 list_emb_append_mono list_emb_Nil take_append)

lemma flight_ok_mono:
  "flight_ok fwd sent pos hs \<Longrightarrow> pos \<le> pos' \<Longrightarrow> flight_ok (fwd @ x) sent pos' hs"
  by (auto simp: flight_ok_def simp del: take_append split: list.splits prod.splits
      intro!: subseq_take_app elim!: subseq_take_le)

text \<open>The buffer loses its front, and gets audio at its end.\<close>

lemma core_drop:
  assumes "core_ok buf fwd sent hs" "even n"
  shows "core_ok (drop n buf) fwd sent hs"
proof -
  obtain pos where p: "pos \<le> length fwd" "buf = drop pos fwd" "even pos"
    "subseq (concat (map (\<lambda>(u, c, b). c) sent)) (take pos fwd)"
    "flight_ok fwd (concat (map (\<lambda>(u, c, b). c) sent)) pos hs" and e: "even (length fwd)"
    and l: "list_all (\<lambda>(u, c, b). chunk_ok c b) sent"
    using assms(1) unfolding core_ok_def by blast
  let ?q = "min (length fwd) (pos + n)"
  have "drop n buf = drop ?q fwd" using p(2) by (simp add: min_def add.commute)
  moreover have "even ?q" using p(3) e assms(2) by (simp add: min_def)
  moreover have "subseq (concat (map (\<lambda>(u, c, b). c) sent)) (take ?q fwd)" using p(1,4) by (rule_tac subseq_take_le) auto
  moreover have "flight_ok fwd (concat (map (\<lambda>(u, c, b). c) sent)) ?q hs"
    using flight_ok_mono[OF p(5), of ?q "[]"] p(1) by simp
  ultimately show ?thesis using e l unfolding core_ok_def by (intro conjI exI[of _ ?q]) auto
qed

lemma core_app:
  assumes "core_ok buf fwd sent hs" "even (length x)"
  shows "core_ok (buf @ x) (fwd @ x) sent hs"
proof -
  obtain pos where p: "pos \<le> length fwd" "buf = drop pos fwd" "even pos"
    "subseq (concat (map (\<lambda>(u, c, b). c) sent)) (take pos fwd)"
    "flight_ok fwd (concat (map (\<lambda>(u, c, b). c) sent)) pos hs" and e: "even (length fwd)"
    and l: "list_all (\<lambda>(u, c, b). chunk_ok c b) sent"
    using assms(1) unfolding core_ok_def by blast
  have "flight_ok (fwd @ x) (concat (map (\<lambda>(u, c, b). c) sent)) pos hs" using flight_ok_mono[OF p(5)] by simp
  then show ?thesis using p e l assms(2) subseq_take_app[OF p(4)] unfolding core_ok_def
    by (intro conjI exI[of _ pos]) auto
qed

lemma core_even: "core_ok buf fwd sent hs \<Longrightarrow> even (length buf)"
  unfolding core_ok_def by auto

lemma core_clear: "core_ok buf fwd sent hs \<Longrightarrow> core_ok [] fwd sent hs"
  using core_drop[of buf fwd sent hs "length buf"] core_even by force

text \<open>A send starts, succeeds, fails.\<close>

lemma core_start_chunk:
  assumes "core_ok buf fwd sent []" "MIN_CHUNK_BYTES \<le> length buf" "flight pc = (take (min (length buf) MAX_CHUNK_BYTES) buf, False)"
  shows "core_ok buf fwd sent [pc]"
proof -
  obtain pos where p: "pos \<le> length fwd" "buf = drop pos fwd" "even pos"
    "subseq (concat (map (\<lambda>(u, c, b). c) sent)) (take pos fwd)" and e: "even (length fwd)"
    and l: "list_all (\<lambda>(u, c, b). chunk_ok c b) sent"
    using assms(1) unfolding core_ok_def by blast
  let ?x = "take (min (length buf) MAX_CHUNK_BYTES) buf"
  have "even (length ?x)" using core_even[OF assms(1)] by (simp add: min_def MAX_CHUNK_BYTES_def PCM_BYTES_PER_S_def)
  then have k: "chunk_ok ?x False" using assms(2)
    by (auto simp: chunk_ok_def min_def MAX_CHUNK_BYTES_def MIN_CHUNK_BYTES_def PCM_BYTES_PER_S_def)
  have "take (pos + length ?x) fwd = take pos fwd @ ?x" using p(1,2) by (simp add: take_add min_def)
  then have "subseq (concat (map (\<lambda>(u, c, b). c) sent) @ ?x) (take (pos + length ?x) fwd)"
    using list_emb_append_mono[OF p(4), of ?x ?x] by simp
  then have "flight_ok fwd (concat (map (\<lambda>(u, c, b). c) sent)) pos [pc]" using k assms(3) by (simp add: flight_ok_def)
  then show ?thesis using p e l unfolding core_ok_def by blast
qed

lemma core_start_commit:
  assumes "core_ok buf fwd sent []" "length buf < MIN_CHUNK_BYTES" "flight pc = (buf, True)"
  shows "core_ok [] fwd sent [pc]"
proof -
  obtain pos where p: "pos \<le> length fwd" "buf = drop pos fwd" "even pos"
    "subseq (concat (map (\<lambda>(u, c, b). c) sent)) (take pos fwd)" and e: "even (length fwd)"
    and l: "list_all (\<lambda>(u, c, b). chunk_ok c b) sent"
    using assms(1) unfolding core_ok_def by blast
  have k: "chunk_ok buf True" using core_even[OF assms(1)] assms(2) by (simp add: chunk_ok_def)
  have "subseq (concat (map (\<lambda>(u, c, b). c) sent) @ buf) fwd"
    using list_emb_append_mono[OF p(4), of buf buf] p(2) by simp
  then have "flight_ok fwd (concat (map (\<lambda>(u, c, b). c) sent)) (length fwd) [pc]" using k assms(3) by (simp add: flight_ok_def)
  then show ?thesis using e l subseq_take_le[OF p(4,1)] unfolding core_ok_def by (intro conjI exI[of _ "length fwd"]) auto
qed

lemma core_sent:
  assumes "core_ok buf fwd sent [pc]" "flight pc = (x, commit)"
  shows "core_ok (if commit then buf else drop (length x) buf) fwd (sent @ [(u, x, commit)]) []"
proof -
  obtain pos where p: "pos \<le> length fwd" "buf = drop pos fwd" "even pos"
    "flight_ok fwd (concat (map (\<lambda>(u, c, b). c) sent)) pos [pc]" and e: "even (length fwd)"
    and l: "list_all (\<lambda>(u, c, b). chunk_ok c b) sent"
    using assms(1) unfolding core_ok_def by blast
  have k: "chunk_ok x commit"
    "subseq (concat (map (\<lambda>(u, c, b). c) sent) @ x) (take (if commit then pos else pos + length x) fwd)"
    using p(4) assms(2) by (simp_all add: flight_ok_def)
  let ?q = "if commit then pos else min (length fwd) (pos + length x)"
  have "(if commit then buf else drop (length x) buf) = drop ?q fwd" using p(2) by (simp add: min_def add.commute)
  moreover have "even ?q" using p(3) e k(1) by (simp add: min_def chunk_ok_def)
  moreover have "take ?q fwd = take (if commit then pos else pos + length x) fwd" by (simp add: min_def)
  ultimately show ?thesis using k e l p(1) unfolding core_ok_def
    by (intro conjI exI[of _ ?q]) (auto simp: flight_ok_def)
qed

lemma flight_one: "flight_ok fwd sent pos hs \<Longrightarrow> length hs \<le> 1"
  by (cases hs; cases "tl hs") (auto simp: flight_ok_def)

lemma core_one: "core_ok buf fwd sent hs \<Longrightarrow> length hs \<le> 1"
  unfolding core_ok_def using flight_one by blast

lemma core_release: "core_ok buf fwd sent hs \<Longrightarrow> core_ok buf fwd sent []"
  unfolding core_ok_def flight_ok_def by auto

text \<open>All that the audio depends on, and which operations leave it alone.\<close>

definition audio :: "el_stt \<Rightarrow> bytes \<times> bytes \<times> (nat \<times> bytes \<times> bool) list \<times> stt_pc list" where
  "audio s = (ek_buf s, ek_fwd s, ek_sent s, pcs s)"

lemma audio_ok_audio: "audio s = audio s' \<Longrightarrow> audio_ok s = audio_ok s'"
  by (simp add: audio_def audio_ok_def holders_def)

lemma audio_upd_up [simp]: "audio (upd_up u f s) = audio s"
  by (simp add: audio_def upd_up_def pcs_def)

lemma audio_upd_task [simp]: "(\<And>t. tk_pc (g t) = tk_pc t) \<Longrightarrow> audio (upd_task i g s) = audio s"
  by (simp add: audio_def upd_task_def pcs_def map_upd_same)

lemma audio_calls [simp]:
  "audio (stt_call c s) = audio s" "audio (stt_set_busy k s) = audio s" "audio (clear_busy s) = audio s"
  by (simp_all add: stt_call_def stt_set_busy_def clear_busy_def) (simp_all add: audio_def pcs_def)

lemma audio_fields [simp]:
  "audio (s\<lparr>ek_uncommitted := c\<rparr>) = audio s" "audio (s\<lparr>ek_want := c\<rparr>) = audio s" "audio (s\<lparr>ek_since := c\<rparr>) = audio s"
  "audio (s\<lparr>ek_timer := t\<rparr>) = audio s" "audio (s\<lparr>ek_health := h\<rparr>) = audio s" "audio (s\<lparr>ek_last_commit := t1\<rparr>) = audio s"
  "audio (s\<lparr>ek_cooldown := n\<rparr>) = audio s" "audio (s\<lparr>ek_closed := c\<rparr>) = audio s" "audio (s\<lparr>ek_closed_evt := c\<rparr>) = audio s"
  "audio (s\<lparr>ek_registered := c\<rparr>) = audio s" "audio (s\<lparr>ek_last_fwd := t1\<rparr>) = audio s" "audio (s\<lparr>ek_conn := u\<rparr>) = audio s"
  "audio (s\<lparr>ek_last_transcript := t1\<rparr>) = audio s" "audio (s\<lparr>ek_idle := i\<rparr>) = audio s" "audio (s\<lparr>ek_gate := g\<rparr>) = audio s"
  by (simp_all add: audio_def pcs_def)

lemma audio_cancel_task [simp]: "audio (cancel_task i s) = audio s"
  by (simp add: cancel_task_def Let_def split: stt_pc.splits)

lemma audio_fold_cancel [simp]: "audio (fold cancel_task js s) = audio s"
  by (induction js arbitrary: s) simp_all

lemma audio_close_final [simp]: "audio (close_final s) = audio s"
  by (simp add: close_final_def Let_def)

lemma filter_update_None:
  "i < length xs \<Longrightarrow> \<not> P (xs ! i) \<Longrightarrow> \<not> P y \<Longrightarrow> filter P (xs[i := y]) = filter P xs"
proof -
  assume i: "i < length xs" and p: "\<not> P (xs ! i)" "\<not> P y"
  have "filter P xs = filter P (take i xs @ xs ! i # drop (Suc i) xs)" using id_take_nth_drop[OF i] by simp
  then show ?thesis using p by (simp add: upd_conv_take_nth_drop[OF i])
qed

lemma filter_update_one:
  "i < length xs \<Longrightarrow> filter P xs = [] \<Longrightarrow> P y \<Longrightarrow> filter P (xs[i := y]) = [y]"
proof -
  assume i: "i < length xs" and n: "filter P xs = []" and p: "P y"
  have "filter P (take i xs @ xs ! i # drop (Suc i) xs) = []" using n id_take_nth_drop[OF i] by simp
  then show ?thesis using p by (auto simp: upd_conv_take_nth_drop[OF i] split: if_splits)
qed

lemma locked_holders: "locked s \<longleftrightarrow> holders s \<noteq> []"
  by (auto simp: locked_def holders_def pcs_def list_ex_iff filter_empty_conv)

text \<open>\<open>good\<close>: the task that runs finds the audio in order.\<close>

definition good :: "nat \<Rightarrow> el_stt \<Rightarrow> bool" where
  "good i s \<longleftrightarrow> running i s \<and> audio_ok s"

lemma good_audio: "audio s' = audio s \<Longrightarrow> good i s \<Longrightarrow> good i s'"
  unfolding good_def using audio_ok_audio[of s' s] by (simp add: audio_def running_def)

lemma good_ok: "good i s \<Longrightarrow> audio_ok s"
  by (simp add: good_def)

lemma pcs_suspend [simp]: "pcs (suspend i pc s) = (pcs s)[i := pc]"
  by (simp add: pcs_def suspend_def upd_task_def map_update)

lemma pcs_spawn [simp]: "pcs (spawn pc b s) = pcs s @ [pc]"
  by (simp add: pcs_def spawn_def)

lemma audio_ok_suspend: "good i s \<Longrightarrow> \<not> holding pc \<Longrightarrow> audio_ok (suspend i pc s)"
proof -
  assume g: "good i s" and h: "\<not> holding pc"
  have "holders (suspend i pc s) = holders s" using g h
    by (simp add: holders_def good_def running_def filter_update_None holding_def)
  then show ?thesis using g by (simp add: audio_ok_def good_def suspend_def upd_task_def)
qed

lemma good_spawn: "good i s \<Longrightarrow> \<not> holding pc \<Longrightarrow> good i (spawn pc b s)"
  by (auto simp: good_def running_def audio_ok_def holders_def nth_append) (simp_all add: spawn_def)

lemma good_set_buf: "good i s \<Longrightarrow> core_ok b (ek_fwd s) (ek_sent s) (holders s) \<Longrightarrow> good i (s\<lparr>ek_buf := b\<rparr>)"
  by (simp add: good_def running_def pcs_def audio_ok_def holders_def)

lemma good_core: "good i s \<Longrightarrow> core_ok (ek_buf s) (ek_fwd s) (ek_sent s) (holders s)"
  by (simp add: good_def audio_ok_def)

lemma good_buf: "good i s \<Longrightarrow> good i (s\<lparr>ek_buf := []\<rparr>)"
  by (rule good_set_buf, assumption, rule core_clear, rule good_core)

lemma good_trim: "good i s \<Longrightarrow> good i (trim_buffer s)"
proof -
  assume g: "good i s"
  define n where "n = length (ek_buf s) - BUF_CAP"
  have "even (n + n mod 2)" by presburger
  then have "good i (s\<lparr>ek_buf := drop (n + n mod 2) (ek_buf s)\<rparr>)"
    by (rule good_set_buf[OF g core_drop[OF good_core[OF g]]])
  then show ?thesis using g unfolding trim_buffer_def Let_def n_def[symmetric] by (cases "0 < n") simp_all
qed

lemma good_schedule: "good i s \<Longrightarrow> good i (schedule_commit t s)"
  using good_audio[of "(spawn (QTimer t) True s)\<lparr>ek_timer := Some (length (ek_tasks s))\<rparr>" "spawn (QTimer t) True s"]
    good_spawn[of i s "QTimer t"] by (simp add: schedule_commit_def holding_def)

lemma audio_begin_commit: "audio (begin_commit u s) = audio (s\<lparr>ek_buf := []\<rparr>)"
  by (simp add: begin_commit_def)

text \<open>The start of a send by the task that runs, when no other one sends.\<close>

lemma audio_ok_chunk:
  assumes "good i s" "holders s = []" "MIN_CHUNK_BYTES \<le> length (ek_buf s)" "flight pc = (chunk_of s, False)" "holding pc"
  shows "audio_ok (suspend i pc s)"
proof -
  have "holders (suspend i pc s) = [pc]" using assms(1,2,5) by (simp add: holders_def good_def running_def filter_update_one)
  then show ?thesis using core_start_chunk[of "ek_buf s" "ek_fwd s" "ek_sent s" pc] assms
    by (simp add: audio_ok_def good_def chunk_of_def suspend_def upd_task_def)
qed

lemma audio_ok_commit:
  assumes "good i s" "holders s = []" "length (ek_buf s) < MIN_CHUNK_BYTES" "flight pc = (ek_buf s, True)" "holding pc"
  shows "audio_ok (suspend i pc (begin_commit u s))"
proof -
  have a: "audio (begin_commit u s) = audio (s\<lparr>ek_buf := []\<rparr>)" by (rule audio_begin_commit)
  then have "pcs (begin_commit u s) = pcs s" "ek_buf (begin_commit u s) = []" "ek_fwd (begin_commit u s) = ek_fwd s"
    "ek_sent (begin_commit u s) = ek_sent s" by (simp_all add: audio_def pcs_def)
  moreover have "holders (suspend i pc (begin_commit u s)) = [pc]" using assms(1,2,5) calculation(1)
    by (simp add: holders_def good_def running_def filter_update_one)
  ultimately show ?thesis using core_start_commit[of "ek_buf s" "ek_fwd s" "ek_sent s" pc] assms
    by (simp add: audio_ok_def good_def suspend_def upd_task_def)
qed

lemma pump_loop_ok:
  assumes "good i s" "holders s = []" "\<And>s. good i s \<Longrightarrow> audio_ok (ex s)"
  shows "audio_ok (pump_loop ex now who u i s)"
  using assms good_schedule[OF assms(1)]
  by (auto simp: pump_loop_def Let_def flight_def holding_def intro!: audio_ok_chunk audio_ok_commit)

lemma pump_enter_ok:
  assumes "good i s" "holders s = []" "\<And>s. good i s \<Longrightarrow> audio_ok (ex s)"
  shows "audio_ok (pump_enter ex now who i s)"
  using assms by (auto simp: pump_enter_def Let_def pump_loop_ok split: option.splits)

lemma pump_start_ok:
  assumes "good i s" "\<And>s. good i s \<Longrightarrow> audio_ok (ex s)"
  shows "audio_ok (pump_start ex now who i s)"
  using assms by (auto simp: pump_start_def locked_holders holding_def intro!: audio_ok_suspend pump_enter_ok)

lemma plain_exit_ok: "good i s \<Longrightarrow> audio_ok (plain_exit who i s)"
  by (auto simp: plain_exit_def good_ok holding_def split: stt_who.splits intro!: audio_ok_suspend)

lemma good_want: "good i s \<Longrightarrow> good i (s\<lparr>ek_want := b\<rparr>)"
  by (rule good_audio) simp_all

lemma send_end_ok: "good i s \<Longrightarrow> audio_ok (stt_send_end tm now i s)"
  by (auto simp: stt_send_end_def good_ok intro!: pump_start_ok plain_exit_ok good_want)

lemma pump_exit_ok: "good i s \<Longrightarrow> audio_ok (pump_exit tm now who i s)"
  by (auto simp: pump_exit_def good_ok send_end_ok plain_exit_ok split: stt_who.splits)

lemma pump_ok: "good i s \<Longrightarrow> audio_ok (pump tm now who i s)"
  unfolding pump_def by (rule pump_start_ok[OF _ pump_exit_ok])

lemma after_ensure_ok: "good i s \<Longrightarrow> audio_ok (after_ensure tm now who i s)"
  by (auto simp: after_ensure_def good_ok pump_ok intro!: pump_exit_ok good_trim split: stt_who.splits option.splits)

lemma good_refused: "good i s \<Longrightarrow> good i (ensure_refused s)"
proof -
  assume "good i s"
  then have "good i ((s\<lparr>ek_buf := []\<rparr>)\<lparr>ek_uncommitted := False\<rparr>)" using good_audio[OF _ good_buf] by simp
  then show ?thesis by (simp add: ensure_refused_def)
qed

lemma good_open: "good i s \<Longrightarrow> good i (open_upstream s)"
proof -
  assume g: "good i s"
  define s1 where "s1 = s\<lparr>ek_ups := ek_ups s @ [new_up], ek_conn := Some (length (ek_ups s))\<rparr>"
  have "audio s1 = audio s" by (simp add: s1_def audio_def pcs_def)
  then have "good i s1" using good_audio g by blast
  then have k: "good i (spawn (QNew (length (ek_ups s))) False s1)" by (rule good_spawn) (simp add: holding_def)
  have "open_upstream s = (spawn (QNew (length (ek_ups s))) False s1)\<lparr>ek_life := Some (length (ek_tasks s))\<rparr>"
    by (simp add: open_upstream_def s1_def Let_def)
  moreover have "audio (x\<lparr>ek_life := l\<rparr>) = audio x" for x l by (simp add: audio_def pcs_def)
  ultimately show ?thesis using good_audio[OF _ k] by metis
qed

lemma good_calls [simp]:
  "good i s \<Longrightarrow> good i (stt_set_busy k s)" "good i s \<Longrightarrow> good i (clear_busy s)" "good i s \<Longrightarrow> good i (upd_up u f s)"
  by (rule good_audio; simp)+

lemma ensure_ok:
  assumes "good i s"
  shows "audio_ok (snd (ensure_upstream now who i (p, s)))"
  using assms
  by (auto simp: ensure_upstream_def Let_def holding_def
      intro!: after_ensure_ok good_buf good_refused good_open audio_ok_suspend good_calls)

lemma pcm_even: "even (length (pcm_of chunks))"
proof -
  have a: "append_samples fs = Some b \<Longrightarrow> even (length b)" for fs b
    by (induction fs arbitrary: b) (auto simp: s16_bytes_def split: option.splits if_splits)
  show ?thesis by (induction chunks) (auto simp: pcm_of_def f32le_to_s16le_def dest: a split: option.splits)
qed

lemma good_app: "good i s \<Longrightarrow> even (length x) \<Longrightarrow> good i (s\<lparr>ek_buf := ek_buf s @ x, ek_fwd := ek_fwd s @ x\<rparr>)"
  using core_app[OF good_core, of i s x] by (simp add: good_def running_def pcs_def audio_ok_def holders_def)

lemma send_audio_ok:
  assumes "good i s"
  shows "audio_ok (snd (stt_send_audio c now frame i (p, s)))"
proof -
  obtain chunks ended s1 where f: "stt_feed c frame s = (chunks, ended, s1)" by (cases "stt_feed c frame s") auto
  then have a: "audio s1 = audio s" by (auto simp: stt_feed_def split: option.splits prod.splits)
  let ?x = "pcm_of chunks"
  let ?s2 = "s1\<lparr>ek_buf := ek_buf s @ ?x, ek_fwd := ek_fwd s @ ?x, ek_uncommitted := True, ek_since := True, ek_last_fwd := Some now\<rparr>"
  have b: "ek_buf s1 = ek_buf s" "ek_fwd s1 = ek_fwd s" using a by (simp_all add: audio_def)
  have g1: "good i s1" using good_audio[OF a assms] .
  have "audio ?s2 = audio (s1\<lparr>ek_buf := ek_buf s1 @ ?x, ek_fwd := ek_fwd s1 @ ?x\<rparr>)"
    by (simp add: audio_def pcs_def b)
  then have "good i ?s2" using good_audio good_app[OF g1 pcm_even] by blast
  then show ?thesis using g1 assms
    by (simp add: stt_send_audio_def f Let_def pump_exit_ok ensure_ok good_ok)
qed

lemma good_fields:
  "good i s \<Longrightarrow> good i (s\<lparr>ek_health := h\<rparr>)" "good i s \<Longrightarrow> good i (s\<lparr>ek_conn := u\<rparr>)"
  "good i s \<Longrightarrow> good i (s\<lparr>ek_closed := c\<rparr>)" "good i s \<Longrightarrow> good i (cancel_task j s)" "good i s \<Longrightarrow> good i (close_final s)"
  by (rule good_audio; simp)+

lemma good_release: "good i s \<Longrightarrow> good i (snd (release_permit u (p, s)))"
  by (rule good_audio[of _ s]) (auto simp: release_permit_def)

lemma good_life_end: "good i s \<Longrightarrow> good i (snd (life_end u b (p, s)))"
proof -
  assume g: "good i s"
  let ?s0 = "if ek_conn s = Some u then s\<lparr>ek_conn := None\<rparr> else s"
  obtain p1 s1 where r: "release_permit u (p, ?s0) = (p1, s1)" by fastforce
  have "good i ?s0" using g good_fields(2) by simp
  then have "good i s1" using good_release[of i ?s0 u p] r by simp
  then show ?thesis by (auto simp: life_end_def r Let_def holding_def intro: good_spawn)
qed

lemma life_finally_ok: "good i s \<Longrightarrow> audio_ok (snd (life_finally u b i (p, s)))"
  by (auto simp: life_finally_def holding_def good_ok[OF good_life_end] intro!: audio_ok_suspend)

lemma send_fails_ok: "good i s \<Longrightarrow> audio_ok (snd (send_fails who i (p, s)))"
  by (auto simp: send_fails_def good_ok life_finally_ok split: stt_who.splits)

lemma connect_failed_ok: "good i s \<Longrightarrow> audio_ok (snd (connect_failed c now u re tf err i (p, s)))"
proof -
  assume g: "good i s"
  have "good i ((s\<lparr>ek_buf := []\<rparr>)\<lparr>ek_uncommitted := False, ek_cooldown := n\<rparr>)" for n
    using good_audio[OF _ good_buf[OF g]] by simp
  then show ?thesis using g
    by (auto simp: connect_failed_def Let_def holding_def split: option.splits
        intro!: life_finally_ok audio_ok_suspend good_fields)
qed

lemma connected_ok: "good i s \<Longrightarrow> audio_ok (snd (connected_up now u re i (p, s)))"
  by (auto simp: connected_up_def intro!: pump_ok good_fields)

lemma started_ok: "good i s \<Longrightarrow> audio_ok (snd (started_up now u re i (p, s)))"
  by (auto simp: started_up_def Let_def holding_def intro!: connected_ok audio_ok_suspend good_fields good_calls)

lemma reader_ended_ok: "good i s \<Longrightarrow> audio_ok (snd (reader_ended c now u i (p, s)))"
  by (auto simp: reader_ended_def Let_def holding_def intro!: life_finally_ok audio_ok_suspend good_fields)

lemma close_wait_ok: "good i s \<Longrightarrow> audio_ok (close_wait now i s)"
  by (auto simp: close_wait_def holding_def good_ok intro!: audio_ok_suspend good_ok[OF good_fields(5)])

lemma drain_ret_ok: "good i s \<Longrightarrow> audio_ok (drain_ret w now i s)"
  by (auto simp: drain_ret_def good_ok close_wait_ok split: drain_who.splits)

lemma drain_abort_ok: "good i s \<Longrightarrow> audio_ok (drain_abort w s)"
  by (auto simp: drain_abort_def good_ok good_ok[OF good_fields(5)] split: drain_who.splits)

lemma drain_close_ok: "good i s \<Longrightarrow> audio_ok (drain_close u w now i s)"
  by (auto simp: drain_close_def Let_def holding_def intro!: audio_ok_suspend drain_ret_ok good_calls)

lemma drain_loop_ok: "good i s \<Longrightarrow> holders s = [] \<Longrightarrow> audio_ok (drain_loop u w now i s)"
  by (auto simp: drain_loop_def flight_def holding_def intro!: audio_ok_chunk audio_ok_commit drain_close_ok)

lemma drain_locked_ok: "good i s \<Longrightarrow> holders s = [] \<Longrightarrow> audio_ok (drain_locked u w now i s)"
  by (simp add: drain_locked_def drain_close_ok drain_loop_ok)

lemma drain_ready_ok: "good i s \<Longrightarrow> audio_ok (drain_ready u w now i s)"
  by (auto simp: drain_ready_def locked_holders holding_def intro!: audio_ok_suspend drain_close_ok drain_locked_ok)

lemma drain_begin_ok: "good i s \<Longrightarrow> audio_ok (drain_begin u w now i s)"
  by (auto simp: drain_begin_def Let_def holding_def intro!: audio_ok_suspend drain_close_ok drain_ready_ok drain_ret_ok)

lemma drain_final_ok: "good i s \<Longrightarrow> audio_ok (drain_final u w now i s)"
  by (auto simp: drain_final_def holding_def intro!: audio_ok_suspend drain_close_ok)

lemma el_stt_close_ok: "good i s \<Longrightarrow> audio_ok (el_stt_close now i s)"
  by (auto simp: el_stt_close_def Let_def good_ok split: option.splits
      intro!: drain_begin_ok good_calls good_fields good_ok[OF good_fields(5)])

text \<open>A resumed task runs; one that sent has freed the lock, with its chunk gone out or not.\<close>

abbreviation resumed :: "nat \<Rightarrow> el_stt \<Rightarrow> el_stt" where
  "resumed i s \<equiv> upd_task i (\<lambda>t. t\<lparr>tk_pc := QRun, tk_cancel := False\<rparr>) s"

lemma pcs_resumed [simp]: "pcs (resumed i s) = (pcs s)[i := QRun]"
  by (simp add: pcs_def upd_task_def map_update)

lemma fields_resumed [simp]:
  "ek_buf (resumed i s) = ek_buf s" "ek_fwd (resumed i s) = ek_fwd s" "ek_sent (resumed i s) = ek_sent s"
  by (simp_all add: upd_task_def)

lemma good_resumed:
  assumes "audio_ok s" "i < length (pcs s)"
  shows "good i (resumed i s)"
    and "holding (pcs s ! i) \<Longrightarrow> holders (resumed i s) = [] \<and> holders s = [pcs s ! i]"
    and "\<not> holding (pcs s ! i) \<Longrightarrow> holders (resumed i s) = holders s"
proof -
  have c: "core_ok (ek_buf s) (ek_fwd s) (ek_sent s) (holders s)" using assms(1) by (simp add: audio_ok_def)
  have n: "holders (resumed i s) = holders s" if "\<not> holding (pcs s ! i)"
    using that assms(2) by (simp add: holders_def filter_update_None holding_def)
  have h: "holders (resumed i s) = [] \<and> holders s = [pcs s ! i]" if "holding (pcs s ! i)"
  proof -
    have s: "pcs s = take i (pcs s) @ pcs s ! i # drop (Suc i) (pcs s)" using id_take_nth_drop[OF assms(2)] .
    have "holders s = filter holding (take i (pcs s)) @ pcs s ! i # filter holding (drop (Suc i) (pcs s))"
      unfolding holders_def using that by (subst s) simp
    moreover have "length (holders s) \<le> 1"
      using c by (rule core_one)
    ultimately have "filter holding (take i (pcs s)) = []" "filter holding (drop (Suc i) (pcs s)) = []"
      "holders s = [pcs s ! i]" by simp_all
    then show ?thesis by (simp add: holders_def upd_conv_take_nth_drop[OF assms(2)] holding_def)
  qed
  show "holding (pcs s ! i) \<Longrightarrow> holders (resumed i s) = [] \<and> holders s = [pcs s ! i]" by (rule h)
  show "\<not> holding (pcs s ! i) \<Longrightarrow> holders (resumed i s) = holders s" by (rule n)
  have "core_ok (ek_buf s) (ek_fwd s) (ek_sent s) (holders (resumed i s))"
    using c h n core_release by (cases "holding (pcs s ! i)") auto
  then show "good i (resumed i s)" using assms(2) by (simp add: good_def running_def audio_ok_def)
qed

lemma good_chunk_sent:
  assumes "audio_ok s" "i < length (pcs s)" "flight (pcs s ! i) = (x, False)" "holding (pcs s ! i)"
  shows "good i (chunk_sent u x (resumed i s))" "holders (chunk_sent u x (resumed i s)) = []"
proof -
  have h: "holders s = [pcs s ! i]" "holders (resumed i s) = []" using good_resumed(2)[OF assms(1,2,4)] by simp_all
  have "core_ok (drop (length x) (ek_buf s)) (ek_fwd s) (ek_sent s @ [(u, x, False)]) []"
    using core_sent[of "ek_buf s" "ek_fwd s" "ek_sent s" "pcs s ! i" x False u] assms(1,3) h(1) by (simp add: audio_ok_def)
  moreover have p: "pcs (chunk_sent u x t) = pcs t" for t by (simp add: chunk_sent_def pcs_def)
  ultimately show "good i (chunk_sent u x (resumed i s))" "holders (chunk_sent u x (resumed i s)) = []"
    using h(2) assms(2) by (simp_all add: good_def running_def audio_ok_def holders_def) (simp_all add: chunk_sent_def)
qed

lemma good_commit_done:
  assumes "audio_ok s" "i < length (pcs s)" "flight (pcs s ! i) = (x, True)" "holding (pcs s ! i)"
  shows "good i (commit_done now u x (resumed i s))"
proof -
  have h: "holders s = [pcs s ! i]" "holders (resumed i s) = []" using good_resumed(2)[OF assms(1,2,4)] by simp_all
  have "core_ok (ek_buf s) (ek_fwd s) (ek_sent s @ [(u, x, True)]) []"
    using core_sent[of "ek_buf s" "ek_fwd s" "ek_sent s" "pcs s ! i" x True u] assms(1,3) h(1) by (simp add: audio_ok_def)
  moreover have p: "pcs (commit_done now u x t) = pcs t" for t by (simp add: commit_done_def pcs_def)
  ultimately show "good i (commit_done now u x (resumed i s))"
    using h(2) assms(2) by (simp_all add: good_def running_def audio_ok_def holders_def) (simp_all add: commit_done_def)
qed

lemma task_body_ok:
  assumes a: "audio_ok s" "i < length (pcs s)" and e: "resumes now r s (pcs s ! i) \<or> r = GoCancel"
  shows "audio_ok (snd (task_body c now r i (pcs s ! i) (p, resumed i s)))"
proof -
  have g: "good i (resumed i s)" using good_resumed(1)[OF a] .
  have ft: "good i ((resumed i s)\<lparr>ek_want := w\<rparr>)" for w using g by (rule good_want)
  show ?thesis
  proof (cases "pcs s ! i")
    case (QPump who)
    then have "holders (resumed i s) = holders s" using good_resumed(3)[OF a] by (simp add: holding_def)
    moreover have "holders s = []" if "r \<noteq> GoCancel" using e that by (simp add: QPump resumes_def locked_holders)
    ultimately show ?thesis using g
      by (auto simp: QPump task_body_def Let_def intro!: send_fails_ok pump_enter_ok pump_exit_ok)
  next
    case (QDrainLock u who)
    then have "holders (resumed i s) = holders s" using good_resumed(3)[OF a] by (simp add: holding_def)
    moreover have "holders s = []" if "r \<noteq> GoCancel" using e that by (simp add: QDrainLock resumes_def locked_holders)
    ultimately show ?thesis using g
      by (auto simp: QDrainLock task_body_def Let_def intro!: drain_abort_ok drain_locked_ok)
  next
    case (QChunk who u x)
    have k: "flight (pcs s ! i) = (x, False)" "holding (pcs s ! i)" by (simp_all add: QChunk flight_def holding_def)
    have "audio_ok (pump_loop (pump_exit (sp_terminal p) now who i) now who u i (chunk_sent u x (resumed i s)))"
      by (rule pump_loop_ok[OF good_chunk_sent[OF a k] pump_exit_ok])
    then show ?thesis using g
      by (auto simp: QChunk task_body_def Let_def split: stt_in.splits intro!: send_fails_ok pump_exit_ok)
  next
    case (QCommit who u x)
    have k: "flight (pcs s ! i) = (x, True)" "holding (pcs s ! i)" by (simp_all add: QCommit flight_def holding_def)
    show ?thesis using g good_commit_done[OF a k]
      by (auto simp: QCommit task_body_def Let_def split: stt_in.splits intro!: send_fails_ok pump_exit_ok)
  next
    case (QDrainChunk u who x)
    have k: "flight (pcs s ! i) = (x, False)" "holding (pcs s ! i)" by (simp_all add: QDrainChunk flight_def holding_def)
    have "audio_ok (drain_loop u who now i (chunk_sent u x (resumed i s)))" by (rule drain_loop_ok[OF good_chunk_sent[OF a k]])
    then show ?thesis using g
      by (auto simp: QDrainChunk task_body_def Let_def split: stt_in.splits intro!: drain_abort_ok drain_close_ok)
  next
    case (QDrainCommit u who x)
    have k: "flight (pcs s ! i) = (x, True)" "holding (pcs s ! i)" by (simp_all add: QDrainCommit flight_def holding_def)
    show ?thesis using g good_commit_done[OF a k]
      by (auto simp: QDrainCommit task_body_def Let_def split: stt_in.splits intro!: drain_abort_ok drain_close_ok drain_final_ok)
  qed (use g in \<open>auto simp: task_body_def Let_def good_ok holding_def good_ok[OF good_release] good_ok[OF good_life_end]
      good_ok[OF good_fields(5)] split: stt_in.splits option.splits
      intro!: ensure_ok after_ensure_ok pump_ok audio_ok_suspend life_finally_ok connect_failed_ok started_ok connected_ok
        reader_ended_ok drain_begin_ok drain_ready_ok drain_abort_ok drain_close_ok drain_ret_ok good_calls good_refused
        good_fields\<close>)
qed

lemma audio_ok_over: "audio_ok s \<Longrightarrow> audio_ok (task_over i s)"
proof -
  assume a: "audio_ok s"
  show ?thesis
  proof (cases "tk_pc (ek_tasks s ! i) = QRun \<and> i < length (ek_tasks s)")
    case True
    then have "good i s" using a by (simp add: good_def running_def pcs_def)
    then show ?thesis using True by (auto simp: task_over_def holding_def intro: audio_ok_suspend)
  next
    case False
    then have "task_over i s = s" by (auto simp: task_over_def suspend_def upd_task_def list_update_beyond)
    then show ?thesis using a by simp
  qed
qed

lemma task_step_ok:
  assumes "audio_ok s" "task_enabled now r i s"
  shows "audio_ok (snd (task_step c now r i (p, s)))"
proof -
  have i: "i < length (pcs s)" "tk_pc (ek_tasks s ! i) = pcs s ! i" using assms(2) by (simp_all add: task_enabled_def pcs_def)
  have "resumes now r s (pcs s ! i) \<or> r = GoCancel"
    using assms(2) i by (auto simp: task_enabled_def Let_def split: if_splits)
  then have "audio_ok (snd (task_body c now r i (pcs s ! i) (p, resumed i s)))" by (rule task_body_ok[OF assms(1) i(1)])
  then show ?thesis using i(2) by (auto simp: task_step_def audio_ok_over split: prod.splits)
qed

lemma call_step_ok:
  assumes "audio_ok s" "\<And>i s. good i s \<Longrightarrow> audio_ok (snd (f i (p, s)))"
  shows "audio_ok (snd (call_step f (p, s)))"
proof -
  have "good (length (ek_tasks s)) (spawn QRun False s)"
    using assms(1) by (simp add: good_def running_def audio_ok_def holders_def holding_def)
      (simp add: pcs_def spawn_def nth_append)
  from assms(2)[OF this] show ?thesis by (simp add: call_step_def Let_def audio_ok_over split_beta)
qed

text \<open>The steps outside the tasks.\<close>

lemma holders_wake: "(\<And>t. holding (tk_pc (g t)) \<or> holding (tk_pc t) \<Longrightarrow> g t = t) \<Longrightarrow>
   filter holding (map tk_pc (map g ts)) = filter holding (map tk_pc ts)"
proof (induction ts)
  case (Cons t ts)
  have h: "holding (tk_pc (g t)) \<or> holding (tk_pc t) \<Longrightarrow> g t = t" by (rule Cons(2))
  have ih: "filter holding (map tk_pc (map g ts)) = filter holding (map tk_pc ts)" using Cons by blast
  show ?case
  proof (cases "holding (tk_pc (g t)) \<or> holding (tk_pc t)")
    case True
    then show ?thesis using h ih by simp
  next
    case False
    then show ?thesis using ih by simp
  qed
qed simp

lemma audio_ok_events [simp]: "audio_ok s \<Longrightarrow> audio_ok (ready_set u s)" "audio_ok s \<Longrightarrow> audio_ok (final_set u s)"
proof -
  have w: "holding (tk_pc (wake_ready v e t)) \<or> holding (tk_pc t) \<Longrightarrow> wake_ready v e t = t"
    "holding (tk_pc (wake_final v e t)) \<or> holding (tk_pc t) \<Longrightarrow> wake_final v e t = t" for v e t
    by (auto simp: wake_ready_def wake_final_def holding_def split: stt_pc.splits)
  show "audio_ok s \<Longrightarrow> audio_ok (ready_set u s)" "audio_ok s \<Longrightarrow> audio_ok (final_set u s)"
    using holders_wake[OF w(1)] holders_wake[OF w(2)]
    by (simp_all add: audio_ok_def holders_def pcs_def ready_set_def final_set_def upd_up_def)
qed

lemma audio_reader [simp]:
  "audio (set_reader u r s) = audio s" "audio (reader_fails u s) = audio s" "audio (reader_stops u out s) = audio s"
  "audio (note_committed now u s) = audio s" "audio (transcribed now u x b s) = audio s"
  "audio (idle_next s) = audio s"
  by (simp_all add: set_reader_def reader_fails_def reader_stops_def note_committed_def transcribed_def idle_next_def Let_def)

lemma audio_okI: "audio s' = audio s \<Longrightarrow> audio_ok s \<Longrightarrow> audio_ok s'"
  using audio_ok_audio by blast

lemma capacity_ok: "audio_ok s \<Longrightarrow> audio_ok (snd (on_capacity c now u (p, s)))"
  by (rule audio_okI[of _ s]) (simp_all add: on_capacity_def Let_def)

lemma on_message_ok: "audio_ok s \<Longrightarrow> audio_ok (snd (on_message c now u d (p, s)))"
proof -
  assume a: "audio_ok s"
  have r: "audio_ok (reader_stops u out s)" "audio_ok (reader_fails u s)" "audio_ok (transcribed now u x b s)"
    "audio_ok (transcribed now u x b (note_committed now u s))" "audio_ok (note_committed now u s)" for out x b
    by (rule audio_okI[OF _ a], simp)+
  show ?thesis unfolding on_message_def Let_def prod.case by (simp add: a r capacity_ok)
qed

lemma read_ends_ok: "audio_ok s \<Longrightarrow> audio_ok (snd (read_ends c now u code reason (p, s)))"
proof -
  assume a: "audio_ok s"
  have r: "audio_ok (upd_up u g s)" "audio_ok (set_reader u x s)" for g x by (rule audio_okI[OF _ a], simp)+
  show ?thesis by (simp add: read_ends_def Let_def r capacity_ok)
qed

lemma callback_ok: "audio_ok s \<Longrightarrow> audio_ok (callback_ends u e s)"
proof -
  assume a: "audio_ok s"
  have r: "audio_ok (reader_fails u s)" "audio_ok (set_reader u x s)" for x by (rule audio_okI[OF _ a], simp)+
  show ?thesis by (simp add: callback_ends_def Let_def r a split: up_reader.splits)
qed

lemma audio_ok_spawn: "audio_ok s \<Longrightarrow> \<not> holding pc \<Longrightarrow> audio_ok (spawn pc b s)"
  by (simp add: audio_ok_def holders_def) (simp add: spawn_def)

lemma idle_ok: "audio_ok s \<Longrightarrow> audio_ok (idle_step now s)"
proof -
  assume a: "audio_ok s"
  have d: "audio_ok (idle_drain s)"
    using a audio_ok_spawn[of "upd_up u g s" "QDrainNew u" True for u g] audio_okI[of "upd_up u g s" s for u g]
    by (auto simp: idle_drain_def Let_def holding_def split: option.splits)
  have n: "audio_ok (idle_next s)" "audio_ok (idle_next (idle_drain s))" "audio_ok ((clear_busy s)\<lparr>ek_idle := x\<rparr>)" for x
    by (rule audio_okI[OF _ a], simp, rule audio_okI[OF _ d], simp, rule audio_okI[OF _ a], simp)
  show ?thesis by (simp add: idle_step_def a n split: idle_pc.splits option.splits)
qed

lemma degraded_ok: "audio_ok s \<Longrightarrow> audio_ok (provider_degraded s)"
proof -
  assume "audio_ok s"
  then have b: "audio_ok (s\<lparr>ek_buf := []\<rparr>)" using core_clear by (simp add: audio_ok_def holders_def pcs_def)
  show ?thesis by (rule audio_okI[OF _ b]) (simp add: provider_degraded_def Let_def split: option.splits)
qed

lemma act_step_ok: "audio_ok s \<Longrightarrow> audio_ok (snd (stt_act_step c a (p, s)))"
proof -
  assume a: "audio_ok s"
  have r: "audio_ok (reader_fails u s)" "audio_ok (cancel_task i s)" "audio_ok (idle_next s)" "audio_ok (s\<lparr>ek_idle := x\<rparr>)" for u i x
    by (rule audio_okI[OF _ a], simp)+
  show ?thesis
    by (cases a)
      (auto simp: stt_act_step_def a r task_step_ok on_message_ok read_ends_ok callback_ok idle_ok
        intro!: call_step_ok send_audio_ok send_end_ok el_stt_close_ok)
qed

lemma world_audio: "s \<in> set (snd (el_stt_run c acts)) \<Longrightarrow> audio_ok s"
proof -
  have step: "list_all audio_ok (snd (stt_world_step c x w))" if "list_all audio_ok (snd w)" for x w
  proof (cases w)
    case (Pair p ss)
    have d: "list_all audio_ok (snd (settle p p1 ts))" if "list_all audio_ok ts" for p1 ts
      using that degraded_ok by (auto simp: settle_def list_all_iff)
    have n: "audio_ok (new_el_stt c p)"
      by (simp add: new_el_stt_def audio_ok_def holders_def pcs_def core_ok_def flight_ok_def)
    have u: "list_all audio_ok (ss[i := s1])" if i: "i < length ss" "stt_act_step c b (p, ss ! i) = (p1, s1)" for i b p1 s1
    proof -
      have "audio_ok (ss ! i)" using i(1) \<open>list_all audio_ok (snd w)\<close> Pair by (simp add: list_all_iff)
      then have "audio_ok s1" using act_step_ok[of "ss ! i" c b p] i(2) by simp
      then show ?thesis using \<open>list_all audio_ok (snd w)\<close> Pair set_update_subset_insert[of ss i s1]
        by (auto simp: list_all_iff)
    qed
    show ?thesis
      by (cases x) (use that n d u in \<open>auto simp: Pair stt_world_step_def split: prod.splits\<close>)
  qed
  have "list_all audio_ok (snd w) \<Longrightarrow> list_all audio_ok (snd (fold (stt_world_step c) xs w))" for xs w
    by (induction xs arbitrary: w) (simp_all add: step)
  then show "s \<in> set (snd (el_stt_run c acts)) \<Longrightarrow> audio_ok s" by (force simp: el_stt_run_def list_all_iff)
qed

end
