(* ===== verification/Eleven_STT_Terminal.thy ===== *)
theory Eleven_STT_Terminal
  imports Eleven_STT_Audio
begin

text \<open>
  A session of theory Eleven\_STT has at most one task of a connection (\<open>life_ok\<close>), so a provider that becomes
  terminal can stop it: from then on its registered sessions stay without audio, degraded and without a connection that
  goes on (\<open>hushed\<close>).
\<close>

section \<open>The task of the connection\<close>

definition who_up :: "stt_who \<Rightarrow> nat option" where
  "who_up w = (case w of WLife u \<Rightarrow> Some u | _ \<Rightarrow> None)"

lemma who_up_simps [simp]:
  "who_up (WLife u) = Some u" "who_up (WAudio e) = None" "who_up WEnd = None" "who_up WTimer = None" "who_up WRespawn = None"
  by (simp_all add: who_up_def)

text \<open>The connection whose task is at this point.\<close>

definition life_up :: "stt_pc \<Rightarrow> nat option" where
  "life_up pc =
     (case pc of QNew u \<Rightarrow> Some u | QConnect u re \<Rightarrow> Some u | QStarted u re t \<Rightarrow> Some u | QNotReady u re \<Rightarrow> Some u
      | QConnBusy u re \<Rightarrow> Some u | QReader u \<Rightarrow> Some u | QClosing u \<Rightarrow> Some u | QBackoff u a b t \<Rightarrow> Some u
      | QFinal u b \<Rightarrow> Some u | QPump w \<Rightarrow> who_up w | QChunk w u x \<Rightarrow> who_up w | QCommit w u x \<Rightarrow> who_up w | _ \<Rightarrow> None)"

text \<open>A task of a connection is the last one started, and its connection the one of the session.\<close>

definition one_life :: "stt_pc list \<Rightarrow> nat option \<Rightarrow> nat option \<Rightarrow> bool" where
  "one_life ps life conn \<longleftrightarrow> (\<forall>j<length ps. \<forall>u. life_up (ps ! j) = Some u \<longrightarrow> life = Some j \<and> conn = Some u)
     \<and> (\<forall>j. life = Some j \<longrightarrow> j < length ps)"

lemma one_lifeD:
  "one_life ps life conn \<Longrightarrow> j < length ps \<Longrightarrow> life_up (ps ! j) = Some u \<Longrightarrow> life = Some j \<and> conn = Some u"
  unfolding one_life_def by blast

lemma one_lifeI:
  "(\<And>j u. j < length ps \<Longrightarrow> life_up (ps ! j) = Some u \<Longrightarrow> life = Some j \<and> conn = Some u) \<Longrightarrow>
   (\<And>j. life = Some j \<Longrightarrow> j < length ps) \<Longrightarrow> one_life ps life conn"
  unfolding one_life_def by blast

lemma one_life_length: "one_life ps life conn \<Longrightarrow> life = Some j \<Longrightarrow> j < length ps"
  unfolding one_life_def by blast

definition life_ok :: "el_stt \<Rightarrow> bool" where
  "life_ok s = one_life (pcs s) (ek_life s) (ek_conn s)"

text \<open>The running task, with its connection if it is the task of one.\<close>

definition alive :: "nat \<Rightarrow> nat option \<Rightarrow> el_stt \<Rightarrow> bool" where
  "alive i own s \<longleftrightarrow>
     running i s \<and> life_ok s \<and> (own = None \<or> ek_life s = Some i \<and> ek_conn s = own)"

definition shape :: "el_stt \<Rightarrow> stt_pc list \<times> nat option \<times> nat option" where
  "shape s = (pcs s, ek_life s, ek_conn s)"

lemma alive_shape: "shape s' = shape s \<Longrightarrow> alive i own s \<Longrightarrow> alive i own s'"
  by (simp add: shape_def alive_def running_def life_ok_def)

lemma life_ok_shape: "shape s' = shape s \<Longrightarrow> life_ok s \<Longrightarrow> life_ok s'"
  by (simp add: shape_def life_ok_def)

lemma alive_ok: "alive i own s \<Longrightarrow> life_ok s"
  by (simp add: alive_def)

lemma shape_simps [simp]:
  "shape (upd_up u f s) = shape s" "shape (stt_call c s) = shape s" "shape (stt_set_busy k s) = shape s"
  "shape (clear_busy s) = shape s" "shape (trim_buffer s) = shape s" "shape (begin_commit u s) = shape s"
  "shape (chunk_sent u x s) = shape s" "shape (commit_done now u x s) = shape s" "shape (ensure_refused s) = shape s"
  by (simp_all add: upd_up_def stt_call_def stt_set_busy_def clear_busy_def trim_buffer_def begin_commit_def chunk_sent_def
      commit_done_def ensure_refused_def Let_def)
    (simp_all add: shape_def pcs_def)

lemma shape_fields [simp]:
  "shape (s\<lparr>ek_uncommitted := c\<rparr>) = shape s" "shape (s\<lparr>ek_want := c\<rparr>) = shape s" "shape (s\<lparr>ek_since := c\<rparr>) = shape s"
  "shape (s\<lparr>ek_timer := t\<rparr>) = shape s" "shape (s\<lparr>ek_health := h\<rparr>) = shape s" "shape (s\<lparr>ek_buf := b\<rparr>) = shape s"
  "shape (s\<lparr>ek_cooldown := n\<rparr>) = shape s" "shape (s\<lparr>ek_closed := c\<rparr>) = shape s" "shape (s\<lparr>ek_closed_evt := c\<rparr>) = shape s"
  "shape (s\<lparr>ek_registered := c\<rparr>) = shape s" "shape (s\<lparr>ek_last_fwd := t1\<rparr>) = shape s" "shape (s\<lparr>ek_fwd := b\<rparr>) = shape s"
  "shape (s\<lparr>ek_last_transcript := t1\<rparr>) = shape s" "shape (s\<lparr>ek_idle := i\<rparr>) = shape s" "shape (s\<lparr>ek_gate := g\<rparr>) = shape s"
  by (simp_all add: shape_def pcs_def)

lemma shape_cancel_task [simp]: "shape (cancel_task i s) = shape s"
  using audio_cancel_task[of i s] permits_cancel_task[of i s]
  by (simp add: shape_def audio_def permits_def)
    (simp add: cancel_task_def upd_task_def upd_up_def Let_def split: stt_pc.splits)

lemma shape_fold_cancel [simp]: "shape (fold cancel_task js s) = shape s"
  by (induction js arbitrary: s) simp_all

lemma shape_close_final [simp]: "shape (close_final s) = shape s"
  by (simp add: close_final_def Let_def)

lemma alive_simps:
  "alive i own s \<Longrightarrow> alive i own (upd_up u f s)" "alive i own s \<Longrightarrow> alive i own (stt_set_busy k s)"
  "alive i own s \<Longrightarrow> alive i own (clear_busy s)" "alive i own s \<Longrightarrow> alive i own (trim_buffer s)"
  "alive i own s \<Longrightarrow> alive i own (begin_commit u s)" "alive i own s \<Longrightarrow> alive i own (ensure_refused s)"
  "alive i own s \<Longrightarrow> alive i own (s\<lparr>ek_buf := b\<rparr>)" "alive i own s \<Longrightarrow> alive i own (s\<lparr>ek_want := c\<rparr>)"
  "alive i own s \<Longrightarrow> alive i own (s\<lparr>ek_health := h\<rparr>)" "alive i own s \<Longrightarrow> alive i own (s\<lparr>ek_closed := c\<rparr>)"
  "alive i own s \<Longrightarrow> alive i own (cancel_task j s)" "alive i own s \<Longrightarrow> alive i own (close_final s)"
  "alive i own s \<Longrightarrow> alive i own (chunk_sent u x s)" "alive i own s \<Longrightarrow> alive i own (commit_done now u x s)"
  by (rule alive_shape; simp)+

lemma suspend_fields: "ek_life (suspend i pc s) = ek_life s" "ek_conn (suspend i pc s) = ek_conn s"
  by (simp_all add: suspend_def upd_task_def)

lemma spawn_fields: "ek_life (spawn pc b s) = ek_life s" "ek_conn (spawn pc b s) = ek_conn s"
  by (simp_all add: spawn_def)

lemma life_suspend:
  assumes "alive i own s" "life_up pc = None \<or> life_up pc = own"
  shows "life_ok (suspend i pc s)"
proof -
  have r: "i < length (pcs s)" "one_life (pcs s) (ek_life s) (ek_conn s)" using assms(1)
    by (simp_all add: alive_def running_def life_ok_def)
  have h: "ek_life s = Some j \<and> ek_conn s = Some u" if "j < length (pcs s)" "life_up ((pcs s)[i := pc] ! j) = Some u" for j u
  proof (cases "j = i")
    case True
    then have "own = Some u" using that r(1) assms(2) by simp
    then show ?thesis using assms(1) True by (simp add: alive_def)
  next
    case False
    then show ?thesis using that one_lifeD[OF r(2)] by simp
  qed
  have "one_life ((pcs s)[i := pc]) (ek_life s) (ek_conn s)"
  proof (rule one_lifeI)
    show "ek_life s = Some j \<and> ek_conn s = Some u"
      if "j < length ((pcs s)[i := pc])" "life_up ((pcs s)[i := pc] ! j) = Some u" for j u
      by (rule h) (use that in simp_all)
    show "j < length ((pcs s)[i := pc])" if "ek_life s = Some j" for j using one_life_length[OF r(2) that] by simp
  qed
  then show ?thesis by (simp add: life_ok_def suspend_fields)
qed

lemma life_spawn: "life_ok s \<Longrightarrow> life_up pc = None \<Longrightarrow> life_ok (spawn pc b s)"
proof -
  assume l: "life_ok s" and p: "life_up pc = None"
  have k: "one_life (pcs s) (ek_life s) (ek_conn s)" using l by (simp add: life_ok_def)
  have h: "ek_life s = Some j \<and> ek_conn s = Some u" if "j < Suc (length (pcs s))" "life_up ((pcs s @ [pc]) ! j) = Some u" for j u
  proof (cases "j = length (pcs s)")
    case True
    then show ?thesis using that p by simp
  next
    case False
    then have "j < length (pcs s)" "(pcs s @ [pc]) ! j = pcs s ! j" using that(1) by (simp_all add: nth_append)
    then show ?thesis using that(2) one_lifeD[OF k] by simp
  qed
  have "one_life (pcs s @ [pc]) (ek_life s) (ek_conn s)"
  proof (rule one_lifeI)
    show "ek_life s = Some j \<and> ek_conn s = Some u"
      if "j < length (pcs s @ [pc])" "life_up ((pcs s @ [pc]) ! j) = Some u" for j u
      by (rule h) (use that in simp_all)
    show "j < length (pcs s @ [pc])" if "ek_life s = Some j" for j using one_life_length[OF k that] by simp
  qed
  then show ?thesis by (simp add: life_ok_def spawn_fields)
qed

lemma alive_spawn: "alive i own s \<Longrightarrow> life_up pc = None \<Longrightarrow> alive i own (spawn pc b s)"
  using life_spawn[of s pc b] by (simp add: alive_def running_def nth_append spawn_fields)

lemma alive_schedule: "alive i own s \<Longrightarrow> alive i own (schedule_commit t s)"
  using alive_shape[of "(spawn (QTimer t) True s)\<lparr>ek_timer := Some (length (ek_tasks s))\<rparr>" "spawn (QTimer t) True s"]
    alive_spawn[of i own s "QTimer t"] by (simp add: schedule_commit_def life_up_def)

lemma life_pump_loop:
  assumes "alive i own s" "who_up who = None \<or> who_up who = own" "\<And>s. alive i own s \<Longrightarrow> life_ok (ex s)"
  shows "life_ok (pump_loop ex now who u i s)"
  using assms(1,2) assms(3)[OF alive_schedule]
  by (auto simp: pump_loop_def Let_def life_up_def assms(3) intro!: life_suspend alive_simps)

lemma life_pump_enter:
  assumes "alive i own s" "who_up who = None \<or> who_up who = own" "\<And>s. alive i own s \<Longrightarrow> life_ok (ex s)"
  shows "life_ok (pump_enter ex now who i s)"
  using assms by (auto simp: pump_enter_def Let_def life_pump_loop split: option.splits)

lemma life_pump_start:
  assumes "alive i own s" "who_up who = None \<or> who_up who = own" "\<And>s. alive i own s \<Longrightarrow> life_ok (ex s)"
  shows "life_ok (pump_start ex now who i s)"
  using assms by (auto simp: pump_start_def life_up_def intro!: life_suspend life_pump_enter)

lemma life_plain_exit:
  "alive i own s \<Longrightarrow> who_up who = None \<or> who_up who = own \<Longrightarrow> life_ok (plain_exit who i s)"
  by (auto simp: plain_exit_def alive_ok life_up_def who_up_def split: stt_who.splits intro!: life_suspend)

lemma life_send_end: "alive i own s \<Longrightarrow> life_ok (stt_send_end tm now i s)"
  by (auto simp: stt_send_end_def alive_ok who_up_def intro!: life_pump_start life_plain_exit alive_simps)

lemma life_pump_exit:
  "alive i own s \<Longrightarrow> who_up who = None \<or> who_up who = own \<Longrightarrow> life_ok (pump_exit tm now who i s)"
  by (auto simp: pump_exit_def alive_ok life_send_end life_plain_exit split: stt_who.splits)

lemma life_pump: "alive i own s \<Longrightarrow> who_up who = None \<or> who_up who = own \<Longrightarrow> life_ok (pump tm now who i s)"
  unfolding pump_def by (rule life_pump_start[OF _ _ life_pump_exit])

lemma life_after_ensure: "alive i own s \<Longrightarrow> life_ok (after_ensure tm now who i s)"
  by (auto simp: after_ensure_def alive_ok who_up_def split: stt_who.splits option.splits
      intro!: life_pump life_pump_exit alive_simps)

lemma life_open: "alive i own s \<Longrightarrow> ek_conn s = None \<Longrightarrow> alive i None (open_upstream s)"
proof -
  assume a: "alive i own s" and c: "ek_conn s = None"
  let ?u = "length (ek_ups s)" and ?n = "length (ek_tasks s)"
  have r: "i < length (pcs s)" "pcs s ! i = QRun" "one_life (pcs s) (ek_life s) (ek_conn s)" and n: "?n = length (pcs s)"
    using a by (simp_all add: alive_def running_def life_ok_def pcs_def)
  have f: "pcs (open_upstream s) = pcs s @ [QNew ?u]" "ek_life (open_upstream s) = Some ?n" "ek_conn (open_upstream s) = Some ?u"
    by (simp_all add: open_upstream_def Let_def spawn_def pcs_def)
  have "one_life (pcs s @ [QNew ?u]) (Some ?n) (Some ?u)"
  proof (rule one_lifeI)
    fix j v assume j: "j < length (pcs s @ [QNew ?u])" "life_up ((pcs s @ [QNew ?u]) ! j) = Some v"
    show "Some ?n = Some j \<and> Some ?u = Some v"
    proof (cases "j = length (pcs s)")
      case True
      then show ?thesis using j(2) n by (simp add: life_up_def)
    next
      case False
      then have "j < length (pcs s)" "life_up (pcs s ! j) = Some v" using j by (simp_all add: nth_append)
      from one_lifeD[OF r(3) this] show ?thesis using c by simp
    qed
  qed (simp add: n)
  then show ?thesis using r f by (simp add: alive_def running_def life_ok_def nth_append)
qed

lemma alive_None: "alive i own s \<Longrightarrow> alive i None s"
  by (simp add: alive_def)

lemma life_ensure: "alive i own s \<Longrightarrow> life_ok (snd (ensure_upstream now who i (p, s)))"
  by (auto simp: ensure_upstream_def Let_def life_up_def
      intro!: life_after_ensure life_suspend[OF alive_simps(2)] life_suspend[OF alive_simps(3)] alive_simps life_open)

lemma life_send_audio: "alive i own s \<Longrightarrow> life_ok (snd (stt_send_audio c now frame i (p, s)))"
proof -
  assume a: "alive i own s"
  obtain chunks ended s1 where f: "stt_feed c frame s = (chunks, ended, s1)" by (cases "stt_feed c frame s") auto
  then have h: "shape s1 = shape s" by (auto simp: stt_feed_def split: option.splits prod.splits)
  let ?x = "pcm_of chunks"
  let ?s2 = "s1\<lparr>ek_buf := ek_buf s @ ?x, ek_fwd := ek_fwd s @ ?x, ek_uncommitted := True, ek_since := True, ek_last_fwd := Some now\<rparr>"
  have "alive i own s1" "alive i own ?s2" using a h by (auto intro: alive_shape)
  then show ?thesis using a
    by (auto simp: stt_send_audio_def f Let_def alive_ok who_up_def intro!: life_pump_exit life_ensure)
qed

lemma shape_release [simp]: "shape (snd (release_permit u (p, s))) = shape s"
  by (auto simp: release_permit_def)

lemma life_life_end: "alive i (Some u) s \<Longrightarrow> life_ok (snd (life_end u b (p, s)))"
proof -
  assume a: "alive i (Some u) s"
  have r: "i < length (pcs s)" "pcs s ! i = QRun" "one_life (pcs s) (ek_life s) (ek_conn s)" "ek_life s = Some i" "ek_conn s = Some u"
    using a by (auto simp: alive_def running_def life_ok_def)
  have "one_life (pcs s) (ek_life s) None"
  proof (rule one_lifeI)
    fix j v assume j: "j < length (pcs s)" "life_up (pcs s ! j) = Some v"
    then have "j = i" using one_lifeD[OF r(3)] r(4) by simp
    then show "ek_life s = Some j \<and> None = Some v" using j(2) r(2) by (simp add: life_up_def)
  qed (rule one_life_length[OF r(3)])
  then have l: "life_ok (s\<lparr>ek_conn := None\<rparr>)" by (simp add: life_ok_def pcs_def)
  obtain p1 s1 where q: "release_permit u (p, s\<lparr>ek_conn := None\<rparr>) = (p1, s1)" by fastforce
  have "life_ok s1" using life_ok_shape[OF _ l, of s1] q shape_release[of u p "s\<lparr>ek_conn := None\<rparr>"] by simp
  then show ?thesis using q r(5) by (auto simp: life_end_def Let_def life_up_def intro: life_spawn)
qed

lemma life_life_finally: "alive i (Some u) s \<Longrightarrow> life_ok (snd (life_finally u b i (p, s)))"
  by (auto simp: life_finally_def life_up_def life_life_end intro!: life_suspend)

lemma life_send_fails: "alive i (who_up who) s \<Longrightarrow> life_ok (snd (send_fails who i (p, s)))"
  by (auto simp: send_fails_def who_up_def alive_ok life_life_finally split: stt_who.splits)

lemma life_connect_failed: "alive i (Some u) s \<Longrightarrow> life_ok (snd (connect_failed c now u re tf err i (p, s)))"
proof -
  assume a: "alive i (Some u) s"
  have "alive i (Some u) (s\<lparr>ek_buf := [], ek_uncommitted := False, ek_cooldown := n\<rparr>)" for n
    by (rule alive_shape[OF _ a]) simp
  then show ?thesis using a
    by (auto simp: connect_failed_def Let_def life_up_def split: option.splits
        intro!: life_life_finally life_suspend alive_simps)
qed

lemma life_connected: "alive i (Some u) s \<Longrightarrow> life_ok (snd (connected_up now u re i (p, s)))"
  by (auto simp: connected_up_def who_up_def intro!: life_pump alive_simps)

lemma life_started: "alive i (Some u) s \<Longrightarrow> life_ok (snd (started_up now u re i (p, s)))"
  by (auto simp: started_up_def Let_def life_up_def
      intro!: life_connected life_suspend[OF alive_simps(1)] life_suspend[OF alive_simps(3)] alive_simps)

lemma life_reader_ended: "alive i (Some u) s \<Longrightarrow> life_ok (snd (reader_ended c now u i (p, s)))"
  by (auto simp: reader_ended_def Let_def life_up_def intro!: life_life_finally life_suspend[OF alive_simps(9)])

lemma life_close_final: "life_ok s \<Longrightarrow> life_ok (close_final s)"
  by (rule life_ok_shape) simp_all

lemma life_close_wait: "alive i own s \<Longrightarrow> life_ok (close_wait now i s)"
  by (auto simp: close_wait_def life_up_def alive_ok intro!: life_suspend life_close_final)

lemma life_drain_ret: "alive i own s \<Longrightarrow> life_ok (drain_ret w now i s)"
  by (auto simp: drain_ret_def alive_ok life_close_wait split: drain_who.splits)

lemma life_drain_abort: "alive i own s \<Longrightarrow> life_ok (drain_abort w s)"
  by (auto simp: drain_abort_def alive_ok life_close_final split: drain_who.splits)

lemma life_drain_close: "alive i own s \<Longrightarrow> life_ok (drain_close u w now i s)"
  by (auto simp: drain_close_def Let_def life_up_def intro!: life_suspend[OF alive_simps(1)] life_drain_ret alive_simps)

lemma life_drain_loop: "alive i own s \<Longrightarrow> life_ok (drain_loop u w now i s)"
  by (auto simp: drain_loop_def life_up_def intro!: life_suspend life_drain_close alive_simps)

lemma life_drain_locked: "alive i own s \<Longrightarrow> life_ok (drain_locked u w now i s)"
  by (simp add: drain_locked_def life_drain_close life_drain_loop)

lemma life_drain_ready: "alive i own s \<Longrightarrow> life_ok (drain_ready u w now i s)"
  by (auto simp: drain_ready_def life_up_def intro!: life_suspend life_drain_close life_drain_locked)

lemma life_drain_begin: "alive i own s \<Longrightarrow> life_ok (drain_begin u w now i s)"
  by (auto simp: drain_begin_def Let_def life_up_def
      intro!: life_suspend life_drain_close life_drain_ready life_drain_ret)

lemma life_drain_final: "alive i own s \<Longrightarrow> life_ok (drain_final u w now i s)"
  by (auto simp: drain_final_def life_up_def intro!: life_suspend life_drain_close)

lemma life_stt_close: "alive i own s \<Longrightarrow> life_ok (el_stt_close now i s)"
  by (auto simp: el_stt_close_def Let_def alive_ok split: option.splits
      intro!: life_drain_begin alive_simps life_close_final[OF alive_ok[OF alive_simps(10)]])

lemma alive_resumed:
  assumes "life_ok s" "i < length (pcs s)"
  shows "alive i (life_up (pcs s ! i)) (resumed i s)"
proof -
  have k: "one_life (pcs s) (ek_life s) (ek_conn s)" using assms(1) by (simp add: life_ok_def)
  have f: "ek_life (resumed i s) = ek_life s" "ek_conn (resumed i s) = ek_conn s" by (simp_all add: upd_task_def)
  have "one_life ((pcs s)[i := QRun]) (ek_life s) (ek_conn s)"
  proof (rule one_lifeI)
    fix j v assume j: "j < length ((pcs s)[i := QRun])" "life_up ((pcs s)[i := QRun] ! j) = Some v"
    then have "j \<noteq> i" by (auto simp: life_up_def)
    then show "ek_life s = Some j \<and> ek_conn s = Some v" using j by (intro one_lifeD[OF k]) simp_all
  next
    show "j < length ((pcs s)[i := QRun])" if "ek_life s = Some j" for j using one_life_length[OF k that] by simp
  qed
  moreover have "life_up (pcs s ! i) = None \<or> ek_life s = Some i \<and> ek_conn s = life_up (pcs s ! i)"
    using one_lifeD[OF k assms(2)] by (cases "life_up (pcs s ! i)") simp_all
  ultimately show ?thesis using assms(2) by (simp add: alive_def running_def life_ok_def f)
qed

lemma life_task_body:
  assumes "life_ok s" "i < length (pcs s)"
  shows "life_ok (snd (task_body c now r i (pcs s ! i) (p, resumed i s)))"
proof -
  have a: "alive i (life_up (pcs s ! i)) (resumed i s)" using assms by (rule alive_resumed)
  show ?thesis
    by (cases "pcs s ! i")
      (use a in \<open>auto simp: task_body_def Let_def alive_ok life_up_def split: stt_in.splits option.splits
        intro!: life_ensure life_after_ensure life_pump life_suspend life_life_finally life_connect_failed life_started
          life_connected life_reader_ended life_drain_begin life_drain_ready life_drain_abort life_drain_close life_drain_ret
          life_drain_locked life_drain_loop life_drain_final life_pump_enter life_pump_exit life_pump_loop life_send_fails
          life_life_end life_close_final alive_simps life_ok_shape[OF shape_release]\<close>)
qed

lemma life_over_step: "life_ok s \<Longrightarrow> life_ok (task_over i s)"
proof -
  assume l: "life_ok s"
  show ?thesis
  proof (cases "tk_pc (ek_tasks s ! i) = QRun \<and> i < length (ek_tasks s)")
    case True
    then have "alive i None s" using l by (simp add: alive_def running_def pcs_def)
    then show ?thesis using True by (auto simp: task_over_def life_up_def intro!: life_suspend)
  next
    case False
    then have "task_over i s = s" by (auto simp: task_over_def suspend_def upd_task_def list_update_beyond)
    then show ?thesis using l by simp
  qed
qed

lemma life_task_step:
  assumes "life_ok s" "task_enabled now r i s"
  shows "life_ok (snd (task_step c now r i (p, s)))"
proof -
  have i: "i < length (pcs s)" "tk_pc (ek_tasks s ! i) = pcs s ! i" using assms(2) by (simp_all add: task_enabled_def pcs_def)
  have "life_ok (snd (task_body c now r i (pcs s ! i) (p, resumed i s)))" by (rule life_task_body[OF assms(1) i(1)])
  then show ?thesis using i(2) by (simp add: task_step_def life_over_step split_beta)
qed

lemma life_call_step:
  assumes "life_ok s" "\<And>i s. alive i None s \<Longrightarrow> life_ok (snd (f i (p, s)))"
  shows "life_ok (snd (call_step f (p, s)))"
proof -
  have "life_ok (spawn QRun False s)" using assms(1) by (simp add: life_spawn life_up_def)
  then have "alive (length (ek_tasks s)) None (spawn QRun False s)"
    by (simp add: alive_def running_def pcs_def spawn_def nth_append)
  from assms(2)[OF this] show ?thesis by (simp add: call_step_def Let_def life_over_step split_beta)
qed

lemma one_life_map:
  "length ps = length qs \<Longrightarrow> (\<And>j. j < length ps \<Longrightarrow> life_up (ps ! j) = life_up (qs ! j)) \<Longrightarrow>
   one_life qs l c \<Longrightarrow> one_life ps l c"
  by (rule one_lifeI) (metis one_lifeD, metis one_life_length)

lemma life_events: "life_ok s \<Longrightarrow> life_ok (ready_set u s)" "life_ok s \<Longrightarrow> life_ok (final_set u s)"
proof -
  have w: "life_up (tk_pc (wake_ready v e t)) = life_up (tk_pc t)" "life_up (tk_pc (wake_final v e t)) = life_up (tk_pc t)" for v e t
    by (auto simp: wake_ready_def wake_final_def life_up_def split: stt_pc.splits)
  have k: "life_ok (s\<lparr>ek_tasks := map g (ek_tasks s)\<rparr>)"
    if "life_ok s" "\<And>t. life_up (tk_pc (g t)) = life_up (tk_pc t)" for g
    using that(1) by (simp add: life_ok_def pcs_def) (erule one_life_map[rotated 2]; simp add: that(2))
  show "life_ok s \<Longrightarrow> life_ok (ready_set u s)" "life_ok s \<Longrightarrow> life_ok (final_set u s)"
    unfolding ready_set_def final_set_def
    by (rule life_ok_shape[OF shape_simps(1)], rule k, assumption, rule w)+
qed

lemma shape_reader [simp]:
  "shape (set_reader u r s) = shape s" "shape (reader_fails u s) = shape s" "shape (reader_stops u out s) = shape s"
  "shape (note_committed now u s) = shape s" "shape (transcribed now u x b s) = shape s" "shape (idle_next s) = shape s"
  by (simp_all add: set_reader_def reader_fails_def reader_stops_def note_committed_def transcribed_def idle_next_def Let_def)

lemma life_capacity: "life_ok s \<Longrightarrow> life_ok (snd (on_capacity c now u (p, s)))"
  by (rule life_ok_shape[of _ s]) (simp_all add: on_capacity_def Let_def)

lemma life_on_message: "life_ok s \<Longrightarrow> life_ok (snd (on_message c now u d (p, s)))"
proof -
  assume a: "life_ok s"
  have r: "life_ok (reader_stops u out s)" "life_ok (reader_fails u s)" "life_ok (transcribed now u x b s)"
    "life_ok (transcribed now u x b (note_committed now u s))" "life_ok (note_committed now u s)" for out x b
    by (rule life_ok_shape[OF _ a], simp)+
  show ?thesis unfolding on_message_def Let_def prod.case by (simp add: a r life_capacity life_events)
qed

lemma life_read_ends: "life_ok s \<Longrightarrow> life_ok (snd (read_ends c now u code reason (p, s)))"
proof -
  assume a: "life_ok s"
  have r: "life_ok (upd_up u g s)" "life_ok (set_reader u x s)" for g x by (rule life_ok_shape[OF _ a], simp)+
  show ?thesis by (simp add: read_ends_def Let_def r life_capacity)
qed

lemma life_callback: "life_ok s \<Longrightarrow> life_ok (callback_ends u e s)"
proof -
  assume a: "life_ok s"
  have r: "life_ok (reader_fails u s)" "life_ok (set_reader u x s)" for x by (rule life_ok_shape[OF _ a], simp)+
  show ?thesis by (simp add: callback_ends_def Let_def r a life_events split: up_reader.splits)
qed

lemma life_idle: "life_ok s \<Longrightarrow> life_ok (idle_step now s)"
proof -
  assume a: "life_ok s"
  have u: "life_ok (upd_up u g s)" for u g by (rule life_ok_shape[OF _ a]) simp
  have d: "life_ok (idle_drain s)"
    by (auto simp: idle_drain_def Let_def life_up_def a u split: option.splits intro!: life_spawn)
  have n: "life_ok (idle_next s)" "life_ok (idle_next (idle_drain s))" "life_ok ((clear_busy s)\<lparr>ek_idle := x\<rparr>)" for x
    by (rule life_ok_shape[OF _ a], simp, rule life_ok_shape[OF _ d], simp, rule life_ok_shape[OF _ a], simp)
  show ?thesis by (simp add: idle_step_def a n split: idle_pc.splits option.splits)
qed

lemma life_act_step: "life_ok s \<Longrightarrow> life_ok (snd (stt_act_step c a (p, s)))"
proof -
  assume a: "life_ok s"
  have r: "life_ok (reader_fails u s)" "life_ok (cancel_task i s)" "life_ok (idle_next s)" "life_ok (s\<lparr>ek_idle := x\<rparr>)" for u i x
    by (rule life_ok_shape[OF _ a], simp)+
  show ?thesis
    by (cases a)
      (auto simp: stt_act_step_def a r life_task_step life_on_message life_read_ends life_callback life_idle
        intro!: life_call_step life_send_audio life_send_end life_stt_close)
qed

lemma life_degraded: "life_ok s \<Longrightarrow> life_ok (provider_degraded s)"
  by (erule life_ok_shape[rotated]) (simp add: provider_degraded_def Let_def split: option.splits)

section \<open>The terminal state\<close>

definition silent :: "el_stt \<Rightarrow> bool" where
  "silent s \<longleftrightarrow> ek_buf s = [] \<and> \<not> ek_uncommitted s \<and> \<not> ek_want s \<and> hstate (ek_health s) = DEGRADED"

text \<open>A task that is about to end: a connection's task was cancelled or closes its socket.\<close>

definition ending :: "stt_task \<Rightarrow> bool" where
  "ending t \<longleftrightarrow> life_up (tk_pc t) = None \<or> tk_cancel t \<or> (\<exists>u b. tk_pc t = QFinal u b)"

definition hushed :: "el_stt \<Rightarrow> bool" where
  "hushed s \<longleftrightarrow> silent s \<and> list_all ending (ek_tasks s)"

definition quiet :: "nat \<Rightarrow> el_stt \<Rightarrow> bool" where
  "quiet i s \<longleftrightarrow> running i s \<and> hushed s"

definition muted :: "el_stt \<Rightarrow> bytes \<times> bool \<times> bool \<times> connection_state \<times> stt_task list" where
  "muted s = (ek_buf s, ek_uncommitted s, ek_want s, hstate (ek_health s), ek_tasks s)"

lemma hushed_muted: "muted s' = muted s \<Longrightarrow> hushed s \<Longrightarrow> hushed s'"
  by (simp add: muted_def hushed_def silent_def)

lemma quiet_muted: "muted s' = muted s \<Longrightarrow> quiet i s \<Longrightarrow> quiet i s'"
  by (simp add: muted_def quiet_def running_def pcs_def hushed_def silent_def)

lemma muted_simps [simp]:
  "muted (upd_up u f s) = muted s" "muted (stt_call c s) = muted s" "muted (stt_set_busy k s) = muted s"
  "muted (clear_busy s) = muted s"
  by (simp_all add: upd_up_def stt_call_def stt_set_busy_def clear_busy_def) (simp_all add: muted_def)

lemma muted_fields [simp]:
  "muted (s\<lparr>ek_since := c\<rparr>) = muted s" "muted (s\<lparr>ek_conn := u\<rparr>) = muted s" "muted (s\<lparr>ek_cooldown := n\<rparr>) = muted s"
  "muted (s\<lparr>ek_closed := c\<rparr>) = muted s" "muted (s\<lparr>ek_closed_evt := c\<rparr>) = muted s" "muted (s\<lparr>ek_idle := i\<rparr>) = muted s"
  "muted (s\<lparr>ek_registered := c\<rparr>) = muted s" "muted (s\<lparr>ek_last_transcript := t1\<rparr>) = muted s"
  "muted (s\<lparr>ek_gate := g\<rparr>) = muted s" "muted (s\<lparr>ek_sent := l\<rparr>) = muted s" "muted (s\<lparr>ek_last_commit := t2\<rparr>) = muted s"
  by (simp_all add: muted_def)

lemma list_all_update: "list_all P xs \<Longrightarrow> P y \<Longrightarrow> list_all P (xs[i := y])"
  using set_update_subset_insert[of xs i y] by (auto simp: list_all_iff)

lemma hushed_suspend:
  "hushed s \<Longrightarrow> life_up pc = None \<or> (\<exists>u b. pc = QFinal u b) \<Longrightarrow> hushed (suspend i pc s)"
  by (auto simp: hushed_def silent_def suspend_def upd_task_def ending_def intro!: list_all_update)

lemma hushed_spawn: "hushed s \<Longrightarrow> life_up pc = None \<Longrightarrow> hushed (spawn pc b s)"
  by (auto simp: hushed_def silent_def spawn_def ending_def)

lemma hushed_cancel: "hushed s \<Longrightarrow> hushed (cancel_task j s)"
proof -
  assume h: "hushed s"
  have k: "hushed (upd_task j (\<lambda>t. t\<lparr>tk_cancel := True\<rparr>) s1)" if "hushed s1" for s1
    using that by (auto simp: hushed_def silent_def upd_task_def ending_def intro!: list_all_update)
  have "hushed (upd_up u g s)" for u g by (rule hushed_muted[OF _ h]) simp
  then show ?thesis using h k by (auto simp: cancel_task_def Let_def split: stt_pc.splits)
qed

lemma hushed_close_final: "hushed s \<Longrightarrow> hushed (close_final s)"
proof -
  assume h: "hushed s"
  have f: "hushed (fold cancel_task js t)" if "hushed t" for js t
    using that by (induction js arbitrary: t) (simp_all add: hushed_cancel)
  have "hushed (s\<lparr>ek_closed_evt := True, ek_registered := False\<rparr>)" by (rule hushed_muted[OF _ h]) simp
  then show ?thesis using f by (simp add: close_final_def Let_def)
qed

lemma hushed_simps:
  "hushed s \<Longrightarrow> hushed (upd_up u g s)" "hushed s \<Longrightarrow> hushed (s\<lparr>ek_closed := c\<rparr>)" "hushed s \<Longrightarrow> hushed (commit_done now u x s)"
  by (erule hushed_muted[rotated]; simp add: commit_done_def)+

lemma hushed_buffer:
  "hushed s \<Longrightarrow> hushed (ensure_refused s)" "hushed s \<Longrightarrow> hushed (chunk_sent u x s)" "hushed s \<Longrightarrow> trim_buffer s = s"
  by (simp_all add: hushed_def silent_def ensure_refused_def chunk_sent_def trim_buffer_def)

lemma hushed_fields: "hushed s \<Longrightarrow> ek_buf s = []" "hushed s \<Longrightarrow> \<not> ek_want s" "hushed s \<Longrightarrow> \<not> ek_uncommitted s"
  by (simp_all add: hushed_def silent_def)

lemma MIN_pos: "\<not> MIN_CHUNK_BYTES \<le> 0"
  by (simp add: MIN_CHUNK_BYTES_def PCM_BYTES_PER_S_def)

lemma hushed_pump_loop: "hushed s \<Longrightarrow> pump_loop ex now who u i s = ex s"
  using MIN_pos by (simp add: pump_loop_def hushed_fields)

lemma hushed_loop: "hushed s \<Longrightarrow> hushed (ex s) \<Longrightarrow> hushed (pump_loop ex now who u i s)"
  by (simp add: hushed_pump_loop)

lemma hushed_pump_enter: "hushed s \<Longrightarrow> hushed (ex s) \<Longrightarrow> hushed (pump_enter ex now who i s)"
  by (simp add: pump_enter_def hushed_pump_loop Let_def split: option.splits)

lemma hushed_pump_start: "hushed s \<Longrightarrow> hushed (ex s) \<Longrightarrow> who_up who = None \<Longrightarrow> hushed (pump_start ex now who i s)"
  by (simp add: pump_start_def hushed_pump_enter hushed_suspend life_up_def)

lemma hushed_pump_exit: "hushed s \<Longrightarrow> who_up who = None \<Longrightarrow> hushed (pump_exit True now who i s)"
  by (auto simp: pump_exit_def stt_send_end_def plain_exit_def split: stt_who.splits)

lemma hushed_pump: "hushed s \<Longrightarrow> who_up who = None \<Longrightarrow> hushed (pump True now who i s)"
  by (simp add: pump_def hushed_pump_start hushed_pump_exit)

lemma hushed_after_ensure: "hushed s \<Longrightarrow> hushed (after_ensure True now who i s)"
  by (auto simp: after_ensure_def hushed_buffer(3) split: stt_who.splits option.splits
      intro!: hushed_pump hushed_pump_exit)

lemma hushed_ensure: "hushed s \<Longrightarrow> sp_terminal p \<Longrightarrow> hushed (snd (ensure_upstream now who i (p, s)))"
  by (simp add: ensure_upstream_def hushed_after_ensure Let_def)

lemma hushed_release: "hushed s \<Longrightarrow> hushed (snd (release_permit u (p, s)))"
  by (auto simp: release_permit_def intro: hushed_simps)

lemma hushed_life_end: "hushed s \<Longrightarrow> hushed (snd (life_end u b (p, s)))"
proof -
  assume h: "hushed s"
  let ?s0 = "if ek_conn s = Some u then s\<lparr>ek_conn := None\<rparr> else s"
  obtain p1 s1 where r: "release_permit u (p, ?s0) = (p1, s1)" by fastforce
  have "hushed ?s0" by (rule hushed_muted[OF _ h]) simp
  then have "hushed s1" using hushed_release[of ?s0 u p] r by simp
  then show ?thesis by (simp add: life_end_def r Let_def hushed_spawn life_up_def)
qed

lemma hushed_life_finally: "hushed s \<Longrightarrow> hushed (snd (life_finally u b i (p, s)))"
  by (auto simp: life_finally_def hushed_life_end intro!: hushed_suspend)

lemma hushed_send_fails: "hushed s \<Longrightarrow> hushed (snd (send_fails who i (p, s)))"
  by (simp add: send_fails_def hushed_life_finally split: stt_who.splits)

lemma hushed_close_wait: "hushed s \<Longrightarrow> hushed (close_wait now i s)"
  by (simp add: close_wait_def hushed_close_final hushed_suspend life_up_def)

lemma hushed_drain_ret: "hushed s \<Longrightarrow> hushed (drain_ret w now i s)"
  by (simp add: drain_ret_def hushed_close_wait split: drain_who.splits)

lemma hushed_drain_abort: "hushed s \<Longrightarrow> hushed (drain_abort w s)"
  by (simp add: drain_abort_def hushed_close_final split: drain_who.splits)

lemma hushed_drain_close: "hushed s \<Longrightarrow> hushed (drain_close u w now i s)"
  by (simp add: drain_close_def Let_def hushed_drain_ret hushed_suspend hushed_simps life_up_def)

lemma hushed_drain_loop: "hushed s \<Longrightarrow> hushed (drain_loop u w now i s)"
  using MIN_pos by (simp add: drain_loop_def hushed_fields hushed_drain_close)

lemma hushed_drain_locked: "hushed s \<Longrightarrow> hushed (drain_locked u w now i s)"
  by (simp add: drain_locked_def hushed_drain_close hushed_drain_loop)

lemma hushed_drain_ready: "hushed s \<Longrightarrow> hushed (drain_ready u w now i s)"
  by (simp add: drain_ready_def hushed_drain_close hushed_drain_locked hushed_suspend life_up_def)

lemma hushed_drain_begin: "hushed s \<Longrightarrow> hushed (drain_begin u w now i s)"
  by (simp add: drain_begin_def Let_def hushed_fields hushed_drain_close hushed_drain_ret)

lemma hushed_drain_final: "hushed s \<Longrightarrow> hushed (drain_final u w now i s)"
  by (simp add: drain_final_def hushed_drain_close hushed_suspend life_up_def)

lemma hushed_stt_close: "hushed s \<Longrightarrow> hushed (el_stt_close now i s)"
  by (auto simp: el_stt_close_def Let_def split: option.splits
      intro!: hushed_drain_begin hushed_simps hushed_close_final)

lemma hushed_resumed: "hushed s \<Longrightarrow> hushed (resumed i s)"
  by (auto simp: hushed_def silent_def upd_task_def ending_def life_up_def intro!: list_all_update)

lemma hushed_task_body:
  assumes "hushed s" "sp_terminal p" "life_up pc = None \<or> r = GoCancel \<or> (\<exists>u b. pc = QFinal u b)"
  shows "hushed (snd (task_body c now r i pc (p, resumed i s)))"
proof -
  have h: "hushed (resumed i s)" using assms(1) by (rule hushed_resumed)
  show ?thesis
    by (cases pc)
      (use h assms(2,3) in \<open>auto simp: task_body_def Let_def life_up_def split: stt_in.splits option.splits
        intro!: hushed_loop hushed_ensure hushed_after_ensure hushed_pump hushed_suspend hushed_life_finally hushed_drain_begin
          hushed_drain_ready hushed_drain_abort hushed_drain_close hushed_drain_ret hushed_drain_locked hushed_drain_loop
          hushed_drain_final hushed_pump_enter hushed_pump_exit hushed_send_fails hushed_life_end hushed_release
          hushed_close_final hushed_cancel hushed_buffer(1,2) hushed_simps\<close>)
qed

lemma hushed_over: "hushed s \<Longrightarrow> hushed (task_over i s)"
  by (auto simp: task_over_def life_up_def intro: hushed_suspend)

lemma hushed_task_step:
  assumes "hushed s" "sp_terminal p" "task_enabled now r i s"
  shows "hushed (snd (task_step c now r i (p, s)))"
proof -
  have "ending (ek_tasks s ! i)" using assms(1,3) by (auto simp: hushed_def task_enabled_def list_all_length)
  then have "life_up (tk_pc (ek_tasks s ! i)) = None \<or> r = GoCancel \<or> (\<exists>u b. tk_pc (ek_tasks s ! i) = QFinal u b)"
    using assms(3) by (auto simp: ending_def task_enabled_def Let_def)
  from hushed_task_body[OF assms(1,2) this] show ?thesis by (simp add: task_step_def hushed_over split_beta)
qed

lemma hushed_call_step:
  assumes "hushed s" "\<And>i s. hushed s \<Longrightarrow> hushed (snd (f i (p, s)))"
  shows "hushed (snd (call_step f (p, s)))"
  using assms by (simp add: call_step_def Let_def hushed_over hushed_spawn life_up_def split_beta)

text \<open>The steps outside the tasks; those that end in \<open>_mark_terminal\<close> again are followed by \<open>settle\<close>.\<close>

lemma hushed_wake: "list_all ending ts \<Longrightarrow> list_all ending (map (wake_ready u e) ts)"
  "list_all ending ts \<Longrightarrow> list_all ending (map (wake_final u e) ts)"
proof -
  have "ending t \<Longrightarrow> ending (wake_ready u e t)" "ending t \<Longrightarrow> ending (wake_final u e t)" for t
    by (cases "tk_pc t"; simp add: ending_def wake_ready_def wake_final_def life_up_def)+
  then show "list_all ending ts \<Longrightarrow> list_all ending (map (wake_ready u e) ts)"
    "list_all ending ts \<Longrightarrow> list_all ending (map (wake_final u e) ts)"
    by (induction ts) simp_all
qed

lemma hushed_events: "hushed s \<Longrightarrow> hushed (ready_set u s)" "hushed s \<Longrightarrow> hushed (final_set u s)"
  by (auto simp: hushed_def silent_def ready_set_def final_set_def upd_up_def hushed_wake)

lemma hushed_reader:
  "hushed s \<Longrightarrow> hushed (set_reader u r s)" "hushed s \<Longrightarrow> hushed (reader_fails u s)" "hushed s \<Longrightarrow> hushed (reader_stops u out s)"
  "hushed s \<Longrightarrow> hushed (transcribed now u x b s)" "hushed s \<Longrightarrow> hushed (idle_next s)"
  by (erule hushed_muted[rotated]; simp add: set_reader_def reader_fails_def reader_stops_def transcribed_def idle_next_def)+

lemma hushed_note: "hushed s \<Longrightarrow> hushed (note_committed now u s)"
proof -
  assume h: "hushed s"
  have u: "hushed (x\<lparr>ek_uncommitted := False\<rparr>)" if "hushed x" for x using that by (simp add: hushed_def silent_def)
  show ?thesis by (simp add: note_committed_def Let_def h u hushed_simps(1))
qed

lemma hushed_capacity: "hushed s \<Longrightarrow> hushed (snd (on_capacity c now u (p, s)))"
  by (rule hushed_muted[of _ s]) (simp_all add: on_capacity_def set_reader_def Let_def)

lemma hushed_on_message: "hushed s \<Longrightarrow> hushed (snd (on_message c now u d (p, s)))"
  unfolding on_message_def Let_def prod.case
  by (simp add: hushed_events hushed_reader hushed_note hushed_capacity)

lemma hushed_read_ends: "hushed s \<Longrightarrow> hushed (snd (read_ends c now u code reason (p, s)))"
  by (simp add: read_ends_def Let_def hushed_reader hushed_simps(1) hushed_capacity)

lemma hushed_callback: "hushed s \<Longrightarrow> hushed (callback_ends u e s)"
  by (simp add: callback_ends_def Let_def hushed_reader hushed_events split: up_reader.splits)

lemma hushed_idle: "hushed s \<Longrightarrow> hushed (idle_step now s)"
proof -
  assume h: "hushed s"
  have d: "hushed (idle_drain s)"
    by (auto simp: idle_drain_def Let_def life_up_def h intro!: hushed_spawn hushed_simps(1) split: option.splits)
  have c: "hushed ((clear_busy s)\<lparr>ek_idle := x\<rparr>)" for x by (rule hushed_muted[OF _ h]) simp
  show ?thesis by (simp add: idle_step_def h d c hushed_reader(5) split: idle_pc.splits option.splits)
qed

lemma hushed_send_audio: "hushed s \<Longrightarrow> sp_terminal p \<Longrightarrow> hushed (snd (stt_send_audio c now frame i (p, s)))"
  by (simp add: stt_send_audio_def)

lemma hushed_send_end: "hushed s \<Longrightarrow> hushed (stt_send_end True now i s)"
  by (simp add: stt_send_end_def)

lemma hushed_act_step: "hushed s \<Longrightarrow> sp_terminal p \<Longrightarrow> hushed (snd (stt_act_step c a (p, s)))"
proof -
  assume a: "hushed s" "sp_terminal p"
  have r: "hushed (s\<lparr>ek_idle := x\<rparr>)" for x by (rule hushed_muted[OF _ a(1)]) simp
  show ?thesis
    by (cases a)
      (auto simp: stt_act_step_def a r hushed_task_step hushed_on_message hushed_read_ends hushed_callback hushed_idle
        hushed_cancel hushed_reader intro!: hushed_call_step hushed_send_audio hushed_send_end hushed_stt_close)
qed

lemma hushed_degraded: "life_ok s \<Longrightarrow> hushed (provider_degraded s)"
proof -
  assume l: "life_ok s"
  define s1 where "s1 = s\<lparr>ek_buf := [], ek_uncommitted := False, ek_want := False, ek_health := set_state DEGRADED (ek_health s)\<rparr>"
  have k: "one_life (map tk_pc (ek_tasks s)) (ek_life s) (ek_conn s)" using l by (simp add: life_ok_def pcs_def)
  have e: "ending (ek_tasks s ! j)" if "j < length (ek_tasks s)" "ek_life s \<noteq> Some j" for j
    using one_lifeD[OF k, of j] that by (cases "life_up (tk_pc (ek_tasks s ! j))") (auto simp: ending_def)
  show ?thesis
  proof (cases "ek_life s")
    case None
    then show ?thesis using e by (simp add: provider_degraded_def hushed_def silent_def list_all_length)
  next
    case (Some n)
    have n: "n < length (ek_tasks s)" using one_life_length[OF k Some] by simp
    let ?g = "\<lambda>t. t\<lparr>tk_cancel := True\<rparr>"
    have "provider_degraded s = cancel_task n s1" using Some by (simp add: provider_degraded_def s1_def)
    moreover have "hushed (upd_task n ?g t)" if "muted t = muted s1" for t
    proof -
      have t: "silent t" "ek_tasks t = ek_tasks s" using that by (auto simp: muted_def silent_def s1_def)
      have "list_all ending ((ek_tasks s)[n := ?g (ek_tasks s ! n)])"
        unfolding list_all_length using e n Some by (auto simp: nth_list_update ending_def)
      then show ?thesis using t by (simp add: hushed_def silent_def upd_task_def)
    qed
    moreover have "hushed s1" if "tk_pc (ek_tasks s ! n) = QDone"
    proof -
      have "ending (ek_tasks s ! j)" if "j < length (ek_tasks s)" for j
        using e[OF that] \<open>tk_pc (ek_tasks s ! n) = QDone\<close> Some by (cases "j = n") (auto simp: ending_def life_up_def)
      then show ?thesis by (simp add: s1_def hushed_def silent_def list_all_length)
    qed
    ultimately show ?thesis by (auto simp: cancel_task_def Let_def s1_def split: stt_pc.splits)
  qed
qed

text \<open>Nothing but the end of \<open>close\<close> changes whether a session is registered.\<close>

lemma reg_basic [simp]:
  "ek_registered (upd_up u f s) = ek_registered s" "ek_registered (upd_task i g s) = ek_registered s"
  "ek_registered (suspend i pc s) = ek_registered s" "ek_registered (spawn pc b s) = ek_registered s"
  "ek_registered (stt_call c s) = ek_registered s" "ek_registered (stt_set_busy k s) = ek_registered s"
  "ek_registered (clear_busy s) = ek_registered s" "ek_registered (ready_set u s) = ek_registered s"
  "ek_registered (final_set u s) = ek_registered s" "ek_registered (trim_buffer s) = ek_registered s"
  by (simp_all add: upd_up_def upd_task_def suspend_def spawn_def stt_call_def stt_set_busy_def clear_busy_def ready_set_def
      final_set_def trim_buffer_def Let_def)

lemma reg_cancel [simp]: "ek_registered (cancel_task i s) = ek_registered s"
  by (simp add: cancel_task_def Let_def split: stt_pc.splits)

lemma reg_send [simp]:
  "ek_registered (schedule_commit t s) = ek_registered s" "ek_registered (begin_commit u s) = ek_registered s"
  "ek_registered (chunk_sent u c s) = ek_registered s" "ek_registered (commit_done now u c s) = ek_registered s"
  "ek_registered (plain_exit who i s) = ek_registered s" "ek_registered (ensure_refused s) = ek_registered s"
  by (simp_all add: schedule_commit_def begin_commit_def chunk_sent_def commit_done_def plain_exit_def ensure_refused_def
      split: stt_who.splits)

lemma reg_pump_start:
  assumes "\<And>s. ek_registered (ex s) = ek_registered s"
  shows "ek_registered (pump_loop ex now who u i s) = ek_registered s"
    "ek_registered (pump_enter ex now who i s) = ek_registered s" "ek_registered (pump_start ex now who i s) = ek_registered s"
  by (simp_all add: pump_start_def pump_enter_def pump_loop_def assms Let_def split: option.splits)

lemma reg_pump_exit [simp]: "ek_registered (pump_exit tm now who i s) = ek_registered s"
  by (simp add: pump_exit_def stt_send_end_def reg_pump_start split: stt_who.splits)

lemma reg_pump [simp]:
  "ek_registered (pump tm now who i s) = ek_registered s" "ek_registered (stt_send_end tm now i s) = ek_registered s"
  "ek_registered (after_ensure tm now who i s) = ek_registered s"
  by (simp_all add: pump_def reg_pump_start stt_send_end_def after_ensure_def split: stt_who.splits option.splits)

lemma reg_ensure [simp]:
  "ek_registered (snd (ensure_upstream now who i (p, s))) = ek_registered s"
  "ek_registered (snd (stt_send_audio c now frame i (p, s))) = ek_registered s"
proof -
  show e: "ek_registered (snd (ensure_upstream now who i (p, s))) = ek_registered s" for who i p s
    by (simp add: ensure_upstream_def open_upstream_def Let_def)
  obtain chunks ended s1 where f: "stt_feed c frame s = (chunks, ended, s1)" by (cases "stt_feed c frame s") auto
  then have "ek_registered s1 = ek_registered s" by (auto simp: stt_feed_def split: option.splits prod.splits)
  then show "ek_registered (snd (stt_send_audio c now frame i (p, s))) = ek_registered s"
    by (simp add: stt_send_audio_def f e Let_def)
qed

lemma reg_life [simp]:
  "ek_registered (snd (release_permit u (p, s))) = ek_registered s" "ek_registered (snd (life_end u b (p, s))) = ek_registered s"
  by (simp_all add: life_end_def release_permit_def Let_def split_beta)

lemma reg_life2 [simp]:
  "ek_registered (snd (life_finally u b i (p, s))) = ek_registered s" "ek_registered (snd (send_fails who i (p, s))) = ek_registered s"
  "ek_registered (snd (connected_up now u re i (p, s))) = ek_registered s"
  by (simp_all add: life_finally_def send_fails_def connected_up_def split: stt_who.splits)

lemma reg_life3 [simp]:
  "ek_registered (snd (connect_failed c now u re tf err i (p, s))) = ek_registered s"
  "ek_registered (snd (started_up now u re i (p, s))) = ek_registered s"
  "ek_registered (snd (reader_ended c now u i (p, s))) = ek_registered s"
  by (simp_all add: connect_failed_def started_up_def reader_ended_def Let_def split: option.splits)

lemma reg_close [simp]: "\<not> ek_registered (close_final s)"
proof -
  have "ek_registered (fold cancel_task js t) = ek_registered t" for js t by (induction js arbitrary: t) simp_all
  then show ?thesis by (simp add: close_final_def Let_def)
qed

lemma reg_drain:
  "ek_registered (close_wait now i s) \<Longrightarrow> ek_registered s" "ek_registered (drain_ret w now i s) \<Longrightarrow> ek_registered s"
  "ek_registered (drain_abort w s) \<Longrightarrow> ek_registered s" "ek_registered (drain_close u w now i s) \<Longrightarrow> ek_registered s"
  "ek_registered (drain_loop u w now i s) \<Longrightarrow> ek_registered s" "ek_registered (drain_locked u w now i s) \<Longrightarrow> ek_registered s"
  "ek_registered (drain_ready u w now i s) \<Longrightarrow> ek_registered s" "ek_registered (drain_begin u w now i s) \<Longrightarrow> ek_registered s"
  "ek_registered (drain_final u w now i s) \<Longrightarrow> ek_registered s" "ek_registered (el_stt_close now i s) \<Longrightarrow> ek_registered s"
  by (auto simp: close_wait_def drain_ret_def drain_abort_def drain_close_def drain_loop_def drain_locked_def drain_ready_def
      drain_begin_def drain_final_def el_stt_close_def Let_def split: if_splits drain_who.splits option.splits)

lemma reg_resumed: "ek_registered (resumed i s) = ek_registered s"
  by simp

lemma reg_task_body:
  "ek_registered (snd (task_body c now r i pc (p, s))) \<Longrightarrow> ek_registered s"
  by (cases pc; cases r)
    (auto simp: task_body_def Let_def reg_pump_start split: option.splits dest: reg_drain)

lemma reg_over [simp]: "ek_registered (task_over i s) = ek_registered s"
  by (simp add: task_over_def)

lemma reg_reader [simp]:
  "ek_registered (set_reader u r s) = ek_registered s" "ek_registered (reader_fails u s) = ek_registered s"
  "ek_registered (reader_stops u out s) = ek_registered s" "ek_registered (note_committed now u s) = ek_registered s"
  "ek_registered (transcribed now u x b s) = ek_registered s" "ek_registered (callback_ends u e s) = ek_registered s"
  "ek_registered (idle_next s) = ek_registered s" "ek_registered (idle_drain s) = ek_registered s"
  by (simp_all add: set_reader_def reader_fails_def reader_stops_def note_committed_def transcribed_def callback_ends_def
      idle_next_def idle_drain_def Let_def split: up_reader.splits option.splits)

lemma reg_messages [simp]:
  "ek_registered (snd (on_capacity c now u (p, s))) = ek_registered s"
  "ek_registered (snd (on_message c now u d (p, s))) = ek_registered s"
  "ek_registered (snd (read_ends c now u code reason (p, s))) = ek_registered s"
  "ek_registered (idle_step now s) = ek_registered s" "ek_registered (provider_degraded s) = ek_registered s"
proof -
  show k: "ek_registered (snd (on_capacity c now u (p, s))) = ek_registered s" for c now u p s
    by (simp add: on_capacity_def Let_def)
  show "ek_registered (snd (on_message c now u d (p, s))) = ek_registered s"
    unfolding on_message_def Let_def prod.case by (simp add: k)
  show "ek_registered (snd (read_ends c now u code reason (p, s))) = ek_registered s"
    by (simp add: read_ends_def Let_def k)
qed (simp_all add: idle_step_def provider_degraded_def Let_def split: idle_pc.splits option.splits)

lemma reg_act_step: "ek_registered (snd (stt_act_step c a (p, s))) \<Longrightarrow> ek_registered s"
  by (cases a)
    (auto simp: stt_act_step_def call_step_def task_step_def split_beta Let_def split: if_splits
      dest: reg_task_body reg_drain)

text \<open>The flag of the provider, with the counter of \<open>_mark_terminal\<close>.\<close>

definition marked :: "stt_provider \<Rightarrow> nat \<times> bool" where
  "marked p = (sp_auth_errors p, sp_terminal p)"

definition mark_step :: "stt_provider \<Rightarrow> stt_provider \<Rightarrow> bool" where
  "mark_step p p1 \<longleftrightarrow> marked p1 = marked p \<or> sp_auth_errors p1 = Suc (sp_auth_errors p) \<and> sp_terminal p1"

lemma marked_simps [simp]:
  "marked (stt_record_success now p) = marked p" "marked (sent_bytes c p) = marked p"
  "marked (p\<lparr>sp_sem := n\<rparr>) = marked p" "marked (p\<lparr>sp_429 := n\<rparr>) = marked p" "marked (p\<lparr>sp_refusals := n\<rparr>) = marked p"
  "marked (p\<lparr>sp_opens := n\<rparr>) = marked p" "marked (p\<lparr>sp_probe := b\<rparr>) = marked p"
  by (simp_all add: marked_def stt_record_success_def sent_bytes_def)

lemma marked_life [simp]:
  "marked (fst (release_permit u (p, s))) = marked p" "marked (fst (ensure_upstream now who i (p, s))) = marked p"
  "marked (fst (on_capacity c now u (p, s))) = marked p"
  by (simp_all add: release_permit_def ensure_upstream_def on_capacity_def Let_def)

lemma marked_life2 [simp]:
  "marked (fst (life_end u b (p, s))) = marked p" "marked (fst (stt_send_audio c now frame i (p, s))) = marked p"
  by (simp_all add: life_end_def stt_send_audio_def Let_def split_beta)

lemma marked_life3 [simp]: "marked (fst (life_finally u b i (p, s))) = marked p"
  by (simp add: life_finally_def)

lemma marked_life4 [simp]:
  "marked (fst (send_fails who i (p, s))) = marked p" "marked (fst (connect_failed c now u re tf err i (p, s))) = marked p"
  "marked (fst (connected_up now u re i (p, s))) = marked p" "marked (fst (reader_ended c now u i (p, s))) = marked p"
  by (simp_all add: send_fails_def connect_failed_def connected_up_def reader_ended_def Let_def
      split: stt_who.splits option.splits)

lemma marked_started [simp]: "marked (fst (started_up now u re i (p, s))) = marked p"
  by (simp add: started_up_def Let_def)

lemma mark_same: "marked p1 = marked p \<Longrightarrow> mark_step p p1"
  by (simp add: mark_step_def)

lemma mark_terminal_step: "mark_step p (stt_mark_terminal k p)" "mark_step p (stt_connect_error k p)"
  by (auto simp: mark_step_def marked_def stt_mark_terminal_def stt_connect_error_def)

lemma mark_task_body: "mark_step p (fst (task_body c now r i pc (p, s)))"
proof -
  have k: "mark_step p p1" if "marked p1 = marked (stt_connect_error e p)" for p1 e
    using mark_terminal_step(2)[of p e] that by (auto simp: mark_step_def marked_def)
  show ?thesis
  proof (cases "\<exists>u re e. pc = QConnect u re \<and> r = GoRefused e")
    case True
    then show ?thesis by (auto simp: task_body_def Let_def intro!: k)
  next
    case False
    then show ?thesis
      by (cases pc; cases r) (auto simp: task_body_def Let_def intro!: mark_same split: option.splits)
  qed
qed

lemma mark_act_step: "mark_step p (fst (stt_act_step c a (p, s)))"
proof (cases a)
  case (STask now i r)
  then show ?thesis using mark_task_body[of p c now r i] mark_same[of p p]
    by (simp add: stt_act_step_def task_step_def split_beta)
next
  case (SMessage now u d)
  have "mark_step p (fst (on_message c now u d (p, s)))"
    unfolding on_message_def Let_def prod.case by (simp add: mark_same mark_terminal_step)
  then show ?thesis using mark_same[of p p] by (simp add: SMessage stt_act_step_def)
next
  case (SReadEnds now u code reason)
  then show ?thesis using mark_terminal_step
    by (auto simp: stt_act_step_def read_ends_def Let_def mark_same)
qed (simp_all add: stt_act_step_def call_step_def Let_def split_beta mark_same)

lemma mark_probe: "mark_step p (snd (stt_probe_once now r p))"
  by (auto simp: stt_probe_once_def stt_probe_failed_def Let_def mark_terminal_step split: stt_probe.splits
      intro!: mark_same) (simp_all add: marked_def)

definition world_hushed :: "stt_world \<Rightarrow> bool" where
  "world_hushed w \<longleftrightarrow>
     (\<forall>s\<in>set (snd w). life_ok s \<and> (sp_terminal (fst w) \<and> ek_registered s \<longrightarrow> hushed s))"

lemma world_hushed_settle:
  assumes "mark_step p p1" "\<And>s. s \<in> set ss \<Longrightarrow> life_ok s"
    and "marked p1 = marked p \<Longrightarrow> world_hushed (p1, ss)"
  shows "world_hushed (settle p p1 ss)"
proof (cases "sp_auth_errors p1 = sp_auth_errors p")
  case True
  then have "marked p1 = marked p" using assms(1) by (simp add: mark_step_def)
  then show ?thesis using True assms(3) by (simp add: settle_def)
next
  case False
  have "life_ok t \<and> (ek_registered t \<longrightarrow> hushed t)"
    if "t \<in> set (map (\<lambda>s. if ek_registered s then provider_degraded s else s) ss)" for t
    using that assms(2) life_degraded hushed_degraded by auto
  then show ?thesis using False by (simp add: settle_def world_hushed_def del: set_map)
qed

lemma world_step_hushed: "world_hushed w \<Longrightarrow> world_hushed (stt_world_step c a w)"
proof -
  assume w: "world_hushed w"
  obtain p ss where ps: "w = (p, ss)" by fastforce
  have l: "life_ok s" if "s \<in> set ss" for s using w that by (simp add: ps world_hushed_def)
  show ?thesis
  proof (cases a)
    case POpen
    have "life_ok (new_el_stt c p)" "sp_terminal p \<Longrightarrow> hushed (new_el_stt c p)"
      by (simp_all add: new_el_stt_def life_ok_def one_life_def pcs_def hushed_def silent_def new_health_def)
    then show ?thesis using w by (auto simp: POpen ps stt_world_step_def world_hushed_def)
  next
    case (PSession i b)
    show ?thesis
    proof (cases "i < length ss")
      case True
      obtain p1 s1 where st: "stt_act_step c b (p, ss ! i) = (p1, s1)" by fastforce
      have i: "ss ! i \<in> set ss" using True by simp
      have l1: "life_ok s1" using life_act_step[OF l[OF i], of c b p] st by simp
      have "world_hushed (p1, ss[i := s1])" if m: "marked p1 = marked p"
      proof -
        have "hushed s1" if "sp_terminal p" "ek_registered s1"
        proof -
          have "ek_registered (ss ! i)" using reg_act_step[of c b p "ss ! i"] st that(2) by simp
          then have "hushed (ss ! i)" using w i that(1) by (simp add: ps world_hushed_def)
          from hushed_act_step[OF this that(1), of c b] show ?thesis using st by simp
        qed
        then show ?thesis using m w l1 set_update_subset_insert[of ss i s1]
          by (auto simp: ps world_hushed_def marked_def)
      qed
      moreover have "life_ok t" if "t \<in> set (ss[i := s1])" for t
        using that l l1 set_update_subset_insert[of ss i s1] by auto
      moreover have "mark_step p p1" using mark_act_step[of p c b "ss ! i"] st by simp
      ultimately show ?thesis using True by (simp add: PSession ps stt_world_step_def st world_hushed_settle)
    qed (use w in \<open>simp add: PSession ps stt_world_step_def\<close>)
  next
    case (PProbe now r)
    have "world_hushed (p1, ss)" if "marked p1 = marked p" for p1 using that w by (simp add: ps world_hushed_def marked_def)
    then show ?thesis using mark_probe[of p now r] l
      by (auto simp: PProbe ps stt_world_step_def intro!: world_hushed_settle)
  qed (use w in \<open>simp add: ps stt_world_step_def world_hushed_def\<close>)
qed

lemma world_hushed_run: "world_hushed (el_stt_run c acts)"
proof -
  have "world_hushed w \<Longrightarrow> world_hushed (fold (stt_world_step c) acts w)" for w
    by (induction acts arbitrary: w) (simp_all add: world_step_hushed)
  moreover have "world_hushed (new_stt_provider, [])" by (simp add: world_hushed_def)
  ultimately show ?thesis unfolding el_stt_run_def by blast
qed

end
