(* ===== verification/Eleven_STT_Guarantees.thy ===== *)
theory Eleven_STT_Guarantees
  imports Eleven_STT_Terminal
begin

text \<open>
  What the ElevenLabs speech-to-text provider and its sessions guarantee in every interleaving, and three runs in
  which the code loses audio or confirms a phrase that has not ended.
\<close>

section \<open>Runs\<close>

definition demo_stt :: stt_cfg where
  "demo_stt = \<lparr>kc_gate = None, kc_initial = 1, kc_max_backoff = 30, kc_max_duration = 300\<rparr>"

text \<open>A frame of one sample, and the messages of a session.\<close>

definition one_frame :: bytes where "one_frame = [0, 0, 0, 0]"

definition started_msg :: dict where "started_msg = [(''message_type'', JStr ''session_started'')]"

lemma classify_bare: "classify_close None None = KOther"
  by code_simp

lemma one_frame_pcm: "pcm_of [one_frame] = [0, 0]"
  by (simp add: pcm_of_def one_frame_def f32le_to_s16le_def f32_of_nat_def s16_sample_def s16_bytes_def py_int_def Let_def)

text \<open>
  A connection is drained for idleness, its socket falls while the drain waits for the transcript and new audio has come: the
  session reconnects, but the drain ends while the socket opens, and the new connection keeps the mark of the drain.
\<close>

definition deaf_acts :: "stt_world_act list" where
  "deaf_acts = POpen # map (PSession 0)
     [SIdleStart, SAudio 0 one_frame, STask 0 1 GoOk, STask 1 1 GoOk, SMessage 1 0 started_msg, STask 1 1 GoOk,
      SIdle 6, STask 6 2 GoOk, STask 6 2 GoOk, SAudio 7 one_frame, SReadEnds 7 0 None None, STask 7 1 GoOk, STask 7 1 GoOk,
      STask 8 2 GoTimeout, STask 8 2 GoOk, STask 8 1 GoOk, SMessage 8 0 started_msg, STask 8 1 GoOk]"

definition deaf_more :: "stt_world_act list" where
  "deaf_more = map (PSession 0) [SAudio 9 one_frame, SEnd 10, SIdle 20, SAudio 21 one_frame, SEnd 22, SIdle 30]"

lemmas el_stt_run_defs =
  el_stt_run_def stt_world_step_def new_el_stt_def new_stt_provider_def stt_act_step_def call_step_def spawn_def
  stt_send_audio_def stt_feed_def ensure_upstream_def open_upstream_def after_ensure_def pump_exit_def plain_exit_def
  trim_buffer_def task_over_def suspend_def upd_task_def task_enabled_def resumes_def send_in_def connect_in_def task_step_def
  task_body_def settle_def on_message_def ready_set_def wake_ready_def upd_up_def socket_open_def new_up_def started_up_def
  connected_up_def pump_def pump_start_def pump_enter_def pump_loop_def locked_def holding_def stt_send_end_def

lemmas stt_eval_defs =
  el_stt_run_defs demo_stt_def started_msg_def one_frame_pcm dget_def idle_next_def idle_step_def idle_drain_def drain_begin_def
  drain_ready_def drain_locked_def drain_loop_def drain_close_def drain_ret_def drain_final_def begin_commit_def commit_done_def
  sent_bytes_def read_ends_def reader_ended_def stt_record_success_def reader_active_def MAX_SESSIONS_def
  SESSION_STARTED_TIMEOUT_S_def BUF_CAP_def PCM_BYTES_PER_S_def MIN_CHUNK_BYTES_def IDLE_CLOSE_S_def DRAIN_S_def

lemma deaf_session:
  "\<exists>p s. el_stt_run demo_stt deaf_acts = (p, [s]) \<and> map tk_pc (ek_tasks s) = [QDone, QReader 0, QDone, QDone]
     \<and> ek_conn s = Some 0 \<and> up_ready (upstream s 0) \<and> \<not> up_closing (upstream s 0) \<and> up_reader (upstream s 0) = UpReading
     \<and> up_draining (upstream s 0) \<and> hstate (ek_health s) = CONNECTED \<and> ek_buf s = [0, 0] \<and> length (ek_sent s) = 1"
  by (simp add: stt_eval_defs deaf_acts_def classify_bare Let_def)

lemma deaf_session_more:
  "\<exists>p s. el_stt_run demo_stt (deaf_acts @ deaf_more) = (p, [s]) \<and> ek_buf s = [0, 0, 0, 0, 0, 0] \<and> length (ek_sent s) = 1
     \<and> up_draining (upstream s 0)"
  by (simp add: stt_eval_defs deaf_acts_def deaf_more_def classify_bare Let_def)

text \<open>
  A phrase ends while its connection opens, which then is refused: its audio is dropped, but not the wish to confirm, so the
  next phrase is confirmed with its first chunk.
\<close>

definition stale_acts :: "stt_world_act list" where
  "stale_acts = POpen # map (PSession 0)
     [SAudio 0 one_frame, STask 0 1 GoOk, SEnd 1, STask 2 1 (GoRefused (WsFails TimeoutError)), SAudio 4 one_frame,
      STask 4 4 GoOk, STask 4 4 GoOk, SMessage 4 1 started_msg, STask 4 4 GoOk, STask 4 4 GoOk]"

lemma stale_session:
  "\<exists>p s. el_stt_run demo_stt stale_acts = (p, [s]) \<and> ek_sent s = [(1, [0, 0], True)] \<and> ek_fwd s = [0, 0, 0, 0]"
  by (simp add: stt_eval_defs stale_acts_def classify_exception_def connect_failed_def life_finally_def life_end_def
      release_permit_def stt_connect_error_def commit_wait_def Let_def)

text \<open>
  A session is closed while its connection opens. The drain waits for the event of the connection, which the attempt
  replaces by a new one: the session starts in time, but the drain waits to its limit and closes with the audio unsent.
\<close>

definition closing_acts :: "stt_world_act list" where
  "closing_acts = POpen # map (PSession 0)
     [SAudio 0 one_frame, STask 0 1 GoOk, SClose 1, STask 1 1 GoOk, SMessage 1 0 started_msg, STask 1 1 GoOk,
      STask (5 / 2) 2 GoTimeout, STask 3 2 GoOk, SReadEnds 3 0 None None, STask 3 1 GoOk, STask 3 1 GoOk, STask 3 1 GoOk,
      STask 3 2 GoOk]"

lemma closing_session:
  "\<exists>p s. el_stt_run demo_stt closing_acts = (p, [s]) \<and> ek_sent s = [] \<and> ek_fwd s = [0, 0] \<and> sp_opens p = 1
     \<and> ek_closed_evt s \<and> map tk_pc (ek_tasks s) = [QDone, QDone, QDone] \<and> ek_conn s = None"
  by (simp add: stt_eval_defs closing_acts_def el_stt_close_def task_done_def close_wait_def close_final_def cancel_task_def
      set_reader_def life_finally_def life_end_def release_permit_def classify_bare Let_def upt_rec)

lemma refused_probe:
  "\<exists>p s. el_stt_run demo_stt [POpen, PProbe 0 (SpError (InvalidStatus 401))] = (p, [s]) \<and> sp_terminal p \<and> ek_registered s"
  by (simp add: stt_eval_defs stt_probe_once_def stt_probe_failed_def classify_exception_def stt_mark_terminal_def
      provider_degraded_def Let_def)

section \<open>Properties\<close>

text \<open>
  C13: The permits of the provider are conserved in every interleaving of the sessions, their tasks and their sockets: the
  free ones and the held ones are together \<open>MAX_SESSIONS\<close>, and a session holds at most one, only while it has a connection.
\<close>

theorem stt_permits_conserved:
  "case el_stt_run c acts of
     (p, ss) \<Rightarrow> sp_sem p + sum_list (map held ss) = MAX_SESSIONS
       \<and> list_all (\<lambda>s. held s \<le> (if ek_conn s = None then 0 else 1)) ss"
proof -
  have "held s \<le> (if ek_conn s = None then 0 else 1)" if "permit_ok s" for s
  proof (cases "ek_conn s")
    case None
    then have "\<forall>x\<in>set (ek_ups s). \<not> up_permit x" using that by (auto simp: permit_ok_def in_set_conv_nth)
    then show ?thesis by (simp add: held_def None filter_empty_conv)
  next
    case (Some u)
    have "{v. v < length (map up_permit (ek_ups s)) \<and> id (map up_permit (ek_ups s) ! v)} \<subseteq> {u}"
      using that Some by (auto simp: permit_ok_def)
    then have "card {v. v < length (map up_permit (ek_ups s)) \<and> id (map up_permit (ek_ups s) ! v)} \<le> 1"
      using card_mono[of "{u}"] by fastforce
    then show ?thesis by (simp add: held_def length_filter_conv_card Some)
  qed
  then show ?thesis using world_permits_run[of c acts]
    by (cases "el_stt_run c acts") (simp add: world_permits_def list_all_iff)
qed




text \<open>
  A drain for idleness whose connection falls leaves the session deaf: it reconnects and reports that it is connected, and the
  socket is ready and open, but \<open>draining\<close> is never taken back, so that no audio, no end of a phrase and no tick of the
  idle loop sends anything more.
\<close>

theorem stt_drain_leaves_deaf:
  "\<exists>p s p1 s1. el_stt_run demo_stt deaf_acts = (p, [s]) \<and> hstate (ek_health s) = CONNECTED
     \<and> up_ready (upstream s 0) \<and> up_reader (upstream s 0) = UpReading \<and> \<not> up_closing (upstream s 0)
     \<and> map tk_pc (ek_tasks s) = [QDone, QReader 0, QDone, QDone]
     \<and> el_stt_run demo_stt (deaf_acts @ deaf_more) = (p1, [s1]) \<and> length (ek_sent s1) = length (ek_sent s)
     \<and> length (ek_buf s1) = length (ek_buf s) + 4"
proof -
  obtain p s where a: "el_stt_run demo_stt deaf_acts = (p, [s])" "map tk_pc (ek_tasks s) = [QDone, QReader 0, QDone, QDone]"
    "up_ready (upstream s 0)" "\<not> up_closing (upstream s 0)" "up_reader (upstream s 0) = UpReading"
    "hstate (ek_health s) = CONNECTED" "ek_buf s = [0, 0]" "length (ek_sent s) = 1"
    using deaf_session by (elim exE conjE)
  obtain p1 s1 where b: "el_stt_run demo_stt (deaf_acts @ deaf_more) = (p1, [s1])" "ek_buf s1 = [0, 0, 0, 0, 0, 0]" "length (ek_sent s1) = 1"
    using deaf_session_more by blast
  show ?thesis using a b by (intro exI[of _ p] exI[of _ s] exI[of _ p1] exI[of _ s1]) simp
qed

text \<open>
  The end of a phrase whose connection is refused stays wanted: the next phrase, of which only the first sample came and
  which nobody ended, is confirmed with it.
\<close>

theorem stt_stale_commit:
  "map ek_sent (snd (el_stt_run demo_stt stale_acts)) = [[(1, [0, 0], True)]]"
  using stale_session by auto

text \<open>
  A session closed while its connection opens loses its audio even if the connection is ready in time: nothing is sent.
\<close>

theorem stt_close_while_connecting:
  "\<exists>p s. el_stt_run demo_stt closing_acts = (p, [s]) \<and> sp_opens p = 1 \<and> ek_closed_evt s \<and> ek_fwd s \<noteq> [] \<and> ek_sent s = []"
  using closing_session by auto

end
