(* ===== verification/Bridge_State.thy ===== *)
theory Bridge_State
  imports Pipeline_Tracker Stats Pacing Chat_Text Reconnection OpenClaw_Models Turn_Registry Outbound
begin

text \<open>
  The state of \<open>JotaBridge\<close> (\<open>services/bridge.py\<close>) and its handlers that never suspend. A client
  message is a value of \<open>cmsg\<close>, which keeps the full turn number and whether \<open>pipe_audio\<close> or
  \<open>_pipe_push_audio\<close> sent a frame; \<open>cmsg_out\<close> is what the code hands to the sender for it. \<open>send_json\<close>
  and \<open>send_bytes\<close> do not suspend (theory Outbound), so they are one atomic action here: they accept
  the message or raise the exception \<open>lk_fail\<close>, an \<open>Exception\<close>. Turn tasks, audio tasks and TTS streams are
  numbered in creation order; a handle is an index into \<open>br_turns\<close>, \<open>br_audios\<close> or \<open>br_streams\<close>. The
  coroutines themselves are in Bridge\_Turn, Bridge\_Push, Bridge\_Control and Bridge\_Close.
\<close>

unbundle bit_operations_syntax

section \<open>Messages to the client\<close>

function dec :: "nat \<Rightarrow> string" where
  "dec n = (if n < 10 then [char_of (48 + n)] else dec (n div 10) @ [char_of (48 + n mod 10)])"
  by auto
termination by (relation "measure id") auto

declare dec.simps [simp del]

definition dec_val :: "string \<Rightarrow> nat" where
  "dec_val s = foldl (\<lambda>v c. 10 * v + (of_char c - 48)) 0 s"

lemma dec_val_dec: "dec_val (dec n) = n"
proof (induction n rule: dec.induct)
  case (1 n)
  have d: "(of_char (char_of (48 + k) :: char) :: nat) - 48 = k" if "k < 10" for k
    using that by (simp add: of_char_of)
  show ?case
  proof (cases "n < 10")
    case True
    then show ?thesis using d[of n] by (subst dec.simps) (simp add: dec_val_def)
  next
    case False
    then have "dec_val (dec (n div 10)) = n div 10" using 1 by blast
    then show ?thesis using False d[of "n mod 10"]
      by (subst dec.simps) (simp add: dec_val_def)
  qed
qed

lemma dec_inj: "dec m = dec n \<longleftrightarrow> m = n"
  by (metis dec_val_dec)

definition turn_id :: "nat \<Rightarrow> string" where
  "turn_id n = ''t-'' @ dec n"

definition turn_seq :: "nat \<Rightarrow> nat" where
  "turn_seq n = n AND 0xFFFF"

lemma turn_id_inj [simp]: "turn_id m = turn_id n \<longleftrightarrow> m = n"
  by (simp add: turn_id_def dec_inj)

lemma turn_seq_mod: "turn_seq n = n mod 65536"
proof -
  have "turn_seq n = take_bit 16 n" by (simp add: turn_seq_def take_bit_eq_mask mask_eq_exp_minus_1)
  then show ?thesis by (simp add: take_bit_eq_mod)
qed

definition audio_header :: "nat \<Rightarrow> bytes" where
  "audio_header seq = [0xA1, of_nat (seq div 256), of_nat seq]"

definition header_seq :: "bytes \<Rightarrow> nat" where
  "header_seq h = 256 * unat (h ! 1) + unat (h ! 2)"

datatype cmsg =
    CTurnStart nat nat
  | CTurnEnd nat
  | CToken "nat option" string
  | CTool "nat option" tool_call
  | CTurnError nat string
  | CInterrupted "nat option"
  | CPartial string
  | CTranscription string
  | CStatus string string "string option" "string option"
  | CInvalid
  | CPipeline json
  | CAudio nat bytes
  | CPushAudio nat bytes

definition opt_str :: "string option \<Rightarrow> json" where
  "opt_str x = (case x of None \<Rightarrow> JNull | Some s \<Rightarrow> JStr s)"

definition opt_id :: "nat option \<Rightarrow> json" where
  "opt_id x = (case x of None \<Rightarrow> JNull | Some n \<Rightarrow> JStr (turn_id n))"

definition tool_call_message :: "nat option \<Rightarrow> tool_call \<Rightarrow> json" where
  "tool_call_message i tc =
     JObj [(''type'', JStr ''tool_call''), (''turn_id'', opt_id i), (''phase'', JStr (tc_phase tc)),
           (''name'', tc_name tc), (''tool_call_id'', tc_id tc), (''args'', tc_args tc),
           (''result'', opt_str (tc_result tc)), (''is_error'', tc_is_error tc)]"

definition opt_field :: "string \<Rightarrow> string option \<Rightarrow> dict" where
  "opt_field k x = (case x of None \<Rightarrow> [] | Some s \<Rightarrow> [(k, JStr s)])"

fun cmsg_out :: "cmsg \<Rightarrow> out_msg" where
  "cmsg_out (CTurnStart n q) =
     MJson (JObj [(''type'', JStr ''turn_start''), (''turn_id'', JStr (turn_id n)), (''turn_seq'', JInt (int q))])"
| "cmsg_out (CTurnEnd n) = MJson (JObj [(''type'', JStr ''turn_end''), (''turn_id'', JStr (turn_id n))])"
| "cmsg_out (CToken i s) =
     MJson (JObj [(''type'', JStr ''token''), (''turn_id'', opt_id i), (''text'', JStr s)])"
| "cmsg_out (CTool i tc) = MJson (tool_call_message i tc)"
| "cmsg_out (CTurnError n code) =
     MJson (JObj [(''type'', JStr ''error''), (''code'', JStr ''TURN_ERROR''), (''message'', JStr code),
                  (''fatal'', JBool False), (''turn_id'', JStr (turn_id n))])"
| "cmsg_out (CInterrupted i) =
     MJson (JObj ((''type'', JStr ''interrupted'') # opt_field ''turn_id'' (map_option turn_id i)))"
| "cmsg_out (CPartial s) = MJson (JObj [(''type'', JStr ''transcription_partial''), (''text'', JStr s)])"
| "cmsg_out (CTranscription s) = MJson (JObj [(''type'', JStr ''transcription''), (''text'', JStr s)])"
| "cmsg_out (CStatus service state code msg) =
     MJson (JObj ([(''type'', JStr ''status''), (''service'', JStr service), (''state'', JStr state)]
                  @ opt_field ''code'' code @ opt_field ''message'' msg))"
| "cmsg_out CInvalid =
     MJson (JObj [(''type'', JStr ''error''), (''code'', JStr ''INVALID_MESSAGE''),
                  (''message'', JStr ''invalid message''), (''fatal'', JBool False)])"
| "cmsg_out (CPipeline j) = MJson j"
| "cmsg_out (CAudio n f) = MBytes (audio_header (turn_seq n) @ f)"
| "cmsg_out (CPushAudio n f) = MBytes (audio_header (turn_seq n) @ f)"

section \<open>Configuration\<close>

record client_config =
  cf_stt_language :: string
  cf_stt_vad_thold :: rat
  cf_tts_voice :: string
  cf_tts_speed :: rat
  cf_barge_in_enabled :: bool
  cf_barge_in_min_chars :: int
  cf_silence_timeout_s :: rat
  cf_max_silence_turns :: int
  cf_push_enabled :: bool
  cf_tool_calls_enabled :: bool

record handshake =
  hs_input_mode :: string
  hs_output_mode :: "string list"

text \<open>
  The last three fields are \<open>PUSH_TTS_DRAIN_TIMEOUT_S\<close>, \<open>TURN_TIMEOUT_S\<close> and \<open>IDLE_TIMEOUT_S\<close> of the
  settings; \<open>bc_partials\<close> and \<open>bc_warmup_s\<close> are the capabilities of the STT provider.
\<close>

record bridge_cfg =
  bc_client_id :: string
  bc_agent :: string
  bc_config :: client_config
  bc_handshake :: handshake
  bc_partials :: bool
  bc_warmup_s :: rat
  bc_drain_s :: rat
  bc_turn_timeout_s :: rat
  bc_idle_s :: rat

definition audio_out :: "bridge_cfg \<Rightarrow> bool" where
  "audio_out c \<longleftrightarrow> ''audio'' \<in> set (hs_output_mode (bc_handshake c))"

definition text_out :: "bridge_cfg \<Rightarrow> bool" where
  "text_out c \<longleftrightarrow> ''text'' \<in> set (hs_output_mode (bc_handshake c))"

definition session_key :: "bridge_cfg \<Rightarrow> string" where
  "session_key c = make_session_key (bc_agent c) (bc_client_id c)"

section \<open>Tasks\<close>

text \<open>
  Where a normal turn (\<open>_call_orchestrator\<close> and \<open>_run_turn\<close>) is suspended. The argument of a
  clean-up point is the exception in flight; \<open>drop_cont\<close> says where \<open>_drop_tts\<close> returns to.
\<close>

datatype drop_cont = DropToken | DropEnd "exn option" | DropDrain

datatype turn_pc =
    TNew
  | TConnect
  | TStream
  | TChunk
  | TAclose exn
  | TEnd "exn option"
  | TDrop drop_cont
  | TDrain
  | TStopAudio "exn option"
  | TClose "exn option"
  | TDone

record turn =
  tn_text :: string
  tn_no :: nat
  tn_pc :: turn_pc
  tn_tts :: "nat option"
  tn_live :: bool
  tn_audio :: "nat option"
  tn_progress :: time
  tn_first :: bool
  tn_count :: nat
  tn_cancel :: bool

datatype audio_pc = AuRun | AuCancelled | AuDone

record audio =
  au_owner :: "nat option"
  au_no :: nat
  au_stream :: nat
  au_frames :: "bytes list"
  au_first :: bool
  au_pc :: audio_pc

record push_stats =
  ps_send_ms :: rat
  ps_end_ms :: rat
  ps_drain_ms :: rat
  ps_close_ms :: rat
  ps_dropped :: bool
  ps_chars :: nat

record push =
  pu_no :: "nat option"
  pu_key :: "string option"
  pu_open :: bool
  pu_opened_at :: "time option"
  pu_text :: tracker
  pu_tts :: "nat option"
  pu_stats :: "push_stats option"
  pu_audio :: "nat option"
  pu_progress :: "time option"

text \<open>\<open>au_owner\<close> is the turn whose audio it is, \<open>None\<close> for a push.\<close>

text \<open>The push worker: its queue, the backlog counters and where it is suspended.\<close>

datatype push_kind = PkStart string | PkChat dict | PkTool json | PkEnd string | PkOther string

datatype push_pc =
    WNone
  | WGet
  | WTurn string
  | WLock string
  | WConnect nat
  | WCutClose
  | WSend time
  | WEnd nat time
  | WDropAudio nat "(nat \<times> time) option" time
  | WDropClose "(nat \<times> time) option" time
  | WDrain nat time nat
  | WDrainStop nat time
  | WClose nat time

record backlog =
  bl_queue :: "push_kind list"
  bl_pending :: nat
  bl_peak :: nat
  bl_since :: "time option"
  bl_pc :: push_pc
  bl_cancel :: bool

text \<open>
  Where \<open>_cut_push\<close> is suspended (the turn number it cuts), and a task that takes \<open>_turn_lock\<close>: the
  input loop and the transcription callback. \<open>ctl_cont\<close> is the caller of \<open>_cancel_turn\<close>; the last
  argument of the two waits is a cancellation noted meanwhile.
\<close>

datatype cut_pc = CuAudio nat nat | CuClose nat | CuAbort nat

datatype ctl_cont = KCancelMsg "nat option" | KBarge "nat option" | KFinal string

datatype ctl_pc =
    CIdle
  | COver
  | CCancelLock nat "nat option" ctl_cont
  | CCancelWait nat "nat option" ctl_cont bool
  | CCutLock nat ctl_cont
  | CCut cut_pc nat ctl_cont
  | CStartLock string
  | CStartWait string nat bool
  | CStartCut string cut_pc

text \<open>Where the body of \<open>close_all\<close> waits; its argument is the status the session gets.\<close>

datatype close_pc =
    XNone
  | XTurn session_status nat
  | XWorker session_status
  | XAudio session_status
  | XTts session_status
  | XTasks session_status
  | XStt session_status
  | XTracker
  | XDone

datatype stt_call = SttAudio bytes | SttEnd

record life =
  lf_closing :: bool
  lf_closed :: bool
  lf_reason :: "string option"
  lf_in_flight :: "bool option"
  lf_counted :: bool
  lf_end_sent :: "nat option"
  lf_gone :: bool
  lf_registered :: bool
  lf_close :: close_pc

record activity =
  ac_start :: time
  ac_client :: time
  ac_audio :: "time option"
  ac_burst :: "time option"
  ac_busy :: bool
  ac_stt :: "stt_call list"

record link =
  lk_log :: "cmsg list"
  lk_fail :: "exn option"

record bridge =
  br_link :: link
  br_tracker :: ptracker
  br_stats :: gateway_stats
  br_seq :: nat
  br_turns :: "turn list"
  br_active :: "nat option"
  br_active_at :: "time option"
  br_active_no :: "nat option"
  br_audios :: "audio list"
  br_streams :: "bool list"
  br_push :: push
  br_backlog :: backlog
  br_life :: life
  br_act :: activity
  br_lock :: "nat option"
  br_ctl :: "ctl_pc list"

definition new_push :: push where
  "new_push = \<lparr>pu_no = None, pu_key = None, pu_open = False, pu_opened_at = None, pu_text = new_tracker,
               pu_tts = None, pu_stats = None, pu_audio = None, pu_progress = None\<rparr>"

definition new_backlog :: backlog where
  "new_backlog = \<lparr>bl_queue = [], bl_pending = 0, bl_peak = 0, bl_since = None, bl_pc = WNone,
                  bl_cancel = False\<rparr>"

definition new_life :: life where
  "new_life = \<lparr>lf_closing = False, lf_closed = False, lf_reason = None, lf_in_flight = None,
               lf_counted = False, lf_end_sent = None, lf_gone = False, lf_registered = False, lf_close = XNone\<rparr>"

definition new_bridge :: "link \<Rightarrow> ptracker \<Rightarrow> gateway_stats \<Rightarrow> bridge" where
  "new_bridge l t g =
     \<lparr>br_link = l, br_tracker = t, br_stats = stats_session_opened g, br_seq = 0, br_turns = [],
      br_active = None, br_active_at = None, br_active_no = None, br_audios = [], br_streams = [],
      br_push = new_push, br_backlog = new_backlog, br_life = new_life,
      br_act = \<lparr>ac_start = 0, ac_client = 0, ac_audio = None, ac_burst = None, ac_busy = False, ac_stt = []\<rparr>,
      br_lock = None, br_ctl = [CIdle, CIdle]\<rparr>"

section \<open>Sending\<close>

definition put :: "cmsg \<Rightarrow> link \<Rightarrow> exn + link" where
  "put m l = (case lk_fail l of Some e \<Rightarrow> Inl e | None \<Rightarrow> Inr (l\<lparr>lk_log := lk_log l @ [m]\<rparr>))"

text \<open>A guarded send: \<open>try: await self._sender.send_json(m) except Exception: log\<close>.\<close>

definition tell :: "cmsg \<Rightarrow> bridge \<Rightarrow> bridge" where
  "tell m b = (case put m (br_link b) of Inl _ \<Rightarrow> b | Inr l \<Rightarrow> b\<lparr>br_link := l\<rparr>)"

text \<open>\<open>await self.tracker.record(stage, **meta)\<close>, which catches every \<open>Exception\<close> of the sender.\<close>

definition note_event :: "time \<Rightarrow> string \<Rightarrow> dict \<Rightarrow> bridge \<Rightarrow> bridge" where
  "note_event now stage meta b =
     (case pt_record (\<lambda>j. put (CPipeline j)) now stage meta (br_tracker b, br_link b) of
        (_, t, l) \<Rightarrow> b\<lparr>br_tracker := t, br_link := l\<rparr>)"

definition notify_service_status ::
  "string \<Rightarrow> string \<Rightarrow> string option \<Rightarrow> string option \<Rightarrow> bool \<Rightarrow> bridge \<Rightarrow> exn option \<times> bridge" where
  "notify_service_status service state code msg propagate b =
     (case put (CStatus service state code msg) (br_link b) of
        Inr l \<Rightarrow> (None, b\<lparr>br_link := l\<rparr>)
      | Inl e \<Rightarrow> (if propagate then Some e else None, b))"

definition send_invalid_message :: "bridge \<Rightarrow> bridge" where
  "send_invalid_message b = tell CInvalid b"

section \<open>Turn bookkeeping\<close>

definition the_turn :: "bridge \<Rightarrow> nat \<Rightarrow> turn" where
  "the_turn b i = br_turns b ! i"

definition turn_done :: "bridge \<Rightarrow> nat \<Rightarrow> bool" where
  "turn_done b i \<longleftrightarrow> tn_pc (the_turn b i) = TDone"

definition turn_running :: "bridge \<Rightarrow> bool" where
  "turn_running b = (case br_active b of None \<Rightarrow> False | Some i \<Rightarrow> \<not> turn_done b i)"

definition audio_done :: "bridge \<Rightarrow> nat \<Rightarrow> bool" where
  "audio_done b i \<longleftrightarrow> au_pc (br_audios b ! i) = AuDone"

definition audio_done_opt :: "bridge \<Rightarrow> nat option \<Rightarrow> bool" where
  "audio_done_opt b x = (case x of None \<Rightarrow> True | Some i \<Rightarrow> audio_done b i)"

text \<open>\<open>task.cancel()\<close> on an audio task: it gets \<open>CancelledError\<close> where it waits and ends later.\<close>

definition audio_cancel :: "nat \<Rightarrow> bridge \<Rightarrow> bridge" where
  "audio_cancel i b =
     b\<lparr>br_audios := (br_audios b)[i := (br_audios b ! i)
        \<lparr>au_pc := (if au_pc (br_audios b ! i) = AuDone then AuDone else AuCancelled)\<rparr>]\<rparr>"

definition audio_cancel_opt :: "nat option \<Rightarrow> bridge \<Rightarrow> bridge" where
  "audio_cancel_opt x b = (case x of None \<Rightarrow> b | Some i \<Rightarrow> audio_cancel i b)"

text \<open>\<open>stream.close()\<close> is called.\<close>

definition stream_close :: "nat \<Rightarrow> bridge \<Rightarrow> bridge" where
  "stream_close h b = b\<lparr>br_streams := (br_streams b)[h := False]\<rparr>"

definition stream_close_opt :: "nat option \<Rightarrow> bridge \<Rightarrow> bridge" where
  "stream_close_opt x b = (case x of None \<Rightarrow> b | Some h \<Rightarrow> stream_close h b)"

text \<open>A successful \<open>tts.connect\<close>: a new stream.\<close>

definition stream_open :: "bridge \<Rightarrow> nat \<times> bridge" where
  "stream_open b = (length (br_streams b), b\<lparr>br_streams := br_streams b @ [True]\<rparr>)"

definition spawn_audio :: "nat option \<Rightarrow> nat \<Rightarrow> nat \<Rightarrow> bridge \<Rightarrow> nat \<times> bridge" where
  "spawn_audio owner n h b =
     (length (br_audios b),
      b\<lparr>br_audios := br_audios b @ [\<lparr>au_owner = owner, au_no = n, au_stream = h, au_frames = [],
                                      au_first = True, au_pc = AuRun\<rparr>]\<rparr>)"

definition turn_in_flight :: "bridge_cfg \<Rightarrow> time \<Rightarrow> bridge \<Rightarrow> bool" where
  "turn_in_flight c now b =
     (turn_running b \<or>
      (\<not> audio_done_opt b (pu_audio (br_push b)) \<and>
       now - (case pu_progress (br_push b) of None \<Rightarrow> 0 | Some p \<Rightarrow> p) < bc_drain_s c) \<or>
      (pu_open (br_push b) \<and>
       (case pu_opened_at (br_push b) of None \<Rightarrow> True | Some t \<Rightarrow> now - t < bc_turn_timeout_s c)))"

definition note_close_reason :: "string option \<Rightarrow> bridge \<Rightarrow> bridge" where
  "note_close_reason r b =
     (if lf_reason (br_life b) = None then b\<lparr>br_life := (br_life b)\<lparr>lf_reason := r\<rparr>\<rparr> else b)"

definition note_disconnect_code :: "int option \<Rightarrow> bridge \<Rightarrow> bridge" where
  "note_disconnect_code code b = (if code = Some 1012 then note_close_reason (Some ''shutdown'') b else b)"

definition mark_gone :: "bridge \<Rightarrow> bridge" where
  "mark_gone b = b\<lparr>br_life := (br_life b)\<lparr>lf_gone := True\<rparr>\<rparr>"

definition push_allowed :: "bridge_cfg \<Rightarrow> bridge \<Rightarrow> bool" where
  "push_allowed c b \<longleftrightarrow> cf_push_enabled (bc_config c) \<and> pu_open (br_push b)"

end
