(* ===== verification/Client_Store.thy ===== *)
theory Client_Store
  imports Agent_Policy Bridge_State
begin

text \<open>
  The client table: \<open>db/models.py\<close>, the lookup of a session (\<open>services/db_client.py\<close>), the input schemas
  (\<open>models/admin_schemas.py\<close>) and the CRUD routes of \<open>api/admin_routes.py\<close>. A committed table is its list of
  rows in insertion order; a request is one transaction. JSON text is written and read by the
  functions \<open>encode\<close> (\<open>json.dumps\<close> of a list of strings) and \<open>decode\<close> (\<open>json.loads\<close>, \<open>None\<close> where it
  raises); generated ids and keys are arguments.
\<close>

record client_row =
  cr_id :: string
  cr_name :: string
  cr_client_key :: string
  cr_is_active :: bool
  cr_client_type :: "string option"
  cr_default_agent :: "string option"
  cr_allowed_agents :: "string option"
  cr_created_at :: time
  cr_config :: client_config
  cr_output_mode :: "string option"

section \<open>The lookup of a session\<close>

record client =
  cl_id :: string
  cl_key :: string
  cl_is_active :: bool
  cl_name :: string

record session_config =
  sc_pipeline :: client_config
  sc_agents :: agent_config

datatype lookup_error = ClientNotFound | ClientInactive | LookupRaises exn

definition db_lookup ::
  "(string \<Rightarrow> json option) \<Rightarrow> (json \<Rightarrow> string) \<Rightarrow> string \<Rightarrow> client_row list \<Rightarrow> lookup_error + client \<times> session_config" where
  "db_lookup decode py_str key rows =
     (case find (\<lambda>r. cr_client_key r = key) rows of
        None \<Rightarrow> Inl ClientNotFound
      | Some r \<Rightarrow>
          if \<not> cr_is_active r then Inl ClientInactive
          else case parse_allowed_agents decode py_str (cr_allowed_agents r) of
            Inl e \<Rightarrow> Inl (LookupRaises e)
          | Inr al \<Rightarrow>
              Inr (\<lparr>cl_id = cr_id r, cl_key = cr_client_key r, cl_is_active = cr_is_active r, cl_name = cr_name r\<rparr>,
                   \<lparr>sc_pipeline = cr_config r,
                    sc_agents = \<lparr>default_agent = cr_default_agent r, allowed_agents = al\<rparr>\<rparr>))"

section \<open>Input schemas\<close>

text \<open>
  What validation leaves of the bodies. A name and an agent arrive stripped; the bounds are those of
  the annotated types, the defaults those of the class.
\<close>

definition ok_name :: "string \<Rightarrow> bool" where
  "ok_name s \<longleftrightarrow> strip s = s \<and> 1 \<le> length s \<and> length s \<le> 200"

definition ok_text :: "string \<Rightarrow> bool" where
  "ok_text s \<longleftrightarrow> 1 \<le> length s \<and> length s \<le> 200"

definition ok_imported_key :: "string \<Rightarrow> bool" where
  "ok_imported_key s \<longleftrightarrow> 32 \<le> length s"

definition client_types :: "string list" where
  "client_types = [''ha'', ''esp32'', ''web'', ''app'']"

definition output_modes :: "string list" where
  "output_modes = [''audio'', ''text'', ''status'']"

definition ok_config :: "client_config \<Rightarrow> bool" where
  "ok_config c \<longleftrightarrow>
     ok_text (cf_stt_language c) \<and> 0 \<le> cf_stt_vad_thold c \<and> cf_stt_vad_thold c \<le> 1 \<and> ok_text (cf_tts_voice c)
     \<and> 0 < cf_tts_speed c \<and> cf_tts_speed c \<le> 10 \<and> 1 \<le> cf_barge_in_min_chars c \<and> cf_barge_in_min_chars c \<le> 10000
     \<and> 0 < cf_silence_timeout_s c \<and> cf_silence_timeout_s c \<le> 86400
     \<and> 1 \<le> cf_max_silence_turns c \<and> cf_max_silence_turns c \<le> 10000"

definition default_config :: client_config where
  "default_config =
     \<lparr>cf_stt_language = ''es'', cf_stt_vad_thold = 0, cf_tts_voice = ''af_heart'', cf_tts_speed = 1,
      cf_barge_in_enabled = True, cf_barge_in_min_chars = 5, cf_silence_timeout_s = 2, cf_max_silence_turns = 3,
      cf_push_enabled = True, cf_tool_calls_enabled = False\<rparr>"

record client_create =
  cc_name :: string
  cc_client_key :: "string option"
  cc_client_type :: "string option"
  cc_default_agent :: "string option"
  cc_allowed_agents :: "string list option"
  cc_config :: client_config
  cc_output_mode :: "string list option"

definition valid_create :: "client_create \<Rightarrow> bool" where
  "valid_create b \<longleftrightarrow>
     ok_name (cc_name b) \<and> (\<forall>k\<in>set_option (cc_client_key b). ok_imported_key k)
     \<and> (\<forall>t\<in>set_option (cc_client_type b). t \<in> set client_types) \<and> (\<forall>a\<in>set_option (cc_default_agent b). ok_name a)
     \<and> (\<forall>xs\<in>set_option (cc_allowed_agents b). \<forall>a\<in>set xs. ok_name a) \<and> ok_config (cc_config b)
     \<and> (\<forall>xs\<in>set_option (cc_output_mode b). set xs \<subseteq> set output_modes)"

text \<open>A field of a PATCH: not sent, or sent with a value or with \<open>null\<close>.\<close>

datatype 'a patch_field = Unset | SetTo "'a option"

record client_update =
  cu_name :: "string patch_field"
  cu_is_active :: "bool patch_field"
  cu_client_type :: "string patch_field"
  cu_default_agent :: "string patch_field"
  cu_allowed_agents :: "string list patch_field"
  cu_stt_language :: "string patch_field"
  cu_stt_vad_thold :: "rat patch_field"
  cu_tts_voice :: "string patch_field"
  cu_tts_speed :: "rat patch_field"
  cu_barge_in_enabled :: "bool patch_field"
  cu_barge_in_min_chars :: "int patch_field"
  cu_output_mode :: "string list patch_field"
  cu_silence_timeout_s :: "rat patch_field"
  cu_max_silence_turns :: "int patch_field"
  cu_push_enabled :: "bool patch_field"
  cu_tool_calls_enabled :: "bool patch_field"

text \<open>A nullable column, and a NOT NULL one (\<open>_reject_null_for_not_null_columns\<close>).\<close>

definition nullable_ok :: "('a \<Rightarrow> bool) \<Rightarrow> 'a patch_field \<Rightarrow> bool" where
  "nullable_ok P f = (case f of SetTo (Some v) \<Rightarrow> P v | _ \<Rightarrow> True)"

definition field_ok :: "('a \<Rightarrow> bool) \<Rightarrow> 'a patch_field \<Rightarrow> bool" where
  "field_ok P f = (case f of Unset \<Rightarrow> True | SetTo None \<Rightarrow> False | SetTo (Some v) \<Rightarrow> P v)"

definition valid_update :: "client_update \<Rightarrow> bool" where
  "valid_update b \<longleftrightarrow>
     field_ok ok_name (cu_name b) \<and> field_ok (\<lambda>_. True) (cu_is_active b)
     \<and> nullable_ok (\<lambda>t. t \<in> set client_types) (cu_client_type b)
     \<and> nullable_ok ok_name (cu_default_agent b) \<and> nullable_ok (list_all ok_name) (cu_allowed_agents b)
     \<and> field_ok ok_text (cu_stt_language b) \<and> field_ok (\<lambda>v. 0 \<le> v \<and> v \<le> 1) (cu_stt_vad_thold b)
     \<and> field_ok ok_text (cu_tts_voice b) \<and> field_ok (\<lambda>v. 0 < v \<and> v \<le> 10) (cu_tts_speed b)
     \<and> field_ok (\<lambda>_. True) (cu_barge_in_enabled b) \<and> field_ok (\<lambda>v. 1 \<le> v \<and> v \<le> 10000) (cu_barge_in_min_chars b)
     \<and> nullable_ok (list_all (\<lambda>m. m \<in> set output_modes)) (cu_output_mode b)
     \<and> field_ok (\<lambda>v. 0 < v \<and> v \<le> 86400) (cu_silence_timeout_s b)
     \<and> field_ok (\<lambda>v. 1 \<le> v \<and> v \<le> 10000) (cu_max_silence_turns b)
     \<and> field_ok (\<lambda>_. True) (cu_push_enabled b) \<and> field_ok (\<lambda>_. True) (cu_tool_calls_enabled b)"

section \<open>The routes\<close>

text \<open>\<open>Http\<close> is an \<open>HTTPException\<close>, \<open>Raises\<close> an exception that leaves the handler (a 500).\<close>

datatype http_error = Http nat string | Raises exn

definition get_or_404 :: "string \<Rightarrow> client_row list \<Rightarrow> http_error + client_row" where
  "get_or_404 cid rows =
     (case find (\<lambda>r. cr_id r = cid) rows of None \<Rightarrow> Inl (Http 404 ''Client not found'') | Some r \<Rightarrow> Inr r)"

text \<open>Python's \<open>in\<close> on a decoded value, \<open>None\<close> where it raises \<open>TypeError\<close>.\<close>

definition py_in :: "string \<Rightarrow> json \<Rightarrow> bool option" where
  "py_in x j =
     (case j of
        JArr xs \<Rightarrow> Some (JStr x \<in> set xs)
      | JStr s \<Rightarrow> Some (str_contains x s)
      | JObj d \<Rightarrow> Some (x \<in> fst ` set d)
      | _ \<Rightarrow> None)"

definition check_agent_consistency :: "string option \<Rightarrow> json \<Rightarrow> http_error option" where
  "check_agent_consistency d allowed =
     (case d of
        None \<Rightarrow> None
      | Some a \<Rightarrow>
          if allowed = JNull then None
          else case py_in a allowed of
            None \<Rightarrow> Some (Raises TypeError)
          | Some True \<Rightarrow> None
          | Some False \<Rightarrow> Some (Http 422 ''default_agent must be one of allowed_agents''))"

definition json_list :: "string list option \<Rightarrow> json" where
  "json_list xs = (case xs of None \<Rightarrow> JNull | Some ys \<Rightarrow> JArr (map JStr ys))"

text \<open>The stored text of a nullable JSON column, as the code reads it: \<open>None\<close> where \<open>json.loads\<close> raises.\<close>

definition load_column :: "(string \<Rightarrow> json option) \<Rightarrow> string option \<Rightarrow> json option" where
  "load_column decode col = (if or_empty col = [] then Some JNull else decode (or_empty col))"

record client_response =
  rs_row :: client_row
  rs_key_fp :: string
  rs_allowed :: "string list option"
  rs_output :: "string list option"

definition as_list :: "json \<Rightarrow> string list option option" where
  "as_list j =
     (case j of
        JNull \<Rightarrow> Some None
      | JArr xs \<Rightarrow>
          if list_all (\<lambda>x. case x of JStr _ \<Rightarrow> True | _ \<Rightarrow> False) xs
          then Some (Some (map (\<lambda>x. case x of JStr s \<Rightarrow> s | _ \<Rightarrow> []) xs)) else None
      | _ \<Rightarrow> None)"

text \<open>
  \<open>ClientResponse.from_record\<close>: the fingerprint replaces the key (\<open>rs_row\<close> keeps the other columns); a
  stored value that is no list of strings makes it raise.
\<close>

definition from_record ::
  "(string \<Rightarrow> json option) \<Rightarrow> (string \<Rightarrow> string) \<Rightarrow> client_row \<Rightarrow> http_error + client_response" where
  "from_record decode fp r =
     (case (load_column decode (cr_allowed_agents r), load_column decode (cr_output_mode r)) of
        (Some a, Some m) \<Rightarrow>
          (case (as_list a, as_list m) of
             (Some xs, Some ys) \<Rightarrow>
               Inr \<lparr>rs_row = r\<lparr>cr_client_key := []\<rparr>, rs_key_fp = fp (cr_client_key r), rs_allowed = xs, rs_output = ys\<rparr>
           | _ \<Rightarrow> Inl (Raises ValueError))
      | _ \<Rightarrow> Inl (Raises ValueError))"

fun all_or_first :: "('e + 'a) list \<Rightarrow> 'e + 'a list" where
  "all_or_first [] = Inr []"
| "all_or_first (x # xs) =
     (case x of Inl e \<Rightarrow> Inl e | Inr v \<Rightarrow> (case all_or_first xs of Inl e \<Rightarrow> Inl e | Inr vs \<Rightarrow> Inr (v # vs)))"

definition list_clients where
  "list_clients decode fp rows = all_or_first (map (from_record decode fp) rows)"

definition get_client where
  "get_client decode fp cid rows =
     (case get_or_404 cid rows of Inl e \<Rightarrow> Inl e | Inr r \<Rightarrow> from_record decode fp r)"

text \<open>The unique columns: a commit that repeats one of them raises \<open>IntegrityError\<close>.\<close>

definition commits :: "client_row \<Rightarrow> client_row list \<Rightarrow> bool" where
  "commits r others = list_all (\<lambda>o'. cr_id o' \<noteq> cr_id r \<and> cr_client_key o' \<noteq> cr_client_key r) others"

definition save_row :: "client_row \<Rightarrow> client_row list \<Rightarrow> client_row list" where
  "save_row r rows = map (\<lambda>o'. if cr_id o' = cr_id r then r else o') rows"

definition new_row ::
  "(string list \<Rightarrow> string) \<Rightarrow> string \<Rightarrow> time \<Rightarrow> string \<Rightarrow> client_create \<Rightarrow> client_row" where
  "new_row encode cid now gen_key b =
     \<lparr>cr_id = cid, cr_name = cc_name b,
      cr_client_key = (if or_empty (cc_client_key b) = [] then gen_key else or_empty (cc_client_key b)),
      cr_is_active = True, cr_client_type = cc_client_type b, cr_default_agent = cc_default_agent b,
      cr_allowed_agents = map_option encode (cc_allowed_agents b), cr_created_at = now, cr_config = cc_config b,
      cr_output_mode = map_option encode (cc_output_mode b)\<rparr>"

text \<open>A route gives its answer and the committed table; the body is valid (else 422 before the route).\<close>

definition create_client ::
  "(string list \<Rightarrow> string) \<Rightarrow> string \<Rightarrow> time \<Rightarrow> string \<Rightarrow> client_create \<Rightarrow> client_row list \<Rightarrow>
   (http_error + client_row) \<times> client_row list" where
  "create_client encode cid now gen_key b rows =
     (case check_agent_consistency (cc_default_agent b) (json_list (cc_allowed_agents b)) of
        Some e \<Rightarrow> (Inl e, rows)
      | None \<Rightarrow>
          let r = new_row encode cid now gen_key b in
          if commits r rows then (Inr r, rows @ [r]) else (Inl (Http 409 ''client_key already exists''), rows))"

definition put_field :: "'a patch_field \<Rightarrow> 'a \<Rightarrow> 'a" where
  "put_field f old = (case f of SetTo (Some v) \<Rightarrow> v | _ \<Rightarrow> old)"

definition put_nullable :: "('a \<Rightarrow> 'b) \<Rightarrow> 'a patch_field \<Rightarrow> 'b option \<Rightarrow> 'b option" where
  "put_nullable g f old = (case f of Unset \<Rightarrow> old | SetTo v \<Rightarrow> map_option g v)"

definition patch_config :: "client_update \<Rightarrow> client_config \<Rightarrow> client_config" where
  "patch_config b c =
     \<lparr>cf_stt_language = put_field (cu_stt_language b) (cf_stt_language c),
      cf_stt_vad_thold = put_field (cu_stt_vad_thold b) (cf_stt_vad_thold c),
      cf_tts_voice = put_field (cu_tts_voice b) (cf_tts_voice c),
      cf_tts_speed = put_field (cu_tts_speed b) (cf_tts_speed c),
      cf_barge_in_enabled = put_field (cu_barge_in_enabled b) (cf_barge_in_enabled c),
      cf_barge_in_min_chars = put_field (cu_barge_in_min_chars b) (cf_barge_in_min_chars c),
      cf_silence_timeout_s = put_field (cu_silence_timeout_s b) (cf_silence_timeout_s c),
      cf_max_silence_turns = put_field (cu_max_silence_turns b) (cf_max_silence_turns c),
      cf_push_enabled = put_field (cu_push_enabled b) (cf_push_enabled c),
      cf_tool_calls_enabled = put_field (cu_tool_calls_enabled b) (cf_tool_calls_enabled c)\<rparr>"

definition patch_row :: "(string list \<Rightarrow> string) \<Rightarrow> client_update \<Rightarrow> client_row \<Rightarrow> client_row" where
  "patch_row encode b r =
     r\<lparr>cr_name := put_field (cu_name b) (cr_name r),
       cr_is_active := put_field (cu_is_active b) (cr_is_active r),
       cr_client_type := put_nullable id (cu_client_type b) (cr_client_type r),
       cr_default_agent := put_nullable id (cu_default_agent b) (cr_default_agent r),
       cr_allowed_agents := put_nullable encode (cu_allowed_agents b) (cr_allowed_agents r),
       cr_config := patch_config b (cr_config r),
       cr_output_mode := put_nullable encode (cu_output_mode b) (cr_output_mode r)\<rparr>"

text \<open>The consistency of a PATCH, looked at only if it touches one of the two fields.\<close>

definition update_check :: "(string \<Rightarrow> json option) \<Rightarrow> client_update \<Rightarrow> client_row \<Rightarrow> http_error option" where
  "update_check decode b r =
     (if cu_default_agent b = Unset \<and> cu_allowed_agents b = Unset then None
      else let d = put_nullable id (cu_default_agent b) (cr_default_agent r) in
        case cu_allowed_agents b of
          SetTo xs \<Rightarrow> check_agent_consistency d (json_list xs)
        | Unset \<Rightarrow>
            (case load_column decode (cr_allowed_agents r) of
               None \<Rightarrow> Some (Raises ValueError)
             | Some j \<Rightarrow> check_agent_consistency d j))"

definition update_client ::
  "(string list \<Rightarrow> string) \<Rightarrow> (string \<Rightarrow> json option) \<Rightarrow> string \<Rightarrow> client_update \<Rightarrow> client_row list \<Rightarrow>
   (http_error + client_row) \<times> client_row list" where
  "update_client encode decode cid b rows =
     (case get_or_404 cid rows of
        Inl e \<Rightarrow> (Inl e, rows)
      | Inr r \<Rightarrow>
          (case update_check decode b r of
             Some e \<Rightarrow> (Inl e, rows)
           | None \<Rightarrow> let r1 = patch_row encode b r in (Inr r1, save_row r1 rows)))"

definition delete_client :: "string \<Rightarrow> client_row list \<Rightarrow> (http_error + unit) \<times> client_row list" where
  "delete_client cid rows =
     (case get_or_404 cid rows of
        Inl e \<Rightarrow> (Inl e, rows)
      | Inr r \<Rightarrow> (Inr (), filter (\<lambda>o'. cr_id o' \<noteq> cid) rows))"

definition ROTATE_KEY_ATTEMPTS :: nat where "ROTATE_KEY_ATTEMPTS = 3"

fun rotate_attempts :: "string list \<Rightarrow> client_row \<Rightarrow> client_row list \<Rightarrow> client_row option" where
  "rotate_attempts [] r rows = None"
| "rotate_attempts (k # ks) r rows =
     (let r1 = r\<lparr>cr_client_key := k\<rparr> in
      if commits r1 (filter (\<lambda>o'. cr_id o' \<noteq> cr_id r) rows) then Some r1 else rotate_attempts ks r rows)"

definition rotate_client_key ::
  "(nat \<Rightarrow> string) \<Rightarrow> string \<Rightarrow> client_row list \<Rightarrow> (http_error + client_row) \<times> client_row list" where
  "rotate_client_key gen cid rows =
     (case get_or_404 cid rows of
        Inl e \<Rightarrow> (Inl e, rows)
      | Inr r \<Rightarrow>
          (case rotate_attempts (map gen [0..<ROTATE_KEY_ATTEMPTS]) r rows of
             None \<Rightarrow> (Inl (Http 409 ''could not generate a unique client_key''), rows)
           | Some r1 \<Rightarrow> (Inr r1, save_row r1 rows)))"

datatype store_op =
    OpCreate string time string client_create
  | OpUpdate string client_update
  | OpDelete string
  | OpRotate "nat \<Rightarrow> string" string

text \<open>Bodies that are not valid are answered with 422 and never reach a route.\<close>

definition store_step ::
  "(string list \<Rightarrow> string) \<Rightarrow> (string \<Rightarrow> json option) \<Rightarrow> client_row list \<Rightarrow> store_op \<Rightarrow> client_row list" where
  "store_step encode decode rows a =
     (case a of
        OpCreate cid now k b \<Rightarrow> if valid_create b then snd (create_client encode cid now k b rows) else rows
      | OpUpdate cid b \<Rightarrow> if valid_update b then snd (update_client encode decode cid b rows) else rows
      | OpDelete cid \<Rightarrow> snd (delete_client cid rows)
      | OpRotate gen cid \<Rightarrow> snd (rotate_client_key gen cid rows))"

definition store_run where
  "store_run encode decode ops = foldl (store_step encode decode) [] ops"

section \<open>The table under every request\<close>

definition stored_list :: "(string list \<Rightarrow> string) \<Rightarrow> (string \<Rightarrow> bool) \<Rightarrow> string option \<Rightarrow> bool" where
  "stored_list encode P col \<longleftrightarrow> col = None \<or> (\<exists>xs. col = Some (encode xs) \<and> list_all P xs)"

definition row_ok :: "(string list \<Rightarrow> string) \<Rightarrow> client_row \<Rightarrow> bool" where
  "row_ok encode r \<longleftrightarrow>
     ok_name (cr_name r) \<and> ok_config (cr_config r) \<and> (\<forall>t\<in>set_option (cr_client_type r). t \<in> set client_types)
     \<and> (\<forall>a\<in>set_option (cr_default_agent r). ok_name a) \<and> stored_list encode ok_name (cr_allowed_agents r)
     \<and> stored_list encode (\<lambda>m. m \<in> set output_modes) (cr_output_mode r)"

definition store_ok :: "(string list \<Rightarrow> string) \<Rightarrow> client_row list \<Rightarrow> bool" where
  "store_ok encode rows \<longleftrightarrow>
     distinct (map cr_id rows) \<and> distinct (map cr_client_key rows) \<and> list_all (row_ok encode) rows"

lemma find_id:
  assumes "distinct (map f rows)" "r \<in> set rows"
  shows "find (\<lambda>o'. f o' = f r) rows = Some r"
  using assms by (induction rows) (auto simp: rev_image_eqI)

lemma get_or_404_found: "get_or_404 cid rows = Inr r \<Longrightarrow> r \<in> set rows \<and> cr_id r = cid"
  by (auto simp: get_or_404_def find_Some_iff split: option.splits)

lemma commits_iff: "commits r others \<longleftrightarrow> cr_id r \<notin> cr_id ` set others \<and> cr_client_key r \<notin> cr_client_key ` set others"
  by (fastforce simp: commits_def list_all_iff image_iff)

lemma split_ids:
  assumes "distinct (map cr_id (xs @ r # ys))" "x \<in> set xs \<union> set ys"
  shows "cr_id x \<noteq> cr_id r"
proof
  assume "cr_id x = cr_id r"
  then have "cr_id r \<in> cr_id ` (set xs \<union> set ys)" using assms(2) by (metis imageI)
  then show False using assms(1) by auto
qed

lemma save_row_split:
  assumes "distinct (map cr_id (xs @ r # ys))" "cr_id r1 = cr_id r"
  shows "save_row r1 (xs @ r # ys) = xs @ r1 # ys"
proof -
  have "map (\<lambda>o'. if cr_id o' = cr_id r then r1 else o') zs = zs" if "set zs \<subseteq> set xs \<union> set ys" for zs
    using split_ids[OF assms(1)] that by (intro map_idI) auto
  then show ?thesis by (simp add: save_row_def assms(2))
qed

lemma other_rows:
  assumes "distinct (map cr_id (xs @ r # ys))"
  shows "filter (\<lambda>o'. cr_id o' \<noteq> cr_id r) (xs @ r # ys) = xs @ ys"
proof -
  have "filter (\<lambda>o'. cr_id o' \<noteq> cr_id r) zs = zs" if "set zs \<subseteq> set xs \<union> set ys" for zs
    using split_ids[OF assms] that by (intro filter_True) auto
  then show ?thesis by simp
qed

lemma store_ok_save:
  assumes "store_ok encode rows" "r \<in> set rows" "row_ok encode r1" "cr_id r1 = cr_id r"
    "commits r1 (filter (\<lambda>o'. cr_id o' \<noteq> cr_id r) rows)"
  shows "store_ok encode (save_row r1 rows)"
proof -
  obtain xs ys where s: "rows = xs @ r # ys" using split_list[OF assms(2)] by blast
  have d: "distinct (map cr_id (xs @ r # ys))" using assms(1) by (simp add: store_ok_def s)
  have "commits r1 (xs @ ys)" using assms(5) other_rows[OF d] by (simp add: s)
  then show ?thesis
    using assms(1,3,4) unfolding s save_row_split[OF d assms(4)] store_ok_def commits_iff by auto
qed

lemma stored_list_encoded: "\<forall>xs\<in>set_option o'. list_all P xs \<Longrightarrow> stored_list encode P (map_option encode o')"
  by (cases o') (auto simp: stored_list_def)

lemma create_row_ok:
  assumes "valid_create b"
  shows "row_ok encode (new_row encode cid now k b)"
  using assms stored_list_encoded[of "cc_allowed_agents b" ok_name encode]
    stored_list_encoded[of "cc_output_mode b" "\<lambda>m. m \<in> set output_modes" encode]
  by (auto simp: row_ok_def new_row_def valid_create_def list_all_iff subset_iff)

lemma put_field_ok: "field_ok P f \<Longrightarrow> P old \<Longrightarrow> P (put_field f old)"
  by (auto simp: field_ok_def put_field_def split: patch_field.splits option.splits)

lemma patch_config_ok:
  assumes "valid_update b" "ok_config c"
  shows "ok_config (patch_config b c)"
  using assms put_field_ok[of ok_text "cu_stt_language b"] put_field_ok[of ok_text "cu_tts_voice b"]
    put_field_ok[of "\<lambda>v. 0 \<le> v \<and> v \<le> 1" "cu_stt_vad_thold b"] put_field_ok[of "\<lambda>v. 0 < v \<and> v \<le> 10" "cu_tts_speed b"]
    put_field_ok[of "\<lambda>v. 1 \<le> v \<and> v \<le> 10000" "cu_barge_in_min_chars b"]
    put_field_ok[of "\<lambda>v. 0 < v \<and> v \<le> 86400" "cu_silence_timeout_s b"]
    put_field_ok[of "\<lambda>v. 1 \<le> v \<and> v \<le> 10000" "cu_max_silence_turns b"]
  by (simp add: ok_config_def patch_config_def valid_update_def)

lemma put_nullable_list_ok:
  assumes "nullable_ok (list_all P) f" "stored_list encode P old"
  shows "stored_list encode P (put_nullable encode f old)"
  using assms by (auto simp: nullable_ok_def put_nullable_def stored_list_def split: patch_field.splits option.splits)

lemma patch_row_ok:
  assumes "valid_update b" "row_ok encode r"
  shows "row_ok encode (patch_row encode b r)"
proof -
  have "ok_name (cr_name (patch_row encode b r))" "ok_config (cr_config (patch_row encode b r))"
    using assms put_field_ok[of ok_name "cu_name b"] patch_config_ok[OF assms(1)]
    by (simp_all add: row_ok_def patch_row_def valid_update_def)
  moreover have "stored_list encode ok_name (cr_allowed_agents (patch_row encode b r))"
    "stored_list encode (\<lambda>m. m \<in> set output_modes) (cr_output_mode (patch_row encode b r))"
    using assms put_nullable_list_ok by (simp_all add: row_ok_def patch_row_def valid_update_def)
  moreover have "\<forall>t\<in>set_option (cr_client_type (patch_row encode b r)). t \<in> set client_types"
    "\<forall>a\<in>set_option (cr_default_agent (patch_row encode b r)). ok_name a"
    using assms
    by (auto simp: row_ok_def patch_row_def valid_update_def nullable_ok_def put_nullable_def
        split: patch_field.splits option.splits)
  ultimately show ?thesis by (simp add: row_ok_def)
qed

lemma rotate_attempts_found:
  "rotate_attempts ks r rows = Some r1 \<Longrightarrow>
   \<exists>k\<in>set ks. r1 = r\<lparr>cr_client_key := k\<rparr> \<and> commits r1 (filter (\<lambda>o'. cr_id o' \<noteq> cr_id r) rows)"
  by (induction ks) (auto simp: Let_def split: if_splits)

lemma store_ok_step:
  assumes "store_ok encode rows"
  shows "store_ok encode (store_step encode decode rows a)"
proof (cases a)
  case (OpCreate cid now k b)
  show ?thesis
    using assms create_row_ok[of b encode cid now k]
    by (auto simp: OpCreate store_step_def create_client_def store_ok_def commits_iff Let_def split: option.splits)
next
  case (OpUpdate cid b)
  show ?thesis
  proof (cases "get_or_404 cid rows")
    case (Inr r)
    then have r: "r \<in> set rows" using get_or_404_found by blast
    then have "row_ok encode r" using assms by (auto simp: store_ok_def list_all_iff)
    moreover have "commits (patch_row encode b r) (filter (\<lambda>o'. cr_id o' \<noteq> cr_id r) rows)"
    proof -
      obtain xs ys where s: "rows = xs @ r # ys" using split_list[OF r] by blast
      then show ?thesis using assms other_rows[of xs r ys]
        by (auto simp: commits_iff store_ok_def patch_row_def)
    qed
    ultimately show ?thesis
      using assms store_ok_save[OF assms r patch_row_ok[of b encode r]] Inr
      by (auto simp: OpUpdate store_step_def update_client_def Let_def patch_row_def split: option.splits)
  qed (use assms in \<open>simp add: OpUpdate store_step_def update_client_def\<close>)
next
  case (OpDelete cid)
  then show ?thesis using assms
    by (auto simp: store_step_def delete_client_def store_ok_def list_all_iff distinct_map inj_on_def split: sum.splits)
next
  case (OpRotate gen cid)
  show ?thesis
  proof (cases "get_or_404 cid rows")
    case (Inr r)
    then have r: "r \<in> set rows" using get_or_404_found by blast
    have "store_ok encode (save_row r1 rows)" if f: "rotate_attempts ks r rows = Some r1" for ks r1
    proof -
      obtain k where k: "r1 = r\<lparr>cr_client_key := k\<rparr>" "commits r1 (filter (\<lambda>o'. cr_id o' \<noteq> cr_id r) rows)"
        using rotate_attempts_found[OF f] by blast
      have "row_ok encode r" using assms r by (auto simp: store_ok_def list_all_iff)
      then show ?thesis using store_ok_save[OF assms r _ _ k(2)] k(1) by (simp add: row_ok_def)
    qed
    then show ?thesis using assms Inr
      by (auto simp: OpRotate store_step_def rotate_client_key_def split: option.splits)
  qed (use assms in \<open>simp add: OpRotate store_step_def rotate_client_key_def\<close>)
qed

lemma store_ok_run: "store_ok encode (store_run encode decode ops)"
  unfolding store_run_def
  by (rule foldl_invariant) (auto simp: store_ok_step, simp add: store_ok_def)

section \<open>Reading back what was stored\<close>

text \<open>
  What the code relies on of \<open>json\<close>: reading a list of strings that was written gives it back, the text
  of a list is neither empty nor \<open>null\<close>, and \<open>str\<close> of a string is that string.
\<close>

definition json_laws :: "(string list \<Rightarrow> string) \<Rightarrow> (string \<Rightarrow> json option) \<Rightarrow> (json \<Rightarrow> string) \<Rightarrow> bool" where
  "json_laws encode decode py_str \<longleftrightarrow>
     (\<forall>xs. decode (encode xs) = Some (JArr (map JStr xs)) \<and> encode xs \<noteq> [] \<and> encode xs \<noteq> ''null'')
     \<and> (\<forall>s. py_str (JStr s) = s)"

lemma json_lawsD:
  assumes "json_laws encode decode py_str"
  shows "decode (encode xs) = Some (JArr (map JStr xs))" "encode xs \<noteq> []" "encode xs \<noteq> ''null''" "py_str (JStr s) = s"
  using assms by (simp_all add: json_laws_def)

lemma encode_inj:
  assumes "json_laws encode decode py_str" "encode xs = encode ys"
  shows "xs = ys"
proof -
  have "JArr (map JStr xs) = JArr (map JStr ys)"
    using json_lawsD(1)[OF assms(1), of xs] json_lawsD(1)[OF assms(1), of ys] assms(2) by simp
  then show ?thesis by (metis inj_map_eq_map inj_onI json.inject(4,5))
qed

definition agents_ok :: "(string list \<Rightarrow> string) \<Rightarrow> client_row \<Rightarrow> bool" where
  "agents_ok encode r \<longleftrightarrow>
     (\<forall>a xs. cr_default_agent r = Some a \<and> cr_allowed_agents r = Some (encode xs) \<longrightarrow> a \<in> set xs)"

lemma check_lists:
  "check_agent_consistency d (json_list xs) = None \<Longrightarrow> d = Some a \<Longrightarrow> xs = Some ys \<Longrightarrow> a \<in> set ys"
  by (auto simp: check_agent_consistency_def json_list_def py_in_def split: if_splits bool.splits)

lemma parse_stored:
  assumes "json_laws encode decode py_str"
  shows "parse_allowed_agents decode py_str (map_option encode al) = Inr al"
  using json_lawsD[OF assms] by (cases al) (auto simp: parse_allowed_agents_def or_empty_def comp_def)

lemma load_stored:
  assumes "json_laws encode decode py_str"
  shows "load_column decode (map_option encode al) = Some (json_list al)"
  using json_lawsD[OF assms] by (cases al) (auto simp: load_column_def or_empty_def json_list_def)

lemma agents_ok_patch:
  assumes l: "json_laws encode decode py_str" and u: "update_check decode b r = None"
    and ok: "agents_ok encode r" "row_ok encode r"
  shows "agents_ok encode (patch_row encode b r)"
  unfolding agents_ok_def
proof (intro allI impI, elim conjE)
  fix a xs assume d: "cr_default_agent (patch_row encode b r) = Some a"
    and al: "cr_allowed_agents (patch_row encode b r) = Some (encode xs)"
  have d': "put_nullable id (cu_default_agent b) (cr_default_agent r) = Some a" using d by (simp add: patch_row_def)
  show "a \<in> set xs"
  proof (cases "cu_allowed_agents b")
    case Unset
    then have st: "cr_allowed_agents r = Some (encode xs)" using al by (simp add: patch_row_def put_nullable_def)
    show ?thesis
    proof (cases "cu_default_agent b = Unset")
      case True
      then show ?thesis using d' st ok(1) by (auto simp: agents_ok_def put_nullable_def)
    next
      case False
      then have "check_agent_consistency (Some a) (json_list (Some xs)) = None"
        using u Unset d' st load_stored[OF l, of "Some xs"] by (simp add: update_check_def)
      then show ?thesis using check_lists by blast
    qed
  next
    case (SetTo v)
    then obtain ys where ys: "v = Some ys" "encode ys = encode xs"
      using al by (auto simp: patch_row_def put_nullable_def)
    then have "ys = xs" using encode_inj[OF l] by blast
    then have "check_agent_consistency (Some a) (json_list (Some xs)) = None"
      using u SetTo d' ys(1) by (simp add: update_check_def)
    then show ?thesis using check_lists by blast
  qed
qed

lemma agents_ok_step:
  assumes l: "json_laws encode decode py_str" and s: "store_ok encode rows" "list_all (agents_ok encode) rows"
  shows "list_all (agents_ok encode) (store_step encode decode rows a)"
proof -
  have save: "list_all (agents_ok encode) (save_row r1 rows)" if "agents_ok encode r1" for r1
    using s(2) that by (auto simp: save_row_def list_all_iff)
  have mem: "agents_ok encode r \<and> row_ok encode r" if "get_or_404 cid rows = Inr r" for cid r
    using get_or_404_found[OF that] s by (auto simp: store_ok_def list_all_iff)
  show ?thesis
  proof (cases a)
    case (OpCreate cid now k b)
    have "agents_ok encode (new_row encode cid now k b)"
      if "check_agent_consistency (cc_default_agent b) (json_list (cc_allowed_agents b)) = None"
      using check_lists[OF that] encode_inj[OF l] by (auto simp: agents_ok_def new_row_def)
    then show ?thesis using s(2) OpCreate
      by (auto simp: store_step_def create_client_def Let_def split: option.splits)
  next
    case (OpUpdate cid b)
    then show ?thesis using s(2) save agents_ok_patch[OF l] mem
      by (auto simp: store_step_def update_client_def Let_def split: option.splits sum.splits)
  next
    case (OpDelete cid)
    then show ?thesis using s(2) by (auto simp: store_step_def delete_client_def list_all_iff split: sum.splits)
  next
    case (OpRotate gen cid)
    have "agents_ok encode r1" if "get_or_404 cid rows = Inr r" "rotate_attempts ks r rows = Some r1" for r r1 ks
      using mem[OF that(1)] rotate_attempts_found[OF that(2)] by (auto simp: agents_ok_def)
    then show ?thesis using s(2) OpRotate save
      by (auto simp: store_step_def rotate_client_key_def split: option.splits sum.splits)
  qed
qed

lemma agents_ok_run:
  assumes "json_laws encode decode py_str"
  shows "list_all (agents_ok encode) (store_run encode decode ops)"
proof -
  have "store_ok encode (foldl (store_step encode decode) [] ops)
    \<and> list_all (agents_ok encode) (foldl (store_step encode decode) [] ops)"
    by (rule foldl_invariant) (auto simp: store_ok_step agents_ok_step[OF assms], simp add: store_ok_def)
  then show ?thesis by (simp add: store_run_def)
qed

text \<open>What a lookup answers for the key of a row.\<close>

lemma lookup_row:
  assumes l: "json_laws encode decode py_str" and s: "store_ok encode rows" and r: "r \<in> set rows"
  shows "if cr_is_active r
    then \<exists>al. cr_allowed_agents r = map_option encode al \<and> db_lookup decode py_str (cr_client_key r) rows =
      Inr (\<lparr>cl_id = cr_id r, cl_key = cr_client_key r, cl_is_active = True, cl_name = cr_name r\<rparr>,
           \<lparr>sc_pipeline = cr_config r, sc_agents = \<lparr>default_agent = cr_default_agent r, allowed_agents = al\<rparr>\<rparr>)
    else db_lookup decode py_str (cr_client_key r) rows = Inl ClientInactive"
proof -
  have "stored_list encode ok_name (cr_allowed_agents r)" using s r by (auto simp: store_ok_def list_all_iff row_ok_def)
  then obtain al where al: "cr_allowed_agents r = map_option encode al"
    unfolding stored_list_def by (metis option.map(1,2))
  have "find (\<lambda>o'. cr_client_key o' = cr_client_key r) rows = Some r"
    using find_id[of cr_client_key rows r] s r by (simp add: store_ok_def)
  then show ?thesis using al parse_stored[OF l, of al] by (auto simp: db_lookup_def)
qed

lemma lookup_none: "key \<notin> cr_client_key ` set rows \<Longrightarrow> db_lookup decode py_str key rows = Inl ClientNotFound"
proof -
  assume "key \<notin> cr_client_key ` set rows"
  then have "find (\<lambda>r. cr_client_key r = key) rows = None" by (auto simp: find_None_iff)
  then show ?thesis by (simp add: db_lookup_def)
qed

lemma lookup_cong:
  assumes "find (\<lambda>r. cr_client_key r = key) rows = find (\<lambda>r. cr_client_key r = key) rows'"
  shows "db_lookup decode py_str key rows = db_lookup decode py_str key rows'"
  using assms by (simp add: db_lookup_def)

text \<open>A change of one row leaves the lookups of the other keys as they were.\<close>

lemma lookup_other:
  assumes s: "store_ok encode (xs @ r # ys)" and x: "x \<in> set xs \<union> set ys"
    and m: "set mid \<subseteq> {r1}" "cr_client_key r1 \<noteq> cr_client_key x"
  shows "db_lookup decode py_str (cr_client_key x) (xs @ mid @ ys) = db_lookup decode py_str (cr_client_key x) (xs @ r # ys)"
proof (rule lookup_cong)
  have k: "distinct (map cr_client_key (xs @ r # ys))" using s by (simp add: store_ok_def)
  have "cr_client_key r \<noteq> cr_client_key x"
  proof
    assume "cr_client_key r = cr_client_key x"
    then have "cr_client_key r \<in> cr_client_key ` (set xs \<union> set ys)" using x by (metis imageI)
    then show False using k by auto
  qed
  then have f: "filter (\<lambda>o'. cr_client_key o' = cr_client_key x) (xs @ r # ys) =
      filter (\<lambda>o'. cr_client_key o' = cr_client_key x) (xs @ mid @ ys)"
    using m by (auto simp: filter_empty_conv)
  have "find P zs = (case filter P zs of [] \<Rightarrow> None | z # _ \<Rightarrow> Some z)" for P :: "client_row \<Rightarrow> bool" and zs
    by (induction zs) auto
  then show "find (\<lambda>o'. cr_client_key o' = cr_client_key x) (xs @ mid @ ys) =
      find (\<lambda>o'. cr_client_key o' = cr_client_key x) (xs @ r # ys)" using f by simp
qed

section \<open>An instance of the laws\<close>

text \<open>Every character behind a mark, every string with an end: a codec for which the laws can be computed.\<close>

definition mark_string :: "string \<Rightarrow> string" where
  "mark_string s = concat (map (\<lambda>c. [CHR ''c'', c]) s) @ '',''"

definition mark_encode :: "string list \<Rightarrow> string" where
  "mark_encode xs = CHR ''['' # concat (map mark_string xs)"

fun mark_read :: "string \<Rightarrow> string \<Rightarrow> string list option" where
  "mark_read cur [] = (if cur = [] then Some [] else None)"
| "mark_read cur [c] = (if c = CHR '','' then Some [cur] else None)"
| "mark_read cur (c # d # rest) =
     (if c = CHR '','' then map_option (\<lambda>xs. cur # xs) (mark_read [] (d # rest)) else mark_read (cur @ [d]) rest)"

definition mark_decode :: "string \<Rightarrow> json option" where
  "mark_decode s = (case s of [] \<Rightarrow> None | c # rest \<Rightarrow> map_option (\<lambda>xs. JArr (map JStr xs)) (mark_read [] rest))"

definition plain_str :: "json \<Rightarrow> string" where
  "plain_str j = (case j of JStr s \<Rightarrow> s | _ \<Rightarrow> [])"

lemma mark_read_end: "mark_read cur (CHR '','' # rest) = (if rest = [] then Some [cur] else map_option (\<lambda>xs. cur # xs) (mark_read [] rest))"
  by (cases rest) simp_all

lemma mark_read_string:
  "mark_read cur (mark_string s @ rest) =
     (if rest = [] then Some [cur @ s] else map_option (\<lambda>xs. (cur @ s) # xs) (mark_read [] rest))"
proof (induction s arbitrary: cur)
  case Nil
  then show ?case by (simp add: mark_string_def mark_read_end)
next
  case (Cons c s)
  have "mark_string (c # s) @ rest = CHR ''c'' # c # mark_string s @ rest" by (simp add: mark_string_def)
  then show ?case using Cons[of "cur @ [c]"] by simp
qed

lemma mark_read_strings: "mark_read [] (concat (map mark_string xs)) = Some xs"
proof (induction xs)
  case (Cons x xs)
  have "mark_string y \<noteq> []" for y by (simp add: mark_string_def)
  then have "concat (map mark_string xs) = [] \<longleftrightarrow> xs = []" by (cases xs) auto
  then show ?case using Cons mark_read_string[of "[]" x "concat (map mark_string xs)"] by auto
qed simp

lemma mark_laws: "json_laws mark_encode mark_decode plain_str"
proof -
  have "mark_decode (mark_encode xs) = Some (JArr (map JStr xs))" for xs
    by (simp add: mark_decode_def mark_encode_def mark_read_strings)
  moreover have "mark_encode xs \<noteq> [] \<and> mark_encode xs \<noteq> ''null''" for xs by (simp add: mark_encode_def)
  ultimately show ?thesis by (simp add: json_laws_def plain_str_def)
qed

text \<open>One request: a client with a default agent and a list that has it.\<close>

definition demo_body :: client_create where
  "demo_body = \<lparr>cc_name = ''esp'', cc_client_key = None, cc_client_type = Some ''esp32'', cc_default_agent = Some ''home'',
                cc_allowed_agents = Some [''home'', ''work''], cc_config = default_config, cc_output_mode = None\<rparr>"

definition demo_row :: client_row where
  "demo_row = new_row mark_encode ''1'' 0 ''key1'' demo_body"

definition demo_ops :: "store_op list" where
  "demo_ops = [OpCreate ''1'' 0 ''key1'' demo_body, OpCreate ''2'' 0 ''key2'' demo_body]"

definition demo_row2 :: client_row where
  "demo_row2 = new_row mark_encode ''2'' 0 ''key2'' demo_body"

lemma demo_store_run:
  "store_run mark_encode mark_decode [OpCreate ''1'' 0 ''key1'' demo_body] = [demo_row]"
  "store_run mark_encode mark_decode demo_ops = [demo_row, demo_row2]"
proof -
  have "strip ''esp'' = ''esp''" "strip ''home'' = ''home''" "strip ''work'' = ''work''"
    by (simp_all add: strip_def lstrip_def rstrip_def py_isspace_def)
  then have "valid_create demo_body"
    by (simp add: valid_create_def demo_body_def ok_name_def ok_config_def default_config_def ok_text_def client_types_def)
  moreover have "check_agent_consistency (cc_default_agent demo_body) (json_list (cc_allowed_agents demo_body)) = None"
    by (simp add: check_agent_consistency_def demo_body_def json_list_def py_in_def)
  moreover have "cr_id (new_row e c n k demo_body) = c" "cr_client_key (new_row e c n k demo_body) = k" for e c n k
    by (simp_all add: new_row_def demo_body_def or_empty_def)
  ultimately show "store_run mark_encode mark_decode [OpCreate ''1'' 0 ''key1'' demo_body] = [demo_row]"
    "store_run mark_encode mark_decode demo_ops = [demo_row, demo_row2]"
    by (simp_all add: store_run_def store_step_def create_client_def demo_row_def demo_row2_def demo_ops_def
        commits_def Let_def)
qed

lemma reachable_split:
  assumes "rows = store_run encode decode ops" "r \<in> set rows"
  obtains xs ys where "rows = xs @ r # ys" "distinct (map cr_id (xs @ r # ys))"
    "distinct (map cr_client_key (xs @ r # ys))" "get_or_404 (cr_id r) rows = Inr r"
    "find (\<lambda>o'. cr_client_key o' = cr_client_key r) rows = Some r"
proof -
  have s: "store_ok encode rows" unfolding assms(1) by (rule store_ok_run)
  obtain xs ys where sp: "rows = xs @ r # ys" using split_list[OF assms(2)] by blast
  show thesis
    by (rule that[OF sp]) (use s sp find_id[of cr_id rows r] find_id[of cr_client_key rows r] assms(2) in
        \<open>simp_all add: store_ok_def get_or_404_def\<close>)
qed

lemma rotated:
  assumes rows: "rows = store_run encode decode ops" "r \<in> set rows"
    and rt: "rotate_client_key gen (cr_id r) rows = (Inr r1, rows')"
  shows "\<exists>xs ys nk. rows = xs @ r # ys \<and> rows' = xs @ [r1] @ ys \<and> r1 = r\<lparr>cr_client_key := nk\<rparr>
    \<and> nk \<notin> cr_client_key ` set (xs @ ys) \<and> find (\<lambda>o'. cr_client_key o' = nk) rows' = Some r1"
proof -
  obtain xs ys where sp: "rows = xs @ r # ys" "distinct (map cr_id (xs @ r # ys))"
    "distinct (map cr_client_key (xs @ r # ys))" "get_or_404 (cr_id r) rows = Inr r"
    using reachable_split[OF rows] by metis
  obtain ks where "rotate_attempts ks r rows = Some r1" "rows' = save_row r1 rows"
    using rt sp(4) by (auto simp: rotate_client_key_def split: option.splits)
  then obtain nk where nk: "r1 = r\<lparr>cr_client_key := nk\<rparr>" "commits r1 (xs @ ys)" "rows' = xs @ [r1] @ ys"
    using rotate_attempts_found[of ks r rows r1] other_rows[OF sp(2)] save_row_split[OF sp(2), of r1] sp(1) by auto
  then have fresh: "nk \<notin> cr_client_key ` set (xs @ ys)" by (auto simp: commits_iff)
  then have "distinct (map cr_client_key rows')" using sp(3) nk by auto
  then have "find (\<lambda>o'. cr_client_key o' = nk) rows' = Some r1"
    using find_id[of cr_client_key rows' r1] nk(1,3) by simp
  then show ?thesis using sp(1) nk fresh by blast
qed

lemma deleted:
  assumes rows: "rows = store_run encode decode ops" "r \<in> set rows"
    and del: "delete_client (cr_id r) rows = (u, rows')"
  shows "\<exists>xs ys. rows = xs @ r # ys \<and> rows' = xs @ ys \<and> cr_client_key r \<notin> cr_client_key ` set rows'"
proof -
  obtain xs ys where sp: "rows = xs @ r # ys" "distinct (map cr_id (xs @ r # ys))"
    "distinct (map cr_client_key (xs @ r # ys))" "get_or_404 (cr_id r) rows = Inr r"
    using reachable_split[OF rows] by metis
  have "rows' = xs @ ys" using del sp(4) other_rows[OF sp(2)] by (simp add: delete_client_def sp(1))
  then show ?thesis using sp(1,3) by auto
qed

lemma updated:
  assumes rows: "rows = store_run encode decode ops" "r \<in> set rows"
    and up: "update_client encode decode (cr_id r) b rows = (Inr r1, rows')"
  shows "\<exists>xs ys. rows = xs @ r # ys \<and> rows' = xs @ [r1] @ ys \<and> r1 = patch_row encode b r
    \<and> find (\<lambda>o'. cr_client_key o' = cr_client_key r) rows' = Some r1"
proof -
  obtain xs ys where sp: "rows = xs @ r # ys" "distinct (map cr_id (xs @ r # ys))"
    "distinct (map cr_client_key (xs @ r # ys))" "get_or_404 (cr_id r) rows = Inr r"
    using reachable_split[OF rows] by metis
  have r1: "r1 = patch_row encode b r" "rows' = save_row r1 rows"
    using up sp(4) by (auto simp: update_client_def Let_def split: option.splits)
  then have ids: "cr_id r1 = cr_id r" "cr_client_key r1 = cr_client_key r" by (simp_all add: patch_row_def)
  then have rows': "rows' = xs @ [r1] @ ys" using r1(2) save_row_split[OF sp(2) ids(1)] sp(1) by simp
  then have "distinct (map cr_client_key rows')" using sp(3) ids(2) by simp
  then have "find (\<lambda>o'. cr_client_key o' = cr_client_key r) rows' = Some r1"
    using find_id[of cr_client_key rows' r1] rows' ids(2) by simp
  then show ?thesis using sp(1) rows' r1(1) by blast
qed

section \<open>Properties\<close>



text \<open>
  C16: What an administrator stored is what a session gets: the key of an active client gives exactly its row and its
  allowlist read back as it was written, an inactive client and an unknown key are rejected, and a client that asks
  for no agent always gets its default one, since no request leaves a default outside the list.
\<close>

theorem stored_client_gets_its_agent:
  assumes "json_laws encode decode py_str" "r \<in> set (store_run encode decode ops)" "cr_is_active r"
  shows "\<exists>al. cr_allowed_agents r = map_option encode al
    \<and> db_lookup decode py_str (cr_client_key r) (store_run encode decode ops) =
        Inr (\<lparr>cl_id = cr_id r, cl_key = cr_client_key r, cl_is_active = True, cl_name = cr_name r\<rparr>,
             \<lparr>sc_pipeline = cr_config r, sc_agents = \<lparr>default_agent = cr_default_agent r, allowed_agents = al\<rparr>\<rparr>)
    \<and> (\<forall>a. cr_default_agent r = Some a \<longrightarrow>
          resolve_agent None (Some \<lparr>default_agent = cr_default_agent r, allowed_agents = al\<rparr>) info = Inr (JStr a))"
proof -
  let ?rows = "store_run encode decode ops"
  have s: "store_ok encode ?rows" by (rule store_ok_run)
  obtain al where al: "cr_allowed_agents r = map_option encode al"
    "db_lookup decode py_str (cr_client_key r) ?rows =
      Inr (\<lparr>cl_id = cr_id r, cl_key = cr_client_key r, cl_is_active = True, cl_name = cr_name r\<rparr>,
           \<lparr>sc_pipeline = cr_config r, sc_agents = \<lparr>default_agent = cr_default_agent r, allowed_agents = al\<rparr>\<rparr>)"
    using lookup_row[OF assms(1) s assms(2)] assms(3) by auto
  have "resolve_agent None (Some \<lparr>default_agent = cr_default_agent r, allowed_agents = al\<rparr>) info = Inr (JStr a)"
    if a: "cr_default_agent r = Some a" for a
  proof -
    have "agents_ok encode r" "row_ok encode r"
      using agents_ok_run[OF assms(1), of ops] s assms(2) by (auto simp: list_all_iff store_ok_def)
    then have "ok_name a" "\<And>xs. al = Some xs \<Longrightarrow> a \<in> set xs" using a al(1) by (auto simp: agents_ok_def row_ok_def)
    then show ?thesis using a
      by (auto simp: resolve_agent_def effective_agent_def or_empty_def ok_name_def Let_def split: option.splits)
  qed
  then show ?thesis using al by blast
qed

theorem stored_client_gets_its_agent_witness:
  "\<exists>cl cfg. db_lookup mark_decode plain_str ''key1'' [demo_row] = Inr (cl, cfg) \<and>
     resolve_agent None (Some \<lparr>default_agent = Some ''home'', allowed_agents = Some [''home'', ''work'']\<rparr>) None = Inr (JStr ''home'')"
proof -
  have d: "cr_is_active demo_row" "cr_client_key demo_row = ''key1''" "cr_default_agent demo_row = Some ''home''"
    "cr_allowed_agents demo_row = map_option mark_encode (Some [''home'', ''work''])"
    by (simp_all add: demo_row_def new_row_def demo_body_def or_empty_def)
  obtain al where al: "cr_allowed_agents demo_row = map_option mark_encode al"
    "\<exists>cl cfg. db_lookup mark_decode plain_str ''key1'' [demo_row] = Inr (cl, cfg)"
    "resolve_agent None (Some \<lparr>default_agent = Some ''home'', allowed_agents = al\<rparr>) None = Inr (JStr ''home'')"
    using stored_client_gets_its_agent[OF mark_laws, of demo_row "[OpCreate ''1'' 0 ''key1'' demo_body]" None]
      d(1-3) demo_store_run by auto
  then have "al = Some [''home'', ''work'']" using d(4) encode_inj[OF mark_laws] by (cases al) auto
  then show ?thesis using al by simp
qed

text \<open>
  A key that was rotated away or whose client was deleted stops working at once, a deactivated client is rejected, and
  the new key of a rotation gives the same client; no other client's key is affected.
\<close>

theorem revoked_key_is_rejected:
  assumes rows: "rows = store_run encode decode ops" and r: "r \<in> set rows" and x: "x \<in> set rows" "cr_id x \<noteq> cr_id r"
  shows "(\<forall>r1 rows'. rotate_client_key gen (cr_id r) rows = (Inr r1, rows') \<longrightarrow>
            (cr_client_key r1 \<noteq> cr_client_key r \<longrightarrow> db_lookup decode py_str (cr_client_key r) rows' = Inl ClientNotFound)
            \<and> (\<forall>cl cfg. db_lookup decode py_str (cr_client_key r) rows = Inr (cl, cfg) \<longrightarrow>
                 db_lookup decode py_str (cr_client_key r1) rows' = Inr (cl\<lparr>cl_key := cr_client_key r1\<rparr>, cfg))
            \<and> db_lookup decode py_str (cr_client_key x) rows' = db_lookup decode py_str (cr_client_key x) rows)
    \<and> (\<forall>rows'. delete_client (cr_id r) rows = (Inr (), rows') \<longrightarrow>
            db_lookup decode py_str (cr_client_key r) rows' = Inl ClientNotFound
            \<and> db_lookup decode py_str (cr_client_key x) rows' = db_lookup decode py_str (cr_client_key x) rows)
    \<and> (\<forall>b r1 rows'. cu_is_active b = SetTo (Some False)
            \<and> update_client encode decode (cr_id r) b rows = (Inr r1, rows') \<longrightarrow>
            db_lookup decode py_str (cr_client_key r) rows' = Inl ClientInactive
            \<and> db_lookup decode py_str (cr_client_key x) rows' = db_lookup decode py_str (cr_client_key x) rows)"
proof -
  have s: "store_ok encode rows" unfolding rows by (rule store_ok_run)
  have other: "db_lookup decode py_str (cr_client_key x) (xs @ mid @ ys) = db_lookup decode py_str (cr_client_key x) rows"
    if sp: "rows = xs @ r # ys" and m: "set mid \<subseteq> {r1}" "cr_client_key r1 \<noteq> cr_client_key x" for xs ys mid r1
  proof -
    have "x \<in> set xs \<union> set ys" using x sp by auto
    then show ?thesis using lookup_other[OF s[unfolded sp] _ m] sp by simp
  qed
  have xr: "cr_client_key r \<noteq> cr_client_key x" using s r x by (metis store_ok_def find_id option.inject)
  have fr: "find (\<lambda>o'. cr_client_key o' = cr_client_key r) rows = Some r"
    using find_id[of cr_client_key rows r] s r by (simp add: store_ok_def)
  have rot: "(cr_client_key r1 \<noteq> cr_client_key r \<longrightarrow> db_lookup decode py_str (cr_client_key r) rows' = Inl ClientNotFound)
      \<and> (\<forall>cl cfg. db_lookup decode py_str (cr_client_key r) rows = Inr (cl, cfg) \<longrightarrow>
           db_lookup decode py_str (cr_client_key r1) rows' = Inr (cl\<lparr>cl_key := cr_client_key r1\<rparr>, cfg))
      \<and> db_lookup decode py_str (cr_client_key x) rows' = db_lookup decode py_str (cr_client_key x) rows"
    if rt: "rotate_client_key gen (cr_id r) rows = (Inr r1, rows')" for r1 rows'
  proof -
    obtain xs ys nk where n: "rows = xs @ r # ys" "rows' = xs @ [r1] @ ys" "r1 = r\<lparr>cr_client_key := nk\<rparr>"
      "nk \<notin> cr_client_key ` set (xs @ ys)" "find (\<lambda>o'. cr_client_key o' = nk) rows' = Some r1"
      using rotated[OF rows r rt] by blast
    have "cr_client_key r1 \<noteq> cr_client_key x" using n(1,3,4) x by auto
    moreover have "cr_client_key r \<notin> cr_client_key ` set (xs @ ys)" using s n(1) by (auto simp: store_ok_def)
    ultimately show ?thesis
      using n other[OF n(1), of "[r1]" r1] lookup_none[of "cr_client_key r" rows' decode py_str] fr
      by (auto simp: db_lookup_def split: if_splits sum.splits)
  qed
  have del: "db_lookup decode py_str (cr_client_key r) rows' = Inl ClientNotFound
      \<and> db_lookup decode py_str (cr_client_key x) rows' = db_lookup decode py_str (cr_client_key x) rows"
    if d: "delete_client (cr_id r) rows = (Inr (), rows')" for rows'
    using deleted[OF rows r d] lookup_none other[of _ _ "[]" r] xr by fastforce
  have upd: "db_lookup decode py_str (cr_client_key r) rows' = Inl ClientInactive
      \<and> db_lookup decode py_str (cr_client_key x) rows' = db_lookup decode py_str (cr_client_key x) rows"
    if b: "cu_is_active b = SetTo (Some False)" and u: "update_client encode decode (cr_id r) b rows = (Inr r1, rows')"
    for b r1 rows'
  proof -
    obtain xs ys where n: "rows = xs @ r # ys" "rows' = xs @ [r1] @ ys" "r1 = patch_row encode b r"
      "find (\<lambda>o'. cr_client_key o' = cr_client_key r) rows' = Some r1"
      using updated[OF rows r u] by blast
    have "\<not> cr_is_active r1" "cr_client_key r1 = cr_client_key r" using n(3) b by (simp_all add: patch_row_def put_field_def)
    then show ?thesis using n other[OF n(1), of "[r1]" r1] xr by (simp add: db_lookup_def)
  qed
  show ?thesis using rot del upd by blast
qed

theorem revoked_key_is_rejected_witness:
  "delete_client ''1'' [demo_row, demo_row2] = (Inr (), [demo_row2]) \<and>
   db_lookup mark_decode plain_str ''key1'' [demo_row2] = Inl ClientNotFound"
proof -
  have d: "cr_id demo_row = ''1''" "cr_id demo_row2 = ''2''" "cr_client_key demo_row = ''key1''"
    by (simp_all add: demo_row_def demo_row2_def new_row_def demo_body_def or_empty_def)
  have "delete_client ''1'' [demo_row, demo_row2] = (Inr (), [demo_row2])"
    by (simp add: delete_client_def get_or_404_def d)
  then show ?thesis
    using revoked_key_is_rejected[OF demo_store_run(2)[symmetric], where r = demo_row and x = demo_row2 and py_str = plain_str]
    by (simp add: d)
qed

end
