(* ===== verification/Open_AI.thy ===== *)
theory Open_AI
  imports Client_Store Network Stream_Response Pipeline_Tracker
begin

text \<open>
  Who may call the HTTP routes (\<open>api/deps.py\<close>, \<open>resolve_ha_caller\<close>) and the OpenAI compatible API
  (\<open>api/openai_routes.py\<close>). The orchestrator is a function from the text and the session key of a turn to
  the stream of theory Stream\_Response; \<open>py_str\<close> is \<open>str\<close> of a decoded value. The clock is read once per
  recorded event (\<open>clk i\<close> for the event number \<open>i\<close>).
\<close>

section \<open>Callers\<close>

definition get_admin_auth :: "string \<Rightarrow> string \<Rightarrow> http_error option" where
  "get_admin_auth admin_token x_admin_token =
     (if admin_token = [] then Some (Http 503 ''Admin API not configured'')
      else if x_admin_token \<noteq> admin_token then Some (Http 401 ''Invalid admin token'') else None)"

definition unauthorized :: http_error where
  "unauthorized = Http 401 ''authentication required''"

text \<open>\<open>Some\<close>: a client of the table; \<open>None\<close>: the legacy caller of a trusted network.\<close>

type_synonym ha_caller = "(client \<times> session_config) option"

definition resolve_ha_caller ::
  "(string \<Rightarrow> lookup_error + client \<times> session_config) \<Rightarrow> net_settings \<Rightarrow> string option \<Rightarrow> string option \<Rightarrow>
   string option \<Rightarrow> http_error + ha_caller" where
  "resolve_ha_caller lookup ns peer real_ip auth =
     (if or_empty auth \<noteq> [] then
        if \<not> startswith (or_empty auth) ''Bearer '' then Inl unauthorized
        else case lookup (drop (length ''Bearer '') (or_empty auth)) of
          Inl (LookupRaises e) \<Rightarrow> Inl (Raises e)
        | Inl _ \<Rightarrow> Inl unauthorized
        | Inr c \<Rightarrow> Inr (Some c)
      else if is_trusted_origin ns (resolve_client_ip ns peer real_ip) then Inr None else Inl unauthorized)"

section \<open>Models\<close>

definition model_json :: "json \<Rightarrow> string \<Rightarrow> json" where
  "model_json i owner = JObj [(''id'', i), (''object'', JStr ''model''), (''created'', JInt 0), (''owned_by'', JStr owner)]"

definition caller_agents :: "ha_caller \<Rightarrow> string list option" where
  "caller_agents caller = (case caller of None \<Rightarrow> None | Some (_, cfg) \<Rightarrow> allowed_agents (sc_agents cfg))"

definition listed_agents :: "ha_caller \<Rightarrow> gateway_info option \<Rightarrow> json list" where
  "listed_agents caller info =
     (case (caller, info) of
        (Some _, Some g) \<Rightarrow>
          filter (\<lambda>a. a \<noteq> JStr MODEL_ALIAS \<and>
                      (case caller_agents caller of None \<Rightarrow> True | Some xs \<Rightarrow> a \<in> JStr ` set xs)) (agents g)
      | _ \<Rightarrow> [])"

definition list_models :: "ha_caller \<Rightarrow> gateway_info option \<Rightarrow> json" where
  "list_models caller info =
     JObj [(''object'', JStr ''list''),
           (''data'', JArr (model_json (JStr MODEL_ALIAS) ''jota-gateway''
                            # map (\<lambda>a. model_json a ''openclaw'') (listed_agents caller info)))]"

section \<open>Chat completions\<close>

record chat_message =
  cm_role :: string
  cm_content :: string

record chat_request =
  cq_messages :: "chat_message list"
  cq_stream :: bool
  cq_model :: string

definition extract_last_user_message :: "chat_message list \<Rightarrow> string" where
  "extract_last_user_message ms =
     (case find (\<lambda>m. cm_role m = ''user'') (rev ms) of None \<Rightarrow> [] | Some m \<Rightarrow> cm_content m)"

text \<open>An answer: JSON with its status, a finished event stream, or an exception that leaves the route.\<close>

datatype sse = SseData json | SseDone

datatype chat_response = RespJson nat json | RespSse "sse list" | RespRaises exn

record chat_state =
  ch_tick :: nat
  ch_tracker :: ptracker
  ch_tokens :: "string list"

text \<open>\<open>tracker.record\<close> without a sender, and \<open>_on_token\<close>.\<close>

definition chat_record :: "(nat \<Rightarrow> time) \<Rightarrow> string \<Rightarrow> dict \<Rightarrow> chat_state \<Rightarrow> exn option \<times> chat_state" where
  "chat_record clk stage meta s =
     (let (e, t, u) = pt_record (\<lambda>j u. Inr u) (clk (ch_tick s)) stage meta (ch_tracker s, ()) in
      (e, s\<lparr>ch_tick := Suc (ch_tick s), ch_tracker := t\<rparr>))"

definition chat_env :: "(nat \<Rightarrow> time) \<Rightarrow> chat_state co_env" where
  "chat_env clk =
     \<lparr>co_record = Some (chat_record clk), co_on_token = Some (\<lambda>x s. (None, s\<lparr>ch_tokens := ch_tokens s @ [x]\<rparr>)),
      co_on_tool = None\<rparr>"

definition chat_close ::
  "(nat \<Rightarrow> time) \<Rightarrow> session_status \<Rightarrow> chat_state \<Rightarrow> session_registry \<Rightarrow> exn option \<times> ptracker \<times> session_registry" where
  "chat_close clk st s reg =
     (let n = ch_tick s;
          (e, t, u, reg1) = pt_close (\<lambda>j u. Inr u) (clk n, clk (n + 1), clk (n + 2)) st [] (ch_tracker s, (), reg)
      in (e, t, reg1))"

definition chunk_json :: "string \<Rightarrow> dict \<Rightarrow> json \<Rightarrow> json" where
  "chunk_json cid delta finish =
     JObj [(''id'', JStr cid), (''object'', JStr ''chat.completion.chunk''),
           (''choices'', JArr [JObj [(''delta'', JObj delta), (''index'', JInt 0), (''finish_reason'', finish)]])]"

definition error_json :: "string \<Rightarrow> json" where
  "error_json msg = JObj [(''error'', JObj [(''message'', JStr msg), (''type'', JStr ''server_error'')])]"

text \<open>What the failure of a turn is called towards the client, by either route.\<close>

definition error_message :: "exn \<Rightarrow> string" where
  "error_message e = (case e of OrchestratorError code \<Rightarrow> code | _ \<Rightarrow> ''internal_error'')"

text \<open>
  \<open>generate()\<close>: the tokens queued by \<open>_run\<close>, then how the turn ended. \<open>_run\<close> is cancelled only when the
  client leaves: then the generator is closed after \<open>taken\<close> items, all of them tokens.
\<close>

definition sse_items :: "string \<Rightarrow> nat \<Rightarrow> exn option \<Rightarrow> string list \<Rightarrow> sse list" where
  "sse_items cid taken out tokens =
     (let chunks = map (\<lambda>x. SseData (chunk_json cid [(''content'', JStr x)] JNull)) tokens in
      case out of
        None \<Rightarrow> chunks @ [SseData (chunk_json cid [] (JStr ''stop'')), SseDone]
      | Some e \<Rightarrow>
          if \<not> is_Exception e then take taken chunks
          else chunks @ [SseData (error_json (error_message e)), SseData (chunk_json cid [] (JStr ''error'')), SseDone])"

definition chat_status :: "exn option \<Rightarrow> session_status" where
  "chat_status out = (if out = None then Completed else Errored)"

text \<open>\<open>None\<close>: the turn is still going on.\<close>

definition chat_stream ::
  "(nat \<Rightarrow> time) \<Rightarrow> string \<Rightarrow> nat \<Rightarrow> (nat option \<Rightarrow> turn_result) \<Rightarrow> chat_state \<Rightarrow> session_registry \<Rightarrow>
   (chat_response \<times> ptracker \<times> session_registry) option" where
  "chat_stream clk cid taken orch s reg =
     (case call_orchestrator (chat_env clk) orch s of
        None \<Rightarrow> None
      | Some (out, s1, _) \<Rightarrow>
          let (e, t, reg1) = chat_close clk (chat_status out) s1 reg in
          Some (RespSse (sse_items cid taken out (ch_tokens s1)), t, reg1))"

definition completion_json :: "string \<Rightarrow> string list \<Rightarrow> json" where
  "completion_json cid tokens =
     JObj [(''id'', JStr cid), (''object'', JStr ''chat.completion''),
           (''choices'', JArr [JObj [(''message'', JObj [(''role'', JStr ''assistant''), (''content'', JStr (concat tokens))]),
                                     (''index'', JInt 0), (''finish_reason'', JStr ''stop'')]]),
           (''usage'', JObj [(''prompt_tokens'', JInt 0), (''completion_tokens'', JInt (int (length tokens))),
                             (''total_tokens'', JInt (int (length tokens)))])]"

definition chat_plain ::
  "(nat \<Rightarrow> time) \<Rightarrow> string \<Rightarrow> (nat option \<Rightarrow> turn_result) \<Rightarrow> chat_state \<Rightarrow> session_registry \<Rightarrow>
   (chat_response \<times> ptracker \<times> session_registry) option" where
  "chat_plain clk cid orch s reg =
     (case call_orchestrator (chat_env clk) orch s of
        None \<Rightarrow> None
      | Some (out, s1, _) \<Rightarrow>
          let (e, t, reg1) = chat_close clk (chat_status out) s1 reg;
              resp = (case out of
                 None \<Rightarrow> RespJson 200 (completion_json cid (ch_tokens s1))
               | Some x \<Rightarrow>
                   if \<not> is_Exception x then RespRaises x
                   else let msg = error_message x in
                     RespJson (if msg = TURN_IN_PROGRESS_ERROR then 409 else 502) (JObj [(''error'', JStr msg)]))
          in Some (case e of None \<Rightarrow> resp | Some x \<Rightarrow> RespRaises x, t, reg1))"

definition policy_response :: "policy_error \<Rightarrow> string \<Rightarrow> chat_response" where
  "policy_response e msg =
     RespJson 403 (JObj [(''error'', JStr ''forbidden''),
        (''reason'', JStr (case e of NotPermitted _ \<Rightarrow> ''agent_not_permitted'' | NotAvailable _ \<Rightarrow> ''agent_not_available'')),
        (''message'', JStr msg)])"

definition chat_agent :: "ha_caller \<Rightarrow> string \<Rightarrow> gateway_info option \<Rightarrow> policy_error + json" where
  "chat_agent caller model info =
     (case caller of
        Some (_, cfg) \<Rightarrow> resolve_agent (agent_from_model (Some model)) (Some (sc_agents cfg)) info
      | None \<Rightarrow> Inr (case info of Some g \<Rightarrow> default_agent_id g | None \<Rightarrow> JStr ''main''))"

definition chat_client_id :: "ha_caller \<Rightarrow> string" where
  "chat_client_id caller = (case caller of Some (c, _) \<Rightarrow> cl_id c | None \<Rightarrow> ''ha'')"

text \<open>\<open>orch text session_key\<close> is the turn; \<open>addr\<close> the tracker's address in the registry.\<close>

definition chat_completions ::
  "(nat \<Rightarrow> time) \<Rightarrow> (json \<Rightarrow> string) \<Rightarrow> (policy_error \<Rightarrow> string) \<Rightarrow> string \<Rightarrow> nat \<Rightarrow> nat \<Rightarrow> gateway_info option \<Rightarrow>
   (string \<Rightarrow> string \<Rightarrow> nat option \<Rightarrow> turn_result) \<Rightarrow> ha_caller \<Rightarrow> chat_request \<Rightarrow> session_registry \<Rightarrow>
   (chat_response \<times> ptracker option \<times> session_registry) option" where
  "chat_completions clk py_str policy_text cid taken addr info orch caller q reg =
     (case chat_agent caller (cq_model q) info of
        Inl e \<Rightarrow> Some (policy_response e (policy_text e), None, reg)
      | Inr agent \<Rightarrow>
          let client = chat_client_id caller;
              sk = make_session_key (py_str agent) client;
              sid = ''http:'' @ cid;
              t = new_ptracker (clk 0) sid client [] False;
              (r, reg1) = reg_register (clk 1) sid client ''text'' [] addr reg;
              s = \<lparr>ch_tick = 2, ch_tracker = t, ch_tokens = []\<rparr>;
              turn = orch (extract_last_user_message (cq_messages q)) sk
          in map_option (\<lambda>(resp, t1, reg2). (resp, Some t1, reg2))
               (if cq_stream q then chat_stream clk cid taken turn s reg1 else chat_plain clk cid turn s reg1))"

section \<open>How a client reads an answer\<close>

definition field :: "string \<Rightarrow> json \<Rightarrow> json" where
  "field k j = (case j of JObj d \<Rightarrow> dget d k | _ \<Rightarrow> JNull)"

definition choice :: "json \<Rightarrow> json" where
  "choice j = (case field ''choices'' j of JArr (c # _) \<Rightarrow> c | _ \<Rightarrow> JNull)"

definition text_of :: "json \<Rightarrow> string" where
  "text_of j = (case j of JStr s \<Rightarrow> s | _ \<Rightarrow> [])"

text \<open>\<open>Inl\<close> the error, \<open>Inr\<close> the text of a finished turn, \<open>None\<close> for an answer that was cut.\<close>

fun read_sse :: "string \<Rightarrow> sse list \<Rightarrow> (string + string) option" where
  "read_sse acc (SseData j # rest) =
     (if field ''error'' j \<noteq> JNull then Some (Inl (text_of (field ''message'' (field ''error'' j))))
      else if field ''finish_reason'' (choice j) = JStr ''stop'' then Some (Inr acc)
      else read_sse (acc @ text_of (field ''content'' (field ''delta'' (choice j)))) rest)"
| "read_sse acc _ = None"

definition read_answer :: "chat_response \<Rightarrow> (string + string) option" where
  "read_answer r =
     (case r of
        RespSse es \<Rightarrow> read_sse [] es
      | RespJson n j \<Rightarrow>
          if n = 200 then Some (Inr (text_of (field ''content'' (field ''message'' (choice j)))))
          else Some (Inl (text_of (field ''error'' j)))
      | RespRaises e \<Rightarrow> None)"

lemma chunk_fields [simp]:
  "field ''error'' (chunk_json cid d fin) = JNull" "field ''finish_reason'' (choice (chunk_json cid d fin)) = fin"
  "field ''content'' (field ''delta'' (choice (chunk_json cid [(''content'', JStr x)] fin))) = JStr x"
  "field ''error'' (error_json m) = JObj [(''message'', JStr m), (''type'', JStr ''server_error'')]"
  "field ''message'' (JObj [(''message'', JStr m), (''type'', JStr ''server_error'')]) = JStr m"
  by (simp_all add: field_def choice_def chunk_json_def dget_def error_json_def)

lemma read_chunks:
  "read_sse acc (map (\<lambda>x. SseData (chunk_json cid [(''content'', JStr x)] JNull)) xs @ rest) = read_sse (acc @ concat xs) rest"
  by (induction xs arbitrary: acc) (simp_all add: text_of_def)

lemma read_sse_items:
  "read_sse [] (sse_items cid taken out toks) =
     (case out of None \<Rightarrow> Some (Inr (concat toks))
      | Some e \<Rightarrow> if is_Exception e then Some (Inl (error_message e)) else None)"
proof -
  have "read_sse acc (map (\<lambda>x. SseData (chunk_json cid [(''content'', JStr x)] JNull)) xs) = None" for acc xs
    using read_chunks[of acc cid xs "[]"] by simp
  then show ?thesis by (auto simp: sse_items_def Let_def read_chunks take_map text_of_def split: option.splits)
qed

definition chat_ready :: "chat_state \<Rightarrow> bool" where
  "chat_ready s \<longleftrightarrow> \<not> pt_has_sender (ch_tracker s) \<and> \<not> pt_registry_closed (ch_tracker s)"

lemma chat_record_ready:
  assumes "chat_ready s"
  shows "\<exists>s1. chat_record clk stage meta s = (None, s1) \<and> chat_ready s1 \<and> ch_tokens s1 = ch_tokens s
    \<and> pt_session_id (ch_tracker s1) = pt_session_id (ch_tracker s)"
  using assms by (auto simp: chat_record_def pt_record_def pt_append_def chat_ready_def Let_def)

lemma chat_event:
  assumes "chat_ready (co_client c)"
  shows "\<exists>c1. co_event (chat_env clk) ev c = (case ev of EvError code \<Rightarrow> Some (OrchestratorError code) | _ \<Rightarrow> None, c1)
    \<and> chat_ready (co_client c1) \<and> ch_tokens (co_client c1) = ch_tokens (co_client c) @ (case ev of EvToken x \<Rightarrow> [x] | _ \<Rightarrow> [])
    \<and> pt_session_id (ch_tracker (co_client c1)) = pt_session_id (ch_tracker (co_client c))"
proof (cases ev)
  case (EvToken x)
  obtain s1 where "chat_record clk ''llm_first_token'' [] (co_client c) = (None, s1)" "chat_ready s1"
    "ch_tokens s1 = ch_tokens (co_client c)" "pt_session_id (ch_tracker s1) = pt_session_id (ch_tracker (co_client c))"
    using chat_record_ready[OF assms] by blast
  then show ?thesis using assms EvToken by (auto simp: co_event_def chat_env_def opt_call_def chat_ready_def)
qed (use assms in \<open>auto simp: co_event_def chat_env_def opt_call_def\<close>)

definition tokens_of :: "orch_event list \<Rightarrow> string list" where
  "tokens_of evs = List.map_filter (\<lambda>ev. case ev of EvToken x \<Rightarrow> Some x | _ \<Rightarrow> None) evs"

lemma chat_consume:
  assumes "\<forall>ev\<in>set (butlast evs). \<not> terminal ev" "chat_ready (co_client c)"
  shows "\<exists>c'. co_consume (chat_env clk) evs c = (length evs, fail_code evs, c') \<and> chat_ready (co_client c')
    \<and> ch_tokens (co_client c') = ch_tokens (co_client c) @ tokens_of evs
    \<and> pt_session_id (ch_tracker (co_client c')) = pt_session_id (ch_tracker (co_client c))"
  using assms
proof (induction evs arbitrary: c)
  case Nil
  then show ?case by (simp add: fail_code_def tokens_of_def map_filter_simps)
next
  case (Cons ev evs)
  obtain c1 where c1: "co_event (chat_env clk) ev c = (case ev of EvError code \<Rightarrow> Some (OrchestratorError code) | _ \<Rightarrow> None, c1)"
    "chat_ready (co_client c1)" "ch_tokens (co_client c1) = ch_tokens (co_client c) @ (case ev of EvToken x \<Rightarrow> [x] | _ \<Rightarrow> [])"
    "pt_session_id (ch_tracker (co_client c1)) = pt_session_id (ch_tracker (co_client c))"
    using chat_event[OF Cons.prems(2)] by blast
  show ?case
  proof (cases "evs = []")
    case True
    then show ?thesis using c1
      by (cases ev) (auto simp: fail_code_def tokens_of_def map_filter_simps)
  next
    case False
    then have nt: "\<not> terminal ev" "\<forall>ev\<in>set (butlast evs). \<not> terminal ev" using Cons.prems(1) by auto
    obtain c' where "co_consume (chat_env clk) evs c1 = (length evs, fail_code evs, c')" "chat_ready (co_client c')"
      "ch_tokens (co_client c') = ch_tokens (co_client c1) @ tokens_of evs"
      "pt_session_id (ch_tracker (co_client c')) = pt_session_id (ch_tracker (co_client c1))"
      using Cons.IH[OF nt(2) c1(2)] by blast
    then show ?thesis using c1 nt(1) False
      by (cases ev) (auto simp: fail_code_def tokens_of_def map_filter_simps)
  qed
qed

text \<open>A turn of the orchestrator, consumed by either route.\<close>

lemma chat_call:
  fixes wt :: turn_env and ws :: bool and msg sk :: string and r :: turn_registry
  defines "stream \<equiv> \<lambda>b. stream_response wt ws msg sk b r"
  assumes w: "stable_errors (te_ins wt)" "\<not> tr_waiting (stream None)" and s: "chat_ready s"
  shows "\<exists>out s1 res. call_orchestrator (chat_env clk) stream s = Some (out, s1, res) \<and> chat_ready s1
    \<and> ch_tokens s1 = ch_tokens s @ tokens_of (tr_events (stream None))
    \<and> pt_session_id (ch_tracker s1) = pt_session_id (ch_tracker s)
    \<and> (out = None \<longleftrightarrow> tr_exn (stream None) = None \<and> tr_events (stream None) \<noteq> [] \<and> last (tr_events (stream None)) = EvStatusDone)
    \<and> (\<forall>c. out = Some (OrchestratorError c) \<longrightarrow> c \<in> stable_codes)"
proof -
  let ?f = "stream None" let ?P = "\<lambda>s1. pt_session_id (ch_tracker s1) = pt_session_id (ch_tracker s)"
  have sh: "\<forall>ev\<in>set (butlast (tr_events ?f)). \<not> terminal ev"
    "tr_exn ?f = None \<Longrightarrow> tr_events ?f \<noteq> [] \<and> terminal (last (tr_events ?f))"
    "\<forall>c. EvError c \<in> set (tr_events ?f) \<longrightarrow> c \<in> stable_codes"
    using turn_shape[OF w(1), of ws msg sk None r] w(2) by (auto simp: stream_def)
  have nc: "not_code (tr_exn (stream b))" for b unfolding stream_def by (rule stream_exn)
  have rec: "co_record (chat_env clk) = Some (chat_record clk)" by (simp add: chat_env_def)
  obtain s0 where s0: "chat_record clk ''llm_start'' [] s = (None, s0)" "chat_ready s0" "ch_tokens s0 = ch_tokens s" "?P s0"
    using chat_record_ready[OF s] by blast
  obtain c' where co: "co_consume (chat_env clk) (tr_events ?f) \<lparr>co_first = True, co_count = 0, co_client = s0\<rparr> =
      (length (tr_events ?f), fail_code (tr_events ?f), c')"
    and c': "chat_ready (co_client c')" "ch_tokens (co_client c') = ch_tokens s @ tokens_of (tr_events ?f)" "?P (co_client c')"
    using chat_consume[OF sh(1), of "\<lparr>co_first = True, co_count = 0, co_client = s0\<rparr>" clk] s0 by auto
  obtain s2 where s2: "chat_record clk ''llm_done'' [(''token_count'', JInt (int (co_count c')))] (co_client c') = (None, s2)"
    "chat_ready s2" "ch_tokens s2 = ch_tokens (co_client c')" "?P s2"
    using chat_record_ready[OF c'(1)] c'(3) by metis
  show ?thesis
  proof (cases "\<exists>code. tr_events ?f \<noteq> [] \<and> last (tr_events ?f) = EvError code")
    case True
    then obtain code where l: "tr_events ?f \<noteq> []" "last (tr_events ?f) = EvError code" by blast
    then have "code \<in> stable_codes" using sh(3) by (metis last_in_set)
    moreover have "fail_code (tr_events ?f) = Some (OrchestratorError code)" using l by (simp add: fail_code_def)
    ultimately show ?thesis
      using co c' l nc[of "Some (length (tr_events ?f) - 1)"]
      by (auto simp: call_orchestrator_def opt_call_def rec s0(1) not_code_def Let_def split: option.splits)
  next
    case False
    then have "fail_code (tr_events ?f) = None" by (auto simp: fail_code_def split: orch_event.splits)
    moreover have "tr_exn ?f = None \<Longrightarrow> last (tr_events ?f) = EvStatusDone"
      using sh(2) False by (cases "last (tr_events ?f)") auto
    ultimately show ?thesis
      using co c' s2 nc[of None] w(2) sh(2)
      by (auto simp: call_orchestrator_def opt_call_def rec s0(1) not_code_def Let_def split: option.splits)
  qed
qed

lemma chat_close_ready:
  assumes "chat_ready s"
  shows "\<exists>t. chat_close clk st s reg = (None, t, reg_close (clk (ch_tick s + 2)) (pt_session_id (ch_tracker s)) st reg)"
  using assms
  by (auto simp: chat_close_def pt_close_def pt_record_def pt_append_def chat_ready_def Let_def)

section \<open>Properties\<close>

text \<open>
  C17: The streaming route and the plain route of the same turn agree: what a client reads from the event stream is what
  it reads from the JSON answer (the whole text of a finished turn, or the same error), and both
  leave the same events and the same status of the session.
\<close>

theorem chat_modes_agree:
  assumes "chat_plain clk cid orch s reg = Some (rp, tp, gp)" "\<forall>x. rp \<noteq> RespRaises x"
  shows "\<exists>rs. chat_stream clk cid taken orch s reg = Some (rs, tp, gp) \<and> read_answer rs = read_answer rp \<and> read_answer rp \<noteq> None"
proof -
  obtain out s1 res where co: "call_orchestrator (chat_env clk) orch s = Some (out, s1, res)"
    using assms(1) by (auto simp: chat_plain_def split: option.splits)
  obtain e t reg1 where cl: "chat_close clk (chat_status out) s1 reg = (e, t, reg1)"
    by (cases "chat_close clk (chat_status out) s1 reg") auto
  have e: "e = None" "tp = t" "gp = reg1" and out: "\<forall>x. out = Some x \<longrightarrow> is_Exception x"
    using assms by (auto simp: chat_plain_def co cl Let_def split: option.splits if_splits)
  have "read_answer rp = (case out of None \<Rightarrow> Some (Inr (concat (ch_tokens s1))) | Some x \<Rightarrow> Some (Inl (error_message x)))"
    using assms(1) out
    by (auto simp: chat_plain_def co cl e(1) Let_def read_answer_def completion_json_def field_def choice_def dget_def text_of_def
        split: option.splits if_splits)
  moreover have "read_answer (RespSse (sse_items cid taken out (ch_tokens s1))) = read_answer rp"
    using out calculation by (auto simp: read_answer_def read_sse_items split: option.splits)
  ultimately show ?thesis using e by (auto simp: chat_stream_def co cl Let_def split: option.splits)
qed

definition demo_chat :: chat_state where
  "demo_chat = \<lparr>ch_tick = 2, ch_tracker = new_ptracker 0 ''http:1'' ''ha'' [] False, ch_tokens = []\<rparr>"

definition demo_sessions :: session_registry where
  "demo_sessions = snd (reg_register 0 ''http:1'' ''ha'' ''text'' [] 0 (new_session_registry 8))"

theorem chat_modes_agree_witness:
  "\<exists>rp tp gp rs. chat_plain (\<lambda>i. of_nat i) ''1'' (\<lambda>b. no_turn TURN_IN_PROGRESS_ERROR (new_turn_registry 4)) demo_chat demo_sessions
       = Some (rp, tp, gp)
     \<and> chat_stream (\<lambda>i. of_nat i) ''1'' 0 (\<lambda>b. no_turn TURN_IN_PROGRESS_ERROR (new_turn_registry 4)) demo_chat demo_sessions
       = Some (rs, tp, gp) \<and> read_answer rs = read_answer rp"
proof -
  let ?orch = "\<lambda>b. no_turn TURN_IN_PROGRESS_ERROR (new_turn_registry 4)"
  obtain tp gp where p: "chat_plain (\<lambda>i. of_nat i) ''1'' ?orch demo_chat demo_sessions =
      Some (RespJson 409 (JObj [(''error'', JStr TURN_IN_PROGRESS_ERROR)]), tp, gp)"
    by (simp add: chat_plain_def call_orchestrator_def chat_env_def chat_record_def pt_record_def pt_append_def opt_call_def
        no_turn_def co_event_def chat_close_def pt_close_def demo_chat_def new_ptracker_def is_Exception_def error_message_def
        Let_def)
  then show ?thesis using chat_modes_agree[OF p, of 0] by auto
qed

text \<open>
  C18: Every chat turn that ends leaves its session closed: completed exactly when OpenClaw finished the turn, whose whole
  text is then the answer with status 200; otherwise it is an error, 409 exactly for a turn in progress
  and 502 for the rest, that carries one of the fixed codes and never a text of OpenClaw or of an exception.
\<close>

theorem chat_turn_outcome:
  fixes wt :: turn_env and ws :: bool and msg sk :: string and r :: turn_registry
  defines "stream \<equiv> \<lambda>b. stream_response wt ws msg sk b r"
  assumes "stable_errors (te_ins wt)" "\<not> tr_waiting (stream None)"
    and "map_of (sr_sessions reg) sid = Some rec"
    and "s = \<lparr>ch_tick = 2, ch_tracker = new_ptracker now sid client [] False, ch_tokens = []\<rparr>"
  shows "\<exists>resp t reg1. chat_plain clk cid stream s reg = Some (resp, t, reg1)
    \<and> (case resp of
         RespJson n j \<Rightarrow>
           if n = 200
           then tr_exn (stream None) = None \<and> last (tr_events (stream None)) = EvStatusDone
                \<and> j = completion_json cid (tokens_of (tr_events (stream None)))
           else \<exists>c\<in>insert ''internal_error'' stable_codes.
                  j = JObj [(''error'', JStr c)] \<and> n = (if c = TURN_IN_PROGRESS_ERROR then 409 else 502)
       | RespRaises x \<Rightarrow> x = CancelledError | RespSse _ \<Rightarrow> False)
    \<and> (\<exists>r1. reg_get sid reg1 = Some r1 \<and> sr_status r1 = (if \<exists>j. resp = RespJson 200 j then Completed else Errored))"
proof -
  have ready: "chat_ready s" using assms(5) by (simp add: chat_ready_def new_ptracker_def)
  obtain out s1 res where co: "call_orchestrator (chat_env clk) stream s = Some (out, s1, res)" "chat_ready s1"
    "ch_tokens s1 = tokens_of (tr_events (stream None))" "pt_session_id (ch_tracker s1) = sid"
    "out = None \<longleftrightarrow> tr_exn (stream None) = None \<and> tr_events (stream None) \<noteq> [] \<and> last (tr_events (stream None)) = EvStatusDone"
    "\<forall>c. out = Some (OrchestratorError c) \<longrightarrow> c \<in> stable_codes"
    using chat_call[OF assms(2,3)[unfolded stream_def] ready, of clk] assms(5)
    by (auto simp: stream_def new_ptracker_def)
  obtain t where cl: "chat_close clk (chat_status out) s1 reg = (None, t, reg_close (clk (ch_tick s1 + 2)) sid (chat_status out) reg)"
    using chat_close_ready[OF co(2)] co(4) by blast
  have g: "\<exists>r1. reg_get sid (reg_close x sid st reg) = Some r1 \<and> sr_status r1 = st" for x st
    using assms(4) by (simp add: reg_get_def reg_close_def)
  have m: "error_message x \<in> insert ''internal_error'' stable_codes" if "out = Some x" for x
    using co(6) that by (auto simp: error_message_def split: exn.splits)
  have "''internal_error'' \<notin> stable_codes" by (simp add: stable_codes_def error_code_defs)
  show ?thesis
  proof (cases out)
    case None
    then show ?thesis using co cl g by (simp add: chat_plain_def Let_def chat_status_def)
  next
    case (Some x)
    then show ?thesis using co cl g m
      by (cases "is_Exception x") (auto simp: chat_plain_def Let_def chat_status_def is_Exception_def)
  qed
qed

theorem chat_turn_outcome_witness:
  "\<exists>wt resp t reg1. te_ins wt = [GetTimeout] \<and>
     chat_plain (\<lambda>i. of_nat i) ''1'' (\<lambda>b. stream_response wt True ''q'' ''k'' b (new_turn_registry 4)) demo_chat demo_sessions
       = Some (resp, t, reg1) \<and> (\<exists>r1. reg_get ''http:1'' reg1 = Some r1 \<and> sr_status r1 \<noteq> Active)"
proof -
  let ?w = "\<lparr>te_req_id = ''r1'', te_idempotency = ''i'', te_abort_id = ''a'', te_send = None,
            te_ins = [GetTimeout], te_env = (\<lambda>r. r), te_ws_after = True, te_abort_send = None\<rparr>"
  have e: "stable_errors (te_ins ?w)" by (simp add: stable_errors_def)
  have n: "\<not> tr_waiting (stream_response ?w True ''q'' ''k'' None (new_turn_registry 4))"
    by (simp add: stream_response_def stream_stop_def turn_finally_def Let_def split: sum.splits) (simp add: no_turn_def)
  have m: "\<exists>rec. map_of (sr_sessions demo_sessions) ''http:1'' = Some rec"
    by (simp add: demo_sessions_def reg_register_def evict_if_needed_def new_session_registry_def dpop_def Let_def)
  then obtain rec where m: "map_of (sr_sessions demo_sessions) ''http:1'' = Some rec" by blast
  obtain resp t reg1 r1 where
    "chat_plain (\<lambda>i. of_nat i) ''1'' (\<lambda>b. stream_response ?w True ''q'' ''k'' b (new_turn_registry 4)) demo_chat demo_sessions
       = Some (resp, t, reg1)"
    "reg_get ''http:1'' reg1 = Some r1" "sr_status r1 = (if \<exists>j. resp = RespJson 200 j then Completed else Errored)"
    using chat_turn_outcome[OF e n m demo_chat_def, of "\<lambda>i. of_nat i" "''1''"] by blast
  moreover have "sr_status r1 \<noteq> Active" using calculation(3) by (simp split: if_splits)
  ultimately show ?thesis by (intro exI[of _ ?w]) auto
qed

text \<open>
  \<open>/v1/models\<close> tells a client exactly what it may use: with the roster of OpenClaw known, an agent it names is
  listed if and only if a chat that asks for it gets it.
\<close>

theorem listed_iff_usable:
  assumes "strip m = m" "m \<noteq> []" "m \<noteq> MODEL_ALIAS"
  shows "JStr m \<in> set (listed_agents (Some c) (Some g)) \<longleftrightarrow> chat_agent (Some c) m (Some g) = Inr (JStr m)"
  using assms
  by (cases c)
    (auto simp: listed_agents_def caller_agents_def chat_agent_def resolve_agent_def agent_from_model_def or_empty_def
      effective_agent_def Let_def split: option.splits if_splits)

theorem listed_iff_usable_witness:
  "chat_agent (Some (\<lparr>cl_id = ''1'', cl_key = ''k'', cl_is_active = True, cl_name = ''n''\<rparr>,
       \<lparr>sc_pipeline = default_config, sc_agents = \<lparr>default_agent = None, allowed_agents = Some [''work'']\<rparr>\<rparr>)) ''work''
     (Some \<lparr>default_agent_id = JStr ''main'', tick_interval_ms = JInt 1, max_payload = JInt 1, agents = [JStr ''main'', JStr ''work'']\<rparr>)
     = Inr (JStr ''work'')"
proof -
  have "strip ''work'' = ''work''" by (simp add: strip_def lstrip_def rstrip_def py_isspace_def)
  then show ?thesis
    by (subst listed_iff_usable[symmetric]) (simp_all add: MODEL_ALIAS_def listed_agents_def caller_agents_def)
qed

text \<open>
  Nobody uses the API without being known: a caller with credentials is an active client of the table whose key was
  sent as a bearer token, and one without is only let in from a trusted network, as no client at all.
\<close>

theorem caller_is_known:
  assumes "json_laws encode decode py_str" "rows = store_run encode decode ops"
    and "resolve_ha_caller (\<lambda>k. db_lookup decode py_str k rows) ns peer real_ip auth = Inr caller"
  shows "case caller of
      Some (c, cfg) \<Rightarrow> \<exists>r\<in>set rows. cr_is_active r \<and> auth = Some (''Bearer '' @ cr_client_key r) \<and> cl_id c = cr_id r
        \<and> sc_pipeline cfg = cr_config r \<and> default_agent (sc_agents cfg) = cr_default_agent r
        \<and> map_option encode (allowed_agents (sc_agents cfg)) = cr_allowed_agents r
    | None \<Rightarrow> or_empty auth = [] \<and> is_trusted_origin ns (resolve_client_ip ns peer real_ip)"
proof (cases caller)
  case None
  then show ?thesis using assms(3)
    by (auto simp: resolve_ha_caller_def unauthorized_def split: if_splits sum.splits lookup_error.splits)
next
  case (Some cc)
  obtain c cfg where cc: "cc = (c, cfg)" by (cases cc)
  let ?key = "drop (length ''Bearer '') (or_empty auth)"
  have a: "startswith (or_empty auth) ''Bearer ''" "or_empty auth \<noteq> []" and l: "db_lookup decode py_str ?key rows = Inr (c, cfg)"
    using assms(3) Some cc by (auto simp: resolve_ha_caller_def unauthorized_def split: if_splits sum.splits lookup_error.splits)
  obtain r where r: "find (\<lambda>r. cr_client_key r = ?key) rows = Some r"
    using l by (auto simp: db_lookup_def split: option.splits)
  then have rm: "r \<in> set rows" "cr_client_key r = ?key" by (auto simp: find_Some_iff)
  have s: "store_ok encode rows" unfolding assms(2) by (rule store_ok_run)
  have "or_empty auth = ''Bearer '' @ ?key" using a(1) unfolding startswith_def by (metis append_take_drop_id)
  then have au: "auth = Some (''Bearer '' @ cr_client_key r)" using rm(2) a(2) by (cases auth) (simp_all add: or_empty_def)
  have l: "db_lookup decode py_str (cr_client_key r) rows = Inr (c, cfg)" using l unfolding rm(2)[symmetric] .
  note row = lookup_row[OF assms(1) s rm(1)]
  have act: "cr_is_active r" using row l by (simp split: if_splits)
  then obtain al where "cr_allowed_agents r = map_option encode al"
    "c = \<lparr>cl_id = cr_id r, cl_key = cr_client_key r, cl_is_active = True, cl_name = cr_name r\<rparr>"
    "cfg = \<lparr>sc_pipeline = cr_config r, sc_agents = \<lparr>default_agent = cr_default_agent r, allowed_agents = al\<rparr>\<rparr>"
    using row l by auto
  then show ?thesis using act au rm(1) Some cc by (auto intro!: bexI[of _ r])
qed

theorem caller_is_known_witness:
  "\<exists>c cfg. resolve_ha_caller (\<lambda>k. db_lookup mark_decode plain_str k [demo_row]) ns None None (Some ''Bearer key1'') = Inr (Some (c, cfg))
     \<and> cl_id c = ''1''"
proof -
  let ?look = "\<lambda>k. db_lookup mark_decode plain_str k [demo_row]"
  have d: "cr_is_active demo_row" "cr_client_key demo_row = ''key1''" "cr_id demo_row = ''1''"
    by (simp_all add: demo_row_def new_row_def demo_body_def or_empty_def)
  have "store_ok mark_encode [demo_row]" using store_ok_run demo_store_run(1) by metis
  then obtain c cfg where l: "?look ''key1'' = Inr (c, cfg)"
    using lookup_row[OF mark_laws, of "[demo_row]" demo_row] d by auto
  have r: "resolve_ha_caller ?look ns None None (Some ''Bearer key1'') = Inr (Some (c, cfg))"
    by (simp add: resolve_ha_caller_def or_empty_def startswith_def l)
  have "\<exists>x\<in>set [demo_row]. cl_id c = cr_id x"
    using caller_is_known[OF mark_laws demo_store_run(1)[symmetric] r] unfolding option.case prod.case by blast
  then show ?thesis using r d(3) by auto
qed

end
