(* ===== verification/Session_Route.thy ===== *)
theory Session_Route
  imports Client_Store Stats Session_Registry
begin

text \<open>
  \<open>api/routes.py\<close>: the WebSocket route \<open>/ws/stream\<close>, from the first frame of a client to the end of its
  session. The first part decides who gets a session; the second one is what the route does with it, whose
  awaited operations are the bridge (theories Bridge\_*) and the sender (theory Outbound): their outcomes are
  arguments here, the calls a list of actions.
\<close>

section \<open>The handshake\<close>

record hello =
  he_client_key :: string
  he_input_mode :: string
  he_output_mode :: "string list"
  he_agent :: "string option"

text \<open>\<open>Handshake(**msg_data)\<close> on an object; \<open>None\<close> is a \<open>ValidationError\<close>.\<close>

definition valid_handshake :: "dict \<Rightarrow> hello option" where
  "valid_handshake d =
     (case (map_of d ''client_key'', map_of d ''input_mode'', map_of d ''output_mode'') of
        (Some (JStr key), Some (JStr im), Some (JArr ms)) \<Rightarrow>
          if (im = ''audio'' \<or> im = ''text'') \<and> set ms \<subseteq> JStr ` set output_modes then
            (case dget d ''agent'' of
               JNull \<Rightarrow> Some \<lparr>he_client_key = key, he_input_mode = im,
                             he_output_mode = map (\<lambda>m. case m of JStr s \<Rightarrow> s | _ \<Rightarrow> []) ms, he_agent = None\<rparr>
             | JStr a \<Rightarrow> Some \<lparr>he_client_key = key, he_input_mode = im,
                              he_output_mode = map (\<lambda>m. case m of JStr s \<Rightarrow> s | _ \<Rightarrow> []) ms, he_agent = Some a\<rparr>
             | _ \<Rightarrow> None)
          else None
      | _ \<Rightarrow> None)"

text \<open>The first message: a text with what \<open>json.loads\<close> makes of it, another frame, or none.\<close>

datatype first_message = FirstText string "json option" | FirstNotText | FirstTimeout | FirstGone

text \<open>How the decision ended: a rejection has the name it is counted under and the reason of the 1008.\<close>

datatype 'a decision = Accept 'a | Reject string string | Gone | Fails exn

definition INVALID_REASON :: string where
  "INVALID_REASON = ''Handshake invalido. Se esperaba JSON de configuraci'' @ [CHR 0xF3] @ ''n.''"

definition read_handshake :: "nat \<Rightarrow> first_message \<Rightarrow> hello decision" where
  "read_handshake max_bytes m =
     (case m of
        FirstTimeout \<Rightarrow> Reject ''timeout'' ''Handshake timeout''
      | FirstNotText \<Rightarrow> Reject ''not_text'' ''Handshake invalido. Se esperaba texto.''
      | FirstGone \<Rightarrow> Gone
      | FirstText raw parsed \<Rightarrow>
          if length raw > max_bytes then Reject ''too_large'' ''Handshake too large''
          else case parsed of
            None \<Rightarrow> Reject ''invalid'' INVALID_REASON
          | Some (JObj d) \<Rightarrow>
              (case valid_handshake d of
                 None \<Rightarrow> Reject ''invalid'' INVALID_REASON
               | Some h \<Rightarrow> Accept h)
          | Some _ \<Rightarrow> Fails TypeError)"

record session_request =
  sq_client :: client
  sq_config :: session_config
  sq_hello :: hello
  sq_agent :: json

definition open_session ::
  "nat \<Rightarrow> (string \<Rightarrow> lookup_error + client \<times> session_config) \<Rightarrow> (policy_error \<Rightarrow> string) \<Rightarrow> gateway_info option \<Rightarrow>
   first_message \<Rightarrow> session_request decision" where
  "open_session max_bytes lookup policy_text info m =
     (case read_handshake max_bytes m of
        Reject k r \<Rightarrow> Reject k r
      | Gone \<Rightarrow> Gone
      | Fails e \<Rightarrow> Fails e
      | Accept h \<Rightarrow>
          (case lookup (he_client_key h) of
             Inl (LookupRaises e) \<Rightarrow> Fails e
           | Inl _ \<Rightarrow> Reject ''invalid_key'' ''Clave de cliente invalida o inactiva.''
           | Inr (c, cfg) \<Rightarrow>
               (case resolve_agent (he_agent h) (Some (sc_agents cfg)) info of
                  Inl e \<Rightarrow> Reject ''agent'' (policy_text e)
                | Inr a \<Rightarrow> Accept \<lparr>sq_client = c, sq_config = cfg, sq_hello = h, sq_agent = a\<rparr>)))"

section \<open>The session\<close>

text \<open>What the route does, in order; \<open>DoClose\<close> is \<open>websocket.close\<close> with its code and reason.\<close>

datatype route_act =
    DoCount string
  | DoClose nat string
  | DoSender
  | DoRegister string
  | DoRegistryClose string
  | DoConnect
  | DoHealth
  | DoReason string
  | DoFlush
  | DoReady json
  | DoRun
  | DoCloseAll
  | DoSenderClose
  | DoFinalClose

text \<open>
  The outcomes of the awaited operations. \<open>ro_construct\<close>: building tracker and bridge, and whether the tracker
  was registered before; \<open>ro_health\<close>: the live capabilities, none without the orchestrator.
\<close>

record route_outcomes =
  ro_construct :: "(exn \<times> bool) option"
  ro_connect :: "exn option"
  ro_health :: "exn + json option"
  ro_flush_status :: "exn option"
  ro_close :: "exn option"
  ro_send_ready :: "exn option"
  ro_flush_ready :: "exn option"
  ro_run :: "exn option"
  ro_disconnected :: bool
  ro_td_cancelled :: bool

definition INTERNAL_REASON :: string where
  "INTERNAL_REASON = ''Problema estableciendo microservicios internos del hub.''"

definition UNAVAILABLE_REASON :: string where
  "UNAVAILABLE_REASON = ''Servicio cr'' @ [CHR 0xED] @ ''tico no disponible.''"

definition ready_message :: "string \<Rightarrow> session_request \<Rightarrow> json \<Rightarrow> json" where
  "ready_message sid q live =
     (let h = sq_hello q in
      JObj [(''type'', JStr ''ready''), (''session_id'', JStr sid), (''agent'', sq_agent q),
            (''input_mode'', JStr (he_input_mode h)), (''output_mode'', JArr (map JStr (he_output_mode h))),
            (''requested_capabilities'',
             JObj [(''barge_in'', JBool (cf_barge_in_enabled (sc_pipeline (sq_config q)))),
                   (''tts'', JBool (''audio'' \<in> set (he_output_mode h))),
                   (''transcriber'', JBool (he_input_mode h = ''audio''))]),
            (''live_capabilities'', live)])"

text \<open>The body of the \<open>try\<close> whose \<open>finally\<close> closes the session, with the exception that leaves it.\<close>

definition run_phase :: "route_outcomes \<Rightarrow> route_act list \<times> exn option" where
  "run_phase w = ([DoRun], case ro_run w of Some e \<Rightarrow> if is_Exception e then None else Some e | None \<Rightarrow> None)"

definition ready_phase :: "string \<Rightarrow> session_request \<Rightarrow> json \<Rightarrow> route_outcomes \<Rightarrow> route_act list \<times> exn option" where
  "ready_phase sid q live w =
     (let send = DoReady (ready_message sid q live);
          failed = (\<lambda>acts e.
            if is_Exception e
            then (acts @ [DoReason (if is_ClientGone e then ''client_disconnect'' else ''error'')], None)
            else (acts, Some e)) in
      case ro_send_ready w of
        Some e \<Rightarrow> failed [send] e
      | None \<Rightarrow>
          (case ro_flush_ready w of
             Some e \<Rightarrow> failed [send, DoFlush] e
           | None \<Rightarrow> (let (acts, e) = run_phase w in ([send, DoFlush] @ acts, e))))"

definition health_phase :: "string \<Rightarrow> session_request \<Rightarrow> route_outcomes \<Rightarrow> route_act list \<times> exn option" where
  "health_phase sid q w =
     (case ro_health w of
        Inl e \<Rightarrow> if is_ClientGone e then ([DoHealth, DoReason ''client_disconnect''], None) else ([DoHealth], Some e)
      | Inr None \<Rightarrow>
          (case ro_flush_status w of
             Some e \<Rightarrow>
               if is_ClientGone e
               then ([DoHealth, DoReason ''error'', DoFlush, DoClose 1011 UNAVAILABLE_REASON], ro_close w)
               else ([DoHealth, DoReason ''error'', DoFlush], Some e)
           | None \<Rightarrow> ([DoHealth, DoReason ''error'', DoFlush, DoClose 1011 UNAVAILABLE_REASON], ro_close w))
      | Inr (Some live) \<Rightarrow> (let (acts, e) = ready_phase sid q live w in (DoHealth # acts, e)))"

definition connect_phase :: "string \<Rightarrow> session_request \<Rightarrow> route_outcomes \<Rightarrow> route_act list \<times> exn option" where
  "connect_phase sid q w =
     (case ro_connect w of
        Some e \<Rightarrow> if is_Exception e then ([DoConnect, DoClose 1011 INTERNAL_REASON], ro_close w) else ([DoConnect], Some e)
      | None \<Rightarrow> (let (acts, e) = health_phase sid q w in (DoConnect # acts, e)))"

text \<open>A \<open>Teardown\<close> block runs every step, swallows their errors and raises a cancellation at its end (theory Teardown).\<close>

definition teardown_result :: "route_outcomes \<Rightarrow> exn option \<Rightarrow> exn option" where
  "teardown_result w e = (if ro_td_cancelled w then Some CancelledError else e)"

definition session_phase :: "string \<Rightarrow> session_request \<Rightarrow> route_outcomes \<Rightarrow> route_act list \<times> exn option" where
  "session_phase sid q w =
     (case ro_construct w of
        Some (e, registered) \<Rightarrow>
          (DoSender # (if registered then [DoRegister sid] else [])
             @ [DoRegistryClose sid, DoSenderClose, DoClose 1011 INTERNAL_REASON], teardown_result w None)
      | None \<Rightarrow>
          (let (acts, e) = connect_phase sid q w in
           ([DoSender, DoRegister sid] @ acts @ [DoCloseAll, DoSenderClose]
              @ (if ro_disconnected w then [] else [DoFinalClose]),
            teardown_result w e)))"

definition gateway_websocket ::
  "nat \<Rightarrow> (string \<Rightarrow> lookup_error + client \<times> session_config) \<Rightarrow> (policy_error \<Rightarrow> string) \<Rightarrow> gateway_info option \<Rightarrow>
   (string \<Rightarrow> string) \<Rightarrow> first_message \<Rightarrow> route_outcomes \<Rightarrow> route_act list \<times> exn option" where
  "gateway_websocket max_bytes lookup policy_text info session_id m w =
     (case open_session max_bytes lookup policy_text info m of
        Accept q \<Rightarrow> session_phase (session_id (cl_id (sq_client q))) q w
      | Reject k r \<Rightarrow> ([DoCount k, DoClose 1008 r], ro_close w)
      | Gone \<Rightarrow> ([], None)
      | Fails e \<Rightarrow> ([], Some e))"

text \<open>The counters of the rejections.\<close>

definition count_rejections :: "route_act list \<Rightarrow> gateway_stats \<Rightarrow> gateway_stats" where
  "count_rejections acts g = foldl (\<lambda>h a. case a of DoCount k \<Rightarrow> stats_handshake_rejected k h | _ \<Rightarrow> h) g acts"

section \<open>Properties\<close>

text \<open>
  C10: A session is opened only for an authorized client: the first message is a text within the limit with a valid
  handshake, its key is that of an active client of the table, whose stored configuration the session gets, and the agent
  is on the client's allowlist and, if it was asked for, in the roster.
\<close>

theorem session_only_for_authorized:
  assumes "json_laws encode decode py_str" "rows = store_run encode decode ops"
    and "open_session max_bytes (\<lambda>k. db_lookup decode py_str k rows) policy_text info m = Accept q"
  shows "\<exists>raw d r. m = FirstText raw (Some (JObj d)) \<and> length raw \<le> max_bytes \<and> valid_handshake d = Some (sq_hello q)
    \<and> r \<in> set rows \<and> cr_is_active r \<and> cr_client_key r = he_client_key (sq_hello q) \<and> cl_id (sq_client q) = cr_id r
    \<and> sc_pipeline (sq_config q) = cr_config r
    \<and> (\<forall>xs. cr_allowed_agents r = Some (encode xs) \<longrightarrow> sq_agent q \<in> JStr ` set xs)
    \<and> (\<forall>g. info = Some g \<and> strip (or_empty (he_agent (sq_hello q))) \<noteq> [] \<longrightarrow> sq_agent q \<in> set (agents g))"
proof -
  obtain h where h: "read_handshake max_bytes m = Accept h"
    using assms(3) by (cases "read_handshake max_bytes m") (auto simp: open_session_def)
  obtain c cfg where l: "db_lookup decode py_str (he_client_key h) rows = Inr (c, cfg)"
    using assms(3) h by (auto simp: open_session_def split: sum.splits lookup_error.splits)
  have q: "sq_hello q = h" "sq_client q = c" "sq_config q = cfg"
    "resolve_agent (he_agent h) (Some (sc_agents cfg)) info = Inr (sq_agent q)"
    using assms(3) h l by (auto simp: open_session_def split: sum.splits)
  obtain raw d where m: "m = FirstText raw (Some (JObj d))" "length raw \<le> max_bytes" "valid_handshake d = Some h"
    using h by (auto simp: read_handshake_def split: first_message.splits option.splits json.splits if_splits)
  obtain r where r: "find (\<lambda>r. cr_client_key r = he_client_key h) rows = Some r"
    using l by (auto simp: db_lookup_def split: option.splits)
  then have rm: "r \<in> set rows" "cr_client_key r = he_client_key h" by (auto simp: find_Some_iff)
  have s: "store_ok encode rows" unfolding assms(2) by (rule store_ok_run)
  have row: "cr_is_active r \<and> (\<exists>al. cr_allowed_agents r = map_option encode al
      \<and> c = \<lparr>cl_id = cr_id r, cl_key = cr_client_key r, cl_is_active = True, cl_name = cr_name r\<rparr>
      \<and> cfg = \<lparr>sc_pipeline = cr_config r, sc_agents = \<lparr>default_agent = cr_default_agent r, allowed_agents = al\<rparr>\<rparr>)"
    using lookup_row[OF assms(1) s rm(1)] l rm(2) by (auto split: if_splits)
  then obtain al where al: "cr_allowed_agents r = map_option encode al"
    "c = \<lparr>cl_id = cr_id r, cl_key = cr_client_key r, cl_is_active = True, cl_name = cr_name r\<rparr>"
    "cfg = \<lparr>sc_pipeline = cr_config r, sc_agents = \<lparr>default_agent = cr_default_agent r, allowed_agents = al\<rparr>\<rparr>"
    by blast
  have "sq_agent q \<in> JStr ` set xs" if "cr_allowed_agents r = Some (encode xs)" for xs
  proof -
    have "al = Some xs" using that al(1) encode_inj[OF assms(1)] by (cases al) auto
    then show ?thesis using q(4) al(3) by (auto simp: resolve_agent_def Let_def split: if_splits)
  qed
  moreover have "sq_agent q \<in> set (agents g)" if "info = Some g" "strip (or_empty (he_agent h)) \<noteq> []" for g
    using q(4) that by (auto simp: resolve_agent_def Let_def split: if_splits)
  ultimately show ?thesis using m rm row al(2,3) q(1-3)
    by (intro exI[of _ raw] exI[of _ d] exI[of _ r]) simp
qed

theorem session_only_for_authorized_witness:
  "\<exists>q r. open_session 65536 (\<lambda>k. db_lookup mark_decode plain_str k [demo_row]) (\<lambda>e. []) None
       (FirstText ''..'' (Some (JObj [(''client_key'', JStr ''key1''), (''input_mode'', JStr ''text''), (''output_mode'', JArr [JStr ''text''])])))
       = Accept q \<and> r \<in> set [demo_row] \<and> cl_id (sq_client q) = cr_id r"
proof -
  let ?d = "[(''client_key'', JStr ''key1''), (''input_mode'', JStr ''text''), (''output_mode'', JArr [JStr ''text''])]"
  let ?look = "\<lambda>k. db_lookup mark_decode plain_str k [demo_row]"
  have d: "cr_is_active demo_row" "cr_client_key demo_row = ''key1''"
    "cr_default_agent demo_row = Some ''home''" "cr_allowed_agents demo_row = map_option mark_encode (Some [''home'', ''work''])"
    by (simp_all add: demo_row_def new_row_def demo_body_def or_empty_def)
  have "store_ok mark_encode [demo_row]" using store_ok_run demo_store_run(1) by metis
  then obtain c al where l: "cr_allowed_agents demo_row = map_option mark_encode al"
    "?look ''key1'' = Inr (c, \<lparr>sc_pipeline = cr_config demo_row, sc_agents = \<lparr>default_agent = Some ''home'', allowed_agents = al\<rparr>\<rparr>)"
    using lookup_row[OF mark_laws, of "[demo_row]" demo_row] d by auto
  then have "al = Some [''home'', ''work'']" using d(4) encode_inj[OF mark_laws] by (cases al) auto
  then have "\<exists>q. open_session 65536 ?look (\<lambda>e. []) None (FirstText ''..'' (Some (JObj ?d))) = Accept q"
    using l(2) by (simp add: open_session_def read_handshake_def valid_handshake_def output_modes_def dget_def resolve_agent_def
        effective_agent_def or_empty_def Let_def)
  then obtain q where q: "open_session 65536 ?look (\<lambda>e. []) None (FirstText ''..'' (Some (JObj ?d))) = Accept q" by blast
  show ?thesis using session_only_for_authorized[OF mark_laws demo_store_run(1)[symmetric] q] q by blast
qed

text \<open>
  C11: Whatever fails and whoever is cancelled, a session that was opened is closed: the sender and the session are closed once,
  after everything else, \<open>ready\<close> is sent at most once, and the bridge runs only after a connect, a health check with the
  orchestrator up and a delivered \<open>ready\<close> that tells its capabilities; without a session nothing is opened at all and a
  rejection is one count and one close with 1008.
\<close>

theorem opened_session_is_closed:
  "case open_session max_bytes lookup policy_text info m of
     Accept q \<Rightarrow>
       (let sid = session_id (cl_id (sq_client q));
            acts = fst (gateway_websocket max_bytes lookup policy_text info session_id m w) in
        case ro_construct w of
          Some (e, reg) \<Rightarrow>
            acts = DoSender # (if reg then [DoRegister sid] else []) @ [DoRegistryClose sid, DoSenderClose, DoClose 1011 INTERNAL_REASON]
        | None \<Rightarrow>
            (\<exists>mid. acts = [DoSender, DoRegister sid] @ mid @ [DoCloseAll, DoSenderClose] @ (if ro_disconnected w then [] else [DoFinalClose])
              \<and> list_all (\<lambda>a. a \<in> {DoConnect, DoHealth, DoFlush, DoRun, DoReason ''error'', DoReason ''client_disconnect''}
                     \<or> (\<exists>r. a = DoClose 1011 r) \<or> (\<exists>live. ro_health w = Inr (Some live) \<and> a = DoReady (ready_message sid q live))) mid
              \<and> length (filter (\<lambda>a. \<exists>j. a = DoReady j) mid) \<le> 1
              \<and> (DoRun \<in> set mid \<longleftrightarrow>
                   (\<exists>live. mid = [DoConnect, DoHealth, DoReady (ready_message sid q live), DoFlush, DoRun]
                      \<and> ro_connect w = None \<and> ro_health w = Inr (Some live) \<and> ro_send_ready w = None \<and> ro_flush_ready w = None))))
   | Reject k r \<Rightarrow> gateway_websocket max_bytes lookup policy_text info session_id m w = ([DoCount k, DoClose 1008 r], ro_close w)
   | Gone \<Rightarrow> gateway_websocket max_bytes lookup policy_text info session_id m w = ([], None)
   | Fails e \<Rightarrow> gateway_websocket max_bytes lookup policy_text info session_id m w = ([], Some e)"
proof (cases "open_session max_bytes lookup policy_text info m")
  case (Accept q)
  let ?sid = "session_id (cl_id (sq_client q))"
  obtain mid e where mid: "connect_phase ?sid q w = (mid, e)" by (cases "connect_phase ?sid q w")
  have "list_all (\<lambda>a. a \<in> {DoConnect, DoHealth, DoFlush, DoRun, DoReason ''error'', DoReason ''client_disconnect''}
        \<or> (\<exists>r. a = DoClose 1011 r) \<or> (\<exists>live. ro_health w = Inr (Some live) \<and> a = DoReady (ready_message ?sid q live))) mid
      \<and> length (filter (\<lambda>a. \<exists>j. a = DoReady j) mid) \<le> 1
      \<and> (DoRun \<in> set mid \<longleftrightarrow>
           (\<exists>live. mid = [DoConnect, DoHealth, DoReady (ready_message ?sid q live), DoFlush, DoRun]
              \<and> ro_connect w = None \<and> ro_health w = Inr (Some live) \<and> ro_send_ready w = None \<and> ro_flush_ready w = None))"
    using mid
    by (auto simp: connect_phase_def health_phase_def ready_phase_def run_phase_def Let_def split: option.splits sum.splits if_splits)
  then show ?thesis
    by (auto simp: Accept gateway_websocket_def session_phase_def mid Let_def split: option.splits)
qed (simp_all add: gateway_websocket_def)

text \<open>
  A first message that is JSON but no object (a list, a string, a number, \<open>null\<close>) is not rejected like every other
  malformed handshake: the exception leaves the route, with no close of its own and no count.
\<close>

theorem non_object_handshake_fails:
  assumes "length raw \<le> max_bytes" "\<not> is_dict j"
  shows "gateway_websocket max_bytes lookup policy_text info session_id (FirstText raw (Some j)) w = ([], Some TypeError)
    \<and> gateway_websocket max_bytes lookup policy_text info session_id (FirstText raw None) w
       = ([DoCount ''invalid'', DoClose 1008 INVALID_REASON], ro_close w)"
  using assms by (cases j) (auto simp: gateway_websocket_def open_session_def read_handshake_def)

theorem non_object_handshake_fails_witness:
  "\<forall>w. gateway_websocket 65536 (\<lambda>k. Inl ClientNotFound) (\<lambda>e. []) None (\<lambda>c. c) (FirstText ''[]'' (Some (JArr []))) w
     = ([], Some TypeError)"
  using non_object_handshake_fails[of "''[]''" 65536 "JArr []"] by simp

end
