(* ===== verification/Bridge_Turn.thy ===== *)
theory Bridge_Turn
  imports Bridge_State Stream_Response
begin

text \<open>
  A normal turn of \<open>JotaBridge\<close>: \<open>_call_orchestrator\<close>, \<open>_run_turn\<close> with its inner functions, and
  \<open>call_orchestrator\<close> of \<open>services/orchestration.py\<close> where it waits for the next event. The coroutine
  runs from one suspension point (\<open>turn_pc\<close>) to the next; \<open>resume\<close> is what the awaited operation gives
  it. Between two points nothing else runs; at a point any other task may.
\<close>

datatype resume = RGo | RConn bool | REvent orch_event | RStop | RExn exn

definition upd_turn :: "nat \<Rightarrow> (turn \<Rightarrow> turn) \<Rightarrow> bridge \<Rightarrow> bridge" where
  "upd_turn i f b = b\<lparr>br_turns := (br_turns b)[i := f (br_turns b ! i)]\<rparr>"

definition turn_at :: "nat \<Rightarrow> turn_pc \<Rightarrow> bridge \<Rightarrow> bridge" where
  "turn_at i pc b = upd_turn i (\<lambda>t. t\<lparr>tn_pc := pc\<rparr>) b"

definition new_turn :: "string \<Rightarrow> turn" where
  "new_turn x = \<lparr>tn_text = x, tn_no = 0, tn_pc = TNew, tn_tts = None, tn_live = False, tn_audio = None,
                 tn_progress = 0, tn_first = True, tn_count = 0, tn_cancel = False\<rparr>"

text \<open>The \<open>except\<close> and \<open>finally\<close> of \<open>_call_orchestrator\<close>.\<close>

definition turn_finish :: "nat \<Rightarrow> exn option \<Rightarrow> bridge \<Rightarrow> bridge" where
  "turn_finish i pend b =
     (let n = tn_no (the_turn b i);
          b1 = (case pend of
                  Some e \<Rightarrow>
                    if is_Exception e \<and> \<not> is_ClientGone e
                    then tell (CTurnError n ''internal_error'')
                           (b\<lparr>br_stats := stats_turn_error ''internal_error'' (br_stats b)\<rparr>)
                    else b
                | None \<Rightarrow> b);
          b2 = (if br_active_no b1 = Some n then b1\<lparr>br_active_no := None\<rparr> else b1);
          b3 = (if lf_end_sent (br_life b2) = Some n then b2 else tell (CTurnEnd n) b2)
      in turn_at i TDone b3)"

definition close_tts :: "nat \<Rightarrow> exn option \<Rightarrow> bridge \<Rightarrow> bridge" where
  "close_tts i pend b = turn_at i (TClose pend) (stream_close_opt (tn_tts (the_turn b i)) b)"

text \<open>The \<open>finally\<close> around \<open>pipe_tokens\<close> and the drain: stop the audio task, close the stream.\<close>

definition stop_audio :: "nat \<Rightarrow> exn option \<Rightarrow> bridge \<Rightarrow> bridge" where
  "stop_audio i pend b =
     (let a = tn_audio (the_turn b i) in
      if audio_done_opt b a then close_tts i pend b
      else turn_at i (TStopAudio pend) (audio_cancel_opt a b))"

text \<open>\<open>_drop_tts\<close>: \<open>Inl\<close> when it has to wait for the audio task, \<open>Inr\<close> when it returns at once.\<close>

definition drop_tts :: "nat \<Rightarrow> bridge \<Rightarrow> bridge + bridge" where
  "drop_tts i b =
     (if \<not> tn_live (the_turn b i) then Inr b
      else
        let b1 = upd_turn i (\<lambda>t. t\<lparr>tn_live := False\<rparr>) b; a = tn_audio (the_turn b i) in
        if audio_done_opt b a then Inr b1 else Inl (audio_cancel_opt a b1))"

definition drain_check :: "bridge_cfg \<Rightarrow> time \<Rightarrow> nat \<Rightarrow> bridge \<Rightarrow> bridge" where
  "drain_check c now i b =
     (let t = the_turn b i in
      if audio_done_opt b (tn_audio t) then stop_audio i None b
      else if bc_drain_s c - (now - tn_progress t) \<le> 0 then
        (case drop_tts i b of
           Inl b1 \<Rightarrow> turn_at i (TDrop DropDrain) b1
         | Inr b1 \<Rightarrow> stop_audio i None b1)
      else turn_at i TDrain b)"

definition after_tokens :: "bridge_cfg \<Rightarrow> time \<Rightarrow> nat \<Rightarrow> exn option \<Rightarrow> bridge \<Rightarrow> bridge" where
  "after_tokens c now i pend b =
     (let t = the_turn b i in
      if tn_tts t = None then turn_finish i pend b
      else case pend of
        Some e \<Rightarrow> stop_audio i pend b
      | None \<Rightarrow>
          let b1 = (if lf_gone (br_life b) then audio_cancel_opt (tn_audio t) b else b) in
          drain_check c now i (upd_turn i (\<lambda>t. t\<lparr>tn_progress := now\<rparr>) b1))"

text \<open>The end of \<open>pipe_tokens\<close>: its \<open>except\<close> clauses and the start of its \<open>finally\<close>.\<close>

definition tokens_done :: "bridge_cfg \<Rightarrow> time \<Rightarrow> nat \<Rightarrow> exn option \<Rightarrow> bridge \<Rightarrow> bridge" where
  "tokens_done c now i r b =
     (let n = tn_no (the_turn b i);
          (pend, b1) =
            (case r of
               None \<Rightarrow> (None, b)
             | Some e \<Rightarrow>
                 if is_ClientGone e then (None, b)
                 else if is_RuntimeError e then
                   (let code = (case e of OrchestratorError x \<Rightarrow> x | _ \<Rightarrow> ''internal_error'') in
                    (None, tell (CTurnError n code) (b\<lparr>br_stats := stats_turn_error code (br_stats b)\<rparr>)))
                 else (Some e, b))
      in if tn_live (the_turn b1 i) then turn_at i (TEnd pend) b1 else after_tokens c now i pend b1)"

section \<open>Tokens and tool calls\<close>

text \<open>A send of \<open>_on_token\<close> or \<open>_on_tool_call\<close>: only \<open>ClientGone\<close> is raised again.\<close>

definition turn_send :: "cmsg \<Rightarrow> bridge \<Rightarrow> exn option \<times> bridge" where
  "turn_send m b =
     (case put m (br_link b) of
        Inr l \<Rightarrow> (None, b\<lparr>br_link := l\<rparr>)
      | Inl e \<Rightarrow> if is_ClientGone e then (Some e, mark_gone b) else (None, b))"

definition on_token :: "bridge_cfg \<Rightarrow> nat \<Rightarrow> string \<Rightarrow> bridge \<Rightarrow> bridge" where
  "on_token c i x b =
     (let t = the_turn b i in
      if lf_gone (br_life b) then turn_at i (TAclose ClientGone) b
      else case (if text_out c then turn_send (CToken (Some (tn_no t)) x) b else (None, b)) of
        (Some e, b1) \<Rightarrow> turn_at i (TAclose e) b1
      | (None, b1) \<Rightarrow> turn_at i (if tn_live t then TChunk else TStream) b1)"

definition on_tool_call :: "bridge_cfg \<Rightarrow> nat \<Rightarrow> tool_call \<Rightarrow> bridge \<Rightarrow> bridge" where
  "on_tool_call c i tc b =
     (if lf_gone (br_life b) then turn_at i (TAclose ClientGone) b
      else if \<not> cf_tool_calls_enabled (bc_config c) then turn_at i TStream b
      else case turn_send (CTool (Some (tn_no (the_turn b i))) tc) b of
        (Some e, b1) \<Rightarrow> turn_at i (TAclose e) b1
      | (None, b1) \<Rightarrow> turn_at i TStream b1)"

definition on_event :: "bridge_cfg \<Rightarrow> time \<Rightarrow> nat \<Rightarrow> orch_event \<Rightarrow> bridge \<Rightarrow> bridge" where
  "on_event c now i ev b =
     (case ev of
        EvToken x \<Rightarrow>
          let b1 = (if tn_first (the_turn b i) then note_event now ''llm_first_token'' [] b else b) in
          on_token c i x (upd_turn i (\<lambda>t. t\<lparr>tn_first := False, tn_count := Suc (tn_count t)\<rparr>) b1)
      | EvTool tc \<Rightarrow> on_tool_call c i tc b
      | EvStatusDone \<Rightarrow> turn_at i TStream b
      | EvError code \<Rightarrow> turn_at i (TAclose (OrchestratorError code)) b)"

section \<open>The coroutine\<close>

definition pipe_tokens :: "time \<Rightarrow> nat \<Rightarrow> bridge \<Rightarrow> bridge" where
  "pipe_tokens now i b = turn_at i TStream (note_event now ''llm_start'' [] b)"

definition turn_begin :: "bridge_cfg \<Rightarrow> time \<Rightarrow> nat \<Rightarrow> bridge \<Rightarrow> bridge" where
  "turn_begin c now i b =
     (let n = Suc (br_seq b);
          b1 = upd_turn i (\<lambda>t. t\<lparr>tn_no := n\<rparr>)
                 (b\<lparr>br_seq := n, br_tracker := snd (pt_start_turn (br_tracker b))\<rparr>) in
      case put (CTurnStart n (turn_seq n)) (br_link b1) of
        Inl e \<Rightarrow> turn_at i TDone b1
      | Inr l \<Rightarrow>
          let b2 = b1\<lparr>br_link := l, br_stats := stats_turn_started ''normal'' (br_stats b1),
                      br_active_no := Some n\<rparr> in
          if audio_out c then turn_at i TConnect b2 else pipe_tokens now i b2)"

definition turn_connected :: "bridge_cfg \<Rightarrow> time \<Rightarrow> nat \<Rightarrow> bool \<Rightarrow> bridge \<Rightarrow> bridge" where
  "turn_connected c now i ok b =
     (if \<not> ok then pipe_tokens now i b
      else
        let (h, b1) = stream_open b;
            b2 = note_event now ''tts_start'' [(''voice'', JStr (cf_tts_voice (bc_config c)))] b1;
            (a, b3) = spawn_audio (Some i) (tn_no (the_turn b i)) h b2 in
        pipe_tokens now i (upd_turn i (\<lambda>t. t\<lparr>tn_tts := Some h, tn_live := True, tn_audio := Some a\<rparr>) b3))"

definition after_drop :: "bridge_cfg \<Rightarrow> time \<Rightarrow> nat \<Rightarrow> drop_cont \<Rightarrow> bridge \<Rightarrow> bridge" where
  "after_drop c now i k b =
     (case k of
        DropToken \<Rightarrow> turn_at i TStream b
      | DropEnd pend \<Rightarrow> after_tokens c now i pend b
      | DropDrain \<Rightarrow> stop_audio i None b)"

definition drop_then :: "bridge_cfg \<Rightarrow> time \<Rightarrow> nat \<Rightarrow> drop_cont \<Rightarrow> bridge \<Rightarrow> bridge" where
  "drop_then c now i k b =
     (case drop_tts i b of Inl b1 \<Rightarrow> turn_at i (TDrop k) b1 | Inr b1 \<Rightarrow> after_drop c now i k b1)"

text \<open>
  An exception other than a cancellation cannot come out of \<open>asyncio.wait\<close>. \<open>turn_resume\<close> is the
  resumption, \<open>turn_step\<close> clears the cancellation it delivers.
\<close>

definition turn_resume :: "bridge_cfg \<Rightarrow> time \<Rightarrow> resume \<Rightarrow> nat \<Rightarrow> bridge \<Rightarrow> bridge" where
  "turn_resume c now r i b =
     (case tn_pc (the_turn b i) of
        TNew \<Rightarrow> (case r of RGo \<Rightarrow> turn_begin c now i b | RExn e \<Rightarrow> turn_at i TDone b | _ \<Rightarrow> b)
      | TConnect \<Rightarrow>
          (case r of RConn ok \<Rightarrow> turn_connected c now i ok b | RExn e \<Rightarrow> turn_finish i (Some e) b | _ \<Rightarrow> b)
      | TStream \<Rightarrow>
          (case r of
             REvent ev \<Rightarrow> on_event c now i ev b
           | RStop \<Rightarrow> tokens_done c now i None
               (note_event now ''llm_done'' [(''token_count'', JInt (int (tn_count (the_turn b i))))] b)
           | RExn e \<Rightarrow> tokens_done c now i (Some e) b
           | _ \<Rightarrow> b)
      | TChunk \<Rightarrow>
          (case r of
             RGo \<Rightarrow> turn_at i TStream b
           | RExn e \<Rightarrow> if is_Exception e then drop_then c now i DropToken b else turn_at i (TAclose e) b
           | _ \<Rightarrow> b)
      | TAclose e \<Rightarrow>
          (case r of RGo \<Rightarrow> tokens_done c now i (Some e) b | RExn e' \<Rightarrow> tokens_done c now i (Some e') b | _ \<Rightarrow> b)
      | TEnd pend \<Rightarrow>
          (case r of
             RGo \<Rightarrow> after_tokens c now i pend b
           | RExn e \<Rightarrow> if is_Exception e then drop_then c now i (DropEnd pend) b
                       else after_tokens c now i (Some e) b
           | _ \<Rightarrow> b)
      | TDrop k \<Rightarrow>
          (case r of
             RGo \<Rightarrow> after_drop c now i k b
           | RExn CancelledError \<Rightarrow>
               (case k of
                  DropToken \<Rightarrow> turn_at i (TAclose CancelledError) b
                | DropEnd _ \<Rightarrow> after_tokens c now i (Some CancelledError) b
                | DropDrain \<Rightarrow> stop_audio i (Some CancelledError) b)
           | _ \<Rightarrow> b)
      | TDrain \<Rightarrow>
          (case r of
             RGo \<Rightarrow> drain_check c now i b
           | RExn CancelledError \<Rightarrow> stop_audio i (Some CancelledError) b
           | _ \<Rightarrow> b)
      | TStopAudio pend \<Rightarrow>
          (case r of
             RGo \<Rightarrow> close_tts i pend b
           | RExn CancelledError \<Rightarrow> turn_finish i (Some CancelledError) b
           | _ \<Rightarrow> b)
      | TClose pend \<Rightarrow>
          (case r of
             RGo \<Rightarrow> turn_finish i pend b
           | RExn e \<Rightarrow> turn_finish i (if is_Exception e then pend else Some e) b
           | _ \<Rightarrow> b)
      | TDone \<Rightarrow> b)"

definition turn_step :: "bridge_cfg \<Rightarrow> time \<Rightarrow> resume \<Rightarrow> nat \<Rightarrow> bridge \<Rightarrow> bridge" where
  "turn_step c now r i b =
     turn_resume c now r i
       (if r = RExn CancelledError then upd_turn i (\<lambda>t. t\<lparr>tn_cancel := False\<rparr>) b else b)"

text \<open>\<open>task.cancel()\<close> on a turn task.\<close>

definition turn_cancel :: "nat \<Rightarrow> bridge \<Rightarrow> bridge" where
  "turn_cancel i b = (if turn_done b i then b else upd_turn i (\<lambda>t. t\<lparr>tn_cancel := True\<rparr>) b)"

section \<open>Audio tasks\<close>

datatype audio_in = AChunk bytes | AFrame | AOver | AExn exn

definition upd_audio :: "nat \<Rightarrow> (audio \<Rightarrow> audio) \<Rightarrow> bridge \<Rightarrow> bridge" where
  "upd_audio a f b = b\<lparr>br_audios := (br_audios b)[a := f (br_audios b ! a)]\<rparr>"

definition audio_end :: "nat \<Rightarrow> bridge \<Rightarrow> bridge" where
  "audio_end a b = upd_audio a (\<lambda>x. x\<lparr>au_pc := AuDone, au_frames := []\<rparr>) b"

definition audio_progress :: "time \<Rightarrow> nat \<Rightarrow> bridge \<Rightarrow> bridge" where
  "audio_progress now a b =
     (case au_owner (br_audios b ! a) of
        Some i \<Rightarrow> upd_turn i (\<lambda>t. t\<lparr>tn_progress := now\<rparr>) b
      | None \<Rightarrow> b\<lparr>br_push := (br_push b)\<lparr>pu_progress := Some now\<rparr>\<rparr>)"

text \<open>\<open>pipe_audio\<close> and \<open>_pipe_push_audio\<close>; a chunk is cut into the frames the pacer lets through.\<close>

definition audio_step :: "time \<Rightarrow> audio_in \<Rightarrow> nat \<Rightarrow> bridge \<Rightarrow> bridge" where
  "audio_step now inp a b =
     (let x = br_audios b ! a; normal = (au_owner x \<noteq> None) in
      case au_pc x of
        AuDone \<Rightarrow> b
      | AuCancelled \<Rightarrow> (case inp of AExn e \<Rightarrow> audio_end a b | _ \<Rightarrow> b)
      | AuRun \<Rightarrow>
          (case inp of
             AExn e \<Rightarrow> audio_end a b
           | AOver \<Rightarrow>
               if au_frames x \<noteq> [] then b
               else audio_end a (if normal then note_event now ''tts_done'' [] b else b)
           | AChunk ch \<Rightarrow>
               if au_frames x \<noteq> [] then b
               else
                 let b1 = audio_progress now a b in
                 if ch = [] then b1
                 else
                   let b2 = (if normal \<and> au_first x then note_event now ''tts_first_chunk'' [] b1 else b1) in
                   upd_audio a (\<lambda>x. x\<lparr>au_first := False, au_frames := chunk_slices ch\<rparr>) b2
           | AFrame \<Rightarrow>
               (case au_frames x of
                  [] \<Rightarrow> b
                | f # fs \<Rightarrow>
                    if normal \<and> lf_end_sent (br_life b) = Some (au_no x) then audio_end a b
                    else case put (if normal then CAudio (au_no x) f else CPushAudio (au_no x) f) (br_link b) of
                      Inl e \<Rightarrow> audio_end a (if normal \<and> is_ClientGone e then mark_gone b else b)
                    | Inr l \<Rightarrow>
                        audio_progress now a (upd_audio a (\<lambda>x. x\<lparr>au_frames := fs\<rparr>) (b\<lparr>br_link := l\<rparr>)))))"

end
