(* ===== verification/Bridge_Push.thy ===== *)
theory Bridge_Push
  imports Bridge_Turn
begin

text \<open>
  Push turns of \<open>JotaBridge\<close>: the handlers \<open>on_push_turn_start\<close>, \<open>deliver_push\<close>,
  \<open>deliver_push_tool_call\<close> and \<open>on_push_turn_end\<close>, the worker that runs them one event at a time,
  \<open>_drop_push_tts\<close>, \<open>_close_push_turn\<close> and \<open>_cut_push\<close>.
\<close>

definition upd_push :: "(push \<Rightarrow> push) \<Rightarrow> bridge \<Rightarrow> bridge" where
  "upd_push f b = b\<lparr>br_push := f (br_push b)\<rparr>"

definition upd_backlog :: "(backlog \<Rightarrow> backlog) \<Rightarrow> bridge \<Rightarrow> bridge" where
  "upd_backlog f b = b\<lparr>br_backlog := f (br_backlog b)\<rparr>"

definition worker_at :: "push_pc \<Rightarrow> bridge \<Rightarrow> bridge" where
  "worker_at pc b = upd_backlog (\<lambda>w. w\<lparr>bl_pc := pc\<rparr>) b"

definition upd_stats :: "(push_stats \<Rightarrow> push_stats) \<Rightarrow> bridge \<Rightarrow> bridge" where
  "upd_stats f b = upd_push (\<lambda>p. p\<lparr>pu_stats := map_option f (pu_stats p)\<rparr>) b"

text \<open>\<open>_add_push_ms\<close>.\<close>

definition add_send_ms :: "time \<Rightarrow> time \<Rightarrow> bridge \<Rightarrow> bridge" where
  "add_send_ms now t0 b = upd_stats (\<lambda>s. s\<lparr>ps_send_ms := ps_send_ms s + (now - t0) * 1000\<rparr>) b"

definition add_end_ms :: "time \<Rightarrow> time \<Rightarrow> bridge \<Rightarrow> bridge" where
  "add_end_ms now t0 b = upd_stats (\<lambda>s. s\<lparr>ps_end_ms := ps_end_ms s + (now - t0) * 1000\<rparr>) b"

definition add_drain_ms :: "time \<Rightarrow> time \<Rightarrow> bridge \<Rightarrow> bridge" where
  "add_drain_ms now t0 b = upd_stats (\<lambda>s. s\<lparr>ps_drain_ms := ps_drain_ms s + (now - t0) * 1000\<rparr>) b"

definition add_close_ms :: "time \<Rightarrow> time \<Rightarrow> bridge \<Rightarrow> bridge" where
  "add_close_ms now t0 b = upd_stats (\<lambda>s. s\<lparr>ps_close_ms := ps_close_ms s + (now - t0) * 1000\<rparr>) b"

section \<open>Closing and dropping\<close>

definition close_push_turn :: "nat \<Rightarrow> bridge \<Rightarrow> bool \<times> bridge" where
  "close_push_turn n b =
     (if \<not> (pu_open (br_push b) \<and> pu_no (br_push b) = Some n) then (False, b)
      else (True, tell (CTurnEnd n) (upd_push (\<lambda>p. p\<lparr>pu_open := False, pu_opened_at := None\<rparr>) b)))"

text \<open>
  \<open>_drop_push_tts\<close> up to its first wait: it had nothing to drop, it waits for the audio task it
  cancelled (the stream \<open>h\<close> is closed after that), or it waits for the closing of the stream.
\<close>

datatype drop_result = DropNothing bridge | DropWaits nat bridge | DropCloses bridge

definition drop_push_tts :: "bridge \<Rightarrow> drop_result" where
  "drop_push_tts b =
     (case pu_tts (br_push b) of
        None \<Rightarrow> DropNothing b
      | Some h \<Rightarrow>
          let a = pu_audio (br_push b);
              b1 = upd_stats (\<lambda>s. s\<lparr>ps_dropped := True\<rparr>)
                     (upd_push (\<lambda>p. p\<lparr>pu_tts := None, pu_audio := None\<rparr>) b) in
          if audio_done_opt b a then DropCloses (stream_close h b1)
          else DropWaits h (audio_cancel_opt a b1))"

section \<open>The worker\<close>

text \<open>The \<open>finally\<close> of an event. \<open>worker_over\<close> is the end of the task by a cancellation.\<close>

definition event_over :: "bridge \<Rightarrow> bridge" where
  "event_over b =
     upd_backlog (\<lambda>w. w\<lparr>bl_pending := bl_pending w - 1,
                        bl_since := (if bl_pending w - 1 = 0 then None else bl_since w)\<rparr>) b"

definition worker_next :: "bridge \<Rightarrow> bridge" where
  "worker_next b =
     (let b1 = event_over b in
      if lf_closing (br_life b1) then upd_backlog (\<lambda>w. w\<lparr>bl_pc := WNone, bl_cancel := False\<rparr>) b1
      else worker_at WGet b1)"

definition worker_over :: "bridge \<Rightarrow> bridge" where
  "worker_over b = upd_backlog (\<lambda>w. w\<lparr>bl_pc := WNone, bl_cancel := False\<rparr>) b"

definition push_turn_start :: "bridge_cfg \<Rightarrow> time \<Rightarrow> string \<Rightarrow> bridge \<Rightarrow> bridge" where
  "push_turn_start c now sk b =
     (if \<not> cf_push_enabled (bc_config c) then worker_next b
      else if pu_open (br_push b) then worker_next b
      else
        let n = Suc (br_seq b);
            b1 = upd_push (\<lambda>p. p\<lparr>pu_no := Some n, pu_key := Some sk, pu_open := True,
                                 pu_text := reset (pu_text p), pu_opened_at := Some now,
                                 pu_stats := None\<rparr>)
                   (b\<lparr>br_seq := n, br_stats := stats_turn_started ''push'' (br_stats b)\<rparr>);
            b2 = tell (CTurnStart n (turn_seq n)) b1 in
        if \<not> audio_out c then worker_next b2 else worker_at (WConnect n) b2)"

definition push_connected :: "time \<Rightarrow> nat \<Rightarrow> bool \<Rightarrow> bridge \<Rightarrow> bridge" where
  "push_connected now n ok b =
     (if \<not> ok then worker_next b
      else
        let (h, b1) = stream_open b in
        if \<not> (pu_open (br_push b1) \<and> pu_no (br_push b1) = Some n)
        then worker_at WCutClose (stream_close h b1)
        else
          let (a, b2) = spawn_audio None n h b1 in
          worker_next
            (upd_push (\<lambda>p. p\<lparr>pu_tts := Some h, pu_audio := Some a, pu_progress := Some now,
                             pu_stats := Some \<lparr>ps_send_ms = 0, ps_end_ms = 0, ps_drain_ms = 0,
                                               ps_close_ms = 0, ps_dropped = False, ps_chars = 0\<rparr>\<rparr>) b2))"

definition deliver_push :: "bridge_cfg \<Rightarrow> time \<Rightarrow> dict \<Rightarrow> bridge \<Rightarrow> bridge" where
  "deliver_push c now payload b =
     (if \<not> push_allowed c b then worker_next b
      else
        let (delta, txt_state) = feed payload (pu_text (br_push b));
            b1 = upd_push (\<lambda>p. p\<lparr>pu_text := txt_state\<rparr>) b in
        if delta = [] then worker_next b1
        else
          let b2 = (if text_out c then tell (CToken (pu_no (br_push b1)) delta) b1 else b1) in
          if pu_tts (br_push b2) = None then worker_next b2
          else worker_at (WSend now)
                 (upd_stats (\<lambda>s. s\<lparr>ps_chars := ps_chars s + length delta\<rparr>) b2))"

definition deliver_push_tool_call :: "bridge_cfg \<Rightarrow> json \<Rightarrow> bridge \<Rightarrow> bridge" where
  "deliver_push_tool_call c data b =
     (if \<not> push_allowed c b then worker_next b
      else if \<not> cf_tool_calls_enabled (bc_config c) then worker_next b
      else case data of
        JObj d \<Rightarrow>
          (case from_session_tool_payload d of
             Inr (Some tc) \<Rightarrow> worker_next (tell (CTool (pu_no (br_push b)) tc) b)
           | _ \<Rightarrow> worker_next b)
      | _ \<Rightarrow> worker_next b)"

definition push_stats_meta :: "push_stats \<Rightarrow> dict" where
  "push_stats_meta s =
     [(''send_ms'', JFloat (py_round_n 1 (ps_send_ms s))), (''end_ms'', JFloat (py_round_n 1 (ps_end_ms s))),
      (''drain_ms'', JFloat (py_round_n 1 (ps_drain_ms s))),
      (''close_ms'', JFloat (py_round_n 1 (ps_close_ms s))), (''dropped'', JBool (ps_dropped s)),
      (''chars'', JInt (int (ps_chars s)))]"

text \<open>The tail of \<open>on_push_turn_end\<close>: report the times, close the push turn.\<close>

definition push_end_finish :: "time \<Rightarrow> nat \<Rightarrow> bridge \<Rightarrow> bridge" where
  "push_end_finish now n b =
     (let b1 = upd_push (\<lambda>p. p\<lparr>pu_stats := None\<rparr>) b;
          b2 = (case pu_stats (br_push b) of
                  None \<Rightarrow> b1 | Some s \<Rightarrow> note_event now ''push_tts'' (push_stats_meta s) b1) in
      worker_next (snd (close_push_turn n b2)))"

definition push_end_close :: "time \<Rightarrow> nat \<Rightarrow> time \<Rightarrow> bridge \<Rightarrow> bridge" where
  "push_end_close now n t0 b =
     (let b1 = add_drain_ms now t0 (upd_push (\<lambda>p. p\<lparr>pu_audio := None\<rparr>) b) in
      case pu_tts (br_push b1) of
        None \<Rightarrow> push_end_finish now n b1
      | Some h \<Rightarrow> worker_at (WClose n now) (stream_close h b1))"

definition push_drain_check :: "bridge_cfg \<Rightarrow> time \<Rightarrow> nat \<Rightarrow> time \<Rightarrow> nat \<Rightarrow> bridge \<Rightarrow> bridge" where
  "push_drain_check c now n t0 a b =
     (if audio_done b a then push_end_close now n t0 b
      else
        let since = (case pu_progress (br_push b) of None \<Rightarrow> t0 | Some p \<Rightarrow> if p = 0 then t0 else p) in
        if bc_drain_s c - (now - since) \<le> 0 then worker_at (WDrainStop n t0) (audio_cancel a b)
        else worker_at (WDrain n t0 a) b)"

definition push_end_drain :: "bridge_cfg \<Rightarrow> time \<Rightarrow> nat \<Rightarrow> bridge \<Rightarrow> bridge" where
  "push_end_drain c now n b =
     (case (pu_tts (br_push b), pu_audio (br_push b)) of
        (Some _, Some a) \<Rightarrow>
          if audio_done b a then push_end_close now n now b
          else push_drain_check c now n now a (upd_push (\<lambda>p. p\<lparr>pu_progress := Some now\<rparr>) b)
      | _ \<Rightarrow> push_end_close now n now b)"

definition push_turn_end :: "bridge_cfg \<Rightarrow> time \<Rightarrow> bridge \<Rightarrow> bridge" where
  "push_turn_end c now b =
     (if \<not> pu_open (br_push b) then worker_next b
      else case pu_no (br_push b) of
        None \<Rightarrow> worker_next b
      | Some n \<Rightarrow>
          if pu_tts (br_push b) \<noteq> None then worker_at (WEnd n now) b else push_end_drain c now n b)"

text \<open>What follows \<open>_drop_push_tts\<close> in the worker: \<open>None\<close> after a token, \<open>Some\<close> after \<open>tts.end()\<close>.\<close>

definition after_push_drop :: "bridge_cfg \<Rightarrow> time \<Rightarrow> (nat \<times> time) option \<Rightarrow> time \<Rightarrow> bridge \<Rightarrow> bridge" where
  "after_push_drop c now k t0 b =
     (case k of
        None \<Rightarrow> worker_next (add_send_ms now t0 b)
      | Some (n, t1) \<Rightarrow> push_end_drain c now n (add_end_ms now t1 b))"

definition worker_drop :: "bridge_cfg \<Rightarrow> time \<Rightarrow> (nat \<times> time) option \<Rightarrow> time \<Rightarrow> bridge \<Rightarrow> bridge" where
  "worker_drop c now k t0 b =
     (case drop_push_tts b of
        DropNothing b1 \<Rightarrow> after_push_drop c now k t0 b1
      | DropWaits h b1 \<Rightarrow> worker_at (WDropAudio h k t0) b1
      | DropCloses b1 \<Rightarrow> worker_at (WDropClose k t0) b1)"

text \<open>A cancellation inside an event: the \<open>finally\<close> clauses run and the task ends.\<close>

definition worker_cancelled :: "bridge \<Rightarrow> bridge" where
  "worker_cancelled b = worker_over (event_over b)"

definition worker_event :: "bridge_cfg \<Rightarrow> time \<Rightarrow> push_kind \<Rightarrow> bridge \<Rightarrow> bridge" where
  "worker_event c now k b =
     (case k of
        PkStart sk \<Rightarrow> worker_at (if turn_running b then WTurn sk else WLock sk) b
      | PkChat payload \<Rightarrow> deliver_push c now payload b
      | PkTool data \<Rightarrow> deliver_push_tool_call c data b
      | PkEnd sk \<Rightarrow> push_turn_end c now b
      | PkOther s \<Rightarrow> worker_next b)"

definition drop_cancelled :: "time \<Rightarrow> (nat \<times> time) option \<Rightarrow> time \<Rightarrow> bridge \<Rightarrow> bridge" where
  "drop_cancelled now k t0 b =
     worker_cancelled (case k of None \<Rightarrow> add_send_ms now t0 b | Some (n, t1) \<Rightarrow> add_end_ms now t1 b)"

text \<open>
  One resumption of the worker. At \<open>WLock\<close> it resumes holding \<open>_turn_lock\<close>, which it releases at
  once.
\<close>

definition worker_step :: "bridge_cfg \<Rightarrow> time \<Rightarrow> resume \<Rightarrow> bridge \<Rightarrow> bridge" where
  "worker_step c now r b =
     (case bl_pc (br_backlog b) of
        WNone \<Rightarrow> b
      | WGet \<Rightarrow>
          (case r of
             RGo \<Rightarrow>
               (case bl_queue (br_backlog b) of
                  [] \<Rightarrow> b
                | k # ks \<Rightarrow> worker_event c now k (upd_backlog (\<lambda>w. w\<lparr>bl_queue := ks\<rparr>) b))
           | RExn e \<Rightarrow> worker_over b
           | _ \<Rightarrow> b)
      | WTurn sk \<Rightarrow>
          (case r of
             RGo \<Rightarrow> if turn_running b then b else worker_at (WLock sk) b
           | RExn e \<Rightarrow> worker_cancelled b
           | _ \<Rightarrow> b)
      | WLock sk \<Rightarrow>
          (case r of
             RGo \<Rightarrow> if turn_running b then worker_at (WTurn sk) b else push_turn_start c now sk b
           | RExn e \<Rightarrow> worker_cancelled b
           | _ \<Rightarrow> b)
      | WConnect n \<Rightarrow>
          (case r of
             RConn ok \<Rightarrow> push_connected now n ok b
           | RExn e \<Rightarrow> if is_Exception e then worker_next b else worker_cancelled b
           | _ \<Rightarrow> b)
      | WCutClose \<Rightarrow>
          (case r of
             RGo \<Rightarrow> worker_next b
           | RExn e \<Rightarrow> if is_Exception e then worker_next b else worker_cancelled b
           | _ \<Rightarrow> b)
      | WSend t0 \<Rightarrow>
          (case r of
             RGo \<Rightarrow> worker_next (add_send_ms now t0 b)
           | RExn e \<Rightarrow> if is_Exception e then worker_drop c now None t0 b
                       else worker_cancelled (add_send_ms now t0 b)
           | _ \<Rightarrow> b)
      | WEnd n t0 \<Rightarrow>
          (case r of
             RGo \<Rightarrow> push_end_drain c now n (add_end_ms now t0 b)
           | RExn e \<Rightarrow> if is_Exception e then worker_drop c now (Some (n, t0)) t0 b
                       else worker_cancelled (add_end_ms now t0 b)
           | _ \<Rightarrow> b)
      | WDropAudio h k t0 \<Rightarrow>
          (case r of
             RGo \<Rightarrow> worker_at (WDropClose k t0) (stream_close h b)
           | RExn e \<Rightarrow> drop_cancelled now k t0 b
           | _ \<Rightarrow> b)
      | WDropClose k t0 \<Rightarrow>
          (case r of
             RGo \<Rightarrow> after_push_drop c now k t0 b
           | RExn e \<Rightarrow> if is_Exception e then after_push_drop c now k t0 b else drop_cancelled now k t0 b
           | _ \<Rightarrow> b)
      | WDrain n t0 a \<Rightarrow>
          (case r of
             RGo \<Rightarrow> push_drain_check c now n t0 a b
           | RExn e \<Rightarrow> worker_cancelled b
           | _ \<Rightarrow> b)
      | WDrainStop n t0 \<Rightarrow>
          (case r of
             RGo \<Rightarrow> push_end_close now n t0 b
           | RExn e \<Rightarrow> worker_cancelled b
           | _ \<Rightarrow> b)
      | WClose n t0 \<Rightarrow>
          (case r of
             RGo \<Rightarrow> push_end_finish now n (add_close_ms now t0 (upd_push (\<lambda>p. p\<lparr>pu_tts := None\<rparr>) b))
           | RExn e \<Rightarrow>
               if is_Exception e
               then push_end_finish now n (add_close_ms now t0 (upd_push (\<lambda>p. p\<lparr>pu_tts := None\<rparr>) b))
               else worker_cancelled b
           | _ \<Rightarrow> b))"

definition worker_cancel :: "bridge \<Rightarrow> bridge" where
  "worker_cancel b =
     (if bl_pc (br_backlog b) = WNone then b else upd_backlog (\<lambda>w. w\<lparr>bl_cancel := True\<rparr>) b)"

definition enqueue_push :: "time \<Rightarrow> push_kind \<Rightarrow> bridge \<Rightarrow> bridge" where
  "enqueue_push now k b =
     (if lf_closing (br_life b) then b
      else upd_backlog
             (\<lambda>w. w\<lparr>bl_pc := (if bl_pc w = WNone then WGet else bl_pc w),
                    bl_since := (if bl_pending w = 0 then Some now else bl_since w),
                    bl_pending := Suc (bl_pending w),
                    bl_peak := max (bl_peak w) (Suc (bl_pending w)),
                    bl_queue := bl_queue w @ [k]\<rparr>) b)"

section \<open>Cutting a push\<close>

datatype cut_result = CutReturns "nat option" bridge | CutWaits cut_pc bridge | CutRaises exn bridge

definition cut_finish :: "nat \<Rightarrow> bridge \<Rightarrow> cut_result" where
  "cut_finish n b = CutReturns (Some n) (snd (close_push_turn n b))"

definition cut_abort :: "bridge_cfg \<Rightarrow> nat \<Rightarrow> bridge \<Rightarrow> cut_result" where
  "cut_abort c n b =
     (if pu_key (br_push b) = Some (session_key c) then CutWaits (CuAbort n) b else cut_finish n b)"

definition cut_push :: "bridge_cfg \<Rightarrow> nat option \<Rightarrow> bridge \<Rightarrow> cut_result" where
  "cut_push c expected b =
     (case pu_no (br_push b) of
        None \<Rightarrow> CutReturns None b
      | Some n \<Rightarrow>
          if \<not> pu_open (br_push b) then CutReturns None b
          else if expected \<noteq> None \<and> expected \<noteq> Some n then CutReturns None b
          else case drop_push_tts b of
            DropNothing b1 \<Rightarrow> cut_abort c n b1
          | DropWaits h b1 \<Rightarrow> CutWaits (CuAudio n h) b1
          | DropCloses b1 \<Rightarrow> CutWaits (CuClose n) b1)"

definition cut_step :: "bridge_cfg \<Rightarrow> resume \<Rightarrow> cut_pc \<Rightarrow> bridge \<Rightarrow> cut_result" where
  "cut_step c r pc b =
     (case pc of
        CuAudio n h \<Rightarrow>
          (case r of
             RGo \<Rightarrow> CutWaits (CuClose n) (stream_close h b)
           | RExn e \<Rightarrow> CutRaises e b
           | _ \<Rightarrow> CutWaits pc b)
      | CuClose n \<Rightarrow>
          (case r of
             RGo \<Rightarrow> cut_abort c n b
           | RExn e \<Rightarrow> if is_Exception e then cut_abort c n b else CutRaises e b
           | _ \<Rightarrow> CutWaits pc b)
      | CuAbort n \<Rightarrow>
          (case r of
             RGo \<Rightarrow> cut_finish n b
           | RExn e \<Rightarrow> CutRaises e b
           | _ \<Rightarrow> CutWaits pc b))"

end
