(* ===== verification/Bridge_Control.thy ===== *)
theory Bridge_Control
  imports Bridge_Push
begin

text \<open>
  What the client's input does in \<open>JotaBridge\<close>: \<open>_cancel_turn\<close>, \<open>_start_turn\<close>,
  \<open>_client_input_loop\<close>, \<open>_on_transcription\<close> and the other callbacks of the transcriber. Two tasks take
  \<open>_turn_lock\<close>: the input loop (task 0) and the task that delivers transcriptions (task 1). A step
  that takes the lock is only taken while it is free (theory Bridge\_System).
\<close>

definition input_task :: nat where "input_task = 0"
definition stt_task :: nat where "stt_task = 1"

definition ctl_at :: "nat \<Rightarrow> ctl_pc \<Rightarrow> bridge \<Rightarrow> bridge" where
  "ctl_at k pc b = b\<lparr>br_ctl := (br_ctl b)[k := pc]\<rparr>"

definition lock_take :: "nat \<Rightarrow> bridge \<Rightarrow> bridge" where
  "lock_take k b = b\<lparr>br_lock := Some k\<rparr>"

definition lock_release :: "bridge \<Rightarrow> bridge" where
  "lock_release b = b\<lparr>br_lock := None\<rparr>"

text \<open>
  An exception leaves the task. In the input loop it ends the loop with the reason \<open>error\<close>, unless
  it is a cancellation; in the callback it goes to the transcriber, which keeps delivering.
\<close>

definition ctl_raise :: "nat \<Rightarrow> exn \<Rightarrow> bridge \<Rightarrow> bridge" where
  "ctl_raise k e b =
     (if k = input_task
      then ctl_at k COver (if is_Exception e then note_close_reason (Some ''error'') b else b)
      else if is_Exception e then ctl_at k CIdle b else ctl_at k COver b)"

section \<open>Starting a turn\<close>

text \<open>The end of \<open>_start_turn\<close>: the new task, unless \<open>close_all\<close> started meanwhile.\<close>

definition start_create :: "time \<Rightarrow> nat \<Rightarrow> string \<Rightarrow> bridge \<Rightarrow> bridge" where
  "start_create now k x b =
     (let b1 = (if lf_closing (br_life b) then b
                else b\<lparr>br_turns := br_turns b @ [new_turn x], br_active := Some (length (br_turns b)),
                       br_active_at := Some now\<rparr>)
      in ctl_at k CIdle (lock_release b1))"

definition start_cut_result :: "time \<Rightarrow> nat \<Rightarrow> string \<Rightarrow> cut_result \<Rightarrow> bridge" where
  "start_cut_result now k x r =
     (case r of
        CutReturns _ b \<Rightarrow> start_create now k x b
      | CutWaits pc b \<Rightarrow> ctl_at k (CStartCut x pc) b
      | CutRaises e b \<Rightarrow> ctl_raise k e (lock_release b))"

definition start_cut :: "bridge_cfg \<Rightarrow> time \<Rightarrow> nat \<Rightarrow> string \<Rightarrow> bridge \<Rightarrow> bridge" where
  "start_cut c now k x b = start_cut_result now k x (cut_push c None b)"

definition start_turn :: "nat \<Rightarrow> string \<Rightarrow> bridge \<Rightarrow> bridge" where
  "start_turn k x b = (if lf_closing (br_life b) then b else ctl_at k (CStartLock x) b)"

definition start_locked :: "bridge_cfg \<Rightarrow> time \<Rightarrow> nat \<Rightarrow> string \<Rightarrow> bridge \<Rightarrow> bridge" where
  "start_locked c now k x b =
     (if lf_closing (br_life b) then ctl_at k CIdle b
      else
        let b1 = lock_take k b in
        (case br_active b1 of
           Some i \<Rightarrow>
             if turn_done b1 i then start_cut c now k x b1
             else ctl_at k (CStartWait x i False) (turn_cancel i b1)
         | None \<Rightarrow> start_cut c now k x b1))"

text \<open>\<open>_cancel_and_wait\<close> after its wait: a cancellation noted meanwhile is raised.\<close>

definition forget_active :: "nat \<Rightarrow> bridge \<Rightarrow> bridge" where
  "forget_active i b = (if br_active b = Some i then b\<lparr>br_active := None\<rparr> else b)"

section \<open>Cancelling a turn\<close>

definition barge_done :: "time \<Rightarrow> nat \<Rightarrow> nat option \<Rightarrow> bridge \<Rightarrow> bridge" where
  "barge_done now k i b = ctl_at k CIdle (tell (CInterrupted i) (note_event now ''barge_in'' [] b))"

text \<open>What the caller of \<open>_cancel_turn\<close> does with its result.\<close>

definition cancel_result :: "time \<Rightarrow> nat \<Rightarrow> ctl_cont \<Rightarrow> bool \<Rightarrow> nat option \<Rightarrow> bridge \<Rightarrow> bridge" where
  "cancel_result now k kc cancelled i b =
     (case kc of
        KCancelMsg None \<Rightarrow> ctl_at k CIdle b
      | KCancelMsg (Some p) \<Rightarrow> ctl_at k (CCutLock p kc) b
      | KBarge push_no \<Rightarrow>
          if cancelled then barge_done now k i b
          else (case push_no of None \<Rightarrow> ctl_at k CIdle b | Some p \<Rightarrow> ctl_at k (CCutLock p kc) b)
      | KFinal x \<Rightarrow> ctl_at k CIdle (tell (CTranscription x) b))"

definition cancel_turn :: "time \<Rightarrow> nat \<Rightarrow> ctl_cont \<Rightarrow> bridge \<Rightarrow> bridge" where
  "cancel_turn now k kc b =
     (case br_active b of
        None \<Rightarrow> cancel_result now k kc False None b
      | Some i \<Rightarrow>
          if turn_done b i then cancel_result now k kc False None b
          else ctl_at k (CCancelLock i (br_active_no b) kc) b)"

definition cancel_locked :: "time \<Rightarrow> nat \<Rightarrow> nat \<Rightarrow> nat option \<Rightarrow> ctl_cont \<Rightarrow> bridge \<Rightarrow> bridge" where
  "cancel_locked now k i n kc b =
     (if turn_done b i then cancel_result now k kc False None b
      else ctl_at k (CCancelWait i n kc False) (turn_cancel i (lock_take k b)))"

definition cut_result_of :: "time \<Rightarrow> nat \<Rightarrow> nat \<Rightarrow> ctl_cont \<Rightarrow> cut_result \<Rightarrow> bridge" where
  "cut_result_of now k p kc r =
     (case r of
        CutReturns x b \<Rightarrow>
          let b1 = lock_release b in
          (case kc of
             KBarge _ \<Rightarrow> if x = None then ctl_at k CIdle b1 else barge_done now k (Some p) b1
           | _ \<Rightarrow> ctl_at k CIdle b1)
      | CutWaits pc b \<Rightarrow> ctl_at k (CCut pc p kc) b
      | CutRaises e b \<Rightarrow> ctl_raise k e (lock_release b))"

section \<open>Resuming\<close>

text \<open>
  A wait for a turn (\<open>Teardown.wait\<close>) goes on after a cancellation, which it notes and raises when
  the turn is done.
\<close>

definition ctl_step :: "bridge_cfg \<Rightarrow> time \<Rightarrow> resume \<Rightarrow> nat \<Rightarrow> bridge \<Rightarrow> bridge" where
  "ctl_step c now r k b =
     (case br_ctl b ! k of
        CIdle \<Rightarrow> b
      | COver \<Rightarrow> b
      | CStartLock x \<Rightarrow>
          (case r of RGo \<Rightarrow> start_locked c now k x b | RExn e \<Rightarrow> ctl_raise k e b | _ \<Rightarrow> b)
      | CStartWait x i noted \<Rightarrow>
          (case r of
             RGo \<Rightarrow>
               if \<not> turn_done b i then b
               else
                 let b1 = forget_active i b in
                 if noted then ctl_raise k CancelledError (lock_release b1) else start_cut c now k x b1
           | RExn e \<Rightarrow> ctl_at k (CStartWait x i True) b
           | _ \<Rightarrow> b)
      | CStartCut x pc \<Rightarrow> start_cut_result now k x (cut_step c r pc b)
      | CCancelLock i n kc \<Rightarrow>
          (case r of RGo \<Rightarrow> cancel_locked now k i n kc b | RExn e \<Rightarrow> ctl_raise k e b | _ \<Rightarrow> b)
      | CCancelWait i n kc noted \<Rightarrow>
          (case r of
             RGo \<Rightarrow>
               if \<not> turn_done b i then b
               else
                 let b1 = lock_release (forget_active i b) in
                 if noted then ctl_raise k CancelledError b1 else cancel_result now k kc True n b1
           | RExn e \<Rightarrow> ctl_at k (CCancelWait i n kc True) b
           | _ \<Rightarrow> b)
      | CCutLock p kc \<Rightarrow>
          (case r of
             RGo \<Rightarrow> cut_result_of now k p kc (cut_push c (Some p) (lock_take k b))
           | RExn e \<Rightarrow> ctl_raise k e b
           | _ \<Rightarrow> b)
      | CCut pc p kc \<Rightarrow> cut_result_of now k p kc (cut_step c r pc b))"

section \<open>Transcriptions\<close>

definition open_push :: "bridge \<Rightarrow> nat option" where
  "open_push b = (if pu_open (br_push b) then pu_no (br_push b) else None)"

definition on_transcription :: "bridge_cfg \<Rightarrow> time \<Rightarrow> string \<Rightarrow> bool \<Rightarrow> bridge \<Rightarrow> bridge" where
  "on_transcription c now x is_final b =
     (if \<not> is_final then
        (case put (CPartial x) (br_link b) of
           Inl e \<Rightarrow> b
         | Inr l \<Rightarrow>
             let b1 = note_event now ''transcription_partial'' [(''text_len'', JInt (int (length x)))]
                        (b\<lparr>br_link := l\<rparr>) in
             if cf_barge_in_enabled (bc_config c) \<and> cf_barge_in_min_chars (bc_config c) \<le> int (length x)
             then cancel_turn now stt_task (KBarge (open_push b1)) b1 else b1)
      else
        cancel_turn now stt_task (KFinal x)
          (note_event now ''transcription_final'' [(''text_len'', JInt (int (length x)))] b))"

definition on_transcriber_warning :: "string \<Rightarrow> string option \<Rightarrow> bridge \<Rightarrow> bridge" where
  "on_transcriber_warning code msg b =
     snd (notify_service_status ''transcriber'' ''degraded'' (Some code)
            (Some (case msg of None \<Rightarrow> code | Some m \<Rightarrow> if m = [] then code else m)) False b)"

definition set_busy :: "bool \<Rightarrow> bridge \<Rightarrow> bridge" where
  "set_busy x b = b\<lparr>br_act := (br_act b)\<lparr>ac_busy := x\<rparr>\<rparr>"

definition on_transcriber_status :: "string \<Rightarrow> string option \<Rightarrow> bridge \<Rightarrow> bridge" where
  "on_transcriber_status state reason b =
     (if state = ''busy'' \<and> \<not> ac_busy (br_act b) then
        let code = (case reason of None \<Rightarrow> ''busy'' | Some r \<Rightarrow> if r = [] then ''busy'' else r) in
        snd (notify_service_status ''transcriber'' ''degraded'' (Some code) (Some code) False (set_busy True b))
      else if state = ''ok'' \<and> ac_busy (br_act b) then
        snd (notify_service_status ''transcriber'' ''restored'' None None False (set_busy False b))
      else b)"

definition on_transcriber_incomplete :: "time \<Rightarrow> string option \<Rightarrow> bridge \<Rightarrow> bridge" where
  "on_transcriber_incomplete now reason b =
     note_event now ''transcription_incomplete'' [(''reason'', opt_str reason)] b"

definition on_transcriber_state_change :: "connection_state \<Rightarrow> bridge \<Rightarrow> bridge" where
  "on_transcriber_state_change s b =
     snd (notify_service_status ''transcriber'' (to_wire_state s) None None False b)"

section \<open>Client messages\<close>

text \<open>
  A received ASGI message; the decoded text is what \<open>json.loads\<close> makes of it, \<open>None\<close> when it raises.
  \<open>WsOther\<close> has neither bytes nor text. \<open>WsError\<close> is an exception of \<open>receive()\<close>.
\<close>

datatype ws_in =
    WsDisconnect "int option"
  | WsDisconnected "int option"
  | WsBytes bytes
  | WsText string "json option"
  | WsOther
  | WsError exn

definition WATCHDOG_POLL_S :: rat where "WATCHDOG_POLL_S = 2"

definition audio_gap_s :: "bridge_cfg \<Rightarrow> rat" where
  "audio_gap_s c = max (cf_silence_timeout_s (bc_config c)) WATCHDOG_POLL_S"

definition note_audio :: "bridge_cfg \<Rightarrow> time \<Rightarrow> activity \<Rightarrow> activity" where
  "note_audio c now a =
     (let burst = (case ac_audio a of None \<Rightarrow> True | Some t \<Rightarrow> audio_gap_s c < now - t) in
      a\<lparr>ac_burst := (if burst then Some now else ac_burst a), ac_audio := Some now\<rparr>)"

definition stt_call :: "stt_call \<Rightarrow> bridge \<Rightarrow> bridge" where
  "stt_call x b = b\<lparr>br_act := (br_act b)\<lparr>ac_stt := ac_stt (br_act b) @ [x]\<rparr>\<rparr>"

definition on_text :: "bridge_cfg \<Rightarrow> time \<Rightarrow> bool \<Rightarrow> string \<Rightarrow> json option \<Rightarrow> bridge \<Rightarrow> bridge" where
  "on_text c now has_stt raw parsed b =
     (case parsed of
        None \<Rightarrow>
          if hs_input_mode (bc_handshake c) = ''text'' then start_turn input_task raw b else b
      | Some (JObj d) \<Rightarrow>
          if dget d ''type'' = JStr ''end'' then (if has_stt then stt_call SttEnd b else b)
          else if dget d ''type'' = JStr ''cancel'' then
            cancel_turn now input_task (KCancelMsg (open_push b)) b
          else if dget d ''type'' = JStr ''send'' then
            (case dget_or d ''text'' (JStr []) of
               JStr x \<Rightarrow> if strip x \<noteq> [] then start_turn input_task (strip x) b else b
             | _ \<Rightarrow> send_invalid_message b)
          else b
      | Some _ \<Rightarrow> send_invalid_message b)"

text \<open>\<open>has_stt\<close>: the session has a transcriber, to which audio and \<open>end\<close> go.\<close>

definition client_message :: "bridge_cfg \<Rightarrow> time \<Rightarrow> bool \<Rightarrow> ws_in \<Rightarrow> bridge \<Rightarrow> bridge" where
  "client_message c now has_stt m b =
     (let seen = b\<lparr>br_act := (br_act b)\<lparr>ac_client := now\<rparr>\<rparr> in
      case m of
        WsDisconnect code \<Rightarrow>
          ctl_at input_task COver (note_disconnect_code code (mark_gone seen))
      | WsDisconnected code \<Rightarrow> ctl_at input_task COver (note_disconnect_code code (mark_gone b))
      | WsError e \<Rightarrow> ctl_raise input_task e b
      | WsBytes x \<Rightarrow>
          if has_stt then stt_call (SttAudio x) (seen\<lparr>br_act := note_audio c now (br_act seen)\<rparr>) else seen
      | WsText raw parsed \<Rightarrow> on_text c now has_stt raw parsed seen
      | WsOther \<Rightarrow> seen)"

end
