(* ===== verification/Bridge_Close.thy ===== *)
theory Bridge_Close
  imports Bridge_Control Teardown
begin

text \<open>
  \<open>close_all\<close> of \<open>JotaBridge\<close>, with the end-of-session record, \<open>health_check\<close> and \<open>snapshot\<close>. Every
  wait of the closing is bounded by \<open>SESSION_TEARDOWN_S\<close> and survives a cancellation of its caller
  (theory Teardown), so each resumption of the body means: what it waited for is over, or the limit
  passed.
\<close>

definition upd_life :: "(life \<Rightarrow> life) \<Rightarrow> bridge \<Rightarrow> bridge" where
  "upd_life f b = b\<lparr>br_life := f (br_life b)\<rparr>"

definition close_at :: "close_pc \<Rightarrow> bridge \<Rightarrow> bridge" where
  "close_at pc b = upd_life (\<lambda>l. l\<lparr>lf_close := pc\<rparr>) b"

text \<open>What every caller does before the lock.\<close>

definition close_enter :: "bridge_cfg \<Rightarrow> time \<Rightarrow> string option \<Rightarrow> bridge \<Rightarrow> bridge" where
  "close_enter c now reason b =
     (let b1 = note_close_reason reason (upd_life (\<lambda>l. l\<lparr>lf_closing := True\<rparr>) b) in
      if lf_in_flight (br_life b1) = None
      then upd_life (\<lambda>l. l\<lparr>lf_in_flight := Some (turn_in_flight c now b1)\<rparr>) b1 else b1)"

definition reason_by_status :: "session_status \<Rightarrow> string" where
  "reason_by_status s = (case s of Revoked \<Rightarrow> ''revoked'' | Errored \<Rightarrow> ''error'' | _ \<Rightarrow> ''unknown'')"

definition close_reason :: "session_status \<Rightarrow> bridge \<Rightarrow> string" where
  "close_reason s b =
     (case lf_reason (br_life b) of
        Some r \<Rightarrow> if r = [] then reason_by_status s else r | None \<Rightarrow> reason_by_status s)"

text \<open>
  \<open>_session_end_meta\<close>: \<open>peaks\<close> is \<open>queue_stats()\<close> (messages, bytes) unless it raises, \<open>turn_peak\<close> the
  \<open>pop_peak\<close> of the turn registry, 0 when there is none or it raises.
\<close>

definition session_end_meta :: "session_status \<Rightarrow> (int \<times> int) option \<Rightarrow> nat \<Rightarrow> bridge \<Rightarrow> dict" where
  "session_end_meta s peaks turn_peak b =
     [(''reason'', JStr (close_reason s b)),
      (''turn_in_flight'', JBool (lf_in_flight (br_life b) = Some True)),
      (''sender_peak_msgs'', JInt (case peaks of None \<Rightarrow> 0 | Some (m, _) \<Rightarrow> m)),
      (''sender_peak_bytes'', JInt (case peaks of None \<Rightarrow> 0 | Some (_, x) \<Rightarrow> x)),
      (''turn_queue_peak'', JInt (int turn_peak)),
      (''push_backlog_peak'', JInt (int (bl_peak (br_backlog b))))]"

definition close_status :: "session_status option \<Rightarrow> bridge \<Rightarrow> session_status" where
  "close_status s b =
     (case s of
        Some x \<Rightarrow> x | None \<Rightarrow> if lf_reason (br_life b) = Some ''error'' then Errored else Completed)"

section \<open>The body, from wait to wait\<close>

text \<open>
  The outside of the bridge at the end of the closing: the clocks of \<open>tracker.close\<close>, the queue
  statistics and whether the transcriber exists.
\<close>

record close_env =
  ce_nows :: "time \<times> time \<times> time"
  ce_peaks :: "(int \<times> int) option"
  ce_turn_peak :: nat
  ce_has_stt :: bool

definition close_tracker ::
  "close_env \<Rightarrow> session_status \<Rightarrow> bridge \<times> session_registry \<Rightarrow> bridge \<times> session_registry" where
  "close_tracker w s br =
     (let (b, reg) = br;
          meta = session_end_meta s (ce_peaks w) (ce_turn_peak w) b;
          b1 = (if lf_counted (br_life b) then b
                else upd_life (\<lambda>l. l\<lparr>lf_counted := True\<rparr>)
                       (b\<lparr>br_stats := stats_session_closed (close_reason s b) (br_stats b)\<rparr>)) in
      case pt_close (\<lambda>j. put (CPipeline j)) (ce_nows w) s meta (br_tracker b1, br_link b1, reg) of
        (_, t, l, reg1) \<Rightarrow>
          (close_at XTracker (b1\<lparr>br_tracker := t, br_link := l\<rparr>), reg1))"

definition close_stt ::
  "close_env \<Rightarrow> session_status \<Rightarrow> bridge \<times> session_registry \<Rightarrow> bridge \<times> session_registry" where
  "close_stt w s br =
     (if ce_has_stt w then (close_at (XStt s) (fst br), snd br) else close_tracker w s br)"

text \<open>The push turn left open is closed, then the tasks of the session are cancelled and waited for.\<close>

definition close_tasks :: "session_status \<Rightarrow> bridge \<Rightarrow> bridge" where
  "close_tasks s b =
     (let b1 = (case pu_no (br_push b) of None \<Rightarrow> b | Some n \<Rightarrow> snd (close_push_turn n b)) in
      close_at (XTasks s) (worker_cancel b1))"

definition close_tts_step :: "session_status \<Rightarrow> bridge \<Rightarrow> bridge" where
  "close_tts_step s b =
     (case pu_tts (br_push b) of
        None \<Rightarrow> close_tasks s b
      | Some h \<Rightarrow> close_at (XTts s) (stream_close h b))"

definition close_audio :: "session_status \<Rightarrow> bridge \<Rightarrow> bridge" where
  "close_audio s b =
     (if audio_done_opt b (pu_audio (br_push b)) then close_tts_step s b
      else close_at (XAudio s) (audio_cancel_opt (pu_audio (br_push b)) b))"

definition close_drain_queue :: "session_status \<Rightarrow> bridge \<Rightarrow> bridge" where
  "close_drain_queue s b =
     close_audio s (upd_backlog (\<lambda>w. w\<lparr>bl_queue := [], bl_pending := 0, bl_since := None\<rparr>) b)"

definition close_worker :: "session_status \<Rightarrow> bridge \<Rightarrow> bridge" where
  "close_worker s b =
     (if bl_pc (br_backlog b) = WNone then close_drain_queue s b
      else close_at (XWorker s) (worker_cancel b))"

text \<open>After the wait for the turn: a turn abandoned at the limit gets its \<open>turn_end\<close> here.\<close>

definition close_turn_waited :: "session_status \<Rightarrow> nat \<Rightarrow> bridge \<Rightarrow> bridge" where
  "close_turn_waited s i b =
     (if turn_done b i then close_worker s b
      else case br_active_no b of
        None \<Rightarrow> close_worker s b
      | Some n \<Rightarrow>
          close_worker s (tell (CTurnEnd n) (upd_life (\<lambda>l. l\<lparr>lf_end_sent := Some n\<rparr>) b)))"

definition close_begin :: "session_status option \<Rightarrow> bridge \<Rightarrow> bridge" where
  "close_begin st b =
     (if lf_closed (br_life b) then b
      else
        let s = close_status st b;
            b1 = upd_life (\<lambda>l. l\<lparr>lf_registered := False\<rparr>) b in
        case br_active b1 of
          Some i \<Rightarrow>
            if turn_done b1 i then close_worker s b1
            else close_at (XTurn s i) (turn_cancel i b1)
        | None \<Rightarrow> close_worker s b1)"

definition close_step ::
  "close_env \<Rightarrow> bridge \<times> session_registry \<Rightarrow> bridge \<times> session_registry" where
  "close_step w br =
     (let b = fst br; reg = snd br in
      case lf_close (br_life b) of
        XTurn s i \<Rightarrow> (close_turn_waited s i b, reg)
      | XWorker s \<Rightarrow> (close_drain_queue s b, reg)
      | XAudio s \<Rightarrow> (close_tts_step s b, reg)
      | XTts s \<Rightarrow> (close_tasks s (upd_push (\<lambda>p. p\<lparr>pu_tts := None\<rparr>) b), reg)
      | XTasks s \<Rightarrow> close_stt w s br
      | XStt s \<Rightarrow> close_tracker w s br
      | XTracker \<Rightarrow> (upd_life (\<lambda>x. x\<lparr>lf_closed := True, lf_close := XDone\<rparr>) b, reg)
      | _ \<Rightarrow> br)"

section \<open>Health and snapshot\<close>

text \<open>
  \<open>health_check\<close>: \<open>ping\<close> and \<open>probe\<close> are what the services answer, \<open>stt_state\<close> the state of the
  transcriber, if there is one. The capabilities are \<open>barge_in\<close>, \<open>tts\<close> and \<open>transcriber\<close>.
\<close>

definition health_check ::
  "bridge_cfg \<Rightarrow> bool \<Rightarrow> connection_state option \<Rightarrow> bool \<Rightarrow> bridge \<Rightarrow>
   (exn + (bool \<times> bool \<times> bool) option) \<times> bridge" where
  "health_check c ping stt_state probe b =
     (if \<not> ping then
        (case notify_service_status ''orchestrator'' ''unavailable'' None None True b of
           (Some e, b1) \<Rightarrow> (Inl e, b1) | (None, b1) \<Rightarrow> (Inr None, b1))
      else
        let stt_req = (hs_input_mode (bc_handshake c) = ''audio'');
            stt_live = (stt_req \<and> stt_state = Some CONNECTED);
            (e1, b1) = (if stt_req \<and> \<not> stt_live
                        then notify_service_status ''transcriber'' ''unavailable'' None None True b
                        else (None, b)) in
        case e1 of
          Some e \<Rightarrow> (Inl e, b1)
        | None \<Rightarrow>
            let (e2, b2) = (if audio_out c \<and> \<not> probe
                            then notify_service_status ''tts'' ''unavailable'' None None True b1
                            else (None, b1)) in
            (case e2 of
               Some e \<Rightarrow> (Inl e, b2)
             | None \<Rightarrow>
                 (Inr (Some (cf_barge_in_enabled (bc_config c) \<and> stt_live \<and> bc_partials c,
                             audio_out c \<and> probe, stt_live)), b2)))"

definition turn_kind :: "bridge \<Rightarrow> string \<times> time option" where
  "turn_kind b =
     (if turn_running b then (''normal'', br_active_at b)
      else if pu_open (br_push b) then (''push'', pu_opened_at (br_push b))
      else (''idle'', None))"

definition since_json :: "time \<Rightarrow> time option \<Rightarrow> json" where
  "since_json now t =
     (case t of Some x \<Rightarrow> if x = 0 then JNull else JFloat (py_round_n 3 (now - x)) | None \<Rightarrow> JNull)"

definition snapshot ::
  "bridge_cfg \<Rightarrow> string \<Rightarrow> time \<Rightarrow> json \<Rightarrow> nat \<times> nat \<Rightarrow> connection_state option \<Rightarrow> bridge \<Rightarrow> json" where
  "snapshot c client_name now sender_stats turn_queue stt_state b =
     JObj [(''session_id'', JStr (pt_session_id (br_tracker b))),
           (''client_id'', JStr (bc_client_id c)), (''client_name'', JStr client_name),
           (''input_mode'', JStr (hs_input_mode (bc_handshake c))),
           (''output_mode'', JArr (map JStr (hs_output_mode (bc_handshake c)))),
           (''started_at'', JNull),
           (''age_s'', if ac_start (br_act b) = 0 then JFloat 0
                       else JFloat (py_round_n 3 (now - ac_start (br_act b)))),
           (''turn'', JObj [(''kind'', JStr (fst (turn_kind b))),
                            (''since_s'', since_json now (snd (turn_kind b)))]),
           (''turn_count'', JInt (int (pt_turn (br_tracker b)))),
           (''sender'', sender_stats),
           (''turn_queue'', JObj [(''depth'', JInt (int (fst turn_queue))),
                                  (''peak'', JInt (int (snd turn_queue)))]),
           (''push_backlog'', JObj [(''pending'', JInt (int (bl_pending (br_backlog b)))),
                                    (''peak'', JInt (int (bl_peak (br_backlog b))))]),
           (''last_activity_s'', since_json now (Some (ac_client (br_act b)))),
           (''stt_state'', case stt_state of None \<Rightarrow> JNull
              | Some CONNECTED \<Rightarrow> JStr ''CONNECTED'' | Some RECONNECTING \<Rightarrow> JStr ''RECONNECTING''
              | Some DEGRADED \<Rightarrow> JStr ''DEGRADED''),
           (''last_latencies'', JNull)]"

end
