(* ===== verification/Bridge_Protocol.thy ===== *)
theory Bridge_Protocol
  imports Bridge_State
begin

text \<open>
  The contract of a session with its client, as an abstract machine: which turn messages may be
  sent in which state. Theory Bridge\_System shows that every step of \<open>JotaBridge\<close> refines it; here
  the contract itself is shown to keep the client's message log well formed (\<open>log_ok\<close>).
\<close>

section \<open>A well-formed log\<close>

definition started :: "nat \<Rightarrow> cmsg list \<Rightarrow> bool" where
  "started n l \<longleftrightarrow> CTurnStart n (turn_seq n) \<in> set l"

definition ended :: "nat \<Rightarrow> cmsg list \<Rightarrow> bool" where
  "ended n l \<longleftrightarrow> CTurnEnd n \<in> set l"

text \<open>
  What a message may follow. A turn is started at most once, ended at most once and not before its
  start; nothing of a turn comes before its start; nothing but late frames of a push and the last
  words of the turn \<open>x\<close> that \<open>close_all\<close> abandoned comes after its end.
\<close>

fun msg_ok :: "nat option \<Rightarrow> cmsg list \<Rightarrow> cmsg \<Rightarrow> bool" where
  "msg_ok x past (CTurnStart n q) = (q = turn_seq n \<and> (\<forall>m q. CTurnStart m q \<in> set past \<longrightarrow> m < n) \<and> \<not> ended n past)"
| "msg_ok x past (CTurnEnd n) = (started n past \<and> \<not> ended n past)"
| "msg_ok x past (CToken i s) = (\<exists>n. i = Some n \<and> started n past \<and> (ended n past \<longrightarrow> x = Some n))"
| "msg_ok x past (CTool i tc) = (\<exists>n. i = Some n \<and> started n past \<and> (ended n past \<longrightarrow> x = Some n))"
| "msg_ok x past (CTurnError n c) = (started n past \<and> (ended n past \<longrightarrow> x = Some n))"
| "msg_ok x past (CAudio n f) = (started n past \<and> \<not> ended n past)"
| "msg_ok x past (CPushAudio n f) = started n past"
| "msg_ok x past _ = True"

definition log_ok :: "nat option \<Rightarrow> cmsg list \<Rightarrow> bool" where
  "log_ok x l \<longleftrightarrow> (\<forall>i<length l. msg_ok x (take i l) (l ! i))"

lemma log_ok_Nil [simp]: "log_ok x []"
  by (simp add: log_ok_def)

lemma log_ok_snoc [simp]: "log_ok x (l @ [m]) \<longleftrightarrow> log_ok x l \<and> msg_ok x l m"
  by (auto simp: log_ok_def nth_append less_Suc_eq)

lemma log_ok_abandon: "log_ok None l \<Longrightarrow> log_ok x l"
proof -
  have "msg_ok None p m \<Longrightarrow> msg_ok x p m" for p m by (cases m) auto
  then show "log_ok None l \<Longrightarrow> log_ok x l" by (auto simp: log_ok_def)
qed

definition is_start :: "nat \<Rightarrow> cmsg \<Rightarrow> bool" where
  "is_start n m \<longleftrightarrow> (\<exists>q. m = CTurnStart n q)"

lemma log_ok_started: "log_ok x l \<Longrightarrow> CTurnStart n q \<in> set l \<Longrightarrow> started n l"
  by (auto simp: log_ok_def started_def in_set_conv_nth) (metis msg_ok.simps(1))

text \<open>What a well-formed log means for the counts of turn frames.\<close>

lemma log_ok_counts:
  assumes "log_ok x l"
  shows "length (filter (is_start n) l) \<le> 1"
    and "count_list l (CTurnEnd n) \<le> length (filter (is_start n) l)"
proof -
  have "length (filter (is_start n) l) = (if started n l then 1 else 0) \<and>
        count_list l (CTurnEnd n) = (if ended n l then 1 else 0) \<and> (ended n l \<longrightarrow> started n l)"
    using assms
  proof (induction l rule: rev_induct)
    case (snoc m l)
    then show ?case
      by (cases m) (auto simp: is_start_def started_def ended_def)
  qed (simp add: started_def ended_def)
  then show "length (filter (is_start n) l) \<le> 1"
    "count_list l (CTurnEnd n) \<le> length (filter (is_start n) l)" by auto
qed

section \<open>The abstract machine\<close>

datatype tstat = SNew | SLive | SDone

record proto =
  p_log :: "cmsg list"
  p_up :: bool
  p_seq :: nat
  p_turns :: "(tstat \<times> nat) list"
  p_active :: "nat option"
  p_active_no :: "nat option"
  p_audios :: "(nat option \<times> nat \<times> bool) list"
  p_end :: "nat option"
  p_open :: bool
  p_pno :: "nat option"

definition p_say :: "cmsg \<Rightarrow> proto \<Rightarrow> proto" where
  "p_say m s = (if p_up s then s\<lparr>p_log := p_log s @ [m]\<rparr> else s)"

text \<open>Messages of no turn, and the messages a turn \<open>n\<close> sends between its start and its end.\<close>

fun neutral :: "cmsg \<Rightarrow> bool" where
  "neutral (CInterrupted _) = True"
| "neutral (CPartial _) = True"
| "neutral (CTranscription _) = True"
| "neutral (CStatus _ _ _ _) = True"
| "neutral CInvalid = True"
| "neutral (CPipeline _) = True"
| "neutral _ = False"

fun of_turn :: "nat \<Rightarrow> cmsg \<Rightarrow> bool" where
  "of_turn n (CToken i _) = (i = Some n)"
| "of_turn n (CTool i _) = (i = Some n)"
| "of_turn n (CTurnError k _) = (k = n)"
| "of_turn n _ = False"

definition no_turn_running :: "proto \<Rightarrow> bool" where
  "no_turn_running s \<longleftrightarrow> (\<forall>x\<in>set (p_turns s). fst x = SDone)"

inductive pstep :: "proto \<Rightarrow> proto \<Rightarrow> bool" where
  p_neutral: "neutral m \<Longrightarrow> pstep s (p_say m s)"
| p_msg: "i < length (p_turns s) \<Longrightarrow> p_turns s ! i = (SLive, n) \<Longrightarrow> of_turn n m \<Longrightarrow> pstep s (p_say m s)"
| p_begin: "i < length (p_turns s) \<Longrightarrow> fst (p_turns s ! i) = SNew \<Longrightarrow> p_up s \<Longrightarrow> n = Suc (p_seq s) \<Longrightarrow>
    pstep s (p_say (CTurnStart n (turn_seq n))
      (s\<lparr>p_seq := n, p_turns := (p_turns s)[i := (SLive, n)], p_active_no := Some n\<rparr>))"
| p_begin_down: "i < length (p_turns s) \<Longrightarrow> fst (p_turns s ! i) = SNew \<Longrightarrow> \<not> p_up s \<Longrightarrow> n = Suc (p_seq s) \<Longrightarrow>
    pstep s (s\<lparr>p_seq := n, p_turns := (p_turns s)[i := (SDone, n)]\<rparr>)"
| p_drop: "i < length (p_turns s) \<Longrightarrow> fst (p_turns s ! i) = SNew \<Longrightarrow>
    pstep s (s\<lparr>p_turns := (p_turns s)[i := (SDone, snd (p_turns s ! i))]\<rparr>)"
| p_finish: "i < length (p_turns s) \<Longrightarrow> p_turns s ! i = (SLive, n) \<Longrightarrow>
    (\<forall>(w, k, r)\<in>set (p_audios s). w = Some i \<longrightarrow> \<not> r) \<Longrightarrow>
    s1 = s\<lparr>p_active_no := (if p_active_no s = Some n then None else p_active_no s),
           p_turns := (p_turns s)[i := (SDone, n)]\<rparr> \<Longrightarrow>
    pstep s (if p_end s = Some n then s1 else p_say (CTurnEnd n) s1)"
| p_create: "no_turn_running s \<Longrightarrow> \<not> p_open s \<Longrightarrow>
    pstep s (s\<lparr>p_turns := p_turns s @ [(SNew, 0)], p_active := Some (length (p_turns s))\<rparr>)"
| p_forget: "no_turn_running s \<Longrightarrow> pstep s (s\<lparr>p_active := None\<rparr>)"
| p_spawn: "i < length (p_turns s) \<Longrightarrow> p_turns s ! i = (SLive, n) \<Longrightarrow>
    pstep s (s\<lparr>p_audios := p_audios s @ [(Some i, n, True)]\<rparr>)"
| p_spawn_push: "p_open s \<Longrightarrow> p_pno s = Some n \<Longrightarrow>
    pstep s (s\<lparr>p_audios := p_audios s @ [(None, n, True)]\<rparr>)"
| p_audio_stop: "a < length (p_audios s) \<Longrightarrow> p_audios s ! a = (w, n, r) \<Longrightarrow>
    pstep s (s\<lparr>p_audios := (p_audios s)[a := (w, n, False)]\<rparr>)"
| p_frame: "a < length (p_audios s) \<Longrightarrow> p_audios s ! a = (Some i, n, True) \<Longrightarrow> p_end s \<noteq> Some n \<Longrightarrow>
    pstep s (p_say (CAudio n f) s)"
| p_push_frame: "a < length (p_audios s) \<Longrightarrow> p_audios s ! a = (None, n, True) \<Longrightarrow>
    pstep s (p_say (CPushAudio n f) s)"
| p_push_open: "\<not> p_open s \<Longrightarrow> no_turn_running s \<Longrightarrow> n = Suc (p_seq s) \<Longrightarrow>
    pstep s (p_say (CTurnStart n (turn_seq n)) (s\<lparr>p_seq := n, p_open := True, p_pno := Some n\<rparr>))"
| p_push_msg: "p_open s \<Longrightarrow> p_pno s = Some n \<Longrightarrow> of_turn n m \<Longrightarrow> pstep s (p_say m s)"
| p_push_close: "p_open s \<Longrightarrow> p_pno s = Some n \<Longrightarrow> pstep s (p_say (CTurnEnd n) (s\<lparr>p_open := False\<rparr>))"
| p_close_end: "p_end s = None \<Longrightarrow> p_active_no s = Some n \<Longrightarrow>
    pstep s (p_say (CTurnEnd n) (s\<lparr>p_end := Some n\<rparr>))"
| p_down: "pstep s (s\<lparr>p_up := False\<rparr>)"

section \<open>Its invariant\<close>

definition turns_inv :: "proto \<Rightarrow> bool" where
  "turns_inv s \<longleftrightarrow>
     (\<forall>i n. i < length (p_turns s) \<longrightarrow> p_turns s ! i = (SLive, n) \<longrightarrow>
        p_active_no s = Some n \<and> (p_up s \<longrightarrow> started n (p_log s) \<and> (ended n (p_log s) \<longrightarrow> p_end s = Some n)))
     \<and> (\<forall>i<length (p_turns s). fst (p_turns s ! i) \<noteq> SDone \<longrightarrow> p_active s = Some i \<and> \<not> p_open s)
     \<and> (\<forall>n. p_active_no s = Some n \<longrightarrow>
          n \<le> p_seq s \<and> (\<exists>i<length (p_turns s). p_turns s ! i = (SLive, n)))"

definition numbers_inv :: "proto \<Rightarrow> bool" where
  "numbers_inv s \<longleftrightarrow>
     (\<forall>n. started n (p_log s) \<longrightarrow> n \<le> p_seq s) \<and> (\<forall>n. p_end s = Some n \<longrightarrow> n \<le> p_seq s)"

definition push_inv :: "proto \<Rightarrow> bool" where
  "push_inv s \<longleftrightarrow>
     (p_open s \<longrightarrow> (\<exists>n. p_pno s = Some n \<and> (p_up s \<longrightarrow> started n (p_log s) \<and> \<not> ended n (p_log s))))"

definition audio_inv :: "proto \<Rightarrow> bool" where
  "audio_inv s \<longleftrightarrow>
     (\<forall>w n. (w, n, True) \<in> set (p_audios s) \<longrightarrow>
        (p_up s \<longrightarrow> started n (p_log s)) \<and>
        (\<forall>i. w = Some i \<longrightarrow> i < length (p_turns s) \<and> p_turns s ! i = (SLive, n)))"

definition unended_inv :: "proto \<Rightarrow> bool" where
  "unended_inv s \<longleftrightarrow>
     (p_up s \<longrightarrow> (\<forall>n. started n (p_log s) \<longrightarrow> \<not> ended n (p_log s) \<longrightarrow>
        p_active_no s = Some n \<or> (p_open s \<and> p_pno s = Some n))
      \<and> (\<forall>n. p_end s = Some n \<longrightarrow> ended n (p_log s)))"

definition pinv :: "proto \<Rightarrow> bool" where
  "pinv s \<longleftrightarrow> log_ok (p_end s) (p_log s) \<and> turns_inv s \<and> numbers_inv s \<and> push_inv s \<and> audio_inv s
     \<and> unended_inv s"

lemmas pinv_defs = turns_inv_def numbers_inv_def push_inv_def audio_inv_def unended_inv_def

lemma p_say_simps [simp]:
  "p_up (p_say m s) = p_up s" "p_seq (p_say m s) = p_seq s" "p_turns (p_say m s) = p_turns s"
  "p_active (p_say m s) = p_active s" "p_active_no (p_say m s) = p_active_no s"
  "p_audios (p_say m s) = p_audios s" "p_end (p_say m s) = p_end s" "p_open (p_say m s) = p_open s"
  "p_pno (p_say m s) = p_pno s"
  "p_log (p_say m s) = (if p_up s then p_log s @ [m] else p_log s)"
  by (simp_all add: p_say_def)

lemma started_snoc [simp]: "started n (l @ [m]) \<longleftrightarrow> started n l \<or> m = CTurnStart n (turn_seq n)"
  by (auto simp: started_def)

lemma ended_snoc [simp]: "ended n (l @ [m]) \<longleftrightarrow> ended n l \<or> m = CTurnEnd n"
  by (auto simp: ended_def)

lemma neutral_msg [simp]:
  "neutral m \<Longrightarrow> msg_ok x l m" "neutral m \<Longrightarrow> m \<noteq> CTurnStart n q" "neutral m \<Longrightarrow> m \<noteq> CTurnEnd n"
  by (cases m; simp)+

lemma of_turn_msg [simp]:
  "of_turn n m \<Longrightarrow> m \<noteq> CTurnStart k q" "of_turn n m \<Longrightarrow> m \<noteq> CTurnEnd k"
  by (cases m; simp)+

lemma of_turn_ok: "of_turn n m \<Longrightarrow> started n l \<Longrightarrow> (ended n l \<longrightarrow> x = Some n) \<Longrightarrow> msg_ok x l m"
  by (cases m) auto

lemma log_ok_ended_started: "log_ok x l \<Longrightarrow> ended n l \<Longrightarrow> started n l"
  by (induction l rule: rev_induct) (auto simp: started_def ended_def)

lemma msg_ok_new_start:
  assumes "log_ok x l" "\<forall>n. started n l \<longrightarrow> n \<le> q"
  shows "msg_ok x l (CTurnStart (Suc q) (turn_seq (Suc q)))"
  using assms log_ok_ended_started[OF assms(1), of "Suc q"] log_ok_started[OF assms(1)]
  by (force simp: less_Suc_eq_le)

text \<open>What the invariant says of one turn, one push and one audio task.\<close>

lemma pinv_live:
  assumes "pinv s" "i < length (p_turns s)" "p_turns s ! i = (SLive, n)"
  shows "p_active_no s = Some n" "p_up s \<Longrightarrow> started n (p_log s)"
    "p_up s \<Longrightarrow> ended n (p_log s) \<Longrightarrow> p_end s = Some n" "p_active s = Some i" "\<not> p_open s"
  using assms by (simp_all add: pinv_def turns_inv_def)

lemma pinv_open:
  assumes "pinv s" "p_open s" "p_pno s = Some n"
  shows "p_up s \<Longrightarrow> started n (p_log s)" "p_up s \<Longrightarrow> \<not> ended n (p_log s)"
  using assms by (auto simp: pinv_def push_inv_def)

lemma pinv_audio:
  assumes "pinv s" "a < length (p_audios s)" "p_audios s ! a = (w, n, True)"
  shows "p_up s \<Longrightarrow> started n (p_log s)"
    "w = Some i \<Longrightarrow> i < length (p_turns s) \<and> p_turns s ! i = (SLive, n)"
proof -
  have "(w, n, True) \<in> set (p_audios s)" using assms by (metis nth_mem)
  then show "p_up s \<Longrightarrow> started n (p_log s)"
    "w = Some i \<Longrightarrow> i < length (p_turns s) \<and> p_turns s ! i = (SLive, n)"
    using assms(1) by (simp_all add: pinv_def audio_inv_def)
qed

lemma pinv_active_no:
  assumes "pinv s" "p_active_no s = Some n"
  shows "n \<le> p_seq s" "\<exists>i<length (p_turns s). p_turns s ! i = (SLive, n)"
  using assms by (simp_all add: pinv_def turns_inv_def)

lemma pinv_number:
  assumes "pinv s"
  shows "started n (p_log s) \<Longrightarrow> n \<le> p_seq s" "ended n (p_log s) \<Longrightarrow> n \<le> p_seq s"
    "p_end s = Some n \<Longrightarrow> n \<le> p_seq s" "log_ok (p_end s) (p_log s)"
  using assms log_ok_ended_started by (auto simp: pinv_def numbers_inv_def)

lemma pinv_new:
  assumes "pinv s"
  shows "msg_ok (p_end s) (p_log s) (CTurnStart (Suc (p_seq s)) (turn_seq (Suc (p_seq s))))"
  using assms by (intro msg_ok_new_start) (simp_all add: pinv_number)

lemma pstep_log_ok: "pstep s t \<Longrightarrow> pinv s \<Longrightarrow> log_ok (p_end t) (p_log t)"
proof (induction rule: pstep.induct)
  case (p_close_end s n)
  then obtain i where "i < length (p_turns s)" "p_turns s ! i = (SLive, n)"
    using pinv_active_no by blast
  with p_close_end pinv_live[of s i n] show ?case
    using log_ok_abandon[of "p_log s" "Some n"] pinv_number(4)[of s] by auto
next
  case (p_begin i s n)
  then show ?case using pinv_new pinv_number(4) by simp
next
  case (p_push_open s n)
  then show ?case using pinv_new pinv_number(4) by simp
next
  case (p_frame a s i n f)
  then show ?case using pinv_audio[OF p_frame(4,1,2)] pinv_live[of s i n] pinv_number(4) by auto
next
  case (p_push_frame a s n f)
  then show ?case using pinv_audio(1)[of s a None n] pinv_number(4) by auto
next
  case (p_msg i s n m)
  then show ?case using pinv_live[of s i n] pinv_number(4) by (auto intro!: of_turn_ok)
next
  case (p_push_msg s n m)
  then show ?case using pinv_open[of s n] pinv_number(4) by (auto intro!: of_turn_ok)
next
  case (p_push_close s n)
  then show ?case using pinv_open[of s n] pinv_number(4) by auto
next
  case (p_finish i s n s1)
  then show ?case using pinv_live[of s i n] pinv_number(4)[of s] by auto
qed (simp_all add: pinv_number)

lemma pstep_numbers: "pstep s t \<Longrightarrow> pinv s \<Longrightarrow> numbers_inv t"
proof (induction rule: pstep.induct)
  case (p_close_end s n)
  then show ?case using pinv_active_no[of s n] pinv_number by (auto simp: numbers_inv_def)
qed (auto simp: numbers_inv_def pinv_number le_SucI)

lemma pstep_push: "pstep s t \<Longrightarrow> pinv s \<Longrightarrow> push_inv t"
proof (induction rule: pstep.induct)
  case (p_push_open s n)
  then show ?case using pinv_number(2)[of s "Suc (p_seq s)"] by (auto simp: push_inv_def)
next
  case (p_close_end s n)
  then obtain i where "i < length (p_turns s)" "p_turns s ! i = (SLive, n)"
    using pinv_active_no by blast
  with p_close_end pinv_live[of s i n] show ?case by (simp add: push_inv_def)
next
  case (p_finish i s n s1)
  then show ?case using pinv_live[of s i n] by (simp add: push_inv_def)
qed (auto simp: pinv_def push_inv_def)

lemma pinv_unique:
  assumes "pinv s" "i < length (p_turns s)" "fst (p_turns s ! i) \<noteq> SDone"
  shows "p_active s = Some i" "\<not> p_open s"
    "j < length (p_turns s) \<Longrightarrow> j \<noteq> i \<Longrightarrow> fst (p_turns s ! j) = SDone"
proof -
  have u: "\<forall>k<length (p_turns s). fst (p_turns s ! k) \<noteq> SDone \<longrightarrow> p_active s = Some k \<and> \<not> p_open s"
    using assms(1) by (simp add: pinv_def turns_inv_def)
  show "p_active s = Some i" "\<not> p_open s" using u assms by blast+
  then show "j < length (p_turns s) \<Longrightarrow> j \<noteq> i \<Longrightarrow> fst (p_turns s ! j) = SDone"
    using u by (metis option.inject)
qed

lemma no_turn_running_nth: "no_turn_running s \<longleftrightarrow> (\<forall>i<length (p_turns s). fst (p_turns s ! i) = SDone)"
  by (simp add: no_turn_running_def all_set_conv_all_nth)

lemma turns_inv_idle: "no_turn_running s \<Longrightarrow> p_active_no s = None \<Longrightarrow> turns_inv s"
  by (auto simp: turns_inv_def no_turn_running_nth)

lemma idle_no_active: "pinv s \<Longrightarrow> no_turn_running s \<Longrightarrow> p_active_no s = None"
  using pinv_active_no(2) by (cases "p_active_no s") (fastforce simp: no_turn_running_nth)+

lemma pinv_open_idle: "pinv s \<Longrightarrow> p_open s \<Longrightarrow> no_turn_running s"
  using pinv_unique(2) by (auto simp: no_turn_running_nth)

lemma turns_inv_same:
  assumes "turns_inv s" "p_turns t = p_turns s" "p_active_no t = p_active_no s" "p_active t = p_active s"
    "p_open t \<longrightarrow> p_open s" "p_seq s \<le> p_seq t" "p_up t \<longrightarrow> p_up s"
    "\<And>n. started n (p_log s) \<Longrightarrow> started n (p_log t)"
    "\<And>i n. p_up s \<Longrightarrow> i < length (p_turns s) \<Longrightarrow> p_turns s ! i = (SLive, n) \<Longrightarrow>
       ended n (p_log t) \<longrightarrow> ended n (p_log s) \<or> p_end t = Some n"
    "\<And>n. p_end s = Some n \<Longrightarrow> p_end t = Some n"
  shows "turns_inv t"
proof -
  have live: "i < length (p_turns s) \<Longrightarrow> p_turns s ! i = (SLive, n) \<Longrightarrow>
      p_active_no s = Some n \<and> (p_up s \<longrightarrow> started n (p_log s) \<and> (ended n (p_log s) \<longrightarrow> p_end s = Some n))" for i n
    using assms(1) by (simp add: turns_inv_def)
  have "i < length (p_turns s) \<Longrightarrow> p_turns s ! i = (SLive, n) \<Longrightarrow>
      p_active_no s = Some n \<and> (p_up t \<longrightarrow> started n (p_log t) \<and> (ended n (p_log t) \<longrightarrow> p_end t = Some n))" for i n
    using live[of i n] assms(7,8,10) assms(9)[of i n] by blast
  moreover have "\<forall>i<length (p_turns s). fst (p_turns s ! i) \<noteq> SDone \<longrightarrow> p_active s = Some i \<and> \<not> p_open t"
    using assms(1,5) by (simp add: turns_inv_def) blast
  moreover have "\<forall>n. p_active_no s = Some n \<longrightarrow>
      n \<le> p_seq t \<and> (\<exists>i<length (p_turns s). p_turns s ! i = (SLive, n))"
    using assms(1,6) by (auto simp: turns_inv_def intro: le_trans)
  ultimately show ?thesis unfolding turns_inv_def assms(2-4) by blast
qed

lemma turns_inv_say:
  assumes "pinv s" "\<And>n. m \<noteq> CTurnEnd n"
  shows "turns_inv (p_say m s)"
proof (rule turns_inv_same[of s])
  show "turns_inv s" using assms(1) by (simp add: pinv_def)
qed (simp_all add: assms(2))

lemma pstep_turns: "pstep s t \<Longrightarrow> pinv s \<Longrightarrow> turns_inv t"
proof (induction rule: pstep.induct)
  case (p_begin i s n)
  have others: "\<And>j. j < length (p_turns s) \<Longrightarrow> j \<noteq> i \<Longrightarrow> fst (p_turns s ! j) = SDone"
    and act: "p_active s = Some i" "\<not> p_open s"
    using pinv_unique[of s i] p_begin by auto
  have "\<not> ended n (p_log s)" using pinv_number(2)[of s n] p_begin by auto
  moreover have "p_turns s ! j = (SLive, k) \<Longrightarrow> j < length (p_turns s) \<Longrightarrow> j = i" for j k
    using others[of j] by auto
  ultimately show ?case using p_begin others act
    by (auto simp: turns_inv_def nth_list_update)
next
  case (p_finish i s n s1)
  then have "no_turn_running s1 \<and> p_active_no s1 = None"
    using pinv_unique[of s i] pinv_live(1)[of s i n]
    by (auto simp: no_turn_running_nth nth_list_update)
  then show ?case by (auto intro!: turns_inv_idle simp: no_turn_running_def)
next
  case (p_begin_down i s n)
  then have "no_turn_running (s\<lparr>p_seq := n, p_turns := (p_turns s)[i := (SDone, n)]\<rparr>)"
    using pinv_unique[of s i] by (auto simp: no_turn_running_nth nth_list_update)
  moreover have "p_active_no s = None"
  proof (rule ccontr)
    assume "p_active_no s \<noteq> None"
    then obtain k j where j: "j < length (p_turns s)" "p_turns s ! j = (SLive, k)"
      using pinv_active_no(2)[OF p_begin_down(5)] by auto
    then have "j = i" using pinv_unique(3)[OF p_begin_down(5,1)] p_begin_down(2) by force
    with j p_begin_down(2) show False by simp
  qed
  ultimately show ?case by (intro turns_inv_idle) simp_all
next
  case (p_drop i s)
  then have "no_turn_running (s\<lparr>p_turns := (p_turns s)[i := (SDone, snd (p_turns s ! i))]\<rparr>)"
    using pinv_unique[of s i] by (auto simp: no_turn_running_nth nth_list_update)
  moreover have "p_active_no s = None"
  proof (rule ccontr)
    assume "p_active_no s \<noteq> None"
    then obtain k j where j: "j < length (p_turns s)" "p_turns s ! j = (SLive, k)"
      using pinv_active_no(2)[OF p_drop(3)] by auto
    then have "j = i" using pinv_unique(3)[OF p_drop(3,1)] p_drop(2) by force
    with j p_drop(2) show False by simp
  qed
  ultimately show ?case by (intro turns_inv_idle) simp_all
next
  case (p_create s)
  then have "p_active_no s = None" using idle_no_active by blast
  with p_create show ?case
    by (auto simp: turns_inv_def no_turn_running_nth nth_append less_Suc_eq)
next
  case (p_forget s)
  then show ?case using idle_no_active by (intro turns_inv_idle) (auto simp: no_turn_running_def)
next
  case (p_push_open s n)
  then show ?case using idle_no_active by (intro turns_inv_idle) (auto simp: no_turn_running_def)
next
  case (p_push_close s n)
  then have "no_turn_running s" by (simp add: pinv_open_idle)
  with p_push_close show ?case using idle_no_active[of s]
    by (intro turns_inv_idle) (simp_all add: no_turn_running_def)
next
  case (p_close_end s n)
  have only: "k = n" if "i < length (p_turns s)" "p_turns s ! i = (SLive, k)" for i k
    using pinv_live(1)[OF p_close_end(3) that] p_close_end(2) by simp
  show ?case
  proof (rule turns_inv_same[of s])
    show "turns_inv s" using p_close_end(3) by (simp add: pinv_def)
    show "ended k (p_log (p_say (CTurnEnd n) (s\<lparr>p_end := Some n\<rparr>))) \<longrightarrow>
            ended k (p_log s) \<or> p_end (p_say (CTurnEnd n) (s\<lparr>p_end := Some n\<rparr>)) = Some k"
      if "i < length (p_turns s)" "p_turns s ! i = (SLive, k)" for i k
      using only[OF that] by simp
  qed (simp_all add: p_close_end(1))
next
  case (p_neutral m s)
  then show ?case by (intro turns_inv_say) simp_all
next
  case (p_frame a s i n f)
  then show ?case by (intro turns_inv_say) simp_all
next
  case (p_push_frame a s n f)
  then show ?case by (intro turns_inv_say) simp_all
next
  case (p_msg i s n m)
  then show ?case by (intro turns_inv_say) simp_all
next
  case (p_push_msg s n m)
  then show ?case by (intro turns_inv_say) simp_all
qed (simp_all add: pinv_def turns_inv_def)

lemma pstep_audio: "pstep s t \<Longrightarrow> pinv s \<Longrightarrow> audio_inv t"
proof (induction rule: pstep.induct)
  case (p_begin i s n)
  then show ?case by (auto simp: pinv_def audio_inv_def nth_list_update)
next
  case (p_begin_down i s n)
  then show ?case by (fastforce simp: pinv_def audio_inv_def nth_list_update)
next
  case (p_drop i s)
  then show ?case by (fastforce simp: pinv_def audio_inv_def nth_list_update)
next
  case (p_finish i s n s1)
  then show ?case by (fastforce simp: pinv_def audio_inv_def nth_list_update)
next
  case (p_create s)
  then show ?case by (fastforce simp: pinv_def audio_inv_def nth_append)
next
  case (p_spawn i s n)
  then show ?case using pinv_live(2)[of s i n] by (auto simp: pinv_def audio_inv_def)
next
  case (p_spawn_push s n)
  then show ?case using pinv_open(1)[of s n] by (auto simp: pinv_def audio_inv_def)
next
  case (p_audio_stop a s w n r)
  have "set ((p_audios s)[a := (w, n, False)]) \<subseteq> insert (w, n, False) (set (p_audios s))"
    by (rule set_update_subset_insert)
  with p_audio_stop show ?case by (fastforce simp: pinv_def audio_inv_def)
qed (auto simp: pinv_def audio_inv_def)

lemma pstep_unended: "pstep s t \<Longrightarrow> pinv s \<Longrightarrow> unended_inv t"
proof (induction rule: pstep.induct)
  case (p_begin i s n)
  have "p_active_no s = None"
  proof (rule ccontr)
    assume "p_active_no s \<noteq> None"
    then obtain k j where j: "j < length (p_turns s)" "p_turns s ! j = (SLive, k)"
      using pinv_active_no(2)[OF p_begin(5)] by auto
    then have "j = i" using pinv_unique(3)[OF p_begin(5,1)] p_begin(2) by force
    with j p_begin(2) show False by simp
  qed
  with p_begin pinv_unique(2)[of s i] show ?case by (auto simp: pinv_def unended_inv_def)
next
  case (p_finish i s n s1)
  have op: "\<not> p_open s" and ac: "p_active_no s = Some n"
    and lv: "p_up s \<Longrightarrow> ended n (p_log s) \<Longrightarrow> p_end s = Some n"
    using pinv_live[of s i n] p_finish by blast+
  have U: "unended_inv s" using p_finish by (simp add: pinv_def)
  show ?case
  proof (cases "p_end s = Some n")
    case True
    with U op ac p_finish(4) show ?thesis by (simp add: unended_inv_def) (metis option.inject)
  next
    case False
    with U op ac p_finish(4) show ?thesis by (simp add: unended_inv_def) blast
  qed
next
  case (p_push_open s n)
  then show ?case using idle_no_active[of s] by (auto simp: pinv_def unended_inv_def)
next
  case (p_push_close s n)
  then show ?case using idle_no_active[of s] pinv_open_idle[of s] by (auto simp: pinv_def unended_inv_def)
next
  case (p_close_end s n)
  then show ?case by (auto simp: pinv_def unended_inv_def)
next
  case (p_down s)
  then show ?case by (simp add: unended_inv_def)
qed (auto simp: pinv_def unended_inv_def)

lemma pstep_pinv: "pstep s t \<Longrightarrow> pinv s \<Longrightarrow> pinv t"
  by (simp add: pinv_def[of t] pstep_log_ok pstep_turns pstep_numbers pstep_push pstep_audio pstep_unended)

lemma psteps_pinv: "pstep\<^sup>*\<^sup>* s t \<Longrightarrow> pinv s \<Longrightarrow> pinv t"
  by (induction rule: rtranclp_induct) (simp_all add: pstep_pinv)

end
