(* ===== verification/Bridge_Refine.thy ===== *)
theory Bridge_Refine
  imports Bridge_Close Bridge_Protocol
begin

text \<open>
  The normal turns and the audio tasks of \<open>JotaBridge\<close> refine the contract of theory Bridge\_Protocol:
  \<open>proto_of\<close> is the abstraction, \<open>refines b b'\<close> says that the way from \<open>b\<close> to \<open>b'\<close> is a sequence of
  contract steps that leaves the rest of the bridge alone.
\<close>

section \<open>Abstraction\<close>

fun turn_stat :: "turn_pc \<Rightarrow> tstat" where
  "turn_stat TNew = SNew"
| "turn_stat TDone = SDone"
| "turn_stat _ = SLive"

definition turn_abs :: "turn \<Rightarrow> tstat \<times> nat" where
  "turn_abs t = (turn_stat (tn_pc t), tn_no t)"

definition audio_abs :: "audio \<Rightarrow> nat option \<times> nat \<times> bool" where
  "audio_abs a = (au_owner a, au_no a, au_pc a = AuRun)"

definition proto_of :: "bridge \<Rightarrow> proto" where
  "proto_of b =
     \<lparr>p_log = lk_log (br_link b), p_up = (lk_fail (br_link b) = None), p_seq = br_seq b,
      p_turns = map turn_abs (br_turns b), p_active = br_active b, p_active_no = br_active_no b,
      p_audios = map audio_abs (br_audios b), p_end = lf_end_sent (br_life b),
      p_open = pu_open (br_push b), p_pno = pu_no (br_push b)\<rparr>"

lemma turn_stat_iff [simp]:
  "turn_stat pc = SNew \<longleftrightarrow> pc = TNew" "turn_stat pc = SDone \<longleftrightarrow> pc = TDone"
  by (cases pc; simp)+

lemma proto_of_simps [simp]:
  "p_log (proto_of b) = lk_log (br_link b)" "p_up (proto_of b) = (lk_fail (br_link b) = None)"
  "p_seq (proto_of b) = br_seq b" "p_turns (proto_of b) = map turn_abs (br_turns b)"
  "p_active (proto_of b) = br_active b" "p_active_no (proto_of b) = br_active_no b"
  "p_audios (proto_of b) = map audio_abs (br_audios b)" "p_end (proto_of b) = lf_end_sent (br_life b)"
  "p_open (proto_of b) = pu_open (br_push b)" "p_pno (proto_of b) = pu_no (br_push b)"
  by (simp_all add: proto_of_def)

section \<open>What the small operations change\<close>

lemma tell_fields [simp]:
  "br_tracker (tell m b) = br_tracker b" "br_stats (tell m b) = br_stats b" "br_seq (tell m b) = br_seq b"
  "br_turns (tell m b) = br_turns b" "br_active (tell m b) = br_active b"
  "br_active_no (tell m b) = br_active_no b" "br_audios (tell m b) = br_audios b"
  "br_streams (tell m b) = br_streams b" "br_push (tell m b) = br_push b"
  "br_backlog (tell m b) = br_backlog b" "br_life (tell m b) = br_life b" "br_lock (tell m b) = br_lock b"
  "br_ctl (tell m b) = br_ctl b" "br_act (tell m b) = br_act b"
  "lk_fail (br_link (tell m b)) = lk_fail (br_link b)"
  by (simp_all add: tell_def put_def split: option.splits)

lemma proto_tell [simp]: "proto_of (tell m b) = p_say m (proto_of b)"
  by (auto simp: tell_def put_def proto_of_def p_say_def split: option.splits)

text \<open>A pipeline event is at most one neutral message.\<close>

lemma note_event_cases:
  "(\<exists>t. note_event now st meta b = b\<lparr>br_tracker := t\<rparr>)
   \<or> (\<exists>t j. note_event now st meta b = (tell (CPipeline j) b)\<lparr>br_tracker := t\<rparr>)"
proof -
  define t where "t = pt_append now st meta (br_tracker b)"
  define j where "j = pipeline_event_msg (last (pt_events t))"
  consider "\<not> (pt_has_sender t \<and> ''status'' \<in> set (pt_output_mode t))" | e where "lk_fail (br_link b) = Some e"
    | "pt_has_sender t \<and> ''status'' \<in> set (pt_output_mode t)" "lk_fail (br_link b) = None" by blast
  then show ?thesis
  proof cases
    case 1
    then have "note_event now st meta b = b\<lparr>br_tracker := t\<rparr>"
      by (auto simp: note_event_def pt_record_def t_def Let_def)
    then show ?thesis by blast
  next
    case (2 e)
    then have "note_event now st meta b = b\<lparr>br_tracker := t\<rparr>"
      by (simp add: note_event_def pt_record_def t_def put_def Let_def)
    then show ?thesis by blast
  next
    case 3
    then have "note_event now st meta b = (tell (CPipeline j) b)\<lparr>br_tracker := t\<rparr>"
      by (simp add: note_event_def pt_record_def t_def j_def put_def tell_def Let_def)
    then show ?thesis by blast
  qed
qed

lemma note_event_fields [simp]:
  "br_stats (note_event now st meta b) = br_stats b" "br_seq (note_event now st meta b) = br_seq b"
  "br_turns (note_event now st meta b) = br_turns b" "br_active (note_event now st meta b) = br_active b"
  "br_active_no (note_event now st meta b) = br_active_no b"
  "br_audios (note_event now st meta b) = br_audios b"
  "br_streams (note_event now st meta b) = br_streams b" "br_push (note_event now st meta b) = br_push b"
  "br_backlog (note_event now st meta b) = br_backlog b" "br_life (note_event now st meta b) = br_life b"
  "br_lock (note_event now st meta b) = br_lock b" "br_ctl (note_event now st meta b) = br_ctl b"
  "br_act (note_event now st meta b) = br_act b"
  "lk_fail (br_link (note_event now st meta b)) = lk_fail (br_link b)"
  using note_event_cases[of now st meta b] by auto

lemma upd_fields [simp]:
  "br_turns (upd_turn i f b) = (br_turns b)[i := f (br_turns b ! i)]"
  "br_turns (turn_at i pc b) = (br_turns b)[i := (br_turns b ! i)\<lparr>tn_pc := pc\<rparr>]"
  "br_turns (audio_cancel a b) = br_turns b" "br_turns (audio_cancel_opt x b) = br_turns b"
  "br_turns (stream_close h b) = br_turns b" "br_turns (stream_close_opt y b) = br_turns b"
  "br_turns (mark_gone b) = br_turns b"
  "br_audios (upd_turn i f b) = br_audios b" "br_audios (turn_at i pc b) = br_audios b"
  "br_audios (stream_close h b) = br_audios b" "br_audios (stream_close_opt y b) = br_audios b"
  "br_audios (mark_gone b) = br_audios b"
  by (simp_all add: upd_turn_def turn_at_def audio_cancel_def audio_cancel_opt_def stream_close_def
      stream_close_opt_def mark_gone_def split: option.splits)

section \<open>The part of the state a turn leaves alone\<close>

definition kept_points :: "turn list \<Rightarrow> turn list \<Rightarrow> bool" where
  "kept_points ts ts' \<longleftrightarrow>
     length ts' = length ts \<and> (\<forall>j. tn_pc (ts' ! j) = TNew \<longrightarrow> ts' ! j = ts ! j)
     \<and> (\<forall>j. tn_pc (ts ! j) = TDone \<longrightarrow> tn_pc (ts' ! j) = TDone)"

lemma kept_points_trans: "kept_points a b \<Longrightarrow> kept_points b c \<Longrightarrow> kept_points a c"
  unfolding kept_points_def by metis

definition kept :: "bridge \<Rightarrow> bridge \<Rightarrow> bool" where
  "kept b b' \<longleftrightarrow>
     br_ctl b' = br_ctl b \<and> br_lock b' = br_lock b \<and> br_active b' = br_active b
     \<and> lf_close (br_life b') = lf_close (br_life b) \<and> lf_end_sent (br_life b') = lf_end_sent (br_life b)
     \<and> lf_closing (br_life b') = lf_closing (br_life b) \<and> lf_closed (br_life b') = lf_closed (br_life b)
     \<and> pu_open (br_push b') = pu_open (br_push b) \<and> pu_no (br_push b') = pu_no (br_push b)
     \<and> br_backlog b' = br_backlog b \<and> kept_points (br_turns b) (br_turns b')"

fun with_audio :: "turn_pc \<Rightarrow> bool" where
  "with_audio TStream = True"
| "with_audio TChunk = True"
| "with_audio (TAclose _) = True"
| "with_audio (TEnd _) = True"
| "with_audio (TDrop _) = True"
| "with_audio TDrain = True"
| "with_audio _ = False"

text \<open>A running audio task of a turn is the one the turn knows, at a point where it may send.\<close>

definition audio_ok :: "bridge \<Rightarrow> bool" where
  "audio_ok b \<longleftrightarrow>
     (\<forall>a i. a < length (br_audios b) \<longrightarrow> au_pc (br_audios b ! a) = AuRun \<longrightarrow>
        au_owner (br_audios b ! a) = Some i \<longrightarrow>
        i < length (br_turns b) \<and> tn_audio (br_turns b ! i) = Some a \<and> tn_tts (br_turns b ! i) \<noteq> None
        \<and> with_audio (tn_pc (br_turns b ! i)) \<and> tn_no (br_turns b ! i) = au_no (br_audios b ! a))"

definition quiet :: "nat \<Rightarrow> bridge \<Rightarrow> bool" where
  "quiet i b \<longleftrightarrow>
     (\<forall>a<length (br_audios b). au_pc (br_audios b ! a) = AuRun \<longrightarrow> au_owner (br_audios b ! a) \<noteq> Some i)"

definition live :: "nat \<Rightarrow> bridge \<Rightarrow> bool" where
  "live i b \<longleftrightarrow> i < length (br_turns b) \<and> turn_stat (tn_pc (br_turns b ! i)) = SLive"

definition refines :: "bridge \<Rightarrow> bridge \<Rightarrow> bool" where
  "refines b b' \<longleftrightarrow> pstep\<^sup>*\<^sup>* (proto_of b) (proto_of b') \<and> (audio_ok b \<longrightarrow> audio_ok b') \<and> kept b b'"

lemma kept_refl [simp]: "kept b b"
  by (simp add: kept_def kept_points_def)

lemma kept_trans: "kept a b \<Longrightarrow> kept b c \<Longrightarrow> kept a c"
  unfolding kept_def by (auto intro: kept_points_trans)

lemma refines_refl [simp]: "refines b b"
  by (simp add: refines_def)

lemma refines_trans [trans]: "refines a b \<Longrightarrow> refines b c \<Longrightarrow> refines a c"
  unfolding refines_def by (meson kept_trans rtranclp_trans)

lemma keptI:
  assumes "br_ctl b' = br_ctl b" "br_lock b' = br_lock b" "br_active b' = br_active b"
    "lf_close (br_life b') = lf_close (br_life b)" "lf_end_sent (br_life b') = lf_end_sent (br_life b)"
    "lf_closing (br_life b') = lf_closing (br_life b)" "lf_closed (br_life b') = lf_closed (br_life b)"
    "pu_open (br_push b') = pu_open (br_push b)" "pu_no (br_push b') = pu_no (br_push b)"
    "br_backlog b' = br_backlog b" "length (br_turns b') = length (br_turns b)"
    "\<And>j. tn_pc (br_turns b' ! j) = TNew \<Longrightarrow> br_turns b' ! j = br_turns b ! j"
    "\<And>j. tn_pc (br_turns b ! j) = TDone \<Longrightarrow> tn_pc (br_turns b' ! j) = TDone"
  shows "kept b b'"
  using assms by (simp add: kept_def kept_points_def)

lemma refines_tell_neutral: "neutral m \<Longrightarrow> refines b (tell m b)"
  by (auto simp: refines_def audio_ok_def intro!: keptI r_into_rtranclp p_neutral)

lemma proto_tracker [simp]: "proto_of (b\<lparr>br_tracker := t\<rparr>) = proto_of b"
  by (simp add: proto_of_def)

lemma refines_tracker: "refines b (b\<lparr>br_tracker := t\<rparr>)"
  by (auto simp: refines_def audio_ok_def intro!: keptI)

lemma refines_note: "refines b (note_event now st meta b)"
  using note_event_cases[of now st meta b] refines_tracker
    refines_trans[OF refines_tell_neutral refines_tracker] by (metis neutral.simps(6))

lemma refines_tell_turn:
  assumes "live i b" "of_turn (tn_no (br_turns b ! i)) m"
  shows "refines b (tell m b)"
proof -
  have "pstep (proto_of b) (p_say m (proto_of b))"
    using assms by (intro p_msg[of i _ "tn_no (br_turns b ! i)"]) (simp_all add: live_def turn_abs_def)
  then show ?thesis by (auto simp: refines_def audio_ok_def intro!: keptI r_into_rtranclp)
qed

text \<open>Operations that change nothing the contract sees.\<close>

lemma refines_same:
  assumes "proto_of b' = proto_of b" "br_audios b' = br_audios b" "br_turns b' = br_turns b" "kept b b'"
  shows "refines b b'"
  using assms by (simp add: refines_def audio_ok_def)

lemma refines_gone: "refines b (mark_gone b)"
  by (rule refines_same) (auto simp: proto_of_def mark_gone_def intro!: keptI)

lemma refines_stats: "refines b (b\<lparr>br_stats := g\<rparr>)"
  by (rule refines_same) (auto simp: proto_of_def intro!: keptI)

lemma refines_stream_close: "refines b (stream_close h b)"
  by (rule refines_same) (auto simp: proto_of_def stream_close_def intro!: keptI)

lemma refines_stream_close_opt: "refines b (stream_close_opt x b)"
  by (cases x) (simp_all add: stream_close_opt_def refines_stream_close)

lemma refines_stream_open: "refines b (snd (stream_open b))"
  by (rule refines_same) (auto simp: proto_of_def stream_open_def intro!: keptI)

text \<open>A turn moves to another point, or changes what the contract does not see.\<close>

lemma map_turn_abs_update:
  "i < length ts \<Longrightarrow> turn_abs t = turn_abs (ts ! i) \<Longrightarrow> map turn_abs (ts[i := t]) = map turn_abs ts"
  by (simp add: map_update list_update_same_conv)

lemma refines_turn_at:
  assumes "live i b" "turn_stat pc = SLive" "with_audio pc \<or> quiet i b"
  shows "refines b (turn_at i pc b)"
proof -
  have i: "i < length (br_turns b)" and "turn_stat (tn_pc (br_turns b ! i)) = turn_stat pc"
    using assms(1,2) unfolding live_def by (blast, metis)
  then have "proto_of (turn_at i pc b) = proto_of b"
    by (simp add: proto_of_def turn_at_def upd_turn_def map_turn_abs_update turn_abs_def)
  moreover have "audio_ok b \<Longrightarrow> audio_ok (turn_at i pc b)"
    using assms(3) i by (auto simp: audio_ok_def quiet_def nth_list_update)
  moreover have "kept b (turn_at i pc b)"
    using assms by (auto simp: turn_at_def upd_turn_def nth_list_update live_def intro!: keptI)
  ultimately show ?thesis by (simp add: refines_def)
qed

lemma refines_upd_turn:
  assumes "live i b" "\<And>t. tn_pc (f t) = tn_pc t \<and> tn_no (f t) = tn_no t \<and> tn_audio (f t) = tn_audio t
      \<and> tn_tts (f t) = tn_tts t"
  shows "refines b (upd_turn i f b)"
proof -
  have "proto_of (upd_turn i f b) = proto_of b"
    using assms by (simp add: proto_of_def upd_turn_def live_def map_turn_abs_update turn_abs_def)
  moreover have "audio_ok b \<Longrightarrow> audio_ok (upd_turn i f b)"
    using assms by (auto simp: audio_ok_def live_def nth_list_update)
  moreover have "kept b (upd_turn i f b)"
    using assms by (auto simp: upd_turn_def nth_list_update live_def intro!: keptI)
  ultimately show ?thesis by (simp add: refines_def)
qed

section \<open>A normal turn\<close>

lemma live_fields [simp]:
  "live i (tell m b) = live i b" "live i (note_event now st meta b) = live i b"
  "live i (mark_gone b) = live i b" "live i (audio_cancel_opt x b) = live i b"
  "live i (stream_close_opt x b) = live i b" "live i (b\<lparr>br_stats := g\<rparr>) = live i b"
  by (simp_all add: live_def)

lemma quiet_fields [simp]:
  "quiet i (tell m b) = quiet i b" "quiet i (note_event now st meta b) = quiet i b"
  "quiet i (mark_gone b) = quiet i b" "quiet i (stream_close_opt x b) = quiet i b"
  "quiet i (upd_turn k f b) = quiet i b" "quiet i (turn_at k pc b) = quiet i b"
  "quiet i (b\<lparr>br_stats := g\<rparr>) = quiet i b"
  by (simp_all add: quiet_def)

lemma live_upd_turn [simp]:
  "(\<And>t. tn_pc (f t) = tn_pc t) \<Longrightarrow> live i (upd_turn i f b) = live i b"
  by (auto simp: live_def nth_list_update)

lemma the_turn_simps [simp]:
  "the_turn (tell m b) i = the_turn b i" "the_turn (note_event now st meta b) i = the_turn b i"
  "the_turn (mark_gone b) i = the_turn b i" "the_turn (audio_cancel_opt x b) i = the_turn b i"
  "the_turn (b\<lparr>br_stats := g\<rparr>) i = the_turn b i"
  by (simp_all add: the_turn_def)

lemma audio_cancel_simps:
  "length (br_audios (audio_cancel a b)) = length (br_audios b)"
  "br_audios (audio_cancel a b) ! k =
     (if k = a \<and> a < length (br_audios b)
      then (br_audios b ! a)\<lparr>au_pc := (if au_pc (br_audios b ! a) = AuDone then AuDone else AuCancelled)\<rparr>
      else br_audios b ! k)"
  by (simp_all add: audio_cancel_def)
     (cases "a < length (br_audios b)"; auto simp: nth_list_update list_update_beyond)

lemma refines_audio_cancel: "refines b (audio_cancel a b)"
proof -
  have p: "pstep\<^sup>*\<^sup>* (proto_of b) (proto_of (audio_cancel a b))"
  proof (cases "a < length (br_audios b)")
    case True
    let ?x = "br_audios b ! a"
    have "proto_of (audio_cancel a b) =
          (proto_of b)\<lparr>p_audios := (p_audios (proto_of b))[a := (au_owner ?x, au_no ?x, False)]\<rparr>"
      by (simp add: proto_of_def audio_cancel_def map_update audio_abs_def)
    moreover have "p_audios (proto_of b) ! a = (au_owner ?x, au_no ?x, au_pc ?x = AuRun)"
      using True by (simp add: audio_abs_def)
    ultimately show ?thesis using True
      p_audio_stop[of a "proto_of b" "au_owner ?x" "au_no ?x" "au_pc ?x = AuRun"] by auto
  qed (simp add: audio_cancel_def proto_of_def list_update_beyond)
  have "audio_ok b \<Longrightarrow> audio_ok (audio_cancel a b)"
    unfolding audio_ok_def audio_cancel_simps by auto
  moreover have "kept b (audio_cancel a b)" by (auto simp: audio_cancel_def intro!: keptI)
  ultimately show ?thesis using p by (simp add: refines_def)
qed

lemma refines_audio_cancel_opt: "refines b (audio_cancel_opt x b)"
  by (cases x) (simp_all add: audio_cancel_opt_def refines_audio_cancel)

lemma quiet_cancelled:
  assumes "audio_ok b"
  shows "quiet i (audio_cancel_opt (tn_audio (the_turn b i)) b)"
  using assms
  by (cases "tn_audio (the_turn b i)")
     (fastforce simp: quiet_def audio_ok_def audio_cancel_opt_def audio_cancel_simps the_turn_def)+

lemma quiet_done:
  assumes "audio_ok b" "audio_done_opt b (tn_audio (the_turn b i))"
  shows "quiet i b"
  using assms
  by (cases "tn_audio (the_turn b i)")
     (fastforce simp: quiet_def audio_ok_def audio_done_opt_def audio_done_def the_turn_def)+

text \<open>The end of a turn, and the tail that leads to it.\<close>

lemma refines_finish:
  assumes "live i b" "quiet i b"
  shows "refines b (turn_finish i pend b)"
proof -
  define n where "n = tn_no (br_turns b ! i)"
  define b1 where "b1 = (case pend of
      Some e \<Rightarrow> if is_Exception e \<and> \<not> is_ClientGone e
                then tell (CTurnError n ''internal_error'')
                       (b\<lparr>br_stats := stats_turn_error ''internal_error'' (br_stats b)\<rparr>) else b
    | None \<Rightarrow> b)"
  have "refines b (tell (CTurnError n x) (b\<lparr>br_stats := g\<rparr>))" for x g
    by (rule refines_trans[OF refines_stats refines_tell_turn]) (simp_all add: assms n_def)
  then have r1: "refines b b1" unfolding b1_def by (cases pend) simp_all
  have f: "br_turns b1 = br_turns b" "br_audios b1 = br_audios b" "br_life b1 = br_life b"
    "br_active_no b1 = br_active_no b" "br_push b1 = br_push b"
    by (auto simp: b1_def split: option.splits)
  define b2 where "b2 = (if br_active_no b1 = Some n then b1\<lparr>br_active_no := None\<rparr> else b1)"
  define b3 where "b3 = turn_at i TDone (if lf_end_sent (br_life b2) = Some n then b2 else tell (CTurnEnd n) b2)"
  have fin: "turn_finish i pend b = b3"
    unfolding turn_finish_def b3_def b2_def b1_def n_def the_turn_def Let_def by (rule refl)
  have i: "i < length (br_turns b1)" "turn_stat (tn_pc (br_turns b1 ! i)) = SLive"
    using assms(1) f by (simp_all add: live_def)
  have q: "\<forall>(w, k, r)\<in>set (p_audios (proto_of b1)). w = Some i \<longrightarrow> \<not> r"
    using assms(2) f by (auto simp: quiet_def audio_abs_def in_set_conv_nth)
  have p3: "proto_of b3 = (if p_end (proto_of b1) = Some n then (proto_of b1)
       \<lparr>p_active_no := (if p_active_no (proto_of b1) = Some n then None else p_active_no (proto_of b1)),
        p_turns := (p_turns (proto_of b1))[i := (SDone, n)]\<rparr>
      else p_say (CTurnEnd n) ((proto_of b1)
       \<lparr>p_active_no := (if p_active_no (proto_of b1) = Some n then None else p_active_no (proto_of b1)),
        p_turns := (p_turns (proto_of b1))[i := (SDone, n)]\<rparr>))"
    using f by (auto simp: b3_def b2_def proto_of_def turn_at_def upd_turn_def map_update turn_abs_def n_def
        p_say_def tell_def put_def split: option.splits)
  have st: "p_turns (proto_of b1) ! i = (SLive, n)"
    using i f by (simp add: turn_abs_def n_def)
  have "pstep (proto_of b1) (proto_of b3)"
    unfolding p3 using p_finish[OF _ st q refl] i by simp
  moreover have "audio_ok b1 \<Longrightarrow> audio_ok b3"
    using assms(2) f i by (auto simp: b3_def b2_def audio_ok_def quiet_def nth_list_update)
  moreover have "kept b1 b3"
    using i by (auto simp: b3_def b2_def turn_at_def upd_turn_def nth_list_update intro!: keptI)
  ultimately have "refines b1 b3" by (simp add: refines_def r_into_rtranclp)
  with r1 fin show ?thesis using refines_trans by simp
qed

lemma refines_close_tts: "live i b \<Longrightarrow> quiet i b \<Longrightarrow> refines b (close_tts i pend b)"
  unfolding close_tts_def
  by (rule refines_trans[OF refines_stream_close_opt refines_turn_at]) simp_all

lemma refines_stop_audio: "live i b \<Longrightarrow> audio_ok b \<Longrightarrow> refines b (stop_audio i pend b)"
  by (auto simp: stop_audio_def Let_def quiet_done quiet_cancelled
      intro!: refines_close_tts refines_trans[OF refines_audio_cancel_opt refines_turn_at])

lemma refines_audio_ok: "refines a b \<Longrightarrow> audio_ok a \<Longrightarrow> audio_ok b"
  by (simp add: refines_def)

lemma refines_drop:
  assumes "live i b"
  shows "drop_tts i b = Inl b1 \<Longrightarrow> refines b b1 \<and> live i b1"
    and "drop_tts i b = Inr b1 \<Longrightarrow> refines b b1 \<and> live i b1"
  using assms
  by (auto simp: drop_tts_def Let_def split: if_splits
      intro: refines_upd_turn refines_trans[OF refines_upd_turn refines_audio_cancel_opt])

lemma refines_drain_check:
  assumes "live i b" "audio_ok b"
  shows "refines b (drain_check c now i b)"
proof -
  have "refines b (turn_at i (TDrop DropDrain) b1)" if "drop_tts i b = Inl b1" for b1
    using refines_drop(1)[OF assms(1) that] by (auto intro: refines_trans[OF _ refines_turn_at])
  moreover have "refines b (stop_audio i None b1)" if "drop_tts i b = Inr b1" for b1
    using refines_drop(2)[OF assms(1) that] refines_audio_ok assms(2)
    by (blast intro: refines_trans refines_stop_audio)
  ultimately show ?thesis
    using assms by (auto simp: drain_check_def Let_def refines_stop_audio split: sum.splits
        intro: refines_turn_at)
qed

lemma refines_after_tokens:
  assumes "live i b" "audio_ok b"
  shows "refines b (after_tokens c now i pend b)"
proof (cases "tn_tts (the_turn b i)")
  case None
  then have "quiet i b" using assms(2) by (fastforce simp: quiet_def audio_ok_def the_turn_def)
  then show ?thesis using assms None by (simp add: after_tokens_def Let_def refines_finish)
next
  case (Some h)
  define b1 where "b1 = (if lf_gone (br_life b) then audio_cancel_opt (tn_audio (the_turn b i)) b else b)"
  define b2 where "b2 = upd_turn i (\<lambda>t. t\<lparr>tn_progress := now\<rparr>) b1"
  have 1: "refines b b1" "live i b1" using assms(1) by (auto simp: b1_def refines_audio_cancel_opt)
  then have 2: "refines b1 b2" "live i b2" by (auto simp: b2_def intro!: refines_upd_turn)
  have "refines b2 (drain_check c now i b2)"
    using refines_drain_check[OF 2(2)] 1(1) 2(1) assms(2) refines_audio_ok by blast
  then have "refines b (drain_check c now i b2)" using 1(1) 2(1) refines_trans by blast
  then show ?thesis using Some assms
    by (cases pend) (simp_all add: after_tokens_def Let_def refines_stop_audio b1_def b2_def)
qed

lemma refines_tokens_done:
  assumes "live i b" "audio_ok b"
  shows "refines b (tokens_done c now i r b)"
proof -
  define n where "n = tn_no (the_turn b i)"
  define pb where "pb = (case r of
      None \<Rightarrow> (None, b)
    | Some e \<Rightarrow>
        if is_ClientGone e then (None, b)
        else if is_RuntimeError e then
          (let code = (case e of OrchestratorError x \<Rightarrow> x | _ \<Rightarrow> ''internal_error'') in
           (None, tell (CTurnError n code) (b\<lparr>br_stats := stats_turn_error code (br_stats b)\<rparr>)))
        else (Some e, b))"
  have t: "refines b (tell (CTurnError n x) (b\<lparr>br_stats := g\<rparr>))" for x g
    by (rule refines_trans[OF refines_stats refines_tell_turn]) (simp_all add: assms n_def the_turn_def)
  have b1: "refines b (snd pb) \<and> live i (snd pb)"
    unfolding pb_def using t assms(1) by (cases r) (simp_all add: Let_def)
  obtain pend b1 where pb: "pb = (pend, b1)" by fastforce
  have "refines b1 (if tn_live (the_turn b1 i) then turn_at i (TEnd pend) b1 else after_tokens c now i pend b1)"
    using b1 pb refines_audio_ok[OF _ assms(2), of b1] refines_turn_at[of i b1 "TEnd pend"]
      refines_after_tokens[of i b1 c now pend] by simp
  then have "refines b (if tn_live (the_turn b1 i) then turn_at i (TEnd pend) b1 else after_tokens c now i pend b1)"
    using b1 pb refines_trans[of b b1] by simp
  moreover have "tokens_done c now i r b =
      (case pb of (pend, b1) \<Rightarrow>
         if tn_live (the_turn b1 i) then turn_at i (TEnd pend) b1 else after_tokens c now i pend b1)"
    unfolding tokens_done_def pb_def n_def Let_def by (rule refl)
  ultimately show ?thesis by (simp add: pb)
qed

lemma refines_link:
  assumes "put m (br_link b) = Inr l" shows "b\<lparr>br_link := l\<rparr> = tell m b"
  using assms by (simp add: tell_def)

lemma refines_turn_send:
  assumes "live i b" "of_turn (tn_no (br_turns b ! i)) m" "turn_send m b = (e, b1)"
  shows "refines b b1 \<and> live i b1 \<and> br_turns b1 = br_turns b"
proof (cases "put m (br_link b)")
  case (Inl x)
  then have "b1 = (if is_ClientGone x then mark_gone b else b)"
    using assms(3) by (simp add: turn_send_def split: if_splits)
  then show ?thesis using assms(1) refines_gone[of b] by simp
next
  case (Inr l)
  then have "b1 = tell m b" using assms(3) refines_link[OF Inr] by (simp add: turn_send_def)
  then show ?thesis using refines_tell_turn[OF assms(1,2)] assms(1) by simp
qed

lemma refines_on_token:
  assumes "live i b"
  shows "refines b (on_token c i x b)"
proof -
  obtain e b1 where s: "(if text_out c then turn_send (CToken (Some (tn_no (the_turn b i))) x) b else (None, b)) = (e, b1)"
    by fastforce
  then have b1: "refines b b1" "live i b1"
    using assms refines_turn_send[OF assms, of "CToken (Some (tn_no (the_turn b i))) x" e b1]
    by (auto simp: the_turn_def split: if_splits)
  have "refines b1 (turn_at i pc b1)" if "with_audio pc" "turn_stat pc = SLive" for pc
    using b1 that by (intro refines_turn_at) simp_all
  then have "refines b (turn_at i pc b1)" if "with_audio pc" "turn_stat pc = SLive" for pc
    using b1 that refines_trans by blast
  moreover have "refines b (turn_at i (TAclose ClientGone) b)" using assms by (intro refines_turn_at) simp_all
  ultimately show ?thesis
    unfolding on_token_def Let_def s by (cases e) simp_all
qed

lemma refines_on_tool_call:
  assumes "live i b"
  shows "refines b (on_tool_call c i tc b)"
proof -
  obtain e b1 where s: "turn_send (CTool (Some (tn_no (the_turn b i))) tc) b = (e, b1)" by fastforce
  then have b1: "refines b b1" "live i b1"
    using refines_turn_send[OF assms _ s] by (auto simp: the_turn_def)
  have "refines b1 (turn_at i pc b1)" if "with_audio pc" "turn_stat pc = SLive" for pc
    using b1 that by (intro refines_turn_at) simp_all
  then have "refines b (turn_at i pc b1)" if "with_audio pc" "turn_stat pc = SLive" for pc
    using b1 that refines_trans by blast
  moreover have "refines b (turn_at i pc b)" if "with_audio pc" "turn_stat pc = SLive" for pc
    using assms that by (intro refines_turn_at) simp_all
  ultimately show ?thesis
    unfolding on_tool_call_def s by (cases e) simp_all
qed

lemma refines_on_event:
  assumes "live i b"
  shows "refines b (on_event c now i ev b)"
proof (cases ev)
  case (EvToken x)
  define b1 where "b1 = (if tn_first (the_turn b i) then note_event now ''llm_first_token'' [] b else b)"
  define b2 where "b2 = upd_turn i (\<lambda>t. t\<lparr>tn_first := False, tn_count := Suc (tn_count t)\<rparr>) b1"
  have 1: "refines b b1" "live i b1" using assms by (auto simp: b1_def refines_note)
  then have 2: "refines b1 b2" "live i b2" by (auto simp: b2_def intro!: refines_upd_turn)
  then have "refines b (on_token c i x b2)"
    using 1 refines_on_token refines_trans by blast
  then show ?thesis using EvToken by (simp add: on_event_def b1_def b2_def)
qed (use assms in \<open>auto simp: on_event_def intro!: refines_turn_at refines_on_tool_call\<close>)

lemma refines_after_drop:
  assumes "live i b" "audio_ok b"
  shows "refines b (after_drop c now i k b)"
  using assms
  by (cases k) (simp_all add: after_drop_def refines_turn_at refines_after_tokens refines_stop_audio)

lemma refines_drop_then:
  assumes "live i b" "audio_ok b"
  shows "refines b (drop_then c now i k b)"
proof (cases "drop_tts i b")
  case (Inl b1)
  then have "refines b b1" "live i b1" using refines_drop(1)[OF assms(1)] by auto
  then show ?thesis using Inl refines_trans[OF _ refines_turn_at] by (simp add: drop_then_def)
next
  case (Inr b1)
  then have "refines b b1" "live i b1" using refines_drop(2)[OF assms(1)] by auto
  then show ?thesis using Inr refines_trans[OF _ refines_after_drop] refines_audio_ok[OF _ assms(2)]
    by (simp add: drop_then_def)
qed

lemma quiet_without_audio:
  "audio_ok b \<Longrightarrow> \<not> with_audio (tn_pc (br_turns b ! i)) \<Longrightarrow> quiet i b"
  by (auto simp: audio_ok_def quiet_def)

lemma refines_pipe_tokens: "live i b \<Longrightarrow> refines b (pipe_tokens now i b)"
  unfolding pipe_tokens_def by (rule refines_trans[OF refines_note refines_turn_at]) simp_all

lemma note_event_turns:
  "note_event now st meta (b\<lparr>br_turns := x\<rparr>) = (note_event now st meta b)\<lparr>br_turns := x\<rparr>"
  by (simp add: note_event_def split: prod.splits)

lemma pipe_tokens_again: "pipe_tokens now i (turn_at i pc b) = pipe_tokens now i b"
  by (simp add: pipe_tokens_def turn_at_def upd_turn_def note_event_turns)
     (cases "i < length (br_turns b)"; simp add: list_update_beyond)

lemma refines_begin:
  assumes "i < length (br_turns b)" "tn_pc (br_turns b ! i) = TNew" "audio_ok b"
  shows "refines b (turn_begin c now i b)"
proof -
  define n where "n = Suc (br_seq b)"
  define b1 where "b1 = upd_turn i (\<lambda>t. t\<lparr>tn_no := n\<rparr>)
      (b\<lparr>br_seq := n, br_tracker := snd (pt_start_turn (br_tracker b))\<rparr>)"
  have st: "fst (p_turns (proto_of b) ! i) = SNew" "i < length (p_turns (proto_of b))"
    using assms by (simp_all add: turn_abs_def)
  have q: "quiet i b" using assms by (simp add: quiet_without_audio)
  show ?thesis
  proof (cases "lk_fail (br_link b)")
    case (Some e)
    let ?d = "turn_at i TDone b1"
    have d: "turn_begin c now i b = ?d"
      using Some by (simp add: turn_begin_def b1_def n_def put_def upd_turn_def Let_def)
    have "proto_of ?d = (proto_of b)\<lparr>p_seq := n, p_turns := (p_turns (proto_of b))[i := (SDone, n)]\<rparr>"
      using assms(1) by (simp add: b1_def proto_of_def turn_at_def upd_turn_def map_update turn_abs_def)
    then have "pstep (proto_of b) (proto_of ?d)"
      using p_begin_down[OF st(2,1)] Some by (simp add: n_def)
    moreover have "audio_ok ?d"
      using assms(1,3) q by (auto simp: b1_def upd_turn_def audio_ok_def quiet_def nth_list_update turn_at_def)
    moreover have "kept b ?d"
      using assms(1) by (auto simp: b1_def upd_turn_def turn_at_def nth_list_update intro!: keptI)
    ultimately show ?thesis by (simp add: d refines_def r_into_rtranclp)
  next
    case None
    let ?g = "stats_turn_started ''normal'' (br_stats b)"
    let ?pc = "if audio_out c then TConnect else TStream"
    define b2 where "b2 = (tell (CTurnStart n (turn_seq n)) b1)\<lparr>br_stats := ?g, br_active_no := Some n\<rparr>"
    define b3 where "b3 = turn_at i ?pc b2"
    have "\<exists>l. put (CTurnStart n (turn_seq n)) (br_link b1) = Inr l"
      using None by (simp add: b1_def upd_turn_def put_def)
    then obtain l where l: "put (CTurnStart n (turn_seq n)) (br_link b1) = Inr l" by blast
    have b2: "b1\<lparr>br_link := l, br_stats := stats_turn_started ''normal'' (br_stats b1), br_active_no := Some n\<rparr> = b2"
      using l by (simp add: b2_def tell_def b1_def upd_turn_def)
    have d: "turn_begin c now i b = (if audio_out c then b3 else pipe_tokens now i b2)"
      using l b2 unfolding turn_begin_def n_def b1_def b3_def by (simp add: Let_def)
    have p3: "proto_of (turn_at i pc b2) =
       p_say (CTurnStart n (turn_seq n)) ((proto_of b)
         \<lparr>p_seq := n, p_turns := (p_turns (proto_of b))[i := (SLive, n)], p_active_no := Some n\<rparr>)"
      if "turn_stat pc = SLive" for pc
      using assms(1) None that
      by (simp add: b2_def b1_def proto_of_def turn_at_def upd_turn_def map_update turn_abs_def
          tell_def put_def p_say_def)
    have r3: "refines b (turn_at i pc b2)" if "turn_stat pc = SLive" for pc
    proof -
      have "pstep (proto_of b) (proto_of (turn_at i pc b2))"
        unfolding p3[OF that] using p_begin[OF st(2,1)] None by (simp add: n_def)
      moreover have "audio_ok (turn_at i pc b2)"
        using assms(1,3) q
        by (auto simp: b2_def b1_def upd_turn_def audio_ok_def quiet_def nth_list_update turn_at_def)
      moreover have "kept b (turn_at i pc b2)"
        using assms(1,2) that
        by (auto simp: b2_def b1_def upd_turn_def turn_at_def nth_list_update intro!: keptI)
      ultimately show ?thesis by (simp add: refines_def r_into_rtranclp)
    qed
    have "refines (turn_at i TStream b2) (pipe_tokens now i (turn_at i TStream b2))"
      using assms(1) by (intro refines_pipe_tokens) (simp add: live_def b2_def b1_def)
    then have "refines b (pipe_tokens now i b2)"
      using r3[of TStream] refines_trans by (simp add: pipe_tokens_again)
    moreover have "refines b (turn_at i TConnect b2)" using r3 by simp
    ultimately show ?thesis by (simp add: d b3_def)
  qed
qed

lemma refines_spawn:
  assumes "live i b" "quiet i b" "n = tn_no (br_turns b ! i)" "spawn_audio (Some i) n h b = (a, b1)"
  shows "refines b (turn_at i TStream
           (upd_turn i (\<lambda>t. t\<lparr>tn_tts := Some h, tn_live := True, tn_audio := Some a\<rparr>) b1))"
    (is "refines b ?b2")
proof -
  have i: "i < length (br_turns b)" and st: "turn_stat (tn_pc (br_turns b ! i)) = SLive"
    using assms(1) by (simp_all add: live_def)
  have f: "br_turns b1 = br_turns b" "a = length (br_audios b)"
    using assms(4) by (auto simp: spawn_audio_def)
  have "map turn_abs (br_turns ?b2) = map turn_abs (br_turns b)"
    using i st f by (simp add: map_turn_abs_update turn_abs_def)
  then have p2: "proto_of ?b2 = (proto_of b)\<lparr>p_audios := p_audios (proto_of b) @ [(Some i, n, True)]\<rparr>"
    using assms(4) i st by (auto simp: spawn_audio_def proto_of_def turn_at_def upd_turn_def audio_abs_def)
  have "p_turns (proto_of b) ! i = (SLive, n)" using i st assms(3) by (simp add: turn_abs_def)
  then have "pstep (proto_of b) (proto_of ?b2)" unfolding p2 using i by (intro p_spawn) simp_all
  moreover have "audio_ok b \<Longrightarrow> audio_ok ?b2"
    using i assms(2,3,4)
    by (auto simp: spawn_audio_def audio_ok_def quiet_def nth_append nth_list_update less_Suc_eq)
  moreover have "kept b ?b2"
    using i st assms(4) by (auto simp: spawn_audio_def turn_at_def upd_turn_def nth_list_update intro!: keptI)
  ultimately show ?thesis by (simp add: refines_def r_into_rtranclp)
qed

lemma refines_connected:
  assumes "live i b" "tn_pc (br_turns b ! i) = TConnect" "audio_ok b"
  shows "refines b (turn_connected c now i ok b)"
proof (cases ok)
  case True
  obtain h b1 where o: "stream_open b = (h, b1)" by fastforce
  define b2 where "b2 = note_event now ''tts_start'' [(''voice'', JStr (cf_tts_voice (bc_config c)))] b1"
  obtain a b3 where s: "spawn_audio (Some i) (tn_no (the_turn b i)) h b2 = (a, b3)" by fastforce
  let ?f = "\<lambda>t. t\<lparr>tn_tts := Some h, tn_live := True, tn_audio := Some a\<rparr>"
  have b1: "refines b b1" "br_turns b1 = br_turns b" "br_audios b1 = br_audios b"
    using o refines_stream_open[of b] by (auto simp: stream_open_def)
  have b2: "refines b b2" "live i b2" "quiet i b2"
    using b1 assms refines_note[of b1] quiet_without_audio[of b i]
    by (auto simp: b2_def live_def quiet_def intro: refines_trans)
  have b4: "refines b2 (turn_at i TStream (upd_turn i ?f b3))" (is "refines b2 ?b4")
    using b2 s b1(2) by (intro refines_spawn) (simp_all add: the_turn_def b2_def)
  then have "live i ?b4" using b2(2) by (auto simp: live_def refines_def kept_def kept_points_def)
  then have "refines b2 (pipe_tokens now i ?b4)" using b4 refines_trans refines_pipe_tokens by blast
  then have "refines b (pipe_tokens now i (upd_turn i ?f b3))"
    using b2(1) refines_trans by (simp add: pipe_tokens_again)
  moreover have "turn_connected c now i ok b = pipe_tokens now i (upd_turn i ?f b3)"
    using True o s by (simp add: turn_connected_def b2_def Let_def)
  ultimately show ?thesis by simp
qed (use assms in \<open>simp add: turn_connected_def refines_pipe_tokens\<close>)

lemma refines_resume_live:
  assumes l: "live i b" and a: "audio_ok b"
  shows "refines b (turn_resume c now r i b)"
proof -
  note facts = refines_on_event[OF l] refines_tokens_done[OF l a] refines_after_tokens[OF l a]
    refines_drop_then[OF l a] refines_after_drop[OF l a] refines_drain_check[OF l a] refines_stop_audio[OF l a]
    refines_turn_at[OF l]
  have note_done: "refines b (tokens_done c now i None (note_event now st m b))" for st m
    using refines_trans[OF refines_note refines_tokens_done] l a refines_audio_ok[OF refines_note a] by simp
  show ?thesis
  proof (cases "tn_pc (the_turn b i)")
    case TNew
    then show ?thesis using l by (simp add: live_def the_turn_def)
  next
    case TConnect
    then have "quiet i b" using a by (simp add: quiet_without_audio the_turn_def)
    then show ?thesis using TConnect l a
      by (cases r) (simp_all add: turn_resume_def the_turn_def refines_connected refines_finish)
  next
    case TStream
    then show ?thesis using facts note_done by (cases r) (simp_all add: turn_resume_def)
  next
    case TChunk
    then show ?thesis using facts by (cases r) (simp_all add: turn_resume_def)
  next
    case (TAclose e)
    then show ?thesis using facts by (cases r) (simp_all add: turn_resume_def)
  next
    case (TEnd pend)
    then show ?thesis using facts by (cases r) (simp_all add: turn_resume_def)
  next
    case (TDrop k)
    then show ?thesis using facts
      by (cases r; simp add: turn_resume_def split: exn.split drop_cont.split)
  next
    case TDrain
    then show ?thesis using facts by (cases r; simp add: turn_resume_def split: exn.split)
  next
    case (TStopAudio pend)
    then have "quiet i b" using a by (simp add: quiet_without_audio the_turn_def)
    then show ?thesis using TStopAudio l
      by (cases r; simp add: turn_resume_def refines_close_tts refines_finish split: exn.split)
  next
    case (TClose pend)
    then have "quiet i b" using a by (simp add: quiet_without_audio the_turn_def)
    then show ?thesis using TClose l by (cases r; simp add: turn_resume_def refines_finish)
  next
    case TDone
    then show ?thesis by (simp add: turn_resume_def)
  qed
qed

lemma refines_new_over:
  assumes "i < length (br_turns b)" "tn_pc (br_turns b ! i) = TNew" "tn_no t = tn_no (br_turns b ! i)"
    "tn_pc t = TDone" "audio_ok b"
  shows "refines b (b\<lparr>br_turns := (br_turns b)[i := t]\<rparr>)" (is "refines b ?b1")
proof -
  have "proto_of ?b1 = (proto_of b)\<lparr>p_turns := (p_turns (proto_of b))[i := (SDone, snd (p_turns (proto_of b) ! i))]\<rparr>"
    using assms by (simp add: proto_of_def map_update turn_abs_def)
  then have "pstep (proto_of b) (proto_of ?b1)"
    using assms p_drop[of i "proto_of b"] by (simp add: turn_abs_def)
  moreover have "audio_ok ?b1"
    using assms quiet_without_audio[of b i] by (auto simp: audio_ok_def quiet_def nth_list_update)
  moreover have "kept b ?b1" using assms by (auto simp: nth_list_update intro!: keptI)
  ultimately show ?thesis by (simp add: refines_def r_into_rtranclp)
qed

lemma refines_turn_step:
  assumes "i < length (br_turns b)" "audio_ok b"
  shows "refines b (turn_step c now r i b)"
proof -
  let ?u = "upd_turn i (\<lambda>t. t\<lparr>tn_cancel := False\<rparr>) b"
  consider "live i b" | "tn_pc (br_turns b ! i) = TNew" | "tn_pc (br_turns b ! i) = TDone"
    using assms(1) by (cases "tn_pc (br_turns b ! i)") (auto simp: live_def)
  then show ?thesis
  proof cases
    case 1
    then have "refines b ?u" "live i ?u" by (auto intro: refines_upd_turn)
    then show ?thesis
      using 1 assms(2) refines_resume_live refines_audio_ok[of b ?u] refines_trans[of b ?u]
      by (simp add: turn_step_def)
  next
    case 2
    have "turn_resume c now r i ?u = b\<lparr>br_turns := (br_turns b)[i := (br_turns b ! i)\<lparr>tn_cancel := False, tn_pc := TDone\<rparr>]\<rparr>"
      if "r = RExn CancelledError"
      using 2 assms(1) that by (simp add: turn_resume_def the_turn_def upd_turn_def turn_at_def)
    moreover have "turn_resume c now (RExn e) i b = b\<lparr>br_turns := (br_turns b)[i := (br_turns b ! i)\<lparr>tn_pc := TDone\<rparr>]\<rparr>" for e
      using 2 assms(1) by (simp add: turn_resume_def the_turn_def upd_turn_def turn_at_def)
    moreover have "turn_resume c now RGo i b = turn_begin c now i b"
      using 2 by (simp add: turn_resume_def the_turn_def)
    ultimately show ?thesis
      using 2 assms refines_begin refines_new_over[OF assms(1) 2]
      by (cases r) (auto simp: turn_step_def turn_resume_def the_turn_def)
  next
    case 3
    have "turn_resume c now r i ?u = ?u" "turn_resume c now r i b = b"
      using 3 assms(1) by (simp_all add: turn_resume_def the_turn_def)
    moreover have "refines b ?u"
    proof -
      have "proto_of ?u = proto_of b"
        using assms by (simp add: proto_of_def upd_turn_def map_turn_abs_update turn_abs_def)
      moreover have "audio_ok ?u" using assms by (auto simp: audio_ok_def nth_list_update)
      moreover have "kept b ?u" using 3 assms by (auto simp: upd_turn_def nth_list_update intro!: keptI)
      ultimately show ?thesis by (simp add: refines_def)
    qed
    ultimately show ?thesis unfolding turn_step_def by (cases "r = RExn CancelledError") (simp_all del: upd_fields)
  qed
qed

section \<open>Audio tasks\<close>

lemma refines_upd_audio:
  assumes "a < length (br_audios b)" "\<And>x. au_owner (f x) = au_owner x \<and> au_no (f x) = au_no x"
    "au_pc (f (br_audios b ! a)) = au_pc (br_audios b ! a) \<or> au_pc (f (br_audios b ! a)) = AuDone"
  shows "refines b (upd_audio a f b)"
proof -
  let ?x = "br_audios b ! a"
  have "pstep\<^sup>*\<^sup>* (proto_of b) (proto_of (upd_audio a f b))"
  proof (cases "au_pc (f ?x) = au_pc ?x")
    case True
    then have "map audio_abs ((br_audios b)[a := f ?x]) = map audio_abs (br_audios b)"
      using assms(1,2) by (simp add: map_update list_update_same_conv audio_abs_def)
    then show ?thesis by (simp add: upd_audio_def proto_of_def)
  next
    case False
    then have "proto_of (upd_audio a f b) =
        (proto_of b)\<lparr>p_audios := (p_audios (proto_of b))[a := (au_owner ?x, au_no ?x, False)]\<rparr>"
      using assms by (auto simp: upd_audio_def proto_of_def map_update audio_abs_def)
    then show ?thesis
      using p_audio_stop[of a "proto_of b" "au_owner ?x" "au_no ?x" "au_pc ?x = AuRun"] assms(1)
      by (simp add: audio_abs_def r_into_rtranclp)
  qed
  moreover have "audio_ok b \<Longrightarrow> audio_ok (upd_audio a f b)"
    using assms by (auto simp: upd_audio_def audio_ok_def nth_list_update)
  moreover have "kept b (upd_audio a f b)" by (auto simp: upd_audio_def intro!: keptI)
  ultimately show ?thesis by (simp add: refines_def)
qed

lemma refines_audio_end: "a < length (br_audios b) \<Longrightarrow> refines b (audio_end a b)"
  unfolding audio_end_def by (rule refines_upd_audio) simp_all

lemma refines_push_part:
  assumes "pu_open p = pu_open (br_push b)" "pu_no p = pu_no (br_push b)"
  shows "refines b (b\<lparr>br_push := p\<rparr>)"
  using assms by (intro refines_same) (auto simp: proto_of_def intro!: keptI)

lemma refines_audio_progress:
  assumes "a < length (br_audios b)" "au_pc (br_audios b ! a) = AuRun" "audio_ok b"
  shows "refines b (audio_progress now a b)"
proof (cases "au_owner (br_audios b ! a)")
  case None
  then show ?thesis by (simp add: audio_progress_def refines_push_part)
next
  case (Some i)
  then have "i < length (br_turns b)" "with_audio (tn_pc (br_turns b ! i))"
    using assms by (auto simp: audio_ok_def)
  then have "live i b" by (cases "tn_pc (br_turns b ! i)") (auto simp: live_def)
  then show ?thesis using Some by (simp add: audio_progress_def refines_upd_turn)
qed

lemma audio_progress_fields [simp]:
  "br_audios (audio_progress now a b) = br_audios b"
  "br_link (audio_progress now a b) = br_link b" "br_life (audio_progress now a b) = br_life b"
  by (simp_all add: audio_progress_def upd_turn_def split: option.splits)

lemma refines_frame:
  assumes "a < length (br_audios b)" "au_pc (br_audios b ! a) = AuRun"
    "au_owner (br_audios b ! a) \<noteq> None \<Longrightarrow> lf_end_sent (br_life b) \<noteq> Some (au_no (br_audios b ! a))"
  shows "refines b (tell (if au_owner (br_audios b ! a) \<noteq> None then CAudio (au_no (br_audios b ! a)) f
                          else CPushAudio (au_no (br_audios b ! a)) f) b)" (is "refines b (tell ?m b)")
proof -
  let ?x = "br_audios b ! a"
  have x: "p_audios (proto_of b) ! a = (au_owner ?x, au_no ?x, True)"
    using assms by (simp add: audio_abs_def)
  have "pstep (proto_of b) (p_say ?m (proto_of b))"
  proof (cases "au_owner ?x")
    case None
    then show ?thesis using p_push_frame[of a "proto_of b" "au_no ?x" f] x assms(1) by simp
  next
    case (Some j)
    then show ?thesis
      using p_frame[of a "proto_of b" j "au_no ?x" f] x assms(1,3) by simp
  qed
  then show ?thesis by (auto simp: refines_def audio_ok_def intro!: keptI)
qed

lemma refines_audio_step:
  assumes "a < length (br_audios b)" "audio_ok b"
  shows "refines b (audio_step now inp a b)"
proof -
  let ?x = "br_audios b ! a"
  let ?normal = "au_owner ?x \<noteq> None"
  have fin: "refines b (audio_end a b)" using assms(1) by (rule refines_audio_end)
  show ?thesis
  proof (cases "au_pc ?x")
    case AuRun
    show ?thesis
    proof (cases inp)
      case (AChunk ch)
      define b1 where "b1 = audio_progress now a b"
      define b2 where "b2 = (if ?normal \<and> au_first ?x then note_event now ''tts_first_chunk'' [] b1 else b1)"
      have 1: "refines b b1" "br_audios b1 = br_audios b"
        using refines_audio_progress[OF assms(1) AuRun assms(2)] by (simp_all add: b1_def)
      then have 2: "refines b b2" "br_audios b2 = br_audios b"
        using refines_note refines_trans by (auto simp: b2_def)
      have "refines b2 (upd_audio a (\<lambda>x. x\<lparr>au_first := False, au_frames := chunk_slices ch\<rparr>) b2)"
        using 2 assms(1) by (intro refines_upd_audio) simp_all
      then have "refines b (upd_audio a (\<lambda>x. x\<lparr>au_first := False, au_frames := chunk_slices ch\<rparr>) b2)"
        using 2 refines_trans by blast
      then show ?thesis using AuRun AChunk 1
        unfolding audio_step_def Let_def b1_def b2_def by simp
    next
      case AFrame
      show ?thesis
      proof (cases "au_frames ?x")
        case (Cons f fs)
        let ?m = "if ?normal then CAudio (au_no ?x) f else CPushAudio (au_no ?x) f"
        show ?thesis
        proof (cases "?normal \<and> lf_end_sent (br_life b) = Some (au_no ?x)")
          case True
          then show ?thesis using AuRun AFrame Cons fin by (simp add: audio_step_def Let_def)
        next
          case False
          show ?thesis
          proof (cases "put ?m (br_link b)")
            case (Inl e)
            have "refines (mark_gone b) (audio_end a (mark_gone b))"
              using assms(1) by (intro refines_audio_end) simp
            then have "refines b (audio_end a (mark_gone b))" using refines_gone refines_trans by blast
            then show ?thesis using AuRun AFrame Cons fin False Inl
              by (auto simp: audio_step_def Let_def)
          next
            case (Inr l)
            define b1 where "b1 = tell ?m b"
            have b1: "b\<lparr>br_link := l\<rparr> = b1" using Inr by (simp add: b1_def refines_link)
            have 1: "refines b b1" unfolding b1_def using assms(1) AuRun False by (intro refines_frame) auto
            define b2 where "b2 = upd_audio a (\<lambda>x. x\<lparr>au_frames := fs\<rparr>) b1"
            have au: "br_audios b1 = br_audios b" by (simp add: b1_def)
            have 2: "refines b1 b2" unfolding b2_def using assms(1) au by (intro refines_upd_audio) simp_all
            have "refines b2 (audio_progress now a b2)"
              using assms au AuRun refines_audio_ok[OF refines_trans[OF 1 2]]
              by (intro refines_audio_progress) (simp_all add: b2_def upd_audio_def)
            then have "refines b (audio_progress now a b2)" using 1 2 refines_trans by blast
            moreover have "audio_step now inp a b = audio_progress now a b2"
              using AuRun AFrame Cons False Inr by (auto simp: audio_step_def Let_def b2_def b1[symmetric])
            ultimately show ?thesis by simp
          qed
        qed
      qed (use AuRun AFrame in \<open>simp add: audio_step_def\<close>)
    next
      case AOver
      have "refines (note_event now ''tts_done'' [] b) (audio_end a (note_event now ''tts_done'' [] b))"
        using assms(1) by (intro refines_audio_end) simp
      then have "refines b (audio_end a (note_event now ''tts_done'' [] b))"
        using refines_note refines_trans by blast
      then show ?thesis using AuRun AOver fin by (simp add: audio_step_def Let_def)
    next
      case (AExn e)
      then show ?thesis using AuRun fin by (simp add: audio_step_def)
    qed
  next
    case AuCancelled
    then show ?thesis using fin by (cases inp) (simp_all add: audio_step_def)
  next
    case AuDone
    then show ?thesis by (simp add: audio_step_def)
  qed
qed

end
