(* ===== verification/Bridge_Refine_Push.thy ===== *)
theory Bridge_Refine_Push
  imports Bridge_Refine
begin

text \<open>
  The push worker, \<open>_cut_push\<close>, the tasks that take the turn lock and \<open>close_all\<close> refine the contract.
\<close>

section \<open>Changing the push\<close>

text \<open>Like \<open>refines\<close>, but the open push may be closed and the backlog may change.\<close>

definition kept_turns :: "bridge \<Rightarrow> bridge \<Rightarrow> bool" where
  "kept_turns b b' \<longleftrightarrow>
     br_ctl b' = br_ctl b \<and> br_lock b' = br_lock b \<and> br_active b' = br_active b
     \<and> lf_close (br_life b') = lf_close (br_life b) \<and> lf_end_sent (br_life b') = lf_end_sent (br_life b)
     \<and> lf_closing (br_life b') = lf_closing (br_life b) \<and> lf_closed (br_life b') = lf_closed (br_life b)
     \<and> br_turns b' = br_turns b \<and> (pu_open (br_push b') \<longrightarrow> pu_open (br_push b) \<and> pu_no (br_push b') = pu_no (br_push b))"

definition prefines :: "bridge \<Rightarrow> bridge \<Rightarrow> bool" where
  "prefines b b' \<longleftrightarrow> pstep\<^sup>*\<^sup>* (proto_of b) (proto_of b') \<and> (audio_ok b \<longrightarrow> audio_ok b') \<and> kept_turns b b'"

lemma kept_turns_refl [simp]: "kept_turns b b"
  by (simp add: kept_turns_def)

lemma kept_turns_trans: "kept_turns a b \<Longrightarrow> kept_turns b c \<Longrightarrow> kept_turns a c"
  unfolding kept_turns_def by simp

lemma prefines_refl [simp]: "prefines b b"
  by (simp add: prefines_def)

lemma prefines_trans [trans]: "prefines a b \<Longrightarrow> prefines b c \<Longrightarrow> prefines a c"
  unfolding prefines_def by (meson kept_turns_trans rtranclp_trans)

lemma refines_prefines: "refines b b' \<Longrightarrow> br_turns b' = br_turns b \<Longrightarrow> prefines b b'"
  by (simp add: refines_def prefines_def kept_def kept_turns_def)

lemma prefines_same:
  assumes "proto_of b' = proto_of b" "br_audios b' = br_audios b" "kept_turns b b'"
  shows "prefines b b'"
  using assms by (simp add: prefines_def audio_ok_def kept_turns_def)

lemma prefines_backlog: "prefines b (upd_backlog f b)"
  by (rule prefines_same) (simp_all add: upd_backlog_def proto_of_def kept_turns_def)

lemma prefines_push:
  assumes "\<And>p. pu_open (f p) = pu_open p \<and> pu_no (f p) = pu_no p"
  shows "prefines b (upd_push f b)"
  using assms by (intro prefines_same) (simp_all add: upd_push_def proto_of_def kept_turns_def)

lemma prefines_stats: "prefines b (upd_stats f b)"
  unfolding upd_stats_def by (rule prefines_push) simp

lemma prefines_ms:
  "prefines b (add_send_ms now t0 b)" "prefines b (add_end_ms now t0 b)"
  "prefines b (add_drain_ms now t0 b)" "prefines b (add_close_ms now t0 b)"
  by (simp_all add: add_send_ms_def add_end_ms_def add_drain_ms_def add_close_ms_def prefines_stats)

lemma prefines_worker_at: "prefines b (worker_at pc b)"
  by (simp add: worker_at_def prefines_backlog)

lemma prefines_next: "prefines b (worker_next b)"
  unfolding worker_next_def event_over_def Let_def
  by (auto intro: prefines_trans[OF prefines_backlog] prefines_backlog prefines_worker_at)

lemma prefines_cancelled: "prefines b (worker_cancelled b)" "prefines b (worker_over b)"
  unfolding worker_cancelled_def event_over_def worker_over_def
  by (auto intro: prefines_trans[OF prefines_backlog] prefines_backlog)

lemma prefines_note: "prefines b (note_event now st meta b)"
  by (rule refines_prefines[OF refines_note]) simp

lemma prefines_stream_close: "prefines b (stream_close h b)"
  by (rule refines_prefines[OF refines_stream_close]) simp

lemma prefines_audio_cancel: "prefines b (audio_cancel a b)"
  by (rule refines_prefines[OF refines_audio_cancel]) simp

lemma prefines_audio_cancel_opt: "prefines b (audio_cancel_opt x b)"
  by (rule refines_prefines[OF refines_audio_cancel_opt]) simp

lemma prefines_tell_push:
  assumes "pu_open (br_push b)" "pu_no (br_push b) = Some n" "of_turn n m"
  shows "prefines b (tell m b)"
proof -
  have "pstep (proto_of b) (p_say m (proto_of b))" using assms by (intro p_push_msg[of _ n]) simp_all
  then show ?thesis by (auto simp: prefines_def audio_ok_def kept_turns_def)
qed

lemma proto_push [simp]:
  "proto_of (upd_push f b) = (proto_of b)\<lparr>p_open := pu_open (f (br_push b)), p_pno := pu_no (f (br_push b))\<rparr>"
  by (simp add: proto_of_def upd_push_def)

lemma upd_push_fields [simp]:
  "br_push (upd_push f b) = f (br_push b)" "br_turns (upd_push f b) = br_turns b"
  "br_audios (upd_push f b) = br_audios b" "br_life (upd_push f b) = br_life b"
  "br_ctl (upd_push f b) = br_ctl b" "br_lock (upd_push f b) = br_lock b"
  "br_active (upd_push f b) = br_active b" "br_backlog (upd_push f b) = br_backlog b"
  "br_link (upd_push f b) = br_link b" "br_seq (upd_push f b) = br_seq b"
  "br_active_no (upd_push f b) = br_active_no b" "br_streams (upd_push f b) = br_streams b"
  by (simp_all add: upd_push_def)

lemma upd_backlog_fields [simp]:
  "br_push (upd_backlog f b) = br_push b" "br_turns (upd_backlog f b) = br_turns b"
  "br_audios (upd_backlog f b) = br_audios b" "br_life (upd_backlog f b) = br_life b"
  "br_ctl (upd_backlog f b) = br_ctl b" "br_lock (upd_backlog f b) = br_lock b"
  "br_active (upd_backlog f b) = br_active b" "br_backlog (upd_backlog f b) = f (br_backlog b)"
  "br_link (upd_backlog f b) = br_link b" "proto_of (upd_backlog f b) = proto_of b"
  by (simp_all add: upd_backlog_def proto_of_def)

lemma prefines_close_push: "prefines b (snd (close_push_turn n b))"
proof (cases "pu_open (br_push b) \<and> pu_no (br_push b) = Some n")
  case True
  then have st: "pstep (proto_of b) (p_say (CTurnEnd n) ((proto_of b)\<lparr>p_open := False\<rparr>))"
    by (intro p_push_close) simp_all
  have eq: "proto_of (upd_push (\<lambda>p. p\<lparr>pu_open := False, pu_opened_at := None\<rparr>) b) =
      (proto_of b)\<lparr>p_open := False\<rparr>"
    by (simp add: proto_of_def)
  have "snd (close_push_turn n b) = tell (CTurnEnd n) (upd_push (\<lambda>p. p\<lparr>pu_open := False, pu_opened_at := None\<rparr>) b)"
    using True by (simp add: close_push_turn_def)
  then have "pstep (proto_of b) (proto_of (snd (close_push_turn n b)))"
    using st by (simp only: proto_tell eq)
  then show ?thesis using True by (auto simp: prefines_def close_push_turn_def audio_ok_def kept_turns_def)
qed (auto simp: close_push_turn_def)

lemma close_push_closes: "pu_no (br_push b) = Some n \<Longrightarrow> \<not> pu_open (br_push (snd (close_push_turn n b)))"
  by (auto simp: close_push_turn_def)

lemma prefines_drop:
  "drop_push_tts b = DropNothing b1 \<Longrightarrow> prefines b b1"
  "drop_push_tts b = DropWaits h b1 \<Longrightarrow> prefines b b1"
  "drop_push_tts b = DropCloses b1 \<Longrightarrow> prefines b b1"
proof -
  let ?u = "upd_stats (\<lambda>s. s\<lparr>ps_dropped := True\<rparr>) (upd_push (\<lambda>p. p\<lparr>pu_tts := None, pu_audio := None\<rparr>) b)"
  have u: "prefines b ?u" by (rule prefines_trans[OF prefines_push prefines_stats]) simp
  show "drop_push_tts b = DropNothing b1 \<Longrightarrow> prefines b b1"
    "drop_push_tts b = DropWaits h b1 \<Longrightarrow> prefines b b1"
    "drop_push_tts b = DropCloses b1 \<Longrightarrow> prefines b b1"
    using prefines_trans[OF u prefines_stream_close] prefines_trans[OF u prefines_audio_cancel_opt]
    by (auto simp: drop_push_tts_def Let_def split: option.splits if_splits)
qed

section \<open>The worker\<close>

lemma prefines_end_finish: "prefines b (push_end_finish now n b)"
proof -
  have "prefines b (note_event now st m (upd_push (\<lambda>p. p\<lparr>pu_stats := None\<rparr>) b))" for st m
    by (rule prefines_trans[OF prefines_push prefines_note]) simp
  moreover have "prefines b (upd_push (\<lambda>p. p\<lparr>pu_stats := None\<rparr>) b)" by (rule prefines_push) simp
  ultimately have "prefines b (case pu_stats (br_push b) of
      None \<Rightarrow> upd_push (\<lambda>p. p\<lparr>pu_stats := None\<rparr>) b
    | Some s \<Rightarrow> note_event now ''push_tts'' (push_stats_meta s) (upd_push (\<lambda>p. p\<lparr>pu_stats := None\<rparr>) b))"
    by (simp split: option.split)
  then show ?thesis
    unfolding push_end_finish_def Let_def
    using prefines_trans[OF prefines_trans[OF _ prefines_close_push] prefines_next] by blast
qed

lemma prefines_end_close: "prefines b (push_end_close now n t0 b)"
proof -
  let ?b1 = "add_drain_ms now t0 (upd_push (\<lambda>p. p\<lparr>pu_audio := None\<rparr>) b)"
  have 1: "prefines b ?b1" by (rule prefines_trans[OF prefines_push prefines_ms(3)]) simp
  then show ?thesis
    unfolding push_end_close_def Let_def
    using prefines_trans[OF 1 prefines_end_finish]
      prefines_trans[OF 1 prefines_trans[OF prefines_stream_close prefines_worker_at]]
    by (simp split: option.split)
qed

lemma prefines_drain_check: "prefines b (push_drain_check c now n t0 a b)"
  using prefines_trans[OF prefines_audio_cancel prefines_worker_at] prefines_worker_at prefines_end_close
  by (simp add: push_drain_check_def Let_def)

lemma prefines_end_drain: "prefines b (push_end_drain c now n b)"
proof -
  have "prefines b (push_drain_check c now n now a (upd_push (\<lambda>p. p\<lparr>pu_progress := Some now\<rparr>) b))" for a
    by (rule prefines_trans[OF prefines_push prefines_drain_check]) simp
  then show ?thesis by (auto simp: push_end_drain_def prefines_end_close split: option.split)
qed

lemma prefines_turn_end: "prefines b (push_turn_end c now b)"
  by (auto simp: push_turn_end_def prefines_next prefines_worker_at prefines_end_drain split: option.split)

lemma prefines_after_drop: "prefines b (after_push_drop c now k t0 b)"
  using prefines_trans[OF prefines_ms(1) prefines_next] prefines_trans[OF prefines_ms(2) prefines_end_drain]
  by (auto simp: after_push_drop_def split: option.split)

lemma prefines_worker_drop: "prefines b (worker_drop c now k t0 b)"
  using prefines_trans[OF prefines_drop(1) prefines_after_drop]
    prefines_trans[OF prefines_drop(2) prefines_worker_at]
    prefines_trans[OF prefines_drop(3) prefines_worker_at]
  by (cases "drop_push_tts b") (simp_all add: worker_drop_def)

lemma prefines_drop_cancelled: "prefines b (drop_cancelled now k t0 b)"
  using prefines_trans[OF prefines_ms(1) prefines_cancelled(1)] prefines_trans[OF prefines_ms(2) prefines_cancelled(1)]
  by (auto simp: drop_cancelled_def split: option.split)

text \<open>Opening a push; only the worker does it, and not over a running turn.\<close>

lemma push_start_open:
  assumes "\<not> pu_open (br_push b)" "no_turn_running (proto_of b)"
  defines "n \<equiv> Suc (br_seq b)"
  shows "pstep (proto_of b) (proto_of (tell (CTurnStart n (turn_seq n))
      (upd_push (\<lambda>p. p\<lparr>pu_no := Some n, pu_key := Some sk, pu_open := True, pu_text := reset (pu_text p),
                        pu_opened_at := Some now, pu_stats := None\<rparr>)
         (b\<lparr>br_seq := n, br_stats := g\<rparr>))))"
proof -
  have eq: "proto_of (upd_push (\<lambda>p. p\<lparr>pu_no := Some n, pu_key := Some sk, pu_open := True,
           pu_text := reset (pu_text p), pu_opened_at := Some now, pu_stats := None\<rparr>)
         (b\<lparr>br_seq := n, br_stats := g\<rparr>)) = (proto_of b)\<lparr>p_seq := n, p_open := True, p_pno := Some n\<rparr>"
    by (simp add: proto_of_def)
  have "pstep (proto_of b) (p_say (CTurnStart n (turn_seq n))
      ((proto_of b)\<lparr>p_seq := n, p_open := True, p_pno := Some n\<rparr>))"
    using assms by (intro p_push_open) simp_all
  then show ?thesis by (simp only: proto_tell eq)
qed

text \<open>What an opening keeps: everything but the push and the backlog.\<close>

definition kept_base :: "bridge \<Rightarrow> bridge \<Rightarrow> bool" where
  "kept_base b b' \<longleftrightarrow>
     br_ctl b' = br_ctl b \<and> br_lock b' = br_lock b \<and> br_active b' = br_active b
     \<and> lf_close (br_life b') = lf_close (br_life b) \<and> lf_end_sent (br_life b') = lf_end_sent (br_life b)
     \<and> lf_closing (br_life b') = lf_closing (br_life b) \<and> lf_closed (br_life b') = lf_closed (br_life b)
     \<and> br_turns b' = br_turns b"

definition orefines :: "bridge \<Rightarrow> bridge \<Rightarrow> bool" where
  "orefines b b' \<longleftrightarrow> pstep\<^sup>*\<^sup>* (proto_of b) (proto_of b') \<and> (audio_ok b \<longrightarrow> audio_ok b') \<and> kept_base b b'"

lemma prefines_orefines: "prefines b b' \<Longrightarrow> orefines b b'"
  by (simp add: prefines_def orefines_def kept_turns_def kept_base_def)

lemma orefines_trans: "orefines a b \<Longrightarrow> orefines b c \<Longrightarrow> orefines a c"
  unfolding orefines_def kept_base_def by (auto intro: rtranclp_trans)

lemma orefines_start:
  assumes "no_turn_running (proto_of b)"
  shows "orefines b (push_turn_start c now sk b)"
proof (cases "cf_push_enabled (bc_config c) \<and> \<not> pu_open (br_push b)")
  case True
  define n where "n = Suc (br_seq b)"
  define b2 where "b2 = tell (CTurnStart n (turn_seq n))
      (upd_push (\<lambda>p. p\<lparr>pu_no := Some n, pu_key := Some sk, pu_open := True, pu_text := reset (pu_text p),
                        pu_opened_at := Some now, pu_stats := None\<rparr>)
         (b\<lparr>br_seq := n, br_stats := stats_turn_started ''push'' (br_stats b)\<rparr>))"
  have "pstep (proto_of b) (proto_of b2)"
    using push_start_open[OF _ assms] True by (simp add: b2_def n_def del: proto_push)
  then have "orefines b b2"
    by (auto simp: orefines_def audio_ok_def kept_base_def b2_def simp del: proto_push)
  moreover have "push_turn_start c now sk b = (if \<not> audio_out c then worker_next b2 else worker_at (WConnect n) b2)"
    using True by (simp add: push_turn_start_def b2_def n_def Let_def)
  ultimately show ?thesis
    using orefines_trans prefines_orefines[OF prefines_next] prefines_orefines[OF prefines_worker_at] by simp
qed (auto simp: push_turn_start_def prefines_next prefines_orefines)

lemma prefines_connected: "prefines b (push_connected now n ok b)"
proof -
  obtain h b1 where o: "stream_open b = (h, b1)" by fastforce
  have b1: "prefines b b1" "br_push b1 = br_push b"
    using o refines_prefines[OF refines_stream_open[of b]] by (auto simp: stream_open_def)
  obtain a b2 where s: "spawn_audio None n h b1 = (a, b2)" by fastforce
  let ?b3 = "upd_push (\<lambda>p. p\<lparr>pu_tts := Some h, pu_audio := Some a, pu_progress := Some now,
      pu_stats := Some \<lparr>ps_send_ms = 0, ps_end_ms = 0, ps_drain_ms = 0, ps_close_ms = 0,
                        ps_dropped = False, ps_chars = 0\<rparr>\<rparr>) b2"
  have "prefines b1 ?b3" if "pu_open (br_push b1)" "pu_no (br_push b1) = Some n"
  proof -
    have p: "proto_of b2 = (proto_of b1)\<lparr>p_audios := p_audios (proto_of b1) @ [(None, n, True)]\<rparr>"
      using s by (auto simp: spawn_audio_def proto_of_def audio_abs_def)
    have "pstep (proto_of b1) (proto_of b2)" unfolding p using that by (intro p_spawn_push) simp_all
    moreover have "audio_ok b1 \<Longrightarrow> audio_ok b2"
      using s by (auto simp: spawn_audio_def audio_ok_def nth_append less_Suc_eq)
    moreover have "kept_turns b1 b2" using s by (auto simp: spawn_audio_def kept_turns_def)
    ultimately have "prefines b1 b2" by (simp add: prefines_def r_into_rtranclp)
    then show ?thesis by (rule prefines_trans[OF _ prefines_push]) simp
  qed
  then have "prefines b (worker_next ?b3)" if "pu_open (br_push b1) \<and> pu_no (br_push b1) = Some n"
    using that b1(1) prefines_next prefines_trans by blast
  moreover have "prefines b (worker_at WCutClose (stream_close h b1))"
    using b1(1) prefines_trans prefines_stream_close prefines_worker_at by blast
  ultimately show ?thesis
    using prefines_next[of b] by (simp add: push_connected_def o s del: de_Morgan_conj)
qed

lemma pinv_push_no: "pinv (proto_of b) \<Longrightarrow> pu_open (br_push b) \<Longrightarrow> \<exists>n. pu_no (br_push b) = Some n"
  by (auto simp: pinv_def push_inv_def)

lemma prefines_deliver:
  assumes "pinv (proto_of b)"
  shows "prefines b (deliver_push c now payload b)"
proof (cases "push_allowed c b")
  case True
  obtain delta x where f: "feed payload (pu_text (br_push b)) = (delta, x)" by fastforce
  define b1 where "b1 = upd_push (\<lambda>p. p\<lparr>pu_text := x\<rparr>) b"
  define b2 where "b2 = (if text_out c then tell (CToken (pu_no (br_push b1)) delta) b1 else b1)"
  have 1: "prefines b b1" unfolding b1_def by (rule prefines_push) simp
  have op: "pu_open (br_push b1)" using True by (simp add: b1_def push_allowed_def)
  obtain n where "pu_no (br_push b1) = Some n"
    using pinv_push_no[OF assms] True by (auto simp: b1_def push_allowed_def)
  then have 2: "prefines b1 b2" using prefines_tell_push[OF op] by (simp add: b2_def)
  note 12 = prefines_trans[OF 1 2]
  show ?thesis
    using True f prefines_trans[OF 1 prefines_next] prefines_trans[OF 12 prefines_next]
      prefines_trans[OF 12 prefines_trans[OF prefines_stats prefines_worker_at]]
    unfolding deliver_push_def b2_def b1_def by (simp add: Let_def)
qed (simp add: deliver_push_def prefines_next)

lemma prefines_tool:
  assumes "pinv (proto_of b)"
  shows "prefines b (deliver_push_tool_call c data b)"
proof (cases "push_allowed c b")
  case True
  then obtain n where "pu_open (br_push b)" "pu_no (br_push b) = Some n"
    using pinv_push_no[OF assms] by (auto simp: push_allowed_def)
  then have "prefines b (worker_next (tell (CTool (pu_no (br_push b)) tc) b))" for tc
    by (intro prefines_trans[OF prefines_tell_push prefines_next]) simp_all
  then show ?thesis
    by (simp add: deliver_push_tool_call_def prefines_next split: json.split sum.split option.split)
qed (simp add: deliver_push_tool_call_def prefines_next)

text \<open>One step of the worker. Only an opening needs the turn lock to be free.\<close>

definition may_open :: "bridge \<Rightarrow> resume \<Rightarrow> bool" where
  "may_open b r \<longleftrightarrow> (case bl_pc (br_backlog b) of WLock sk \<Rightarrow> True | _ \<Rightarrow> False) \<and> r = RGo"

lemma may_open_iff: "may_open b r \<longleftrightarrow> (\<exists>sk. bl_pc (br_backlog b) = WLock sk) \<and> r = RGo"
  by (simp add: may_open_def split: push_pc.split)

lemma not_running:
  assumes "pinv (proto_of b)" "\<not> turn_running b"
  shows "no_turn_running (proto_of b)"
  unfolding no_turn_running_nth
proof (intro allI impI, rule ccontr)
  fix i assume i: "i < length (p_turns (proto_of b))" "fst (p_turns (proto_of b) ! i) \<noteq> SDone"
  then have "br_active b = Some i" using pinv_unique(1)[OF assms(1)] by simp
  then show False using i assms(2) by (simp add: turn_running_def turn_done_def the_turn_def turn_abs_def)
qed

lemma worker_event_refines:
  assumes "pinv (proto_of b)"
  shows "prefines b (worker_event c now k b)"
  using assms
  by (cases k) (simp_all add: worker_event_def prefines_worker_at prefines_deliver prefines_tool
      prefines_turn_end prefines_next)

lemma worker_refines:
  assumes "pinv (proto_of b)" "\<not> may_open b r"
  shows "prefines b (worker_step c now r b)"
proof (cases "bl_pc (br_backlog b)")
  case WGet
  have "prefines b (worker_event c now k (upd_backlog f b))" for k f
    by (rule prefines_trans[OF prefines_backlog worker_event_refines]) (simp add: assms(1))
  then show ?thesis using WGet
    by (cases r) (simp_all add: worker_step_def prefines_cancelled split: list.split)
next
  case (WLock sk)
  then show ?thesis using assms(2)
    by (cases r) (simp_all add: worker_step_def may_open_iff prefines_cancelled)
next
  case (WSend t0)
  then show ?thesis
    by (cases r) (simp_all add: worker_step_def prefines_worker_drop
        prefines_trans[OF prefines_ms(1) prefines_next] prefines_trans[OF prefines_ms(1) prefines_cancelled(1)])
next
  case (WEnd n t0)
  then show ?thesis
    by (cases r) (simp_all add: worker_step_def prefines_worker_drop
        prefines_trans[OF prefines_ms(2) prefines_end_drain] prefines_trans[OF prefines_ms(2) prefines_cancelled(1)])
next
  case (WClose n t0)
  have "prefines b (push_end_finish now n (add_close_ms now t0 (upd_push (\<lambda>p. p\<lparr>pu_tts := None\<rparr>) b)))"
    by (rule prefines_trans[OF prefines_trans[OF prefines_push prefines_ms(4)] prefines_end_finish]) simp
  then show ?thesis using WClose by (cases r) (simp_all add: worker_step_def prefines_cancelled)
next
  case (WDropAudio h k t0)
  then show ?thesis
    by (cases r) (simp_all add: worker_step_def prefines_drop_cancelled
        prefines_trans[OF prefines_stream_close prefines_worker_at])
qed (cases r; simp add: worker_step_def prefines_cancelled prefines_worker_at prefines_connected prefines_next
    prefines_after_drop prefines_drop_cancelled prefines_drain_check prefines_end_close)+

lemma worker_open_refines:
  assumes "pinv (proto_of b)" "may_open b r"
  shows "orefines b (worker_step c now r b)"
  using assms not_running[OF assms(1)]
  by (auto simp: may_open_iff worker_step_def orefines_start prefines_orefines prefines_worker_at)

end
