(* ===== verification/Bridge_Refine_Control.thy ===== *)
theory Bridge_Refine_Control
  imports Bridge_Refine_Push
begin

text \<open>
  The tasks that take \<open>_turn_lock\<close> and \<open>close_all\<close>: the invariant that ties the lock, the suspension
  points of its holder and the push being cut together, and the refinement of every step.
\<close>

section \<open>Cutting\<close>

fun cut_no :: "cut_pc \<Rightarrow> nat" where
  "cut_no (CuAudio n h) = n"
| "cut_no (CuClose n) = n"
| "cut_no (CuAbort n) = n"

fun cut_state :: "cut_result \<Rightarrow> bridge" where
  "cut_state (CutReturns x b) = b"
| "cut_state (CutWaits pc b) = b"
| "cut_state (CutRaises e b) = b"

definition only_push :: "nat \<Rightarrow> bridge \<Rightarrow> bool" where
  "only_push n b \<longleftrightarrow> (pu_open (br_push b) \<longrightarrow> pu_no (br_push b) = Some n)"

lemma only_push_prefines: "prefines b b' \<Longrightarrow> only_push n b \<Longrightarrow> only_push n b'"
  by (auto simp: prefines_def kept_turns_def only_push_def)

text \<open>A cut closes nothing but the push it was started for, and returns with it closed.\<close>

definition cut_good :: "nat \<Rightarrow> bridge \<Rightarrow> cut_result \<Rightarrow> bool" where
  "cut_good n b r \<longleftrightarrow> prefines b (cut_state r) \<and>
     (case r of
        CutReturns x b1 \<Rightarrow> only_push n b \<longrightarrow> \<not> pu_open (br_push b1)
      | CutWaits pc b1 \<Rightarrow> cut_no pc = n
      | CutRaises e b1 \<Rightarrow> True)"

lemma cut_finish_good: "cut_good n b (cut_finish n b)"
  using close_push_closes[of b n] prefines_close_push[of b n]
  by (cases "pu_open (br_push b)")
     (auto simp: cut_good_def cut_finish_def only_push_def close_push_turn_def)

lemma cut_abort_good: "cut_good n b (cut_abort c n b)"
  using cut_finish_good by (simp add: cut_abort_def) (simp add: cut_good_def)

lemma cut_good_trans: "prefines b b1 \<Longrightarrow> cut_good n b1 r \<Longrightarrow> cut_good n b r"
  by (auto simp: cut_good_def only_push_prefines split: cut_result.splits intro: prefines_trans)

lemma cut_step_good: "cut_good (cut_no pc) b (cut_step c r pc b)"
proof (cases pc)
  case (CuAudio n h)
  then show ?thesis
    by (cases r) (simp_all add: cut_step_def cut_good_def prefines_stream_close)
next
  case (CuClose n)
  then show ?thesis
    using cut_abort_good[of n b c] by (cases r) (auto simp: cut_step_def cut_good_def)
next
  case (CuAbort n)
  then show ?thesis
    using cut_finish_good[of n b] by (cases r) (auto simp: cut_step_def cut_good_def)
qed

lemma cut_push_good:
  "prefines b (cut_state (cut_push c e b)) \<and>
   (case cut_push c e b of
      CutReturns x b1 \<Rightarrow> e = None \<longrightarrow> pinv (proto_of b) \<longrightarrow> \<not> pu_open (br_push b1)
    | CutWaits pc b1 \<Rightarrow> only_push (cut_no pc) b1
    | CutRaises _ b1 \<Rightarrow> True)"
proof (cases "pu_no (br_push b)")
  case None
  then show ?thesis using pinv_push_no[of b] by (auto simp: cut_push_def)
next
  case (Some n)
  show ?thesis
  proof (cases "\<not> pu_open (br_push b) \<or> (e \<noteq> None \<and> e \<noteq> Some n)")
    case True
    then show ?thesis using Some by (auto simp: cut_push_def)
  next
    case False
    have op: "only_push n b" using Some by (simp add: only_push_def)
    have g: "cut_good n b (cut_push c e b)"
    proof (cases "drop_push_tts b")
      case (DropNothing b1)
      then have "cut_push c e b = cut_abort c n b1" using Some False by (auto simp: cut_push_def)
      then show ?thesis using cut_good_trans[OF prefines_drop(1)[OF DropNothing] cut_abort_good] by simp
    next
      case (DropWaits h b1)
      then have "cut_push c e b = CutWaits (CuAudio n h) b1" using Some False by (auto simp: cut_push_def)
      then show ?thesis using prefines_drop(2)[OF DropWaits] by (simp add: cut_good_def)
    next
      case (DropCloses b1)
      then have "cut_push c e b = CutWaits (CuClose n) b1" using Some False by (auto simp: cut_push_def)
      then show ?thesis using prefines_drop(3)[OF DropCloses] by (simp add: cut_good_def)
    qed
    then have "prefines b (cut_state (cut_push c e b))" by (simp add: cut_good_def)
    then show ?thesis using g op only_push_prefines[OF _ op]
      by (auto simp: cut_good_def split: cut_result.splits)
  qed
qed

section \<open>The turn lock\<close>

fun holds_lock :: "ctl_pc \<Rightarrow> bool" where
  "holds_lock (CStartWait _ _ _) = True"
| "holds_lock (CStartCut _ _) = True"
| "holds_lock (CCancelWait _ _ _ _) = True"
| "holds_lock (CCut _ _ _) = True"
| "holds_lock _ = False"

definition lock_inv :: "bridge \<Rightarrow> bool" where
  "lock_inv b \<longleftrightarrow> length (br_ctl b) = 2 \<and> (\<forall>k<2. holds_lock (br_ctl b ! k) \<longleftrightarrow> br_lock b = Some k)"

fun start_ok :: "bridge \<Rightarrow> ctl_pc \<Rightarrow> bool" where
  "start_ok b (CStartWait x i noted) = (br_active b = Some i)"
| "start_ok b (CStartCut x pc) = (\<not> turn_running b \<and> only_push (cut_no pc) b)"
| "start_ok b _ = True"

definition start_inv :: "bridge \<Rightarrow> bool" where
  "start_inv b \<longleftrightarrow> (\<forall>k<2. start_ok b (br_ctl b ! k))"

definition active_inv :: "bridge \<Rightarrow> bool" where
  "active_inv b \<longleftrightarrow> (\<forall>i. br_active b = Some i \<longrightarrow> i < length (br_turns b))"

fun before_turn :: "close_pc \<Rightarrow> bool" where
  "before_turn XNone = True"
| "before_turn (XTurn s i) = True"
| "before_turn _ = False"

definition close_inv :: "bridge \<Rightarrow> bool" where
  "close_inv b \<longleftrightarrow> (before_turn (lf_close (br_life b)) \<longrightarrow> lf_end_sent (br_life b) = None)"

definition good :: "bridge \<Rightarrow> bool" where
  "good b \<longleftrightarrow> pinv (proto_of b) \<and> audio_ok b \<and> lock_inv b \<and> start_inv b \<and> active_inv b \<and> close_inv b"

lemmas good_defs = lock_inv_def start_inv_def active_inv_def close_inv_def

text \<open>A task without the lock is not at a point \<open>start_ok\<close> speaks of.\<close>

lemma start_ok_free: "\<not> holds_lock pc \<Longrightarrow> start_ok b pc"
  by (cases pc) simp_all

lemma turn_running_kept:
  assumes "br_active b' = br_active b" "\<And>j. turn_done b j \<Longrightarrow> turn_done b' j"
  shows "\<not> turn_running b \<Longrightarrow> \<not> turn_running b'"
  using assms by (auto simp: turn_running_def split: option.splits)

lemma start_ok_mono:
  assumes "start_ok b pc" "br_active b' = br_active b" "\<And>j. turn_done b j \<Longrightarrow> turn_done b' j"
    "\<And>n. only_push n b \<Longrightarrow> only_push n b'"
  shows "start_ok b' pc"
  using assms turn_running_kept[OF assms(2,3)] by (cases pc) auto

lemma refines_good:
  assumes "refines b b'" "good b"
  shows "good b'"
proof -
  have k: "kept b b'" using assms(1) by (simp add: refines_def)
  then have "start_ok b pc \<Longrightarrow> start_ok b' pc" for pc
    by (auto simp: kept_def kept_points_def turn_done_def the_turn_def only_push_def intro: start_ok_mono)
  then have "start_inv b'" using assms(2) k by (simp add: good_def start_inv_def kept_def)
  moreover have "lock_inv b'" "active_inv b'" "close_inv b'"
    using assms(2) k by (simp_all add: good_def good_defs kept_def kept_points_def)
  moreover have "pinv (proto_of b')" "audio_ok b'"
    using assms psteps_pinv by (auto simp: refines_def good_def)
  ultimately show ?thesis by (simp add: good_def)
qed

lemma prefines_good:
  assumes "prefines b b'" "good b"
  shows "good b'"
proof -
  have k: "kept_turns b b'" using assms(1) by (simp add: prefines_def)
  then have "start_ok b pc \<Longrightarrow> start_ok b' pc" for pc
    using only_push_prefines[OF assms(1)]
    by (auto simp: kept_turns_def turn_done_def the_turn_def intro: start_ok_mono)
  then have "start_inv b'" using assms(2) k by (simp add: good_def start_inv_def kept_turns_def)
  moreover have "lock_inv b'" "active_inv b'" "close_inv b'"
    using assms(2) k by (simp_all add: good_def good_defs kept_turns_def)
  moreover have "pinv (proto_of b')" "audio_ok b'"
    using assms psteps_pinv by (auto simp: prefines_def good_def)
  ultimately show ?thesis by (simp add: good_def)
qed

text \<open>Opening a push needs the free lock: then no task is at a point \<open>start_ok\<close> speaks of.\<close>

lemma orefines_good:
  assumes "orefines b b'" "good b" "br_lock b = None"
  shows "good b'"
proof -
  have k: "kept_base b b'" using assms(1) by (simp add: orefines_def)
  have "\<forall>k<2. \<not> holds_lock (br_ctl b ! k)" using assms(2,3) by (simp add: good_def lock_inv_def)
  then have "start_inv b'" using k by (simp add: start_inv_def kept_base_def start_ok_free)
  moreover have "lock_inv b'" "active_inv b'" "close_inv b'"
    using assms(2) k by (simp_all add: good_def good_defs kept_base_def)
  moreover have "pinv (proto_of b')" "audio_ok b'"
    using assms psteps_pinv by (auto simp: orefines_def good_def)
  ultimately show ?thesis by (simp add: good_def)
qed

section \<open>Tasks that take the lock\<close>

definition reaches :: "bridge \<Rightarrow> bridge \<Rightarrow> bool" where
  "reaches b b' \<longleftrightarrow> pstep\<^sup>*\<^sup>* (proto_of b) (proto_of b') \<and> good b'"

lemma reaches_refl: "good b \<Longrightarrow> reaches b b"
  by (simp add: reaches_def)

lemma reaches_refines: "refines b b' \<Longrightarrow> good b \<Longrightarrow> reaches b b'"
  using refines_good by (simp add: reaches_def refines_def)

lemma reaches_prefines: "prefines b b' \<Longrightarrow> good b \<Longrightarrow> reaches b b'"
  using prefines_good by (simp add: reaches_def prefines_def)

text \<open>
  Task \<open>k\<close> works on the state between two of its suspension points: \<open>b1\<close> comes from the good state
  \<open>b\<close>, in which no other task holds the lock.
\<close>

definition working :: "nat \<Rightarrow> bridge \<Rightarrow> bridge \<Rightarrow> bool" where
  "working k b b1 \<longleftrightarrow>
     good b \<and> k < 2 \<and> (br_lock b = None \<or> br_lock b = Some k) \<and> pstep\<^sup>*\<^sup>* (proto_of b) (proto_of b1)
     \<and> audio_ok b1 \<and> br_ctl b1 = br_ctl b \<and> lf_close (br_life b1) = lf_close (br_life b)
     \<and> lf_end_sent (br_life b1) = lf_end_sent (br_life b) \<and> active_inv b1"

lemma ctl_ops [simp]:
  "proto_of (ctl_at k pc b) = proto_of b" "audio_ok (ctl_at k pc b) = audio_ok b"
  "br_lock (ctl_at k pc b) = br_lock b" "br_life (ctl_at k pc b) = br_life b"
  "br_turns (ctl_at k pc b) = br_turns b" "br_active (ctl_at k pc b) = br_active b"
  "br_push (ctl_at k pc b) = br_push b" "br_ctl (ctl_at k pc b) = (br_ctl b)[k := pc]"
  "proto_of (b\<lparr>br_lock := l\<rparr>) = proto_of b" "audio_ok (b\<lparr>br_lock := l\<rparr>) = audio_ok b"
  by (simp_all add: ctl_at_def proto_of_def audio_ok_def)

lemma lock_ops: "lock_take k b = b\<lparr>br_lock := Some k\<rparr>" "lock_release b = b\<lparr>br_lock := None\<rparr>"
  by (simp_all add: lock_take_def lock_release_def)

lemma turn_running_ctl [simp]:
  "turn_running (ctl_at k pc b) = turn_running b" "turn_running (b\<lparr>br_lock := l\<rparr>) = turn_running b"
  "turn_running (b\<lparr>br_push := p\<rparr>) = turn_running b" "turn_running (tell m b) = turn_running b"
  "turn_running (note_event now st meta b) = turn_running b"
  by (simp_all add: turn_running_def turn_done_def the_turn_def split: option.split)

lemma start_ok_ctl [simp]:
  "start_ok (ctl_at k pc b) pc' = start_ok b pc'" "start_ok (b\<lparr>br_lock := l\<rparr>) pc' = start_ok b pc'"
  by (cases pc'; simp add: only_push_def)+

lemma active_inv_ctl [simp]:
  "active_inv (ctl_at k pc b) = active_inv b" "active_inv (b\<lparr>br_lock := l\<rparr>) = active_inv b"
  by (simp_all add: active_inv_def)

lemma working_lock [simp]: "working k b (b1\<lparr>br_lock := l\<rparr>) = working k b b1"
  by (simp add: working_def)

lemma working_end:
  assumes "working k b b1" "start_ok b1 pc"
  shows "reaches b (ctl_at k pc (b1\<lparr>br_lock := (if holds_lock pc then Some k else None)\<rparr>))" (is "reaches b ?c")
proof -
  have w: "good b" "k < 2" "br_lock b = None \<or> br_lock b = Some k" "pstep\<^sup>*\<^sup>* (proto_of b) (proto_of b1)"
    "audio_ok b1" "br_ctl b1 = br_ctl b" "active_inv b1"
    "lf_close (br_life b1) = lf_close (br_life b)" "lf_end_sent (br_life b1) = lf_end_sent (br_life b)"
    using assms(1) by (simp_all add: working_def)
  have li: "length (br_ctl b) = 2" "\<forall>j<2. holds_lock (br_ctl b ! j) \<longleftrightarrow> br_lock b = Some j"
    using w(1) by (simp_all add: good_def lock_inv_def)
  have others: "j < 2 \<Longrightarrow> j \<noteq> k \<Longrightarrow> \<not> holds_lock (br_ctl b ! j)" for j
    using li(2) w(3) by auto
  have "lock_inv ?c" using li w(2,6) others by (auto simp: lock_inv_def nth_list_update)
  moreover have "start_inv ?c"
    using li w(2,6) others assms(2) by (auto simp: start_inv_def nth_list_update start_ok_free)
  moreover have "close_inv ?c" using w by (simp add: good_def close_inv_def)
  moreover have "pinv (proto_of ?c)" using w(1,4) psteps_pinv by (simp add: good_def)
  ultimately show ?thesis using w by (simp add: reaches_def good_def)
qed

text \<open>The task keeps the lock.\<close>

lemma working_stay:
  assumes "working k b b1" "start_ok b1 pc" "holds_lock pc" "br_lock b1 = Some k"
  shows "reaches b (ctl_at k pc b1)"
proof -
  have eq: "b1\<lparr>br_lock := Some k\<rparr> = b1" using assms(4) by simp
  show ?thesis using working_end[OF assms(1,2)] assms(3) by (simp only: if_True eq)
qed

lemma working_start:
  "good b \<Longrightarrow> k < 2 \<Longrightarrow> br_lock b = None \<or> br_lock b = Some k \<Longrightarrow> working k b b"
  by (simp add: working_def good_def)

lemma working_prefines: "working k b b1 \<Longrightarrow> prefines b1 b2 \<Longrightarrow> working k b b2"
  by (auto simp: working_def prefines_def kept_turns_def active_inv_def intro: rtranclp_trans)

lemma working_pinv: "working k b b1 \<Longrightarrow> pinv (proto_of b1)"
  using psteps_pinv by (auto simp: working_def good_def)

lemma good_ctl_plain:
  assumes "good b" "\<not> holds_lock (br_ctl b ! k)" "\<not> holds_lock pc"
  shows "good (ctl_at k pc b)"
proof (cases "k < 2")
  case True
  then show ?thesis using assms
    by (auto simp: good_def good_defs nth_list_update start_ok_free)
next
  case False
  then have "ctl_at k pc b = b" using assms(1) by (simp add: ctl_at_def good_def lock_inv_def list_update_beyond)
  then show ?thesis using assms(1) by simp
qed

text \<open>A task that does not hold the lock moves to a point where it does not hold it.\<close>

lemma plain_end:
  assumes "prefines b b1" "good b" "\<not> holds_lock (br_ctl b ! k)" "\<not> holds_lock pc"
  shows "reaches b (ctl_at k pc b1)"
proof -
  have "br_ctl b1 = br_ctl b" using assms(1) by (simp add: prefines_def kept_turns_def)
  then show ?thesis
    using good_ctl_plain[of b1 k pc] prefines_good[OF assms(1,2)] assms by (simp add: reaches_def prefines_def)
qed

lemma prefines_reason: "prefines b (note_close_reason r b)"
  by (rule prefines_same) (auto simp: note_close_reason_def proto_of_def kept_turns_def)

lemma ctl_raise_pc: "\<exists>pc b1. ctl_raise k e b = ctl_at k pc b1 \<and> \<not> holds_lock pc \<and> prefines b b1 \<and> br_lock b1 = br_lock b"
proof -
  have l: "br_lock (note_close_reason r b) = br_lock b" for r by (simp add: note_close_reason_def)
  define b1 where "b1 = (if k = input_task \<and> is_Exception e then note_close_reason (Some ''error'') b else b)"
  define pc where "pc = (if k \<noteq> input_task \<and> is_Exception e then CIdle else COver)"
  have "ctl_raise k e b = ctl_at k pc b1" by (simp add: ctl_raise_def b1_def pc_def)
  moreover have "\<not> holds_lock pc" "prefines b b1" "br_lock b1 = br_lock b"
    by (simp_all add: pc_def b1_def prefines_reason l)
  ultimately show ?thesis by blast
qed

lemma working_raise:
  assumes "working k b b1"
  shows "reaches b (ctl_raise k e (lock_release b1))"
proof -
  obtain pc b2 where r: "ctl_raise k e (lock_release b1) = ctl_at k pc b2" "\<not> holds_lock pc"
    "prefines (lock_release b1) b2" "br_lock b2 = None"
    using ctl_raise_pc[of k e "lock_release b1"] by (auto simp: lock_ops)
  then have w: "working k b b2" using working_prefines[of k b "lock_release b1" b2] assms by (simp add: lock_ops)
  have eq: "b2\<lparr>br_lock := None\<rparr> = b2" using r(4) by simp
  show ?thesis
    using working_end[OF w start_ok_free[OF r(2)]] unfolding r(1) by (simp only: r(2) if_False eq)
qed

lemma plain_raise:
  assumes "good b" "\<not> holds_lock (br_ctl b ! k)"
  shows "reaches b (ctl_raise k e b)"
  using ctl_raise_pc[of k e b] plain_end assms by metis

section \<open>Starting and cancelling a turn\<close>

lemma audio_ok_append:
  "audio_ok b \<Longrightarrow> audio_ok (b\<lparr>br_turns := br_turns b @ ts, br_active := x, br_active_at := y\<rparr>)"
  by (auto simp: audio_ok_def nth_append)

lemma working_create:
  assumes "working k b b1" "\<not> turn_running b1" "\<not> pu_open (br_push b1)"
  shows "reaches b (start_create now k x b1)"
proof -
  define b2 where "b2 = (if lf_closing (br_life b1) then b1
      else b1\<lparr>br_turns := br_turns b1 @ [new_turn x], br_active := Some (length (br_turns b1)), br_active_at := Some now\<rparr>)"
  have "pstep\<^sup>*\<^sup>* (proto_of b1) (proto_of b2)"
  proof (cases "lf_closing (br_life b1)")
    case False
    then have "proto_of b2 = (proto_of b1)\<lparr>p_turns := p_turns (proto_of b1) @ [(SNew, 0)],
        p_active := Some (length (p_turns (proto_of b1)))\<rparr>"
      by (simp add: b2_def proto_of_def turn_abs_def new_turn_def)
    moreover have "no_turn_running (proto_of b1)" using not_running working_pinv assms(1,2) by blast
    ultimately show ?thesis using p_create[of "proto_of b1"] assms(3) by (simp add: r_into_rtranclp)
  qed (simp add: b2_def)
  moreover have "audio_ok b2" "br_ctl b2 = br_ctl b1" "br_life b2 = br_life b1" "active_inv b2"
    using assms(1) audio_ok_append[of b1] by (auto simp: b2_def working_def active_inv_def)
  ultimately have w: "working k b b2" using assms(1) by (auto simp: working_def)
  have "start_create now k x b1 = ctl_at k CIdle (b2\<lparr>br_lock := None\<rparr>)"
    by (simp add: start_create_def b2_def lock_ops Let_def)
  then show ?thesis using working_end[OF w, of CIdle] by simp
qed

lemma working_cut_result:
  assumes "working k b (cut_state r)"
    "case r of CutReturns y b1 \<Rightarrow> \<not> turn_running b1 \<and> \<not> pu_open (br_push b1)
             | CutWaits pc b1 \<Rightarrow> \<not> turn_running b1 \<and> only_push (cut_no pc) b1 \<and> br_lock b1 = Some k
             | CutRaises e b1 \<Rightarrow> True"
  shows "reaches b (start_cut_result now k x r)"
proof (cases r)
  case (CutReturns y b1)
  then show ?thesis using assms working_create by (simp add: start_cut_result_def)
next
  case (CutWaits pc b1)
  then show ?thesis using working_stay[of k b b1 "CStartCut x pc"] assms by (simp add: start_cut_result_def)
next
  case (CutRaises e b1)
  then show ?thesis using assms(1) working_raise by (simp add: start_cut_result_def)
qed

lemma prefines_running:
  assumes "prefines b b'" shows "turn_running b' = turn_running b"
  using assms
  by (simp add: prefines_def kept_turns_def turn_running_def turn_done_def the_turn_def split: option.split)

lemma prefines_lock: "prefines b b' \<Longrightarrow> br_lock b' = br_lock b"
  by (simp add: prefines_def kept_turns_def)

lemma working_start_cut:
  assumes "working k b b1" "\<not> turn_running b1" "br_lock b1 = Some k"
  shows "reaches b (start_cut c now k x b1)"
proof -
  have g: "prefines b1 (cut_state (cut_push c None b1))"
    "case cut_push c None b1 of CutReturns x b2 \<Rightarrow> \<not> pu_open (br_push b2)
       | CutWaits pc b2 \<Rightarrow> only_push (cut_no pc) b2 | CutRaises _ b2 \<Rightarrow> True"
    using cut_push_good[of b1 c None] working_pinv[OF assms(1)] by (auto split: cut_result.splits)
  have "working k b (cut_state (cut_push c None b1))" using working_prefines[OF assms(1) g(1)] .
  then show ?thesis
    unfolding start_cut_def using g assms(2,3) prefines_running[OF g(1)] prefines_lock[OF g(1)]
    by (intro working_cut_result) (auto split: cut_result.splits)
qed

text \<open>\<open>task.cancel()\<close> on a turn and forgetting a finished one.\<close>

lemma turn_cancel_fields [simp]:
  "proto_of (turn_cancel i b) = proto_of b" "br_ctl (turn_cancel i b) = br_ctl b"
  "br_life (turn_cancel i b) = br_life b" "br_active (turn_cancel i b) = br_active b"
  "br_lock (turn_cancel i b) = br_lock b" "active_inv (turn_cancel i b) = active_inv b"
  "br_push (turn_cancel i b) = br_push b" "br_audios (turn_cancel i b) = br_audios b"
  "turn_done (turn_cancel i b) j = turn_done b j" "br_backlog (turn_cancel i b) = br_backlog b"
  by (cases "i < length (br_turns b)"; cases "i = j";
      simp add: turn_cancel_def upd_turn_def proto_of_def map_turn_abs_update turn_abs_def list_update_beyond
        active_inv_def turn_done_def the_turn_def)+

lemma audio_ok_turn_cancel [simp]: "audio_ok (turn_cancel i b) \<longleftrightarrow> audio_ok b"
proof (cases "i < length (br_turns b)")
  case True
  then have "tn_audio (br_turns (turn_cancel i b) ! j) = tn_audio (br_turns b ! j)"
    "tn_tts (br_turns (turn_cancel i b) ! j) = tn_tts (br_turns b ! j)"
    "tn_pc (br_turns (turn_cancel i b) ! j) = tn_pc (br_turns b ! j)"
    "tn_no (br_turns (turn_cancel i b) ! j) = tn_no (br_turns b ! j)"
    "length (br_turns (turn_cancel i b)) = length (br_turns b)" for j
    by (auto simp: turn_cancel_def upd_turn_def nth_list_update)
  then show ?thesis by (simp add: audio_ok_def)
qed (simp add: turn_cancel_def upd_turn_def list_update_beyond)

lemma working_turn_cancel: "working k b b1 \<Longrightarrow> working k b (turn_cancel i b1)"
  by (simp add: working_def)

lemma working_forget:
  assumes "working k b b1" "turn_done b1 i"
  shows "working k b (forget_active i b1)"
proof (cases "br_active b1 = Some i")
  case True
  have "\<not> turn_running b1" using True assms(2) by (simp add: turn_running_def)
  then have "no_turn_running (proto_of b1)" using not_running working_pinv[OF assms(1)] by blast
  then have "pstep (proto_of b1) (proto_of (forget_active i b1))"
    using p_forget[of "proto_of b1"] True by (simp add: forget_active_def proto_of_def)
  then show ?thesis using assms(1) True
    by (auto simp: working_def forget_active_def active_inv_def audio_ok_def)
qed (use assms in \<open>simp add: forget_active_def\<close>)

lemma forget_fields [simp]:
  "br_lock (forget_active i b) = br_lock b" "br_active b = Some i \<Longrightarrow> \<not> turn_running (forget_active i b)"
  by (simp_all add: forget_active_def turn_running_def)

lemma start_locked_reaches:
  assumes "good b" "k < 2" "br_lock b = None" "\<not> holds_lock (br_ctl b ! k)"
  shows "reaches b (start_locked c now k x b)"
proof (cases "lf_closing (br_life b)")
  case True
  then show ?thesis using plain_end[OF prefines_refl assms(1,4), of CIdle] by (simp add: start_locked_def)
next
  case False
  have w: "working k b (lock_take k b)" using working_start assms by (simp add: lock_ops)
  have l: "br_lock (lock_take k b) = Some k" by (simp add: lock_ops)
  show ?thesis
  proof (cases "br_active b")
    case None
    then have "\<not> turn_running (lock_take k b)" by (simp add: lock_ops turn_running_def)
    then show ?thesis using working_start_cut[OF w] l None False
      by (simp add: start_locked_def Let_def) (simp add: lock_ops)
  next
    case (Some i)
    show ?thesis
    proof (cases "turn_done b i")
      case True
      then have "\<not> turn_running (lock_take k b)" using Some by (simp add: lock_ops) (simp add: turn_running_def)
      then show ?thesis using working_start_cut[OF w] l Some True False
        by (simp add: start_locked_def Let_def lock_ops turn_done_def the_turn_def)
    next
      case F: False
      have "reaches b (ctl_at k (CStartWait x i False) (turn_cancel i (lock_take k b)))"
        using working_turn_cancel[OF w] Some by (intro working_stay) (simp_all add: lock_ops)
      then show ?thesis using Some False F
        by (simp add: start_locked_def Let_def lock_ops turn_done_def the_turn_def)
    qed
  qed
qed

lemma prefines_tell: "neutral m \<Longrightarrow> prefines b (tell m b)"
  by (rule refines_prefines[OF refines_tell_neutral]) simp_all

lemma barge_done_pc: "prefines b (tell (CInterrupted i) (note_event now st meta b))"
  by (rule prefines_trans[OF prefines_note prefines_tell]) simp

lemma cancel_result_pc:
  "\<exists>pc b1. cancel_result now k kc cancelled i b = ctl_at k pc b1 \<and> \<not> holds_lock pc \<and> prefines b b1"
proof (cases kc)
  case (KCancelMsg p)
  then show ?thesis using prefines_refl[of b]
    by (cases p) (force simp: cancel_result_def)+
next
  case (KBarge p)
  then show ?thesis using prefines_refl[of b] barge_done_pc[of b i]
    by (cases cancelled; cases p) (force simp: cancel_result_def barge_done_def)+
next
  case (KFinal x)
  then show ?thesis using prefines_tell[of "CTranscription x" b] by (force simp: cancel_result_def)
qed

lemma working_cancel_result:
  assumes "working k b b1" "br_lock b1 = None"
  shows "reaches b (cancel_result now k kc cancelled i b1)"
proof -
  obtain pc b2 where r: "cancel_result now k kc cancelled i b1 = ctl_at k pc b2" "\<not> holds_lock pc" "prefines b1 b2"
    using cancel_result_pc by blast
  have eq: "b2\<lparr>br_lock := None\<rparr> = b2" using prefines_lock[OF r(3)] assms(2) by simp
  show ?thesis
    using working_end[OF working_prefines[OF assms(1) r(3)] start_ok_free[OF r(2)]] r(2)
    unfolding r(1) by (simp only: if_False eq)
qed

lemma plain_cancel_result:
  assumes "prefines b b1" "good b" "\<not> holds_lock (br_ctl b ! k)"
  shows "reaches b (cancel_result now k kc cancelled i b1)"
  using cancel_result_pc[of now k kc cancelled i b1] plain_end[OF _ assms(2,3)] prefines_trans[OF assms(1)]
  by metis

lemma cancel_turn_reaches:
  assumes "prefines b b1" "good b" "\<not> holds_lock (br_ctl b ! k)"
  shows "reaches b (cancel_turn now k kc b1)"
  using plain_cancel_result[OF assms] plain_end[OF assms, of "CCancelLock i n kc" for i n]
  by (simp add: cancel_turn_def split: option.split)

lemma cancel_locked_reaches:
  assumes "good b" "k < 2" "br_lock b = None" "\<not> holds_lock (br_ctl b ! k)"
  shows "reaches b (cancel_locked now k i n kc b)"
proof (cases "turn_done b i")
  case True
  then show ?thesis using plain_cancel_result[OF prefines_refl assms(1,4)] by (simp add: cancel_locked_def)
next
  case False
  have "working k b (turn_cancel i (lock_take k b))"
    using working_turn_cancel working_start assms by (simp add: lock_ops)
  then have "reaches b (ctl_at k (CCancelWait i n kc False) (turn_cancel i (lock_take k b)))"
    by (rule working_stay) (simp_all add: lock_ops)
  then show ?thesis using False by (simp add: cancel_locked_def)
qed

lemma working_cut_result_of:
  assumes "working k b (cut_state r)" "\<And>pc b1. r = CutWaits pc b1 \<Longrightarrow> br_lock b1 = Some k"
  shows "reaches b (cut_result_of now k p kc r)"
proof (cases r)
  case (CutReturns y b1)
  let ?b1 = "lock_release b1"
  have w: "working k b ?b1" using assms(1) CutReturns by (simp add: lock_ops)
  have idle: "reaches b (ctl_at k CIdle ?b1)"
    using working_end[of k b b1 CIdle] assms(1) CutReturns by (simp add: lock_ops)
  have l: "br_lock (tell m (note_event now st me ?b1)) = None" for m st me by (simp add: lock_ops)
  have "reaches b (barge_done now k q ?b1)" for q
  proof -
    let ?b2 = "tell (CInterrupted q) (note_event now ''barge_in'' [] ?b1)"
    have eq: "?b2\<lparr>br_lock := None\<rparr> = ?b2" using l by simp
    have "working k b ?b2" using working_prefines[OF w barge_done_pc] .
    then have "reaches b (ctl_at k CIdle (?b2\<lparr>br_lock := None\<rparr>))"
      using working_end[of k b ?b2 CIdle] by simp
    then show ?thesis unfolding barge_done_def by (simp only: eq)
  qed
  then show ?thesis using idle CutReturns by (simp add: cut_result_of_def Let_def split: ctl_cont.split)
next
  case (CutWaits pc b1)
  then show ?thesis using working_stay[of k b b1 "CCut pc p kc"] assms by (simp add: cut_result_of_def)
next
  case (CutRaises e b1)
  then show ?thesis using assms(1) working_raise by (simp add: cut_result_of_def)
qed

definition needs_lock :: "ctl_pc \<Rightarrow> bool" where
  "needs_lock pc =
     (case pc of CStartLock _ \<Rightarrow> True | CCancelLock _ _ _ \<Rightarrow> True | CCutLock _ _ \<Rightarrow> True | _ \<Rightarrow> False)"

lemma ctl_step_reaches:
  assumes "good b" "k < 2" "needs_lock (br_ctl b ! k) \<and> r = RGo \<Longrightarrow> br_lock b = None"
  shows "reaches b (ctl_step c now r k b)"
proof -
  have ho: "holds_lock (br_ctl b ! k) \<longleftrightarrow> br_lock b = Some k"
    using assms(1,2) by (simp add: good_def lock_inv_def)
  have so: "start_ok b (br_ctl b ! k)" using assms(1,2) by (simp add: good_def start_inv_def)
  note same = reaches_refl[OF assms(1)]
  show ?thesis
  proof (cases "br_ctl b ! k")
    case (CCancelLock i n kc)
    then show ?thesis using assms same cancel_locked_reaches[OF assms(1,2)] plain_raise[OF assms(1)]
      by (cases r) (simp_all add: ctl_step_def needs_lock_def)
  next
    case (CStartLock x)
    then show ?thesis using assms same start_locked_reaches[OF assms(1,2)] plain_raise[OF assms(1)]
      by (cases r) (simp_all add: ctl_step_def needs_lock_def)
  next
    case (CCutLock p kc)
    have "reaches b (cut_result_of now k p kc (cut_push c (Some p) (lock_take k b)))" if "br_lock b = None"
    proof (rule working_cut_result_of)
      have w: "working k b (lock_take k b)" using working_start assms that by (simp add: lock_ops)
      note g = cut_push_good[of "lock_take k b" c "Some p"]
      then show "working k b (cut_state (cut_push c (Some p) (lock_take k b)))"
        using working_prefines[OF w] by blast
      show "br_lock b1 = Some k" if "cut_push c (Some p) (lock_take k b) = CutWaits pc b1" for pc b1
        using g that prefines_lock[of "lock_take k b" b1] by (simp add: lock_ops)
    qed
    then show ?thesis using CCutLock assms same plain_raise[OF assms(1)]
      by (cases r) (simp_all add: ctl_step_def needs_lock_def)
  next
    case (CStartWait x i noted)
    have l: "br_lock b = Some k" and ac: "br_active b = Some i" using ho so CStartWait by simp_all
    have w: "working k b b" using working_start assms l by simp
    have "reaches b (ctl_at k (CStartWait x i True) b)" using working_stay[OF w] l ac by simp
    moreover have "reaches b (ctl_raise k CancelledError (lock_release (forget_active i b)))" if "turn_done b i"
      using working_raise working_forget[OF w that] by simp
    moreover have "reaches b (start_cut c now k x (forget_active i b))" if "turn_done b i"
      using working_start_cut[OF working_forget[OF w that]] l ac by simp
    ultimately show ?thesis using CStartWait same
      by (cases r) (simp_all add: ctl_step_def Let_def)
  next
    case (CStartCut x pc)
    have l: "br_lock b = Some k" and nr: "\<not> turn_running b" and op: "only_push (cut_no pc) b"
      using ho so CStartCut by simp_all
    have g: "cut_good (cut_no pc) b (cut_step c r pc b)" by (rule cut_step_good)
    have pr: "prefines b (cut_state (cut_step c r pc b))" using g by (simp add: cut_good_def)
    have "working k b (cut_state (cut_step c r pc b))"
      using working_prefines[OF working_start pr] assms l by simp
    then have "reaches b (start_cut_result now k x (cut_step c r pc b))"
      using g nr op l prefines_running[OF pr] prefines_lock[OF pr] only_push_prefines[OF pr op]
      by (intro working_cut_result) (auto simp: cut_good_def split: cut_result.splits)
    then show ?thesis using CStartCut by (simp add: ctl_step_def)
  next
    case (CCancelWait i n kc noted)
    have l: "br_lock b = Some k" using ho CCancelWait by simp
    have w: "working k b b" using working_start assms l by simp
    have "reaches b (ctl_at k (CCancelWait i n kc True) b)" using working_stay[OF w] l by simp
    moreover have "reaches b (ctl_raise k CancelledError (lock_release (forget_active i b)))" if "turn_done b i"
      using working_raise working_forget[OF w that] by simp
    moreover have "reaches b (cancel_result now k kc True n (lock_release (forget_active i b)))" if "turn_done b i"
      using working_cancel_result[of k b "lock_release (forget_active i b)"] working_forget[OF w that]
      by (simp add: lock_ops)
    ultimately show ?thesis using CCancelWait same
      by (cases r) (simp_all add: ctl_step_def Let_def)
  next
    case (CCut pc p kc)
    have l: "br_lock b = Some k" using ho CCut by simp
    have pr: "prefines b (cut_state (cut_step c r pc b))"
      using cut_step_good[of pc b c r] by (simp add: cut_good_def)
    have "reaches b (cut_result_of now k p kc (cut_step c r pc b))"
    proof (rule working_cut_result_of)
      show "working k b (cut_state (cut_step c r pc b))"
        using working_prefines[OF working_start pr] assms l by simp
      show "br_lock b1 = Some k" if "cut_step c r pc b = CutWaits pc' b1" for pc' b1
        using prefines_lock[OF pr] l that by simp
    qed
    then show ?thesis using CCut by (simp add: ctl_step_def)
  qed (simp_all add: ctl_step_def same)
qed

end
