(* ===== verification/Bridge_Watch.thy ===== *)
theory Bridge_Watch
  imports Bridge_Close
begin

text \<open>
  The rest of a session's tasks in \<open>JotaBridge\<close>: \<open>run\<close>, \<open>_transcription_watchdog\<close>,
  \<open>_idle_watchdog\<close> and \<open>_session_revalidation_loop\<close> with \<open>_revoke_session\<close>. A loop is a function of one
  pass, from one sleep to the next: the result says how long the task sleeps, that it returned, or
  that it calls \<open>close_all\<close> (theory Bridge\_Close) and returns.
\<close>

datatype 's watch = Sleep rat 's | Returned | Closes

section \<open>The idle watchdog\<close>

definition push_backlog_in_flight :: "bridge_cfg \<Rightarrow> time \<Rightarrow> bridge \<Rightarrow> bool" where
  "push_backlog_in_flight c now b =
     (0 < bl_pending (br_backlog b) \<and>
      (case bl_since (br_backlog b) of None \<Rightarrow> True | Some t \<Rightarrow> now - t < bc_turn_timeout_s c))"

definition idle_watchdog :: "bridge_cfg \<Rightarrow> time \<Rightarrow> bridge \<Rightarrow> unit watch \<times> bridge" where
  "idle_watchdog c now b =
     (let remaining = bc_idle_s c - (now - ac_client (br_act b)) in
      if remaining \<le> 0 then
        if turn_in_flight c now b \<or> push_backlog_in_flight c now b then (Sleep 2 (), b)
        else (Closes, note_close_reason (Some ''idle_timeout'') b)
      else (Sleep remaining (), b))"

section \<open>The silence watchdog\<close>

text \<open>
  Its local variables; \<open>SilenceWait\<close> is the first loop, before the client sends audio. \<open>stt\<close> is the
  state of the transcriber, \<open>None\<close> when there is none, and \<open>heard\<close> its \<open>last_transcript_at\<close>.
\<close>

record silence =
  si_count :: int
  si_seen :: "time option"
  si_connected :: bool
  si_baseline :: "time option"

datatype silence_pc = SilenceWait | SilenceTick silence

definition stt_over :: "connection_state option \<Rightarrow> bool" where
  "stt_over stt = (stt = None \<or> stt = Some DEGRADED)"

definition silence_begin :: "time option \<Rightarrow> bridge \<Rightarrow> silence_pc watch" where
  "silence_begin heard b =
     (if ac_audio (br_act b) = None then Sleep (1 / 2) SilenceWait
      else Sleep WATCHDOG_POLL_S
             (SilenceTick \<lparr>si_count = 0, si_seen = heard, si_connected = True, si_baseline = None\<rparr>))"

text \<open>The new transcription, or the recovery after an outage.\<close>

definition silence_heard :: "time \<Rightarrow> time option \<Rightarrow> silence \<Rightarrow> silence" where
  "silence_heard now heard w =
     (let w1 = (if heard \<noteq> si_seen w then w\<lparr>si_count := 0, si_seen := heard, si_baseline := None\<rparr>
                else if \<not> si_connected w then w\<lparr>si_count := 0, si_baseline := Some now\<rparr> else w)
      in w1\<lparr>si_connected := True\<rparr>)"

definition latest :: "time option list \<Rightarrow> time" where
  "latest ts = (case List.map_filter id ts of [] \<Rightarrow> 0 | x # xs \<Rightarrow> foldl max x xs)"

definition silence_since :: "time option \<Rightarrow> silence \<Rightarrow> bridge \<Rightarrow> time" where
  "silence_since heard w b = latest [si_baseline w, heard, ac_burst (br_act b)]"

definition silence_limit :: "bridge_cfg \<Rightarrow> time \<Rightarrow> bridge \<Rightarrow> rat" where
  "silence_limit c since b =
     cf_silence_timeout_s (bc_config c) + (if ac_burst (br_act b) = Some since then bc_warmup_s c else 0)"

definition silence_tick ::
  "bridge_cfg \<Rightarrow> time \<Rightarrow> connection_state option \<Rightarrow> time option \<Rightarrow> silence \<Rightarrow> bridge \<Rightarrow> silence_pc watch \<times> bridge" where
  "silence_tick c now stt heard w b =
     (if stt_over stt then (Returned, b)
      else if stt \<noteq> Some CONNECTED \<or> ac_busy (br_act b)
        then (Sleep WATCHDOG_POLL_S (SilenceTick (w\<lparr>si_connected := False\<rparr>)), b)
      else
        let w1 = silence_heard now heard w in
        if turn_in_flight c now b
        then (Sleep WATCHDOG_POLL_S (SilenceTick (w1\<lparr>si_count := 0, si_baseline := Some now\<rparr>)), b)
        else
          let heard_audio = (case ac_audio (br_act b) of None \<Rightarrow> 0 | Some t \<Rightarrow> t); since = silence_since heard w1 b in
          if audio_gap_s c < now - heard_audio \<or> heard_audio \<le> since
          then (Sleep WATCHDOG_POLL_S (SilenceTick (w1\<lparr>si_count := 0\<rparr>)), b)
          else if now - since \<le> silence_limit c since b then (Sleep WATCHDOG_POLL_S (SilenceTick w1), b)
          else
            let w2 = w1\<lparr>si_count := si_count w1 + 1\<rparr>;
                b1 = snd (notify_service_status ''transcriber'' ''degraded'' None None False b) in
            if cf_max_silence_turns (bc_config c) \<le> si_count w2
            then (Closes, note_close_reason (Some ''silence_timeout'') b1)
            else (Sleep WATCHDOG_POLL_S (SilenceTick w2), b1))"

definition silence_resume ::
  "bridge_cfg \<Rightarrow> time \<Rightarrow> connection_state option \<Rightarrow> time option \<Rightarrow> silence_pc \<Rightarrow> bridge \<Rightarrow> silence_pc watch \<times> bridge" where
  "silence_resume c now stt heard pc b =
     (case pc of
        SilenceWait \<Rightarrow> (if stt_over stt then Returned else silence_begin heard b, b)
      | SilenceTick w \<Rightarrow> silence_tick c now stt heard w b)"

section \<open>Revalidation\<close>

text \<open>What \<open>db_client.get_session\<close> answers: the id of the client, one of the two refusals, or a failure.\<close>

datatype session_lookup = Found string | ClientNotFound | ClientInactive | LookupFails exn

text \<open>Up to the \<open>close_all\<close>; the socket is closed with code 1008, in at most \<open>CLIENT_SEND_TIMEOUT_S\<close>.\<close>

definition revoke_session :: "time \<Rightarrow> bridge \<Rightarrow> bridge" where
  "revoke_session now b =
     mark_gone (note_event now ''session_revoked'' [] (note_close_reason (Some ''revoked'') b))"

definition session_revalidation :: "bridge_cfg \<Rightarrow> rat \<Rightarrow> time \<Rightarrow> session_lookup \<Rightarrow> bridge \<Rightarrow> unit watch \<times> bridge" where
  "session_revalidation c interval now x b =
     (case x of
        Found i \<Rightarrow> if i \<noteq> bc_client_id c then (Closes, revoke_session now b) else (Sleep interval (), b)
      | ClientNotFound \<Rightarrow> (Closes, revoke_session now b)
      | ClientInactive \<Rightarrow> (Closes, revoke_session now b)
      | LookupFails e \<Rightarrow> (Sleep interval (), b))"

section \<open>run and its tasks\<close>

text \<open>
  \<open>connect_internal_services\<close>: \<open>start\<close> is how \<open>transcriber.start()\<close> ended, which a session without
  audio input does not call. Then the bridge is registered.
\<close>

definition connect_internal_services :: "bridge_cfg \<Rightarrow> exn option \<Rightarrow> bridge \<Rightarrow> exn option \<times> bridge" where
  "connect_internal_services c start b =
     (let e = (if hs_input_mode (bc_handshake c) = ''audio'' then start else None) in
      (e, if e = None then upd_life (\<lambda>l. l\<lparr>lf_registered := True\<rparr>) b else b))"

text \<open>The callback of \<open>_supervise\<close> when a task ends; the first result says that \<open>close_all\<close> is spawned.\<close>

definition supervise_done :: "string \<Rightarrow> exn option \<Rightarrow> bridge \<Rightarrow> bool \<times> bridge" where
  "supervise_done name e b =
     (case e of
        None \<Rightarrow> (False, b)
      | Some x \<Rightarrow>
          if is_Exception x \<and> name = ''idle_watchdog'' then (True, note_close_reason (Some ''error'') b)
          else (False, b))"

text \<open>Its start, and what the end of the input loop makes of the session: \<open>close_all\<close> gets the status.\<close>

definition run_begin :: "bridge_cfg \<Rightarrow> time \<Rightarrow> bridge \<Rightarrow> bridge" where
  "run_begin c now b =
     note_event now ''session_start''
       [(''input_mode'', JStr (hs_input_mode (bc_handshake c))),
        (''output_mode'', JArr (map JStr (hs_output_mode (bc_handshake c))))]
       (b\<lparr>br_act := (br_act b)\<lparr>ac_start := now, ac_client := now\<rparr>\<rparr>)"

text \<open>\<open>foreign\<close>: the cancellation was requested of \<open>run\<close> itself (\<open>cancel_requested\<close>).\<close>

definition run_end :: "exn option \<Rightarrow> bool \<Rightarrow> bridge \<Rightarrow> session_status option \<times> exn option \<times> bridge" where
  "run_end result foreign b =
     (case result of
        None \<Rightarrow> (None, None, note_close_reason (Some ''client_disconnect'') b)
      | Some e \<Rightarrow>
          if is_Exception e then (None, None, note_close_reason (Some ''error'') b)
          else if foreign then (Some Errored, Some e, note_close_reason (Some ''error'') b)
          else (None, None, b))"

section \<open>Properties\<close>

text \<open>
  The idle watchdog closes a session exactly when the client has been quiet for \<open>IDLE_TIMEOUT_S\<close> and
  nothing is in flight, with the reason \<open>idle_timeout\<close> unless another was noted; otherwise it sleeps a
  positive time and changes nothing. A push that never ends cannot keep it from closing: without a
  normal turn, without recent push audio and with the push and its backlog older than
  \<open>TURN_TIMEOUT_S\<close>, it closes.
\<close>

theorem idle_watchdog_exact:
  "(fst (idle_watchdog c now b) = Closes \<longleftrightarrow>
      bc_idle_s c \<le> now - ac_client (br_act b) \<and> \<not> turn_in_flight c now b \<and> \<not> push_backlog_in_flight c now b)
   \<and> (fst (idle_watchdog c now b) = Closes \<longrightarrow> snd (idle_watchdog c now b) = note_close_reason (Some ''idle_timeout'') b)
   \<and> (fst (idle_watchdog c now b) \<noteq> Closes \<longrightarrow>
        (\<exists>d>0. fst (idle_watchdog c now b) = Sleep d ()) \<and> snd (idle_watchdog c now b) = b)
   \<and> (bc_idle_s c \<le> now - ac_client (br_act b) \<and> \<not> turn_running b \<and> audio_done_opt b (pu_audio (br_push b)) \<and>
      (\<exists>t. pu_opened_at (br_push b) = Some t \<and> t + bc_turn_timeout_s c \<le> now) \<and>
      (\<exists>t. bl_since (br_backlog b) = Some t \<and> t + bc_turn_timeout_s c \<le> now) \<longrightarrow>
      fst (idle_watchdog c now b) = Closes)"
  by (auto simp: idle_watchdog_def turn_in_flight_def push_backlog_in_flight_def Let_def)

definition wait_cfg :: bridge_cfg where
  "wait_cfg = \<lparr>bc_client_id = ''c'', bc_agent = ''main'', bc_config =
       \<lparr>cf_stt_language = ''es'', cf_stt_vad_thold = 0, cf_tts_voice = ''v'', cf_tts_speed = 1,
        cf_barge_in_enabled = True, cf_barge_in_min_chars = 3, cf_silence_timeout_s = 2,
        cf_max_silence_turns = 2, cf_push_enabled = True, cf_tool_calls_enabled = True\<rparr>,
     bc_handshake = \<lparr>hs_input_mode = ''audio'', hs_output_mode = []\<rparr>, bc_partials = True, bc_warmup_s = 0,
     bc_drain_s = 10, bc_turn_timeout_s = 60, bc_idle_s = 300\<rparr>"

definition quiet_bridge :: "time \<Rightarrow> bridge" where
  "quiet_bridge t =
     (let b = new_bridge \<lparr>lk_log = [], lk_fail = None\<rparr> (new_ptracker 0 ''s'' ''c'' [] True) stats_reset in
      b\<lparr>br_act := (br_act b)\<lparr>ac_audio := Some t, ac_burst := Some 1\<rparr>\<rparr>)"

theorem idle_watchdog_exact_witness:
  "fst (idle_watchdog wait_cfg 300 (quiet_bridge 1)) = Closes \<and> fst (idle_watchdog wait_cfg 299 (quiet_bridge 1)) = Sleep 1 ()"
proof -
  have nf: "\<not> turn_in_flight wait_cfg n (quiet_bridge 1) \<and> \<not> push_backlog_in_flight wait_cfg n (quiet_bridge 1)" for n
    by (simp add: turn_in_flight_def push_backlog_in_flight_def quiet_bridge_def new_bridge_def new_push_def
        new_backlog_def turn_running_def audio_done_opt_def Let_def)
  moreover have "ac_client (br_act (quiet_bridge 1)) = 0" "bc_idle_s wait_cfg = 300"
    by (simp_all add: quiet_bridge_def new_bridge_def wait_cfg_def Let_def)
  ultimately show ?thesis
    using idle_watchdog_exact[of wait_cfg 300 "quiet_bridge 1"] by (simp add: idle_watchdog_def)
qed

text \<open>A run of the silence watchdog: what each tick finds, until it returns or closes.\<close>

fun silence_run ::
  "bridge_cfg \<Rightarrow> (time \<times> connection_state option \<times> time option \<times> bridge) list \<Rightarrow> silence \<Rightarrow> silence_pc watch" where
  "silence_run c [] w = Sleep WATCHDOG_POLL_S (SilenceTick w)"
| "silence_run c ((now, stt, heard, b) # ins) w =
     (case fst (silence_tick c now stt heard w b) of
        Sleep d (SilenceTick w1) \<Rightarrow> silence_run c ins w1
      | r \<Rightarrow> r)"

text \<open>What a strike takes.\<close>

fun strike :: "bridge_cfg \<Rightarrow> time \<times> connection_state option \<times> time option \<times> bridge \<Rightarrow> bool" where
  "strike c (now, stt, heard, b) =
     (stt = Some CONNECTED \<and> \<not> ac_busy (br_act b) \<and> \<not> turn_in_flight c now b \<and>
      now - (case ac_audio (br_act b) of None \<Rightarrow> 0 | Some t \<Rightarrow> t) \<le> audio_gap_s c \<and>
      (\<forall>t. heard = Some t \<or> ac_burst (br_act b) = Some t \<longrightarrow> cf_silence_timeout_s (bc_config c) < now - t))"

lemma latest_ge: "Some t \<in> set ts \<Longrightarrow> t \<le> latest ts"
proof -
  have f: "x \<le> foldl max x xs \<and> (\<forall>y\<in>set xs. y \<le> foldl max x xs)" for x :: rat and xs
  proof (induction xs arbitrary: x)
    case (Cons a xs)
    have m: "max x a \<le> foldl max (max x a) xs" and r: "\<forall>y\<in>set xs. y \<le> foldl max (max x a) xs"
      using Cons[of "max x a"] by blast+
    have "x \<le> foldl max (max x a) xs" "a \<le> foldl max (max x a) xs"
      by (rule order_trans[OF _ m], simp)+
    then show ?case using r by simp
  qed simp
  assume "Some t \<in> set ts"
  then have "t \<in> set (List.map_filter id ts)" by (force simp: List.map_filter_def)
  then show ?thesis using f by (cases "List.map_filter id ts") (auto simp: latest_def)
qed

lemma silence_tick_count:
  assumes "0 \<le> bc_warmup_s c"
  shows "case fst (silence_tick c now stt heard w b) of
      Sleep d pc \<Rightarrow> (\<exists>w1. pc = SilenceTick w1 \<and> (0 \<le> si_count w \<longrightarrow> 0 \<le> si_count w1 \<and>
          si_count w1 \<le> si_count w + (if strike c (now, stt, heard, b) then 1 else 0)))
    | Returned \<Rightarrow> True
    | Closes \<Rightarrow> 0 \<le> si_count w \<longrightarrow>
        cf_max_silence_turns (bc_config c) \<le> si_count w + (if strike c (now, stt, heard, b) then 1 else 0)"
proof -
  have ge: "t \<le> silence_since heard w1 b" if "heard = Some t \<or> ac_burst (br_act b) = Some t" for t w1
    using that by (auto simp: silence_since_def intro!: latest_ge)
  have cnt: "0 \<le> si_count w \<Longrightarrow> 0 \<le> si_count (silence_heard now heard w) \<and> si_count (silence_heard now heard w) \<le> si_count w"
    by (simp add: silence_heard_def Let_def)
  have lim: "cf_silence_timeout_s (bc_config c) \<le> silence_limit c s b" for s
    using assms by (simp add: silence_limit_def)
  have str: "strike c (now, stt, heard, b)"
    if "\<not> stt_over stt" "stt = Some CONNECTED" "\<not> ac_busy (br_act b)" "\<not> turn_in_flight c now b"
      "\<not> audio_gap_s c < now - (case ac_audio (br_act b) of None \<Rightarrow> 0 | Some t \<Rightarrow> t)"
      "\<not> now - silence_since heard w1 b \<le> silence_limit c (silence_since heard w1 b) b" for w1
    using that ge[of _ w1] lim[of "silence_since heard w1 b"] by (fastforce simp: not_less)
  show ?thesis
    unfolding silence_tick_def Let_def
    using cnt str[of "silence_heard now heard w"] by (simp del: strike.simps) auto
qed

text \<open>
  The silence watchdog closes a session only after \<open>max_silence_turns\<close> ticks of its poll at each of
  which the transcriber was connected and not saturated, no turn was in flight, audio was arriving,
  and \<open>silence_timeout_s\<close> had passed since the last transcription and since the audio began.
\<close>

theorem silence_closes_only_after_strikes:
  assumes "0 \<le> bc_warmup_s c" "0 \<le> si_count w" "silence_run c ins w = Closes"
  shows "cf_max_silence_turns (bc_config c) \<le> si_count w + int (length (filter (strike c) ins))"
  using assms(2,3)
proof (induction ins arbitrary: w)
  case (Cons x ins)
  obtain now stt heard b where x: "x = (now, stt, heard, b)" by (cases x) auto
  note tick = silence_tick_count[OF assms(1), where now = now and stt = stt and heard = heard and w = w and b = b]
  show ?case
  proof (cases "fst (silence_tick c now stt heard w b)")
    case (Sleep d pc)
    then obtain w1 where w1: "pc = SilenceTick w1" "0 \<le> si_count w1"
      "si_count w1 \<le> si_count w + (if strike c x then 1 else 0)" using tick Cons.prems(1) x by auto
    then have "silence_run c ins w1 = Closes" using Cons.prems(2) Sleep x by simp
    from Cons.IH[OF w1(2) this] show ?thesis using w1(3) by (auto split: if_splits)
  next
    case Closes
    then show ?thesis using tick Cons.prems(1) x by (auto split: if_splits)
  qed (use Cons.prems(2) x in simp)
qed simp

theorem silence_closes_only_after_strikes_witness:
  "let ins = [(4, Some CONNECTED, None, quiet_bridge 4), (6, Some CONNECTED, None, quiet_bridge 6)] in
   silence_run wait_cfg ins \<lparr>si_count = 0, si_seen = None, si_connected = True, si_baseline = None\<rparr> = Closes
   \<and> 2 \<le> length (filter (strike wait_cfg) ins)"
proof -
  let ?ins = "[(4, Some CONNECTED, None, quiet_bridge 4), (6, Some CONNECTED, None, quiet_bridge 6)]"
  let ?w = "\<lparr>si_count = 0, si_seen = None, si_connected = True, si_baseline = None\<rparr>"
  have "silence_run wait_cfg ?ins ?w = Closes"
    by (simp add: silence_tick_def stt_over_def silence_heard_def silence_since_def latest_def silence_limit_def
        quiet_bridge_def new_bridge_def new_push_def turn_in_flight_def turn_running_def audio_done_opt_def
        wait_cfg_def audio_gap_s_def WATCHDOG_POLL_S_def List.map_filter_simps Let_def)
  from silence_closes_only_after_strikes[OF _ _ this] this show ?thesis
    by (simp add: wait_cfg_def Let_def)
qed

text \<open>
  The reason a session ends with is the first one noted: whatever the tasks note later
  (a watchdog, a revocation, the end of \<open>run\<close>, another \<open>close_all\<close>), \<open>session_end\<close> reports it.
\<close>

theorem first_reason_wins:
  assumes "lf_reason (br_life b) = Some r" "r \<noteq> []"
  shows "close_reason s (close_enter c now r' b) = r
     \<and> close_reason s (snd (idle_watchdog c now b)) = r
     \<and> close_reason s (snd (silence_resume c now stt heard pc b)) = r
     \<and> close_reason s (snd (session_revalidation c interval now x b)) = r
     \<and> close_reason s (snd (snd (run_end res foreign b))) = r"
proof -
  have nte: "lf_reason (br_life (note_event t st m b')) = lf_reason (br_life b')" for t st m b'
    by (simp add: note_event_def split: prod.split)
  have notify: "lf_reason (br_life (snd (notify_service_status u v w y z b'))) = lf_reason (br_life b')" for u v w y z b'
    by (simp add: notify_service_status_def split: sum.split)
  have 1: "close_reason s (close_enter c now r' b) = r"
    using assms by (simp add: close_reason_def close_enter_def note_close_reason_def upd_life_def Let_def)
  have 2: "close_reason s (snd (idle_watchdog c now b)) = r"
    using assms by (simp add: close_reason_def idle_watchdog_def note_close_reason_def Let_def)
  have "lf_reason (br_life (snd (silence_tick c now stt heard w b))) = Some r" for w
    using assms by (simp add: silence_tick_def note_close_reason_def notify Let_def)
  then have 3: "close_reason s (snd (silence_resume c now stt heard pc b)) = r"
    using assms by (simp add: close_reason_def silence_resume_def split: silence_pc.split)
  have 4: "close_reason s (snd (session_revalidation c interval now x b)) = r"
    using assms
    by (simp add: close_reason_def session_revalidation_def revoke_session_def mark_gone_def note_close_reason_def nte
        split: session_lookup.split)
  have 5: "close_reason s (snd (snd (run_end res foreign b))) = r"
    using assms by (simp add: close_reason_def run_end_def note_close_reason_def split: option.split)
  show ?thesis using 1 2 3 4 5 by blast
qed

theorem first_reason_wins_witness:
  "close_reason Completed (close_enter wait_cfg 5 (Some ''shutdown'') (note_close_reason (Some ''revoked'') (quiet_bridge 1))) = ''revoked''"
proof -
  have "lf_reason (br_life (note_close_reason (Some ''revoked'') (quiet_bridge 1))) = Some ''revoked''"
    by (simp add: note_close_reason_def quiet_bridge_def new_bridge_def new_life_def Let_def)
  from first_reason_wins[OF this] show ?thesis by simp
qed

end
