(* ===== verification/Bridge_System.thy ===== *)
theory Bridge_System
  imports Bridge_Refine_Control Bridge_Watch
begin

text \<open>
  All the tasks of one \<open>JotaBridge\<close> together. \<open>bridge_step\<close> lets any task run from its suspension
  point to the next one, in any order, and lets the client connection fail at any time; every
  step refines the contract of theory Bridge\_Protocol.
\<close>

section \<open>Handlers that do not wait\<close>

lemma prefines_notify: "prefines b (snd (notify_service_status svc st code msg prop b))"
proof (cases "put (CStatus svc st code msg) (br_link b)")
  case (Inr l)
  then have "snd (notify_service_status svc st code msg prop b) = tell (CStatus svc st code msg) b"
    by (simp add: notify_service_status_def tell_def)
  then show ?thesis using prefines_tell[of "CStatus svc st code msg" b] by simp
qed (simp add: notify_service_status_def)

lemma prefines_act: "prefines b (b\<lparr>br_act := a\<rparr>)"
  by (rule prefines_same) (simp_all add: proto_of_def kept_turns_def)

lemma prefines_gone: "prefines b (mark_gone b)"
  by (rule refines_prefines[OF refines_gone]) simp

lemma transcriber_handlers:
  "prefines b (on_transcriber_warning code msg b)" "prefines b (on_transcriber_status st reason b)"
  "prefines b (on_transcriber_incomplete now reason b)" "prefines b (on_transcriber_state_change s b)"
proof -
  have s: "prefines b (snd (notify_service_status u v w x y (set_busy z b)))" for u v w x y z
    unfolding set_busy_def by (rule prefines_trans[OF prefines_act prefines_notify])
  show "prefines b (on_transcriber_warning code msg b)"
    by (simp add: on_transcriber_warning_def prefines_notify)
  show "prefines b (on_transcriber_status st reason b)"
    using s by (simp only: on_transcriber_status_def Let_def) simp
  show "prefines b (on_transcriber_incomplete now reason b)"
    by (simp add: on_transcriber_incomplete_def prefines_note)
  show "prefines b (on_transcriber_state_change s b)"
    by (simp add: on_transcriber_state_change_def prefines_notify)
qed

lemma transcription_reaches:
  assumes "good b" "br_ctl b ! stt_task = CIdle"
  shows "reaches b (on_transcription c now x is_final b)"
proof -
  have free: "\<not> holds_lock (br_ctl b ! stt_task)" using assms(2) by simp
  note start = cancel_turn_reaches[OF _ assms(1) free]
  show ?thesis
  proof (cases is_final)
    case True
    then show ?thesis using start[OF prefines_note] by (simp add: on_transcription_def)
  next
    case False
    show ?thesis
    proof (cases "put (CPartial x) (br_link b)")
      case (Inl e)
      then show ?thesis using False reaches_refl[OF assms(1)] by (simp add: on_transcription_def)
    next
      case (Inr l)
      let ?b1 = "note_event now ''transcription_partial'' [(''text_len'', JInt (int (length x)))] (tell (CPartial x) b)"
      have "prefines b ?b1" by (rule prefines_trans[OF prefines_tell prefines_note]) simp
      then show ?thesis
        using False Inr start[of ?b1] reaches_prefines[OF _ assms(1), of ?b1] refines_link[OF Inr]
        by (simp add: on_transcription_def Let_def)
    qed
  qed
qed

lemma prefines_watch:
  "prefines b (snd (idle_watchdog c now b))" "prefines b (snd (silence_resume c now stt heard pc b))"
  "prefines b (snd (session_revalidation c interval now x b))" "prefines b (run_begin c now b)"
  "prefines b (snd (snd (run_end res foreign b)))" "prefines b (snd (supervise_done name e b))"
proof -
  show "prefines b (snd (idle_watchdog c now b))" by (simp add: idle_watchdog_def prefines_reason Let_def)
  have "prefines b (note_close_reason r (snd (notify_service_status u v w y z b)))" for r u v w y z
    by (rule prefines_trans[OF prefines_notify prefines_reason])
  then have "prefines b (snd (silence_tick c now stt heard w b))" for w
    by (simp add: silence_tick_def prefines_notify Let_def)
  then show "prefines b (snd (silence_resume c now stt heard pc b))"
    by (simp add: silence_resume_def split: silence_pc.split)
  have "prefines b (revoke_session now b)"
    unfolding revoke_session_def
    by (rule prefines_trans[OF prefines_trans[OF prefines_reason prefines_note] prefines_gone])
  then show "prefines b (snd (session_revalidation c interval now x b))"
    by (simp add: session_revalidation_def split: session_lookup.split)
  show "prefines b (run_begin c now b)"
    unfolding run_begin_def by (rule prefines_trans[OF prefines_act prefines_note])
  show "prefines b (snd (snd (run_end res foreign b)))"
    by (simp add: run_end_def prefines_reason split: option.split)
  show "prefines b (snd (supervise_done name e b))"
    by (simp add: supervise_done_def prefines_reason split: option.split)
qed

lemma start_turn_reaches:
  assumes "prefines b b1" "good b" "\<not> holds_lock (br_ctl b ! k)"
  shows "reaches b (start_turn k x b1)"
  using plain_end[OF assms, of "CStartLock x"] reaches_prefines[OF assms(1,2)]
  by (simp add: start_turn_def)

lemma message_reaches:
  assumes "good b" "br_ctl b ! input_task = CIdle"
  shows "reaches b (client_message c now has_stt m b)"
proof -
  have free: "\<not> holds_lock (br_ctl b ! input_task)" using assms(2) by simp
  define seen where "seen = b\<lparr>br_act := (br_act b)\<lparr>ac_client := now\<rparr>\<rparr>"
  have s: "prefines b seen" unfolding seen_def by (rule prefines_act)
  have inv: "prefines b (send_invalid_message seen)"
    unfolding send_invalid_message_def by (rule prefines_trans[OF s prefines_tell]) simp
  have stt: "prefines b (stt_call x seen)" for x
    unfolding stt_call_def by (rule prefines_trans[OF s prefines_act])
  note ends = plain_end[OF _ assms(1) free] start_turn_reaches[OF s assms(1) free]
    cancel_turn_reaches[OF s assms(1) free] reaches_prefines[OF _ assms(1)]
  have gone: "reaches b (ctl_at input_task COver (note_disconnect_code code (mark_gone b1)))"
    if "prefines b b1" for code b1
    using ends(1)[of "note_disconnect_code code (mark_gone b1)" COver]
      prefines_trans[OF prefines_trans[OF that prefines_gone] prefines_reason]
      prefines_trans[OF that prefines_gone]
    by (auto simp: note_disconnect_code_def)
  have tx: "reaches b (on_text c now has_stt raw parsed seen)" for raw parsed
    using ends(2,3) ends(4)[OF s] ends(4)[OF inv] ends(4)[OF stt]
    by (auto simp: on_text_def split: option.split json.split)
  have au: "prefines b (stt_call (SttAudio x) (seen\<lparr>br_act := a\<rparr>))" for x a
    unfolding stt_call_def by (rule prefines_trans[OF prefines_trans[OF s prefines_act] prefines_act])
  show ?thesis
    unfolding client_message_def seen_def[symmetric] Let_def
    using gone[OF s] gone[OF prefines_refl] tx ends(4)[OF s] ends(4)[OF au] plain_raise[OF assms(1) free]
    by (cases m) simp_all
qed

section \<open>Closing\<close>

text \<open>Like \<open>prefines\<close>, for \<open>close_all\<close>, which changes its own flags.\<close>

definition lrefines :: "bridge \<Rightarrow> bridge \<Rightarrow> bool" where
  "lrefines b b' \<longleftrightarrow> pstep\<^sup>*\<^sup>* (proto_of b) (proto_of b') \<and> (audio_ok b \<longrightarrow> audio_ok b')
     \<and> br_ctl b' = br_ctl b \<and> br_lock b' = br_lock b \<and> br_active b' = br_active b
     \<and> lf_end_sent (br_life b') = lf_end_sent (br_life b) \<and> (active_inv b \<longrightarrow> active_inv b')
     \<and> (\<forall>j. turn_done b j \<longrightarrow> turn_done b' j)
     \<and> (pu_open (br_push b') \<longrightarrow> pu_open (br_push b) \<and> pu_no (br_push b') = pu_no (br_push b))"

lemma lrefines_refl [simp]: "lrefines b b"
  by (simp add: lrefines_def)

lemma lrefines_trans [trans]: "lrefines a b \<Longrightarrow> lrefines b c \<Longrightarrow> lrefines a c"
  unfolding lrefines_def by (auto intro: rtranclp_trans)

lemma prefines_lrefines: "prefines b b' \<Longrightarrow> lrefines b b'"
  by (simp add: prefines_def lrefines_def kept_turns_def active_inv_def turn_done_def the_turn_def)

lemma lrefines_good:
  assumes "lrefines b b'" "good b" "close_inv b'"
  shows "reaches b b'"
proof -
  have k: "br_ctl b' = br_ctl b" "br_lock b' = br_lock b" using assms(1) by (simp_all add: lrefines_def)
  have "start_ok b pc \<Longrightarrow> start_ok b' pc" for pc
    using assms(1) by (intro start_ok_mono[of b pc b']) (auto simp: lrefines_def only_push_def)
  then have "start_inv b'" using assms(2) k by (simp add: good_def start_inv_def)
  moreover have "lock_inv b'" using assms(2) k by (simp add: good_def lock_inv_def)
  ultimately show ?thesis using assms psteps_pinv by (auto simp: reaches_def good_def lrefines_def)
qed

lemma lrefines_life:
  assumes "lf_end_sent (f (br_life b)) = lf_end_sent (br_life b)"
  shows "lrefines b (upd_life f b)"
proof -
  have "proto_of (upd_life f b) = proto_of b" using assms by (simp add: upd_life_def proto_of_def)
  moreover have "audio_ok (upd_life f b) = audio_ok b" "br_ctl (upd_life f b) = br_ctl b"
    "br_lock (upd_life f b) = br_lock b" "br_active (upd_life f b) = br_active b"
    "br_life (upd_life f b) = f (br_life b)" "active_inv (upd_life f b) = active_inv b"
    "turn_done (upd_life f b) j = turn_done b j" "br_push (upd_life f b) = br_push b" for j
    by (simp_all add: upd_life_def audio_ok_def active_inv_def turn_done_def the_turn_def)
  ultimately show ?thesis using assms by (simp add: lrefines_def)
qed

lemma lrefines_close_at: "lrefines b (close_at pc b)"
  unfolding close_at_def by (rule lrefines_life) simp

lemma lrefines_turn_cancel: "lrefines b (turn_cancel i b)"
  by (simp add: lrefines_def)

lemma lrefines_worker_cancel: "lrefines b (worker_cancel b)"
  by (simp add: worker_cancel_def prefines_lrefines prefines_backlog)

lemma lrefines_tasks: "lrefines b (close_tasks s b)"
proof -
  have "lrefines b (case pu_no (br_push b) of None \<Rightarrow> b | Some n \<Rightarrow> snd (close_push_turn n b))"
    by (simp add: prefines_lrefines prefines_close_push split: option.split)
  then show ?thesis
    unfolding close_tasks_def Let_def
    using lrefines_trans lrefines_worker_cancel lrefines_close_at by blast
qed

lemma lrefines_tts: "lrefines b (close_tts_step s b)"
  using lrefines_tasks lrefines_trans[OF prefines_lrefines[OF prefines_stream_close] lrefines_close_at]
  by (simp add: close_tts_step_def split: option.split)

lemma lrefines_audio: "lrefines b (close_audio s b)"
  using lrefines_tts lrefines_trans[OF prefines_lrefines[OF prefines_audio_cancel_opt] lrefines_close_at]
  by (simp add: close_audio_def)

lemma lrefines_drain: "lrefines b (close_drain_queue s b)"
  unfolding close_drain_queue_def
  by (rule lrefines_trans[OF prefines_lrefines[OF prefines_backlog] lrefines_audio])

lemma lrefines_worker: "lrefines b (close_worker s b)"
  using lrefines_drain lrefines_trans[OF lrefines_worker_cancel lrefines_close_at]
  by (simp add: close_worker_def)

lemma close_pcs:
  "\<not> before_turn (lf_close (br_life (close_tasks s b)))"
  "\<not> before_turn (lf_close (br_life (close_tts_step s b)))"
  "\<not> before_turn (lf_close (br_life (close_audio s b)))"
  "\<not> before_turn (lf_close (br_life (close_drain_queue s b)))"
  "\<not> before_turn (lf_close (br_life (close_worker s b)))"
proof -
  show 1: "\<not> before_turn (lf_close (br_life (close_tasks s b)))" for b
    by (simp add: close_tasks_def Let_def close_at_def upd_life_def)
  show 2: "\<not> before_turn (lf_close (br_life (close_tts_step s b)))" for b
    using 1 by (simp add: close_tts_step_def close_at_def upd_life_def split: option.split)
  show 3: "\<not> before_turn (lf_close (br_life (close_audio s b)))" for b
    using 2 by (simp add: close_audio_def close_at_def upd_life_def)
  show 4: "\<not> before_turn (lf_close (br_life (close_drain_queue s b)))" for b
    using 3 by (simp add: close_drain_queue_def)
  show "\<not> before_turn (lf_close (br_life (close_worker s b)))"
    using 4 by (simp add: close_worker_def close_at_def upd_life_def)
qed

lemma close_enter_reaches:
  assumes "good b"
  shows "reaches b (close_enter c now reason b)"
proof -
  define b1 where "b1 = note_close_reason reason (upd_life (\<lambda>l. l\<lparr>lf_closing := True\<rparr>) b)"
  have 1: "lrefines b b1"
    unfolding b1_def by (rule lrefines_trans[OF lrefines_life prefines_lrefines[OF prefines_reason]]) simp
  have 2: "lrefines b (close_enter c now reason b)"
    using lrefines_trans[OF 1 lrefines_life, of "\<lambda>l. l\<lparr>lf_in_flight := Some (turn_in_flight c now b1)\<rparr>"] 1
    unfolding close_enter_def b1_def[symmetric] Let_def by simp
  have "lf_close (br_life (close_enter c now reason b)) = lf_close (br_life b)"
    by (simp add: close_enter_def note_close_reason_def upd_life_def Let_def)
  then have "close_inv (close_enter c now reason b)"
    using assms 2 by (simp add: close_inv_def good_def lrefines_def)
  then show ?thesis using lrefines_good[OF 2 assms] by simp
qed

lemma close_begin_reaches:
  assumes "good b" "lf_close (br_life b) = XNone"
  shows "reaches b (close_begin st b)"
proof (cases "lf_closed (br_life b)")
  case True
  then show ?thesis using assms(1) by (simp add: close_begin_def reaches_refl)
next
  case False
  define b1 where "b1 = upd_life (\<lambda>l. l\<lparr>lf_registered := False\<rparr>) b"
  have 1: "lrefines b b1" unfolding b1_def by (rule lrefines_life) simp
  have "lrefines b (close_begin st b)"
    using lrefines_trans[OF 1 lrefines_worker] lrefines_trans[OF 1 lrefines_trans[OF lrefines_turn_cancel lrefines_close_at]]
    unfolding close_begin_def b1_def[symmetric] Let_def by (simp add: False split: option.split)
  moreover have "lf_end_sent (br_life b) = None" using assms by (simp add: good_def close_inv_def)
  ultimately show ?thesis
    using lrefines_good[of b "close_begin st b"] assms(1) by (simp add: close_inv_def lrefines_def)
qed

lemma close_turn_waited_reaches:
  assumes "good b" "lf_end_sent (br_life b) = None"
  shows "reaches b (close_turn_waited s i b)"
proof -
  have plain: "reaches b (close_worker s b)"
    using lrefines_good[OF lrefines_worker assms(1)] close_pcs(5) by (simp add: close_inv_def)
  have "reaches b (close_worker s (tell (CTurnEnd n) (upd_life (\<lambda>l. l\<lparr>lf_end_sent := Some n\<rparr>) b)))"
    if "br_active_no b = Some n" for n
  proof -
    let ?b1 = "tell (CTurnEnd n) (upd_life (\<lambda>l. l\<lparr>lf_end_sent := Some n\<rparr>) b)"
    have "proto_of (upd_life (\<lambda>l. l\<lparr>lf_end_sent := Some n\<rparr>) b) = (proto_of b)\<lparr>p_end := Some n\<rparr>"
      by (simp add: proto_of_def upd_life_def)
    then have st: "pstep (proto_of b) (proto_of ?b1)"
      using p_close_end[of "proto_of b" n] assms(2) that by simp
    have l: "lrefines ?b1 (close_worker s ?b1)" by (rule lrefines_worker)
    have p: "pstep\<^sup>*\<^sup>* (proto_of b) (proto_of (close_worker s ?b1))"
      using st l by (auto simp: lrefines_def intro: converse_rtranclp_into_rtranclp)
    have f: "br_ctl ?b1 = br_ctl b" "br_lock ?b1 = br_lock b" "br_active ?b1 = br_active b"
      "br_push ?b1 = br_push b" "turn_done ?b1 j = turn_done b j" "active_inv ?b1 = active_inv b"
      "audio_ok ?b1 = audio_ok b" for j
      by (simp_all add: upd_life_def turn_done_def the_turn_def active_inv_def audio_ok_def)
    let ?b2 = "close_worker s ?b1"
    have k: "br_ctl ?b2 = br_ctl b" "br_lock ?b2 = br_lock b" using l f by (simp_all add: lrefines_def)
    have "start_ok b pc \<Longrightarrow> start_ok ?b2 pc" for pc
      using l f by (intro start_ok_mono[of b pc ?b2]) (auto simp: lrefines_def only_push_def)
    then have "start_inv ?b2" using assms(1) k by (simp add: good_def start_inv_def)
    moreover have "lock_inv ?b2" using assms(1) k by (simp add: good_def lock_inv_def)
    moreover have "audio_ok ?b2" "active_inv ?b2" using l f assms(1) by (auto simp: lrefines_def good_def)
    moreover have "close_inv ?b2" using close_pcs(5) by (simp add: close_inv_def)
    moreover have "pinv (proto_of ?b2)" using p assms(1) psteps_pinv by (simp add: good_def)
    ultimately show ?thesis using p by (simp add: reaches_def good_def)
  qed
  then show ?thesis using plain by (simp add: close_turn_waited_def split: option.split)
qed

lemma prefines_tracker: "prefines b (b\<lparr>br_tracker := t\<rparr>)"
  by (rule refines_prefines[OF refines_tracker]) simp

lemma prefines_pt_close:
  assumes "pt_close (\<lambda>j. put (CPipeline j)) nows s meta (br_tracker b, br_link b, reg) = (e, t, l, reg1)"
  shows "prefines b (b\<lparr>br_tracker := t, br_link := l\<rparr>)"
proof -
  obtain now1 now2 now3 where n: "nows = (now1, now2, now3)" by (cases nows)
  show ?thesis
  proof (cases "pt_session_end_recorded (br_tracker b)")
    case True
    then have "l = br_link b" using assms by (simp add: pt_close_def n split: if_splits)
    then show ?thesis using prefines_tracker[of b t] by simp
  next
    case False
    define m where "m = [(''turn_count'', JInt (int (pt_turn (br_tracker b)))),
        (''duration_s'', JFloat (py_round_n 2 (now1 - pt_started_at (br_tracker b))))] @ meta"
    define b0 where "b0 = b\<lparr>br_tracker := (br_tracker b)\<lparr>pt_session_end_recorded := True\<rparr>\<rparr>"
    have "l = br_link (note_event now2 ''session_end'' m b0)"
      using assms False
      by (auto simp: pt_close_def n m_def b0_def note_event_def Let_def split: prod.splits option.splits if_splits)
    then have "b\<lparr>br_tracker := t, br_link := l\<rparr> = (note_event now2 ''session_end'' m b0)\<lparr>br_tracker := t\<rparr>"
      by (simp add: note_event_def b0_def split: prod.splits)
    then show ?thesis
      using prefines_trans[OF prefines_trans[OF prefines_tracker prefines_note] prefines_tracker]
      by (simp add: b0_def)
  qed
qed

lemma lrefines_close_tracker: "lrefines b (fst (close_tracker w s (b, reg)))"
proof -
  define b1 where "b1 = (if lf_counted (br_life b) then b
      else upd_life (\<lambda>l. l\<lparr>lf_counted := True\<rparr>)
             (b\<lparr>br_stats := stats_session_closed (close_reason s b) (br_stats b)\<rparr>))"
  have "prefines b (b\<lparr>br_stats := g\<rparr>)" for g
    by (rule refines_prefines[OF refines_stats]) simp
  then have 1: "lrefines b b1"
    unfolding b1_def using lrefines_trans[OF prefines_lrefines lrefines_life] by simp
  obtain e t l reg1 where pc: "pt_close (\<lambda>j. put (CPipeline j)) (ce_nows w) s
      (session_end_meta s (ce_peaks w) (ce_turn_peak w) b) (br_tracker b1, br_link b1, reg) = (e, t, l, reg1)"
    by (metis prod.exhaust)
  have "lrefines b1 (close_at XTracker (b1\<lparr>br_tracker := t, br_link := l\<rparr>))"
    using lrefines_trans[OF prefines_lrefines[OF prefines_pt_close[OF pc]] lrefines_close_at] .
  then have "lrefines b (close_at XTracker (b1\<lparr>br_tracker := t, br_link := l\<rparr>))" by (rule lrefines_trans[OF 1])
  moreover have "fst (close_tracker w s (b, reg)) = close_at XTracker (b1\<lparr>br_tracker := t, br_link := l\<rparr>)"
    using pc unfolding close_tracker_def b1_def by (simp add: Let_def)
  ultimately show ?thesis by simp
qed

lemma close_tracker_pc: "lf_close (br_life (fst (close_tracker w s br))) = XTracker"
  by (simp add: close_tracker_def Let_def close_at_def upd_life_def split: prod.splits)

lemma lrefines_past_turn:
  "lrefines b b' \<Longrightarrow> good b \<Longrightarrow> \<not> before_turn (lf_close (br_life b')) \<Longrightarrow> reaches b b'"
  by (rule lrefines_good) (simp_all add: close_inv_def)

lemma close_step_reaches:
  assumes "good b"
  shows "reaches b (fst (close_step w (b, reg)))"
proof (cases "lf_close (br_life b)")
  case (XTurn s i)
  then have "lf_end_sent (br_life b) = None" using assms by (simp add: good_def close_inv_def)
  then show ?thesis using XTurn close_turn_waited_reaches[OF assms] by (simp add: close_step_def Let_def)
next
  case (XTts s)
  have "lrefines b (close_tasks s (upd_push (\<lambda>p. p\<lparr>pu_tts := None\<rparr>) b))"
    by (rule lrefines_trans[OF prefines_lrefines[OF prefines_push] lrefines_tasks]) simp
  then show ?thesis using XTts lrefines_past_turn[OF _ assms] close_pcs(1) by (simp add: close_step_def Let_def)
next
  case (XTasks s)
  have "reaches b (close_at (XStt s) b)"
    by (rule lrefines_past_turn[OF lrefines_close_at assms]) (simp add: close_at_def upd_life_def)
  moreover have "reaches b (fst (close_tracker w s (b, reg)))"
    by (rule lrefines_past_turn[OF lrefines_close_tracker assms]) (simp add: close_tracker_pc)
  ultimately show ?thesis using XTasks by (simp add: close_step_def close_stt_def Let_def)
next
  case (XStt s)
  have "reaches b (fst (close_tracker w s (b, reg)))"
    by (rule lrefines_past_turn[OF lrefines_close_tracker assms]) (simp add: close_tracker_pc)
  then show ?thesis using XStt by (simp add: close_step_def Let_def)
next
  case XTracker
  have "reaches b (upd_life (\<lambda>x. x\<lparr>lf_closed := True, lf_close := XDone\<rparr>) b)"
    by (rule lrefines_past_turn[OF lrefines_life assms]) (simp_all add: upd_life_def)
  then show ?thesis using XTracker by (simp add: close_step_def Let_def)
qed (simp_all add: close_step_def Let_def reaches_refl assms
      lrefines_past_turn[OF lrefines_drain assms] lrefines_past_turn[OF lrefines_tts assms] close_pcs)

section \<open>Steps and reachable states\<close>

datatype bridge_act =
    ActTurn time resume nat
  | ActAudio time audio_in nat
  | ActWorker time resume
  | ActControl time resume nat
  | ActMessage time bool ws_in
  | ActTranscription time string bool
  | ActSttWarning string "string option"
  | ActSttStatus string "string option"
  | ActSttIncomplete time "string option"
  | ActSttState connection_state
  | ActPush time push_kind
  | ActCloseEnter time "string option"
  | ActCloseBegin "session_status option"
  | ActClose close_env session_registry
  | ActConnect "exn option"
  | ActTaskDone string "exn option"
  | ActIdle time
  | ActSilence time "connection_state option" "time option" silence_pc
  | ActRevalidate rat time session_lookup
  | ActRun time
  | ActRunEnd "exn option" bool
  | ActLinkDown exn

text \<open>
  A task resumes with \<open>CancelledError\<close> only if it was cancelled; a turn that was cancelled before it
  began, and a worker cancelled in \<open>asyncio.wait\<close>, in \<open>queue.get\<close> or while it waits for the lock,
  resume with it. A step that takes \<open>_turn_lock\<close> needs it to be free. The body of \<open>close_all\<close> runs once
  at a time, after some caller entered.
\<close>

fun waits_only :: "push_pc \<Rightarrow> bool" where
  "waits_only WGet = True"
| "waits_only (WTurn _) = True"
| "waits_only (WLock _) = True"
| "waits_only _ = False"

fun enabled :: "bridge_act \<Rightarrow> bridge \<Rightarrow> bool" where
  "enabled (ActTurn now r i) b =
     (i < length (br_turns b) \<and> (r = RExn CancelledError \<longrightarrow> tn_cancel (the_turn b i))
      \<and> (tn_pc (the_turn b i) = TNew \<and> tn_cancel (the_turn b i) \<longrightarrow> r \<noteq> RGo))"
| "enabled (ActAudio now inp a) b = (a < length (br_audios b))"
| "enabled (ActWorker now r) b =
     ((r = RExn CancelledError \<longrightarrow> bl_cancel (br_backlog b))
      \<and> (waits_only (bl_pc (br_backlog b)) \<and> bl_cancel (br_backlog b) \<longrightarrow> r \<noteq> RGo)
      \<and> (may_open b r \<longrightarrow> br_lock b = None))"
| "enabled (ActControl now r k) b =
     (k < 2 \<and> (needs_lock (br_ctl b ! k) \<and> r = RGo \<longrightarrow> br_lock b = None))"
| "enabled (ActMessage now s m) b = (br_ctl b ! input_task = CIdle)"
| "enabled (ActTranscription now x f) b = (br_ctl b ! stt_task = CIdle)"
| "enabled (ActCloseBegin st) b = (lf_closing (br_life b) \<and> lf_close (br_life b) = XNone)"
| "enabled (ActLinkDown e) b = is_Exception e"
| "enabled _ b = True"

fun bridge_do :: "bridge_cfg \<Rightarrow> bridge_act \<Rightarrow> bridge \<Rightarrow> bridge" where
  "bridge_do c (ActTurn now r i) b = turn_step c now r i b"
| "bridge_do c (ActAudio now inp a) b = audio_step now inp a b"
| "bridge_do c (ActWorker now r) b = worker_step c now r b"
| "bridge_do c (ActControl now r k) b = ctl_step c now r k b"
| "bridge_do c (ActMessage now s m) b = client_message c now s m b"
| "bridge_do c (ActTranscription now x f) b = on_transcription c now x f b"
| "bridge_do c (ActSttWarning code m) b = on_transcriber_warning code m b"
| "bridge_do c (ActSttStatus s r) b = on_transcriber_status s r b"
| "bridge_do c (ActSttIncomplete now r) b = on_transcriber_incomplete now r b"
| "bridge_do c (ActSttState s) b = on_transcriber_state_change s b"
| "bridge_do c (ActPush now k) b = enqueue_push now k b"
| "bridge_do c (ActCloseEnter now r) b = close_enter c now r b"
| "bridge_do c (ActCloseBegin st) b = close_begin st b"
| "bridge_do c (ActClose w reg) b = fst (close_step w (b, reg))"
| "bridge_do c (ActIdle now) b = snd (idle_watchdog c now b)"
| "bridge_do c (ActSilence now stt heard pc) b = snd (silence_resume c now stt heard pc b)"
| "bridge_do c (ActRevalidate interval now x) b = snd (session_revalidation c interval now x b)"
| "bridge_do c (ActRun now) b = run_begin c now b"
| "bridge_do c (ActRunEnd result foreign) b = snd (snd (run_end result foreign b))"
| "bridge_do c (ActConnect e) b = snd (connect_internal_services c e b)"
| "bridge_do c (ActTaskDone name e) b = snd (supervise_done name e b)"
| "bridge_do c (ActLinkDown e) b = b\<lparr>br_link := (br_link b)\<lparr>lk_fail := Some e\<rparr>\<rparr>"

definition bridge_start :: "bridge \<Rightarrow> bool" where
  "bridge_start b \<longleftrightarrow> (\<exists>t g. b = new_bridge \<lparr>lk_log = [], lk_fail = None\<rparr> t g)"

inductive bridge_step :: "bridge_cfg \<Rightarrow> bridge \<Rightarrow> bridge \<Rightarrow> bool" for c where
  "enabled a b \<Longrightarrow> bridge_step c b (bridge_do c a b)"

inductive bridge_reachable :: "bridge_cfg \<Rightarrow> bridge \<Rightarrow> bool" for c where
  start: "bridge_start b \<Longrightarrow> bridge_reachable c b"
| step: "bridge_reachable c b \<Longrightarrow> bridge_step c b b' \<Longrightarrow> bridge_reachable c b'"

text \<open>Concrete runs.\<close>

fun bridge_run :: "bridge_cfg \<Rightarrow> bridge_act list \<Rightarrow> bridge \<Rightarrow> bridge option" where
  "bridge_run c [] b = Some b"
| "bridge_run c (a # as) b = (if enabled a b then bridge_run c as (bridge_do c a b) else None)"

lemma bridge_run_reachable: "bridge_run c as b = Some b' \<Longrightarrow> bridge_reachable c b \<Longrightarrow> bridge_reachable c b'"
  by (induction as arbitrary: b) (auto split: if_splits intro: step bridge_step.intros)

lemma new_bridge_good: "bridge_start b \<Longrightarrow> good b"
  by (auto simp: bridge_start_def good_def good_defs new_bridge_def new_life_def new_push_def new_backlog_def
      audio_ok_def pinv_def pinv_defs started_def ended_def proto_of_def less_2_cases_iff)

lemma bridge_do_reaches: "good b \<Longrightarrow> enabled a b \<Longrightarrow> reaches b (bridge_do c a b)"
proof (cases a)
  case (ActTurn now r i)
  assume "good b" "enabled a b"
  then show ?thesis using ActTurn refines_turn_step[of i b c now r] by (simp add: reaches_refines good_def)
next
  case (ActAudio now inp k)
  assume "good b" "enabled a b"
  then show ?thesis using ActAudio refines_audio_step[of k b now inp] by (simp add: reaches_refines good_def)
next
  case (ActWorker now r)
  assume g: "good b" and e: "enabled a b"
  then have p: "pinv (proto_of b)" by (simp add: good_def)
  show ?thesis
  proof (cases "may_open b r")
    case True
    then have "orefines b (worker_step c now r b)" "br_lock b = None"
      using worker_open_refines[OF p True] e ActWorker by simp_all
    then show ?thesis using orefines_good[of b] g ActWorker by (simp add: reaches_def orefines_def)
  next
    case False
    then show ?thesis using worker_refines[OF p False] reaches_prefines g ActWorker by simp
  qed
next
  case (ActConnect e)
  assume g: "good b" and e: "enabled a b"
  have "reaches b (upd_life (\<lambda>l. l\<lparr>lf_registered := True\<rparr>) b)"
    using lrefines_good[OF lrefines_life g] g by (simp add: good_def close_inv_def upd_life_def)
  then show ?thesis using ActConnect reaches_refl[OF g] by (simp add: connect_internal_services_def Let_def)
next
  case (ActLinkDown e)
  assume g: "good b" and en: "enabled a b"
  let ?b = "b\<lparr>br_link := (br_link b)\<lparr>lk_fail := Some e\<rparr>\<rparr>"
  have eq: "proto_of ?b = (proto_of b)\<lparr>p_up := False\<rparr>" by (simp add: proto_of_def)
  have "pstep (proto_of b) (proto_of ?b)" unfolding eq by (rule p_down)
  then have "prefines b ?b" by (simp add: prefines_def kept_turns_def audio_ok_def r_into_rtranclp)
  then show ?thesis using reaches_prefines g ActLinkDown by simp
qed (simp_all add: ctl_step_reaches message_reaches transcription_reaches transcriber_handlers reaches_prefines prefines_watch
    close_enter_reaches close_begin_reaches close_step_reaches prefines_backlog enqueue_push_def)

lemma reachable_good: "bridge_reachable c b \<Longrightarrow> good b"
  by (induction rule: bridge_reachable.induct)
     (auto simp: new_bridge_good elim!: bridge_step.cases dest: bridge_do_reaches[unfolded reaches_def])

end
