(* ===== verification/Bridge_Shutdown.thy ===== *)
theory Bridge_Shutdown
  imports Bridge_System
begin

text \<open>
  The closing of a session from the outside: once \<open>close_all\<close> is past the client's turns, every turn
  the client saw start has its end. The invariant \<open>shut\<close> says what is over at each point of the closing;
  \<open>still\<close> and \<open>mild\<close> say what the steps of the other tasks leave alone.
\<close>

section \<open>The contract without new turns\<close>

lemma pstep_length: "pstep s t \<Longrightarrow> length (p_turns s) \<le> length (p_turns t)"
  by (induction rule: pstep.induct) auto

lemma pstep_no_new:
  assumes "pstep s t" "length (p_turns t) = length (p_turns s)"
    "\<forall>i<length (p_turns s). fst (p_turns s ! i) \<noteq> SNew"
  shows "(\<forall>i<length (p_turns t). fst (p_turns t ! i) \<noteq> SNew) \<and> (p_active_no t = None \<or> p_active_no t = p_active_no s)"
  using assms
proof (induction rule: pstep.induct)
  case (p_finish i s n s1)
  then show ?case by (auto simp: nth_list_update)
qed (auto simp: nth_list_update)

lemma psteps_no_new:
  assumes "pstep\<^sup>*\<^sup>* s t" "length (p_turns t) = length (p_turns s)"
    "\<forall>i<length (p_turns s). fst (p_turns s ! i) \<noteq> SNew"
  shows "(\<forall>i<length (p_turns t). fst (p_turns t ! i) \<noteq> SNew) \<and> (p_active_no t = None \<or> p_active_no t = p_active_no s)"
proof -
  have "length (p_turns s) \<le> length (p_turns t) \<and> (length (p_turns t) = length (p_turns s) \<longrightarrow>
      (\<forall>i<length (p_turns t). fst (p_turns t ! i) \<noteq> SNew) \<and> (p_active_no t = None \<or> p_active_no t = p_active_no s))"
    using assms(1)
  proof (induction rule: rtranclp_induct)
    case base
    then show ?case using assms(3) by simp
  next
    case (step u v)
    have l: "length (p_turns u) \<le> length (p_turns v)" using step(2) by (rule pstep_length)
    show ?case
    proof (intro conjI impI)
      show "length (p_turns s) \<le> length (p_turns v)" using l step.IH by simp
    next
      assume eq: "length (p_turns v) = length (p_turns s)"
      with l step.IH have u: "length (p_turns u) = length (p_turns s)" by simp
      with step.IH have U: "\<forall>i<length (p_turns u). fst (p_turns u ! i) \<noteq> SNew"
        "p_active_no u = None \<or> p_active_no u = p_active_no s" by simp_all
      have V: "(\<forall>i<length (p_turns v). fst (p_turns v ! i) \<noteq> SNew) \<and> (p_active_no v = None \<or> p_active_no v = p_active_no u)"
        by (rule pstep_no_new[OF step(2) _ U(1)]) (simp add: eq u)
      then show "\<forall>i<length (p_turns v). fst (p_turns v ! i) \<noteq> SNew" by simp
      show "p_active_no v = None \<or> p_active_no v = p_active_no s" using V U(2) by auto
    qed
  qed
  then show ?thesis using assms(2) by simp
qed

lemma psteps_active_no:
  assumes "pstep\<^sup>*\<^sup>* s t" "pinv s" "length (p_turns t) = length (p_turns s)"
    "\<And>i. i < length (p_turns s) \<Longrightarrow> fst (p_turns s ! i) = SNew \<Longrightarrow> fst (p_turns t ! i) = SNew"
  shows "p_active_no t = None \<or> p_active_no t = p_active_no s"
proof (cases "\<exists>i<length (p_turns s). fst (p_turns s ! i) = SNew")
  case True
  then obtain i where i: "i < length (p_turns t)" "fst (p_turns t ! i) = SNew" using assms(3,4) by auto
  have t: "pinv t" using psteps_pinv assms(1,2) by blast
  have "p_active_no t = None"
  proof (rule ccontr)
    assume "p_active_no t \<noteq> None"
    then obtain n j where j: "j < length (p_turns t)" "p_turns t ! j = (SLive, n)"
      using pinv_active_no(2)[OF t] by auto
    then show False using pinv_unique(3)[OF t i(1), of j] i(2) by (cases "j = i") auto
  qed
  then show ?thesis by simp
next
  case False
  then show ?thesis using psteps_no_new[OF assms(1,3)] by blast
qed

section \<open>What is over at each point of the closing\<close>

fun past_worker :: "close_pc \<Rightarrow> bool" where
  "past_worker XNone = False"
| "past_worker (XTurn _ _) = False"
| "past_worker _ = True"

fun past_tasks :: "close_pc \<Rightarrow> bool" where
  "past_tasks (XTasks _) = True"
| "past_tasks (XStt _) = True"
| "past_tasks XTracker = True"
| "past_tasks XDone = True"
| "past_tasks _ = False"

definition new_cancelled :: "bridge \<Rightarrow> bool" where
  "new_cancelled b \<longleftrightarrow> (\<forall>i<length (br_turns b). tn_pc (the_turn b i) = TNew \<longrightarrow> tn_cancel (the_turn b i))"

definition worker_ending :: "bridge \<Rightarrow> bool" where
  "worker_ending b \<longleftrightarrow> (waits_only (bl_pc (br_backlog b)) \<longrightarrow> bl_cancel (br_backlog b))"

definition turn_given_up :: "bridge \<Rightarrow> bool" where
  "turn_given_up b \<longleftrightarrow> (\<forall>n. br_active_no b = Some n \<longrightarrow> lf_end_sent (br_life b) = Some n)"

definition shut :: "bridge \<Rightarrow> bool" where
  "shut b \<longleftrightarrow>
     (lf_close (br_life b) \<noteq> XNone \<longrightarrow> lf_closing (br_life b) \<and> new_cancelled b)
     \<and> (\<forall>s i. lf_close (br_life b) = XTurn s i \<longrightarrow> (\<forall>j<length (br_turns b). j \<noteq> i \<longrightarrow> turn_done b j))
     \<and> (past_worker (lf_close (br_life b)) \<longrightarrow> turn_given_up b \<and> worker_ending b)
     \<and> (past_tasks (lf_close (br_life b)) \<longrightarrow> \<not> pu_open (br_push b))"

definition mild :: "bridge \<Rightarrow> bridge \<Rightarrow> bool" where
  "mild b b' \<longleftrightarrow>
     lf_close (br_life b') = lf_close (br_life b) \<and> (lf_closing (br_life b) \<longrightarrow> lf_closing (br_life b'))
     \<and> lf_end_sent (br_life b') = lf_end_sent (br_life b)
     \<and> (lf_close (br_life b) \<noteq> XNone \<longrightarrow>
          length (br_turns b') = length (br_turns b) \<and> (new_cancelled b \<longrightarrow> new_cancelled b')
          \<and> (\<forall>i<length (br_turns b). turn_done b i \<longrightarrow> turn_done b' i)
          \<and> (br_active_no b' = None \<or> br_active_no b' = br_active_no b))
     \<and> (past_worker (lf_close (br_life b)) \<longrightarrow>
          (worker_ending b \<longrightarrow> worker_ending b') \<and> (pu_open (br_push b') \<longrightarrow> pu_open (br_push b)))"

lemma past_tasks_worker: "past_tasks pc \<Longrightarrow> past_worker pc"
  by (cases pc) auto

lemma past_worker_closing: "past_worker pc \<Longrightarrow> pc \<noteq> XNone"
  by (cases pc) auto

lemma mild_shut:
  assumes "mild b b'" "shut b" shows "shut b'"
proof -
  have c: "lf_close (br_life b') = lf_close (br_life b)" using assms(1) by (simp add: mild_def)
  show ?thesis unfolding shut_def c
  proof (intro conjI impI allI)
    assume "lf_close (br_life b) \<noteq> XNone"
    then show "lf_closing (br_life b')" "new_cancelled b'" using assms by (simp_all add: mild_def shut_def)
  next
    fix s i j
    assume "lf_close (br_life b) = XTurn s i" "j < length (br_turns b')" "j \<noteq> i"
    then show "turn_done b' j" using assms by (auto simp: mild_def shut_def)
  next
    assume p: "past_worker (lf_close (br_life b))"
    note n = past_worker_closing[OF p]
    show "turn_given_up b'" using p n assms by (auto simp: mild_def shut_def turn_given_up_def)
    show "worker_ending b'" using p n assms by (simp add: mild_def shut_def)
  next
    assume p: "past_tasks (lf_close (br_life b))"
    show "\<not> pu_open (br_push b')" using p past_tasks_worker[OF p] assms by (auto simp: mild_def shut_def)
  qed
qed

text \<open>A step of the contract that leaves the turns alone, or only ends them, is mild.\<close>

lemma active_no_kept:
  assumes "pstep\<^sup>*\<^sup>* (proto_of b) (proto_of b')" "good b" "length (br_turns b') = length (br_turns b)"
    "\<And>i. i < length (br_turns b) \<Longrightarrow> tn_pc (br_turns b ! i) = TNew \<Longrightarrow> tn_pc (br_turns b' ! i) = TNew"
  shows "br_active_no b' = None \<or> br_active_no b' = br_active_no b"
  using psteps_active_no[OF assms(1)] assms(2-4) by (simp add: good_def turn_abs_def)

lemma mild_prefines:
  assumes "prefines b b'" "good b" "worker_ending b \<longrightarrow> worker_ending b'"
  shows "mild b b'"
proof -
  have k: "br_turns b' = br_turns b" "lf_close (br_life b') = lf_close (br_life b)"
    "lf_closing (br_life b') = lf_closing (br_life b)" "lf_end_sent (br_life b') = lf_end_sent (br_life b)"
    "pu_open (br_push b') \<longrightarrow> pu_open (br_push b)"
    using assms(1) by (simp_all add: prefines_def kept_turns_def)
  have "br_active_no b' = None \<or> br_active_no b' = br_active_no b"
    using assms(1,2) k(1) by (intro active_no_kept) (simp_all add: prefines_def)
  then show ?thesis using k assms(3) by (simp add: mild_def new_cancelled_def turn_done_def the_turn_def)
qed

section \<open>Turns and audio\<close>

lemma mild_turn_step:
  assumes "shut b" "good b" "enabled (ActTurn now r i) b"
  shows "mild b (turn_step c now r i b)" (is "mild b ?b")
proof -
  have i: "i < length (br_turns b)" using assms(3) by simp
  have R: "refines b ?b" using refines_turn_step[OF i] assms(2) by (simp add: good_def)
  then have k: "kept b ?b" by (simp add: refines_def)
  have len: "length (br_turns ?b) = length (br_turns b)"
    and new: "\<And>j. tn_pc (br_turns ?b ! j) = TNew \<Longrightarrow> br_turns ?b ! j = br_turns b ! j"
    and don: "\<And>j. tn_pc (br_turns b ! j) = TDone \<Longrightarrow> tn_pc (br_turns ?b ! j) = TDone"
    using k by (simp_all add: kept_def kept_points_def)
  have act: "br_active_no ?b = None \<or> br_active_no ?b = br_active_no b" if "lf_close (br_life b) \<noteq> XNone"
  proof (cases "tn_pc (the_turn b i) = TNew")
    case True
    then have "tn_cancel (the_turn b i)" using assms(1) i that by (simp add: shut_def new_cancelled_def)
    then have "r \<noteq> RGo" using assms(3) True by simp
    then show ?thesis using True i
      by (cases r) (simp_all add: turn_step_def turn_resume_def the_turn_def upd_turn_def turn_at_def)
  next
    case False
    show ?thesis
    proof (rule active_no_kept[OF _ assms(2) len])
      show "pstep\<^sup>*\<^sup>* (proto_of b) (proto_of ?b)" using R by (simp add: refines_def)
      fix j assume j: "j < length (br_turns b)" "tn_pc (br_turns b ! j) = TNew"
      have "tn_pc (br_turns b ! i) = TDone"
        using pinv_unique(3)[of "proto_of b" j i] assms(2) i j False
        by (auto simp: good_def turn_abs_def the_turn_def)
      then have "?b = b \<or> ?b = upd_turn i (\<lambda>t. t\<lparr>tn_cancel := False\<rparr>) b"
        using i by (auto simp: turn_step_def turn_resume_def the_turn_def upd_turn_def)
      then show "tn_pc (br_turns ?b ! j) = TNew" using j i
        by (auto simp: upd_turn_def nth_list_update)
    qed
  qed
  have "lf_close (br_life b) \<noteq> XNone \<longrightarrow> new_cancelled b \<longrightarrow> new_cancelled ?b"
    using new len by (auto simp: new_cancelled_def the_turn_def)
  moreover have "\<forall>j. turn_done b j \<longrightarrow> turn_done ?b j" using don by (simp add: turn_done_def the_turn_def)
  moreover have "worker_ending ?b = worker_ending b" using k by (simp add: kept_def worker_ending_def)
  ultimately show ?thesis using k len act by (simp add: mild_def kept_def)
qed

lemma audio_step_active_no: "br_active_no (audio_step now inp a b) = br_active_no b"
  by (auto simp: audio_step_def Let_def audio_end_def upd_audio_def audio_progress_def upd_turn_def mark_gone_def
      split: audio_pc.split audio_in.split list.split sum.split option.split)

lemma mild_audio_step:
  assumes "good b" "a < length (br_audios b)"
  shows "mild b (audio_step now inp a b)" (is "mild b ?b")
proof -
  have k: "kept b ?b" using refines_audio_step assms by (simp add: good_def refines_def)
  then have "new_cancelled b \<longrightarrow> new_cancelled ?b"
    by (auto simp: new_cancelled_def the_turn_def kept_def kept_points_def)
  moreover have "\<forall>j. turn_done b j \<longrightarrow> turn_done ?b j"
    using k by (simp add: turn_done_def the_turn_def kept_def kept_points_def)
  moreover have "worker_ending ?b = worker_ending b" using k by (simp add: kept_def worker_ending_def)
  ultimately show ?thesis using k by (simp add: mild_def kept_def kept_points_def audio_step_active_no)
qed

section \<open>The push worker\<close>

definition not_waiting :: "bridge \<Rightarrow> bool" where
  "not_waiting b \<longleftrightarrow> \<not> waits_only (bl_pc (br_backlog b))"

lemma not_waiting_at: "\<not> waits_only pc \<Longrightarrow> not_waiting (worker_at pc b)"
  by (simp add: not_waiting_def worker_at_def)

lemma not_waiting_next: "lf_closing (br_life b) \<Longrightarrow> not_waiting (worker_next b)"
  by (simp add: not_waiting_def worker_next_def event_over_def Let_def)

lemma not_waiting_over: "not_waiting (worker_over b)"
  by (simp add: not_waiting_def worker_over_def)

lemma closing_fields [simp]:
  "br_life (worker_at pc b) = br_life b" "br_life (upd_stats f b) = br_life b"
  "br_life (add_send_ms now t0 b) = br_life b" "br_life (add_end_ms now t0 b) = br_life b"
  "br_life (add_drain_ms now t0 b) = br_life b" "br_life (add_close_ms now t0 b) = br_life b"
  "br_life (stream_close h b) = br_life b" "br_life (audio_cancel a b) = br_life b"
  "br_life (audio_cancel_opt x b) = br_life b" "br_life (snd (close_push_turn n b)) = br_life b"
  by (simp_all add: worker_at_def upd_stats_def add_send_ms_def add_end_ms_def add_drain_ms_def add_close_ms_def
      stream_close_def audio_cancel_def audio_cancel_opt_def close_push_turn_def split: option.split)

lemma not_waiting_finish: "lf_closing (br_life b) \<Longrightarrow> not_waiting (push_end_finish now n b)"
  by (simp add: push_end_finish_def Let_def not_waiting_next split: option.split)

lemma not_waiting_close: "lf_closing (br_life b) \<Longrightarrow> not_waiting (push_end_close now n t0 b)"
  by (simp add: push_end_close_def Let_def not_waiting_at not_waiting_finish split: option.split)

lemma not_waiting_drain:
  "lf_closing (br_life b) \<Longrightarrow> not_waiting (push_drain_check c now n t0 a b)"
  "lf_closing (br_life b) \<Longrightarrow> not_waiting (push_end_drain c now n b)"
  by (simp_all add: push_drain_check_def push_end_drain_def Let_def not_waiting_at not_waiting_close split: option.split)

lemmas not_waiting_end = not_waiting_finish not_waiting_close not_waiting_drain

lemma drop_push_life:
  "drop_push_tts b = DropNothing b1 \<Longrightarrow> br_life b1 = br_life b"
  "drop_push_tts b = DropWaits h b1 \<Longrightarrow> br_life b1 = br_life b"
  "drop_push_tts b = DropCloses b1 \<Longrightarrow> br_life b1 = br_life b"
  by (auto simp: drop_push_tts_def Let_def upd_stats_def split: option.splits if_splits)

lemma not_waiting_after_drop: "lf_closing (br_life b) \<Longrightarrow> not_waiting (after_push_drop c now k t0 b)"
  by (simp add: after_push_drop_def not_waiting_next not_waiting_end split: option.split)

lemma not_waiting_worker_drop:
  assumes "lf_closing (br_life b)"
  shows "not_waiting (worker_drop c now k t0 b)"
proof (cases "drop_push_tts b")
  case (DropNothing b1)
  then show ?thesis
    using assms drop_push_life(1)[OF DropNothing] by (simp add: worker_drop_def not_waiting_after_drop)
qed (simp_all add: worker_drop_def not_waiting_at)

lemma not_waiting_cancelled: "not_waiting (drop_cancelled now k t0 b)" "not_waiting (worker_cancelled b)"
  by (simp_all add: drop_cancelled_def worker_cancelled_def not_waiting_over)

lemmas not_waiting_drop = not_waiting_after_drop not_waiting_worker_drop not_waiting_cancelled

lemma not_waiting_connected: "lf_closing (br_life b) \<Longrightarrow> not_waiting (push_connected now n ok b)"
  by (simp add: push_connected_def stream_open_def spawn_audio_def Let_def not_waiting_next not_waiting_at)

lemma worker_stays_ending:
  assumes "lf_closing (br_life b)" "worker_ending b" "enabled (ActWorker now r) b"
  shows "worker_ending (worker_step c now r b)"
proof (cases "waits_only (bl_pc (br_backlog b))")
  case True
  then have c: "bl_cancel (br_backlog b)" using assms(2) by (simp add: worker_ending_def)
  then have "r \<noteq> RGo" using True assms(3) by simp
  moreover have "worker_ending (worker_over b)" "worker_ending (worker_cancelled b)"
    using not_waiting_over not_waiting_cancelled(2) by (simp_all add: not_waiting_def worker_ending_def)
  ultimately show ?thesis using True assms(2)
    by (cases "bl_pc (br_backlog b)"; cases r) (simp_all add: worker_step_def)
next
  case False
  have "not_waiting (worker_step c now r b)"
    using False assms(1)
    by (cases "bl_pc (br_backlog b)"; cases r)
       (simp_all add: worker_step_def not_waiting_next not_waiting_at not_waiting_end not_waiting_drop
        not_waiting_connected not_waiting_def[of b])
  then show ?thesis by (simp add: not_waiting_def worker_ending_def)
qed

lemma mild_worker_step:
  assumes "shut b" "good b" "enabled (ActWorker now r) b"
  shows "mild b (worker_step c now r b)" (is "mild b ?b")
proof -
  have p: "pinv (proto_of b)" using assms(2) by (simp add: good_def)
  have e: "past_worker (lf_close (br_life b)) \<Longrightarrow> worker_ending b \<and> worker_ending ?b"
    using worker_stays_ending[OF _ _ assms(3)] assms(1) past_worker_closing by (auto simp: shut_def)
  have turns: "br_turns ?b = br_turns b" "lf_close (br_life ?b) = lf_close (br_life b)"
    "lf_closing (br_life ?b) = lf_closing (br_life b)" "lf_end_sent (br_life ?b) = lf_end_sent (br_life b)"
    and steps: "pstep\<^sup>*\<^sup>* (proto_of b) (proto_of ?b)"
    using worker_refines[OF p] worker_open_refines[OF p]
    by (cases "may_open b r"; simp add: prefines_def kept_turns_def orefines_def kept_base_def)+
  have "br_active_no ?b = None \<or> br_active_no ?b = br_active_no b"
    by (rule active_no_kept[OF steps assms(2)]) (simp_all add: turns)
  moreover have "pu_open (br_push ?b) \<longrightarrow> pu_open (br_push b)" if "past_worker (lf_close (br_life b))"
  proof -
    have "\<not> may_open b r"
    proof
      assume m: "may_open b r"
      then have "waits_only (bl_pc (br_backlog b))" by (auto simp: may_open_iff)
      then show False using m e[OF that] assms(3) by (auto simp: may_open_iff worker_ending_def)
    qed
    then show ?thesis using worker_refines[OF p] by (simp add: prefines_def kept_turns_def)
  qed
  ultimately show ?thesis using turns e by (simp add: mild_def new_cancelled_def turn_done_def the_turn_def)
qed

section \<open>The client's tasks\<close>

definition still :: "bridge \<Rightarrow> bridge \<Rightarrow> bool" where
  "still b b' \<longleftrightarrow>
     lf_close (br_life b') = lf_close (br_life b) \<and> lf_closing (br_life b') = lf_closing (br_life b)
     \<and> lf_end_sent (br_life b') = lf_end_sent (br_life b) \<and> br_backlog b' = br_backlog b
     \<and> (pu_open (br_push b') \<longrightarrow> pu_open (br_push b))
     \<and> (lf_closing (br_life b) \<longrightarrow> length (br_turns b') = length (br_turns b)
          \<and> (\<forall>i. tn_pc (br_turns b' ! i) = tn_pc (br_turns b ! i)
                 \<and> (tn_cancel (br_turns b ! i) \<longrightarrow> tn_cancel (br_turns b' ! i))))"

lemma still_refl [simp]: "still b b"
  by (simp add: still_def)

lemma still_trans: "still a b \<Longrightarrow> still b c \<Longrightarrow> still a c"
  by (simp add: still_def)

lemma still_same:
  "br_life b' = br_life b \<Longrightarrow> br_backlog b' = br_backlog b \<Longrightarrow> br_push b' = br_push b \<Longrightarrow>
   br_turns b' = br_turns b \<Longrightarrow> still b b'"
  by (simp add: still_def)

lemma still_steps [simp]:
  "still b (ctl_at k pc b)" "still b (b\<lparr>br_lock := l\<rparr>)" "still b (tell m b)" "still b (note_event now st meta b)"
  "still b (forget_active i b)" "still b (stream_close h b)" "still b (audio_cancel_opt x b)" "still b (b\<lparr>br_act := a\<rparr>)"
  "still b (note_close_reason s b)" "still b (mark_gone b)" "still b (stt_call y b)" "still b (b\<lparr>br_link := l'\<rparr>)"
  by (simp_all add: still_def ctl_at_def forget_active_def stream_close_def audio_cancel_opt_def audio_cancel_def
      note_close_reason_def mark_gone_def stt_call_def split: option.split)

lemma still_turn_cancel [simp]: "still b (turn_cancel i b)"
  by (cases "i < length (br_turns b)") (auto simp: still_def turn_cancel_def upd_turn_def nth_list_update list_update_beyond)

lemma still_push: "pu_open (f (br_push b)) \<longrightarrow> pu_open (br_push b) \<Longrightarrow> still b (upd_push f b)"
  by (simp add: still_def upd_push_def)

lemma still_stats [simp]: "still b (upd_stats f b)"
  by (simp add: upd_stats_def still_push)

lemma still_close_push [simp]: "still b (snd (close_push_turn n b))"
proof -
  have "still b (upd_push (\<lambda>p. p\<lparr>pu_open := False, pu_opened_at := None\<rparr>) b)" by (rule still_push) simp
  then show ?thesis using still_trans[OF _ still_steps(3)] by (simp add: close_push_turn_def)
qed

lemma still_drop:
  "drop_push_tts b = DropNothing b1 \<Longrightarrow> still b b1"
  "drop_push_tts b = DropWaits h b1 \<Longrightarrow> still b b1"
  "drop_push_tts b = DropCloses b1 \<Longrightarrow> still b b1"
proof -
  let ?d = "upd_stats (\<lambda>s. s\<lparr>ps_dropped := True\<rparr>) (upd_push (\<lambda>p. p\<lparr>pu_tts := None, pu_audio := None\<rparr>) b)"
  have "still b (upd_push (\<lambda>p. p\<lparr>pu_tts := None, pu_audio := None\<rparr>) b)" by (rule still_push) simp
  then have d: "still b ?d" by (rule still_trans) simp
  have s: "still b (stream_close x ?d)" "still b (audio_cancel_opt y ?d)" for x y
    by (rule still_trans[OF d]; simp)+
  show "drop_push_tts b = DropNothing b1 \<Longrightarrow> still b b1" "drop_push_tts b = DropWaits h b1 \<Longrightarrow> still b b1"
    "drop_push_tts b = DropCloses b1 \<Longrightarrow> still b b1"
    using s by (auto simp: drop_push_tts_def Let_def split: option.splits if_splits)
qed

lemma still_cut_abort: "still b (cut_state (cut_abort c n b))"
  by (simp add: cut_abort_def cut_finish_def)

lemma still_cut_step: "still b (cut_state (cut_step c r pc b))"
  by (cases pc; cases r) (simp_all add: cut_step_def cut_finish_def still_cut_abort)

lemma still_cut_push: "still b (cut_state (cut_push c e b))"
proof (cases "drop_push_tts b")
  case (DropNothing b1)
  then show ?thesis using still_trans[OF still_drop(1)[OF DropNothing] still_cut_abort]
    by (simp add: cut_push_def split: option.split)
next
  case (DropWaits h b1)
  then show ?thesis using still_drop(2)[OF DropWaits] by (simp add: cut_push_def split: option.split)
next
  case (DropCloses b1)
  then show ?thesis using still_drop(3)[OF DropCloses] by (simp add: cut_push_def split: option.split)
qed

text \<open>Composition: a still step after a still one.\<close>

lemma still_then:
  assumes "still b b1"
  shows "still b (ctl_at k pc b1)" "still b (lock_take k b1)" "still b (lock_release b1)" "still b (tell m b1)"
    "still b (note_event now st meta b1)" "still b (forget_active i b1)" "still b (turn_cancel i b1)"
    "still b (note_close_reason s b1)" "still b (mark_gone b1)" "still b (stt_call y b1)" "still b (b1\<lparr>br_act := a\<rparr>)"
    "still b (note_disconnect_code code b1)"
  using still_trans[OF assms]
  by (simp_all add: lock_take_def lock_release_def note_disconnect_code_def)

lemma still_raise: "still b b1 \<Longrightarrow> still b (ctl_raise k e b1)"
  by (simp add: ctl_raise_def still_then)

lemma still_new_turn: "\<not> lf_closing (br_life b) \<Longrightarrow> still b (b\<lparr>br_turns := ts, br_active := x, br_active_at := y\<rparr>)"
  by (simp add: still_def)

lemma still_create:
  assumes "still b b1" shows "still b (start_create now k x b1)"
  using assms still_trans[OF assms still_new_turn] by (simp add: start_create_def Let_def still_then)

lemma still_start_result: "still b (cut_state r) \<Longrightarrow> still b (start_cut_result now k x r)"
  by (cases r) (simp_all add: start_cut_result_def still_create still_then still_raise)

lemma still_start_cut: "still b b1 \<Longrightarrow> still b (start_cut c now k x b1)"
  using still_start_result still_trans[OF _ still_cut_push] by (simp add: start_cut_def)

lemma still_barge: "still b b1 \<Longrightarrow> still b (barge_done now k i b1)"
  by (simp add: barge_done_def still_then)

lemma still_cancel_result: "still b b1 \<Longrightarrow> still b (cancel_result now k kc done i b1)"
  by (cases kc) (simp_all add: cancel_result_def still_then still_barge split: option.split)

lemma still_cancel_turn: "still b b1 \<Longrightarrow> still b (cancel_turn now k kc b1)"
  by (simp add: cancel_turn_def still_then still_cancel_result split: option.split)

lemma still_cut_result:
  "still b (cut_state r) \<Longrightarrow> still b (cut_result_of now k p kc r)"
  by (cases r; cases kc) (simp_all add: cut_result_of_def still_then still_raise still_barge Let_def)

lemma still_ctl_step: "still b (ctl_step c now r k b)"
proof -
  have lock: "still b (lock_take k b)" by (simp add: still_then)
  show ?thesis
    by (cases "br_ctl b ! k"; cases r)
       (simp_all add: ctl_step_def start_locked_def cancel_locked_def still_then still_raise still_cancel_result
        still_start_cut still_start_result still_cut_result still_cut_step still_trans[OF lock still_cut_push] Let_def
        split: option.split)
qed

lemma still_mild:
  assumes "still b b'" "reaches b b'" "good b" "shut b"
  shows "mild b b'"
proof (cases "lf_closing (br_life b)")
  case True
  then have "br_active_no b' = None \<or> br_active_no b' = br_active_no b"
    using assms by (intro active_no_kept) (simp_all add: reaches_def still_def)
  then show ?thesis
    using assms(1) True by (simp add: mild_def still_def new_cancelled_def worker_ending_def turn_done_def the_turn_def)
next
  case False
  then have "lf_close (br_life b) = XNone" using assms(4) by (simp add: shut_def)
  then show ?thesis using assms(1) by (simp add: mild_def still_def)
qed

lemma still_transcription: "still b (on_transcription c now x is_final b)"
proof (cases "put (CPartial x) (br_link b)")
  case (Inr l)
  have "still b (b\<lparr>br_link := l\<rparr>)" by simp
  then show ?thesis using Inr
    by (simp add: on_transcription_def Let_def still_then still_cancel_turn)
qed (simp add: on_transcription_def still_then still_cancel_turn)

lemma still_message: "still b (client_message c now has_stt m b)"
proof -
  have s: "still b (b\<lparr>br_act := (br_act b)\<lparr>ac_client := now\<rparr>\<rparr>)" by simp
  have a: "still b ((b\<lparr>br_act := x\<rparr>)\<lparr>br_act := y\<rparr>)" for x y by simp
  have "still b (on_text c now has_stt raw parsed (b\<lparr>br_act := x\<rparr>))" for raw parsed x
    by (simp add: on_text_def start_turn_def send_invalid_message_def still_then still_cancel_turn
        split: option.split json.split)
  then show ?thesis using s
    by (cases m) (simp_all add: client_message_def Let_def still_then still_raise)
qed

lemma still_notify: "still b (snd (notify_service_status svc st code msg prop b))"
  by (simp add: notify_service_status_def split: sum.split)

lemma still_transcriber:
  "still b (on_transcriber_warning code msg b)" "still b (on_transcriber_status st reason b)"
  "still b (on_transcriber_incomplete now reason b)" "still b (on_transcriber_state_change s b)"
proof -
  have "still b (snd (notify_service_status u v w x y (set_busy z b)))" for u v w x y z
    by (rule still_trans[OF _ still_notify]) (simp add: set_busy_def)
  then show "still b (on_transcriber_status st reason b)"
    by (simp only: on_transcriber_status_def Let_def) simp
qed (simp_all add: on_transcriber_warning_def on_transcriber_incomplete_def on_transcriber_state_change_def still_notify)

lemma still_watch:
  "still b (snd (idle_watchdog c now b))" "still b (snd (silence_resume c now stt heard pc b))"
  "still b (snd (session_revalidation c interval now x b))" "still b (run_begin c now b)"
  "still b (snd (snd (run_end res foreign b)))" "still b (snd (supervise_done name e b))"
proof -
  show "still b (snd (idle_watchdog c now b))" by (simp add: idle_watchdog_def Let_def)
  have "still b (snd (silence_tick c now stt heard w b))" for w
    using still_notify by (simp add: silence_tick_def still_then Let_def)
  then show "still b (snd (silence_resume c now stt heard pc b))"
    by (simp add: silence_resume_def split: silence_pc.split)
  show "still b (snd (session_revalidation c interval now x b))"
    by (simp add: session_revalidation_def revoke_session_def still_then split: session_lookup.split)
  show "still b (run_begin c now b)" by (simp add: run_begin_def still_then)
  show "still b (snd (snd (run_end res foreign b)))" by (simp add: run_end_def split: option.split)
  show "still b (snd (supervise_done name e b))" by (simp add: supervise_done_def split: option.split)
qed

section \<open>The closing itself\<close>

definition base :: "bridge \<Rightarrow> bool" where
  "base b \<longleftrightarrow> lf_closing (br_life b) \<and> new_cancelled b \<and> turn_given_up b
     \<and> (pu_open (br_push b) \<longrightarrow> pu_no (br_push b) \<noteq> None)"

lemma base_fields:
  assumes "base b" "br_turns b' = br_turns b" "br_active_no b' = br_active_no b"
    "lf_closing (br_life b') = lf_closing (br_life b)" "lf_end_sent (br_life b') = lf_end_sent (br_life b)"
    "pu_open (br_push b') \<longrightarrow> pu_open (br_push b) \<and> pu_no (br_push b') = pu_no (br_push b)"
  shows "base b'"
  using assms by (auto simp: base_def new_cancelled_def turn_given_up_def the_turn_def)

lemma base_shut:
  assumes "base b" "worker_ending b" "past_tasks pc \<longrightarrow> \<not> pu_open (br_push b)" "\<And>s i. pc \<noteq> XTurn s i"
  shows "shut (close_at pc b)"
  using assms
  by (auto simp: shut_def base_def close_at_def upd_life_def new_cancelled_def turn_given_up_def worker_ending_def
      turn_done_def the_turn_def)

lemma worker_cancel_ending: "worker_ending (worker_cancel b)"
  by (simp add: worker_ending_def worker_cancel_def)

lemma base_worker_cancel: "base b \<Longrightarrow> base (worker_cancel b)"
  by (erule base_fields) (simp_all add: worker_cancel_def upd_backlog_def)

lemma shut_tasks:
  assumes "base b" shows "shut (close_tasks s b)"
proof -
  define b1 where "b1 = (case pu_no (br_push b) of None \<Rightarrow> b | Some n \<Rightarrow> snd (close_push_turn n b))"
  have o: "\<not> pu_open (br_push b1)"
    using assms close_push_closes by (auto simp: b1_def base_def split: option.split)
  have "base b1"
    using assms unfolding b1_def
    by (cases "pu_no (br_push b)") (auto simp: close_push_turn_def upd_push_def elim: base_fields)
  then have "shut (close_at (XTasks s) (worker_cancel b1))"
    by (rule base_shut[OF base_worker_cancel worker_cancel_ending])
       (simp_all add: o worker_cancel_def upd_backlog_def)
  then show ?thesis by (simp add: close_tasks_def b1_def Let_def)
qed

lemma shut_tts:
  assumes "base b" "worker_ending b" shows "shut (close_tts_step s b)"
proof (cases "pu_tts (br_push b)")
  case (Some h)
  have "base (stream_close h b)" using assms(1) by (rule base_fields) (simp_all add: stream_close_def)
  moreover have "worker_ending (stream_close h b)" using assms(2) by (simp add: worker_ending_def stream_close_def)
  ultimately have "shut (close_at (XTts s) (stream_close h b))" by (rule base_shut) simp_all
  then show ?thesis using Some by (simp add: close_tts_step_def)
qed (simp add: close_tts_step_def shut_tasks assms(1))

lemma shut_audio:
  assumes "base b" "worker_ending b" shows "shut (close_audio s b)"
proof -
  let ?b = "audio_cancel_opt (pu_audio (br_push b)) b"
  have "base ?b" using assms(1)
    by (rule base_fields) (simp_all add: audio_cancel_opt_def audio_cancel_def split: option.split)
  moreover have "worker_ending ?b" using assms(2)
    by (simp add: worker_ending_def audio_cancel_opt_def audio_cancel_def split: option.split)
  ultimately have "shut (close_at (XAudio s) ?b)" by (rule base_shut) simp_all
  then show ?thesis using shut_tts[OF assms] by (simp add: close_audio_def)
qed

lemma shut_drain:
  assumes "base b" "worker_ending b" shows "shut (close_drain_queue s b)"
proof -
  let ?b = "upd_backlog (\<lambda>w. w\<lparr>bl_queue := [], bl_pending := 0, bl_since := None\<rparr>) b"
  have "base ?b" using assms(1) by (rule base_fields) (simp_all add: upd_backlog_def)
  moreover have "worker_ending ?b" using assms(2) by (simp add: worker_ending_def)
  ultimately show ?thesis by (simp add: close_drain_queue_def shut_audio)
qed

lemma shut_worker:
  assumes "base b" shows "shut (close_worker s b)"
proof (cases "bl_pc (br_backlog b) = WNone")
  case True
  then have "worker_ending b" by (simp add: worker_ending_def)
  then show ?thesis using True shut_drain[OF assms] by (simp add: close_worker_def)
next
  case False
  have "shut (close_at (XWorker s) (worker_cancel b))"
    by (rule base_shut[OF base_worker_cancel[OF assms] worker_cancel_ending]) simp_all
  then show ?thesis using False by (simp add: close_worker_def)
qed

lemma idle_given_up:
  assumes "good b" "\<And>j. j < length (br_turns b) \<Longrightarrow> turn_done b j"
  shows "turn_given_up b" "new_cancelled b"
proof -
  have "no_turn_running (proto_of b)"
    using assms(2) by (auto simp: no_turn_running_nth turn_abs_def turn_done_def the_turn_def)
  then show "turn_given_up b" using idle_no_active[of "proto_of b"] assms(1) by (simp add: good_def turn_given_up_def)
  show "new_cancelled b" using assms(2) by (auto simp: new_cancelled_def turn_done_def)
qed

lemma only_turn:
  assumes "pinv (proto_of b)" "i < length (br_turns b)" "\<not> turn_done b i"
  shows "br_active b = Some i" "\<not> pu_open (br_push b)"
    "j < length (br_turns b) \<Longrightarrow> j \<noteq> i \<Longrightarrow> turn_done b j"
proof -
  have live: "fst (p_turns (proto_of b) ! i) \<noteq> SDone" and l: "i < length (p_turns (proto_of b))"
    using assms(2,3) by (simp_all add: turn_abs_def turn_done_def the_turn_def)
  note u = pinv_unique[OF assms(1) l live]
  show "br_active b = Some i" "\<not> pu_open (br_push b)" using u(1,2) by simp_all
  show "j < length (br_turns b) \<Longrightarrow> j \<noteq> i \<Longrightarrow> turn_done b j"
    using u(3)[of j] by (simp add: turn_abs_def turn_done_def the_turn_def)
qed

lemma push_numbered: "good b \<Longrightarrow> pu_open (br_push b) \<longrightarrow> pu_no (br_push b) \<noteq> None"
  using pinv_push_no by (auto simp: good_def)

lemma shut_begin:
  assumes "good b" "shut b" "lf_closing (br_life b)" "lf_close (br_life b) = XNone"
  shows "shut (close_begin st b)"
proof (cases "lf_closed (br_life b)")
  case True
  then show ?thesis using assms(2) by (simp add: close_begin_def)
next
  case False
  define b1 where "b1 = upd_life (\<lambda>l. l\<lparr>lf_registered := False\<rparr>) b"
  have b1: "br_turns b1 = br_turns b" "br_active b1 = br_active b" "br_active_no b1 = br_active_no b"
    "br_push b1 = br_push b" "lf_closing (br_life b1)" "lf_end_sent (br_life b1) = lf_end_sent (br_life b)"
    by (simp_all add: b1_def upd_life_def assms(3))
  then have same: "turn_done b1 j = turn_done b j" "the_turn b1 j = the_turn b j" for j
    by (simp_all add: turn_done_def the_turn_def)
  show ?thesis
  proof (cases "\<exists>i<length (br_turns b). \<not> turn_done b i")
    case True
    then obtain i where i: "i < length (br_turns b)" "\<not> turn_done b i" by blast
    have u: "br_active b = Some i" "j < length (br_turns b) \<Longrightarrow> j \<noteq> i \<Longrightarrow> turn_done b j" for j
      using only_turn[OF _ i] assms(1) by (simp_all add: good_def)
    have "shut (close_at (XTurn s i) (turn_cancel i b1))" for s
    proof -
      have t: "br_turns (close_at (XTurn s i) (turn_cancel i b1)) = (br_turns b)[i := (br_turns b ! i)\<lparr>tn_cancel := True\<rparr>]"
        using i(2) by (simp add: close_at_def upd_life_def turn_cancel_def upd_turn_def same b1)
      have l: "br_life (close_at (XTurn s i) (turn_cancel i b1)) = (br_life b1)\<lparr>lf_close := XTurn s i\<rparr>"
        by (simp add: close_at_def upd_life_def)
      have d: "tn_pc (br_turns b ! j) = TDone" if "j < length (br_turns b)" "j \<noteq> i" for j
        using u(2)[OF that] by (simp add: turn_done_def the_turn_def)
      have "tn_cancel ((br_turns b)[i := (br_turns b ! i)\<lparr>tn_cancel := True\<rparr>] ! j)"
        if "j < length (br_turns b)" "tn_pc ((br_turns b)[i := (br_turns b ! i)\<lparr>tn_cancel := True\<rparr>] ! j) = TNew" for j
        using that d[of j] by (cases "j = i") simp_all
      then show ?thesis
        using b1(5) d by (simp add: shut_def l new_cancelled_def turn_done_def the_turn_def t)
    qed
    moreover have "close_begin st b = close_at (XTurn (close_status st b) i) (turn_cancel i b1)"
      using False i(2) u(1) by (simp add: close_begin_def b1_def[symmetric] b1 same Let_def)
    ultimately show ?thesis by simp
  next
    case all: False
    then have d: "turn_done b j" if "j < length (br_turns b)" for j using that by blast
    have "base b1"
      using idle_given_up[OF assms(1) d] push_numbered[OF assms(1)] b1
      by (simp add: base_def new_cancelled_def turn_given_up_def the_turn_def)
    moreover have "close_begin st b = close_worker (close_status st b) b1"
      using False d assms(1)
      by (auto simp: close_begin_def b1_def[symmetric] b1 same Let_def good_def active_inv_def split: option.split)
    ultimately show ?thesis by (simp add: shut_worker)
  qed
qed

lemma shut_turn_waited:
  assumes "good b" "shut b" "lf_close (br_life b) = XTurn s i"
  shows "shut (close_turn_waited s' i b)"
proof -
  have S: "lf_closing (br_life b)" "new_cancelled b" "\<And>j. j < length (br_turns b) \<Longrightarrow> j \<noteq> i \<Longrightarrow> turn_done b j"
    using assms(2,3) by (simp_all add: shut_def)
  note p = push_numbered[OF assms(1)]
  show ?thesis
  proof (cases "turn_done b i")
    case True
    then have "turn_given_up b" using idle_given_up(1)[OF assms(1)] S(3) by (metis)
    then have "base b" using S p by (simp add: base_def)
    then show ?thesis using True by (simp add: close_turn_waited_def shut_worker)
  next
    case False
    show ?thesis
    proof (cases "br_active_no b")
      case None
      then have "base b" using S p by (simp add: base_def turn_given_up_def)
      then show ?thesis using False None by (simp add: close_turn_waited_def shut_worker)
    next
      case (Some n)
      have "base (tell (CTurnEnd n) (upd_life (\<lambda>l. l\<lparr>lf_end_sent := Some n\<rparr>) b))"
        using S p Some by (simp add: base_def turn_given_up_def new_cancelled_def the_turn_def upd_life_def)
      then show ?thesis using False Some by (simp add: close_turn_waited_def shut_worker)
    qed
  qed
qed

lemma shut_base: "good b \<Longrightarrow> shut b \<Longrightarrow> past_worker (lf_close (br_life b)) \<Longrightarrow> base b \<and> worker_ending b"
  using push_numbered past_worker_closing by (auto simp: base_def shut_def)

lemma shut_tracker:
  assumes "base b" "worker_ending b" "\<not> pu_open (br_push b)"
  shows "shut (fst (close_tracker w s (b, reg)))"
proof -
  define b1 where "b1 = (if lf_counted (br_life b) then b
      else upd_life (\<lambda>l. l\<lparr>lf_counted := True\<rparr>)
             (b\<lparr>br_stats := stats_session_closed (close_reason s b) (br_stats b)\<rparr>))"
  obtain e t l reg1 where pc: "pt_close (\<lambda>j. put (CPipeline j)) (ce_nows w) s
      (session_end_meta s (ce_peaks w) (ce_turn_peak w) b) (br_tracker b1, br_link b1, reg) = (e, t, l, reg1)"
    by (metis prod.exhaust)
  let ?b2 = "b1\<lparr>br_tracker := t, br_link := l\<rparr>"
  have "base ?b2" using assms(1) by (rule base_fields) (simp_all add: b1_def upd_life_def)
  moreover have "worker_ending ?b2" "\<not> pu_open (br_push ?b2)"
    using assms(2,3) by (simp_all add: b1_def upd_life_def worker_ending_def)
  ultimately have "shut (close_at XTracker ?b2)" by (intro base_shut) simp_all
  moreover have "fst (close_tracker w s (b, reg)) = close_at XTracker ?b2"
    using pc unfolding close_tracker_def b1_def by (simp add: Let_def)
  ultimately show ?thesis by simp
qed

lemma shut_close_step:
  assumes "good b" "shut b"
  shows "shut (fst (close_step w (b, reg)))"
proof -
  note B = shut_base[OF assms]
  have closed: "past_tasks (lf_close (br_life b)) \<Longrightarrow> \<not> pu_open (br_push b)" using assms(2) by (simp add: shut_def)
  show ?thesis
  proof (cases "lf_close (br_life b)")
    case (XTurn s i)
    then show ?thesis using shut_turn_waited[OF assms] by (simp add: close_step_def Let_def)
  next
    case (XWorker s)
    then show ?thesis using B by (simp add: close_step_def Let_def shut_drain)
  next
    case (XAudio s)
    then show ?thesis using B by (simp add: close_step_def Let_def shut_tts)
  next
    case (XTts s)
    have "base (upd_push (\<lambda>p. p\<lparr>pu_tts := None\<rparr>) b)"
      using B XTts by (auto simp: upd_push_def elim: base_fields)
    then show ?thesis using XTts by (simp add: close_step_def Let_def shut_tasks)
  next
    case (XTasks s)
    have "shut (close_at (XStt s) b)" using B closed XTasks by (intro base_shut) simp_all
    then show ?thesis using XTasks B closed by (simp add: close_step_def close_stt_def Let_def shut_tracker)
  next
    case (XStt s)
    then show ?thesis using B closed by (simp add: close_step_def Let_def shut_tracker)
  next
    case XTracker
    then have b: "base b" "worker_ending b" "\<not> pu_open (br_push b)" using B closed by simp_all
    have "base (upd_life (\<lambda>x. x\<lparr>lf_closed := True\<rparr>) b)"
      using b(1) by (rule base_fields) (simp_all add: upd_life_def)
    moreover have "worker_ending (upd_life (\<lambda>x. x\<lparr>lf_closed := True\<rparr>) b)"
      "\<not> pu_open (br_push (upd_life (\<lambda>x. x\<lparr>lf_closed := True\<rparr>) b))"
      using b(2,3) by (simp_all add: worker_ending_def upd_life_def)
    ultimately have "shut (close_at XDone (upd_life (\<lambda>x. x\<lparr>lf_closed := True\<rparr>) b))"
      by (intro base_shut) simp_all
    then show ?thesis using XTracker by (simp add: close_step_def Let_def close_at_def upd_life_def)
  qed (use assms in \<open>simp_all add: close_step_def Let_def\<close>)
qed

section \<open>Every step\<close>

fun of_closing :: "bridge_act \<Rightarrow> bool" where
  "of_closing (ActCloseBegin _) = True"
| "of_closing (ActClose _ _) = True"
| "of_closing _ = False"

lemma mild_push:
  assumes "shut b" shows "mild b (enqueue_push now k b)"
proof (cases "lf_closing (br_life b)")
  case False
  then have "lf_close (br_life b) = XNone" using assms by (simp add: shut_def)
  then show ?thesis by (simp add: mild_def enqueue_push_def)
qed (simp add: enqueue_push_def mild_def)

lemma mild_life:
  "lf_close (f (br_life b)) = lf_close (br_life b) \<Longrightarrow> lf_closing (br_life b) \<longrightarrow> lf_closing (f (br_life b)) \<Longrightarrow>
   lf_end_sent (f (br_life b)) = lf_end_sent (br_life b) \<Longrightarrow> mild b (upd_life f b)"
  by (simp add: mild_def upd_life_def new_cancelled_def turn_done_def the_turn_def worker_ending_def)

lemma mild_enter: "mild b (close_enter c now r b)"
  by (simp add: mild_def close_enter_def note_close_reason_def upd_life_def Let_def new_cancelled_def
      turn_done_def the_turn_def worker_ending_def)

lemma still_do_mild:
  assumes "good b" "shut b" "enabled a b" "still b (bridge_do c a b)"
  shows "mild b (bridge_do c a b)"
  using still_mild[OF assms(4) _ assms(1,2)] bridge_do_reaches[OF assms(1,3)] by blast

lemma bridge_do_mild:
  assumes "good b" "shut b" "enabled a b" "\<not> of_closing a"
  shows "mild b (bridge_do c a b)"
proof (cases a)
  case (ActTurn now r i)
  then show ?thesis using mild_turn_step assms by simp
next
  case (ActAudio now inp k)
  then show ?thesis using mild_audio_step assms by simp
next
  case (ActWorker now r)
  then show ?thesis using mild_worker_step assms by simp
next
  case (ActPush now k)
  then show ?thesis using mild_push[OF assms(2)] by simp
next
  case (ActCloseEnter now r)
  then show ?thesis using mild_enter by simp
next
  case (ActConnect e)
  have "mild b b" by (simp add: mild_def)
  then show ?thesis using ActConnect by (simp add: connect_internal_services_def mild_life Let_def)
next
  case (ActCloseBegin st)
  then show ?thesis using assms(4) by simp
next
  case (ActClose w reg)
  then show ?thesis using assms(4) by simp
qed (rule still_do_mild[OF assms(1-3)]; simp add: still_ctl_step still_message still_transcription still_transcriber still_watch)+

lemma bridge_do_shut:
  assumes "good b" "shut b" "enabled a b"
  shows "shut (bridge_do c a b)"
proof (cases "of_closing a")
  case True
  then show ?thesis using assms shut_begin shut_close_step by (cases a) simp_all
next
  case False
  then show ?thesis using mild_shut bridge_do_mild assms by blast
qed

lemma start_shut: "bridge_start b \<Longrightarrow> shut b"
  by (auto simp: bridge_start_def new_bridge_def new_life_def shut_def)

lemma reachable_shut: "bridge_reachable c b \<Longrightarrow> good b \<and> shut b"
proof (induction rule: bridge_reachable.induct)
  case (start b)
  then show ?case using start_shut new_bridge_good by blast
next
  case (step b b')
  from step(2) obtain a where "enabled a b" "b' = bridge_do c a b" by (auto elim: bridge_step.cases)
  then show ?case using step bridge_do_shut bridge_do_reaches by (auto simp: reaches_def)
qed

section \<open>The closing ends\<close>

fun close_rank :: "close_pc \<Rightarrow> nat" where
  "close_rank (XTurn _ _) = 7"
| "close_rank (XWorker _) = 6"
| "close_rank (XAudio _) = 5"
| "close_rank (XTts _) = 4"
| "close_rank (XTasks _) = 3"
| "close_rank (XStt _) = 2"
| "close_rank XTracker = 1"
| "close_rank _ = 0"

lemma close_at_pc [simp]: "lf_close (br_life (close_at pc b)) = pc"
  by (simp add: close_at_def upd_life_def)

definition close_late :: "nat \<Rightarrow> bridge \<Rightarrow> bool" where
  "close_late k b \<longleftrightarrow> lf_close (br_life b) \<noteq> XNone \<and> close_rank (lf_close (br_life b)) \<le> k"

lemma close_late_at [simp]: "close_late k (close_at pc b) \<longleftrightarrow> pc \<noteq> XNone \<and> close_rank pc \<le> k"
  by (simp add: close_late_def)

lemma close_late_tasks: "close_late 3 (close_tasks s b)"
  by (simp add: close_tasks_def Let_def)

lemma close_late_mono: "close_late j b \<Longrightarrow> j \<le> k \<Longrightarrow> close_late k b"
  by (simp add: close_late_def)

lemma close_late_tts: "close_late 4 (close_tts_step s b)"
  using close_late_mono[OF close_late_tasks, of 4] by (simp add: close_tts_step_def split: option.split)

lemma close_late_audio: "close_late 5 (close_audio s b)"
  using close_late_mono[OF close_late_tts, of 5] by (simp add: close_audio_def)

lemma close_late_drain: "close_late 5 (close_drain_queue s b)"
  by (simp add: close_drain_queue_def close_late_audio)

lemma close_late_worker: "close_late 6 (close_worker s b)"
  using close_late_mono[OF close_late_drain, of 6] by (simp add: close_worker_def)

lemma close_late_turn: "close_late 6 (close_turn_waited s i b)"
  by (simp add: close_turn_waited_def close_late_worker split: option.split)

lemma close_late_tracker: "close_late (Suc 0) (fst (close_tracker w s br))"
  by (simp add: close_late_def close_tracker_pc)

lemma close_step_late:
  assumes "lf_close (br_life b) \<noteq> XNone"
  shows "close_late (close_rank (lf_close (br_life b)) - 1) (fst (close_step w (b, reg)))"
proof (cases "lf_close (br_life b)")
  case (XTasks s)
  then show ?thesis using close_late_mono[OF close_late_tracker, of 2]
    by (simp add: close_step_def close_stt_def Let_def)
qed (use assms close_late_mono[OF close_late_tasks, of 3] close_late_mono[OF close_late_tts, of 4] in
      \<open>simp_all add: close_step_def Let_def close_late_turn close_late_drain close_late_tasks close_late_tracker\<close>,
      simp_all add: close_late_def upd_life_def)

definition is_close :: "bridge_act \<Rightarrow> bool" where
  "is_close a \<longleftrightarrow> (case a of ActClose _ _ \<Rightarrow> True | _ \<Rightarrow> False)"

lemma bridge_run_closes:
  "bridge_run c as b = Some b' \<Longrightarrow> good b \<Longrightarrow> shut b \<Longrightarrow> close_late k b \<Longrightarrow>
   close_late (k - length (filter is_close as)) b'"
proof (induction as arbitrary: b k)
  case (Cons a as)
  have e: "enabled a b" and r: "bridge_run c as (bridge_do c a b) = Some b'"
    using Cons.prems(1) by (auto split: if_splits)
  have g: "good (bridge_do c a b)" "shut (bridge_do c a b)"
    using bridge_do_reaches[OF Cons.prems(2) e] bridge_do_shut[OF Cons.prems(2,3) e] by (simp_all add: reaches_def)
  show ?case
  proof (cases "of_closing a")
    case True
    then obtain w reg where a: "a = ActClose w reg"
      using e Cons.prems(4) by (cases a) (simp_all add: close_late_def)
    have "close_late (k - 1) (bridge_do c a b)"
      using close_late_mono[OF close_step_late diff_le_mono, of b k] Cons.prems(4)
      by (auto simp: a close_late_def)
    from Cons.IH[OF r g this] show ?thesis by (simp add: a is_close_def)
  next
    case False
    have "lf_close (br_life (bridge_do c a b)) = lf_close (br_life b)"
      using bridge_do_mild[OF Cons.prems(2,3) e False] by (simp add: mild_def)
    then have "close_late k (bridge_do c a b)" using Cons.prems(4) by (simp add: close_late_def)
    from Cons.IH[OF r g this] show ?thesis
      using False by (cases a) (simp_all add: is_close_def)
  qed
qed simp

end
