(* ===== verification/Bridge_Guarantees.thy ===== *)
theory Bridge_Guarantees
  imports Bridge_Shutdown
begin

text \<open>
  What a client of the gateway can rely on, whatever the interleaving of the session's tasks: the
  order and number of its turn messages, and the numbers in its audio frames.
\<close>

section \<open>Concrete sessions\<close>

definition demo_client :: client_config where
  "demo_client = \<lparr>cf_stt_language = ''es'', cf_stt_vad_thold = 0, cf_tts_voice = ''v'', cf_tts_speed = 1,
     cf_barge_in_enabled = True, cf_barge_in_min_chars = 3, cf_silence_timeout_s = 10,
     cf_max_silence_turns = 3, cf_push_enabled = True, cf_tool_calls_enabled = True\<rparr>"

definition demo_cfg :: "string list \<Rightarrow> bridge_cfg" where
  "demo_cfg om = \<lparr>bc_client_id = ''c'', bc_agent = ''main'', bc_config = demo_client,
     bc_handshake = \<lparr>hs_input_mode = ''text'', hs_output_mode = om\<rparr>, bc_partials = True, bc_warmup_s = 0,
     bc_drain_s = 10, bc_turn_timeout_s = 60, bc_idle_s = 300\<rparr>"

definition demo_bridge :: bridge where
  "demo_bridge = new_bridge \<lparr>lk_log = [], lk_fail = None\<rparr> (new_ptracker 0 ''s'' ''c'' [] True) stats_reset"

lemma demo_start: "bridge_reachable c demo_bridge"
  by (rule bridge_reachable.start) (auto simp: bridge_start_def demo_bridge_def)

lemma demo_run: "bridge_run c as demo_bridge = Some b \<Longrightarrow> bridge_reachable c b"
  using bridge_run_reachable demo_start by blast

text \<open>A turn that begins, streams a token and is still running.\<close>

definition demo_turn :: "bridge_act list" where
  "demo_turn = [ActMessage 1 False (WsText ''hi'' None), ActControl 2 RGo 0, ActTurn 3 RGo 0,
     ActTurn 4 (REvent (EvToken ''hola'')) 0]"

definition turn_bridge :: bridge where
  "turn_bridge = the (bridge_run (demo_cfg [''text'']) demo_turn demo_bridge)"

lemmas start_defs = demo_bridge_def new_bridge_def new_ptracker_def new_life_def new_push_def new_backlog_def
  demo_cfg_def demo_client_def input_task_def stt_task_def

lemmas input_defs = client_message_def on_text_def start_turn_def ctl_at_def ctl_step_def start_locked_def
  start_cut_def start_cut_result_def cut_push_def start_create_def lock_take_def lock_release_def
  needs_lock_def new_turn_def

lemmas turn_defs = the_turn_def turn_step_def turn_resume_def turn_begin_def upd_turn_def pt_start_turn_def
  put_def tell_def audio_out_def text_out_def pipe_tokens_def note_event_def pt_record_def pt_append_def turn_at_def
  on_event_def on_token_def turn_send_def turn_seq_mod

lemma turn_run:
  "bridge_run (demo_cfg [''text'']) demo_turn demo_bridge = Some turn_bridge"
  "lk_log (br_link turn_bridge) = [CTurnStart 1 1, CToken (Some 1) ''hola'']"
  unfolding turn_bridge_def
  by (simp_all add: start_defs demo_turn_def input_defs turn_defs)

section \<open>The order of the turn messages\<close>

lemma reachable_pinv: "bridge_reachable c b \<Longrightarrow> pinv (proto_of b)"
  using reachable_good by (simp add: good_def)



text \<open>
  While the connection works, a turn whose \<open>turn_start\<close> the client got and whose \<open>turn_end\<close> it did
  not get is the turn in progress or the open push: no other turn is left without its end.
\<close>

theorem no_orphan_turn:
  assumes "bridge_reachable c b" "lk_fail (br_link b) = None"
    "started n (lk_log (br_link b))" "\<not> ended n (lk_log (br_link b))"
  shows "br_active_no b = Some n \<or> (pu_open (br_push b) \<and> pu_no (br_push b) = Some n)"
  using reachable_pinv[OF assms(1)] assms(2-4) by (simp add: pinv_def unended_inv_def)

theorem no_orphan_turn_witness:
  "br_active_no turn_bridge = Some 1 \<or> (pu_open (br_push turn_bridge) \<and> pu_no (br_push turn_bridge) = Some 1)"
proof -
  have "lk_fail (br_link turn_bridge) = None"
    unfolding turn_bridge_def by (simp add: start_defs demo_turn_def input_defs turn_defs)
  then show ?thesis
    using no_orphan_turn[OF demo_run[OF turn_run(1)]] turn_run(2)
    by (simp add: started_def ended_def turn_seq_mod)
qed

text \<open>
  C4: A normal turn and a push never overlap: while a turn task runs no push turn is open, and at most
  one turn task runs, the one \<open>_active_turn\<close> names.
\<close>

theorem one_turn_at_a_time:
  assumes "bridge_reachable c b" "i < length (br_turns b)" "\<not> turn_done b i"
  shows "br_active b = Some i \<and> turn_running b \<and> \<not> pu_open (br_push b)
     \<and> (\<forall>j<length (br_turns b). j \<noteq> i \<longrightarrow> turn_done b j)"
proof -
  have live: "fst (p_turns (proto_of b) ! i) \<noteq> SDone" and l: "i < length (p_turns (proto_of b))"
    using assms(2,3) by (simp_all add: turn_abs_def turn_done_def the_turn_def)
  note u = pinv_unique[OF reachable_pinv[OF assms(1)] l live]
  have "turn_done b j" if "j < length (br_turns b)" "j \<noteq> i" for j
    using u(3)[of j] that by (simp add: turn_abs_def turn_done_def the_turn_def)
  then show ?thesis using u(1,2) assms(3) by (simp add: turn_running_def)
qed

theorem one_turn_at_a_time_witness:
  "br_active turn_bridge = Some 0 \<and> \<not> pu_open (br_push turn_bridge)"
proof -
  have "0 < length (br_turns turn_bridge)" "\<not> turn_done turn_bridge 0"
    unfolding turn_bridge_def by (simp_all add: start_defs demo_turn_def input_defs turn_defs turn_done_def)
  then show ?thesis using one_turn_at_a_time[OF demo_run[OF turn_run(1)]] by blast
qed

text \<open>
  C3: Every step of the session implements the client contract of theory Bridge\_Protocol: seen through
  \<open>proto_of\<close> it is a sequence of steps the contract allows.
\<close>

theorem bridge_refines_contract:
  assumes "bridge_reachable c b" "bridge_step c b b'"
  shows "pstep\<^sup>*\<^sup>* (proto_of b) (proto_of b')"
  using assms(2)
proof cases
  case (1 a)
  then show ?thesis using bridge_do_reaches[OF reachable_good[OF assms(1)]] by (auto simp: reaches_def)
qed

theorem bridge_refines_contract_witness:
  "pstep\<^sup>*\<^sup>* (proto_of turn_bridge) (proto_of (bridge_do (demo_cfg [''text'']) (ActTurn 5 RStop 0) turn_bridge))"
proof (rule bridge_refines_contract[OF demo_run[OF turn_run(1)]])
  have "enabled (ActTurn 5 RStop 0) turn_bridge"
    unfolding turn_bridge_def by (simp add: start_defs demo_turn_def input_defs turn_defs)
  then show "bridge_step (demo_cfg [''text'']) turn_bridge
      (bridge_do (demo_cfg [''text'']) (ActTurn 5 RStop 0) turn_bridge)"
    by (rule bridge_step.intros)
qed

text \<open>
  The three bytes before an audio frame carry the number of the \<open>turn_start\<close> of its turn, for every
  turn number; two turns of less than 65536 turns distance differ in it, and turn ids never repeat.
\<close>

theorem audio_header_roundtrip:
  "length (audio_header (turn_seq n)) = 3 \<and> audio_header (turn_seq n) ! 0 = 0xA1
   \<and> header_seq (audio_header (turn_seq n)) = turn_seq n
   \<and> (m < n \<and> n < m + 65536 \<longrightarrow> turn_seq m \<noteq> turn_seq n) \<and> (turn_id m = turn_id n \<longleftrightarrow> m = n)"
proof -
  have b: "turn_seq n < 65536" by (simp add: turn_seq_mod)
  have "header_seq (audio_header q) = q" if "q < 65536" for q
    using that by (simp add: header_seq_def audio_header_def unat_of_nat take_bit_eq_mod)
  moreover have "turn_seq m \<noteq> turn_seq n" if "m < n" "n < m + 65536"
  proof
    assume "turn_seq m = turn_seq n"
    then have "n mod 65536 = m mod 65536" by (simp add: turn_seq_mod)
    then have "65536 dvd n - m" using that mod_eq_dvd_iff_nat[of m n 65536] by simp
    then show False using that by (auto dest: dvd_imp_le)
  qed
  ultimately show ?thesis using b by (simp add: audio_header_def)
qed

theorem audio_header_roundtrip_witness:
  "turn_seq 3 \<noteq> turn_seq 70000"
proof -
  have "turn_seq 4464 \<noteq> turn_seq 3"
    using audio_header_roundtrip[of 4464 3] by (simp add: turn_seq_mod)
  then show ?thesis by (simp add: turn_seq_mod)
qed

section \<open>The closing\<close>

text \<open>
  C2: When \<open>close_all\<close> is past the tasks of the session, which is before it sends \<open>session_end\<close>, every
  turn the client saw start, normal or push, has its end, whatever the other tasks do meanwhile and
  even if the limit of a wait passed; and from then on it stays so.
\<close>

theorem closed_session_ended:
  assumes "bridge_reachable c b" "past_tasks (lf_close (br_life b))" "lk_fail (br_link b) = None"
    "started n (lk_log (br_link b))"
  shows "ended n (lk_log (br_link b))"
proof (rule ccontr)
  assume no: "\<not> ended n (lk_log (br_link b))"
  have s: "shut b" and p: "pinv (proto_of b)" using reachable_shut[OF assms(1)] by (simp_all add: good_def)
  have "br_active_no b = Some n"
    using p s assms(2-4) no by (simp add: pinv_def unended_inv_def shut_def)
  then have "lf_end_sent (br_life b) = Some n"
    using s past_tasks_worker[OF assms(2)] by (simp add: shut_def turn_given_up_def)
  then show False using p assms(3) no by (simp add: pinv_def unended_inv_def)
qed

text \<open>The session closes while the demo turn does not react to its cancellation: the wait reaches its limit.\<close>

definition demo_env :: close_env where
  "demo_env = \<lparr>ce_nows = (0, 0, 0), ce_peaks = None, ce_turn_peak = 0, ce_has_stt = False\<rparr>"

definition demo_close :: "bridge_act list" where
  "demo_close = demo_turn @ [ActCloseEnter 5 None, ActCloseBegin None, ActClose demo_env (new_session_registry 3)]"

definition closed_bridge :: bridge where
  "closed_bridge = the (bridge_run (demo_cfg [''text'']) demo_close demo_bridge)"

lemmas close_defs = Let_def close_enter_def close_begin_def note_close_reason_def upd_life_def turn_in_flight_def
  turn_running_def turn_done_def turn_cancel_def close_at_def close_step_def close_turn_waited_def close_worker_def
  close_drain_queue_def close_audio_def close_tts_step_def close_tasks_def audio_done_opt_def upd_backlog_def
  worker_cancel_def

lemma close_run:
  "bridge_run (demo_cfg [''text'']) demo_close demo_bridge = Some closed_bridge"
  "lf_close (br_life closed_bridge) = XTasks Completed" "lk_fail (br_link closed_bridge) = None"
  "lk_log (br_link closed_bridge) = [CTurnStart 1 1, CToken (Some 1) ''hola'', CTurnEnd 1]"
  unfolding closed_bridge_def
  by (simp_all add: start_defs demo_turn_def demo_close_def input_defs turn_defs close_defs close_status_def)

theorem closed_session_ended_witness:
  "ended 1 (lk_log (br_link closed_bridge))"
  by (rule closed_session_ended[OF demo_run[OF close_run(1)]])
     (simp_all add: close_run started_def turn_seq_mod)


definition demo_rest :: "bridge_act list" where
  "demo_rest = ActTurn 6 (RExn CancelledError) 0 # replicate 7 (ActClose demo_env (new_session_registry 3))"

lemma closes_run: "bridge_run c (replicate k (ActClose w reg)) b \<noteq> None"
  by (induction k arbitrary: b) simp_all


section \<open>Two races\<close>

text \<open>
  The user speaks over a push whose TTS is still connecting: \<open>_cut_push\<close> finds no TTS to drop, waits for
  \<open>orchestrator.abort\<close>, and meanwhile the worker connects.
\<close>

definition cut_race :: "bridge_act list" where
  "cut_race =
     [ActPush 1 (PkStart (session_key (demo_cfg [''text'', ''audio'']))), ActWorker 2 RGo, ActWorker 3 RGo,
      ActMessage 4 False (WsText ''hi'' None), ActControl 5 RGo 0, ActWorker 6 (RConn True),
      ActControl 7 RGo 0, ActTurn 8 RGo 0, ActAudio 9 (AChunk [0]) 0, ActAudio 10 AFrame 0]"

lemma one_slice [simp]: "chunk_slices [x] = [[x]]"
  by (simp add: chunk_slices_def FRAME_BYTES_def)

lemmas push_defs = enqueue_push_def upd_backlog_def worker_step_def worker_event_def turn_running_def
  worker_at_def push_turn_start_def upd_push_def may_open_def drop_push_tts_def cut_abort_def
  session_key_def make_session_key_def push_connected_def stream_open_def spawn_audio_def worker_next_def
  event_over_def cut_step_def cut_finish_def close_push_turn_def audio_step_def audio_progress_def upd_audio_def


text \<open>A barge-in cancels a turn with audio; while it waits for its audio task the session closes.\<close>

definition cancel_twice :: "bridge_act list" where
  "cancel_twice =
     [ActMessage 1 False (WsText ''hi'' None), ActControl 2 RGo 0, ActTurn 3 RGo 0, ActTurn 4 (RConn True) 0,
      ActMessage 5 False (WsText ''{}'' (Some (JObj [(''type'', JStr ''cancel'')]))), ActControl 6 RGo 0,
      ActTurn 7 (RExn CancelledError) 0, ActTurn 8 RGo 0, ActCloseEnter 9 None, ActCloseBegin None,
      ActTurn 10 (RExn CancelledError) 0]"

lemmas cancel_defs = Let_def dget_def is_Exception_def is_ClientGone_def is_RuntimeError_def open_push_def audio_cancel_opt_def
  cancel_turn_def cancel_locked_def turn_cancel_def turn_done_def turn_connected_def
  after_tokens_def tokens_done_def stop_audio_def turn_finish_def close_enter_def close_begin_def
  note_close_reason_def upd_life_def turn_in_flight_def audio_done_def audio_cancel_def audio_done_opt_def
  close_at_def stream_close_def

text \<open>
  A turn cancelled a second time while it waits for its audio task ends without closing its TTS
  stream: the \<open>finally\<close> of \<open>_run_turn\<close> is left at \<open>asyncio.wait\<close>, before \<open>tts.close()\<close>.
\<close>

theorem second_cancel_leaks_stream:
  "map_option (\<lambda>b. (turn_done b 0, tn_tts (the_turn b 0), br_streams b, last (lk_log (br_link b))))
     (bridge_run (demo_cfg [''text'', ''audio'']) cancel_twice demo_bridge)
   = Some (True, Some 0, [True], CTurnEnd 1)"
  by (simp add: start_defs cancel_twice_def input_defs turn_defs push_defs cancel_defs)

end
