(* ===== verification/Admin_Views.thy ===== *)
theory Admin_Views
  imports Bridge_Close Reconnecting_Orchestrator
begin

text \<open>
  The observability routes of \<open>api/admin_routes.py\<close>: sessions, services, the live state and its stream. A
  session record holds the address of its tracker, so the views take the heap of trackers. \<open>isoformat\<close>
  and \<open>json.dumps\<close> are arguments; a response is a value of \<open>view_result\<close>, a 404 one of its constructors.
\<close>

type_synonym trackers = "nat \<Rightarrow> ptracker"

datatype view_result = Ok_200 json | Accepted_202 json | Not_Found_404

section \<open>Sessions\<close>

definition opt_json :: "('a \<Rightarrow> json) \<Rightarrow> 'a option \<Rightarrow> json" where
  "opt_json f x = (case x of None \<Rightarrow> JNull | Some v \<Rightarrow> f v)"

definition session_status_str :: "session_status \<Rightarrow> string" where
  "session_status_str s =
     (case s of Active \<Rightarrow> ''active'' | Completed \<Rightarrow> ''completed'' | Errored \<Rightarrow> ''error'' | Revoked \<Rightarrow> ''revoked'')"

definition serialize_events :: "pipeline_event list \<Rightarrow> json" where
  "serialize_events evs =
     JArr (map (\<lambda>e. JObj [(''stage'', JStr (ev_stage e)), (''ts_ms'', JInt (py_round (ev_ts_ms e))),
                          (''elapsed_ms'', JInt (py_round (ev_elapsed_ms e))), (''meta'', JObj (ev_meta e))]) evs)"

definition last_latencies :: "ptracker \<Rightarrow> json" where
  "last_latencies t =
     JObj [(''llm_first_token_ms'', opt_json JFloat (llm_first_token_ms t)),
           (''tts_first_chunk_ms'', opt_json JFloat (tts_first_chunk_ms t)),
           (''turn_e2e_ms'', opt_json JFloat (turn_e2e_ms t))]"

definition session_summary :: "(time \<Rightarrow> string) \<Rightarrow> trackers \<Rightarrow> session_record \<Rightarrow> dict" where
  "session_summary isof tr r =
     (let t = tr (sr_tracker r) in
      [(''session_id'', JStr (sr_session_id r)), (''client_id'', JStr (sr_client_id r)),
       (''status'', JStr (session_status_str (sr_status r))), (''input_mode'', JStr (sr_input_mode r)),
       (''output_mode'', JArr (map JStr (sr_output_mode r))),
       (''started_at'', JStr (isof (sr_started_at r))),
       (''ended_at'', opt_json (\<lambda>x. JStr (isof x)) (sr_ended_at r)),
       (''turn_count'', JInt (int (pt_turn t))), (''last_latencies'', last_latencies t)])"

text \<open>\<open>by_turn[e.turn][e.stage] = e\<close> over a \<open>defaultdict(dict)\<close>.\<close>

type_synonym turn_events = "(nat \<times> (string \<times> pipeline_event) list) list"

definition put_event :: "turn_events \<Rightarrow> pipeline_event \<Rightarrow> turn_events" where
  "put_event m e =
     dput (ev_turn e) (dput (ev_stage e) e (case map_of m (ev_turn e) of None \<Rightarrow> [] | Some d \<Rightarrow> d)) m"

definition by_turn :: "pipeline_event list \<Rightarrow> turn_events" where
  "by_turn evs = foldl put_event [] evs"

definition turn_llm_latency :: "(string \<times> pipeline_event) list \<Rightarrow> rat option" where
  "turn_llm_latency d =
     (case (map_of d ''llm_start'', map_of d ''llm_first_token'') of
        (Some s, Some f) \<Rightarrow> Some (py_round_n 1 (ev_ts_ms f - ev_ts_ms s))
      | _ \<Rightarrow> None)"

definition llm_latencies :: "pipeline_event list \<Rightarrow> rat list" where
  "llm_latencies evs = List.map_filter (\<lambda>(_, d). turn_llm_latency d) (by_turn evs)"

definition average :: "rat list \<Rightarrow> rat option" where
  "average xs = (if xs = [] then None else Some (py_round_n 1 (sum_list xs / of_nat (length xs))))"

definition session_duration :: "pipeline_event list \<Rightarrow> json" where
  "session_duration evs =
     (case find (\<lambda>e. ev_stage e = ''session_end'') (rev evs) of
        None \<Rightarrow> JNull | Some e \<Rightarrow> dget (ev_meta e) ''duration_s'')"

definition session_detail :: "(time \<Rightarrow> string) \<Rightarrow> trackers \<Rightarrow> session_record \<Rightarrow> dict" where
  "session_detail isof tr r =
     (let t = tr (sr_tracker r); evs = pt_events t in
      session_summary isof tr r @
      [(''summary'', JObj [(''turn_count'', JInt (int (pt_turn t))), (''duration_s'', session_duration evs),
          (''avg_llm_first_token_ms'', opt_json JFloat (average (llm_latencies evs))),
          (''avg_turn_e2e_ms'', opt_json JFloat (average (map snd (turn_e2e_latencies t))))]),
       (''events'', serialize_events evs)])"

definition list_sessions :: "(time \<Rightarrow> string) \<Rightarrow> trackers \<Rightarrow> session_registry \<Rightarrow> json" where
  "list_sessions isof tr reg =
     (let sessions = reg_get_all reg in
      JObj [(''active'', JInt (int (length (filter (\<lambda>s. sr_status s = Active) sessions)))),
            (''total'', JInt (int (length sessions))),
            (''sessions'', JArr (map (\<lambda>s. JObj (session_summary isof tr s)) sessions))])"

definition get_session :: "(time \<Rightarrow> string) \<Rightarrow> trackers \<Rightarrow> string \<Rightarrow> session_registry \<Rightarrow> view_result" where
  "get_session isof tr sid reg =
     (case reg_get sid reg of None \<Rightarrow> Not_Found_404 | Some r \<Rightarrow> Ok_200 (JObj (session_detail isof tr r)))"

section \<open>Services\<close>

definition state_str :: "connection_state \<Rightarrow> string" where
  "state_str s = (case s of CONNECTED \<Rightarrow> ''CONNECTED'' | RECONNECTING \<Rightarrow> ''RECONNECTING'' | DEGRADED \<Rightarrow> ''DEGRADED'')"

definition status_fields :: "(time \<Rightarrow> string) \<Rightarrow> service_status \<Rightarrow> dict" where
  "status_fields isof s =
     [(''state'', JStr (state_str (st_state s))),
      (''connected_at'', opt_json (\<lambda>x. JStr (isof x)) (st_connected_at s)),
      (''reconnect_attempts'', JInt (int (st_attempts s))),
      (''last_error'', opt_json JStr (st_last_error s))]"

definition orchestrator_status :: "(time \<Rightarrow> string) \<Rightarrow> string \<Rightarrow> orch \<Rightarrow> view_result" where
  "orchestrator_status isof name o1 =
     (if name \<noteq> hname (ro_health o1) then Not_Found_404
      else let s = status (ro_health o1) in Ok_200 (JObj ((''name'', JStr (st_name s)) # status_fields isof s)))"

text \<open>\<open>POST .../reconnect\<close>: the job ids of the model are numbers, \<open>job\<close> gives their text.\<close>

definition orchestrator_reconnect :: "(nat \<Rightarrow> string) \<Rightarrow> string \<Rightarrow> orch \<Rightarrow> view_result \<times> orch" where
  "orchestrator_reconnect job name o1 =
     (if name \<noteq> hname (ro_health o1) then (Not_Found_404, o1)
      else let (j, o2) = trigger_reconnect o1 in
        (Accepted_202 (JObj [(''accepted'', JBool True), (''job_id'', JStr (job j))]), o2))"

text \<open>
  What a speech provider shows: its name, its current state, its status and, when it has them, its
  counters and its audio gate.
\<close>

record provider_view =
  pv_name :: string
  pv_state :: connection_state
  pv_status :: service_status
  pv_counters :: "json option"
  pv_audio_gate :: "string option"

definition provider_status :: "(time \<Rightarrow> string) \<Rightarrow> provider_view \<Rightarrow> json" where
  "provider_status isof p =
     JObj ([(''name'', JStr (st_name (pv_status p))), (''provider'', JStr (pv_name p))] @
           status_fields isof (pv_status p) @
           (case pv_counters p of None \<Rightarrow> [] | Some c \<Rightarrow> [(''counters'', c)]))"

text \<open>The transcriber is probed first: \<open>probe\<close> is what the probe leaves, or its exception.\<close>

definition transcriber_status :: "(time \<Rightarrow> string) \<Rightarrow> exn + provider_view \<Rightarrow> exn + json" where
  "transcriber_status isof probe = (case probe of Inl e \<Rightarrow> Inl e | Inr p \<Rightarrow> Inr (provider_status isof p))"

definition tts_status :: "(time \<Rightarrow> string) \<Rightarrow> provider_view \<Rightarrow> json" where
  "tts_status isof p = provider_status isof p"

definition get_speech :: "provider_view \<Rightarrow> provider_view \<Rightarrow> json" where
  "get_speech stt tts =
     JObj [(''stt'', JObj [(''provider'', JStr (pv_name stt)), (''state'', JStr (state_str (pv_state stt)))]),
           (''tts'', JObj [(''provider'', JStr (pv_name tts)), (''state'', JStr (state_str (pv_state tts)))]),
           (''audio_gate'', JStr (case pv_audio_gate stt of None \<Rightarrow> ''off'' | Some g \<Rightarrow> g))]"

section \<open>The live state\<close>

definition service_state :: "service_status \<Rightarrow> dict" where
  "service_state s =
     [(''state'', JStr (state_str (st_state s))), (''last_error'', opt_json JStr (st_last_error s))]"

text \<open>
  One row: what \<open>bridge.snapshot()\<close> gave (an exception or the dict of \<open>snapshot\<close> in theory Bridge\_Close),
  completed with the times of its session record. \<open>None\<close> is a row that was left out.
\<close>

definition complete_row :: "(time \<Rightarrow> string) \<Rightarrow> trackers \<Rightarrow> session_registry \<Rightarrow> dict \<Rightarrow> dict option" where
  "complete_row isof tr reg row =
     (case map_of row ''session_id'' of
        None \<Rightarrow> None
      | Some sid \<Rightarrow>
          (case (case sid of JStr s \<Rightarrow> reg_get s reg | _ \<Rightarrow> None) of
             None \<Rightarrow> Some row
           | Some r \<Rightarrow>
               let summary = session_summary isof tr r in
               Some (dput ''last_latencies'' (dget summary ''last_latencies'')
                      (dput ''started_at'' (dget summary ''started_at'') row))))"

definition state_row :: "(time \<Rightarrow> string) \<Rightarrow> trackers \<Rightarrow> session_registry \<Rightarrow> exn + dict \<Rightarrow> dict option" where
  "state_row isof tr reg snap =
     (case snap of Inl _ \<Rightarrow> None | Inr row \<Rightarrow> complete_row isof tr reg row)"

record gateway_view =
  gv_started_at :: time
  gv_started_monotonic :: time
  gv_version :: string
  gv_stats :: gateway_stats
  gv_registry :: session_registry
  gv_orchestrator :: orch
  gv_stt :: provider_view
  gv_tts :: provider_view

definition stats_fields :: "gateway_stats \<Rightarrow> dict" where
  "stats_fields g = (case stats_snapshot g of JObj d \<Rightarrow> d | _ \<Rightarrow> [])"

definition build_state ::
  "(time \<Rightarrow> string) \<Rightarrow> trackers \<Rightarrow> time \<Rightarrow> (exn + dict) list \<Rightarrow> gateway_view \<Rightarrow> json" where
  "build_state isof tr now snaps g =
     (let sessions = List.map_filter (state_row isof tr (gv_registry g)) snaps in
      JObj [(''gateway'', JObj [(''started_at'', JStr (isof (gv_started_at g))),
               (''uptime_s'', JFloat (py_round_n 3 (now - gv_started_monotonic g))),
               (''version'', JStr (gv_version g))]),
            (''services'', JObj [(''orchestrator'', JObj (service_state (status (ro_health (gv_orchestrator g))))),
               (''stt'', JObj ((''provider'', JStr (pv_name (gv_stt g))) # service_state (pv_status (gv_stt g)))),
               (''tts'', JObj ((''provider'', JStr (pv_name (gv_tts g))) # service_state (pv_status (gv_tts g))))]),
            (''totals'', JObj (stats_fields (gv_stats g) @ [(''sessions_active'', JInt (int (length sessions)))])),
            (''sessions'', JArr (map JObj sessions))])"

text \<open>
  \<open>state_stream\<close>: at each round the clock, whether the client left and the state as it is built then; the
  items sent. Between two rounds the generator sleeps \<open>STATE_STREAM_INTERVAL_S\<close>.
\<close>

definition STATE_STREAM_INTERVAL_S :: time where "STATE_STREAM_INTERVAL_S = 1"

definition STATE_STREAM_MAX_S :: time where "STATE_STREAM_MAX_S = 25"

definition sse_item :: "(json \<Rightarrow> string) \<Rightarrow> json \<Rightarrow> string" where
  "sse_item dumps j = ''data: '' @ dumps j @ [CHR 0x0A, CHR 0x0A]"

fun stream_rounds :: "(json \<Rightarrow> string) \<Rightarrow> time \<Rightarrow> (time \<times> bool \<times> json) list \<Rightarrow> string list" where
  "stream_rounds dumps deadline [] = []"
| "stream_rounds dumps deadline ((now, gone, st) # rounds) =
     (if now < deadline \<and> \<not> gone then sse_item dumps st # stream_rounds dumps deadline rounds else [])"

definition state_stream :: "(json \<Rightarrow> string) \<Rightarrow> time \<Rightarrow> (time \<times> bool \<times> json) list \<Rightarrow> string list" where
  "state_stream dumps t0 rounds = stream_rounds dumps (t0 + STATE_STREAM_MAX_S) rounds"

section \<open>The views of the sessions\<close>

lemma reg_run_inv: "sreg_inv (foldl sreg_step (new_session_registry n) ops)"
  by (rule sreg_inv_run) (simp add: sreg_inv_def new_session_registry_def)

lemma get_all_reg_get:
  assumes "sreg_inv reg"
  shows "r \<in> set (reg_get_all reg) \<longleftrightarrow> reg_get (sr_session_id r) reg = Some r"
proof -
  have "r \<in> set (reg_get_all reg) \<longleftrightarrow> (\<exists>k. (k, r) \<in> set (sr_sessions reg))"
    by (force simp: reg_get_all_def)
  also have "\<dots> \<longleftrightarrow> (sr_session_id r, r) \<in> set (sr_sessions reg)"
    using assms by (force simp: sreg_inv_def)
  finally show ?thesis
    using assms by (simp add: sreg_inv_def reg_get_def map_of_eq_Some_iff)
qed

lemma reg_get_id: "sreg_inv reg \<Longrightarrow> reg_get sid reg = Some r \<Longrightarrow> sr_session_id r = sid"
  by (auto simp: sreg_inv_def reg_get_def dest!: map_of_SomeD)

lemma get_all_distinct: "sreg_inv reg \<Longrightarrow> distinct (map sr_session_id (reg_get_all reg))"
proof -
  assume i: "sreg_inv reg"
  then have "map (\<lambda>x. sr_session_id (snd x)) (sr_sessions reg) = map fst (sr_sessions reg)"
    by (intro map_cong) (auto simp: sreg_inv_def)
  then have "map sr_session_id (reg_get_all reg) = rev (map fst (sr_sessions reg))"
    by (simp add: reg_get_all_def comp_def flip: rev_map)
  then show ?thesis using i by (simp add: sreg_inv_def)
qed

text \<open>
  C35: After any run of registrations and closings the list of sessions and the detail of a session are views of one
  state: the list has every session once and counts the active ones, a session has a detail exactly when it is
  listed, any other id is a 404, and the detail of a listed session begins with the row the list shows for it.
\<close>

theorem session_views_agree:
  fixes ops :: "sreg_op list" and n :: nat
  defines "reg \<equiv> foldl sreg_step (new_session_registry n) ops"
  shows "\<exists>rs. list_sessions isof tr reg =
           JObj [(''active'', JInt (int (card {r \<in> set rs. sr_status r = Active}))),
                 (''total'', JInt (int (card (set rs)))),
                 (''sessions'', JArr (map (\<lambda>r. JObj (session_summary isof tr r)) rs))] \<and>
         distinct (map sr_session_id rs) \<and>
         (\<forall>sid. sid \<in> sr_session_id ` set rs \<longleftrightarrow> get_session isof tr sid reg \<noteq> Not_Found_404) \<and>
         (\<forall>r\<in>set rs. \<exists>d. get_session isof tr (sr_session_id r) reg = Ok_200 (JObj (session_summary isof tr r @ d)))"
proof -
  have i: "sreg_inv reg" unfolding reg_def by (rule reg_run_inv)
  let ?rs = "reg_get_all reg"
  have d: "distinct ?rs" using get_all_distinct[OF i] by (simp add: distinct_map)
  have l: "list_sessions isof tr reg =
      JObj [(''active'', JInt (int (card {r \<in> set ?rs. sr_status r = Active}))),
            (''total'', JInt (int (card (set ?rs)))),
            (''sessions'', JArr (map (\<lambda>r. JObj (session_summary isof tr r)) ?rs))]"
    using distinct_card[OF d] distinct_card[OF distinct_filter[OF d], of "\<lambda>r. sr_status r = Active"]
    by (simp add: list_sessions_def Let_def)
  have "sid \<in> sr_session_id ` set ?rs \<longleftrightarrow> get_session isof tr sid reg \<noteq> Not_Found_404" for sid
    using get_all_reg_get[OF i] reg_get_id[OF i, of sid]
    by (auto simp: get_session_def image_iff split: option.splits)
  moreover have "\<exists>d. get_session isof tr (sr_session_id r) reg = Ok_200 (JObj (session_summary isof tr r @ d))"
    if "r \<in> set ?rs" for r
    using that get_all_reg_get[OF i, of r] by (simp add: get_session_def session_detail_def Let_def)
  ultimately show ?thesis using l get_all_distinct[OF i] by blast
qed

theorem session_views_agree_witness:
  "get_session (\<lambda>_. ''t'') (\<lambda>_. new_ptracker 0 ''a'' ''c'' [] False) ''a''
     (foldl sreg_step (new_session_registry 5) [RegRegister 0 ''a'' ''c'' ''text'' [] 0]) \<noteq> Not_Found_404"
proof -
  obtain rs where
    l: "list_sessions (\<lambda>_. ''t'') (\<lambda>_. new_ptracker 0 ''a'' ''c'' [] False)
          (foldl sreg_step (new_session_registry 5) [RegRegister 0 ''a'' ''c'' ''text'' [] 0]) =
        JObj [(''active'', JInt (int (card {r \<in> set rs. sr_status r = Active}))),
              (''total'', JInt (int (card (set rs)))),
              (''sessions'', JArr (map (\<lambda>r. JObj (session_summary (\<lambda>_. ''t'')
                  (\<lambda>_. new_ptracker 0 ''a'' ''c'' [] False) r)) rs))]"
    and g: "\<forall>sid. sid \<in> sr_session_id ` set rs \<longleftrightarrow>
        get_session (\<lambda>_. ''t'') (\<lambda>_. new_ptracker 0 ''a'' ''c'' [] False) sid
          (foldl sreg_step (new_session_registry 5) [RegRegister 0 ''a'' ''c'' ''text'' [] 0]) \<noteq> Not_Found_404"
    using session_views_agree[where n = 5 and ops = "[RegRegister 0 ''a'' ''c'' ''text'' [] 0]"] by blast
  from l have "\<exists>r. rs = [r] \<and> sr_session_id r = ''a''"
    by (auto simp: list_sessions_def reg_register_def new_session_registry_def evict_if_needed_def reg_get_all_def
        dpop_def Let_def session_summary_def)
  then show ?thesis using g by auto
qed

section \<open>The averages of a session\<close>

lemma by_turn_snoc: "by_turn (evs @ [e]) = put_event (by_turn evs) e"
  by (simp add: by_turn_def)

lemma find_last_own_turn: "find_last st None evs = Some e \<Longrightarrow> find_last st (Some (ev_turn e)) evs = Some e"
  by (induction evs rule: rev_induct) (auto simp: find_last_snoc split: if_splits, simp add: find_last_def)

lemma find_last_in: "find_last st t evs = Some e \<Longrightarrow> e \<in> set evs"
  by (simp add: find_last_def find_Some_iff) (metis length_rev nth_mem set_rev)

text \<open>The two-level dictionary of a session holds the last event of each stage of each turn.\<close>

lemma by_turn_find_last:
  "(case map_of (by_turn evs) t of None \<Rightarrow> None | Some d \<Rightarrow> map_of d st) = find_last st (Some t) evs"
proof (induction evs rule: rev_induct)
  case Nil
  then show ?case by (simp add: by_turn_def find_last_def)
next
  case (snoc e evs)
  then show ?case
    by (auto simp: by_turn_snoc put_event_def find_last_snoc split: option.splits)
qed

lemma by_turn_distinct: "distinct (map fst (by_turn evs))"
  by (induction evs rule: rev_induct) (simp_all add: by_turn_def put_event_def)

lemma by_turn_turns: "fst ` set (by_turn evs) = ev_turn ` set evs"
  by (induction evs rule: rev_induct) (auto simp: by_turn_def put_event_def fst_dput)

text \<open>The latency of one turn, by the search of the tracker.\<close>

definition turn_latency :: "pipeline_event list \<Rightarrow> nat \<Rightarrow> rat option" where
  "turn_latency evs t =
     (case (find_last ''llm_start'' (Some t) evs, find_last ''llm_first_token'' (Some t) evs) of
        (Some s, Some f) \<Rightarrow> Some (py_round_n 1 (ev_ts_ms f - ev_ts_ms s))
      | _ \<Rightarrow> None)"

lemma turn_llm_latency:
  assumes "(t, d) \<in> set (by_turn evs)"
  shows "turn_llm_latency d = turn_latency evs t"
proof -
  have "map_of (by_turn evs) t = Some d"
    using assms by_turn_distinct by (simp add: map_of_eq_Some_iff)
  then have "map_of d st = find_last st (Some t) evs" for st
    using by_turn_find_last[where evs = evs and t = t and st = st] by simp
  then show ?thesis by (simp add: turn_llm_latency_def turn_latency_def)
qed

lemma llm_latencies_turns: "llm_latencies evs = List.map_filter (turn_latency evs) (map fst (by_turn evs))"
proof -
  have "List.map_filter (\<lambda>(_, d). turn_llm_latency d) ms = List.map_filter (turn_latency evs) (map fst ms)"
    if "set ms \<subseteq> set (by_turn evs)" for ms
    using that by (induction ms) (auto simp: List.map_filter_simps turn_llm_latency split: option.splits)
  then show ?thesis by (simp add: llm_latencies_def)
qed



section \<open>The live state\<close>

definition obj :: "json \<Rightarrow> dict" where
  "obj j = (case j of JObj d \<Rightarrow> d | _ \<Rightarrow> [])"

definition row_ok :: "exn + dict \<Rightarrow> bool" where
  "row_ok s = (case s of Inl _ \<Rightarrow> False | Inr row \<Rightarrow> map_of row ''session_id'' \<noteq> None)"

text \<open>A registered bridge with what its \<open>snapshot\<close> reads outside it.\<close>

type_synonym live = "bridge_cfg \<times> string \<times> json \<times> (nat \<times> nat) \<times> connection_state option \<times> bridge"

fun live_snap :: "time \<Rightarrow> live \<Rightarrow> exn + dict" where
  "live_snap now (c, name, sender, tq, stt, b) = Inr (obj (snapshot c name now sender tq stt b))"

fun live_session :: "live \<Rightarrow> string" where
  "live_session (c, name, sender, tq, stt, b) = pt_session_id (br_tracker b)"

definition state_active :: "json \<Rightarrow> json" where
  "state_active st = dget (obj (dget (obj st) ''totals'')) ''sessions_active''"

definition state_sessions :: "json \<Rightarrow> json" where
  "state_sessions st = dget (obj st) ''sessions''"

lemma row_ok_iff: "row_ok s \<longleftrightarrow> state_row isof tr reg s \<noteq> None"
  by (auto simp: row_ok_def state_row_def complete_row_def Let_def split: sum.splits option.splits)

lemma rows_filter:
  "List.map_filter (state_row isof tr reg) (filter row_ok snaps) = List.map_filter (state_row isof tr reg) snaps"
  by (induction snaps) (auto simp: List.map_filter_simps row_ok_iff[of _ isof tr reg] split: option.splits)

lemma rows_length:
  "length (List.map_filter (state_row isof tr reg) snaps) = length (filter row_ok snaps)"
  by (induction snaps) (auto simp: List.map_filter_simps row_ok_iff[of _ isof tr reg] split: option.splits)

lemma live_snap_obj: "live_snap now l = Inr d \<Longrightarrow> map_of d ''session_id'' = Some (JStr (live_session l))"
  by (cases l) (auto simp: snapshot_def obj_def)

lemma live_snap_Inr: "\<exists>d. live_snap now l = Inr d"
  by (cases l) simp

lemma live_row_ok: "row_ok (live_snap now l)"
  using live_snap_Inr[of now l] live_snap_obj[of now l] by (auto simp: row_ok_def)

lemma state_active_build: "state_active (build_state isof tr now snaps g) = JInt (int (length (filter row_ok snaps)))"
  by (simp add: state_active_def build_state_def Let_def obj_def dget_def stats_fields_def stats_snapshot_def rows_length)

lemma state_sessions_build:
  "state_sessions (build_state isof tr now snaps g) =
     JArr (map JObj (List.map_filter (state_row isof tr (gv_registry g)) snaps))"
  by (simp add: state_sessions_def build_state_def Let_def obj_def dget_def)

lemma live_row:
  assumes "reg_get (live_session l) reg = Some r"
  shows "\<exists>row. state_row isof tr reg (live_snap now l) = Some row \<and>
           dget row ''session_id'' = JStr (live_session l) \<and>
           dget row ''started_at'' = JStr (isof (sr_started_at r)) \<and>
           dget row ''last_latencies'' = last_latencies (tr (sr_tracker r))"
proof -
  obtain d where d: "live_snap now l = Inr d" using live_snap_Inr by blast
  then show ?thesis
    using live_snap_obj[OF d] assms
    by (simp add: state_row_def complete_row_def Let_def dget_def session_summary_def)
qed

text \<open>
  A broken session costs the live state its own row and nothing else: the snapshot is the one of the other bridges
  alone, with any number of bridges whose snapshot raises there is one row per other bridge and
  \<open>sessions_active\<close> counts them, and the row of a bridge whose session is registered shows the start and the
  latencies of that session's record.
\<close>

theorem state_isolates_broken_sessions:
  "build_state isof tr now snaps g = build_state isof tr now (filter row_ok snaps) g \<and>
   state_active (build_state isof tr now (map (live_snap now) ls @ map Inl es) g) = JInt (int (length ls)) \<and>
   (reg_get (live_session l) (gv_registry g) = Some r \<longrightarrow>
      (\<exists>row. state_sessions (build_state isof tr now (map Inl es @ [live_snap now l] @ map Inl es') g) = JArr [JObj row] \<and>
         dget row ''session_id'' = JStr (live_session l) \<and>
         dget row ''started_at'' = JStr (isof (sr_started_at r)) \<and>
         dget row ''last_latencies'' = last_latencies (tr (sr_tracker r))))"
proof (intro conjI impI)
  show "build_state isof tr now snaps g = build_state isof tr now (filter row_ok snaps) g"
    by (simp add: build_state_def rows_filter)
  have "filter row_ok (map Inl es) = []" by (simp add: row_ok_def filter_empty_conv)
  moreover have "filter row_ok (map (live_snap now) ls) = map (live_snap now) ls"
    by (simp add: filter_id_conv live_row_ok)
  ultimately show "state_active (build_state isof tr now (map (live_snap now) ls @ map Inl es) g) = JInt (int (length ls))"
    by (simp add: state_active_build)
next
  assume "reg_get (live_session l) (gv_registry g) = Some r"
  note row = live_row[OF this, of isof tr now]
  have "List.map_filter (state_row isof tr (gv_registry g)) (map Inl es) = []" for es
    by (induction es) (simp_all add: List.map_filter_simps state_row_def)
  then show "\<exists>row. state_sessions (build_state isof tr now (map Inl es @ [live_snap now l] @ map Inl es') g) = JArr [JObj row] \<and>
         dget row ''session_id'' = JStr (live_session l) \<and>
         dget row ''started_at'' = JStr (isof (sr_started_at r)) \<and>
         dget row ''last_latencies'' = last_latencies (tr (sr_tracker r))"
    using row by (auto simp: state_sessions_build List.map_filter_simps)
qed

section \<open>The stream of states\<close>

text \<open>The rounds of a generator that sleeps the interval after each item.\<close>

fun spaced :: "time \<Rightarrow> (time \<times> bool \<times> json) list \<Rightarrow> bool" where
  "spaced t [] = True"
| "spaced t ((now, gone, st) # rounds) = (t \<le> now \<and> spaced (now + STATE_STREAM_INTERVAL_S) rounds)"

lemma stream_rounds_length:
  "spaced t rounds \<Longrightarrow>
   stream_rounds dumps deadline rounds = [] \<or>
   of_nat (length (stream_rounds dumps deadline rounds)) < deadline + 1 - t"
proof (induction dumps deadline rounds arbitrary: t rule: stream_rounds.induct)
  case (2 dumps deadline now gone st rounds)
  show ?case
  proof (cases "now < deadline \<and> \<not> gone")
    case True
    then have "stream_rounds dumps deadline rounds = [] \<or>
        of_nat (length (stream_rounds dumps deadline rounds)) < deadline + 1 - (now + 1)"
      using 2 by (intro "2.IH") (auto simp: STATE_STREAM_INTERVAL_S_def)
    then show ?thesis using True 2 by auto
  qed auto
qed simp

lemma stream_rounds_prefix:
  "\<exists>k. stream_rounds dumps deadline rounds = map (\<lambda>(_, _, st). sse_item dumps st) (take k rounds) \<and>
     list_all (\<lambda>(now, gone, _). now < deadline \<and> \<not> gone) (take k rounds)"
proof (induction dumps deadline rounds rule: stream_rounds.induct)
  case (2 dumps deadline now gone st rounds)
  show ?case
  proof (cases "now < deadline \<and> \<not> gone")
    case True
    then obtain k where "stream_rounds dumps deadline rounds = map (\<lambda>(_, _, st). sse_item dumps st) (take k rounds)"
      "list_all (\<lambda>(now, gone, _). now < deadline \<and> \<not> gone) (take k rounds)" using 2 by blast
    then show ?thesis using True by (intro exI[of _ "Suc k"]) simp
  qed (auto intro: exI[of _ 0])
qed simp

text \<open>
  The stream of the live state always ends, which lets the server shut down: with the sleep of one second between
  rounds it sends at most 25 states, each built before the deadline of 25 s while the
  client was there, in order and none skipped.
\<close>

theorem state_stream_bounded:
  assumes "spaced t0 rounds"
  shows "length (state_stream dumps t0 rounds) \<le> 25 \<and>
         (\<exists>k. state_stream dumps t0 rounds = map (\<lambda>(_, _, st). sse_item dumps st) (take k rounds) \<and>
            list_all (\<lambda>(now, gone, _). now < t0 + 25 \<and> \<not> gone) (take k rounds))"
proof -
  have "length (state_stream dumps t0 rounds) \<le> 25"
    using stream_rounds_length[OF assms, of dumps "t0 + 25"] by (auto simp: state_stream_def STATE_STREAM_MAX_S_def)
  then show ?thesis
    using stream_rounds_prefix[of dumps "t0 + 25" rounds] by (simp add: state_stream_def STATE_STREAM_MAX_S_def)
qed

theorem state_stream_bounded_witness:
  "length (state_stream (\<lambda>_. ''{}'') 0 [(0, False, JNull), (1, False, JNull), (2, True, JNull)]) = 2 \<and>
   length (state_stream (\<lambda>_. ''{}'') 0 (map (\<lambda>i. (of_nat i, False, JNull)) [0..<40])) \<le> 25"
proof
  show "length (state_stream (\<lambda>_. ''{}'') 0 [(0, False, JNull), (1, False, JNull), (2, True, JNull)]) = 2"
    by (simp add: state_stream_def STATE_STREAM_MAX_S_def)
  have "spaced 0 (map (\<lambda>i. (of_nat i, False, JNull)) [0..<40])"
    by (simp add: STATE_STREAM_INTERVAL_S_def upt_rec)
  then show "length (state_stream (\<lambda>_. ''{}'') 0 (map (\<lambda>i. (of_nat i, False, JNull)) [0..<40])) \<le> 25"
    using state_stream_bounded[where dumps = "\<lambda>_. ''{}''" and ?t0.0 = 0] by blast
qed

theorem state_isolates_broken_sessions_witness:
  "state_active (build_state (\<lambda>_. ''t'') (\<lambda>_. new_ptracker 0 ''a'' ''c'' [] False) 1 [Inl RuntimeError, Inr [(''session_id'', JStr ''a'')]]
     \<lparr>gv_started_at = 0, gv_started_monotonic = 0, gv_version = ''1'', gv_stats = stats_reset,
      gv_registry = new_session_registry 5, gv_orchestrator = new_orch ''openclaw'',
      gv_stt = \<lparr>pv_name = ''jota'', pv_state = CONNECTED, pv_status = status (new_health ''stt'' CONNECTED), pv_counters = None, pv_audio_gate = None\<rparr>,
      gv_tts = \<lparr>pv_name = ''jota'', pv_state = CONNECTED, pv_status = status (new_health ''tts'' CONNECTED), pv_counters = None, pv_audio_gate = None\<rparr>\<rparr>) = JInt 1"
  by (subst state_isolates_broken_sessions[THEN conjunct1]) (simp add: state_active_build row_ok_def)

end
