(* ===== verification/Settings.thy ===== *)
theory Settings
  imports Reconnection
begin

text \<open>
  \<open>core/config.py\<close>, \<open>paths.py\<close>, the checks of \<open>core/startup_checks.py\<close> that read the settings and the choice of
  the speech providers (\<open>speech/factory.py\<close>, \<open>speech/jota.py\<close>). The values are the ones pydantic hands over;
  \<open>settings_ok\<close> is what the declarations of the fields make it check. \<open>quote\<close> and \<open>unquote\<close> of urllib, which
  code bytes of UTF-8, and \<open>make_url\<close> of SQLAlchemy are arguments; \<open>home\<close> is the absolute base directory.
\<close>

section \<open>The database URL\<close>

definition is_word :: "char \<Rightarrow> bool" where
  "is_word c \<longleftrightarrow> py_alpha c \<or> py_digit c \<or>
     (let n = (of_char c :: nat) in n \<in> {178, 179, 185, 188, 189, 190})"

text \<open>
  \<open>_SQLITE_URL\<close>, \<open>^(sqlite(?:\+\w+)?):///([^?]*)(\?.*)?$\<close>: the three groups, the last one empty when it is
  missing.
\<close>

definition sqlite_scheme :: "string \<Rightarrow> bool" where
  "sqlite_scheme s \<longleftrightarrow>
     startswith s ''sqlite'' \<and>
     (let r = drop 6 s in r = [] \<or> (hd r = CHR ''+'' \<and> tl r \<noteq> [] \<and> list_all is_word (tl r)))"

definition query_group :: "string \<Rightarrow> string option" where
  "query_group q =
     (if CHR 0x0A \<notin> set q then Some q
      else if last q = CHR 0x0A \<and> CHR 0x0A \<notin> set (butlast q) then Some (butlast q) else None)"

definition sqlite_url :: "string \<Rightarrow> (string \<times> string \<times> string) option" where
  "sqlite_url url =
     (let scheme = takeWhile (\<lambda>c. c \<noteq> CHR '':'') url; rest = dropWhile (\<lambda>c. c \<noteq> CHR '':'') url in
      if \<not> (sqlite_scheme scheme \<and> startswith rest '':///'') then None
      else let body = drop 4 rest;
               path = takeWhile (\<lambda>c. c \<noteq> CHR ''?'') body; q = dropWhile (\<lambda>c. c \<noteq> CHR ''?'') body in
        (if q = [] then Some (scheme, path, [])
         else map_option (\<lambda>g. (scheme, path, g)) (query_group q)))"

definition absolute_database_url :: "(string \<Rightarrow> string) \<Rightarrow> (string \<Rightarrow> string) \<Rightarrow> string \<Rightarrow> string \<Rightarrow> string" where
  "absolute_database_url quote unquote home url =
     (case sqlite_url url of
        None \<Rightarrow> url
      | Some (scheme, path, query) \<Rightarrow>
          if path = [] \<or> path = '':memory:'' \<or> startswith path ''/'' then url
          else scheme @ '':///'' @ quote (home @ ''/'' @ unquote path) @ query)"

definition sqlite_file :: "(string \<Rightarrow> string) \<Rightarrow> (string \<Rightarrow> string) \<Rightarrow> string \<Rightarrow> string \<Rightarrow> string option" where
  "sqlite_file quote unquote home url =
     (case sqlite_url (absolute_database_url quote unquote home url) of
        None \<Rightarrow> None
      | Some (scheme, path, query) \<Rightarrow> if path = [] \<or> path = '':memory:'' then None else Some (unquote path))"

section \<open>The settings\<close>

record settings =
  DATABASE_URL :: string
  GATEWAY_HOST :: string
  SINGLE_PROCESS_LOCK :: bool
  SESSION_REVALIDATE_INTERVAL_S :: time
  ADMIN_TOKEN :: string
  TRUST_LOOPBACK :: bool
  TRUSTED_NETWORKS :: string
  TRUSTED_PROXIES :: string
  TRANSCRIBER_WS_URL :: string
  TRANSCRIBER_TOKEN :: string
  TTS_WS_URL :: string
  TTS_TOKEN :: string
  STT_PROVIDER :: string
  TTS_PROVIDER :: string
  ELEVENLABS_API_KEY :: "string option"
  ELEVENLABS_BASE_URL :: string
  ELEVENLABS_TTS_MODEL :: string
  ELEVENLABS_TTS_DEFAULT_VOICE :: "string option"
  TTS_VOICE_MAP :: "(string \<times> string) list"
  STT_AUDIO_GATE :: string
  STT_GATE_RMS_DBFS :: rat
  OPENCLAW_HOST :: string
  OPENCLAW_PORT :: int
  OPENCLAW_TOKEN :: string
  ORCHESTRATOR_RECONNECT_INITIAL_BACKOFF :: time
  ORCHESTRATOR_RECONNECT_MAX_BACKOFF :: time
  ORCHESTRATOR_RECONNECT_MAX_DURATION :: time
  TRANSCRIBER_RECONNECT_INITIAL_BACKOFF :: time
  TRANSCRIBER_RECONNECT_MAX_BACKOFF :: time
  TRANSCRIBER_RECONNECT_MAX_DURATION :: time
  TTS_RECONNECT_INITIAL_BACKOFF :: time
  TTS_RECONNECT_MAX_BACKOFF :: time
  TTS_AUTH_TIMEOUT_S :: time
  TRANSCRIBER_READY_TIMEOUT_S :: time
  HANDSHAKE_TIMEOUT_S :: time
  HANDSHAKE_MAX_BYTES :: int
  TURN_TIMEOUT_S :: time
  IDLE_TIMEOUT_S :: time
  SESSION_TEARDOWN_S :: time
  SHUTDOWN_DRAIN_S :: "time option"
  LOG_FORMAT :: string
  PUSH_TTS_DRAIN_TIMEOUT_S :: time
  AUDIO_PACING_ENABLED :: bool
  AUDIO_LEAD_S :: time
  CLIENT_SEND_TIMEOUT_S :: time
  TURN_QUEUE_MAX :: int

definition DEFAULT_TTS_TOKEN :: string where "DEFAULT_TTS_TOKEN = ''gateway''"

text \<open>The defaults, with the URL of the database already made absolute.\<close>

definition default_settings :: "string \<Rightarrow> settings" where
  "default_settings db =
     \<lparr>DATABASE_URL = db, GATEWAY_HOST = ''0.0.0.0'', SINGLE_PROCESS_LOCK = True,
      SESSION_REVALIDATE_INTERVAL_S = 10, ADMIN_TOKEN = [], TRUST_LOOPBACK = True, TRUSTED_NETWORKS = [],
      TRUSTED_PROXIES = ''127.0.0.1,::1'', TRANSCRIBER_WS_URL = ''localhost:9000'', TRANSCRIBER_TOKEN = [],
      TTS_WS_URL = ''localhost:8005'', TTS_TOKEN = DEFAULT_TTS_TOKEN, STT_PROVIDER = ''jota'',
      TTS_PROVIDER = ''jota'', ELEVENLABS_API_KEY = None, ELEVENLABS_BASE_URL = ''wss://api.elevenlabs.io'',
      ELEVENLABS_TTS_MODEL = ''eleven_flash_v2_5'',
      ELEVENLABS_TTS_DEFAULT_VOICE = Some ''gc61tTk93h3LBXPxew2V'', TTS_VOICE_MAP = [],
      STT_AUDIO_GATE = ''energy'', STT_GATE_RMS_DBFS = -45, OPENCLAW_HOST = ''127.0.0.1'', OPENCLAW_PORT = 18789,
      OPENCLAW_TOKEN = [], ORCHESTRATOR_RECONNECT_INITIAL_BACKOFF = 1, ORCHESTRATOR_RECONNECT_MAX_BACKOFF = 60,
      ORCHESTRATOR_RECONNECT_MAX_DURATION = 300, TRANSCRIBER_RECONNECT_INITIAL_BACKOFF = 1,
      TRANSCRIBER_RECONNECT_MAX_BACKOFF = 60, TRANSCRIBER_RECONNECT_MAX_DURATION = 300,
      TTS_RECONNECT_INITIAL_BACKOFF = 1, TTS_RECONNECT_MAX_BACKOFF = 60, TTS_AUTH_TIMEOUT_S = 10,
      TRANSCRIBER_READY_TIMEOUT_S = 10, HANDSHAKE_TIMEOUT_S = 5, HANDSHAKE_MAX_BYTES = 4096,
      TURN_TIMEOUT_S = 120, IDLE_TIMEOUT_S = 300, SESSION_TEARDOWN_S = 5, SHUTDOWN_DRAIN_S = None,
      LOG_FORMAT = ''text'', PUSH_TTS_DRAIN_TIMEOUT_S = 30, AUDIO_PACING_ENABLED = True, AUDIO_LEAD_S = 2,
      CLIENT_SEND_TIMEOUT_S = 10, TURN_QUEUE_MAX = 1000\<rparr>"

definition legacy_auto_gate :: "string \<Rightarrow> string" where
  "legacy_auto_gate v = (if v = ''auto'' then ''energy'' else v)"

text \<open>The literals and the bounds (\<open>gt=0\<close>) the fields declare.\<close>

definition settings_ok :: "settings \<Rightarrow> bool" where
  "settings_ok s \<longleftrightarrow>
     STT_PROVIDER s \<in> {''jota'', ''elevenlabs''} \<and> TTS_PROVIDER s \<in> {''jota'', ''elevenlabs''} \<and>
     STT_AUDIO_GATE s \<in> {''off'', ''energy''} \<and> LOG_FORMAT s \<in> {''text'', ''json''} \<and>
     0 < SESSION_REVALIDATE_INTERVAL_S s \<and> 0 < HANDSHAKE_MAX_BYTES s \<and> 0 < SESSION_TEARDOWN_S s \<and>
     0 < AUDIO_LEAD_S s \<and> 0 < CLIENT_SEND_TIMEOUT_S s \<and> 0 < TURN_QUEUE_MAX s"

section \<open>Checks at start-up\<close>

text \<open>\<open>check_speech_settings\<close>: the setting at fault, if any.\<close>

definition check_speech_settings :: "settings \<Rightarrow> string \<Rightarrow> string \<Rightarrow> string option" where
  "check_speech_settings s stt_provider tts_provider =
     (let blank = (\<lambda>v. case v of None \<Rightarrow> True | Some x \<Rightarrow> strip x = []);
          model = lower (strip (ELEVENLABS_TTS_MODEL s)) in
      if (stt_provider = ''elevenlabs'' \<or> tts_provider = ''elevenlabs'') \<and> blank (ELEVENLABS_API_KEY s)
      then Some ''ELEVENLABS_API_KEY''
      else if tts_provider = ''elevenlabs'' \<and> blank (ELEVENLABS_TTS_DEFAULT_VOICE s)
      then Some ''ELEVENLABS_TTS_DEFAULT_VOICE''
      else if tts_provider = ''elevenlabs'' \<and> (startswith model ''eleven_v3'' \<or> startswith model ''eleven_v4'')
      then Some ''ELEVENLABS_TTS_MODEL''
      else None)"

definition PLACEHOLDER_TOKENS :: "string list" where
  "PLACEHOLDER_TOKENS =
     [''changeme'', ''change-me'', ''change_me'', ''changeit'', ''replace-me'', ''replace_me'',
      ''your-token-here'', ''your_token_here'', ''secret'', ''password'', ''admin'', ''token'', ''test'',
      ''example'', ''default'']"

definition is_placeholder :: "string \<Rightarrow> bool" where
  "is_placeholder v \<longleftrightarrow> lower (strip v) \<in> set PLACEHOLDER_TOKENS"

definition insecure_tokens :: "settings \<Rightarrow> string list" where
  "insecure_tokens s =
     (if ADMIN_TOKEN s = [] \<or> is_placeholder (ADMIN_TOKEN s) then [''ADMIN_TOKEN''] else []) @
     (if OPENCLAW_TOKEN s = [] \<or> is_placeholder (OPENCLAW_TOKEN s) then [''OPENCLAW_TOKEN''] else []) @
     (if TTS_TOKEN s = DEFAULT_TTS_TOKEN then [''TTS_TOKEN''] else [])"

definition deprecated_settings :: "settings \<Rightarrow> string list" where
  "deprecated_settings s = (if SHUTDOWN_DRAIN_S s \<noteq> None then [''SHUTDOWN_DRAIN_S''] else [])"

text \<open>The warnings, one per name; the texts of the log are left out.\<close>

definition warn_insecure_tokens :: "settings \<Rightarrow> string list" where
  "warn_insecure_tokens s = insecure_tokens s"

definition warn_deprecated_settings :: "settings \<Rightarrow> string list" where
  "warn_deprecated_settings s = deprecated_settings s"

section \<open>Speech providers\<close>

text \<open>A built provider is told by its class; \<open>JotaTts\<close> takes what its constructor takes.\<close>

datatype speech_provider =
    JotaStt settings | JotaTts string string time time | ElevenStt settings | ElevenTts settings

definition build_jota_tts :: "settings \<Rightarrow> speech_provider" where
  "build_jota_tts s =
     JotaTts (TTS_WS_URL s) (TTS_TOKEN s) (TTS_RECONNECT_INITIAL_BACKOFF s) (TTS_RECONNECT_MAX_BACKOFF s)"

definition PROVIDER_BUILDERS :: "(string \<times> (string \<times> (settings \<Rightarrow> speech_provider)) list) list" where
  "PROVIDER_BUILDERS =
     [(''stt'', [(''jota'', JotaStt), (''elevenlabs'', ElevenStt)]),
      (''tts'', [(''jota'', build_jota_tts), (''elevenlabs'', ElevenTts)])]"

definition build_provider :: "string \<Rightarrow> string \<Rightarrow> settings \<Rightarrow> string option \<Rightarrow> exn + speech_provider" where
  "build_provider kind configured s name =
     (let chosen = (case name of None \<Rightarrow> configured | Some [] \<Rightarrow> configured | Some n \<Rightarrow> n);
          builders = (case map_of PROVIDER_BUILDERS kind of None \<Rightarrow> [] | Some bs \<Rightarrow> bs) in
      case map_of builders chosen of None \<Rightarrow> Inl ValueError | Some b \<Rightarrow> Inr (b s))"

definition build_stt_provider :: "settings \<Rightarrow> string option \<Rightarrow> exn + speech_provider" where
  "build_stt_provider s name = build_provider ''stt'' (STT_PROVIDER s) s name"

definition build_tts_provider :: "settings \<Rightarrow> string option \<Rightarrow> exn + speech_provider" where
  "build_tts_provider s name = build_provider ''tts'' (TTS_PROVIDER s) s name"

text \<open>\<open>JotaSttProvider\<close>: its own state never changes; \<open>status\<close> shows the last probe.\<close>

record jota_stt =
  js_settings :: settings
  js_state :: connection_state
  js_last_probe :: "bool option"

definition new_jota_stt :: "settings \<Rightarrow> jota_stt" where
  "new_jota_stt s = \<lparr>js_settings = s, js_state = CONNECTED, js_last_probe = None\<rparr>"

record jota_session_args =
  ja_url :: string
  ja_client_id :: string
  ja_token :: string
  ja_initial_backoff :: time
  ja_max_backoff :: time
  ja_max_duration :: time

definition jota_open_session :: "jota_stt \<Rightarrow> string \<Rightarrow> jota_session_args" where
  "jota_open_session p client_id =
     (let s = js_settings p in
      \<lparr>ja_url = TRANSCRIBER_WS_URL s, ja_client_id = client_id, ja_token = TRANSCRIBER_TOKEN s,
       ja_initial_backoff = TRANSCRIBER_RECONNECT_INITIAL_BACKOFF s,
       ja_max_backoff = TRANSCRIBER_RECONNECT_MAX_BACKOFF s,
       ja_max_duration = TRANSCRIBER_RECONNECT_MAX_DURATION s\<rparr>)"

definition jota_probe :: "bool \<Rightarrow> jota_stt \<Rightarrow> bool \<times> jota_stt" where
  "jota_probe ping p = (ping, p\<lparr>js_last_probe := Some ping\<rparr>)"

definition jota_status :: "jota_stt \<Rightarrow> service_status" where
  "jota_status p =
     \<lparr>st_name = ''transcriber'',
      st_state = (if js_last_probe p = Some False then DEGRADED else CONNECTED),
      st_connected_at = None, st_attempts = 0, st_last_error = None\<rparr>"

section \<open>Facts\<close>

text \<open>A query that can follow a path: empty, or from \<open>?\<close> on without a line break.\<close>

definition plain_query :: "string \<Rightarrow> bool" where
  "plain_query q \<longleftrightarrow> q = [] \<or> (hd q = CHR ''?'' \<and> CHR 0x0A \<notin> set q)"

lemma query_group_plain:
  assumes "query_group q = Some g" "hd q = CHR ''?''" "q \<noteq> []"
  shows "plain_query g"
proof (cases "CHR 0x0A \<in> set q")
  case False
  then show ?thesis using assms by (simp add: query_group_def plain_query_def)
next
  case True
  then have g: "g = butlast q" "CHR 0x0A \<notin> set g"
    using assms(1) by (auto simp: query_group_def split: if_splits)
  then show ?thesis
    using assms(2,3) by (cases q) (auto simp: plain_query_def split: if_splits)
qed

lemma query_group_idem: "plain_query q \<Longrightarrow> q \<noteq> [] \<Longrightarrow> query_group q = Some q"
  by (simp add: query_group_def plain_query_def)

lemma sqlite_url_parts:
  assumes "sqlite_url url = Some (scheme, path, query)"
  shows "sqlite_scheme scheme \<and> CHR '':'' \<notin> set scheme \<and> CHR ''?'' \<notin> set path \<and> plain_query query"
proof -
  let ?rest = "dropWhile (\<lambda>c. c \<noteq> CHR '':'') url"
  let ?q = "dropWhile (\<lambda>c. c \<noteq> CHR ''?'') (drop 4 ?rest)"
  have p: "sqlite_scheme scheme" "scheme = takeWhile (\<lambda>c. c \<noteq> CHR '':'') url"
    "path = takeWhile (\<lambda>c. c \<noteq> CHR ''?'') (drop 4 ?rest)"
    and q: "?q = [] \<and> query = [] \<or> ?q \<noteq> [] \<and> query_group ?q = Some query"
    using assms by (auto simp: sqlite_url_def Let_def split: if_splits)
  have "plain_query query"
  proof (cases "?q = []")
    case True
    then show ?thesis using q by (simp add: plain_query_def)
  next
    case False
    then have "hd ?q = CHR ''?''" using hd_dropWhile[OF False] by simp
    then show ?thesis using q False query_group_plain[of ?q query] by blast
  qed
  then show ?thesis using p by (auto dest: set_takeWhileD)
qed

lemma split_at_char:
  assumes "c \<notin> set xs"
  shows "takeWhile (\<lambda>x. x \<noteq> c) (xs @ c # ys) = xs" "dropWhile (\<lambda>x. x \<noteq> c) (xs @ c # ys) = c # ys"
    "takeWhile (\<lambda>x. x \<noteq> c) xs = xs" "dropWhile (\<lambda>x. x \<noteq> c) xs = []"
  using assms by (induction xs) auto

lemma sqlite_url_build:
  assumes "sqlite_scheme scheme" "CHR '':'' \<notin> set scheme" "CHR ''?'' \<notin> set path" "plain_query query"
  shows "sqlite_url (scheme @ '':///'' @ path @ query) = Some (scheme, path, query)"
proof -
  let ?url = "scheme @ '':///'' @ path @ query"
  have s: "takeWhile (\<lambda>c. c \<noteq> CHR '':'') ?url = scheme" "dropWhile (\<lambda>c. c \<noteq> CHR '':'') ?url = '':///'' @ path @ query"
    by (simp_all add: split_at_char[OF assms(2)])
  have q: "takeWhile (\<lambda>c. c \<noteq> CHR ''?'') (path @ query) = path" "dropWhile (\<lambda>c. c \<noteq> CHR ''?'') (path @ query) = query"
  proof -
    consider "query = []" | ys where "query = CHR ''?'' # ys"
      using assms(4) by (cases query) (auto simp: plain_query_def)
    then have "takeWhile (\<lambda>c. c \<noteq> CHR ''?'') (path @ query) = path \<and> dropWhile (\<lambda>c. c \<noteq> CHR ''?'') (path @ query) = query"
      by cases (simp_all add: split_at_char[OF assms(3)])
    then show "takeWhile (\<lambda>c. c \<noteq> CHR ''?'') (path @ query) = path" "dropWhile (\<lambda>c. c \<noteq> CHR ''?'') (path @ query) = query"
      by blast+
  qed
  have "drop 4 ('':///'' @ path @ query) = path @ query" by simp
  moreover have "startswith ('':///'' @ path @ query) '':///''" by (rule startswith_append)
  ultimately show ?thesis
    using assms(1) query_group_idem[OF assms(4)] unfolding sqlite_url_def Let_def s by (simp only: q) simp
qed

text \<open>
  Making the database URL absolute is stable, whatever the validator of the settings, the engine, the lock and the
  command line apply it to: a URL made absolute is a fixed point, it names the same file as the URL it came
  from, and the file of any SQLite URL is an absolute path, never relative to the current directory. What is used
  of urllib: quoting keeps a leading slash, gives no question mark and is undone by unquoting, which keeps a
  leading slash.
\<close>

theorem database_url_stable:
  assumes quote: "\<And>p. startswith p ''/'' \<Longrightarrow> startswith (quote p) ''/''" "\<And>p. CHR ''?'' \<notin> set (quote p)"
      "\<And>p. unquote (quote p) = p"
    and unquote: "\<And>p. startswith p ''/'' \<Longrightarrow> startswith (unquote p) ''/''"
    and home: "startswith home ''/''"
  shows "absolute_database_url quote unquote home (absolute_database_url quote unquote home url) =
           absolute_database_url quote unquote home url \<and>
         sqlite_file quote unquote home (absolute_database_url quote unquote home url) =
           sqlite_file quote unquote home url \<and>
         (\<forall>f. sqlite_file quote unquote home url = Some f \<longrightarrow> startswith f ''/'')"
proof (cases "sqlite_url url")
  case None
  then show ?thesis by (simp add: absolute_database_url_def sqlite_file_def)
next
  case (Some x)
  obtain scheme path query where x: "x = (scheme, path, query)" by (cases x)
  note parts = sqlite_url_parts[OF Some[unfolded x]]
  show ?thesis
  proof (cases "path = [] \<or> path = '':memory:'' \<or> startswith path ''/''")
    case True
    then have "absolute_database_url quote unquote home url = url"
      using Some x by (simp add: absolute_database_url_def)
    then show ?thesis using True Some x unquote by (auto simp: sqlite_file_def)
  next
    case False
    let ?abs = "home @ ''/'' @ unquote path"
    have a: "startswith ?abs ''/''" using home by (simp add: startswith_prefix)
    let ?new = "scheme @ '':///'' @ quote ?abs @ query"
    have u: "absolute_database_url quote unquote home url = ?new"
      using False Some x by (simp add: absolute_database_url_def)
    have p: "sqlite_url ?new = Some (scheme, quote ?abs, query)"
      using parts quote(2) by (intro sqlite_url_build) auto
    have s: "startswith (quote ?abs) ''/''" by (rule quote(1)[OF a])
    then have n: "quote ?abs \<noteq> []" "quote ?abs \<noteq> '':memory:''" by (auto simp: startswith_def)
    have f: "absolute_database_url quote unquote home ?new = ?new"
      using p s by (simp add: absolute_database_url_def)
    show ?thesis
      using n a unfolding u f sqlite_file_def p by (simp add: quote(3))
  qed
qed

text \<open>A percent coding of the two characters that matter here.\<close>

definition quote_min :: "string \<Rightarrow> string" where
  "quote_min p = concat (map (\<lambda>c. if c = CHR ''?'' then ''%3F'' else if c = CHR ''%'' then ''%25'' else [c]) p)"

fun unquote_min :: "string \<Rightarrow> string" where
  "unquote_min (a # b # c # cs) =
     (if [a, b, c] = ''%3F'' then CHR ''?'' # unquote_min cs
      else if [a, b, c] = ''%25'' then CHR ''%'' # unquote_min cs else a # unquote_min (b # c # cs))"
| "unquote_min cs = cs"

lemma unquote_min_plain: "c \<noteq> CHR ''%'' \<Longrightarrow> unquote_min (c # cs) = c # unquote_min cs"
  by (cases "c # cs" rule: unquote_min.cases) auto

lemma unquote_quote_min: "unquote_min (quote_min p) = p"
  by (induction p) (auto simp: quote_min_def unquote_min_plain)

theorem database_url_stable_witness:
  "sqlite_file quote_min unquote_min ''/home/u/.jota-gateway'' ''sqlite:///data/gateway.db?x=1'' =
     Some ''/home/u/.jota-gateway/data/gateway.db'' \<and>
   sqlite_file quote_min unquote_min ''/home/u/.jota-gateway''
     (absolute_database_url quote_min unquote_min ''/home/u/.jota-gateway'' ''sqlite:///data/gateway.db?x=1'') =
     Some ''/home/u/.jota-gateway/data/gateway.db''"
proof -
  have slash: "startswith (CHR ''/'' # r) ''/''" for r by (simp add: startswith_def)
  have cons: "\<exists>r. p = CHR ''/'' # r" if "startswith p ''/''" for p
    using that by (cases p) (simp_all add: startswith_def)
  have q: "startswith (quote_min p) ''/''" "startswith (unquote_min p) ''/''" if "startswith p ''/''" for p
    using cons[OF that] unquote_min_plain[of "CHR ''/''"] by (auto simp: quote_min_def slash)
  have n: "CHR ''?'' \<notin> set (quote_min p)" for p
    by (induction p) (simp_all add: quote_min_def)
  have "sqlite_file quote_min unquote_min ''/home/u/.jota-gateway''
     (absolute_database_url quote_min unquote_min ''/home/u/.jota-gateway'' ''sqlite:///data/gateway.db?x=1'') =
     sqlite_file quote_min unquote_min ''/home/u/.jota-gateway'' ''sqlite:///data/gateway.db?x=1''"
    by (rule database_url_stable[THEN conjunct2, THEN conjunct1])
       (simp_all only: q n unquote_quote_min slash simp_thms)
  moreover have "sqlite_file quote_min unquote_min ''/home/u/.jota-gateway'' ''sqlite:///data/gateway.db?x=1'' =
     Some ''/home/u/.jota-gateway/data/gateway.db''"
    by code_simp
  ultimately show ?thesis by simp
qed

section \<open>What validated settings guarantee\<close>

lemma providers_build:
  "settings_ok s \<Longrightarrow> (\<exists>p. build_stt_provider s None = Inr p) \<and> (\<exists>p. build_tts_provider s None = Inr p)"
  by (auto simp: settings_ok_def build_stt_provider_def build_tts_provider_def build_provider_def PROVIDER_BUILDERS_def)

lemma check_speech_ok:
  assumes "check_speech_settings s stt tts = None"
  shows "(stt = ''elevenlabs'' \<or> tts = ''elevenlabs'') \<longrightarrow> (\<exists>k. ELEVENLABS_API_KEY s = Some k \<and> strip k \<noteq> [])"
  using assms by (auto simp: check_speech_settings_def Let_def split: if_splits option.splits)

lemma jota_only_needs_nothing: "check_speech_settings s ''jota'' ''jota'' = None"
  by (simp add: check_speech_settings_def)

end
