(* ===== verification/Text_Lines.thy ===== *)
theory Text_Lines
  imports Prelude
begin

text \<open>
  Texts as lists of lines: \<open>str.splitlines\<close> of Python, which breaks at more characters than the line feed, and the
  newline translation of a file opened as text. Used by the parts of the command line that edit \<open>config.env\<close>.
\<close>

definition LF :: char where "LF = CHR 0x0A"

definition CR :: char where "CR = CHR 0x0D"

definition is_break :: "char \<Rightarrow> bool" where
  "is_break c \<longleftrightarrow> (let n = (of_char c :: nat) in n \<in> {10, 11, 12, 13, 28, 29, 30, 133})"

text \<open>\<open>splitlines(keepends=True)\<close>: a carriage return before a line feed is no break of its own.\<close>

fun splitlines_keep :: "string \<Rightarrow> string list" where
  "splitlines_keep [] = []"
| "splitlines_keep (c # cs) =
     (if is_break c \<and> \<not> (c = CR \<and> cs \<noteq> [] \<and> hd cs = LF) then [c] # splitlines_keep cs
      else (case splitlines_keep cs of [] \<Rightarrow> [[c]] | l # ls \<Rightarrow> (c # l) # ls))"

definition strip_break :: "string \<Rightarrow> string" where
  "strip_break l =
     (if l = [] \<or> \<not> is_break (last l) then l
      else if last l = LF \<and> butlast l \<noteq> [] \<and> last (butlast l) = CR then butlast (butlast l)
      else butlast l)"

definition splitlines :: "string \<Rightarrow> string list" where
  "splitlines s = map strip_break (splitlines_keep s)"

fun universal_newlines :: "string \<Rightarrow> string" where
  "universal_newlines [] = []"
| "universal_newlines (c # cs) =
     (if c = CR then (case cs of [] \<Rightarrow> [LF] | d # ds \<Rightarrow> if d = LF then universal_newlines cs else LF # universal_newlines cs)
      else c # universal_newlines cs)"

definition join :: "string \<Rightarrow> string list \<Rightarrow> string" where
  "join sep xs = (case xs of [] \<Rightarrow> [] | y # ys \<Rightarrow> y @ concat (map (\<lambda>z. sep @ z) ys))"

section \<open>Splitting and joining\<close>

lemma concat_splitlines_keep [simp]: "concat (splitlines_keep s) = s"
  by (induction s) (auto split: list.splits)

lemma splitlines_keep_Nil_iff [simp]: "splitlines_keep s = [] \<longleftrightarrow> s = []"
  by (cases s) (auto split: list.splits)

text \<open>A text whose only line break is the line feed.\<close>

definition plain_text :: "string \<Rightarrow> bool" where
  "plain_text s \<longleftrightarrow> list_all (\<lambda>c. is_break c \<longrightarrow> c = LF) s"

definition no_break :: "string \<Rightarrow> bool" where
  "no_break s \<longleftrightarrow> list_all (\<lambda>c. \<not> is_break c) s"

definition full_line :: "string \<Rightarrow> bool" where
  "full_line l \<longleftrightarrow> (\<exists>b. l = b @ [LF] \<and> no_break b)"

definition open_line :: "string \<Rightarrow> bool" where
  "open_line l \<longleftrightarrow> l \<noteq> [] \<and> no_break l"

fun lines_ok :: "string list \<Rightarrow> bool" where
  "lines_ok [] = True"
| "lines_ok [l] = (full_line l \<or> open_line l)"
| "lines_ok (l # ls) = (full_line l \<and> lines_ok ls)"

lemma LF_break [simp]: "is_break LF" "LF \<noteq> CR" "CR \<noteq> LF" "is_break CR"
  by (simp_all add: is_break_def LF_def CR_def)

lemma no_break_simps [simp]:
  "no_break []" "no_break (c # cs) \<longleftrightarrow> \<not> is_break c \<and> no_break cs"
  "no_break (xs @ ys) \<longleftrightarrow> no_break xs \<and> no_break ys"
  by (auto simp: no_break_def)

lemma plain_text_simps [simp]:
  "plain_text []" "plain_text (c # cs) \<longleftrightarrow> (is_break c \<longrightarrow> c = LF) \<and> plain_text cs"
  "plain_text (xs @ ys) \<longleftrightarrow> plain_text xs \<and> plain_text ys"
  by (auto simp: plain_text_def)

lemma no_break_CR: "no_break b \<Longrightarrow> CR \<notin> set b"
  by (auto simp: no_break_def list_all_iff)

lemma splitlines_body:
  "no_break b \<Longrightarrow> splitlines_keep (b @ LF # s) = (b @ [LF]) # splitlines_keep s"
  by (induction b) auto

lemma splitlines_full_line: "full_line l \<Longrightarrow> splitlines_keep (l @ s) = l # splitlines_keep s"
  by (auto simp: full_line_def splitlines_body)

lemma splitlines_open_line: "open_line l \<Longrightarrow> splitlines_keep l = [l]"
proof -
  have "no_break l \<Longrightarrow> splitlines_keep l = (if l = [] then [] else [l])" by (induction l) auto
  then show "open_line l \<Longrightarrow> splitlines_keep l = [l]" by (simp add: open_line_def)
qed

lemma splitlines_concat: "lines_ok ls \<Longrightarrow> splitlines_keep (concat ls) = ls"
proof (induction ls rule: lines_ok.induct)
  case (2 l)
  then show ?case using splitlines_full_line[of l "[]"] splitlines_open_line[of l] by auto
next
  case (3 l v va)
  then have "splitlines_keep (l @ concat (v # va)) = l # splitlines_keep (concat (v # va))"
    by (intro splitlines_full_line) simp
  then show ?case using 3 by simp
qed simp

lemma lines_ok_Cons: "lines_ok (l # ls) \<longleftrightarrow> (full_line l \<and> lines_ok ls) \<or> (open_line l \<and> ls = [])"
  by (cases ls) auto

lemma splitlines_lines_ok: "plain_text s \<Longrightarrow> lines_ok (splitlines_keep s)"
proof (induction s)
  case (Cons c cs)
  have f: "full_line [LF]" by (simp add: full_line_def)
  have g: "full_line (c # l)" if "\<not> is_break c" "full_line l" for l
  proof -
    from that obtain b where "l = b @ [LF]" "no_break b" by (auto simp: full_line_def)
    then show ?thesis using that by (intro full_line_def[THEN iffD2] exI[of _ "c # b"]) simp
  qed
  show ?case
  proof (cases "is_break c")
    case True
    then have "c = LF" using Cons.prems by simp
    then show ?thesis using Cons f by (simp add: lines_ok_Cons)
  next
    case False
    then show ?thesis using Cons g
      by (auto simp: lines_ok_Cons open_line_def split: list.splits)
  qed
qed simp

lemma lines_ok_filter: "lines_ok ls \<Longrightarrow> lines_ok (filter P ls)"
  by (induction ls) (auto simp: lines_ok_Cons)

lemma strip_break_full [simp]: "no_break b \<Longrightarrow> strip_break (b @ [LF]) = b"
  using no_break_CR[of b] by (auto simp: strip_break_def) (metis last_in_set)

lemma strip_break_open: "open_line l \<Longrightarrow> strip_break l = l"
  by (auto simp: strip_break_def open_line_def no_break_def list_all_iff)

lemma break_space: "is_break c \<Longrightarrow> py_isspace c"
  by (auto simp: is_break_def py_isspace_def Let_def)

lemma LF_space [simp]: "py_isspace LF"
  by (simp add: break_space)

end
