(* ===== verification/Cli_Api.thy ===== *)
theory Cli_Api
  imports Text_Lines
begin

text \<open>
  \<open>cli/api.py\<close> and \<open>cli/refs.py\<close>: the administrator's HTTP client with its exit codes (1 error, 2 wrong use, 3
  gateway out of reach), the reader of an env file, and the resolution of a client by id, prefix or name. An
  \<open>ApiError\<close> is its exit code with its message; messages are constructors with what they name. \<open>json.loads\<close>
  (\<open>None\<close>: a \<open>ValueError\<close>) and \<open>str\<close> of a JSON value are arguments.
\<close>

datatype api_msg =
    CannotRead | MissingToken | InvalidUrl | Unreachable | TlsError | Incomplete | NotJson | NoJsonBody nat
  | Redirected | BadToken | InvalidData string | GatewayError nat | Detail string | PlainError nat
  | Ambiguous "string list" | NoClient | Usage string

record api_error =
  ae_exit :: nat
  ae_msg :: api_msg

definition api_err :: "nat \<Rightarrow> api_msg \<Rightarrow> api_error" where
  "api_err code m = \<lparr>ae_exit = code, ae_msg = m\<rparr>"

section \<open>Env files and the token\<close>

text \<open>A file as a reader finds it.\<close>

datatype file_text = Missing | Unreadable | Text string

definition strip_chars :: "char list \<Rightarrow> string \<Rightarrow> string" where
  "strip_chars cs s = rev (dropWhile (\<lambda>c. c \<in> set cs) (rev (dropWhile (\<lambda>c. c \<in> set cs) s)))"

definition QUOTE_CHARS :: "char list" where "QUOTE_CHARS = [CHR 0x22, CHR 0x27]"

text \<open>One line: the key and the value it sets, if it is an assignment.\<close>

definition env_line :: "string \<Rightarrow> (string \<times> string) option" where
  "env_line raw =
     (let line = strip raw in
      if line = [] \<or> startswith line ''#'' \<or> CHR ''='' \<notin> set line then None
      else Some (strip (takeWhile (\<lambda>c. c \<noteq> CHR ''='') line),
                 strip_chars QUOTE_CHARS (strip (tl (dropWhile (\<lambda>c. c \<noteq> CHR ''='') line)))))"

definition read_env_text :: "string \<Rightarrow> (string \<times> string) list" where
  "read_env_text text = foldl (\<lambda>m (k, v). dput k v m) [] (List.map_filter env_line (splitlines text))"

definition read_env_file :: "file_text \<Rightarrow> api_error + (string \<times> string) list" where
  "read_env_file f =
     (case f of Text t \<Rightarrow> Inr (read_env_text (universal_newlines t)) | _ \<Rightarrow> Inl (api_err 1 CannotRead))"

definition resolve_token :: "string option \<Rightarrow> string option \<Rightarrow> file_text \<Rightarrow> api_error + string" where
  "resolve_token explicit environ config =
     (let nonempty = (\<lambda>x. case x of None \<Rightarrow> False | Some s \<Rightarrow> s \<noteq> []) in
      if nonempty explicit then Inr (the explicit)
      else if nonempty environ then Inr (the environ)
      else case config of
        Missing \<Rightarrow> Inl (api_err 2 MissingToken)
      | _ \<Rightarrow>
          (case read_env_file config of
             Inl e \<Rightarrow> Inl e
           | Inr m \<Rightarrow> if nonempty (map_of m ''ADMIN_TOKEN'') then Inr (the (map_of m ''ADMIN_TOKEN''))
                      else Inl (api_err 2 MissingToken)))"

section \<open>Requests\<close>

text \<open>\<open>_detail\<close>: \<open>None\<close> becomes JSON null; a body that is no JSON object gives null too.\<close>

definition error_detail :: "(string \<Rightarrow> json option) \<Rightarrow> string \<Rightarrow> json" where
  "error_detail loads body = (case loads body of Some (JObj d) \<Rightarrow> dget d ''detail'' | _ \<Rightarrow> JNull)"

definition INVALID_DATA :: string where
  "INVALID_DATA = ''Datos no v'' @ [CHR 0xE1] @ ''lidos''"

definition REQUEST :: string where "REQUEST = ''petici'' @ [CHR 0xF3] @ ''n''"

definition NOT_VALID :: string where "NOT_VALID = ''no v'' @ [CHR 0xE1] @ ''lid''"

definition or_default :: "string \<Rightarrow> string \<Rightarrow> string" where
  "or_default s d = (if s = [] then d else s)"

definition validation_item :: "(json \<Rightarrow> string) \<Rightarrow> json \<Rightarrow> string" where
  "validation_item str item =
     (case item of
        JObj d \<Rightarrow>
          (let loc = (case dget_or d ''loc'' (JArr []) of JArr ps \<Rightarrow> map str (filter (\<lambda>p. p \<noteq> JStr ''body'') ps) | _ \<Rightarrow> []) in
           or_default (join ''.'' loc) REQUEST @ '': '' @ str (dget_or d ''msg'' (JStr (NOT_VALID @ ''o''))))
      | _ \<Rightarrow> REQUEST @ '': '' @ NOT_VALID @ ''a'')"

definition validation_message :: "(json \<Rightarrow> string) \<Rightarrow> json \<Rightarrow> string" where
  "validation_message str detail =
     (case detail of
        JArr items \<Rightarrow> INVALID_DATA @ '': '' @ join ''; '' (map (validation_item str) items)
      | _ \<Rightarrow> if truthy detail then str detail else INVALID_DATA @ ''.'')"

definition http_error :: "(string \<Rightarrow> json option) \<Rightarrow> (json \<Rightarrow> string) \<Rightarrow> nat \<Rightarrow> string \<Rightarrow> api_error" where
  "http_error loads str code body =
     (if 300 \<le> code \<and> code < 400 then api_err 1 Redirected
      else if code = 401 then api_err 1 BadToken
      else let detail = error_detail loads body in
        if code = 422 then api_err 2 (InvalidData (validation_message str detail))
        else if 500 \<le> code then api_err 1 (GatewayError code)
        else if truthy detail then api_err 1 (Detail (str detail)) else api_err 1 (PlainError code))"

text \<open>
  What a request meets: an address that is none, an answer (its chunks, each with the clock after it), an HTTP
  error with its body, a \<open>URLError\<close> (from TLS or not), a broken answer, an \<open>OSError\<close> or a timeout.
\<close>

datatype exchange =
    BadAddress
  | Answer "(string \<times> time) list"
  | ErrorStatus nat string
  | UrlFailure bool
  | BrokenAnswer
  | OsFailure

fun read_chunks :: "time \<Rightarrow> (string \<times> time) list \<Rightarrow> string option" where
  "read_chunks deadline [] = Some []"
| "read_chunks deadline ((chunk, now) # cs) =
     (if deadline < now then None else map_option (\<lambda>r. chunk @ r) (read_chunks deadline cs))"

definition request ::
  "(string \<Rightarrow> json option) \<Rightarrow> (json \<Rightarrow> string) \<Rightarrow> nat list \<Rightarrow> time \<Rightarrow> exchange \<Rightarrow> api_error + json" where
  "request loads str accept deadline x =
     (case x of
        BadAddress \<Rightarrow> Inl (api_err 2 InvalidUrl)
      | Answer chunks \<Rightarrow>
          (case read_chunks deadline chunks of
             None \<Rightarrow> Inl (api_err 3 Unreachable)
           | Some raw \<Rightarrow>
               if raw = [] then Inr JNull
               else (case loads raw of None \<Rightarrow> Inl (api_err 1 NotJson) | Some j \<Rightarrow> Inr j))
      | ErrorStatus code body \<Rightarrow>
          if code \<in> set accept
          then (case loads body of None \<Rightarrow> Inl (api_err 1 (NoJsonBody code)) | Some j \<Rightarrow> Inr j)
          else Inl (http_error loads str code body)
      | UrlFailure tls \<Rightarrow> Inl (if tls then api_err 1 TlsError else api_err 3 Unreachable)
      | BrokenAnswer \<Rightarrow> Inl (api_err 1 Incomplete)
      | OsFailure \<Rightarrow> Inl (api_err 3 Unreachable))"

section \<open>References to a client\<close>

definition MIN_PREFIX :: nat where "MIN_PREFIX = 4"

text \<open>A listed client: its id, its name and the whole row.\<close>

record client_ref =
  cr_id :: string
  cr_name :: string
  cr_row :: dict

text \<open>\<open>str.casefold\<close> on the characters of the model: as \<open>lower\<close>, and the sharp s becomes two letters.\<close>

definition casefold :: "string \<Rightarrow> string" where
  "casefold s = concat (map (\<lambda>c. if c = CHR 0xDF then ''ss'' else [ascii_lower c]) s)"

text \<open>The clients with their positions: \<open>is not\<close> compares the objects of the list.\<close>

definition prefix_matches :: "client_ref list \<Rightarrow> string \<Rightarrow> (nat \<times> client_ref) list" where
  "prefix_matches cs r =
     (if MIN_PREFIX \<le> length r
      then filter (\<lambda>(_, c). startswith (casefold (cr_id c)) (casefold r)) (enumerate 0 cs) else [])"

definition name_matches :: "client_ref list \<Rightarrow> string \<Rightarrow> (nat \<times> client_ref) list" where
  "name_matches cs r = filter (\<lambda>(_, c). casefold (cr_name c) = casefold r) (enumerate 0 cs)"

definition ambiguous :: "(nat \<times> client_ref) list \<Rightarrow> api_error" where
  "ambiguous ms = api_err 2 (Ambiguous (map (\<lambda>(_, c). cr_id c) ms))"

definition resolve_ref :: "client_ref list \<Rightarrow> string \<Rightarrow> api_error + client_ref" where
  "resolve_ref cs ref0 =
     (let r = strip ref0 in
      case find (\<lambda>c. cr_id c = r) cs of
        Some c \<Rightarrow> Inr c
      | None \<Rightarrow>
          (let by_prefix = prefix_matches cs r; by_name = name_matches cs r in
           if 1 < length by_prefix then Inl (ambiguous by_prefix)
           else if 1 < length by_name then Inl (ambiguous by_name)
           else if by_prefix \<noteq> [] \<and> by_name \<noteq> [] \<and> fst (hd by_prefix) \<noteq> fst (hd by_name)
           then Inl (ambiguous (by_prefix @ by_name))
           else if by_prefix \<noteq> [] \<or> by_name \<noteq> []
           then Inr (snd (hd (if by_prefix \<noteq> [] then by_prefix else by_name)))
           else Inl (api_err 1 NoClient)))"

section \<open>Exit codes\<close>

text \<open>
  The exit code of a request tells what to do: it is 3 exactly when the gateway is out of reach (nothing answered, or
  not within the time), 2 exactly when the address or the data sent are wrong, and 1 for every other failure; a
  body is only ever taken for a result when it is JSON or empty, and an error status only when the caller
  accepts it.
\<close>

theorem request_exit_codes:
  "(case request loads str accept deadline x of
      Inl e \<Rightarrow>
        (ae_exit e = 3 \<longleftrightarrow> x \<in> {UrlFailure False, OsFailure} \<or>
           (\<exists>chunks. x = Answer chunks \<and> read_chunks deadline chunks = None)) \<and>
        (ae_exit e = 2 \<longleftrightarrow> x = BadAddress \<or> (\<exists>body. x = ErrorStatus 422 body \<and> 422 \<notin> set accept)) \<and>
        ae_exit e \<in> {1, 2, 3}
    | Inr j \<Rightarrow>
        (\<exists>chunks raw. x = Answer chunks \<and> read_chunks deadline chunks = Some raw \<and>
           (if raw = [] then j = JNull else loads raw = Some j)) \<or>
        (\<exists>code body. x = ErrorStatus code body \<and> code \<in> set accept \<and> loads body = Some j))"
  by (cases x) (auto simp: request_def http_error_def api_err_def Let_def split: option.splits if_splits)

section \<open>The right client\<close>

lemma enumerate_filter_two:
  assumes "1 < length (filter Q (enumerate 0 xs))"
  shows "\<exists>i j. i < j \<and> j < length xs \<and> Q (i, xs ! i) \<and> Q (j, xs ! j)"
proof -
  let ?ys = "filter Q (enumerate 0 xs)"
  have d: "distinct (map fst ?ys)" by (simp add: distinct_map_filter)
  have m: "fst y < length xs \<and> Q (fst y, xs ! fst y)" if "y \<in> set ?ys" for y
  proof -
    have "y \<in> set (enumerate 0 xs)" "Q y" using that unfolding set_filter by blast+
    then have "fst y < length xs" "xs ! fst y = snd y" "Q y"
      using in_set_enumerate_eq[of y 0 xs] by simp_all
    then show ?thesis by (simp add: prod.collapse)
  qed
  have i: "?ys ! 0 \<in> set ?ys" "?ys ! 1 \<in> set ?ys" by (rule nth_mem; use assms in linarith)+
  have l: "0 < length ?ys" "1 < length ?ys" using assms by linarith+
  then have "map fst ?ys ! 0 \<noteq> map fst ?ys ! 1"
    using nth_eq_iff_index_eq[OF d, of 0 1] by (simp only: length_map)
  then have "fst (?ys ! 0) \<noteq> fst (?ys ! 1)" by (simp only: nth_map[OF l(1)] nth_map[OF l(2)] not_False_eq_True)
  then show ?thesis using m[OF i(1)] m[OF i(2)] by (metis linorder_neqE_nat)
qed

text \<open>What makes a client the one meant by a reference that is nobody's id.\<close>

definition ref_matches :: "string \<Rightarrow> client_ref \<Rightarrow> bool" where
  "ref_matches r c \<longleftrightarrow>
     (MIN_PREFIX \<le> length r \<and> startswith (casefold (cr_id c)) (casefold r)) \<or> casefold (cr_name c) = casefold r"

lemma prefix_matches_iff:
  "(i, c) \<in> set (prefix_matches cs r) \<longleftrightarrow>
     i < length cs \<and> cs ! i = c \<and> MIN_PREFIX \<le> length r \<and> startswith (casefold (cr_id c)) (casefold r)"
  by (auto simp: prefix_matches_def in_set_enumerate_eq)

lemma name_matches_iff:
  "(i, c) \<in> set (name_matches cs r) \<longleftrightarrow> i < length cs \<and> cs ! i = c \<and> casefold (cr_name c) = casefold r"
  by (auto simp: name_matches_def in_set_enumerate_eq)

lemma at_most_one: "\<not> 1 < length xs \<Longrightarrow> x \<in> set xs \<Longrightarrow> xs = [x]"
  by (cases xs) auto

lemma matches_cases:
  assumes "i < length cs"
  shows "ref_matches r (cs ! i) \<longleftrightarrow>
     (i, cs ! i) \<in> set (prefix_matches cs r) \<or> (i, cs ! i) \<in> set (name_matches cs r)"
  using assms by (simp add: ref_matches_def prefix_matches_iff name_matches_iff)

lemma resolve_few:
  fixes cs :: "client_ref list" and r :: string
  defines "P \<equiv> prefix_matches cs r" and "N \<equiv> name_matches cs r"
  assumes P: "\<not> 1 < length P" and N: "\<not> 1 < length N"
    and res: "res = (if 1 < length P then Inl (ambiguous P) else if 1 < length N then Inl (ambiguous N)
       else if P \<noteq> [] \<and> N \<noteq> [] \<and> fst (hd P) \<noteq> fst (hd N) then Inl (ambiguous (P @ N))
       else if P \<noteq> [] \<or> N \<noteq> [] then Inr (snd (hd (if P \<noteq> [] then P else N))) else Inl (api_err 1 NoClient))"
    and many: "\<exists>i j. i < j \<and> j < length cs \<and> ref_matches r (cs ! i) \<and> ref_matches r (cs ! j) \<Longrightarrow>
        \<exists>ms. res = Inl (ambiguous ms) \<Longrightarrow> thesis"
    and one: "\<And>i. i < length cs \<Longrightarrow> ref_matches r (cs ! i) \<Longrightarrow> res = Inr (cs ! i) \<Longrightarrow>
        \<forall>j < length cs. ref_matches r (cs ! j) \<longrightarrow> j = i \<Longrightarrow> thesis"
    and none: "P = [] \<Longrightarrow> N = [] \<Longrightarrow> res = Inl (api_err 1 NoClient) \<Longrightarrow> thesis"
  shows thesis
proof -
  have Px: "P = [(i, c)] \<Longrightarrow> i < length cs \<and> cs ! i = c \<and> ref_matches r c" for i c
    using prefix_matches_iff[of i c cs r] by (simp add: P_def ref_matches_def)
  have Nx: "N = [(i, c)] \<Longrightarrow> i < length cs \<and> cs ! i = c \<and> ref_matches r c" for i c
    using name_matches_iff[of i c cs r] by (simp add: N_def ref_matches_def)
  have all: "j < length cs \<Longrightarrow> ref_matches r (cs ! j) \<longleftrightarrow> (j, cs ! j) \<in> set P \<or> (j, cs ! j) \<in> set N" for j
    using matches_cases by (simp add: P_def N_def)
  consider "P = []" "N = []" | i c where "P = [(i, c)]" "N = []" | i c where "P = []" "N = [(i, c)]"
    | i c j d where "P = [(i, c)]" "N = [(j, d)]"
    using P N by (cases P; cases N) (auto simp: not_less le_Suc_eq length_Suc_conv)
  then show thesis
  proof cases
    case 1
    then show ?thesis using res by (intro none) auto
  next
    case 2
    then show ?thesis using res Px all by (intro one[of i]) auto
  next
    case 3
    then show ?thesis using res Nx all by (intro one[of i]) auto
  next
    case 4
    show ?thesis
    proof (cases "i = j")
      case True
      then show ?thesis using 4 res Px Nx all by (intro one[of i]) auto
    next
      case False
      then show ?thesis using 4 res Px[of i c] Nx[of j d]
        by (intro many) (auto, metis linorder_neqE_nat)
    qed
  qed
qed

text \<open>
  C31: A command never acts on the wrong client: a reference resolves to the client whose id it is; failing that, to a
  client that matches by prefix or name only when no other client of the list does; several matches are an
  error of use with their ids, none an error.
\<close>

theorem resolve_unique:
  fixes cs :: "client_ref list" and ref0 :: string
  defines "r \<equiv> strip ref0"
  shows "case resolve_ref cs ref0 of
      Inr c \<Rightarrow> c \<in> set cs \<and>
        (cr_id c = r \<or>
         (\<forall>i < length cs. cr_id (cs ! i) \<noteq> r) \<and>
         (\<exists>i < length cs. cs ! i = c \<and> ref_matches r c \<and> (\<forall>j < length cs. ref_matches r (cs ! j) \<longrightarrow> j = i)))
    | Inl e \<Rightarrow> r \<notin> cr_id ` set cs \<and>
        (if \<exists>c\<in>set cs. ref_matches r c
         then ae_exit e = 2 \<and> (\<exists>i j. i < j \<and> j < length cs \<and> ref_matches r (cs ! i) \<and> ref_matches r (cs ! j))
         else e = api_err 1 NoClient)"
proof -
  let ?P = "prefix_matches cs r" and ?N = "name_matches cs r"
  show ?thesis
  proof (cases "find (\<lambda>c. cr_id c = r) cs")
    case (Some c)
    have "resolve_ref cs ref0 = Inr c" using Some by (simp add: resolve_ref_def r_def Let_def)
    moreover have "c \<in> set cs" "cr_id c = r" using Some by (auto simp: find_Some_iff)
    ultimately have "resolve_ref cs ref0 = Inr c" "c \<in> set cs" "cr_id c = r" by blast+
    then show ?thesis by simp
  next
    case None
    then have no_id: "r \<notin> cr_id ` set cs" "\<forall>i < length cs. cr_id (cs ! i) \<noteq> r"
      by (auto simp: find_None_iff)
    have two: "\<exists>i j. i < j \<and> j < length cs \<and> ref_matches r (cs ! i) \<and> ref_matches r (cs ! j) \<Longrightarrow>
        \<exists>c\<in>set cs. ref_matches r c" by (metis nth_mem order_less_trans)
    have res: "resolve_ref cs ref0 =
      (if 1 < length ?P then Inl (ambiguous ?P) else if 1 < length ?N then Inl (ambiguous ?N)
       else if ?P \<noteq> [] \<and> ?N \<noteq> [] \<and> fst (hd ?P) \<noteq> fst (hd ?N) then Inl (ambiguous (?P @ ?N))
       else if ?P \<noteq> [] \<or> ?N \<noteq> [] then Inr (snd (hd (if ?P \<noteq> [] then ?P else ?N))) else Inl (api_err 1 NoClient))"
      using None by (simp add: resolve_ref_def r_def Let_def)
    consider (many) "\<exists>i j. i < j \<and> j < length cs \<and> ref_matches r (cs ! i) \<and> ref_matches r (cs ! j)"
        "\<exists>ms. resolve_ref cs ref0 = Inl (ambiguous ms)"
      | (one) i where "i < length cs" "ref_matches r (cs ! i)" "resolve_ref cs ref0 = Inr (cs ! i)"
          "\<forall>j < length cs. ref_matches r (cs ! j) \<longrightarrow> j = i"
      | (none) "?P = []" "?N = []" "resolve_ref cs ref0 = Inl (api_err 1 NoClient)"
    proof -
      show thesis
      proof (cases "1 < length ?P")
        case True
        then have "\<exists>i j. i < j \<and> j < length cs \<and> ref_matches r (cs ! i) \<and> ref_matches r (cs ! j)"
          using enumerate_filter_two[of "\<lambda>(_, c). startswith (casefold (cr_id c)) (casefold r)" cs]
          by (auto simp: prefix_matches_def ref_matches_def split: if_splits)
        then show thesis using True res by (intro many) auto
      next
        case P: False
        show thesis
        proof (cases "1 < length ?N")
          case True
          then have "\<exists>i j. i < j \<and> j < length cs \<and> ref_matches r (cs ! i) \<and> ref_matches r (cs ! j)"
            using enumerate_filter_two[of "\<lambda>(_, c). casefold (cr_name c) = casefold r" cs]
            by (auto simp: name_matches_def ref_matches_def)
          then show thesis using True P res by (intro many) auto
        next
          case N: False
          show thesis by (rule resolve_few[OF P N res many one none])
        qed
      qed
    qed
    then show ?thesis
    proof cases
      case many
      obtain ms where "resolve_ref cs ref0 = Inl (ambiguous ms)" using many(2) by blast
      moreover have "ae_exit (ambiguous ms) = 2" by (simp add: ambiguous_def api_err_def)
      ultimately show ?thesis using many(1) two[OF many(1)] no_id(1) by (simp only: sum.case if_True) blast
    next
      case one
      then have "\<exists>k<length cs. cs ! k = cs ! i \<and> ref_matches r (cs ! i) \<and>
          (\<forall>j<length cs. ref_matches r (cs ! j) \<longrightarrow> j = k)" by blast
      then show ?thesis using one(3) nth_mem[OF one(1)] no_id(2) by (simp only: sum.case) blast
    next
      case none
      then have "\<not> (\<exists>c\<in>set cs. ref_matches r c)"
        using matches_cases[of _ cs r] by (auto simp: in_set_conv_nth)
      then show ?thesis using none no_id by simp
    qed
  qed
qed

theorem resolve_unique_witness:
  "(case resolve_ref [\<lparr>cr_id = ''abcd12'', cr_name = ''kitchen'', cr_row = []\<rparr>,
                      \<lparr>cr_id = ''ffff00'', cr_name = ''ABCD'', cr_row = []\<rparr>] '' ABCD'' of
      Inr c \<Rightarrow> False
    | Inl e \<Rightarrow> ae_exit e = 2)"
proof -
  let ?cs = "[\<lparr>cr_id = ''abcd12'', cr_name = ''kitchen'', cr_row = []\<rparr>, \<lparr>cr_id = ''ffff00'', cr_name = ''ABCD'', cr_row = []\<rparr>]"
  have i: "\<exists>e. resolve_ref ?cs '' ABCD'' = Inl e"
    by (rule exI[of _ "api_err 2 (Ambiguous [''abcd12'', ''ffff00''])"]) code_simp
  have "ref_matches (strip '' ABCD'') (?cs ! 0)" by code_simp
  then have "\<exists>c\<in>set ?cs. ref_matches (strip '' ABCD'') c" by auto
  then show ?thesis
    using resolve_unique[where cs = ?cs and ?ref0.0 = "'' ABCD''"] i by (auto split: sum.splits)
qed

end
