(* ===== verification/Cli_Config.thy ===== *)
theory Cli_Config
  imports Settings Cli_Api
begin

text \<open>
  \<open>cli/config.py\<close>: the effective configuration, its checks and its edition. pydantic and dotenv are arguments:
  \<open>mk\<close> is what \<open>Settings()\<close> gives for the environment and the text of the file, \<open>dotenv\<close> the pairs read from a
  text. A message is a constructor with what it names.
\<close>

section \<open>Loading\<close>

text \<open>A validation error of pydantic has at least one entry: its location and its kind.\<close>

datatype built =
    Built settings | ValidationFailed "string list \<times> string" "(string list \<times> string) list" | SettingsFailed "string option"

datatype origin = Environ | From_File | Default

type_synonym env = "(string \<times> string) list"

definition upper :: "string \<Rightarrow> string" where
  "upper s = concat (map (\<lambda>c. let n = (of_char c :: nat) in
     if n = 223 then ''SS''
     else if (97 \<le> n \<and> n \<le> 122) \<or> (224 \<le> n \<and> n \<le> 254 \<and> n \<noteq> 247) then [char_of (n - 32)] else [c]) s)"

definition validation_errors :: "(string list \<times> string) list \<Rightarrow> string list" where
  "validation_errors es = map (\<lambda>(loc, kind). join ''.'' loc @ '': '' @ kind) es"

definition settings_error :: "string option \<Rightarrow> string list" where
  "settings_error field =
     [(case field of Some f \<Rightarrow> f | None \<Rightarrow> ''configuraci'' @ [CHR 0xF3] @ ''n'') @ '': formato '' @ NOT_VALID @ ''o'']"

text \<open>The values of the settings by name, in the order of the fields.\<close>

datatype cfg_value =
    CStr string | CSecret string | CNone | CBool bool | CNum rat | CInt int | CMap "(string \<times> string) list"

definition opt_value :: "('a \<Rightarrow> cfg_value) \<Rightarrow> 'a option \<Rightarrow> cfg_value" where
  "opt_value f x = (case x of None \<Rightarrow> CNone | Some v \<Rightarrow> f v)"

definition field_values :: "settings \<Rightarrow> (string \<times> cfg_value) list" where
  "field_values s =
     [(''DATABASE_URL'', CStr (DATABASE_URL s)), (''GATEWAY_HOST'', CStr (GATEWAY_HOST s)),
      (''SINGLE_PROCESS_LOCK'', CBool (SINGLE_PROCESS_LOCK s)),
      (''SESSION_REVALIDATE_INTERVAL_S'', CNum (SESSION_REVALIDATE_INTERVAL_S s)),
      (''ADMIN_TOKEN'', CStr (ADMIN_TOKEN s)), (''TRUST_LOOPBACK'', CBool (TRUST_LOOPBACK s)),
      (''TRUSTED_NETWORKS'', CStr (TRUSTED_NETWORKS s)), (''TRUSTED_PROXIES'', CStr (TRUSTED_PROXIES s)),
      (''TRANSCRIBER_WS_URL'', CStr (TRANSCRIBER_WS_URL s)), (''TRANSCRIBER_TOKEN'', CStr (TRANSCRIBER_TOKEN s)),
      (''TTS_WS_URL'', CStr (TTS_WS_URL s)), (''TTS_TOKEN'', CStr (TTS_TOKEN s)),
      (''STT_PROVIDER'', CStr (STT_PROVIDER s)), (''TTS_PROVIDER'', CStr (TTS_PROVIDER s)),
      (''ELEVENLABS_API_KEY'', opt_value CSecret (ELEVENLABS_API_KEY s)),
      (''ELEVENLABS_BASE_URL'', CStr (ELEVENLABS_BASE_URL s)),
      (''ELEVENLABS_TTS_MODEL'', CStr (ELEVENLABS_TTS_MODEL s)),
      (''ELEVENLABS_TTS_DEFAULT_VOICE'', opt_value CStr (ELEVENLABS_TTS_DEFAULT_VOICE s)),
      (''TTS_VOICE_MAP'', CMap (TTS_VOICE_MAP s)), (''STT_AUDIO_GATE'', CStr (STT_AUDIO_GATE s)),
      (''STT_GATE_RMS_DBFS'', CNum (STT_GATE_RMS_DBFS s)), (''OPENCLAW_HOST'', CStr (OPENCLAW_HOST s)),
      (''OPENCLAW_PORT'', CInt (OPENCLAW_PORT s)), (''OPENCLAW_TOKEN'', CStr (OPENCLAW_TOKEN s)),
      (''ORCHESTRATOR_RECONNECT_INITIAL_BACKOFF'', CNum (ORCHESTRATOR_RECONNECT_INITIAL_BACKOFF s)),
      (''ORCHESTRATOR_RECONNECT_MAX_BACKOFF'', CNum (ORCHESTRATOR_RECONNECT_MAX_BACKOFF s)),
      (''ORCHESTRATOR_RECONNECT_MAX_DURATION'', CNum (ORCHESTRATOR_RECONNECT_MAX_DURATION s)),
      (''TRANSCRIBER_RECONNECT_INITIAL_BACKOFF'', CNum (TRANSCRIBER_RECONNECT_INITIAL_BACKOFF s)),
      (''TRANSCRIBER_RECONNECT_MAX_BACKOFF'', CNum (TRANSCRIBER_RECONNECT_MAX_BACKOFF s)),
      (''TRANSCRIBER_RECONNECT_MAX_DURATION'', CNum (TRANSCRIBER_RECONNECT_MAX_DURATION s)),
      (''TTS_RECONNECT_INITIAL_BACKOFF'', CNum (TTS_RECONNECT_INITIAL_BACKOFF s)),
      (''TTS_RECONNECT_MAX_BACKOFF'', CNum (TTS_RECONNECT_MAX_BACKOFF s)),
      (''TTS_AUTH_TIMEOUT_S'', CNum (TTS_AUTH_TIMEOUT_S s)),
      (''TRANSCRIBER_READY_TIMEOUT_S'', CNum (TRANSCRIBER_READY_TIMEOUT_S s)),
      (''HANDSHAKE_TIMEOUT_S'', CNum (HANDSHAKE_TIMEOUT_S s)), (''HANDSHAKE_MAX_BYTES'', CInt (HANDSHAKE_MAX_BYTES s)),
      (''TURN_TIMEOUT_S'', CNum (TURN_TIMEOUT_S s)), (''IDLE_TIMEOUT_S'', CNum (IDLE_TIMEOUT_S s)),
      (''SESSION_TEARDOWN_S'', CNum (SESSION_TEARDOWN_S s)),
      (''SHUTDOWN_DRAIN_S'', opt_value CNum (SHUTDOWN_DRAIN_S s)), (''LOG_FORMAT'', CStr (LOG_FORMAT s)),
      (''PUSH_TTS_DRAIN_TIMEOUT_S'', CNum (PUSH_TTS_DRAIN_TIMEOUT_S s)),
      (''AUDIO_PACING_ENABLED'', CBool (AUDIO_PACING_ENABLED s)), (''AUDIO_LEAD_S'', CNum (AUDIO_LEAD_S s)),
      (''CLIENT_SEND_TIMEOUT_S'', CNum (CLIENT_SEND_TIMEOUT_S s)), (''TURN_QUEUE_MAX'', CInt (TURN_QUEUE_MAX s))]"

definition FIELDS :: "string list" where
  "FIELDS = map fst (field_values (default_settings []))"

definition origins :: "env \<Rightarrow> string list \<Rightarrow> (string \<times> origin) list" where
  "origins environ from_file =
     map (\<lambda>n. (n, if n \<in> upper ` fst ` set environ then Environ
                  else if n \<in> set from_file then From_File else Default)) FIELDS"

definition load ::
  "(env \<Rightarrow> string option \<Rightarrow> built) \<Rightarrow> (string \<Rightarrow> (string \<times> string option) list) \<Rightarrow> env \<Rightarrow> file_text \<Rightarrow>
   settings option \<times> string list \<times> (string \<times> origin) list" where
  "load mk dotenv environ f =
     (if f = Unreadable then (None, [''No se puede leer''], [])
      else let text = (case f of Text t \<Rightarrow> Some t | _ \<Rightarrow> None);
               from_file = (case text of None \<Rightarrow> [] | Some t \<Rightarrow> map (upper \<circ> fst) (dotenv t)) in
        case mk environ text of
          ValidationFailed e es \<Rightarrow> (None, validation_errors (e # es), [])
        | SettingsFailed field \<Rightarrow> (None, settings_error field, [])
        | Built s \<Rightarrow> (Some s, [], origins environ from_file))"

section \<open>What is shown\<close>

definition endswith :: "string \<Rightarrow> string \<Rightarrow> bool" where
  "endswith s t = startswith (rev s) (rev t)"

definition is_secret :: "string \<Rightarrow> cfg_value \<Rightarrow> bool" where
  "is_secret name v \<longleftrightarrow> endswith name ''_TOKEN'' \<or> endswith name ''_KEY'' \<or> (case v of CSecret _ \<Rightarrow> True | _ \<Rightarrow> False)"

datatype shown_value = Mask_Set | Mask_Empty | Shown cfg_value | Shown_Json "(string \<times> string) list" | Shown_Url string string

definition cfg_truthy :: "cfg_value \<Rightarrow> bool" where
  "cfg_truthy v =
     (case v of CStr s \<Rightarrow> s \<noteq> [] | CSecret s \<Rightarrow> s \<noteq> [] | CNone \<Rightarrow> False | CBool b \<Rightarrow> b | CNum x \<Rightarrow> x \<noteq> 0
      | CInt i \<Rightarrow> i \<noteq> 0 | CMap m \<Rightarrow> m \<noteq> [])"

text \<open>
  \<open>urlsplit\<close>, as far as the password goes: blanks in front and line breaks and tabs anywhere are dropped, the scheme ends
  at the first colon when it is one, and the network part ends at the first slash, question mark or hash. The
  result is the text up to the network part, the network part and the rest; \<open>geturl\<close> puts them together again.
\<close>

definition url_cleaned :: "string \<Rightarrow> string" where
  "url_cleaned url = filter (\<lambda>c. c \<notin> {CHR 0x09, CHR 0x0A, CHR 0x0D}) (dropWhile (\<lambda>c. (of_char c :: nat) \<le> 32) url)"

definition scheme_ok :: "string \<Rightarrow> bool" where
  "scheme_ok s =
     (let alpha = (\<lambda>c. let n = (of_char c :: nat) in (65 \<le> n \<and> n \<le> 90) \<or> (97 \<le> n \<and> n \<le> 122)) in
      case s of [] \<Rightarrow> False
      | c # cs \<Rightarrow> alpha c \<and> list_all (\<lambda>d. alpha d \<or> py_digit d \<or> d \<in> {CHR ''+'', CHR ''-'', CHR ''.''}) cs)"

definition url_netloc :: "string \<Rightarrow> string \<times> string \<times> string" where
  "url_netloc url =
     (let u = url_cleaned url; s = takeWhile (\<lambda>c. c \<noteq> CHR '':'') u;
          scheme = (if CHR '':'' \<in> set u \<and> scheme_ok s then s @ '':'' else []);
          rest = drop (length scheme) u in
      if startswith rest ''//''
      then let n = takeWhile (\<lambda>c. c \<notin> {CHR ''/'', CHR ''?'', CHR ''#''}) (drop 2 rest) in
        (scheme @ ''//'', n, drop (length n) (drop 2 rest))
      else (scheme, [], rest))"

text \<open>
  The password of a network part: what lies between the first colon and the last at sign. \<open>replace\<close> puts the mask at
  its first occurrence, which is this one, because there is no colon before.
\<close>

definition split_userinfo :: "string \<Rightarrow> (string \<times> string \<times> string) option" where
  "split_userinfo netloc =
     (if CHR ''@'' \<notin> set netloc then None
      else let host = rev (takeWhile (\<lambda>c. c \<noteq> CHR ''@'') (rev netloc));
               info = take (length netloc - length host - 1) netloc in
        if CHR '':'' \<notin> set info then None
        else Some (takeWhile (\<lambda>c. c \<noteq> CHR '':'') info, tl (dropWhile (\<lambda>c. c \<noteq> CHR '':'') info), host))"

definition mask_url_password :: "string \<Rightarrow> shown_value" where
  "mask_url_password url =
     (let (before, netloc, rest) = url_netloc url in
      case split_userinfo netloc of
        None \<Rightarrow> Shown (CStr url)
      | Some (user, password, host) \<Rightarrow>
          if password = [] then Shown (CStr url) else Shown_Url (before @ user) (host @ rest))"

definition shown :: "string \<Rightarrow> cfg_value \<Rightarrow> shown_value" where
  "shown name v =
     (if is_secret name v then (if cfg_truthy v then Mask_Set else Mask_Empty)
      else case v of
        CMap m \<Rightarrow> Shown_Json m
      | CStr s \<Rightarrow> if str_contains ''://'' s \<and> str_contains ''@'' s then mask_url_password s else Shown v
      | _ \<Rightarrow> Shown v)"

section \<open>Checks\<close>

datatype check_level = Ok_Level | Warn_Level | Fail_Level | Info_Level

definition token_value :: "settings \<Rightarrow> string \<Rightarrow> string" where
  "token_value s name =
     (if name = ''ADMIN_TOKEN'' then ADMIN_TOKEN s
      else if name = ''OPENCLAW_TOKEN'' then OPENCLAW_TOKEN s else TTS_TOKEN s)"

definition validation_checks :: "settings \<Rightarrow> (check_level \<times> string) list" where
  "validation_checks s =
     map (\<lambda>name. (if name = ''ADMIN_TOKEN'' \<and> token_value s name = [] then Fail_Level else Warn_Level, name))
       (insecure_tokens s) @
     (case check_speech_settings s (STT_PROVIDER s) (TTS_PROVIDER s) of None \<Rightarrow> [] | Some f \<Rightarrow> [(Fail_Level, f)]) @
     map (\<lambda>name. (Warn_Level, name)) (deprecated_settings s)"

definition failing :: "settings \<Rightarrow> string list" where
  "failing s = map snd (filter (\<lambda>(l, _). l = Fail_Level) (validation_checks s))"

section \<open>Commands that read\<close>

datatype config_msg =
    Not_Valid "string list" | No_Such_Setting string "string option" | No_Config | Not_Storable string
  | Would_Be_Invalid "string list" | Would_Fail "string list" | Secret_As_Argument string | Missing_Value string
  | No_Terminal string | Has_Newline string | Saved_Not_Started

type_synonym config_error = "nat \<times> config_msg"

type_synonym loaded = "settings option \<times> string list \<times> (string \<times> origin) list"

definition load_or_fail :: "loaded \<Rightarrow> config_error + settings \<times> (string \<times> origin) list" where
  "load_or_fail l =
     (case l of (s, errors, orig) \<Rightarrow>
        if errors \<noteq> [] then Inl (1, Not_Valid errors)
        else case s of None \<Rightarrow> Inl (1, Not_Valid errors) | Some x \<Rightarrow> Inr (x, orig))"

definition shown_field :: "settings \<Rightarrow> string \<Rightarrow> shown_value" where
  "shown_field s n = (case map_of (field_values s) n of None \<Rightarrow> Shown CNone | Some v \<Rightarrow> shown n v)"

definition config_show :: "loaded \<Rightarrow> config_error + (string \<times> shown_value \<times> origin) list" where
  "config_show l =
     (case load_or_fail l of Inl e \<Rightarrow> Inl e
      | Inr (s, orig) \<Rightarrow> Inr (map (\<lambda>(n, o1). (n, shown_field s n, o1)) orig))"

text \<open>\<open>difflib.get_close_matches\<close>, which only words the hint, is the argument \<open>near\<close>.\<close>

definition config_get ::
  "(string \<Rightarrow> string list \<Rightarrow> string option) \<Rightarrow> loaded \<Rightarrow> string \<Rightarrow> config_error + string \<times> shown_value \<times> origin" where
  "config_get near l name =
     (case load_or_fail l of Inl e \<Rightarrow> Inl e
      | Inr (s, orig) \<Rightarrow>
          (let key = upper name in
           case map_of orig key of
             None \<Rightarrow> Inl (2, No_Such_Setting name (near key (map fst orig)))
           | Some o1 \<Rightarrow> Inr (key, shown_field s key, o1)))"

definition config_validate :: "loaded \<Rightarrow> config_error + (check_level \<times> string) list \<times> nat" where
  "config_validate l =
     (case load_or_fail l of Inl e \<Rightarrow> Inl e
      | Inr (s, _) \<Rightarrow>
          (let checks = validation_checks s in
           Inr (checks, if \<exists>c\<in>set checks. fst c = Fail_Level then 1 else 0)))"

section \<open>Editing the file\<close>

definition bare_char :: "char \<Rightarrow> bool" where
  "bare_char c \<longleftrightarrow>
     (let n = (of_char c :: nat) in (65 \<le> n \<and> n \<le> 90) \<or> (97 \<le> n \<and> n \<le> 122) \<or> (48 \<le> n \<and> n \<le> 57)) \<or>
     c \<in> {CHR ''_'', CHR ''.'', CHR ''/'', CHR '':'', CHR ''@'', CHR ''%'', CHR ''+'', CHR '','', CHR ''-''}"

definition SQUOTE :: char where "SQUOTE = CHR 0x27"

definition BSLASH :: char where "BSLASH = CHR 0x5C"

definition escape_char :: "char \<Rightarrow> string" where
  "escape_char c = (if c = BSLASH then [BSLASH, BSLASH] else if c = SQUOTE then [BSLASH, SQUOTE] else [c])"

definition quote_value :: "string \<Rightarrow> string" where
  "quote_value v =
     (if v \<noteq> [] \<and> list_all bare_char v then v
      else [SQUOTE] @ concat (map escape_char v) @ [SQUOTE])"

text \<open>
  \<open>_line_re\<close>, \<open>\s*(export\s+)?KEY\s*=\<close> without case: the blanks first, then with or without \<open>export\<close>.
\<close>

definition assigns :: "string \<Rightarrow> string \<Rightarrow> bool" where
  "assigns key s \<longleftrightarrow>
     startswith (lower s) (lower key) \<and>
     (let r = dropWhile py_isspace (drop (length key) s) in r \<noteq> [] \<and> hd r = CHR ''='')"

definition line_matches :: "string \<Rightarrow> string \<Rightarrow> bool" where
  "line_matches key line =
     (let s = lstrip line; r = drop 6 s in
      (startswith (lower s) ''export'' \<and> r \<noteq> [] \<and> py_isspace (hd r) \<and> assigns key (lstrip r)) \<or> assigns key s)"

fun edit_lines :: "(string \<Rightarrow> bool) \<Rightarrow> string \<Rightarrow> bool \<Rightarrow> string list \<Rightarrow> string list \<times> bool" where
  "edit_lines pat new done [] = ([], done)"
| "edit_lines pat new done (l # ls) =
     (if \<not> pat l then (case edit_lines pat new done ls of (out, d) \<Rightarrow> (l # out, d))
      else if \<not> done then (case edit_lines pat new True ls of (out, d) \<Rightarrow> (new # out, d))
      else edit_lines pat new done ls)"

definition end_last_line :: "string list \<Rightarrow> string list" where
  "end_last_line out =
     (if out = [] \<or> (last out \<noteq> [] \<and> last (last out) = LF) then out else butlast out @ [last out @ [LF]])"

definition edit_config :: "string \<Rightarrow> string \<Rightarrow> string option \<Rightarrow> string" where
  "edit_config text key val =
     (let new = key @ ''='' @ quote_value (case val of None \<Rightarrow> [] | Some v \<Rightarrow> v) @ [LF];
          (out, done) = edit_lines (line_matches key) new (val = None) (splitlines_keep text) in
      concat (if done then out else end_last_line out @ [new]))"

text \<open>\<open>_fails\<close>: the failing checks and the errors of a text, without the variable in the environment.\<close>

definition fails ::
  "(env \<Rightarrow> string option \<Rightarrow> built) \<Rightarrow> (string \<Rightarrow> (string \<times> string option) list) \<Rightarrow> env \<Rightarrow> string \<Rightarrow> string \<Rightarrow>
   string list \<times> string list" where
  "fails mk dotenv environ key text =
     (case load mk dotenv (filter (\<lambda>(n, _). upper n \<noteq> key) environ) (Text text) of
        (s, errors, _) \<Rightarrow>
          if errors \<noteq> [] then ([], errors)
          else case s of None \<Rightarrow> ([], errors) | Some x \<Rightarrow> (failing x, []))"

text \<open>
  \<open>_apply\<close> on the file and its temporary: \<open>io_write\<close> and \<open>io_replace\<close> are how the file operations end. The temporary is
  removed whatever happens.
\<close>

record config_fs =
  cf_config :: file_text
  cf_tmp :: "string option"

datatype apply_result = Unchanged | Written | Refused config_error | Crashed exn

definition apply_edit ::
  "(env \<Rightarrow> string option \<Rightarrow> built) \<Rightarrow> (string \<Rightarrow> (string \<times> string option) list) \<Rightarrow> env \<Rightarrow> exn option \<Rightarrow> exn option \<Rightarrow>
   string \<Rightarrow> string option \<Rightarrow> config_fs \<Rightarrow> apply_result \<times> config_fs" where
  "apply_edit mk dotenv environ io_write io_replace key val fs =
     (case cf_config fs of
        Missing \<Rightarrow> (Refused (1, No_Config), fs)
      | Unreadable \<Rightarrow> (Crashed (OtherError ''PermissionError''), fs)
      | Text raw \<Rightarrow>
          (let old = universal_newlines raw; new = edit_config old key val in
           if new = old then (Unchanged, fs)
           else if cf_tmp fs \<noteq> None then (Crashed (OtherError ''FileExistsError''), fs)
           else case io_write of
             Some e \<Rightarrow> (Crashed e, fs\<lparr>cf_tmp := None\<rparr>)
           | None \<Rightarrow>
               if val \<noteq> None \<and> map_of (rev (dotenv new)) key \<noteq> Some val
               then (Refused (1, Not_Storable key), fs\<lparr>cf_tmp := None\<rparr>)
               else
                 (let (before, _) = fails mk dotenv environ key raw;
                      (after, errors) = fails mk dotenv environ key new;
                      worse = filter (\<lambda>c. c \<notin> set before) after in
                  if errors \<noteq> [] then (Refused (1, Would_Be_Invalid errors), fs\<lparr>cf_tmp := None\<rparr>)
                  else if worse \<noteq> [] then (Refused (1, Would_Fail worse), fs\<lparr>cf_tmp := None\<rparr>)
                  else case io_replace of
                    Some e \<Rightarrow> (Crashed e, fs\<lparr>cf_tmp := None\<rparr>)
                  | None \<Rightarrow> (Written, fs\<lparr>cf_config := Text new, cf_tmp := None\<rparr>))))"

section \<open>Commands that write\<close>

definition resolve_name :: "(string \<Rightarrow> string list \<Rightarrow> string option) \<Rightarrow> string \<Rightarrow> config_error + string" where
  "resolve_name near name =
     (let key = upper name in
      if key \<in> set FIELDS then Inr key else Inl (2, No_Such_Setting name (near key FIELDS)))"

text \<open>What stdin has: a terminal with what is typed at the hidden prompt, or a text.\<close>

datatype stdin = Tty string | Piped string

definition rstrip_newlines :: "string \<Rightarrow> string" where
  "rstrip_newlines s = rev (dropWhile (\<lambda>c. c = LF \<or> c = CR) (rev s))"

definition set_value :: "(string \<Rightarrow> string list \<Rightarrow> string option) \<Rightarrow> stdin \<Rightarrow> string \<Rightarrow> string option \<Rightarrow> config_error + string \<times> string" where
  "set_value near input name val =
     (case resolve_name near name of
        Inl e \<Rightarrow> Inl e
      | Inr key \<Rightarrow>
          (let field = (case map_of (field_values (default_settings [])) key of None \<Rightarrow> CNone | Some v \<Rightarrow> v);
               secret = is_secret key field;
               chosen =
                 (if secret \<and> val \<noteq> None \<and> val \<noteq> Some ''-'' then Inl (2, Secret_As_Argument key)
                  else case val of
                    None \<Rightarrow>
                      if \<not> secret then Inl (2, Missing_Value key)
                      else (case input of Tty typed \<Rightarrow> Inr typed | Piped _ \<Rightarrow> Inl (2, No_Terminal key))
                  | Some v \<Rightarrow>
                      if v = ''-'' then Inr (case input of Tty typed \<Rightarrow> typed | Piped text \<Rightarrow> rstrip_newlines text)
                      else Inr v) in
           case chosen of
             Inl e \<Rightarrow> Inl e
           | Inr v \<Rightarrow> if LF \<in> set v \<or> CR \<in> set v then Inl (2, Has_Newline key) else Inr (key, v)))"

text \<open>\<open>_offer_restart\<close> and \<open>_restart\<close>: the unit is there and active, the consent, and how the restart ends.\<close>

record service_state_view =
  sv_systemd :: bool
  sv_unit :: bool
  sv_active :: bool

definition offer_restart ::
  "service_state_view \<Rightarrow> bool \<Rightarrow> bool \<Rightarrow> bool \<Rightarrow> bool \<Rightarrow> api_error option \<Rightarrow> config_error + bool" where
  "offer_restart sv yes as_json tty answer restart =
     (if \<not> sv_systemd sv then Inr False
      else if \<not> (sv_unit sv \<and> sv_active sv) then Inr False
      else if yes \<or> (\<not> as_json \<and> tty \<and> answer)
      then (case restart of None \<Rightarrow> Inr True | Some e \<Rightarrow> Inl (1, Saved_Not_Started)) else Inr False)"

text \<open>\<open>_report\<close>: name, the saved value as shown, whether it changed and whether the service was restarted.\<close>

definition report ::
  "string \<Rightarrow> string option \<Rightarrow> bool \<Rightarrow> config_error + bool \<Rightarrow> config_error + string \<times> shown_value option \<times> bool \<times> bool" where
  "report key val changed offer =
     (let saved = map_option (\<lambda>v. shown key (CStr v)) val in
      if \<not> changed then Inr (key, saved, False, False)
      else case offer of Inl e \<Rightarrow> Inl e | Inr restarted \<Rightarrow> Inr (key, saved, True, restarted))"

datatype config_outcome = Reported string "shown_value option" bool bool | Failed config_error | Raised_Out exn

definition finish_config :: "string \<Rightarrow> string option \<Rightarrow> config_error + bool \<Rightarrow> apply_result \<Rightarrow> config_outcome" where
  "finish_config key val offer res =
     (case res of
        Refused e \<Rightarrow> Failed e
      | Crashed e \<Rightarrow> Raised_Out e
      | _ \<Rightarrow>
          (case report key val (res = Written) offer of
             Inl e \<Rightarrow> Failed e | Inr (k, saved, ch, rs) \<Rightarrow> Reported k saved ch rs))"

definition config_set ::
  "(string \<Rightarrow> string list \<Rightarrow> string option) \<Rightarrow> (env \<Rightarrow> string option \<Rightarrow> built) \<Rightarrow> (string \<Rightarrow> (string \<times> string option) list) \<Rightarrow>
   env \<Rightarrow> exn option \<Rightarrow> exn option \<Rightarrow> config_error + bool \<Rightarrow> stdin \<Rightarrow> string \<Rightarrow> string option \<Rightarrow> config_fs \<Rightarrow>
   config_outcome \<times> config_fs" where
  "config_set near mk dotenv environ io_write io_replace offer input name val fs =
     (case set_value near input name val of
        Inl e \<Rightarrow> (Failed e, fs)
      | Inr (key, v) \<Rightarrow>
          (case apply_edit mk dotenv environ io_write io_replace key (Some v) fs of
             (res, fs1) \<Rightarrow> (finish_config key (Some v) offer res, fs1)))"

definition config_unset ::
  "(string \<Rightarrow> string list \<Rightarrow> string option) \<Rightarrow> (env \<Rightarrow> string option \<Rightarrow> built) \<Rightarrow> (string \<Rightarrow> (string \<times> string option) list) \<Rightarrow>
   env \<Rightarrow> exn option \<Rightarrow> exn option \<Rightarrow> config_error + bool \<Rightarrow> string \<Rightarrow> config_fs \<Rightarrow> config_outcome \<times> config_fs" where
  "config_unset near mk dotenv environ io_write io_replace offer name fs =
     (case resolve_name near name of
        Inl e \<Rightarrow> (Failed e, fs)
      | Inr key \<Rightarrow>
          (case apply_edit mk dotenv environ io_write io_replace key None fs of
             (res, fs1) \<Rightarrow> (finish_config key None offer res, fs1)))"

end
