(* ===== verification/Startup.thy ===== *)
theory Startup
  imports Settings
begin

text \<open>
  The life of the process: the guard of the database (\<open>db/database.py\<close>), the lock of the single process
  (\<open>core/startup_checks.py\<close>), the lifespan of \<open>main.py\<close>, the readiness of \<open>api/health_routes.py\<close> and the way a
  slow client is dropped (\<open>core/transport.py\<close>). Alembic, the file system and the sockets answer through
  arguments; \<open>flock\<close> is a table of the files that are locked.
\<close>

section \<open>The database file\<close>

datatype start_error =
    DatabaseMissing string
  | LockHeld string
  | LockUnsupported string string
  | SpeechConfigError string
  | Raised exn

text \<open>
  \<open>dw_file\<close> is the file of an SQLite database, if the URL names one, with whether it exists; \<open>dw_engine\<close> is
  \<open>_engine is not None\<close>, \<open>dw_create\<close> the flag \<open>CREATE_DB\<close>.
\<close>

record db_world =
  dw_file :: "string option"
  dw_exists :: bool
  dw_dir :: bool
  dw_engine :: bool
  dw_create :: bool

definition require_db :: "db_world \<Rightarrow> start_error option" where
  "require_db w =
     (case dw_file w of
        Some f \<Rightarrow> if \<not> dw_exists w \<and> \<not> dw_create w then Some (DatabaseMissing f) else None
      | None \<Rightarrow> None)"

definition require_database :: "db_world \<Rightarrow> start_error option" where
  "require_database w = (if dw_engine w then None else require_db w)"

definition ensure_sqlite_dir :: "db_world \<Rightarrow> db_world" where
  "ensure_sqlite_dir w = (case dw_file w of None \<Rightarrow> w | Some _ \<Rightarrow> w\<lparr>dw_dir := True\<rparr>)"

definition get_engine :: "db_world \<Rightarrow> start_error option \<times> db_world" where
  "get_engine w =
     (if dw_engine w then (None, w)
      else case require_db w of
        Some e \<Rightarrow> (Some e, w)
      | None \<Rightarrow> (None, (ensure_sqlite_dir w)\<lparr>dw_engine := True\<rparr>))"

definition dispose_engine :: "db_world \<Rightarrow> db_world" where
  "dispose_engine w = w\<lparr>dw_engine := False\<rparr>"

text \<open>\<open>run_migrations\<close>: Alembic opens the engine; connecting creates the file. \<open>upgrade\<close> is how it ends.\<close>

definition run_migrations :: "exn option \<Rightarrow> db_world \<Rightarrow> start_error option \<times> db_world" where
  "run_migrations upgrade w =
     (case require_db w of
        Some e \<Rightarrow> (Some e, w)
      | None \<Rightarrow>
          (case get_engine w of
             (Some e, w1) \<Rightarrow> (Some e, w1)
           | (None, w1) \<Rightarrow> (map_option Raised upgrade, w1\<lparr>dw_exists := (dw_exists w1 \<or> dw_file w1 \<noteq> None)\<rparr>)))"

section \<open>The lock of the process\<close>

text \<open>The lock files that are held, each with the handle that holds it. \<open>make_url\<close> gives backend and database.\<close>

type_synonym locks = "(string \<times> nat) list"

definition lock_path :: "(string \<Rightarrow> string \<times> string option) \<Rightarrow> (string \<Rightarrow> string) \<Rightarrow> string \<Rightarrow> string option" where
  "lock_path make_url parent url =
     (case make_url url of
        (backend, Some db) \<Rightarrow>
          if backend \<noteq> ''sqlite'' \<or> db = [] \<or> db = '':memory:'' then None
          else Some (parent db @ ''/gateway.lock'')
      | (_, None) \<Rightarrow> None)"

text \<open>
  \<open>acquire_single_process_lock\<close>: \<open>h\<close> is the new handle, \<open>err\<close> an errno other than \<open>EWOULDBLOCK\<close> that \<open>flock\<close>
  raises. The handle is closed before an error leaves.
\<close>

definition acquire_lock ::
  "bool \<Rightarrow> string option \<Rightarrow> nat \<Rightarrow> string option \<Rightarrow> locks \<Rightarrow> (start_error + nat option) \<times> locks" where
  "acquire_lock has_fcntl err h path ls =
     (case path of
        None \<Rightarrow> (Inr None, ls)
      | Some p \<Rightarrow>
          if \<not> has_fcntl then (Inr None, ls)
          else case err of
            Some code \<Rightarrow> (Inl (LockUnsupported p code), ls)
          | None \<Rightarrow>
              if map_of ls p \<noteq> None then (Inl (LockHeld p), ls)
              else (Inr (Some h), (p, h) # ls))"

text \<open>Closing the handle gives the lock back even when \<open>LOCK_UN\<close> fails.\<close>

definition release_lock :: "nat option \<Rightarrow> locks \<Rightarrow> locks" where
  "release_lock handle ls =
     (case handle of None \<Rightarrow> ls | Some h \<Rightarrow> filter (\<lambda>(_, h'). h' \<noteq> h) ls)"

section \<open>The lifespan\<close>

datatype life_step =
    RequireDatabase | AcquireLock | RunMigrations | CheckSpeech | ConnectOrchestrator | HookOrchestrator
  | BuildStt | BuildTts | StartStt | StartTts | HookStt | HookTts | Serve | Unhook
  | CloseStt | CloseTts | CloseOpenClaw | CancelNotifications | DisposeEngine | ReleaseLock

text \<open>
  \<open>out s\<close> is the exception step \<open>s\<close> raises. The start of a speech provider may fail with any \<open>Exception\<close>:
  it is logged. A run gives what leaves it and the steps it made.
\<close>

definition leaves :: "(life_step \<Rightarrow> exn option) \<Rightarrow> life_step \<Rightarrow> exn option" where
  "leaves out s =
     (case out s of
        Some e \<Rightarrow> if (s = StartStt \<or> s = StartTts) \<and> is_Exception e then None else Some e
      | None \<Rightarrow> None)"

fun run_steps :: "(life_step \<Rightarrow> exn option) \<Rightarrow> life_step list \<Rightarrow> exn option \<times> life_step list" where
  "run_steps out [] = (None, [])"
| "run_steps out (s # ss) =
     (case leaves out s of
        Some e \<Rightarrow> (Some e, [s])
      | None \<Rightarrow> let (e, lg) = run_steps out ss in (e, s # lg))"

definition boot_steps :: "life_step list" where
  "boot_steps =
     [RunMigrations, CheckSpeech, ConnectOrchestrator, HookOrchestrator, BuildStt, BuildTts,
      StartStt, StartTts, HookStt, HookTts]"

definition shutdown_steps :: "life_step list" where
  "shutdown_steps = [Unhook, CloseStt, CloseTts, CloseOpenClaw, CancelNotifications, DisposeEngine]"

text \<open>
  \<open>_lifespan_body\<close>: the closing runs whatever ended the service, and its steps, each a \<open>Teardown\<close> step, all run; a
  cancellation received meanwhile is raised at the end unless the service already raised.
\<close>

definition lifespan_body :: "(life_step \<Rightarrow> exn option) \<Rightarrow> bool \<Rightarrow> exn option \<times> life_step list" where
  "lifespan_body out cancelled =
     (case run_steps out boot_steps of
        (Some e, lg) \<Rightarrow> (Some e, lg)
      | (None, lg) \<Rightarrow>
          (case out Serve of
             Some e \<Rightarrow> (Some (if cancelled then CancelledError else e), lg @ [Serve] @ shutdown_steps)
           | None \<Rightarrow> (if cancelled then Some CancelledError else None, lg @ [Serve] @ shutdown_steps)))"

definition lifespan ::
  "(life_step \<Rightarrow> exn option) \<Rightarrow> bool \<Rightarrow> bool \<Rightarrow> bool \<Rightarrow> string option \<Rightarrow> nat \<Rightarrow> string option \<Rightarrow> db_world \<Rightarrow> locks \<Rightarrow>
   start_error option \<times> life_step list \<times> locks" where
  "lifespan out cancelled guard has_fcntl err h path w ls =
     (case require_database w of
        Some e \<Rightarrow> (Some e, [RequireDatabase], ls)
      | None \<Rightarrow>
          (case (if guard then acquire_lock has_fcntl err h path ls else (Inr None, ls)) of
             (Inl e, ls1) \<Rightarrow> (Some e, [RequireDatabase, AcquireLock], ls1)
           | (Inr handle, ls1) \<Rightarrow>
               (case lifespan_body out cancelled of
                  (e, lg) \<Rightarrow>
                    (map_option Raised e,
                     [RequireDatabase] @ (if guard then [AcquireLock] else []) @ lg @ [ReleaseLock],
                     release_lock handle ls1))))"

section \<open>Readiness\<close>

datatype probe_result = Probe bool | ProbeRaises exn

text \<open>\<open>_ping_orchestrator\<close> catches every \<open>Exception\<close>; \<open>gather\<close> returns what the others raise.\<close>

definition resolve_ready :: "probe_result \<Rightarrow> string" where
  "resolve_ready r = (case r of Probe b \<Rightarrow> if b then ''ok'' else ''unavailable'' | ProbeRaises _ \<Rightarrow> ''unavailable'')"

definition ready :: "probe_result \<Rightarrow> probe_result \<Rightarrow> probe_result \<Rightarrow> nat \<times> json" where
  "ready orch stt tts =
     (let services = [(''orchestrator'', JStr (resolve_ready orch)), (''transcriber'', JStr (resolve_ready stt)),
                      (''tts'', JStr (resolve_ready tts))] in
      if dget services ''orchestrator'' = JStr ''unavailable''
      then (503, JObj [(''status'', JStr ''unavailable''), (''services'', JObj services)])
      else if \<exists>v\<in>set services. snd v = JStr ''unavailable''
      then (200, JObj [(''status'', JStr ''degraded''), (''services'', JObj services)])
      else (200, JObj [(''status'', JStr ''ok''), (''services'', JObj services)]))"

definition healthz :: json where
  "healthz = JObj [(''status'', JStr ''ok'')]"

section \<open>Dropping a slow client\<close>

definition SLOW_CLOSE_GRACE_S :: time where "SLOW_CLOSE_GRACE_S = 2"

text \<open>The transport a WebSocket's scope holds: none, or one whose \<open>abort\<close> works or raises.\<close>

datatype transport = NoTransport | Transport "exn option"

definition abort_client_transport :: "transport \<Rightarrow> bool" where
  "abort_client_transport t = (case t of Transport None \<Rightarrow> True | _ \<Rightarrow> False)"

datatype drop_call = DRecord | DClose | DAbort bool

text \<open>
  \<open>drop_slow_client\<close>: how the optional \<open>record\<close> and the bounded courtesy close end (\<open>None\<close>: returned); what leaves
  and the calls made. A \<open>CancelledError\<close> leaves, after the abort of the \<open>finally\<close>.
\<close>

definition drop_slow_client ::
  "exn option option \<Rightarrow> exn option \<Rightarrow> transport \<Rightarrow> exn option \<times> drop_call list" where
  "drop_slow_client rec close t =
     (let abort = DAbort (abort_client_transport t);
          recorded = (case rec of None \<Rightarrow> [] | Some _ \<Rightarrow> [DRecord]) in
      case rec of
        Some (Some CancelledError) \<Rightarrow> (Some CancelledError, recorded @ [abort])
      | _ \<Rightarrow> (if close = Some CancelledError then Some CancelledError else None, recorded @ [DClose, abort]))"

text \<open>\<open>TransportCaptureMiddleware\<close> and \<open>RequestIdMiddleware\<close>: what they add to the state of a scope.\<close>

definition capture_state :: "string \<Rightarrow> 't option \<Rightarrow> (string \<times> 't option) list \<Rightarrow> (string \<times> 't option) list" where
  "capture_state scope_type protocol_transport st =
     (if scope_type = ''websocket'' then dput ''transport'' protocol_transport st else st)"

definition request_id_state :: "string \<Rightarrow> string \<Rightarrow> (string \<times> string) list \<Rightarrow> (string \<times> string) list" where
  "request_id_state scope_type uuid st =
     (if scope_type = ''http'' \<or> scope_type = ''websocket'' then dput ''request_id'' uuid st else st)"

section \<open>What the guards give\<close>

lemma run_steps_log:
  "run_steps out ss = (e, lg) \<Longrightarrow>
   (e = None \<longrightarrow> lg = ss) \<and> (\<exists>k. lg = take k ss) \<and> (e \<noteq> None \<longrightarrow> lg \<noteq> [] \<and> leaves out (last lg) = e)"
proof (induction ss arbitrary: e lg)
  case Nil
  then show ?case by simp
next
  case (Cons s ss)
  show ?case
  proof (cases "leaves out s")
    case (Some x)
    then show ?thesis using Cons.prems by (auto intro: exI[of _ 1])
  next
    case None
    obtain e1 log1 where r: "run_steps out ss = (e1, log1)" by (cases "run_steps out ss")
    note IH = Cons.IH[OF r]
    then obtain k where k: "log1 = take k ss" by blast
    have l: "lg = s # log1" "e = e1" using Cons.prems None r by auto
    have "lg = take (Suc k) (s # ss)" using l k by simp
    moreover have "e \<noteq> None \<longrightarrow> lg \<noteq> [] \<and> leaves out (last lg) = e" using IH l by auto
    moreover have "e = None \<longrightarrow> lg = s # ss" using IH l by auto
    ultimately show ?thesis by blast
  qed
qed

lemma run_steps_subset: "run_steps out ss = (e, lg) \<Longrightarrow> set lg \<subseteq> set ss"
  using run_steps_log[of out ss e lg] set_take_subset by fastforce

lemma body_log:
  assumes "lifespan_body out cancelled = (e, lg)"
  shows "(Serve \<in> set lg \<and> lg = boot_steps @ [Serve] @ shutdown_steps) \<or>
         (Serve \<notin> set lg \<and> e \<noteq> None \<and> (\<exists>k. lg = take k boot_steps))"
proof -
  obtain e1 log1 where r: "run_steps out boot_steps = (e1, log1)" by (cases "run_steps out boot_steps")
  have s: "Serve \<notin> set boot_steps" by (simp add: boot_steps_def)
  show ?thesis
    using assms r s run_steps_log[OF r] run_steps_subset[OF r]
    by (cases e1) (auto simp: lifespan_body_def split: option.splits)
qed



text \<open>
  Two processes never serve one database: while one holds the lock of a database another start on the same lock file
  is refused whatever it is made of, and after the first gave it back the lock can be taken again.
\<close>

theorem single_process:
  assumes a: "acquire_lock True None h (Some p) ls = (Inr (Some h), ls1)"
    and fresh: "h \<notin> snd ` set ls"
    and r: "require_database w = None"
  shows "fst (lifespan out cancelled True True err h' (Some p) w ls1) \<noteq> None \<and>
         Serve \<notin> set (fst (snd (lifespan out cancelled True True err h' (Some p) w ls1))) \<and>
         fst (acquire_lock True None h' (Some p) (release_lock (Some h) ls1)) = Inr (Some h')"
proof -
  have l: "ls1 = (p, h) # ls" "map_of ls p = None" using a by (auto simp: acquire_lock_def split: if_splits)
  have "filter (\<lambda>(_, h'). h' \<noteq> h) ls = ls" using fresh by (intro filter_True) force
  then have "release_lock (Some h) ls1 = ls" using l by (simp add: release_lock_def)
  then show ?thesis
    using l r by (simp add: lifespan_def acquire_lock_def split: option.splits)
qed

theorem single_process_witness:
  "Serve \<notin> set (fst (snd (lifespan (\<lambda>_. None) False True True None 2 (Some ''/d/gateway.lock'')
     \<lparr>dw_file = Some ''/d/gateway.db'', dw_exists = True, dw_dir = True, dw_engine = False, dw_create = False\<rparr>
     [(''/d/gateway.lock'', 1)])))"
  using single_process[of 1 "''/d/gateway.lock''" "[]" "[(''/d/gateway.lock'', 1)]"
      "\<lparr>dw_file = Some ''/d/gateway.db'', dw_exists = True, dw_dir = True, dw_engine = False, dw_create = False\<rparr>"
      "\<lambda>_. None" False None 2]
  by (simp add: acquire_lock_def require_database_def require_db_def)

text \<open>The operations of the database module, in any order, on a missing file.\<close>

datatype db_op = GetEngine | Migrate "exn option" | Dispose

fun db_step :: "db_world \<Rightarrow> db_op \<Rightarrow> db_world" where
  "db_step w GetEngine = snd (get_engine w)"
| "db_step w (Migrate up) = snd (run_migrations up w)"
| "db_step w Dispose = dispose_engine w"

definition no_db :: "db_world \<Rightarrow> bool" where
  "no_db w \<longleftrightarrow> dw_file w \<noteq> None \<and> \<not> dw_exists w \<and> \<not> dw_create w \<and> \<not> dw_engine w"

lemma no_db_step: "no_db w \<Longrightarrow> db_step w a = w"
  by (cases a) (auto simp: no_db_def get_engine_def run_migrations_def require_db_def dispose_engine_def)

lemma no_db_run: "no_db w \<Longrightarrow> foldl db_step w ops = w"
  by (induction ops) (simp_all add: no_db_step)

lemma no_db_errors:
  "no_db w \<Longrightarrow> require_database w \<noteq> None \<and> fst (get_engine w) \<noteq> None \<and> fst (run_migrations up w) \<noteq> None"
  by (auto simp: no_db_def require_database_def get_engine_def run_migrations_def require_db_def)

text \<open>
  The gateway never makes a database by itself: without the flag of \<open>init\<close> and \<open>serve --create-db\<close>, whatever of
  the operations of the database module run in whatever order, a missing file stays missing and no directory
  is made, and each operation that needs it says so instead.
\<close>

theorem never_creates_database:
  assumes "no_db w"
  shows "foldl db_step w ops = w \<and> require_database (foldl db_step w ops) \<noteq> None \<and>
         fst (get_engine (foldl db_step w ops)) \<noteq> None \<and> fst (run_migrations up (foldl db_step w ops)) \<noteq> None"
  using no_db_run[OF assms] no_db_errors[OF assms] by simp

theorem never_creates_database_witness:
  "dw_exists (foldl db_step \<lparr>dw_file = Some ''/d/gateway.db'', dw_exists = False, dw_dir = False, dw_engine = False, dw_create = False\<rparr>
     [Migrate None, GetEngine, Dispose, Migrate (Some RuntimeError)]) = False"
  using never_creates_database[of "\<lparr>dw_file = Some ''/d/gateway.db'', dw_exists = False, dw_dir = False, dw_engine = False, dw_create = False\<rparr>"
      "[Migrate None, GetEngine, Dispose, Migrate (Some RuntimeError)]" None]
  by (simp add: no_db_def)

text \<open>
  A slow client is always cut: whatever the record of the event and the courtesy close do, raise or are cancelled in,
  the abort of its transport is the last call and is made once, no \<open>Exception\<close> leaves, and the close is not tried
  before the record ended.
\<close>

theorem slow_client_always_aborted:
  "let (e, calls) = drop_slow_client rec close t in
     last calls = DAbort (abort_client_transport t) \<and>
     count_list (map (\<lambda>c. case c of DAbort _ \<Rightarrow> True | _ \<Rightarrow> False) calls) True = 1 \<and>
     (e = None \<or> e = Some CancelledError) \<and>
     (e = None \<longleftrightarrow> rec \<noteq> Some (Some CancelledError) \<and> close \<noteq> Some CancelledError)"
  by (auto simp: drop_slow_client_def Let_def split: option.splits exn.splits)

text \<open>The readiness route answers 503 exactly when the orchestrator does not answer, whatever the others do.\<close>

lemma ready_iff:
  "fst (ready orch stt tts) = 503 \<longleftrightarrow> orch \<noteq> Probe True"
  "snd (ready orch stt tts) = JObj [(''status'', JStr ''ok''), (''services'', JObj [(''orchestrator'', JStr ''ok''),
      (''transcriber'', JStr ''ok''), (''tts'', JStr ''ok'')])] \<longleftrightarrow>
   orch = Probe True \<and> stt = Probe True \<and> tts = Probe True"
  by (cases orch; cases stt; cases tts; simp add: ready_def resolve_ready_def dget_def Let_def split: bool.splits)+

end
