(* ===== verification/Cli_Service.thy ===== *)
theory Cli_Service
  imports Cli_Config Startup
begin

text \<open>
  \<open>cli/service.py\<close>, \<open>cli/logs.py\<close>, \<open>cli/status.py\<close>, \<open>cli/version.py\<close>, \<open>cli/init.py\<close> and \<open>cli/serve.py\<close>: the user service of
  systemd, its journal, and the commands around the process. What systemd, the sockets and the terminal answer
  are arguments.
\<close>

section \<open>The unit\<close>

definition UNIT_NAME :: string where "UNIT_NAME = ''jota-gateway.service''"

definition unit_path :: "string option \<Rightarrow> string \<Rightarrow> string" where
  "unit_path xdg user_home =
     (case xdg of Some d \<Rightarrow> if d = [] then user_home @ ''/.config'' else d | None \<Rightarrow> user_home @ ''/.config'') @
     ''/systemd/user/'' @ UNIT_NAME"

definition render_unit :: "string \<Rightarrow> string \<Rightarrow> string" where
  "render_unit exe home =
     concat (map (\<lambda>l. l @ [LF])
       [''[Unit]'', ''Description=Jota gateway'', ''StartLimitIntervalSec=60'', ''StartLimitBurst=5'', [],
        ''[Service]'', ''Type=exec'', ''ExecStart='' @ exe @ '' serve'', ''Environment=JOTA_GATEWAY_HOME='' @ home,
        ''Restart=on-failure'', ''RestartSec=5'', ''RestartPreventExitStatus=3'', ''TimeoutStopSec=45'', ''UMask=0077'', [],
        ''[Install]'', ''WantedBy=default.target''])"

datatype service_msg =
    No_Exe | In_Checkout | No_Systemd | Systemctl_Failed | Not_Healthy | No_Database | Port_Busy | No_Service | Bad_Config
  | Needs_Yes | Journal_Failed nat

datatype service_error = Service_Error nat service_msg | User_Aborted

text \<open>\<open>_in_checkout\<close>: a \<open>pyproject.toml\<close> in one of the two directories above, or an editable install beside.\<close>

definition editable_install :: "json \<Rightarrow> bool" where
  "editable_install j =
     (case j of JObj d \<Rightarrow> (case dget_or d ''dir_info'' (JObj []) of JObj i \<Rightarrow> dget i ''editable'' = JBool True | _ \<Rightarrow> False) | _ \<Rightarrow> False)"

definition in_checkout :: "bool list \<Rightarrow> json list \<Rightarrow> bool" where
  "in_checkout pyprojects direct_urls \<longleftrightarrow> list_ex id pyprojects \<or> list_ex editable_install direct_urls"

definition pick_exe :: "(string \<Rightarrow> bool) \<Rightarrow> string option \<Rightarrow> string option \<Rightarrow> service_error + string" where
  "pick_exe checkout explicit which =
     (case explicit of
        Some e \<Rightarrow> Inr e
      | None \<Rightarrow>
          (case which of
             None \<Rightarrow> Inl (Service_Error 1 No_Exe)
           | Some e \<Rightarrow> if checkout e then Inl (Service_Error 1 In_Checkout) else Inr e))"

definition port_free :: "bool \<Rightarrow> bool \<Rightarrow> bool" where
  "port_free bound connects \<longleftrightarrow> bound \<and> \<not> connects"

definition linger_enabled :: "string option \<Rightarrow> bool" where
  "linger_enabled out = (case out of None \<Rightarrow> False | Some s \<Rightarrow> strip s = ''Linger=yes'')"

section \<open>Waiting for health\<close>

definition HEALTH_TIMEOUT_S :: time where "HEALTH_TIMEOUT_S = 20"

text \<open>
  \<open>wait_healthy\<close>: at each round whether \<open>/healthz\<close> answers and, if not, the clock; then half a second of sleep. \<open>None\<close>: the
  rounds given are not enough for the loop to end.
\<close>

fun health_rounds :: "time \<Rightarrow> (bool \<times> time) list \<Rightarrow> bool option" where
  "health_rounds deadline [] = None"
| "health_rounds deadline ((ok, now) # rounds) =
     (if ok then Some True else if deadline \<le> now then Some False else health_rounds deadline rounds)"

definition wait_healthy :: "time \<Rightarrow> (bool \<times> time) list \<Rightarrow> service_error option option" where
  "wait_healthy t0 rounds =
     map_option (\<lambda>ok. if ok then None else Some (Service_Error 1 Not_Healthy)) (health_rounds (t0 + HEALTH_TIMEOUT_S) rounds)"

section \<open>Commands of the service\<close>

datatype systemctl = Daemon_Reload | Enable_Now | Restart_Unit | Disable_Now | Start_Unit | Stop_Unit

text \<open>
  The machine: the unit file, whether the service runs, whether systemd is there, and which of its calls fail. \<open>health\<close> is
  how the wait for health ends.
\<close>

record machine =
  ma_unit :: "string option"
  ma_active :: bool
  ma_systemd :: bool
  ma_docker :: bool
  ma_fails :: "systemctl list"
  ma_health :: "service_error option"
  ma_yes :: bool
  ma_tty :: bool
  ma_answer :: bool

definition require_systemd :: "machine \<Rightarrow> service_error option" where
  "require_systemd m = (if ma_systemd m then None else Some (Service_Error 1 No_Systemd))"

definition consent :: "machine \<Rightarrow> service_error option" where
  "consent m =
     (if ma_yes m then None
      else if \<not> ma_tty m then Some (Service_Error 2 Needs_Yes)
      else if ma_answer m then None else Some User_Aborted)"

fun systemctl_calls :: "machine \<Rightarrow> systemctl list \<Rightarrow> service_error option \<times> systemctl list" where
  "systemctl_calls m [] = (None, [])"
| "systemctl_calls m (c # cs) =
     (if c \<in> set (ma_fails m) then (Some (Service_Error 1 Systemctl_Failed), [c])
      else (case systemctl_calls m cs of (e, done) \<Rightarrow> (e, c # done)))"

text \<open>\<open>install\<close>: the state it reports, the calls made and the machine after.\<close>

definition install_unit :: "machine \<Rightarrow> string \<Rightarrow> (service_error option \<times> systemctl list) \<times> machine" where
  "install_unit m unit_text =
     (if ma_unit m = Some unit_text
      then (let (e, calls) = systemctl_calls m [Enable_Now] in
            ((if e = None then ma_health m else e, calls), m))
      else case (if ma_unit m = None then None else consent m) of
        Some e \<Rightarrow> ((Some e, []), m)
      | None \<Rightarrow>
          (let (e, calls) = systemctl_calls m ([Daemon_Reload, Enable_Now] @
                 (if ma_unit m \<noteq> None \<and> ma_active m then [Restart_Unit] else [])) in
           ((if e = None then ma_health m else e, calls), m\<lparr>ma_unit := Some unit_text\<rparr>)))"

definition install ::
  "loaded \<Rightarrow> (string \<Rightarrow> string option) \<Rightarrow> (string \<Rightarrow> bool) \<Rightarrow> (string \<Rightarrow> bool) \<Rightarrow> string option \<Rightarrow> string option \<Rightarrow> bool \<Rightarrow> string \<Rightarrow>
   machine \<Rightarrow> (service_error option \<times> systemctl list) \<times> machine" where
  "install loaded db_file db_exists checkout explicit which free home m =
     (case require_systemd m of
        Some e \<Rightarrow> ((Some e, []), m)
      | None \<Rightarrow>
          (case load_or_fail loaded of
             Inl (code, _) \<Rightarrow> ((Some (Service_Error code Bad_Config), []), m)
           | Inr (s, _) \<Rightarrow>
               if (case db_file (DATABASE_URL s) of None \<Rightarrow> False | Some f \<Rightarrow> \<not> db_exists f)
               then ((Some (Service_Error 1 No_Database), []), m)
               else if \<not> (ma_unit m \<noteq> None \<and> ma_active m) \<and> \<not> free
               then ((Some (Service_Error 1 Port_Busy), []), m)
               else (case pick_exe checkout explicit which of
                       Inl e \<Rightarrow> ((Some e, []), m)
                     | Inr exe \<Rightarrow> install_unit m (render_unit exe home))))"

definition uninstall :: "machine \<Rightarrow> (service_error option \<times> systemctl list) \<times> machine" where
  "uninstall m =
     (if ma_unit m = None then ((None, []), m)
      else case require_systemd m of
        Some e \<Rightarrow> ((Some e, []), m)
      | None \<Rightarrow>
          (case consent m of
             Some e \<Rightarrow> ((Some e, []), m)
           | None \<Rightarrow>
               (case systemctl_calls m [Disable_Now] of
                  (Some e, calls) \<Rightarrow> ((Some e, calls), m)
                | (None, calls) \<Rightarrow>
                    (case systemctl_calls m [Daemon_Reload] of
                       (e, calls2) \<Rightarrow> ((e, calls @ calls2), m\<lparr>ma_unit := None\<rparr>)))))"

definition require_unit :: "machine \<Rightarrow> service_error option" where
  "require_unit m = (if ma_docker m \<or> ma_unit m = None then Some (Service_Error 1 No_Service) else require_systemd m)"

definition service_verb :: "machine \<Rightarrow> systemctl \<Rightarrow> bool \<Rightarrow> service_error option \<times> systemctl list" where
  "service_verb m c waits =
     (case require_unit m of
        Some e \<Rightarrow> (Some e, [])
      | None \<Rightarrow>
          (case systemctl_calls m [c] of
             (Some e, calls) \<Rightarrow> (Some e, calls)
           | (None, calls) \<Rightarrow> (if waits then ma_health m else None, calls)))"

definition start_cmd :: "machine \<Rightarrow> service_error option \<times> systemctl list" where
  "start_cmd m = service_verb m Start_Unit True"

definition stop_cmd :: "machine \<Rightarrow> service_error option \<times> systemctl list" where
  "stop_cmd m = service_verb m Stop_Unit False"

definition restart_cmd :: "machine \<Rightarrow> service_error option \<times> systemctl list" where
  "restart_cmd m =
     (case require_unit m of
        Some e \<Rightarrow> (Some e, [])
      | None \<Rightarrow> (case consent m of Some e \<Rightarrow> (Some e, []) | None \<Rightarrow> service_verb m Restart_Unit True))"

section \<open>Logs\<close>

definition LEVELS :: "string list" where
  "LEVELS = [''DEBUG'', ''INFO'', ''WARNING'', ''ERROR'', ''CRITICAL'']"

text \<open>\<open>line.split(" | ", 3)\<close>.\<close>

fun split_max :: "string \<Rightarrow> nat \<Rightarrow> string \<Rightarrow> string \<Rightarrow> string list" where
  "split_max sep 0 acc s = [acc @ s]"
| "split_max sep (Suc n) acc [] = [acc]"
| "split_max sep (Suc n) acc (c # cs) =
     (if startswith (c # cs) sep \<and> sep \<noteq> [] then acc # split_max sep n [] (drop (length sep - 1) cs)
      else split_max sep (Suc n) (acc @ [c]) cs)"

definition level_of :: "(string \<Rightarrow> json option) \<Rightarrow> (json \<Rightarrow> string) \<Rightarrow> string \<Rightarrow> string option" where
  "level_of loads str line =
     (if startswith line ''{''
      then (case loads line of Some (JObj d) \<Rightarrow> map_option str (map_of d ''level'') | _ \<Rightarrow> None)
      else (case split_max '' | '' 3 [] line of [a, b, c, d] \<Rightarrow> Some c | _ \<Rightarrow> None))"

definition level_index :: "string \<Rightarrow> nat" where
  "level_index l = length (takeWhile (\<lambda>x. x \<noteq> l) LEVELS)"

definition log_matches ::
  "(string \<Rightarrow> json option) \<Rightarrow> (json \<Rightarrow> string) \<Rightarrow> string option \<Rightarrow> string option \<Rightarrow> string \<Rightarrow> bool" where
  "log_matches loads str min_level session line =
     (let low = (case min_level of None \<Rightarrow> False
                 | Some m \<Rightarrow> (case level_of loads str line of
                     None \<Rightarrow> False
                   | Some l \<Rightarrow> l \<in> set LEVELS \<and> level_index l < level_index (upper m))) in
      if low then False
      else case session of
        None \<Rightarrow> True
      | Some sid \<Rightarrow>
          if startswith line ''{''
          then (case loads line of
                  Some (JObj d) \<Rightarrow> dget d ''session_id'' = JStr sid \<or> dget d ''client_id'' = JStr sid
                | _ \<Rightarrow> True)
          else str_contains sid line)"

text \<open>\<open>logs\<close> on a stream of lines that ended: the lines shown and how journalctl ended.\<close>

definition logs_cmd ::
  "(string \<Rightarrow> json option) \<Rightarrow> (json \<Rightarrow> string) \<Rightarrow> machine \<Rightarrow> bool \<Rightarrow> string option \<Rightarrow> string option \<Rightarrow> string list \<Rightarrow> nat \<Rightarrow>
   service_error option \<times> string list" where
  "logs_cmd loads str m journalctl min_level session ls code =
     (case require_unit m of
        Some e \<Rightarrow> (Some e, [])
      | None \<Rightarrow>
          if \<not> journalctl then (Some (Service_Error 1 No_Service), [])
          else if min_level = None \<and> session = None then (None, ls)
          else (if code = 0 then None else Some (Service_Error 1 (Journal_Failed code)),
                filter (log_matches loads str min_level session) ls))"

section \<open>Status and version\<close>

datatype uptime = Secs int | Mins int | Hours int int | Days int int

text \<open>\<open>_uptime\<close>, \<open>int(seconds)\<close> of a number that is not negative.\<close>

definition uptime_of :: "rat \<Rightarrow> uptime" where
  "uptime_of seconds =
     (let s = \<lfloor>seconds\<rfloor> in
      if s < 60 then Secs s
      else if s < 3600 then Mins (s div 60)
      else if s < 86400 then Hours (s div 3600) (s mod 3600 div 60)
      else Days (s div 86400) (s mod 86400 div 3600))"

definition MIDDLE_DOT :: string where "MIDDLE_DOT = '' '' @ [CHR 0xB7] @ '' ''"

definition service_text :: "(json \<Rightarrow> string) \<Rightarrow> dict \<Rightarrow> string" where
  "service_text str svc =
     (let parts = map str (filter truthy [dget svc ''provider'', dget_or svc ''state'' (JStr ''?'')]);
          shown_text = join MIDDLE_DOT parts in
      if truthy (dget svc ''last_error'') then shown_text @ '' ('' @ str (dget svc ''last_error'') @ '')'' else shown_text)"

definition sub_dict :: "dict \<Rightarrow> string \<Rightarrow> dict" where
  "sub_dict d k = (case dget_or d k (JObj []) of JObj x \<Rightarrow> x | _ \<Rightarrow> [])"

definition status_rows :: "(json \<Rightarrow> string) \<Rightarrow> dict \<Rightarrow> (string \<times> string) list" where
  "status_rows str state =
     (let services = sub_dict state ''services'' in
      [(''orquestador'', service_text str (sub_dict services ''orchestrator'')),
       (''STT'', service_text str (sub_dict services ''stt'')), (''TTS'', service_text str (sub_dict services ''tts'')),
       (''sesiones'', str (dget_or (sub_dict state ''totals'') ''sessions_active'' (JStr ''?'')))])"

text \<open>\<open>version\<close>: the version of the gateway, if it answered with one; no answer is no error.\<close>

datatype gateway_version = Version json | No_Version | No_Answer

definition version_cmd :: "api_error + json \<Rightarrow> gateway_version" where
  "version_cmd answer =
     (case answer of
        Inl _ \<Rightarrow> No_Answer
      | Inr st \<Rightarrow>
          (case st of
             JObj d \<Rightarrow>
               (let v = dget (sub_dict (filter (\<lambda>(k, w). k = ''gateway'' \<and> truthy w) d) ''gateway'') ''version'' in
                if truthy v then Version v else No_Version)
           | _ \<Rightarrow> No_Version))"

section \<open>Init and serve\<close>

text \<open>
  \<open>init\<close>: the configuration file and the world of the database; \<open>token\<close> is the random one, \<open>errors\<close> what loading gives, \<open>upgrade\<close>
  how the migrations end.
\<close>

definition init_cmd ::
  "string \<Rightarrow> (string \<Rightarrow> string list) \<Rightarrow> exn option \<Rightarrow> string option \<Rightarrow> db_world \<Rightarrow>
   (start_error + unit) option \<times> string \<times> db_world" where
  "init_cmd token errors upgrade config w =
     (let text1 = (case config of Some t \<Rightarrow> t | None \<Rightarrow> ''ADMIN_TOKEN='' @ token @ [LF]) in
      if errors text1 \<noteq> [] then (None, text1, w)
      else if dw_file w = None \<or> dw_exists w then (Some (Inr ()), text1, w)
      else (case run_migrations upgrade (w\<lparr>dw_create := True\<rparr>) of
              (e, w1) \<Rightarrow>
                (Some (case e of None \<Rightarrow> Inr () | Some x \<Rightarrow> Inl x), text1, dispose_engine w1)))"

definition PORT :: nat where "PORT = 8004"

definition WS_MAX_SIZE :: nat where "WS_MAX_SIZE = 1048576"

definition GRACEFUL_SHUTDOWN_S :: time where "GRACEFUL_SHUTDOWN_S = 35"

record serve_args =
  sa_host :: string
  sa_port :: nat
  sa_proxy_headers :: bool
  sa_max_size :: nat
  sa_graceful :: time

datatype serve_result = Serve_Exit nat "string list" | Serve_Run serve_args

definition serve_cmd :: "built \<Rightarrow> serve_result option" where
  "serve_cmd b =
     (case b of
        ValidationFailed e es \<Rightarrow> Some (Serve_Exit 3 (validation_errors (e # es)))
      | SettingsFailed _ \<Rightarrow> None
      | Built s \<Rightarrow>
          Some (Serve_Run \<lparr>sa_host = (if GATEWAY_HOST s = [] then ''0.0.0.0'' else GATEWAY_HOST s), sa_port = PORT,
            sa_proxy_headers = False, sa_max_size = WS_MAX_SIZE, sa_graceful = GRACEFUL_SHUTDOWN_S\<rparr>))"

end
