(* ===== verification/Cli_Clients.thy ===== *)
theory Cli_Clients
  imports Cli_Api
begin

text \<open>
  \<open>cli/clients.py\<close>: the commands on the clients, each as the requests it makes and what it shows. What the server
  answers is an argument: the list of the clients, then the answer to the command's own request. \<open>confirm\<close> is
  the one of \<open>cli/output.py\<close>.
\<close>

section \<open>Bodies\<close>

definition READ_ONLY :: "string list" where
  "READ_ONLY = [''id'', ''key_fp'', ''created_at'', ''client_key'']"

definition editable :: "dict \<Rightarrow> string list" where
  "editable client = filter (\<lambda>k. k \<notin> set READ_ONLY) (map fst client)"

text \<open>\<open>item.partition("=")\<close> and \<open>removesuffix(":")\<close>.\<close>

definition set_field :: "string \<Rightarrow> string \<times> bool \<times> bool \<times> string" where
  "set_field item =
     (let field = takeWhile (\<lambda>c. c \<noteq> CHR ''='') item; sep = CHR ''='' \<in> set item;
          raw = tl (dropWhile (\<lambda>c. c \<noteq> CHR ''='') item);
          as_json = (field \<noteq> [] \<and> last field = CHR '':'') in
      (if as_json then butlast field else field, sep, as_json, raw))"

fun set_values :: "(string \<Rightarrow> json option) \<Rightarrow> dict \<Rightarrow> string list \<Rightarrow> dict \<Rightarrow> api_error + dict" where
  "set_values loads client [] vals = Inr vals"
| "set_values loads client (item # items) vals =
     (let (field, sep, as_json, raw) = set_field item in
      if \<not> sep \<or> field = [] then Inl (api_err 2 (Usage ''set''))
      else if field \<notin> set (editable client) then Inl (api_err 2 (Usage ''not editable''))
      else if \<not> as_json then set_values loads client items (dput field (JStr raw) vals)
      else case loads raw of
        None \<Rightarrow> Inl (api_err 2 (Usage ''json''))
      | Some j \<Rightarrow> set_values loads client items (dput field j vals))"

definition no_key :: "dict \<Rightarrow> dict" where
  "no_key d = filter (\<lambda>(k, _). k \<noteq> ''client_key'') d"

text \<open>The options of \<open>add\<close> and \<open>edit\<close>; an empty text is not given.\<close>

definition opt_field :: "string \<Rightarrow> string option \<Rightarrow> dict" where
  "opt_field k v = (case v of None \<Rightarrow> [] | Some s \<Rightarrow> if s = [] then [] else [(k, JStr s)])"

definition option_fields :: "string option \<Rightarrow> string option \<Rightarrow> string list \<Rightarrow> dict" where
  "option_fields client_type agent allowed =
     opt_field ''client_type'' client_type @ opt_field ''default_agent'' agent @
     (if allowed = [] then [] else [(''allowed_agents'', JArr (map JStr allowed))])"

section \<open>Commands\<close>

datatype verb = GET | POST | PATCH | DELETE

type_synonym call = "verb \<times> string \<times> json option"

definition client_path :: "string \<Rightarrow> string" where
  "client_path cid = ''/admin/clients/'' @ cid"

definition LIST_CALL :: call where "LIST_CALL = (GET, ''/admin/clients'', None)"

text \<open>A row of the list as the code reads it: \<open>c["id"]\<close> and \<open>c["name"]\<close>.\<close>

definition row_str :: "dict \<Rightarrow> string \<Rightarrow> string" where
  "row_str d k = (case dget d k of JStr s \<Rightarrow> s | _ \<Rightarrow> [])"

definition as_ref :: "dict \<Rightarrow> client_ref" where
  "as_ref d = \<lparr>cr_id = row_str d ''id'', cr_name = row_str d ''name'', cr_row = d\<rparr>"

definition find_client :: "api_error + dict list \<Rightarrow> string \<Rightarrow> api_error + client_ref" where
  "find_client listing r = (case listing of Inl e \<Rightarrow> Inl e | Inr rows \<Rightarrow> resolve_ref (map as_ref rows) r)"

text \<open>The terminal: \<open>--yes\<close>, whether stdin is one, and the answer given there.\<close>

record terminal =
  tm_yes :: bool
  tm_tty :: bool
  tm_answer :: bool

datatype cmd_error = Api_Failed api_error | Aborted

definition confirm :: "terminal \<Rightarrow> cmd_error option" where
  "confirm t =
     (if tm_yes t then None
      else if \<not> tm_tty t then Some (Api_Failed (api_err 2 (Usage ''confirm'')))
      else if tm_answer t then None else Some Aborted)"

definition finish :: "api_error + dict \<Rightarrow> cmd_error + dict" where
  "finish a = (case a of Inl e \<Rightarrow> Inl (Api_Failed e) | Inr d \<Rightarrow> Inr d)"

definition list_cmd :: "api_error + dict list \<Rightarrow> call list \<times> (cmd_error + dict list)" where
  "list_cmd listing =
     ([LIST_CALL], case listing of Inl e \<Rightarrow> Inl (Api_Failed e) | Inr rows \<Rightarrow> Inr (map no_key rows))"

text \<open>A command on one client: the requests after the list, with what it shows of the answer.\<close>

definition on_client ::
  "api_error + dict list \<Rightarrow> string \<Rightarrow> (client_ref \<Rightarrow> call list \<times> (cmd_error + 'a)) \<Rightarrow> call list \<times> (cmd_error + 'a)" where
  "on_client listing r k =
     (case find_client listing r of
        Inl e \<Rightarrow> ([LIST_CALL], Inl (Api_Failed e))
      | Inr c \<Rightarrow> let (calls, res) = k c in (LIST_CALL # calls, res))"

definition shown_row :: "api_error + dict \<Rightarrow> cmd_error + dict" where
  "shown_row a = (case a of Inl e \<Rightarrow> Inl (Api_Failed e) | Inr d \<Rightarrow> Inr (no_key d))"

definition show_cmd :: "api_error + dict list \<Rightarrow> api_error + dict \<Rightarrow> string \<Rightarrow> call list \<times> (cmd_error + dict)" where
  "show_cmd listing answer r =
     on_client listing r (\<lambda>c. ([(GET, client_path (cr_id c), None)], shown_row answer))"

text \<open>\<open>add\<close>: \<open>key\<close> is the line an import reads from stdin.\<close>

definition add_cmd ::
  "string \<Rightarrow> string option \<Rightarrow> string option \<Rightarrow> string list \<Rightarrow> string option \<Rightarrow> api_error + dict \<Rightarrow>
   call list \<times> (cmd_error + dict)" where
  "add_cmd name client_type agent allowed key answer =
     (let body = (''name'', JStr name) # option_fields client_type agent allowed in
      case key of
        Some k \<Rightarrow>
          if strip k = [] then ([], Inl (Api_Failed (api_err 2 (Usage ''import-key''))))
          else ([(POST, ''/admin/clients'', Some (JObj (body @ [(''client_key'', JStr (strip k))])))], finish answer)
      | None \<Rightarrow> ([(POST, ''/admin/clients'', Some (JObj body))], finish answer))"

definition dict_update :: "dict \<Rightarrow> dict \<Rightarrow> dict" where
  "dict_update d e = foldl (\<lambda>m (k, v). dput k v m) d e"

definition edit_cmd ::
  "(string \<Rightarrow> json option) \<Rightarrow> api_error + dict list \<Rightarrow> api_error + dict \<Rightarrow> string \<Rightarrow>
   string option \<Rightarrow> string option \<Rightarrow> string option \<Rightarrow> string list \<Rightarrow> string list \<Rightarrow>
   call list \<times> (cmd_error + dict)" where
  "edit_cmd loads listing answer r name client_type agent allowed sets =
     on_client listing r (\<lambda>c.
       case set_values loads (cr_row c) sets [] of
         Inl e \<Rightarrow> ([], Inl (Api_Failed e))
       | Inr vals \<Rightarrow>
           let body = dict_update (opt_field ''name'' name @ option_fields client_type agent allowed) vals in
           if body = [] then ([], Inl (Api_Failed (api_err 2 (Usage ''nothing''))))
           else ([(PATCH, client_path (cr_id c), Some (JObj body))], shown_row answer))"

definition set_active_cmd ::
  "api_error + dict list \<Rightarrow> api_error + dict \<Rightarrow> string \<Rightarrow> bool \<Rightarrow> call list \<times> (cmd_error + dict)" where
  "set_active_cmd listing answer r active =
     on_client listing r (\<lambda>c.
       ([(PATCH, client_path (cr_id c), Some (JObj [(''is_active'', JBool active)]))], shown_row answer))"

definition rotate_cmd ::
  "terminal \<Rightarrow> api_error + dict list \<Rightarrow> api_error + dict \<Rightarrow> string \<Rightarrow> call list \<times> (cmd_error + dict)" where
  "rotate_cmd t listing answer r =
     on_client listing r (\<lambda>c.
       case confirm t of
         Some e \<Rightarrow> ([], Inl e)
       | None \<Rightarrow> ([(POST, client_path (cr_id c) @ ''/rotate-key'', None)], finish answer))"

definition remove_cmd ::
  "terminal \<Rightarrow> api_error + dict list \<Rightarrow> api_error + dict \<Rightarrow> string \<Rightarrow> call list \<times> (cmd_error + dict)" where
  "remove_cmd t listing answer r =
     on_client listing r (\<lambda>c.
       case confirm t of
         Some e \<Rightarrow> ([], Inl e)
       | None \<Rightarrow>
           ([(DELETE, client_path (cr_id c), None)],
            case answer of
              Inl e \<Rightarrow> Inl (Api_Failed e)
            | Inr _ \<Rightarrow> Inr [(''id'', JStr (cr_id c)), (''removed'', JBool True)]))"

section \<open>What the commands keep to\<close>

lemma set_values_keys:
  "set_values loads client its vals = Inr d \<Longrightarrow> fst ` set d \<subseteq> fst ` set vals \<union> set (editable client)"
proof (induction its arbitrary: vals)
  case (Cons item its)
  obtain field sep as_json raw where f: "set_field item = (field, sep, as_json, raw)" by (metis prod_cases4)
  obtain j where fe: "field \<in> set (editable client)"
    and rest: "set_values loads client its (dput field j vals) = Inr d"
    using Cons.prems by (auto simp: f Let_def split: if_splits option.splits)
  show ?case using Cons.IH[OF rest] fe by (auto simp only: fst_dput)
qed simp

lemma dict_update_keys: "fst ` set (dict_update d e) = fst ` set d \<union> fst ` set e"
proof (induction e arbitrary: d)
  case (Cons x e)
  have "dict_update d (x # e) = dict_update (dput (fst x) (snd x) d) e"
    by (simp add: dict_update_def split_beta)
  then show ?case using Cons by (simp only: fst_dput list.set image_insert) auto
qed (simp add: dict_update_def)

text \<open>
  C32: A change to a client is one request about one client: \<open>edit\<close> sends at most one \<open>PATCH\<close>, to the client the
  reference resolves to, its body is not empty, has no field that is read only (so no key, id or date is ever
  written) and no field that client does not have, the four named options apart; a mistyped field sends
  nothing.
\<close>

theorem edit_touches_one_client:
  assumes "edit_cmd loads listing answer r name client_type agent allowed sets = (calls, res)"
  shows "calls = [LIST_CALL] \<and> (\<exists>e. res = Inl e) \<or>
    (\<exists>c body. find_client listing r = Inr c \<and> calls = [LIST_CALL, (PATCH, client_path (cr_id c), Some (JObj body))] \<and>
       body \<noteq> [] \<and> fst ` set body \<inter> set READ_ONLY = {} \<and>
       fst ` set body \<subseteq> {''name'', ''client_type'', ''default_agent'', ''allowed_agents''} \<union> fst ` set (cr_row c))"
proof (cases "find_client listing r")
  case (Inl e)
  then have "calls = [LIST_CALL]" "res = Inl (Api_Failed e)" using assms by (auto simp: edit_cmd_def on_client_def)
  then show ?thesis by blast
next
  case (Inr c)
  show ?thesis
  proof (cases "set_values loads (cr_row c) sets []")
    case (Inl e)
    then have "calls = [LIST_CALL]" "res = Inl (Api_Failed e)" using assms Inr by (auto simp: edit_cmd_def on_client_def)
    then show ?thesis by blast
  next
    case (Inr vals)
    let ?opts = "opt_field ''name'' name @ option_fields client_type agent allowed"
    have o: "fst ` set ?opts \<subseteq> {''name'', ''client_type'', ''default_agent'', ''allowed_agents''}"
      by (auto simp: opt_field_def option_fields_def split: option.splits if_splits)
    have v: "fst ` set vals \<subseteq> set (editable (cr_row c))" using set_values_keys[OF Inr] by simp
    have k: "fst ` set (dict_update ?opts vals) = fst ` set ?opts \<union> fst ` set vals" by (rule dict_update_keys)
    have "fst ` set (dict_update ?opts vals) \<inter> set READ_ONLY = {}"
      unfolding k using o v by (auto simp: editable_def READ_ONLY_def)
    moreover have "fst ` set (dict_update ?opts vals) \<subseteq>
        {''name'', ''client_type'', ''default_agent'', ''allowed_agents''} \<union> fst ` set (cr_row c)"
      unfolding k using o v by (auto simp: editable_def)
    ultimately show ?thesis
      using assms \<open>find_client listing r = Inr c\<close> Inr
      by (auto simp: edit_cmd_def on_client_def Let_def split: if_splits)
  qed
qed

theorem edit_touches_one_client_witness:
  "edit_cmd (\<lambda>_. None) (Inr [[(''id'', JStr ''abcd''), (''name'', JStr ''k''), (''voice'', JStr ''v'')]]) (Inr [])
     ''abcd'' None None None [] [''voice=x''] =
   ([LIST_CALL, (PATCH, ''/admin/clients/abcd'', Some (JObj [(''voice'', JStr ''x'')]))], Inr []) \<and>
   ''voice'' \<notin> set READ_ONLY"
proof -
  have e: "edit_cmd (\<lambda>_. None) (Inr [[(''id'', JStr ''abcd''), (''name'', JStr ''k''), (''voice'', JStr ''v'')]]) (Inr [])
     ''abcd'' None None None [] [''voice=x''] =
   ([LIST_CALL, (PATCH, ''/admin/clients/abcd'', Some (JObj [(''voice'', JStr ''x'')]))], Inr [])" by code_simp
  show ?thesis using edit_touches_one_client[OF e] e by (simp add: LIST_CALL_def) blast
qed

text \<open>
  What destroys is asked first: \<open>remove\<close> and \<open>rotate-key\<close> send a request that changes something only for the one
  client the reference resolves to and only after \<open>--yes\<close> or a yes at a terminal; without both they send
  nothing but the list, and fail.
\<close>

theorem destructive_needs_consent:
  assumes "remove_cmd t listing answer r = (calls, res) \<or> rotate_cmd t listing answer r = (calls, res)"
  shows "(if tm_yes t \<or> tm_tty t \<and> tm_answer t
          then (case find_client listing r of
                  Inl e \<Rightarrow> calls = [LIST_CALL] \<and> res = Inl (Api_Failed e)
                | Inr c \<Rightarrow> \<exists>v p. calls = [LIST_CALL, (v, client_path (cr_id c) @ p, None)])
          else calls = [LIST_CALL] \<and> (\<exists>e. res = Inl e))"
  using assms
  by (auto simp: remove_cmd_def rotate_cmd_def on_client_def confirm_def split: sum.splits if_splits)

theorem destructive_needs_consent_witness:
  "fst (remove_cmd \<lparr>tm_yes = False, tm_tty = True, tm_answer = False\<rparr>
     (Inr [[(''id'', JStr ''abcd''), (''name'', JStr ''k'')]]) (Inr []) ''abcd'') = [LIST_CALL]"
  using destructive_needs_consent[of "\<lparr>tm_yes = False, tm_tty = True, tm_answer = False\<rparr>"
      "Inr [[(''id'', JStr ''abcd''), (''name'', JStr ''k'')]]" "Inr []" "''abcd''", OF disjI1, OF surjective_pairing]
  by simp

definition shows_no_key :: "cmd_error + dict \<Rightarrow> bool" where
  "shows_no_key res = (case res of Inl _ \<Rightarrow> True | Inr d \<Rightarrow> ''client_key'' \<notin> fst ` set d)"

lemma no_key_clean: "''client_key'' \<notin> fst ` set (no_key d)"
  by (auto simp: no_key_def)

lemma shown_row_clean: "shows_no_key (shown_row a)"
  by (auto simp: shows_no_key_def shown_row_def no_key_clean split: sum.splits)

lemma on_client_clean: "(\<And>c. shows_no_key (snd (k c))) \<Longrightarrow> shows_no_key (snd (on_client listing r k))"
  by (cases "find_client listing r") (simp_all add: on_client_def shows_no_key_def split_beta)

lemma failed_clean: "shows_no_key (Inl e)"
  by (simp add: shows_no_key_def)

text \<open>
  A key is shown once: of all the commands only the creation of a client and the rotation of its key show a
  \<open>client_key\<close>, whatever an old gateway puts into its answers.
\<close>

theorem key_shown_only_when_made:
  "shows_no_key (snd (show_cmd listing answer r)) \<and>
   shows_no_key (snd (edit_cmd loads listing answer r name client_type agent allowed sets)) \<and>
   shows_no_key (snd (set_active_cmd listing answer r active)) \<and>
   shows_no_key (snd (remove_cmd t listing answer r)) \<and>
   (case snd (list_cmd listing) of Inr ds \<Rightarrow> ''client_key'' \<notin> (\<Union>d\<in>set ds. fst ` set d) | _ \<Rightarrow> True)"
proof (intro conjI)
  show "shows_no_key (snd (show_cmd listing answer r))"
    unfolding show_cmd_def by (rule on_client_clean) (simp add: shown_row_clean)
  show "shows_no_key (snd (edit_cmd loads listing answer r name client_type agent allowed sets))"
    unfolding edit_cmd_def
    by (rule on_client_clean) (simp add: shown_row_clean failed_clean Let_def split: sum.split)
  show "shows_no_key (snd (set_active_cmd listing answer r active))"
    unfolding set_active_cmd_def by (rule on_client_clean) (simp add: shown_row_clean)
  show "shows_no_key (snd (remove_cmd t listing answer r))"
    unfolding remove_cmd_def
    by (rule on_client_clean) (simp add: shows_no_key_def split: option.splits sum.splits)
  show "case snd (list_cmd listing) of Inr ds \<Rightarrow> ''client_key'' \<notin> (\<Union>d\<in>set ds. fst ` set d) | _ \<Rightarrow> True"
    using no_key_clean by (simp add: list_cmd_def split: sum.splits)
qed

end
