(* ===== verification/Cli_Doctor.thy ===== *)
theory Cli_Doctor
  imports Cli_Service Cli_Clients "HOL-Library.List_Lexorder"
begin

text \<open>
  \<open>cli/doctor.py\<close>, \<open>cli/menu.py\<close>, \<open>cli/output.py\<close> and the table of commands of \<open>cli/app.py\<close>: the diagnosis of an
  installation, whose checks only read, the argument lists the menu builds, and the plain output. A check is its
  level and what it is about, with the reason as a constructor; what files, sockets and the gateway answer are
  arguments.
\<close>

section \<open>The database\<close>

text \<open>The migration files: the revision and the one before it, as the patterns find them.\<close>

definition revisions :: "(string option \<times> string option) list \<Rightarrow> string list \<times> string option" where
  "revisions files =
     (let revs = remdups (List.map_filter fst files); downs = List.map_filter snd files;
          heads = filter (\<lambda>r. r \<notin> set downs) revs in
      (revs, case heads of [h] \<Rightarrow> Some h | _ \<Rightarrow> None))"

datatype db_reading = Db_Absent | Db_Broken | Db_Version "string option"

datatype db_state =
    Not_Sqlite | File_Missing | Not_Ours | Head_Unknown "string option" | Version_Empty | Newest string
  | Pending string string | Too_New string

definition db_verdict :: "string option \<Rightarrow> db_reading \<Rightarrow> (string option \<times> string option) list \<Rightarrow> db_state" where
  "db_verdict path reading files =
     (if path = None then Not_Sqlite
      else case reading of
        Db_Absent \<Rightarrow> File_Missing
      | Db_Broken \<Rightarrow> Not_Ours
      | Db_Version current \<Rightarrow>
          (let (known, head) = revisions files in
           case head of
             None \<Rightarrow> Head_Unknown current
           | Some h \<Rightarrow>
               (case current of
                  None \<Rightarrow> Version_Empty
                | Some c \<Rightarrow> if c = h then Newest c else if c \<in> set known then Pending c h else Too_New c)))"

definition db_level :: "db_state \<Rightarrow> check_level" where
  "db_level st =
     (case st of Not_Sqlite \<Rightarrow> Info_Level | Head_Unknown _ \<Rightarrow> Info_Level | Newest _ \<Rightarrow> Ok_Level
      | Pending _ _ \<Rightarrow> Warn_Level | _ \<Rightarrow> Fail_Level)"

section \<open>Permissions, lock and sockets\<close>

text \<open>A path as \<open>stat\<close> shows it: whether it is there and ours, and its mode; with the mode it should have.\<close>

record stat_item =
  si_path :: string
  si_ours :: bool
  si_mode :: nat
  si_wanted :: nat

definition check_permissions :: "stat_item list \<Rightarrow> check_level \<times> (string \<times> nat) list" where
  "check_permissions its =
     (let ours = filter si_ours its;
          fixes_l = map (\<lambda>i. (si_path i, si_wanted i)) (filter (\<lambda>i. si_mode i mod 64 \<noteq> 0) ours) in
      if ours = [] then (Info_Level, []) else if fixes_l = [] then (Ok_Level, []) else (Warn_Level, fixes_l))"

text \<open>
  \<open>_lock_held\<close>: the lines of \<open>/proc/locks\<close>, if there is one, split at the blanks, and the inode of the lock file, if it is there.
\<close>

definition lock_held :: "string list list option \<Rightarrow> string option \<Rightarrow> bool option" where
  "lock_held locks inode =
     (case locks of
        None \<Rightarrow> None
      | Some ls \<Rightarrow>
          (case inode of
             None \<Rightarrow> Some False
           | Some i \<Rightarrow> Some (list_ex (list_ex (\<lambda>field. endswith field ('':'' @ i))) ls)))"

text \<open>\<open>address.rpartition(":")\<close>: host and port; \<open>connect\<close> answers for a host and a port that is a number.\<close>

definition rpartition_colon :: "string \<Rightarrow> string \<times> string" where
  "rpartition_colon a =
     (let port = rev (takeWhile (\<lambda>c. c \<noteq> CHR '':'') (rev a)) in
      (if CHR '':'' \<in> set a then take (length a - length port - 1) a else [], port))"

definition tcp :: "(string \<Rightarrow> int \<Rightarrow> bool) \<Rightarrow> (string \<Rightarrow> int option) \<Rightarrow> string \<Rightarrow> bool" where
  "tcp connect to_int address =
     (let (host, port) = rpartition_colon address in
      case to_int port of None \<Rightarrow> False | Some p \<Rightarrow> connect (if host = [] then address else host) p)"

datatype check_name =
    On_Setting string | On_Config | On_Routes | On_Db db_state | On_Permissions | On_Lock "bool option" | On_Gateway | On_Token
  | On_Service string

type_synonym check = "check_level \<times> check_name"

definition services_offline ::
  "(string \<Rightarrow> bool) \<Rightarrow> (int \<Rightarrow> string) \<Rightarrow> (string \<Rightarrow> string option) \<Rightarrow> settings \<Rightarrow> check list" where
  "services_offline open_at str hostname s =
     (let eleven = (case hostname (ELEVENLABS_BASE_URL s) of
                      None \<Rightarrow> ''api.elevenlabs.io'' | Some h \<Rightarrow> if h = [] then ''api.elevenlabs.io'' else h) @ '':443'';
          targets =
            [(''orquestador'', OPENCLAW_HOST s @ '':'' @ str (OPENCLAW_PORT s), Fail_Level),
             (''STT'', if STT_PROVIDER s = ''elevenlabs'' then eleven else TRANSCRIBER_WS_URL s, Warn_Level),
             (''TTS'', if TTS_PROVIDER s = ''elevenlabs'' then eleven else TTS_WS_URL s, Warn_Level)] in
      map (\<lambda>(name, address, level). (if open_at address then Ok_Level else level, On_Service name)) targets)"

definition services_online :: "dict \<Rightarrow> check list" where
  "services_online ready_body =
     (let services = sub_dict ready_body ''services'' in
      map (\<lambda>(name, key, level).
             (if dget services key = JStr ''ok'' then Ok_Level else level, On_Service name))
        [(''orquestador'', ''orchestrator'', Fail_Level), (''STT'', ''transcriber'', Warn_Level),
         (''TTS'', ''tts'', Warn_Level)])"

section \<open>The diagnosis\<close>

text \<open>
  What a diagnosis reads: the settings as loaded, whether the file is there, the database and its lock, the permissions, and what
  the gateway answers to \<open>/healthz\<close>, \<open>/admin/state\<close> (with the token, if one is found) and \<open>/ready\<close>.
\<close>

record findings =
  fi_loaded :: loaded
  fi_config_file :: bool
  fi_db_path :: "string option"
  fi_db :: db_reading
  fi_migrations :: "(string option \<times> string option) list"
  fi_stats :: "stat_item list"
  fi_held :: "bool option"
  fi_health :: "api_error option"
  fi_token :: "api_error option"
  fi_ready :: "api_error + dict"
  fi_open :: "string \<Rightarrow> bool"

definition setting_checks :: "settings \<Rightarrow> check list" where
  "setting_checks s = map (\<lambda>(l, n). (l, On_Setting n)) (validation_checks s)"

definition config_checks :: "findings \<Rightarrow> check list" where
  "config_checks f =
     (case fi_loaded f of (s, errors, _) \<Rightarrow>
        if errors \<noteq> [] then [(Fail_Level, On_Config)]
        else (if fi_config_file f then (Ok_Level, On_Config) else (Warn_Level, On_Config)) #
          (case s of None \<Rightarrow> [] | Some x \<Rightarrow> setting_checks x))"

definition file_checks :: "findings \<Rightarrow> check list" where
  "file_checks f =
     (case fst (fi_loaded f) of
        None \<Rightarrow> []
      | Some _ \<Rightarrow>
          (let st = db_verdict (fi_db_path f) (fi_db f) (fi_migrations f) in
           [(db_level st, On_Db st), (fst (check_permissions (fi_stats f)), On_Permissions),
            (Info_Level, On_Lock (if fi_db_path f = None then None else fi_held f))]))"

definition gateway_checks :: "(int \<Rightarrow> string) \<Rightarrow> (string \<Rightarrow> string option) \<Rightarrow> findings \<Rightarrow> api_error + check list" where
  "gateway_checks str hostname f =
     (case fi_health f of
        Some _ \<Rightarrow>
          Inr ((Warn_Level, On_Gateway) #
            (case fst (fi_loaded f) of None \<Rightarrow> [] | Some s \<Rightarrow> services_offline (fi_open f) str hostname s))
      | None \<Rightarrow>
          (case fi_ready f of
             Inl e \<Rightarrow> Inl e
           | Inr body \<Rightarrow>
               Inr ([(Ok_Level, On_Gateway), (if fi_token f = None then Ok_Level else Fail_Level, On_Token)] @
                    services_online body)))"

definition run_checks :: "(int \<Rightarrow> string) \<Rightarrow> (string \<Rightarrow> string option) \<Rightarrow> findings \<Rightarrow> api_error + check list" where
  "run_checks str hostname f =
     (case gateway_checks str hostname f of
        Inl e \<Rightarrow> Inl e
      | Inr g \<Rightarrow> Inr (config_checks f @ [(Info_Level, On_Routes)] @ file_checks f @ g))"

definition doctor_exit :: "check list \<Rightarrow> nat" where
  "doctor_exit cs = (if list_ex (\<lambda>(l, _). l = Fail_Level) cs then 1 else 0)"

section \<open>The menu\<close>

datatype client_action = C_List | C_Show | C_Add | C_Edit | C_Enable | C_Disable | C_Rotate | C_Remove | C_Back

definition action_word :: "client_action \<Rightarrow> string" where
  "action_word a =
     (case a of C_List \<Rightarrow> ''list'' | C_Show \<Rightarrow> ''show'' | C_Add \<Rightarrow> ''add'' | C_Edit \<Rightarrow> ''edit'' | C_Enable \<Rightarrow> ''enable''
      | C_Disable \<Rightarrow> ''disable'' | C_Rotate \<Rightarrow> ''rotate-key'' | C_Remove \<Rightarrow> ''remove'' | C_Back \<Rightarrow> ''back'')"

text \<open>
  \<open>_clients_argv\<close>: the answers of the prompts; \<open>None\<close> is an interrupted prompt. The client is picked by its id from the rows the
  server gave, the field from those that can be edited.
\<close>

record answers =
  an_action :: "client_action option"
  an_name :: "string option"
  an_kind :: "string option"
  an_client :: "string option"
  an_field :: "nat option"
  an_value :: "string option"

definition pick_client :: "api_error + dict list \<Rightarrow> string option \<Rightarrow> dict option" where
  "pick_client listing chosen =
     (case listing of
        Inl _ \<Rightarrow> None
      | Inr rows \<Rightarrow> (case chosen of None \<Rightarrow> None | Some i \<Rightarrow> find (\<lambda>r. row_str r ''id'' = i) rows))"

text \<open>The prompt offers the sorted fields; it answers with one of those offered.\<close>

definition editable_sorted :: "dict \<Rightarrow> string list" where
  "editable_sorted client = sort_key (map (\<lambda>c. of_char c :: nat)) (remdups (editable client))"

definition clients_argv :: "api_error + dict list \<Rightarrow> answers \<Rightarrow> string list option" where
  "clients_argv listing a =
     (case an_action a of
        None \<Rightarrow> None
      | Some C_Back \<Rightarrow> None
      | Some C_List \<Rightarrow> Some [''clients'', ''list'']
      | Some C_Add \<Rightarrow>
          (case an_name a of
             None \<Rightarrow> None
           | Some n \<Rightarrow>
               if n = [] then None
               else Some ([''clients'', ''add'', ''--name'', n] @
                 (case an_kind a of None \<Rightarrow> [] | Some k \<Rightarrow> if k = [] then [] else [''--type'', k])))
      | Some act \<Rightarrow>
          (case pick_client listing (an_client a) of
             None \<Rightarrow> None
           | Some client \<Rightarrow>
               if act = C_Edit
               then (case an_field a of
                       None \<Rightarrow> None
                     | Some i \<Rightarrow>
                         (let fs = editable_sorted client in
                          if length fs \<le> i then None
                          else case an_value a of
                            None \<Rightarrow> None
                          | Some v \<Rightarrow> Some [''clients'', ''edit'', row_str client ''id'', ''--set'', fs ! i @ ''='' @ v]))
               else Some [''clients'', action_word act, row_str client ''id'']))"

definition menu_argv :: "string \<Rightarrow> string option \<Rightarrow> bool \<Rightarrow> string list \<Rightarrow> string list" where
  "menu_argv url token yes argv =
     [''--url'', url] @ (case token of None \<Rightarrow> [] | Some t \<Rightarrow> if t = [] then [] else [''--token'', t]) @
     (if yes then [''--yes''] else []) @ argv"

datatype main_choice = M_Status | M_Doctor | M_Clients | M_Config | M_Exit

text \<open>\<open>run_menu\<close>: the choices until \<open>Salir\<close> or an interrupt, each with what the client menu gave; the commands run.\<close>

fun run_menu :: "(main_choice option \<times> string list option) list \<Rightarrow> string list list" where
  "run_menu [] = []"
| "run_menu ((choice, argv) # rest) =
     (case choice of
        None \<Rightarrow> []
      | Some M_Exit \<Rightarrow> []
      | Some M_Status \<Rightarrow> [''status''] # run_menu rest
      | Some M_Doctor \<Rightarrow> [''doctor''] # run_menu rest
      | Some M_Config \<Rightarrow> [''config'', ''show''] # run_menu rest
      | Some M_Clients \<Rightarrow> (case argv of None \<Rightarrow> run_menu rest | Some a \<Rightarrow> if a = [] then run_menu rest else a # run_menu rest))"

section \<open>Plain output\<close>

definition ljust :: "string \<Rightarrow> nat \<Rightarrow> string" where
  "ljust s w = s @ replicate (w - length s) (CHR '' '')"

text \<open>
  \<open>Out.table\<close> and \<open>Out.pairs\<close> without style, on cells already made text.
\<close>

definition column_width :: "string list list \<Rightarrow> nat \<Rightarrow> nat" where
  "column_width rows i = foldl max 0 (map (\<lambda>r. length (r ! i)) rows)"

definition table_lines :: "string list \<Rightarrow> string list list \<Rightarrow> string list" where
  "table_lines headers cells =
     (let rows = headers # cells in
      map (\<lambda>r. rstrip (join ''  '' (map (\<lambda>i. ljust (r ! i) (column_width rows i)) [0..<length headers]))) rows)"

definition pair_lines :: "(string \<times> string) list \<Rightarrow> string list" where
  "pair_lines ps =
     (let w = foldl max 0 (map (length \<circ> fst) ps) in map (\<lambda>(k, v). ljust k w @ ''  '' @ v) ps)"

section \<open>Commands\<close>

definition COMMANDS :: "string list" where
  "COMMANDS =
     [''clients'', ''config'', ''doctor'', ''init'', ''install'', ''logs'', ''migrate'', ''serve'', ''start'', ''status'',
      ''stop'', ''restart'', ''uninstall'', ''version'']"

definition get_command :: "string \<Rightarrow> string option" where
  "get_command name = (if name \<in> set COMMANDS then Some name else None)"

text \<open>The root group without a command: the menu only on a terminal and without \<open>--json\<close>.\<close>

datatype root_choice = Run_Menu | Show_Help | Run_Command

definition root_action :: "bool \<Rightarrow> bool \<Rightarrow> bool \<Rightarrow> root_choice" where
  "root_action has_command as_json interactive =
     (if has_command then Run_Command else if \<not> as_json \<and> interactive then Run_Menu else Show_Help)"

end
