(* ===== verification/Cli_Config_Edit.thy ===== *)
theory Cli_Config_Edit
  imports Cli_Config
begin

text \<open>
  What an edit of \<open>config.env\<close> does to its lines and what the readers see after it, and what becomes of the
  file when an edit is refused or fails.
\<close>

section \<open>The pattern of an assignment\<close>

text \<open>The names of the settings: letters, digits and underscores.\<close>

definition key_char :: "char \<Rightarrow> bool" where
  "key_char c \<longleftrightarrow>
     (let n = (of_char c :: nat) in (65 \<le> n \<and> n \<le> 90) \<or> (97 \<le> n \<and> n \<le> 122) \<or> (48 \<le> n \<and> n \<le> 57) \<or> n = 95)"

definition good_key :: "string \<Rightarrow> bool" where
  "good_key key \<longleftrightarrow> key \<noteq> [] \<and> list_all key_char key"

lemma key_char_facts:
  "key_char c \<Longrightarrow> \<not> py_isspace c \<and> \<not> is_break c \<and> c \<noteq> LF \<and> c \<noteq> CHR ''='' \<and> c \<noteq> CHR ''#''"
  by (auto simp: key_char_def py_isspace_def is_break_def LF_def Let_def)

lemma eq_not_space [simp]: "\<not> py_isspace (CHR ''='')"
  by (simp add: py_isspace_def Let_def)

lemma lower_append [simp]: "lower (xs @ ys) = lower xs @ lower ys"
  by (simp add: lower_def)

lemma length_lower [simp]: "length (lower s) = length s"
  by (simp add: lower_def)

lemma ascii_lower_LF: "ascii_lower c = LF \<longleftrightarrow> c = LF"
proof
  assume a: "ascii_lower c = LF"
  show "c = LF"
  proof (cases "ascii_lower c = c")
    case False
    then have "65 \<le> (of_char c :: nat)" "(of_char c :: nat) \<le> 222" "ascii_lower c = char_of ((of_char c :: nat) + 32)"
      by (auto simp: ascii_lower_def Let_def split: if_splits)
    then have "(of_char (ascii_lower c) :: nat) = of_char c + 32" by simp
    then have "(of_char LF :: nat) = of_char c + 32" using a by simp
    then show ?thesis using \<open>65 \<le> of_char c\<close> by (simp add: LF_def)
  qed (use a in simp)
qed (simp add: ascii_lower_def LF_def)

lemma ascii_lower_LF_id [simp]: "ascii_lower LF = LF"
  by (simp add: ascii_lower_LF)

lemma startswith_lower_snoc:
  "LF \<notin> set p \<Longrightarrow> startswith (lower (s @ [LF])) p \<longleftrightarrow> startswith (lower s) p"
  by (auto simp: startswith_prefix lower_def prefix_snoc)

lemma dropWhile_snoc_LF:
  "dropWhile py_isspace (s @ [LF]) = (if dropWhile py_isspace s = [] then [] else dropWhile py_isspace s @ [LF])"
  by (induction s) auto

lemma assigns_snoc:
  assumes "good_key key"
  shows "assigns key (s @ [LF]) \<longleftrightarrow> assigns key s"
proof -
  have "LF \<notin> set (lower key)"
    using assms key_char_facts by (auto simp: good_key_def lower_def list_all_iff ascii_lower_LF dest: sym)
  then have p: "startswith (lower (s @ [LF])) (lower key) \<longleftrightarrow> startswith (lower s) (lower key)"
    by (rule startswith_lower_snoc)
  show ?thesis
  proof (cases "startswith (lower s) (lower key)")
    case True
    then have "length key \<le> length s" by (auto simp: startswith_prefix dest: prefix_length_le)
    then show ?thesis using p True by (auto simp: assigns_def dropWhile_snoc_LF Let_def)
  qed (simp add: assigns_def p del: lower_append)
qed

lemma assigns_lstrip_snoc:
  assumes "good_key key"
  shows "assigns key (lstrip (x @ [LF])) \<longleftrightarrow> assigns key (lstrip x)"
proof (cases "lstrip x = []")
  case True
  then have "lstrip (x @ [LF]) = []" by (simp add: lstrip_def dropWhile_snoc_LF)
  then show ?thesis using True by simp
next
  case False
  then have "lstrip (x @ [LF]) = lstrip x @ [LF]" by (simp add: lstrip_def dropWhile_snoc_LF)
  then show ?thesis by (simp only: assigns_snoc[OF assms])
qed

lemma line_matches_snoc:
  assumes "good_key key"
  shows "line_matches key (l @ [LF]) \<longleftrightarrow> line_matches key l"
proof (cases "lstrip l = []")
  case True
  then have "lstrip (l @ [LF]) = []" by (simp add: lstrip_def dropWhile_snoc_LF)
  then show ?thesis using True by (simp add: line_matches_def)
next
  case False
  let ?s = "lstrip l"
  have s: "lstrip (l @ [LF]) = ?s @ [LF]" using False by (simp add: lstrip_def dropWhile_snoc_LF)
  have none: "\<not> assigns key []" using assms by (simp add: assigns_def)
  have e: "startswith (lower (?s @ [LF])) ''export'' \<longleftrightarrow> startswith (lower ?s) ''export''"
    by (rule startswith_lower_snoc) (simp add: LF_def)
  show ?thesis
  proof (cases "startswith (lower ?s) ''export''")
    case True
    then have "6 \<le> length ?s" by (auto simp: startswith_prefix dest: prefix_length_le)
    then have r: "drop 6 (?s @ [LF]) = drop 6 ?s @ [LF]" by simp
    have "assigns key (lstrip (drop 6 ?s @ [LF])) \<longleftrightarrow> assigns key (lstrip (drop 6 ?s))"
      by (rule assigns_lstrip_snoc[OF assms])
    moreover have "x = [] \<Longrightarrow> \<not> assigns key (lstrip x)" for x using none by (simp add: lstrip_def)
    moreover have "x \<noteq> [] \<Longrightarrow> hd (x @ [LF]) = hd x" "x @ [LF] \<noteq> []" for x by simp_all
    note facts = calculation this
    have "(drop 6 ?s @ [LF] \<noteq> [] \<and> py_isspace (hd (drop 6 ?s @ [LF])) \<and> assigns key (lstrip (drop 6 ?s @ [LF]))) \<longleftrightarrow>
        (drop 6 ?s \<noteq> [] \<and> py_isspace (hd (drop 6 ?s)) \<and> assigns key (lstrip (drop 6 ?s)))"
      using facts by (cases "drop 6 ?s = []") (simp_all only: simp_thms)
    then show ?thesis
      unfolding line_matches_def Let_def s r assigns_snoc[OF assms] e by (simp only:)
  next
    case F: False
    then show ?thesis unfolding line_matches_def Let_def s assigns_snoc[OF assms] e by simp
  qed
qed

definition new_line :: "string \<Rightarrow> string \<Rightarrow> string" where
  "new_line key v = key @ ''='' @ quote_value v @ [LF]"

lemma key_append_lstrip: "good_key key \<Longrightarrow> lstrip (key @ s) = key @ s"
  by (cases key) (auto simp: good_key_def lstrip_def key_char_facts)

lemma assigns_key:
  assumes "good_key key" "list_all py_isspace sp"
  shows "assigns key (key @ sp @ CHR ''='' # s)"
proof -
  have "dropWhile py_isspace (sp @ CHR ''='' # s) = CHR ''='' # s" using assms(2) by (induction sp) auto
  then show ?thesis by (simp add: assigns_def startswith_prefix)
qed

lemma new_line_matches: "good_key key \<Longrightarrow> line_matches key (new_line key v)"
  using assigns_key[of key "[]"] key_append_lstrip[of key "CHR ''='' # quote_value v @ [LF]"]
  by (simp add: line_matches_def new_line_def)

lemma new_line_full:
  assumes "good_key key" "no_break v"
  shows "full_line (new_line key v)"
proof -
  have "no_break (escape_char c)" if "\<not> is_break c" for c
    using that by (auto simp: escape_char_def BSLASH_def SQUOTE_def is_break_def)
  then have "no_break (concat (map escape_char v))" using assms(2) by (induction v) auto
  moreover have "\<not> is_break SQUOTE" "\<not> is_break (CHR ''='')" by (simp_all add: SQUOTE_def is_break_def)
  moreover have "no_break key"
    using assms(1) key_char_facts by (auto simp: good_key_def no_break_def list_all_iff)
  ultimately have "no_break (key @ ''='' @ quote_value v)" using assms(2) by (auto simp: quote_value_def)
  then show ?thesis
    unfolding full_line_def new_line_def by (intro exI[of _ "key @ ''='' @ quote_value v"]) simp
qed

section \<open>The lines after an edit\<close>

lemma edit_lines_facts:
  assumes "pat new"
  shows "filter (\<lambda>l. \<not> pat l) (fst (edit_lines pat new d ls)) = filter (\<lambda>l. \<not> pat l) ls \<and>
    filter pat (fst (edit_lines pat new d ls)) = (if \<not> d \<and> (\<exists>l\<in>set ls. pat l) then [new] else []) \<and>
    snd (edit_lines pat new d ls) = (d \<or> (\<exists>l\<in>set ls. pat l))"
  using assms by (induction pat new d ls rule: edit_lines.induct) (auto split: prod.splits)

lemma edit_lines_id:
  "filter pat ls = [] \<Longrightarrow> edit_lines pat new d ls = (ls, d)"
  "filter pat ls = [new] \<Longrightarrow> edit_lines pat new False ls = (ls, True)"
proof -
  show 1: "filter pat ls = [] \<Longrightarrow> edit_lines pat new d ls = (ls, d)" for ls d
    by (induction ls) (auto split: if_splits)
  show "filter pat ls = [new] \<Longrightarrow> edit_lines pat new False ls = (ls, True)"
    by (induction ls) (auto simp: 1 split: if_splits)
qed

lemma edit_lines_ok: "lines_ok ls \<Longrightarrow> full_line new \<Longrightarrow> lines_ok (fst (edit_lines pat new d ls))"
  by (induction pat new d ls rule: edit_lines.induct) (auto simp: lines_ok_Cons split: prod.splits)

lemma lines_ok_append: "list_all full_line xs \<Longrightarrow> lines_ok ys \<Longrightarrow> lines_ok (xs @ ys)"
  by (induction xs) (auto simp: lines_ok_Cons)

lemma end_last_line_Cons: "ls \<noteq> [] \<Longrightarrow> end_last_line (l # ls) = l # end_last_line ls"
  by (auto simp: end_last_line_def)

lemma open_not_LF: "open_line l \<Longrightarrow> last l \<noteq> LF"
  using last_in_set[of l] LF_break(1) by (force simp: open_line_def no_break_def list_all_iff simp del: LF_break)

lemma end_last_line_full: "lines_ok ls \<Longrightarrow> list_all full_line (end_last_line ls)"
proof (induction ls)
  case (Cons l ls)
  show ?case
  proof (cases "ls = []")
    case True
    then show ?thesis
      using Cons.prems open_not_LF[of l] by (auto simp: end_last_line_def full_line_def open_line_def lines_ok_Cons)
  next
    case False
    then show ?thesis using Cons by (auto simp: end_last_line_Cons lines_ok_Cons)
  qed
qed (simp add: end_last_line_def)

lemma end_last_line_bodies: "lines_ok ls \<Longrightarrow> map strip_break (end_last_line ls) = map strip_break ls"
proof (induction ls)
  case (Cons l ls)
  show ?case
  proof (cases "ls = []")
    case True
    then show ?thesis
      using Cons.prems by (auto simp: end_last_line_def lines_ok_Cons full_line_def open_line_def strip_break_open)
  next
    case False
    then show ?thesis using Cons by (auto simp: end_last_line_Cons lines_ok_Cons)
  qed
qed (simp add: end_last_line_def)

lemma end_last_line_pat:
  "good_key key \<Longrightarrow> filter (line_matches key) ls = [] \<Longrightarrow> filter (line_matches key) (end_last_line ls) = []"
proof (induction ls)
  case (Cons l ls)
  show ?case
  proof (cases "ls = []")
    case True
    then show ?thesis using Cons.prems by (auto simp: end_last_line_def line_matches_snoc split: if_splits)
  next
    case False
    then show ?thesis using Cons by (auto simp: end_last_line_Cons split: if_splits)
  qed
qed (simp add: end_last_line_def)

text \<open>Everything an edit does, in terms of the lines before and after.\<close>

definition other_lines :: "string \<Rightarrow> string \<Rightarrow> string list" where
  "other_lines key text = map strip_break (filter (\<lambda>l. \<not> line_matches key l) (splitlines_keep text))"

definition own_lines :: "string \<Rightarrow> string \<Rightarrow> string list" where
  "own_lines key text = filter (line_matches key) (splitlines_keep text)"

lemma filter_none_other: "filter P ls = [] \<Longrightarrow> filter (\<lambda>l. \<not> P l) ls = ls"
  by (auto simp: filter_empty_conv filter_id_conv)

lemma edit_lines_result:
  assumes k: "good_key key" and t: "plain_text text" and v: "no_break (case val of None \<Rightarrow> [] | Some v \<Rightarrow> v)"
  shows "\<exists>ls. edit_config text key val = concat ls \<and> lines_ok ls \<and>
     map strip_break (filter (\<lambda>l. \<not> line_matches key l) ls) = other_lines key text \<and>
     filter (line_matches key) ls = (case val of None \<Rightarrow> [] | Some v \<Rightarrow> [new_line key v])"
proof -
  let ?v = "case val of None \<Rightarrow> [] | Some v \<Rightarrow> v"
  let ?pat = "line_matches key" and ?new = "new_line key ?v" and ?ls = "splitlines_keep text"
  let ?e = "edit_lines ?pat ?new (val = None) ?ls"
  have ok: "lines_ok ?ls" by (rule splitlines_lines_ok[OF t])
  have n: "?pat ?new" "full_line ?new" by (rule new_line_matches[OF k], rule new_line_full[OF k v])
  note f = edit_lines_facts[where pat = ?pat, OF n(1), of "val = None" ?ls]
  have e: "edit_config text key val = concat (if snd ?e then fst ?e else end_last_line (fst ?e) @ [?new])"
    by (simp add: edit_config_def new_line_def Let_def split_beta)
  show ?thesis
  proof (cases "snd ?e")
    case True
    then have "filter ?pat (fst ?e) = (case val of None \<Rightarrow> [] | Some v \<Rightarrow> [new_line key v])"
      using f by (auto split: option.splits)
    then show ?thesis
      using True e f edit_lines_ok[OF ok n(2)] by (auto simp: other_lines_def)
  next
    case False
    then have v1: "val \<noteq> None" and none: "filter ?pat ?ls = []" using f by (auto simp: filter_empty_conv)
    then have fe: "fst ?e = ?ls" by (simp add: edit_lines_id(1))
    let ?out = "end_last_line ?ls"
    have o: "filter ?pat ?out = []" by (rule end_last_line_pat[OF k none])
    have "map strip_break (filter (\<lambda>l. \<not> ?pat l) (?out @ [?new])) = other_lines key text"
      using n(1) end_last_line_bodies[OF ok] by (simp add: filter_none_other[OF o] filter_none_other[OF none] other_lines_def)
    moreover have "filter ?pat (?out @ [?new]) = (case val of None \<Rightarrow> [] | Some v \<Rightarrow> [new_line key v])"
      using v1 o n(1) by auto
    moreover have "lines_ok (?out @ [?new])"
      by (rule lines_ok_append[OF end_last_line_full[OF ok]]) (simp add: n(2))
    ultimately show ?thesis using False e fe by (intro exI[of _ "?out @ [?new]"]) simp
  qed
qed

lemma edit_again:
  assumes "edit_config text key val = concat ls" "lines_ok ls"
    "filter (line_matches key) ls = (case val of None \<Rightarrow> [] | Some v \<Rightarrow> [new_line key v])"
  shows "edit_config (concat ls) key val = concat ls"
  using assms(3) splitlines_concat[OF assms(2)]
  by (cases val) (simp_all add: edit_config_def edit_lines_id new_line_def[symmetric] Let_def, simp add: new_line_def edit_lines_id)



section \<open>Reading back\<close>

text \<open>
  The values the reader of \<open>cli/api.py\<close> gives back as they were written: no backslash, no single quote and no double
  quote at either end.
\<close>

definition readable_value :: "string \<Rightarrow> bool" where
  "readable_value v \<longleftrightarrow>
     BSLASH \<notin> set v \<and> SQUOTE \<notin> set v \<and> (v = [] \<or> (hd v \<noteq> CHR 0x22 \<and> last v \<noteq> CHR 0x22))"

lemma universal_newlines_id: "CR \<notin> set s \<Longrightarrow> universal_newlines s = s"
  by (induction s) auto

lemma rstrip_decomp: "\<exists>sp. s = rstrip s @ sp \<and> list_all py_isspace sp"
proof -
  have "rev s = takeWhile py_isspace (rev s) @ dropWhile py_isspace (rev s)" by simp
  then have "s = rev (dropWhile py_isspace (rev s)) @ rev (takeWhile py_isspace (rev s))"
    by (metis rev_append rev_rev_ident)
  then show ?thesis
    by (intro exI[of _ "rev (takeWhile py_isspace (rev s))"]) (auto simp: rstrip_def list_all_iff dest: set_takeWhileD)
qed

lemma strip_no_space:
  assumes "s \<noteq> []" "\<not> py_isspace (hd s)" "\<not> py_isspace (last s)"
  shows "strip s = s"
proof -
  have "lstrip s = s" using assms by (cases s) (simp_all add: lstrip_def)
  moreover have "dropWhile py_isspace (rev s) = rev s"
    using assms by (cases "rev s") (simp_all add: hd_rev[symmetric])
  ultimately show ?thesis by (simp add: strip_def rstrip_def)
qed

lemma takeWhile_head: "takeWhile P s \<noteq> [] \<Longrightarrow> hd (takeWhile P s) = hd s"
  by (cases s) auto

text \<open>A line that gives the reader a value for a setting is one the pattern of the editor matches.\<close>

lemma env_line_matches:
  assumes k: "good_key key" and e: "env_line l = Some (key, w)"
  shows "line_matches key l"
proof -
  let ?line = "strip l" and ?T = "takeWhile (\<lambda>c. c \<noteq> CHR ''='') (strip l)"
  have l: "?line \<noteq> []" "CHR ''='' \<in> set ?line" "strip ?T = key"
    using e by (auto simp: env_line_def Let_def split: if_splits)
  obtain sp where sp: "lstrip l = ?line @ sp" "list_all py_isspace sp"
    using rstrip_decomp[of "lstrip l"] by (auto simp: strip_def)
  have "lstrip l \<noteq> []" using l(1) by (auto simp: strip_def rstrip_def)
  then have h: "\<not> py_isspace (hd (lstrip l))" using hd_dropWhile[of py_isspace l] by (simp add: lstrip_def)
  have T: "?T \<noteq> []" using l(3) k by (auto simp: good_key_def)
  have "hd ?T = hd (lstrip l)" using takeWhile_head[OF T] sp(1) l(1) by simp
  then have "lstrip ?T = ?T" using T h by (cases ?T) (auto simp: lstrip_def)
  then obtain sp2 where sp2: "?T = key @ sp2" "list_all py_isspace sp2"
    using rstrip_decomp[of ?T] l(3) by (auto simp: strip_def)
  have "?line = ?T @ dropWhile (\<lambda>c. c \<noteq> CHR ''='') ?line" by simp
  moreover obtain r where "dropWhile (\<lambda>c. c \<noteq> CHR ''='') ?line = CHR ''='' # r"
    using l(2) hd_dropWhile[of "\<lambda>c. c \<noteq> CHR ''=''" ?line]
    by (cases "dropWhile (\<lambda>c. c \<noteq> CHR ''='') ?line") auto
  ultimately have "lstrip l = key @ sp2 @ CHR ''='' # (r @ sp)" using sp(1) sp2(1) by simp
  then have "assigns key (lstrip l)" using assigns_key[OF k sp2(2)] by simp
  then show ?thesis by (simp add: line_matches_def Let_def)
qed

lemma bare_char_facts:
  "bare_char c \<Longrightarrow> \<not> py_isspace c \<and> c \<noteq> CHR 0x22 \<and> c \<noteq> CHR 0x27"
  by (auto simp: bare_char_def py_isspace_def Let_def)

lemma strip_quotes_id:
  assumes "v = [] \<or> (hd v \<notin> set cs \<and> last v \<notin> set cs)"
  shows "strip_chars cs v = v"
proof -
  have "dropWhile (\<lambda>c. c \<in> set cs) v = v" using assms by (cases v) auto
  moreover have "dropWhile (\<lambda>c. c \<in> set cs) (rev v) = rev v"
    using assms by (cases "rev v") (auto simp: hd_rev[symmetric])
  ultimately show ?thesis by (simp add: strip_chars_def)
qed

lemma strip_quotes_quoted:
  assumes "v = [] \<or> (hd v \<notin> set QUOTE_CHARS \<and> last v \<notin> set QUOTE_CHARS)"
  shows "strip_chars QUOTE_CHARS ([SQUOTE] @ v @ [SQUOTE]) = v"
proof (cases "v = []")
  case True
  then show ?thesis by (simp add: strip_chars_def QUOTE_CHARS_def SQUOTE_def)
next
  case False
  have q: "SQUOTE \<in> set QUOTE_CHARS" by (simp add: QUOTE_CHARS_def SQUOTE_def)
  have 1: "dropWhile (\<lambda>c. c \<in> set QUOTE_CHARS) ([SQUOTE] @ v @ [SQUOTE]) = v @ [SQUOTE]"
    using q assms False by (cases v) auto
  have 2: "dropWhile (\<lambda>c. c \<in> set QUOTE_CHARS) (rev v) = rev v"
    using assms False by (cases "rev v") (auto simp: hd_rev[symmetric])
  show ?thesis using q unfolding strip_chars_def 1 by (simp add: 2)
qed

lemma escape_plain: "BSLASH \<notin> set v \<Longrightarrow> SQUOTE \<notin> set v \<Longrightarrow> concat (map escape_char v) = v"
  by (induction v) (auto simp: escape_char_def)

lemma SQUOTE_not_space [simp]: "\<not> py_isspace SQUOTE"
  by (simp add: SQUOTE_def py_isspace_def)

lemma env_line_new:
  assumes k: "good_key key" and v: "readable_value v"
  shows "env_line (key @ ''='' @ quote_value v) = Some (key, v)"
proof -
  let ?q = "quote_value v"
  have kc: "key \<noteq> []" "\<not> py_isspace (hd key)" "hd key \<noteq> CHR ''#''" "CHR ''='' \<notin> set key" "\<not> py_isspace (last key)"
    using k key_char_facts hd_in_set[of key] last_in_set[of key] by (auto simp: good_key_def list_all_iff)
  have q: "strip ?q = ?q \<and> (?q = [] \<or> \<not> py_isspace (last ?q)) \<and> strip_chars QUOTE_CHARS ?q = v \<and> ?q \<noteq> []"
  proof (cases "v \<noteq> [] \<and> list_all bare_char v")
    case True
    then have "bare_char (hd v)" "bare_char (last v)" by (auto simp: list_all_iff)
    then show ?thesis
      using True strip_no_space[where s = v] strip_quotes_id[where v = v and cs = QUOTE_CHARS] bare_char_facts
      by (auto simp: quote_value_def QUOTE_CHARS_def)
  next
    case False
    then have e: "?q = [SQUOTE] @ v @ [SQUOTE]" using v by (auto simp: quote_value_def readable_value_def escape_plain)
    have "v = [] \<or> (hd v \<notin> set QUOTE_CHARS \<and> last v \<notin> set QUOTE_CHARS)"
    proof (cases "v = []")
      case ne: False
      then have "hd v \<noteq> SQUOTE" "last v \<noteq> SQUOTE"
        using v hd_in_set[OF ne] last_in_set[OF ne] by (metis readable_value_def)+
      then show ?thesis using v ne by (auto simp: readable_value_def QUOTE_CHARS_def SQUOTE_def)
    qed simp
    note s = strip_quotes_quoted[OF this]
    have "strip ([SQUOTE] @ v @ [SQUOTE]) = [SQUOTE] @ v @ [SQUOTE]" by (rule strip_no_space) simp_all
    then show ?thesis using s e by simp
  qed
  have s: "strip (key @ ''='' @ ?q) = key @ ''='' @ ?q"
    using kc q by (intro strip_no_space) auto
  have n: "\<not> startswith (key @ ''='' @ ?q) ''#''" using kc by (cases key) (auto simp: startswith_def)
  have t: "takeWhile (\<lambda>c. c \<noteq> CHR ''='') (key @ ''='' @ ?q) = key" "dropWhile (\<lambda>c. c \<noteq> CHR ''='') (key @ ''='' @ ?q) = CHR ''='' # ?q"
    using split_at_char(1,2)[OF kc(4)] by simp_all
  have "strip key = key" using kc by (intro strip_no_space) auto
  then show ?thesis
    unfolding env_line_def Let_def s t using n q kc(1) by simp
qed

lemma env_fold_lookup:
  assumes "\<And>w. (k, w) \<in> set xs \<Longrightarrow> w = v" "k \<in> fst ` set xs \<or> map_of m k = Some v"
  shows "map_of (foldl (\<lambda>m (k, v). dput k v m) m xs) k = Some v"
  using assms
proof (induction xs arbitrary: m)
  case (Cons x xs)
  obtain a b where x: "x = (a, b)" by (cases x)
  have "map_of (foldl (\<lambda>m (k, v). dput k v m) (dput a b m) xs) k = Some v"
    by (rule Cons.IH) (use Cons.prems x in auto)
  then show ?case by (simp add: x)
qed simp

lemma strip_break_matches:
  assumes "good_key key" "full_line l \<or> open_line l"
  shows "line_matches key (strip_break l) \<longleftrightarrow> line_matches key l"
  using assms(2)
proof
  assume "full_line l"
  then obtain b where "l = b @ [LF]" "no_break b" by (auto simp: full_line_def)
  then show ?thesis by (simp add: line_matches_snoc[OF assms(1)])
qed (simp add: strip_break_open)

lemma lines_ok_member: "lines_ok ls \<Longrightarrow> l \<in> set ls \<Longrightarrow> full_line l \<or> open_line l"
  by (induction ls) (auto simp: lines_ok_Cons)

lemma edited_lookup:
  assumes k: "good_key key" and t: "plain_text text" and b: "no_break v" and v: "readable_value v"
  shows "map_of (read_env_text (edit_config text key (Some v))) key = Some v"
proof -
  obtain ls where ls: "edit_config text key (Some v) = concat ls" "lines_ok ls" "filter (line_matches key) ls = [new_line key v]"
    using edit_lines_result[OF k t, of "Some v"] b by auto
  have sb: "strip_break (new_line key v) = key @ ''='' @ quote_value v"
  proof -
    obtain c where c: "new_line key v = c @ [LF]" "no_break c"
      using new_line_full[OF k b] by (auto simp: full_line_def)
    then have "c = key @ ''='' @ quote_value v" by (simp add: new_line_def)
    then show ?thesis using strip_break_full[OF c(2)] by (simp only: c(1))
  qed
  have s: "splitlines (concat ls) = map strip_break ls" by (simp add: splitlines_def splitlines_concat[OF ls(2)])
  have only: "w = v" if "(key, w) \<in> set (List.map_filter env_line (map strip_break ls))" for w
  proof -
    from that obtain l where l: "l \<in> set ls" "env_line (strip_break l) = Some (key, w)"
      by (auto simp: List.map_filter_def split: option.splits)
    have "line_matches key l"
      using env_line_matches[OF k l(2)] strip_break_matches[OF k lines_ok_member[OF ls(2) l(1)]] by simp
    then have "l \<in> set (filter (line_matches key) ls)" using l(1) by simp
    then have "l = new_line key v" using ls(3) by simp
    then show "w = v" using l(2) env_line_new[OF k v] by (simp add: sb)
  qed
  have "new_line key v \<in> set ls" using ls(3) 
  proof -
    have "new_line key v \<in> set (filter (line_matches key) ls)" using ls(3) by simp
    then show ?thesis by simp
  qed
  then have "(key, v) \<in> set (List.map_filter env_line (map strip_break ls))"
    using env_line_new[OF k v] sb by (force simp: List.map_filter_def)
  then have "key \<in> fst ` set (List.map_filter env_line (map strip_break ls))" by force
  then show ?thesis unfolding ls(1) read_env_text_def s by (intro env_fold_lookup) (use only in auto)
qed

lemma plain_text_no_CR: "plain_text s \<Longrightarrow> CR \<notin> set s"
  using LF_break by (auto simp: plain_text_def list_all_iff)



text \<open>
  The defects: a value with a quote comes back with the backslash of the writer, and a value that spans lines for dotenv (a
  quoted one, or one with a form feed) leaves its tail in the file when it is unset.
\<close>

lemma quoted_token_misread:
  "map_of (read_env_text (edit_config [] ''ADMIN_TOKEN'' (Some (''a'' @ [SQUOTE] @ ''b'')))) ''ADMIN_TOKEN'' =
     Some (''a'' @ [BSLASH, SQUOTE] @ ''b'')"
  by code_simp

lemma unset_leaves_tail:
  "edit_config (edit_config [] ''TTS_TOKEN'' (Some (''a'' @ [CHR 0x0C] @ ''bc''))) ''TTS_TOKEN'' None = ''bc'' @ [SQUOTE, LF]"
proof -
  have k: "good_key ''TTS_TOKEN''" by (simp add: good_key_def key_char_def)
  have b: "\<not> is_break c" if "c \<in> {CHR ''a'', CHR ''b'', CHR ''c'', SQUOTE, CHR ''T'', CHR ''S'', CHR ''_'', CHR ''O'', CHR ''K'', CHR ''E'', CHR ''N'', CHR ''=''}" for c
    using that by (auto simp: is_break_def SQUOTE_def)
  have f: "is_break (CHR 0x0C)" "\<not> bare_char (CHR 0x0C)" by (simp_all add: is_break_def bare_char_def)
  have e: "edit_config [] ''TTS_TOKEN'' (Some (''a'' @ [CHR 0x0C] @ ''bc'')) =
      (''TTS_TOKEN='' @ [SQUOTE] @ ''a'' @ [CHR 0x0C]) @ ''bc'' @ [SQUOTE, LF]"
    using f by (simp add: edit_config_def quote_value_def escape_char_def end_last_line_def SQUOTE_def BSLASH_def)
  have s: "splitlines_keep ((''TTS_TOKEN='' @ [SQUOTE] @ ''a'' @ [CHR 0x0C]) @ ''bc'' @ [SQUOTE, LF]) =
      [''TTS_TOKEN='' @ [SQUOTE] @ ''a'' @ [CHR 0x0C], ''bc'' @ [SQUOTE, LF]]"
    using b f by (simp add: CR_def)
  have m: "line_matches ''TTS_TOKEN'' (''TTS_TOKEN='' @ [SQUOTE] @ ''a'' @ [CHR 0x0C])"
    using assigns_key[OF k, of "[]"] key_append_lstrip[OF k, of "CHR ''='' # [SQUOTE] @ ''a'' @ [CHR 0x0C]"]
    by (simp add: line_matches_def)
  have n: "\<not> line_matches ''TTS_TOKEN'' (''bc'' @ [SQUOTE, LF])"
    by (simp add: line_matches_def assigns_def lstrip_def py_isspace_def lower_def ascii_lower_def startswith_def)
  show ?thesis unfolding e unfolding edit_config_def s using m n by simp
qed

section \<open>All or nothing\<close>

lemma fails_ok:
  "fails mk dotenv environ key text = (names, []) \<Longrightarrow>
   \<exists>s. mk (filter (\<lambda>(n, _). upper n \<noteq> key) environ) (Some text) = Built s \<and> names = failing s"
  by (auto simp: fails_def load_def Let_def validation_errors_def settings_error_def split: built.splits)

text \<open>
  C27: An edit of the configuration is all or nothing: the file changes only when the command says so, and then to the
  edited text, which dotenv reads back with the value set, builds valid settings without that variable of the shell, and
  fails no check that the old text did not fail, so a set or an unset never breaks the next start of the speech providers; refused or
  crashed anywhere it leaves the file as it was, and the temporary is gone in every case.
\<close>

theorem apply_all_or_nothing:
  assumes "apply_edit mk dotenv environ io_write io_replace key val fs = (res, fs')" and "cf_tmp fs = None"
  shows "cf_tmp fs' = None \<and>
    (if res = Written
     then \<exists>raw new. cf_config fs = Text raw \<and> cf_config fs' = Text new \<and>
       new = edit_config (universal_newlines raw) key val \<and>
       (val \<noteq> None \<longrightarrow> map_of (rev (dotenv new)) key = Some val) \<and>
       (\<exists>s. mk (filter (\<lambda>(n, _). upper n \<noteq> key) environ) (Some new) = Built s \<and>
          set (failing s) \<subseteq> set (fst (fails mk dotenv environ key raw)) \<and>
          (\<forall>f. check_speech_settings s (STT_PROVIDER s) (TTS_PROVIDER s) = Some f \<longrightarrow>
             f \<in> set (fst (fails mk dotenv environ key raw))))
     else cf_config fs' = cf_config fs)"
proof (cases "res = Written")
  case True
  obtain raw where raw: "cf_config fs = Text raw"
    using assms True by (auto simp: apply_edit_def split: file_text.splits)
  let ?new = "edit_config (universal_newlines raw) key val"
  obtain before eb where before: "fails mk dotenv environ key raw = (before, eb)"
    by (cases "fails mk dotenv environ key raw")
  obtain after errors where after: "fails mk dotenv environ key ?new = (after, errors)"
    by (cases "fails mk dotenv environ key ?new")
  have w: "errors = []" "filter (\<lambda>c. c \<notin> set before) after = []"
      "val \<noteq> None \<longrightarrow> map_of (rev (dotenv ?new)) key = Some val" "cf_config fs' = Text ?new" "cf_tmp fs' = None"
    using assms True by (auto simp: apply_edit_def raw before after Let_def split: if_splits option.splits)
  obtain s where s: "mk (filter (\<lambda>(n, _). upper n \<noteq> key) environ) (Some ?new) = Built s" "after = failing s"
    using fails_ok[OF after[unfolded w(1)]] by blast
  have sub: "set (failing s) \<subseteq> set before" using w(2) s(2) by (auto simp: filter_empty_conv)
  have "check_speech_settings s (STT_PROVIDER s) (TTS_PROVIDER s) = Some f \<Longrightarrow> f \<in> set (failing s)" for f
    by (force simp: failing_def validation_checks_def)
  then show ?thesis using True raw w s sub before by auto
next
  case False
  then show ?thesis using assms
    by (auto simp: apply_edit_def Let_def split: file_text.splits if_splits option.splits prod.splits)
qed

lemma not_written: "fst (apply_edit mk dotenv environ io_write (Some e) key val fs) \<noteq> Written"
  by (auto simp: apply_edit_def Let_def split: file_text.splits option.splits prod.splits)

theorem apply_all_or_nothing_witness:
  "let mk = (\<lambda>_ _. Built (default_settings [])); dotenv = (\<lambda>_. [(''TTS_TOKEN'', Some ''abc'')]);
       fs = \<lparr>cf_config = Text ''A=1'', cf_tmp = None\<rparr> in
   cf_config (snd (apply_edit mk dotenv [] None (Some (OtherError ''OSError'')) ''TTS_TOKEN'' (Some ''abc'') fs)) = Text ''A=1''"
proof -
  let ?r = "apply_edit (\<lambda>_ _. Built (default_settings [])) (\<lambda>_. [(''TTS_TOKEN'', Some ''abc'')]) [] None
    (Some (OtherError ''OSError'')) ''TTS_TOKEN'' (Some ''abc'') \<lparr>cf_config = Text ''A=1'', cf_tmp = None\<rparr>"
  have "fst ?r \<noteq> Written" by (rule not_written)
  then show ?thesis
    using apply_all_or_nothing[of "\<lambda>_ _. Built (default_settings [])" "\<lambda>_. [(''TTS_TOKEN'', Some ''abc'')]" "[]" None
      "Some (OtherError ''OSError'')" "''TTS_TOKEN''" "Some ''abc''" "\<lparr>cf_config = Text ''A=1'', cf_tmp = None\<rparr>" "fst ?r" "snd ?r"]
    by simp
qed

section \<open>Secrets\<close>

definition SECRETS :: "string list" where
  "SECRETS = [''ADMIN_TOKEN'', ''TRANSCRIBER_TOKEN'', ''TTS_TOKEN'', ''ELEVENLABS_API_KEY'', ''OPENCLAW_TOKEN'']"

lemma secrets_names: "n \<in> set SECRETS \<Longrightarrow> (endswith n ''_TOKEN'' \<or> endswith n ''_KEY'') \<and> upper n = n"
  by (auto simp: SECRETS_def endswith_def startswith_def upper_def)

lemma fields_names: "fst ` set (field_values s) = set FIELDS"
  by (simp add: FIELDS_def field_values_def)

lemma secrets_fields: "set SECRETS \<subseteq> set FIELDS"
  by (simp add: SECRETS_def FIELDS_def field_values_def)

lemma shown_secret: "is_secret n v \<Longrightarrow> shown n v \<in> {Mask_Set, Mask_Empty}"
  by (simp add: shown_def)

text \<open>
  No command shows a secret: what is shown of a setting that is one depends only on whether it is empty, and \<open>set\<close> takes a
  secret from no argument, whatever it says.
\<close>

theorem secrets_not_shown:
  "(is_secret name v \<longrightarrow> shown name v = (if cfg_truthy v then Mask_Set else Mask_Empty)) \<and>
   (n \<in> {''ADMIN_TOKEN'', ''TRANSCRIBER_TOKEN'', ''TTS_TOKEN'', ''ELEVENLABS_API_KEY'', ''OPENCLAW_TOKEN''} \<longrightarrow>
      shown_field s n \<in> {Mask_Set, Mask_Empty} \<and>
      (val \<noteq> None \<and> val \<noteq> Some ''-'' \<longrightarrow> set_value near input n val = Inl (2, Secret_As_Argument n)))"
proof (intro conjI impI)
  show "is_secret name v \<Longrightarrow> shown name v = (if cfg_truthy v then Mask_Set else Mask_Empty)"
    by (simp add: shown_def)
next
  assume n: "n \<in> {''ADMIN_TOKEN'', ''TRANSCRIBER_TOKEN'', ''TTS_TOKEN'', ''ELEVENLABS_API_KEY'', ''OPENCLAW_TOKEN''}"
  then have n1: "n \<in> set SECRETS" unfolding SECRETS_def by simp
  then have f: "n \<in> set FIELDS" using secrets_fields by blast
  have e: "endswith n ''_TOKEN'' \<or> endswith n ''_KEY''" and u: "upper n = n" using secrets_names[OF n1] by blast+
  then have sec: "is_secret n v" for v by (auto simp: is_secret_def)
  have "map_of (field_values s) n \<noteq> None" using f by (simp add: map_of_eq_None_iff fields_names)
  then show "shown_field s n \<in> {Mask_Set, Mask_Empty}"
    using shown_secret[OF sec] by (auto simp: shown_field_def split: option.split)
  show "set_value near input n val = Inl (2, Secret_As_Argument n)" if "val \<noteq> None \<and> val \<noteq> Some ''-''"
    using that by (simp add: set_value_def resolve_name_def u f sec Let_def)
qed

theorem secrets_not_shown_witness:
  "shown_field ((default_settings [])\<lparr>OPENCLAW_TOKEN := ''hunter2''\<rparr>) ''OPENCLAW_TOKEN'' \<in> {Mask_Set, Mask_Empty} \<and>
   shown ''ADMIN_TOKEN'' (CStr ''a'') = shown ''ADMIN_TOKEN'' (CStr ''b'')"
proof -
  have "is_secret ''ADMIN_TOKEN'' v" for v by (simp add: is_secret_def endswith_def startswith_def)
  then have "shown ''ADMIN_TOKEN'' (CStr x) = (if x \<noteq> [] then Mask_Set else Mask_Empty)" for x
    using secrets_not_shown[where name = "''ADMIN_TOKEN''" and v = "CStr x"] by (simp add: cfg_truthy_def)
  moreover have "shown_field ((default_settings [])\<lparr>OPENCLAW_TOKEN := ''hunter2''\<rparr>) ''OPENCLAW_TOKEN'' \<in> {Mask_Set, Mask_Empty}"
    by (rule secrets_not_shown[where n = "''OPENCLAW_TOKEN''", THEN conjunct2, THEN mp, THEN conjunct1]) simp
  ultimately show ?thesis by simp
qed

text \<open>The mask of a URL misses a password with a slash, which SQLAlchemy accepts: it is shown in full.\<close>

lemma url_password_shown:
  "mask_url_password ''pg://u:pa/ss@h/db'' = Shown (CStr ''pg://u:pa/ss@h/db'')"
  "mask_url_password ''pg://u:pass@h/db'' = Shown_Url ''pg://u'' ''h/db''"
  by (simp_all add: mask_url_password_def url_netloc_def url_cleaned_def scheme_ok_def split_userinfo_def
      startswith_def py_digit_def Let_def)

end
