(* ===== verification/Cli_Migrate.thy ===== *)
theory Cli_Migrate
  imports Cli_Config_Edit
begin

text \<open>
  \<open>cli/migrate.py\<close>: the copy of a Docker installation to the native one. The state is the destination: its two
  directories and the files the command may make there. What the source has and how each operation on files or
  SQLite ends are arguments. The source is only read.
\<close>

section \<open>The environment file\<close>

definition DROP :: "string list" where
  "DROP = [''DATABASE_URL'', ''GATEWAY_UID'', ''GATEWAY_GID'']"

definition DOCKER_BASE :: string where "DOCKER_BASE = ''/app''"

definition ADD_KEY :: string where "ADD_KEY = ''LOG_FORMAT''"

definition ADD_LINE :: string where "ADD_LINE = ''LOG_FORMAT=json''"

definition drops :: "string \<Rightarrow> bool" where
  "drops line \<longleftrightarrow> list_ex (\<lambda>k. line_matches k line) DROP"

text \<open>The name as the line has it: group 1 of the pattern.\<close>

definition dropped_name :: "string \<Rightarrow> string" where
  "dropped_name line =
     (let s = lstrip line; r = lstrip (drop 6 s);
          exported = startswith (lower s) ''export'' \<and> drop 6 s \<noteq> [] \<and> py_isspace (hd (drop 6 s)) in
      case find (\<lambda>k. exported \<and> assigns k r) DROP of
        Some k \<Rightarrow> take (length k) r
      | None \<Rightarrow> (case find (\<lambda>k. assigns k s) DROP of Some k \<Rightarrow> take (length k) s | None \<Rightarrow> []))"

definition convert_env :: "string \<Rightarrow> string \<times> string list \<times> string list" where
  "convert_env text =
     (let ls = splitlines_keep text;
          dropped = map dropped_name (filter drops ls);
          kept = filter (\<lambda>l. \<not> drops l) ls in
      if list_ex (line_matches ADD_KEY) kept then (concat kept, dropped, [])
      else (concat (end_last_line kept @ [ADD_LINE @ [LF]]), dropped, [ADD_LINE]))"

datatype migrate_msg =
    No_Installation string | Already_Installed | Docker_Running | Cannot_Read_Env | Not_Utf8 | Wrong_Database
  | Bad_Revision nat | No_Head | Other_Revision string string | Copy_Damaged | Copy_Differs
  | Config_Invalid "string list" | Migration_Failed

type_synonym migrate_error = "nat \<times> migrate_msg"

definition check_database_url ::
  "(string \<Rightarrow> (string \<times> string option) list) \<Rightarrow> (string \<Rightarrow> string) \<Rightarrow> (string \<Rightarrow> string) \<Rightarrow> string \<Rightarrow> migrate_error option" where
  "check_database_url dotenv quote unquote text =
     (case map_of (rev (dotenv text)) ''DATABASE_URL'' of
        Some (Some url) \<Rightarrow>
          if url = [] \<or> sqlite_file quote unquote DOCKER_BASE url = Some (DOCKER_BASE @ ''/data/gateway.db'') then None
          else Some (1, Wrong_Database)
      | _ \<Rightarrow> None)"

section \<open>The migration\<close>

record database =
  db_revision :: "string list"
  db_clients :: "string list"

record mig_fs =
  mf_base :: bool
  mf_data :: bool
  mf_config :: "string option"
  mf_db :: "database option"
  mf_tmp_config :: "string option"
  mf_tmp_db :: "database option"
  mf_side :: bool

text \<open>What the source has, with the last revision the package knows.\<close>

datatype env_source = Env_Missing | Env_Unreadable | Env_Not_Utf8 | Env_Text string

record mig_source =
  ms_env :: env_source
  ms_db :: "database option"
  ms_locked :: bool
  ms_head :: "string option"

text \<open>
  The steps that can fail with an SQLite or \<open>OSError\<close> (\<open>IO\<close>) or with anything else (an interrupt, say), each with what it
  leaves behind; \<open>backup\<close> is the copy, with the result of the integrity check.
\<close>

datatype mig_fault = IO | Other exn

datatype mig_step = Read_Revision | Make_Dirs | Backup | Replace_Db | Write_Config | Replace_Config

datatype mig_result = Migrated "string list" "string list" string nat | Mig_Failed migrate_error | Mig_Raised exn

definition fault_result :: "mig_fault \<Rightarrow> mig_result" where
  "fault_result f = (case f of IO \<Rightarrow> Mig_Failed (1, Migration_Failed) | Other e \<Rightarrow> Mig_Raised e)"

text \<open>\<open>_source_revision\<close>: an error of SQLite is a message of its own.\<close>

definition source_revision :: "mig_fault option \<Rightarrow> database \<Rightarrow> mig_result + string" where
  "source_revision fault db =
     (case fault of
        Some IO \<Rightarrow> Inl (Mig_Failed (1, Bad_Revision 0))
      | Some (Other e) \<Rightarrow> Inl (Mig_Raised e)
      | None \<Rightarrow> (case db_revision db of [r] \<Rightarrow> Inr r | rs \<Rightarrow> Inl (Mig_Failed (1, Bad_Revision (length rs)))))"

definition read_env :: "env_source \<Rightarrow> migrate_error + string" where
  "read_env e =
     (case e of Env_Text t \<Rightarrow> Inr (universal_newlines t) | Env_Not_Utf8 \<Rightarrow> Inl (1, Not_Utf8) | _ \<Rightarrow> Inl (1, Cannot_Read_Env))"

text \<open>What is checked before anything is made: the text, the revision.\<close>

definition check_source ::
  "(string \<Rightarrow> (string \<times> string option) list) \<Rightarrow> (string \<Rightarrow> string) \<Rightarrow> (string \<Rightarrow> string) \<Rightarrow>
   (mig_step \<Rightarrow> mig_fault option) \<Rightarrow> mig_source \<Rightarrow> database \<Rightarrow> mig_result + string \<times> string" where
  "check_source dotenv quote unquote fault src db =
     (case read_env (ms_env src) of
        Inl e \<Rightarrow> Inl (Mig_Failed e)
      | Inr text \<Rightarrow>
          (case check_database_url dotenv quote unquote text of
             Some e \<Rightarrow> Inl (Mig_Failed e)
           | None \<Rightarrow>
               (case source_revision (fault Read_Revision) db of
                  Inl r \<Rightarrow> Inl r
                | Inr vers \<Rightarrow>
                    (case ms_head src of
                       None \<Rightarrow> Inl (Mig_Failed (1, No_Head))
                     | Some head \<Rightarrow>
                         if vers \<noteq> head then Inl (Mig_Failed (1, Other_Revision vers head)) else Inr (text, vers)))))"

text \<open>\<open>_copy_db\<close>: the copy is made in the temporary and moved only when it is sound and has the same clients.\<close>

definition copy_db ::
  "(mig_step \<Rightarrow> mig_fault option) \<Rightarrow> database \<times> bool \<Rightarrow> database \<Rightarrow> mig_fs \<Rightarrow> (mig_result + nat) \<times> mig_fs" where
  "copy_db fault backup db fs =
     (let (copy, sound) = backup; fs1 = fs\<lparr>mf_tmp_db := Some copy\<rparr> in
      case fault Backup of
        Some f \<Rightarrow> (Inl (fault_result f), fs1)
      | None \<Rightarrow>
          if \<not> sound then (Inl (Mig_Failed (1, Copy_Damaged)), fs1)
          else if db_clients copy \<noteq> db_clients db then (Inl (Mig_Failed (1, Copy_Differs)), fs1)
          else case fault Replace_Db of
            Some f \<Rightarrow> (Inl (fault_result f), fs1)
          | None \<Rightarrow> (Inr (length (db_clients db)), fs1\<lparr>mf_tmp_db := None, mf_db := Some copy\<rparr>))"

text \<open>\<open>_config_errors\<close>: the errors of the new file, without the variables of the shell it sets.\<close>

definition config_errors ::
  "(env \<Rightarrow> string option \<Rightarrow> built) \<Rightarrow> (string \<Rightarrow> (string \<times> string option) list) \<Rightarrow> env \<Rightarrow> string \<Rightarrow> string list" where
  "config_errors mk dotenv environ text =
     (let names = map (upper \<circ> fst) (dotenv text) in
      fst (snd (load mk dotenv (filter (\<lambda>(n, _). upper n \<notin> set names) environ) (Text text))))"

definition migrate_body ::
  "(env \<Rightarrow> string option \<Rightarrow> built) \<Rightarrow> (string \<Rightarrow> (string \<times> string option) list) \<Rightarrow> (string \<Rightarrow> string) \<Rightarrow> (string \<Rightarrow> string) \<Rightarrow>
   env \<Rightarrow> (mig_step \<Rightarrow> mig_fault option) \<Rightarrow> database \<times> bool \<Rightarrow> mig_source \<Rightarrow> database \<Rightarrow> mig_fs \<Rightarrow> mig_result \<times> mig_fs" where
  "migrate_body mk dotenv quote unquote environ fault backup src db fs =
     (case check_source dotenv quote unquote fault src db of
        Inl r \<Rightarrow> (r, fs)
      | Inr (text, vers) \<Rightarrow>
          (case fault Make_Dirs of
             Some f \<Rightarrow> (fault_result f, fs\<lparr>mf_base := True\<rparr>)
           | None \<Rightarrow>
               (case copy_db fault backup db (fs\<lparr>mf_base := True, mf_data := True\<rparr>) of
                  (Inl r, fs1) \<Rightarrow> (r, fs1)
                | (Inr clients, fs1) \<Rightarrow>
                    (let (new, dropped, added) = convert_env text; fs2 = fs1\<lparr>mf_tmp_config := Some new\<rparr> in
                     case fault Write_Config of
                       Some f \<Rightarrow> (fault_result f, fs2)
                     | None \<Rightarrow>
                         (case fault Replace_Config of
                            Some f \<Rightarrow> (fault_result f, fs2)
                          | None \<Rightarrow>
                              (let fs3 = fs2\<lparr>mf_tmp_config := None, mf_config := Some new\<rparr>;
                                   errors = config_errors mk dotenv environ new in
                               if errors \<noteq> [] then (Mig_Failed (1, Config_Invalid errors), fs3)
                               else (Migrated dropped added vers clients, fs3)))))))"

text \<open>
  The \<open>finally\<close>: without success the four files are removed and the directories this run made, unless something else is in
  them.
\<close>

definition mig_cleanup :: "mig_fs \<Rightarrow> mig_fs \<Rightarrow> mig_fs" where
  "mig_cleanup before fs =
     (let fs1 = fs\<lparr>mf_config := None, mf_db := None, mf_tmp_config := None, mf_tmp_db := None\<rparr>;
          data = (mf_data fs1 \<and> (mf_data before \<or> mf_side fs1));
          base = (mf_base fs1 \<and> (mf_base before \<or> data)) in
      fs1\<lparr>mf_data := data, mf_base := base\<rparr>)"

definition migrate ::
  "(env \<Rightarrow> string option \<Rightarrow> built) \<Rightarrow> (string \<Rightarrow> (string \<times> string option) list) \<Rightarrow> (string \<Rightarrow> string) \<Rightarrow> (string \<Rightarrow> string) \<Rightarrow>
   env \<Rightarrow> (mig_step \<Rightarrow> mig_fault option) \<Rightarrow> database \<times> bool \<Rightarrow> mig_source \<Rightarrow> mig_fs \<Rightarrow> mig_result \<times> mig_fs" where
  "migrate mk dotenv quote unquote environ fault backup src fs =
     (if ms_env src = Env_Missing then (Mig_Failed (1, No_Installation ''.env''), fs)
      else case ms_db src of
        None \<Rightarrow> (Mig_Failed (1, No_Installation ''data/gateway.db''), fs)
      | Some db \<Rightarrow>
          if mf_config fs \<noteq> None \<or> mf_db fs \<noteq> None \<or> mf_side fs then (Mig_Failed (1, Already_Installed), fs)
          else if ms_locked src then (Mig_Failed (1, Docker_Running), fs)
          else (case migrate_body mk dotenv quote unquote environ fault backup src db fs of
                  (Migrated d a r n, fs1) \<Rightarrow> (Migrated d a r n, fs1)
                | (res, fs1) \<Rightarrow> (res, mig_cleanup fs fs1)))"

section \<open>What a migration leaves\<close>

text \<open>A destination without temporaries whose data directory is inside its base.\<close>

definition mig_clean :: "mig_fs \<Rightarrow> bool" where
  "mig_clean fs \<longleftrightarrow> mf_tmp_config fs = None \<and> mf_tmp_db fs = None \<and> (mf_data fs \<longrightarrow> mf_base fs)"

text \<open>What every step of the body keeps: it never removes a directory and makes no side file.\<close>

lemma copy_db_frame:
  "copy_db fault backup db fs = (r, fs1) \<Longrightarrow>
   mf_side fs1 = mf_side fs \<and> mf_base fs1 = mf_base fs \<and> mf_data fs1 = mf_data fs \<and> mf_config fs1 = mf_config fs \<and>
   mf_tmp_config fs1 = mf_tmp_config fs \<and>
   (\<forall>n. r = Inr n \<longrightarrow> mf_db fs1 = Some (fst backup) \<and> mf_tmp_db fs1 = None \<and> snd backup \<and>
      db_clients (fst backup) = db_clients db)"
  by (auto simp: copy_db_def Let_def split: prod.splits option.splits if_splits)

lemma body_frame:
  "migrate_body mk dotenv quote unquote environ fault backup src db fs = (res, fs1) \<Longrightarrow>
   mf_side fs1 = mf_side fs \<and> (mf_base fs \<longrightarrow> mf_base fs1) \<and> (mf_data fs \<longrightarrow> mf_data fs1)"
  by (auto simp: migrate_body_def Let_def split: sum.splits option.splits prod.splits if_splits dest!: copy_db_frame)

lemma cleanup_restores:
  assumes "mig_clean fs" "\<not> mf_side fs" "mf_config fs = None" "mf_db fs = None"
    "mf_side fs1 = mf_side fs" "mf_base fs \<longrightarrow> mf_base fs1" "mf_data fs \<longrightarrow> mf_data fs1"
  shows "mig_cleanup fs fs1 = fs"
  using assms by (cases fs; cases fs1) (auto simp: mig_cleanup_def mig_clean_def Let_def)

lemma no_early_success [simp]:
  "copy_db fault backup db fs \<noteq> (Inl (Migrated a b c d), fs1)"
  "check_source dotenv quote unquote fault src db \<noteq> Inl (Migrated a b c d)"
  by (auto simp: copy_db_def check_source_def source_revision_def fault_result_def Let_def
      split: prod.splits option.splits if_splits mig_fault.splits sum.splits list.splits)

lemma body_success:
  assumes "migrate_body mk dotenv quote unquote environ fault backup src db fs = (Migrated dropped added vers n, fs1)"
    and "mig_clean fs"
  shows "\<exists>text. read_env (ms_env src) = Inr text \<and> convert_env text = (the (mf_config fs1), dropped, added) \<and>
    mf_config fs1 \<noteq> None \<and> check_database_url dotenv quote unquote text = None \<and> db_revision db = [vers] \<and> ms_head src = Some vers \<and>
    config_errors mk dotenv environ (the (mf_config fs1)) = [] \<and>
    mf_db fs1 = Some (fst backup) \<and> db_clients (fst backup) = db_clients db \<and> mig_clean fs1"
proof -
  let ?fs0 = "fs\<lparr>mf_base := True, mf_data := True\<rparr>"
  obtain t where c: "check_source dotenv quote unquote fault src db = Inr (t, vers)"
    and rest: "(case fault Make_Dirs of Some f \<Rightarrow> False | None \<Rightarrow> True)"
    using assms(1) by (auto simp: migrate_body_def Let_def fault_result_def split: sum.splits option.splits prod.splits if_splits mig_fault.splits)
  obtain m fs2 where k: "copy_db fault backup db ?fs0 = (Inr m, fs2)"
    using assms(1) c rest
    by (cases "copy_db fault backup db ?fs0"; cases "fst (copy_db fault backup db ?fs0)")
      (auto simp: migrate_body_def split: option.splits)
  note fr = copy_db_frame[OF k]
  obtain new d a where v: "convert_env t = (new, d, a)" by (cases "convert_env t")
  have f: "config_errors mk dotenv environ new = []" "d = dropped" "a = added" "mf_config fs1 = Some new"
      "fs1 = fs2\<lparr>mf_tmp_config := None, mf_config := Some new\<rparr>"
    using assms(1) c rest k v
    by (auto simp: migrate_body_def Let_def fault_result_def split: option.splits if_splits mig_fault.splits)
  have s: "read_env (ms_env src) = Inr t" "check_database_url dotenv quote unquote t = None"
      "db_revision db = [vers]" "ms_head src = Some vers"
    using c by (auto simp: check_source_def source_revision_def split: sum.splits option.splits if_splits mig_fault.splits list.splits)
  show ?thesis using f s v fr assms(2) by (auto simp: mig_clean_def)
qed



section \<open>The converted file\<close>

lemma drop_keys_good: "list_all good_key DROP" "good_key ADD_KEY"
  by (simp_all add: DROP_def ADD_KEY_def good_key_def key_char_def)

lemma drops_snoc: "drops (l @ [LF]) \<longleftrightarrow> drops l"
  using drop_keys_good(1) by (auto simp: drops_def list_ex_iff list_all_iff line_matches_snoc)

lemma end_last_line_all:
  assumes "\<And>l. P (l @ [LF]) \<longleftrightarrow> P l"
  shows "list_all P (end_last_line ls) \<longleftrightarrow> list_all P ls"
proof (induction ls)
  case (Cons l ls)
  then show ?case
    by (cases "ls = []") (auto simp: end_last_line_Cons end_last_line_def assms split: if_splits)
qed (simp add: end_last_line_def)

lemma add_line_facts:
  "full_line (ADD_LINE @ [LF])" "line_matches ADD_KEY (ADD_LINE @ [LF])" "\<not> drops (ADD_LINE @ [LF])"
proof -
  have "no_break ADD_LINE" by (simp add: ADD_LINE_def is_break_def)
  then show "full_line (ADD_LINE @ [LF])" by (auto simp: full_line_def)
  have e: "ADD_LINE @ [LF] = ADD_KEY @ CHR ''='' # (''json'' @ [LF])" by (simp add: ADD_LINE_def ADD_KEY_def)
  show "line_matches ADD_KEY (ADD_LINE @ [LF])"
    unfolding e line_matches_def Let_def key_append_lstrip[OF drop_keys_good(2)]
    using assigns_key[OF drop_keys_good(2), of "[]"] by simp
  show "\<not> drops (ADD_LINE @ [LF])"
    by (simp add: drops_snoc)
      (simp add: drops_def DROP_def ADD_LINE_def line_matches_def assigns_def lstrip_def py_isspace_def lower_def
        ascii_lower_def startswith_def)
qed

text \<open>
  The converted environment keeps every line of the Docker one but those of the three settings that only concern
  Docker, which are all gone and all reported, whatever their case or blanks; it says the format of the logs, adding that line
  only when it was missing; and converting it again changes nothing.
\<close>

theorem convert_env_exact:
  assumes "plain_text t" and "convert_env t = (new, dropped, added)"
  shows "map strip_break (splitlines_keep new) = map strip_break (filter (\<lambda>l. \<not> drops l) (splitlines_keep t)) @ added \<and>
         length dropped = length (filter drops (splitlines_keep t)) \<and>
         list_all (\<lambda>l. \<not> drops l) (splitlines_keep new) \<and>
         list_ex (line_matches ADD_KEY) (splitlines_keep new) \<and>
         (added = [] \<longleftrightarrow> list_ex (line_matches ADD_KEY) (filter (\<lambda>l. \<not> drops l) (splitlines_keep t))) \<and>
         convert_env new = (new, [], [])"
proof -
  let ?ls = "splitlines_keep t" and ?kept = "filter (\<lambda>l. \<not> drops l) (splitlines_keep t)"
  have ok: "lines_ok ?kept" by (intro lines_ok_filter splitlines_lines_ok assms(1))
  have nd: "list_all (\<lambda>l. \<not> drops l) ?kept" by (simp add: list_all_iff)
  have d: "dropped = map dropped_name (filter drops ?ls)"
    using assms(2) by (auto simp: convert_env_def Let_def split: if_splits)
  obtain L where L: "new = concat L" "lines_ok L" "list_all (\<lambda>l. \<not> drops l) L" "list_ex (line_matches ADD_KEY) L"
    "map strip_break L = map strip_break ?kept @ added"
    "added = [] \<longleftrightarrow> list_ex (line_matches ADD_KEY) ?kept"
  proof (cases "list_ex (line_matches ADD_KEY) ?kept")
    case True
    then show thesis using assms(2) ok nd by (intro that[of ?kept]) (auto simp: convert_env_def Let_def)
  next
    case False
    let ?L = "end_last_line ?kept @ [ADD_LINE @ [LF]]"
    have "lines_ok ?L"
      by (rule lines_ok_append[OF end_last_line_full[OF ok]]) (simp add: add_line_facts)
    moreover have "list_all (\<lambda>l. \<not> drops l) ?L"
      using nd end_last_line_all[of "\<lambda>l. \<not> drops l" ?kept] add_line_facts by (simp add: drops_snoc)
    moreover have "strip_break (ADD_LINE @ [LF]) = ADD_LINE"
      by (rule strip_break_full) (simp add: ADD_LINE_def is_break_def)
    ultimately show thesis
      using assms(2) False add_line_facts end_last_line_bodies[OF ok]
      by (intro that[of ?L]) (auto simp: convert_env_def Let_def)
  qed
  have s: "splitlines_keep new = L" unfolding L(1) by (rule splitlines_concat[OF L(2)])
  have "filter (\<lambda>l. \<not> drops l) L = L" "filter drops L = []"
    using L(3) by (auto simp: list_all_iff filter_id_conv filter_empty_conv)
  then have "convert_env new = (new, [], [])"
    using L(4) by (simp add: convert_env_def s L(1)[symmetric] Let_def)
  then show ?thesis using L s d by auto
qed

theorem convert_env_exact_witness:
  "convert_env (fst (convert_env (''A=1'' @ [LF] @ ''gateway_uid = 5''))) = (fst (convert_env (''A=1'' @ [LF] @ ''gateway_uid = 5'')), [], [])"
proof -
  obtain new dropped added where c: "convert_env (''A=1'' @ [LF] @ ''gateway_uid = 5'') = (new, dropped, added)"
    by (metis prod_cases3)
  have "plain_text (''A=1'' @ [LF] @ ''gateway_uid = 5'')" by (simp add: is_break_def)
  from convert_env_exact[OF this c] have "convert_env new = (new, [], [])" by blast
  then show ?thesis unfolding c fst_conv .
qed

end
