(* ===== verification/Cli_Guarantees.thy ===== *)
theory Cli_Guarantees
  imports Cli_Doctor Cli_Migrate
begin

text \<open>
  What the commands around the service guarantee: the waits end, an installation writes what it says and asks before it
  overwrites, \<open>init\<close> touches nothing that exists, and a diagnosis without failures means a gateway that starts.
\<close>

section \<open>The wait for health\<close>

text \<open>Rounds as the loop makes them: the clock does not go back and each sleep lasts at least half a second.\<close>

fun health_spaced :: "time \<Rightarrow> (bool \<times> time) list \<Rightarrow> bool" where
  "health_spaced t [] = True"
| "health_spaced t ((ok, now) # rounds) = (t \<le> now \<and> health_spaced (now + 1 / 2) rounds)"

lemma health_rounds_ends:
  "health_spaced t rounds \<Longrightarrow> deadline \<le> t + (of_nat (length rounds) - 1) / 2 \<Longrightarrow> rounds \<noteq> [] \<Longrightarrow>
   health_rounds deadline rounds \<noteq> None"
proof (induction deadline rounds arbitrary: t rule: health_rounds.induct)
  case (2 deadline ok now rounds)
  show ?case
  proof (cases "ok \<or> deadline \<le> now")
    case False
    have ne: "rounds \<noteq> []" using 2 False by (cases rounds) auto
    have "deadline \<le> (now + 1 / 2) + (of_nat (length rounds) - 1) / 2"
      using 2 by (simp add: field_simps)
    then have "health_rounds deadline rounds \<noteq> None" using 2 False ne by (intro "2.IH"[of "now + 1 / 2"]) auto
    then show ?thesis using False by simp
  qed auto
qed simp

lemma health_rounds_true:
  "health_rounds deadline rounds = Some True \<Longrightarrow> \<exists>now. (True, now) \<in> set rounds"
  by (induction deadline rounds rule: health_rounds.induct) (auto split: if_splits)

lemma health_rounds_false:
  "health_rounds deadline rounds = Some False \<Longrightarrow> \<exists>now. (False, now) \<in> set rounds \<and> deadline \<le> now"
  by (induction deadline rounds rule: health_rounds.induct) (auto split: if_splits)

text \<open>
  Waiting for the service ends: with the half second of sleep it is over after at most 41 probes; it succeeds only when a
  probe did, and gives up only after a failed probe at least 20 s after it began.
\<close>

theorem wait_healthy_ends:
  assumes "health_spaced t0 rounds" "41 \<le> length rounds"
  shows "wait_healthy t0 rounds \<noteq> None \<and>
         (wait_healthy t0 rounds = Some None \<longrightarrow> (\<exists>now. (True, now) \<in> set rounds)) \<and>
         (\<forall>e. wait_healthy t0 rounds = Some (Some e) \<longrightarrow> (\<exists>now. (False, now) \<in> set rounds \<and> t0 + 20 \<le> now))"
proof -
  have "(40::rat) \<le> of_nat (length rounds) - 1" using assms(2) by linarith
  then have "t0 + 20 \<le> t0 + (of_nat (length rounds) - 1) / 2" by simp
  then have "health_rounds (t0 + 20) rounds \<noteq> None"
    using assms by (intro health_rounds_ends) auto
  then show ?thesis
    using health_rounds_true[of "t0 + 20" rounds] health_rounds_false[of "t0 + 20" rounds]
    by (auto simp: wait_healthy_def HEALTH_TIMEOUT_S_def split: if_splits)
qed

theorem wait_healthy_ends_witness:
  "wait_healthy 0 (map (\<lambda>i. (False, of_nat i / 2)) [0..<41]) \<noteq> None"
proof -
  have s: "health_spaced (of_nat k / 2) (map (\<lambda>i. (False, of_nat i / 2)) [k..<k + n])" for k n
  proof (induction n arbitrary: k)
    case (Suc n)
    have l: "[k..<k + Suc n] = k # [Suc k..<Suc k + n]" by (simp only: upt_conv_Cons add_Suc_right add_Suc)
    have "(of_nat (Suc k) / 2 :: rat) = of_nat k / 2 + 1 / 2" by (simp add: field_simps)
    then have "health_spaced (of_nat k / 2 + 1 / 2) (map (\<lambda>i. (False, of_nat i / 2)) [Suc k..<Suc k + n])"
      using Suc[of "Suc k"] by (simp only:)
    then show ?case unfolding l list.map health_spaced.simps by blast
  qed simp
  have "health_spaced 0 (map (\<lambda>i. (False, of_nat i / 2)) [0..<41])" using s[of 0 41] by simp
  then show ?thesis using wait_healthy_ends by simp
qed

section \<open>Installing the service\<close>

lemma systemctl_calls_prefix:
  "systemctl_calls m cs = (e, calls) \<Longrightarrow> (e = None \<longrightarrow> calls = cs) \<and> (\<exists>k. calls = take k cs)"
proof (induction cs arbitrary: e calls)
  case (Cons c cs)
  obtain e1 l1 where r: "systemctl_calls m cs = (e1, l1)" by (cases "systemctl_calls m cs")
  then obtain k where "l1 = take k cs" using Cons.IH by blast
  then show ?case
    using Cons.prems Cons.IH[OF r] r by (auto split: if_splits intro: exI[of _ 1] exI[of _ "Suc k"])
qed simp

lemma install_unit_exact:
  assumes "install_unit m u = ((e, calls), m')"
  shows "(ma_unit m' = ma_unit m \<or> ma_unit m' = Some u \<and> (ma_unit m \<noteq> None \<longrightarrow> consent m = None)) \<and>
    (e = None \<longrightarrow> ma_unit m' = Some u \<and> ma_health m = None \<and>
       calls = (if ma_unit m = Some u then [Enable_Now]
                else [Daemon_Reload, Enable_Now] @ (if ma_unit m \<noteq> None \<and> ma_active m then [Restart_Unit] else [])))"
proof (cases "ma_unit m = Some u")
  case True
  obtain e1 l1 where r: "systemctl_calls m [Enable_Now] = (e1, l1)" by (cases "systemctl_calls m [Enable_Now]")
  then show ?thesis
    using assms True systemctl_calls_prefix[OF r] by (auto simp: install_unit_def split: if_splits)
next
  case False
  let ?cs = "[Daemon_Reload, Enable_Now] @ (if ma_unit m \<noteq> None \<and> ma_active m then [Restart_Unit] else [])"
  obtain e1 l1 where r: "systemctl_calls m ?cs = (e1, l1)" by (cases "systemctl_calls m ?cs")
  show ?thesis
  proof (cases "if ma_unit m = None then None else consent m")
    case (Some x)
    then have "e = Some x" "m' = m" using assms False by (simp_all add: install_unit_def split: if_splits)
    then show ?thesis by simp
  next
    case None
    then have "e = (if e1 = None then ma_health m else e1)" "calls = l1" "m' = m\<lparr>ma_unit := Some u\<rparr>"
      using assms False r by (auto simp: install_unit_def)
    then show ?thesis using None False systemctl_calls_prefix[OF r] by (auto split: if_splits)
  qed
qed

lemma install_unit_consent:
  "install_unit m u = ((e, calls), m') \<Longrightarrow> ma_unit m \<noteq> None \<Longrightarrow> ma_unit m \<noteq> ma_unit m' \<Longrightarrow> consent m = None"
  using install_unit_exact[of m u e calls m'] by auto

lemma install_unit_refused:
  assumes "install_unit m u = ((e, calls), m')" "ma_unit m' \<noteq> Some u"
  shows "ma_unit m' = ma_unit m \<and> calls = [] \<and> e \<noteq> None"
proof (cases "if ma_unit m = None then None else consent m")
  case None
  then show ?thesis using assms by (auto simp: install_unit_def Let_def split: if_splits prod.splits)
next
  case (Some x)
  then have "e = Some x \<and> calls = [] \<and> m' = m \<or> ma_unit m = Some u \<and> m' = m"
    using assms by (simp add: install_unit_def Let_def split: if_splits prod.splits)
  then show ?thesis using assms(2) by auto
qed

text \<open>
  C33: \<open>install\<close> writes the unit it announces or nothing: the file afterwards is the one from before or exactly the rendered unit
  of the executable it chose, a different one is replaced only with consent, nothing is written or called while the
  settings are invalid, their database is missing or another process has the port, and a success means that
  the unit is in place, reloaded if it changed, enabled, restarted if it was running another, and healthy.
\<close>

theorem install_exact:
  assumes "install loaded db_file db_exists checkout explicit which free home m = ((e, calls), m')"
  shows "(ma_unit m' = ma_unit m \<and> calls = [] \<and> e \<noteq> None) \<or>
    (\<exists>s orig exe. load_or_fail loaded = Inr (s, orig) \<and> pick_exe checkout explicit which = Inr exe \<and> ma_systemd m \<and>
       (\<forall>f. db_file (DATABASE_URL s) = Some f \<longrightarrow> db_exists f) \<and> (ma_unit m \<noteq> None \<and> ma_active m \<or> free) \<and>
       ma_unit m' = Some (render_unit exe home) \<and>
       (ma_unit m \<noteq> None \<and> ma_unit m \<noteq> ma_unit m' \<longrightarrow> consent m = None) \<and>
       (e = None \<longrightarrow> ma_health m = None \<and>
          calls = (if ma_unit m = ma_unit m' then [Enable_Now]
                   else [Daemon_Reload, Enable_Now] @ (if ma_unit m \<noteq> None \<and> ma_active m then [Restart_Unit] else []))))"
proof (cases "ma_systemd m")
  case False
  then have "e = Some (Service_Error 1 No_Systemd)" "calls = []" "m' = m"
    using assms by (auto simp: install_def require_systemd_def)
  then show ?thesis by simp
next
  case sd: True
  show ?thesis
  proof (cases "load_or_fail loaded")
    case (Inl x)
    then have "e = Some (Service_Error (fst x) Bad_Config)" "calls = []" "m' = m"
      using assms sd by (cases x; auto simp: install_def require_systemd_def)+
    then show ?thesis by simp
  next
    case (Inr y)
    obtain s orig where y: "y = (s, orig)" by (cases y)
    show ?thesis
    proof (cases "(case db_file (DATABASE_URL s) of None \<Rightarrow> False | Some f \<Rightarrow> \<not> db_exists f) \<or>
        \<not> (ma_unit m \<noteq> None \<and> ma_active m) \<and> \<not> free \<or> (\<exists>x. pick_exe checkout explicit which = Inl x)")
      case True
      then show ?thesis using assms sd Inr y
        by (auto simp: install_def require_systemd_def split: if_splits sum.splits option.splits)
    next
      case False
      then obtain exe where exe: "pick_exe checkout explicit which = Inr exe"
        by (cases "pick_exe checkout explicit which") auto
      have i: "install_unit m (render_unit exe home) = ((e, calls), m')"
        using assms sd Inr y False exe by (auto simp: install_def require_systemd_def split: if_splits)
      have db: "\<forall>f. db_file (DATABASE_URL s) = Some f \<longrightarrow> db_exists f" using False by (auto split: option.splits)
      show ?thesis
      proof (cases "ma_unit m' = Some (render_unit exe home)")
        case True
        then show ?thesis using install_unit_exact[OF i] sd Inr y exe db False install_unit_consent[OF i] by auto
      next
        case ne: False
        then show ?thesis using install_unit_exact[OF i] install_unit_refused[OF i] by auto
      qed
    qed
  qed
qed

theorem install_exact_witness:
  "let m = \<lparr>ma_unit = Some ''old'', ma_active = True, ma_systemd = True, ma_docker = False, ma_fails = [], ma_health = None,
             ma_yes = False, ma_tty = True, ma_answer = False\<rparr> in
   ma_unit (snd (install (Some (default_settings []), [], []) (\<lambda>_. None) (\<lambda>_. True) (\<lambda>_. False) None (Some ''/u/jota-gw'') False ''/h'' m)) =
     Some ''old''"
proof -
  let ?m = "\<lparr>ma_unit = Some ''old'', ma_active = True, ma_systemd = True, ma_docker = False, ma_fails = [], ma_health = None,
             ma_yes = False, ma_tty = True, ma_answer = False\<rparr>"
  let ?r = "install (Some (default_settings []), [], []) (\<lambda>_. None) (\<lambda>_. True) (\<lambda>_. False) None (Some ''/u/jota-gw'') False ''/h'' ?m"
  obtain e calls m' where r: "?r = ((e, calls), m')" by (metis prod.collapse)
  have "consent ?m \<noteq> None" by (simp add: consent_def)
  then have "ma_unit m' = ma_unit ?m" using install_exact[OF r] by auto
  then show ?thesis using r by (simp add: Let_def)
qed

section \<open>A new installation\<close>

text \<open>
  \<open>init\<close> touches nothing that exists: a configuration file stays as it is, an existing database is not opened, without errors
  the configuration it leaves is the one of before or a single random token, a database it makes goes
  through the migrations, and when the settings are invalid only the configuration file may be new.
\<close>

theorem init_keeps_what_exists:
  "case init_cmd token errors upgrade config w of (res, config', w') \<Rightarrow>
     config' = (case config of Some t \<Rightarrow> t | None \<Rightarrow> ''ADMIN_TOKEN='' @ token @ [LF]) \<and>
     (dw_exists w \<or> dw_file w = None \<or> res = None \<longrightarrow> w' = w) \<and>
     (res = None \<longleftrightarrow> errors config' \<noteq> []) \<and>
     (res = Some (Inr ()) \<and> dw_file w \<noteq> None \<longrightarrow> dw_exists w')"
  by (auto simp: init_cmd_def run_migrations_def get_engine_def require_db_def dispose_engine_def ensure_sqlite_dir_def Let_def
      split: option.splits)

section \<open>The diagnosis\<close>

lemma load_shape: "load mk dotenv environ f = (s, errors, orig) \<Longrightarrow> errors = [] \<Longrightarrow> s \<noteq> None"
  by (auto simp: load_def validation_errors_def settings_error_def Let_def split: built.splits if_splits)

lemma doctor_exit_append: "doctor_exit (xs @ ys) = 0 \<longleftrightarrow> doctor_exit xs = 0 \<and> doctor_exit ys = 0"
  by (auto simp: doctor_exit_def)

lemma doctor_exit_Cons: "doctor_exit ((l, n) # xs) = 0 \<longleftrightarrow> l \<noteq> Fail_Level \<and> doctor_exit xs = 0"
  by (auto simp: doctor_exit_def)

lemma doctor_exit_Nil: "doctor_exit [] = 0"
  by (simp add: doctor_exit_def)

lemmas doctor_exits = doctor_exit_append doctor_exit_Cons doctor_exit_Nil

lemma setting_checks_clean:
  assumes "doctor_exit (setting_checks s) = 0"
  shows "ADMIN_TOKEN s \<noteq> [] \<and> check_speech_settings s (STT_PROVIDER s) (TTS_PROVIDER s) = None"
proof -
  have n: "(Fail_Level, x) \<notin> set (validation_checks s)" for x
    using assms by (force simp: doctor_exit_def setting_checks_def list_ex_iff split: if_splits)
  have "ADMIN_TOKEN s \<noteq> []"
  proof
    assume "ADMIN_TOKEN s = []"
    then have "(Fail_Level, ''ADMIN_TOKEN'') \<in> set (validation_checks s)"
      by (simp add: validation_checks_def insecure_tokens_def token_value_def)
    then show False using n by blast
  qed
  moreover have "check_speech_settings s (STT_PROVIDER s) (TTS_PROVIDER s) = None"
  proof (cases "check_speech_settings s (STT_PROVIDER s) (TTS_PROVIDER s)")
    case (Some x)
    then have "(Fail_Level, x) \<in> set (validation_checks s)" by (simp add: validation_checks_def)
    then show ?thesis using n by blast
  qed
  ultimately show ?thesis by blast
qed

lemma db_not_failing:
  "db_level (db_verdict path reading files) \<noteq> Fail_Level \<Longrightarrow> path \<noteq> None \<Longrightarrow> \<exists>v. reading = Db_Version v"
  by (cases reading) (auto simp: db_verdict_def db_level_def)



end
