(* ===== verification/Log_Lines.thy ===== *)
theory Log_Lines
  imports Cli_Service
begin

text \<open>
  \<open>core/logging.py\<close> and the handler of validation errors of \<open>main.py\<close>: the two formats of a log record and the filter of
  the access log, against the reader of the lines in \<open>cli/logs.py\<close> (theory Cli\_Service); and the values of an
  error made safe for JSON.
\<close>

section \<open>Records and formats\<close>

text \<open>
  A log record: \<open>lr_time\<close> is when it was made, \<open>lr_msg\<close> the message with its arguments, \<open>lr_exc\<close> the formatted exception
  and \<open>lr_attrs\<close> its \<open>__dict__\<close>, whose values are taken as JSON.
\<close>

record log_record =
  lr_time :: time
  lr_level :: string
  lr_name :: string
  lr_msg :: string
  lr_exc :: "string option"
  lr_attrs :: dict

definition STD_ATTRS :: "string list" where
  "STD_ATTRS =
     [''name'', ''msg'', ''args'', ''levelname'', ''levelno'', ''pathname'', ''filename'', ''module'', ''exc_info'', ''exc_text'',
      ''stack_info'', ''lineno'', ''funcName'', ''created'', ''msecs'', ''relativeCreated'', ''thread'', ''threadName'',
      ''processName'', ''process'', ''message'', ''asctime'', ''taskName'', ''color_message'']"

definition extras :: "log_record \<Rightarrow> dict" where
  "extras r = filter (\<lambda>(k, _). k \<notin> set STD_ATTRS) (lr_attrs r)"

text \<open>\<open>JsonFormatter.format\<close>: the fields of the line; \<open>data.update\<close> lets an extra replace one of them.\<close>

definition json_fields :: "(time \<Rightarrow> string) \<Rightarrow> log_record \<Rightarrow> dict" where
  "json_fields isof r =
     foldl (\<lambda>d (k, v). dput k v d)
       ([(''ts'', JStr (isof (lr_time r))), (''level'', JStr (lr_level r)), (''logger'', JStr (lr_name r)),
         (''msg'', JStr (lr_msg r))] @ (case lr_exc r of None \<Rightarrow> [] | Some e \<Rightarrow> [(''exc'', JStr e)]))
       (extras r)"

definition json_line :: "(json \<Rightarrow> string) \<Rightarrow> (time \<Rightarrow> string) \<Rightarrow> log_record \<Rightarrow> string" where
  "json_line dumps isof r = dumps (JObj (json_fields isof r))"

definition BAR :: string where "BAR = '' | ''"

text \<open>\<open>_TEXT_FORMAT\<close>; the library adds the exception on the lines after it.\<close>

definition text_line :: "(time \<Rightarrow> string) \<Rightarrow> log_record \<Rightarrow> string" where
  "text_line asctime r = asctime (lr_time r) @ BAR @ lr_name r @ BAR @ lr_level r @ BAR @ lr_msg r"

text \<open>\<open>HealthzAccessFilter\<close>: the arguments of the access record when they are a tuple.\<close>

definition access_shown :: "json list option \<Rightarrow> bool" where
  "access_shown args =
     (case args of Some xs \<Rightarrow> \<not> (3 \<le> length xs \<and> xs ! 2 = JStr ''/healthz'') | None \<Rightarrow> True)"

text \<open>\<open>configure_logging\<close>: the formatter of the root and of each logger of uvicorn (\<open>None\<close>: the one it had).\<close>

datatype formatter = Json_Formatter | Text_Formatter

definition UVICORN_LOGGERS :: "string list" where
  "UVICORN_LOGGERS = [''uvicorn'', ''uvicorn.error'', ''uvicorn.access'']"

definition configure_logging :: "string \<Rightarrow> formatter \<times> (string \<Rightarrow> formatter option)" where
  "configure_logging fmt =
     (if fmt = ''json'' then (Json_Formatter, \<lambda>n. if n \<in> set UVICORN_LOGGERS then Some Json_Formatter else None)
      else (Text_Formatter, \<lambda>_. None))"

section \<open>Validation errors\<close>

text \<open>A value of an error: a finite float or another JSON leaf, a float that is not finite with its text, or a container.\<close>

datatype err_value =
    Leaf json
  | Non_Finite string
  | Dict_Value "(string \<times> err_value) list"
  | List_Value "err_value list"

fun json_safe :: "err_value \<Rightarrow> json" where
  "json_safe (Leaf j) = j"
| "json_safe (Non_Finite s) = JStr s"
| "json_safe (Dict_Value d) = JObj (map (\<lambda>(k, v). (k, json_safe v)) d)"
| "json_safe (List_Value xs) = JArr (map json_safe xs)"

definition validation_error_response :: "err_value list \<Rightarrow> nat \<times> json" where
  "validation_error_response errors = (422, JObj [(''detail'', json_safe (List_Value errors))])"

section \<open>The lines are read back\<close>

lemma split_max_bar:
  assumes "CHR ''|'' \<notin> set a"
  shows "split_max BAR (Suc n) acc (a @ BAR @ s) = (acc @ a) # split_max BAR n [] s"
  using assms
proof (induction a arbitrary: acc)
  case Nil
  have "startswith (BAR @ s) BAR" by simp
  then show ?case by (simp add: BAR_def)
next
  case (Cons c a)
  have "\<not> startswith ((c # a) @ BAR @ s) BAR"
    using Cons.prems by (cases a) (auto simp: BAR_def startswith_def)
  then show ?case using Cons by simp
qed

lemma text_line_split:
  assumes "CHR ''|'' \<notin> set (asctime (lr_time r))" "CHR ''|'' \<notin> set (lr_name r)" "CHR ''|'' \<notin> set (lr_level r)"
  shows "split_max BAR 3 [] (text_line asctime r) = [asctime (lr_time r), lr_name r, lr_level r, lr_msg r]"
  using split_max_bar[OF assms(1)] split_max_bar[OF assms(2)] split_max_bar[OF assms(3)]
  by (simp add: text_line_def numeral_3_eq_3)

lemma fields_keep:
  "k \<notin> fst ` set es \<Longrightarrow> map_of (foldl (\<lambda>d (k, v). dput k v d) d es) k = map_of d k"
  by (induction es arbitrary: d) auto

lemma fields_extra:
  "distinct (map fst es) \<Longrightarrow> (k, v) \<in> set es \<Longrightarrow> map_of (foldl (\<lambda>d (k, v). dput k v d) d es) k = Some v"
proof (induction es arbitrary: d)
  case (Cons e es)
  then show ?case
  proof (cases "(k, v) = e")
    case True
    with Cons.prems have "k \<notin> fst ` set es" by force
    with True show ?thesis using fields_keep[of k es] by (auto split: prod.splits)
  next
    case False
    with Cons show ?thesis by simp
  qed
qed simp

lemma json_field:
  assumes "k \<notin> fst ` set (extras r)"
  shows "map_of (json_fields isof r) k =
    map_of ([(''ts'', JStr (isof (lr_time r))), (''level'', JStr (lr_level r)), (''logger'', JStr (lr_name r)),
       (''msg'', JStr (lr_msg r))] @ (case lr_exc r of None \<Rightarrow> [] | Some e \<Rightarrow> [(''exc'', JStr e)])) k"
  unfolding json_fields_def by (rule fields_keep[OF assms])

lemma json_extra:
  assumes "distinct (map fst (lr_attrs r))" "map_of (extras r) k = Some v"
  shows "map_of (json_fields isof r) k = Some v"
proof -
  have "distinct (map fst (extras r))"
    using assms(1) unfolding extras_def by (rule distinct_map_filter)
  then show ?thesis unfolding json_fields_def using map_of_SomeD[OF assms(2)] by (rule fields_extra)
qed

lemma json_id:
  assumes "distinct (map fst (lr_attrs r))" "k \<in> {''session_id'', ''client_id''}"
  shows "map_of (json_fields isof r) k = map_of (extras r) k"
proof (cases "map_of (extras r) k")
  case None
  then have "k \<notin> fst ` set (extras r)" by (simp add: map_of_eq_None_iff)
  from json_field[OF this, of isof] assms(2) show ?thesis
    by (auto simp: None split: option.splits)
next
  case (Some v)
  then show ?thesis using json_extra[OF assms(1)] by simp
qed

text \<open>
  The reader of the log lines understands what the gateway writes, in both formats: asked for a least level it shows
  exactly the records of that level or above, and asked for a session exactly the JSON lines whose extra fields name
  it as their session or client. What is used of the libraries: decoding undoes encoding, an encoded object
  begins with a brace, and neither the date nor the name of a logger has a bar.
\<close>

theorem log_lines_read_back:
  assumes json: "\<And>d. loads (dumps (JObj d)) = Some (JObj d)" "\<And>d. startswith (dumps (JObj d)) ''{''"
      "\<And>s. str (JStr s) = s"
    and r: "lr_level r \<in> set LEVELS" "distinct (map fst (lr_attrs r))" "''level'' \<notin> fst ` set (extras r)"
    and bars: "CHR ''|'' \<notin> set (asctime (lr_time r))" "CHR ''|'' \<notin> set (lr_name r)"
      "\<not> startswith (text_line asctime r) ''{''"
  shows "(log_matches loads str (Some m) None (json_line dumps isof r) \<longleftrightarrow>
            level_index (upper m) \<le> level_index (lr_level r)) \<and>
         (log_matches loads str (Some m) None (text_line asctime r) \<longleftrightarrow>
            level_index (upper m) \<le> level_index (lr_level r)) \<and>
         (log_matches loads str None (Some sid) (json_line dumps isof r) \<longleftrightarrow>
            JStr sid \<in> {dget (extras r) ''session_id'', dget (extras r) ''client_id''})"
proof (intro conjI)
  have "map_of (json_fields isof r) ''level'' = Some (JStr (lr_level r))"
    using json_field[OF r(3), of isof] by simp
  then have "level_of loads str (json_line dumps isof r) = Some (lr_level r)"
    by (simp add: level_of_def json_line_def json)
  then show "log_matches loads str (Some m) None (json_line dumps isof r) \<longleftrightarrow>
      level_index (upper m) \<le> level_index (lr_level r)"
    using r(1) by (auto simp: log_matches_def)
  have "CHR ''|'' \<notin> set (lr_level r)" using r(1) by (auto simp: LEVELS_def)
  then have "level_of loads str (text_line asctime r) = Some (lr_level r)"
    using bars(3) text_line_split[of asctime r, OF bars(1,2)] by (simp add: level_of_def BAR_def)
  then show "log_matches loads str (Some m) None (text_line asctime r) \<longleftrightarrow>
      level_index (upper m) \<le> level_index (lr_level r)"
    using r(1) by (auto simp: log_matches_def)
  show "log_matches loads str None (Some sid) (json_line dumps isof r) \<longleftrightarrow>
      JStr sid \<in> {dget (extras r) ''session_id'', dget (extras r) ''client_id''}"
    using json_id[OF r(2)] by (auto simp: log_matches_def json_line_def json dget_def)
qed

text \<open>An error is encoded without a value that is not finite: every such float is the string of its text.\<close>

fun finite_leaves :: "err_value \<Rightarrow> bool" where
  "finite_leaves (Leaf j) = True"
| "finite_leaves (Non_Finite s) = False"
| "finite_leaves (Dict_Value d) = list_all (\<lambda>(_, v). finite_leaves v) d"
| "finite_leaves (List_Value xs) = list_all finite_leaves xs"

fun texts_in :: "err_value \<Rightarrow> err_value" where
  "texts_in (Leaf j) = Leaf j"
| "texts_in (Non_Finite s) = Leaf (JStr s)"
| "texts_in (Dict_Value d) = Dict_Value (map (\<lambda>(k, v). (k, texts_in v)) d)"
| "texts_in (List_Value xs) = List_Value (map texts_in xs)"

lemma json_safe_texts: "finite_leaves (texts_in v) \<and> json_safe (texts_in v) = json_safe v"
proof (induction v rule: json_safe.induct)
  case (3 d)
  then show ?case by (force simp: list_all_iff split: prod.splits)
qed (auto simp: list_all_iff)

end
